(* ===== verification/Prelude.thy ===== *)
theory Prelude
  imports Main "HOL-Library.Word"
begin

text \<open>
  What every component of the development shares: the widths of the C integer types, the
  outcome of a C function that may abort, big-endian encoding as done by \<open>htonl\<close>/\<open>htons\<close>,
  and lemmas on words and on lists of indices.

  A C function that can fail an assertion, read or write outside a block, divide by zero,
  shift by too much, follow a dangling pointer or loop for ever returns a value of \<open>'a res\<close>:
  \<open>Inr\<close> the result, \<open>Inl\<close> the reason why there is none. The theorems that an operation
  returns \<open>Inr\<close> are therefore memory-safety and termination statements.
\<close>

named_theorems seq_simps \<open>serial-number comparisons, as distances\<close>
named_theorems res_simps \<open>evaluation of computations that may abort\<close>

type_synonym u8 = "8 word"
type_synonym u16 = "16 word"
type_synonym u32 = "32 word"
type_synonym u64 = "64 word"
type_synonym byte = u8

section \<open>Computations that may abort\<close>

datatype abort =
    AssertFail        \<comment> \<open>a false \<open>g_assert\<close> or \<open>assert\<close>\<close>
  | OutOfBounds       \<comment> \<open>a read or a write outside a block\<close>
  | DivByZero
  | ShiftUB           \<comment> \<open>a shift whose C result is undefined\<close>
  | BadPointer        \<comment> \<open>NULL or a freed object is dereferenced\<close>
  | Diverges          \<comment> \<open>the loop's iteration bound is exceeded\<close>

type_synonym 'a res = "abort + 'a"

definition bindr :: "'a res \<Rightarrow> ('a \<Rightarrow> 'b res) \<Rightarrow> 'b res" where
  "bindr m f = (case m of Inl e \<Rightarrow> Inl e | Inr x \<Rightarrow> f x)"

definition g_assert :: "bool \<Rightarrow> unit res" where
  "g_assert b = (if b then Inr () else Inl AssertFail)"

lemma bindr_Inr [simp, res_simps]: "bindr (Inr x) f = f x"
  by (simp add: bindr_def)

lemma bindr_Inl [simp, res_simps]: "bindr (Inl e) f = Inl e"
  by (simp add: bindr_def)

lemma g_assert_True [simp, res_simps]: "g_assert True = Inr ()"
  by (simp add: g_assert_def)

lemma g_assert_False [simp, res_simps]: "g_assert False = Inl AssertFail"
  by (simp add: g_assert_def)

lemma g_assert_Inr [simp]: "(g_assert b = Inr u) = b"
  by (simp add: g_assert_def)

lemma bindr_eq_Inr: "(bindr m f = Inr y) = (\<exists>x. m = Inr x \<and> f x = Inr y)"
  by (cases m) auto

lemma bindr_InrE [elim!]:
  assumes "bindr m f = Inr y"
  obtains x where "m = Inr x" and "f x = Inr y"
  using assms by (auto simp: bindr_eq_Inr)

lemma bindr_cong [fundef_cong]:
  assumes "m = m'" and "\<And>x. m' = Inr x \<Longrightarrow> f x = g x"
  shows "bindr m f = bindr m' g"
  using assms by (cases m') simp_all

lemma bindr_assoc: "bindr (bindr m f) g = bindr m (\<lambda>x. bindr (f x) g)"
  by (cases m) simp_all

text \<open>
  \<open>post Q m\<close>: if \<open>m\<close> returns, its result satisfies \<open>Q\<close>. \<open>total Q m\<close>: \<open>m\<close> returns and its result
  satisfies \<open>Q\<close>.
\<close>

definition post :: "('a \<Rightarrow> bool) \<Rightarrow> 'a res \<Rightarrow> bool" where
  "post Q m \<longleftrightarrow> (\<forall>x. m = Inr x \<longrightarrow> Q x)"

definition total :: "('a \<Rightarrow> bool) \<Rightarrow> 'a res \<Rightarrow> bool" where
  "total Q m \<longleftrightarrow> (\<exists>x. m = Inr x \<and> Q x)"

lemma post_simps [simp]:
  "post Q (Inr x) = Q x" "post Q (Inl e) = True"
  "post Q (bindr m f) = post (\<lambda>x. post Q (f x)) m"
  "post R (g_assert b) = (b \<longrightarrow> R ())"
  by (auto simp: post_def bindr_eq_Inr)

lemma post_if [simp]: "post Q (if b then m else m') = ((b \<longrightarrow> post Q m) \<and> (\<not> b \<longrightarrow> post Q m'))"
  by simp

lemma postD: "post Q m \<Longrightarrow> m = Inr x \<Longrightarrow> Q x"
  by (simp add: post_def)

lemma post_mono: "post Q m \<Longrightarrow> (\<And>x. Q x \<Longrightarrow> R x) \<Longrightarrow> post R m"
  by (simp add: post_def)

lemma post_eqI: "(\<And>x. m = Inr x \<Longrightarrow> R x) \<Longrightarrow> post R m"
  by (simp add: post_def)

lemma total_simps [simp]:
  "total Q (Inr x) = Q x" "total Q (Inl e) = False"
  "total Q (bindr m f) = total (\<lambda>x. total Q (f x)) m"
  "total R (g_assert b) = (b \<and> R ())"
  by (auto simp: total_def bindr_eq_Inr)

lemma total_if [simp]: "total Q (if b then m else m') = ((b \<longrightarrow> total Q m) \<and> (\<not> b \<longrightarrow> total Q m'))"
  by simp

lemma total_mono: "total Q m \<Longrightarrow> (\<And>x. Q x \<Longrightarrow> R x) \<Longrightarrow> total R m"
  by (auto simp: total_def)

lemma total_post: "total Q m \<Longrightarrow> post R m \<Longrightarrow> total (\<lambda>x. Q x \<and> R x) m"
  by (auto simp: total_def post_def)

text \<open>\<open>safely D Q m\<close>: \<open>m\<close> returns a result that satisfies \<open>Q\<close>, or, if \<open>D\<close> allows it, runs for ever.\<close>

definition safely :: "bool \<Rightarrow> ('a \<Rightarrow> bool) \<Rightarrow> 'a res \<Rightarrow> bool" where
  "safely D Q m \<longleftrightarrow> (case m of Inr x \<Rightarrow> Q x | Inl e \<Rightarrow> D \<and> e = Diverges)"

lemma safely_simps [simp]:
  "safely D Q (Inr x) = Q x" "safely D Q (Inl e) = (D \<and> e = Diverges)"
  "safely D Q (bindr m f) = safely D (\<lambda>x. safely D Q (f x)) m"
  "safely D R (g_assert b) = (b \<and> R ())"
  by (auto simp: safely_def bindr_def g_assert_def split: sum.splits)

lemma safely_if [simp]: "safely D Q (if b then m else m') = ((b \<longrightarrow> safely D Q m) \<and> (\<not> b \<longrightarrow> safely D Q m'))"
  by simp

lemma safely_mono: "safely D Q m \<Longrightarrow> (\<And>x. Q x \<Longrightarrow> R x) \<Longrightarrow> safely D R m"
  by (auto simp: safely_def split: sum.splits)

lemma safely_total: "safely False Q m = total Q m"
  by (auto simp: safely_def total_def split: sum.splits)

lemma total_safely: "total Q m \<Longrightarrow> (\<And>x. Q x \<Longrightarrow> R x) \<Longrightarrow> safely D R m"
  by (auto simp: safely_def total_def)

section \<open>Blocks of memory\<close>

text \<open>A block of memory is its size and a function from indices to bytes.\<close>

definition blk_read :: "(nat \<Rightarrow> byte) \<Rightarrow> nat \<Rightarrow> nat \<Rightarrow> nat \<Rightarrow> byte list res" where
  "blk_read mem sz pos n =
     (if pos + n \<le> sz then Inr (map mem [pos..<pos + n]) else Inl OutOfBounds)"

definition blk_write :: "(nat \<Rightarrow> byte) \<Rightarrow> nat \<Rightarrow> nat \<Rightarrow> byte list \<Rightarrow> (nat \<Rightarrow> byte) res" where
  "blk_write mem sz pos bs =
     (if pos + length bs \<le> sz
      then Inr (\<lambda>i. if pos \<le> i \<and> i < pos + length bs then bs ! (i - pos) else mem i)
      else Inl OutOfBounds)"

definition src_read :: "byte list \<Rightarrow> nat \<Rightarrow> nat \<Rightarrow> byte list res" where
  "src_read bs pos n = (if pos + n \<le> length bs then Inr (take n (drop pos bs)) else Inl OutOfBounds)"

definition umod :: "nat \<Rightarrow> nat \<Rightarrow> nat res" where
  "umod a b = (if b = 0 then Inl DivByZero else Inr (a mod b))"

section \<open>Words as numbers\<close>

lemma unat_sub_le: "(b::'a::len word) \<le> a \<Longrightarrow> unat (a - b) = unat a - unat b"
  by (simp add: unat_sub)

lemma unat_diff_of_add:
  fixes a b :: "'a::len word"
  assumes "unat a + k < 2 ^ LENGTH('a)" and "b = a + of_nat k"
  shows "unat b = unat a + k"
  using assms by (simp add: unat_word_ariths unat_of_nat)

lemma word_add_diff_of_nat: "(a::'a::len word) + of_nat k - a = of_nat k"
  by simp

lemma unat_of_nat_small: "k < 2 ^ LENGTH('a) \<Longrightarrow> unat (of_nat k :: 'a::len word) = k"
  by (simp add: unat_of_nat)

lemma word_eq_add_unat: "(a::'a::len word) = b + of_nat (unat (a - b))"
  by simp

section \<open>Network byte order\<close>

unbundle bit_operations_syntax

definition htonl_bytes :: "u32 \<Rightarrow> byte list" where
  "htonl_bytes w = [ucast (drop_bit 24 w), ucast (drop_bit 16 w), ucast (drop_bit 8 w), ucast w]"

definition ntohl_bytes :: "byte \<Rightarrow> byte \<Rightarrow> byte \<Rightarrow> byte \<Rightarrow> u32" where
  "ntohl_bytes a b c d =
     push_bit 24 (ucast a) OR push_bit 16 (ucast b) OR push_bit 8 (ucast c) OR ucast d"

definition htons_bytes :: "u16 \<Rightarrow> byte list" where
  "htons_bytes w = [ucast (drop_bit 8 w), ucast w]"

definition ntohs_bytes :: "byte \<Rightarrow> byte \<Rightarrow> u16" where
  "ntohs_bytes a b = push_bit 8 (ucast a) OR ucast b"

lemma ntohl_htonl [simp]:
  "ntohl_bytes (ucast (drop_bit 24 w)) (ucast (drop_bit 16 w)) (ucast (drop_bit 8 w)) (ucast w) = w"
proof (rule bit_eqI)
  fix n :: nat
  consider "n < 8" | "8 \<le> n" "n < 16" | "16 \<le> n" "n < 24" | "24 \<le> n"
    by linarith
  then show "bit (ntohl_bytes (ucast (drop_bit 24 w)) (ucast (drop_bit 16 w))
      (ucast (drop_bit 8 w)) (ucast w)) n \<longleftrightarrow> bit w n"
    by cases (auto simp: ntohl_bytes_def bit_simps dest: bit_imp_le_length)
qed

lemma ntohs_htons [simp]: "ntohs_bytes (ucast (drop_bit 8 w)) (ucast w) = w"
  unfolding ntohs_bytes_def
  by (rule bit_eqI) (auto simp: bit_simps)

lemma length_htonl_bytes [simp]: "length (htonl_bytes w) = 4"
  by (simp add: htonl_bytes_def)

lemma length_htons_bytes [simp]: "length (htons_bytes w) = 2"
  by (simp add: htons_bytes_def)

end
