(* ===== verification/SeqArith.thy ===== *)
theory SeqArith
  imports Prelude
begin

text \<open>
  The arithmetic on sequence numbers and on millisecond time stamps of
  \<open>src/session/pseudotcp/pseudotcp.c\<close>: \<open>bound\<close>, \<open>time_is_between\<close>, \<open>time_diff\<close> and the macros
  \<open>LARGER\<close>, \<open>LARGER_OR_EQUAL\<close>, \<open>SMALLER\<close>, \<open>SMALLER_OR_EQUAL\<close>. Both spaces are 32 bits wide and
  wrap; the lemmas express each test by the forward distance \<open>a - b\<close> on the circle.
\<close>

section \<open>Definitions\<close>

definition bound :: "u32 \<Rightarrow> u32 \<Rightarrow> u32 \<Rightarrow> u32" where
  "bound lower middle upper = min (max lower middle) upper"

definition time_is_between :: "u32 \<Rightarrow> u32 \<Rightarrow> u32 \<Rightarrow> bool" where
  "time_is_between later middle earlier =
     (if earlier \<le> later then earlier \<le> middle \<and> middle \<le> later
      else \<not> (later < middle \<and> middle < earlier))"

text \<open>The conversion of a \<open>long\<close> to \<open>gint32\<close> on return.\<close>

definition to_gint32 :: "int \<Rightarrow> int" where
  "to_gint32 x = sint (of_int x :: u32)"

definition time_diff :: "u32 \<Rightarrow> u32 \<Rightarrow> int" where
  "time_diff later earlier =
     (let LAST = 0xFFFFFFFF; HALF = 0x80000000 in
      if time_is_between (earlier + HALF) later earlier
      then (if earlier \<le> later then to_gint32 (uint (later - earlier))
            else to_gint32 (uint (later + (LAST - earlier) + 1)))
      else (if later \<le> earlier then to_gint32 (- uint (earlier - later))
            else to_gint32 (- uint (earlier + (LAST - later) + 1))))"

definition LARGER :: "u32 \<Rightarrow> u32 \<Rightarrow> bool" where
  "LARGER a b = (a - b - 1 < 0x7FFFFFFF)"

definition LARGER_OR_EQUAL :: "u32 \<Rightarrow> u32 \<Rightarrow> bool" where
  "LARGER_OR_EQUAL a b = (a - b < 0x7FFFFFFF)"

definition SMALLER :: "u32 \<Rightarrow> u32 \<Rightarrow> bool" where
  "SMALLER a b = LARGER b a"

definition SMALLER_OR_EQUAL :: "u32 \<Rightarrow> u32 \<Rightarrow> bool" where
  "SMALLER_OR_EQUAL a b = LARGER_OR_EQUAL b a"

section \<open>Properties\<close>

lemma to_gint32_uint [simp]: "to_gint32 (uint w) = sint (w :: u32)"
  by (simp add: to_gint32_def)

lemma to_gint32_neg_uint [simp]: "to_gint32 (- uint w) = sint (- w :: u32)"
  by (simp add: to_gint32_def)

lemma time_diff_sint: "time_diff later earlier = sint (later - earlier)"
proof -
  have *: "later + (0xFFFFFFFF - earlier) + 1 = later - earlier"
    "earlier + (0xFFFFFFFF - later) + 1 = earlier - later"
    by simp_all
  show ?thesis
    unfolding time_diff_def Let_def * by simp
qed

text \<open>
  \<open>time_diff\<close> computes the signed 32-bit difference of two wrapping time stamps, on every
  pair of inputs: the case analysis of the code agrees with two's complement subtraction.
\<close>

theorem time_diff_signed_difference: "time_diff later earlier = sint (later - earlier)"
  by (rule time_diff_sint)

lemma LARGER_unat [seq_simps]:
  "LARGER a b = (0 < unat (a - b) \<and> unat (a - b) \<le> 0x7FFFFFFF)"
proof (cases "a = b")
  case True
  then show ?thesis by (simp add: LARGER_def)
next
  case False
  then have "unat (a - b - 1) = unat (a - b) - 1" and "0 < unat (a - b)"
    by (auto simp: unat_minus_one unat_gt_0)
  then show ?thesis
    by (auto simp: LARGER_def word_less_nat_alt)
qed

lemma LARGER_OR_EQUAL_unat [seq_simps]: "LARGER_OR_EQUAL a b = (unat (a - b) < 0x7FFFFFFF)"
  by (simp add: LARGER_OR_EQUAL_def word_less_nat_alt)

lemma SMALLER_unat [seq_simps]:
  "SMALLER a b = (0 < unat (b - a) \<and> unat (b - a) \<le> 0x7FFFFFFF)"
  by (simp add: SMALLER_def LARGER_unat)

lemma SMALLER_OR_EQUAL_unat [seq_simps]: "SMALLER_OR_EQUAL a b = (unat (b - a) < 0x7FFFFFFF)"
  by (simp add: SMALLER_OR_EQUAL_def LARGER_OR_EQUAL_unat)

lemma bound_between: "lower \<le> upper \<Longrightarrow> lower \<le> bound lower m upper \<and> bound lower m upper \<le> upper"
  by (simp add: bound_def)

section \<open>Sequence numbers of stream positions\<close>

text \<open>
  \<open>seqno base p\<close> is the sequence number of position \<open>p\<close> of a byte stream whose first byte has
  number \<open>base\<close>. While the positions compared are at most \<open>2^30\<close>, the comparisons of sequence
  numbers are the comparisons of positions, wherever the numbers wrap.
\<close>

definition seqno :: "u32 \<Rightarrow> nat \<Rightarrow> u32" where
  "seqno base p = base + of_nat p"

lemma seqno_0 [simp]: "seqno base 0 = base"
  by (simp add: seqno_def)

lemma seqno_add: "seqno base (p + n) = seqno base p + of_nat n"
  by (simp add: seqno_def)

lemma seqno_diff: "p \<le> q \<Longrightarrow> seqno base q - seqno base p = of_nat (q - p)"
  by (simp add: seqno_def)

lemma unat_seqno_diff:
  assumes "p \<le> q" and "q - p < 2 ^ 32"
  shows "unat (seqno base q - seqno base p) = q - p"
  unfolding seqno_diff [OF assms(1)] using assms(2) by (intro unat_of_nat_small) simp

lemma unat_seqno_diff_neg:
  assumes "q < p" and "p - q < 2 ^ 32"
  shows "unat (seqno base q - seqno base p) = 2 ^ 32 - (p - q)"
proof -
  have "seqno base q - seqno base p = of_nat (2 ^ 32 - (p - q))"
    using assms by (simp add: seqno_def of_nat_diff)
  then show ?thesis
    using assms(1) unat_of_nat_small [where 'a = 32, of "2 ^ 32 - (p - q)"] by simp
qed

lemma seqno_eq:
  assumes "p \<le> 2 ^ 30" and "q \<le> 2 ^ 30"
  shows "seqno base p = seqno base q \<longleftrightarrow> p = q"
proof
  assume "seqno base p = seqno base q"
  then have "unat (seqno base q - seqno base p) = 0"
    by simp
  moreover have "q - p < 2 ^ 32" "p - q < 2 ^ 32"
    using assms by auto
  ultimately show "p = q"
    using unat_seqno_diff [of p q base] unat_seqno_diff_neg [of q p base]
    by (cases "p \<le> q") auto
qed simp

lemma SMALLER_seqno:
  assumes "p \<le> 2 ^ 30" and "q \<le> 2 ^ 30"
  shows "SMALLER (seqno base p) (seqno base q) = (p < q)"
  using assms unat_seqno_diff [of p q base] unat_seqno_diff_neg [of q p base]
  by (cases "p \<le> q") (auto simp: SMALLER_unat)

lemma SMALLER_OR_EQUAL_seqno:
  assumes "p \<le> 2 ^ 30" and "q \<le> 2 ^ 30"
  shows "SMALLER_OR_EQUAL (seqno base p) (seqno base q) = (p \<le> q)"
  using assms unat_seqno_diff [of p q base] unat_seqno_diff_neg [of q p base]
  by (cases "p \<le> q") (auto simp: SMALLER_OR_EQUAL_unat)

lemma LARGER_seqno:
  assumes "p \<le> 2 ^ 30" and "q \<le> 2 ^ 30"
  shows "LARGER (seqno base p) (seqno base q) = (q < p)"
  using SMALLER_seqno [OF assms(2,1)] by (simp add: SMALLER_def)

lemma LARGER_OR_EQUAL_seqno:
  assumes "p \<le> 2 ^ 30" and "q \<le> 2 ^ 30"
  shows "LARGER_OR_EQUAL (seqno base p) (seqno base q) = (q \<le> p)"
  using SMALLER_OR_EQUAL_seqno [OF assms(2,1)] by (simp add: SMALLER_OR_EQUAL_def)

end
