(* ===== verification/Fifo.thy ===== *)
theory Fifo
  imports Prelude
begin

text \<open>
  The ring buffer \<open>PseudoTcpFifo\<close> of \<open>src/session/pseudotcp/pseudotcp.c\<close> and its operations.
  Every \<open>memcpy\<close> is checked against the size of the blocks it touches, and every \<open>%\<close> against a
  zero divisor.

  \<open>fifo_cell f k\<close> is the byte at logical offset \<open>k\<close> after the read position; the first
  \<open>data_length\<close> cells are the queued bytes (\<open>fifo_data\<close>), the others are free space, in which
  \<open>write_offset\<close> can place bytes ahead of time. Every operation is specified by what it does
  to the cells, and the locale \<open>byte_queue\<close> states the queue contract that follows from it.
\<close>

section \<open>The operations\<close>

record fifo =
  buffer :: "nat \<Rightarrow> byte"
  buffer_length :: nat
  data_length :: nat
  read_position :: nat

text \<open>
  \<open>junk\<close> is what a fresh block happens to hold. The structure itself is zeroed by the
  allocation of the socket, so \<open>init\<close> sets the other two fields to zero.
\<close>

definition pseudo_tcp_fifo_init :: "(nat \<Rightarrow> byte) \<Rightarrow> nat \<Rightarrow> fifo" where
  "pseudo_tcp_fifo_init junk sz =
     \<lparr> buffer = junk, buffer_length = sz, data_length = 0, read_position = 0 \<rparr>"

definition pseudo_tcp_fifo_clear :: "fifo \<Rightarrow> fifo" where
  "pseudo_tcp_fifo_clear b = b\<lparr> buffer := (\<lambda>_. 0), buffer_length := 0 \<rparr>"

definition pseudo_tcp_fifo_get_buffered :: "fifo \<Rightarrow> nat" where
  "pseudo_tcp_fifo_get_buffered b = data_length b"

definition pseudo_tcp_fifo_set_capacity ::
    "(nat \<Rightarrow> byte) \<Rightarrow> fifo \<Rightarrow> nat \<Rightarrow> (bool \<times> fifo) res" where
  "pseudo_tcp_fifo_set_capacity junk b sz =
     (if data_length b > sz then Inr (False, b)
      else if sz \<noteq> data_length b then
        (let copy = data_length b;
             tail_copy = min copy (buffer_length b - read_position b)
         in bindr (blk_read (buffer b) (buffer_length b) (read_position b) tail_copy) (\<lambda>d1.
            bindr (blk_write junk sz 0 d1) (\<lambda>m1.
            bindr (blk_read (buffer b) (buffer_length b) 0 (copy - tail_copy)) (\<lambda>d2.
            bindr (blk_write m1 sz tail_copy d2) (\<lambda>m2.
            Inr (True, b\<lparr> buffer := m2, buffer_length := sz, read_position := 0 \<rparr>))))))
      else Inr (True, b))"

definition pseudo_tcp_fifo_consume_read_data :: "fifo \<Rightarrow> nat \<Rightarrow> fifo res" where
  "pseudo_tcp_fifo_consume_read_data b sz =
     bindr (g_assert (sz \<le> data_length b)) (\<lambda>_.
     bindr (umod (read_position b + sz) (buffer_length b)) (\<lambda>rp.
     Inr (b\<lparr> read_position := rp, data_length := data_length b - sz \<rparr>)))"

definition pseudo_tcp_fifo_consume_write_buffer :: "fifo \<Rightarrow> nat \<Rightarrow> fifo res" where
  "pseudo_tcp_fifo_consume_write_buffer b sz =
     bindr (g_assert (sz \<le> buffer_length b - data_length b)) (\<lambda>_.
     Inr (b\<lparr> data_length := data_length b + sz \<rparr>))"

definition pseudo_tcp_fifo_get_write_remaining :: "fifo \<Rightarrow> nat" where
  "pseudo_tcp_fifo_get_write_remaining b = buffer_length b - data_length b"

text \<open>The bytes copied into the caller's buffer are the result; their number is its length.\<close>

definition pseudo_tcp_fifo_read_offset :: "fifo \<Rightarrow> nat \<Rightarrow> nat \<Rightarrow> byte list res" where
  "pseudo_tcp_fifo_read_offset b bytes offset =
     bindr (umod (read_position b + offset) (buffer_length b)) (\<lambda>rp.
     if offset \<ge> data_length b then Inr []
     else
       (let available = data_length b - offset;
            copy = min bytes available;
            tail_copy = min copy (buffer_length b - rp)
        in bindr (blk_read (buffer b) (buffer_length b) rp tail_copy) (\<lambda>d1.
           bindr (blk_read (buffer b) (buffer_length b) 0 (copy - tail_copy)) (\<lambda>d2.
           Inr (d1 @ d2)))))"

definition pseudo_tcp_fifo_write_offset ::
    "fifo \<Rightarrow> byte list \<Rightarrow> nat \<Rightarrow> nat \<Rightarrow> (nat \<times> fifo) res" where
  "pseudo_tcp_fifo_write_offset b data bytes offset =
     bindr (umod (read_position b + data_length b + offset) (buffer_length b)) (\<lambda>wp.
     if data_length b + offset \<ge> buffer_length b then Inr (0, b)
     else
       (let available = buffer_length b - data_length b - offset;
            copy = min bytes available;
            tail_copy = min copy (buffer_length b - wp)
        in bindr (src_read data 0 tail_copy) (\<lambda>d1.
           bindr (blk_write (buffer b) (buffer_length b) wp d1) (\<lambda>m1.
           bindr (src_read data tail_copy (copy - tail_copy)) (\<lambda>d2.
           bindr (blk_write m1 (buffer_length b) 0 d2) (\<lambda>m2.
           Inr (copy, b\<lparr> buffer := m2 \<rparr>)))))))"

definition pseudo_tcp_fifo_read :: "fifo \<Rightarrow> nat \<Rightarrow> (byte list \<times> fifo) res" where
  "pseudo_tcp_fifo_read b bytes =
     bindr (pseudo_tcp_fifo_read_offset b bytes 0) (\<lambda>out.
     let copy = length out in
     bindr (umod (read_position b + copy) (buffer_length b)) (\<lambda>rp.
     Inr (out, b\<lparr> read_position := rp, data_length := data_length b - copy \<rparr>)))"

definition pseudo_tcp_fifo_write :: "fifo \<Rightarrow> byte list \<Rightarrow> nat \<Rightarrow> (nat \<times> fifo) res" where
  "pseudo_tcp_fifo_write b data bytes =
     bindr (pseudo_tcp_fifo_write_offset b data bytes 0) (\<lambda>(copy, b').
     Inr (copy, b'\<lparr> data_length := data_length b' + copy \<rparr>))"

section \<open>Abstraction and invariant\<close>

definition fifo_ok :: "fifo \<Rightarrow> bool" where
  "fifo_ok f \<longleftrightarrow> read_position f < buffer_length f \<and> data_length f \<le> buffer_length f"

definition fifo_cell :: "fifo \<Rightarrow> nat \<Rightarrow> byte" where
  "fifo_cell f k = buffer f ((read_position f + k) mod buffer_length f)"

definition fifo_cells :: "fifo \<Rightarrow> nat \<Rightarrow> nat \<Rightarrow> byte list" where
  "fifo_cells f k n = map (fifo_cell f) [k..<k + n]"

definition fifo_data :: "fifo \<Rightarrow> byte list" where
  "fifo_data f = fifo_cells f 0 (data_length f)"

lemma length_fifo_cells [simp]: "length (fifo_cells f k n) = n"
  by (simp add: fifo_cells_def)

lemma nth_fifo_cells [simp]: "i < n \<Longrightarrow> fifo_cells f k n ! i = fifo_cell f (k + i)"
  by (simp add: fifo_cells_def)

lemma fifo_cells_0 [simp]: "fifo_cells f k 0 = []"
  by (simp add: fifo_cells_def)

lemma fifo_cells_add: "fifo_cells f k (m + n) = fifo_cells f k m @ fifo_cells f (k + m) n"
  by (rule nth_equalityI) (auto simp: nth_append)

lemma length_fifo_data [simp]: "length (fifo_data f) = data_length f"
  by (simp add: fifo_data_def)

lemma fifo_cells_eqI:
  "(\<And>i. i < n \<Longrightarrow> fifo_cell f (k + i) = fifo_cell g (l + i)) \<Longrightarrow> fifo_cells f k n = fifo_cells g l n"
  by (rule nth_equalityI) auto

lemma take_fifo_data: "n \<le> data_length f \<Longrightarrow> take n (fifo_data f) = fifo_cells f 0 n"
  by (rule nth_equalityI) (auto simp: fifo_data_def)

lemma drop_fifo_data: "n \<le> data_length f \<Longrightarrow> drop n (fifo_data f) = fifo_cells f n (data_length f - n)"
  by (rule nth_equalityI) (auto simp: fifo_data_def)

section \<open>Ring arithmetic\<close>

lemma ring_index:
  fixes s :: nat
  assumes "s < bl" and "j < bl"
  shows "(s + j) mod bl = (if s + j < bl then s + j else s + j - bl)"
  using assms le_mod_geq [of bl "s + j"] by simp

text \<open>Two consecutive copies, to the end of the block and then to its start, fill a ring.\<close>

lemma ring_write:
  assumes s: "s < bl" and n: "length d \<le> bl"
    and d1: "d1 = take (min (length d) (bl - s)) d" and d2: "d2 = drop (min (length d) (bl - s)) d"
  shows "\<exists>m1 m2. blk_write mem bl s d1 = Inr m1 \<and> blk_write m1 bl 0 d2 = Inr m2 \<and>
     (\<forall>j < bl. m2 ((s + j) mod bl) = (if j < length d then d ! j else mem ((s + j) mod bl)))"
proof -
  have l1: "length d1 = min (length d) (bl - s)" and l2: "length d2 = length d - (bl - s)"
    using d1 d2 by auto
  let ?m1 = "\<lambda>i. if s \<le> i \<and> i < s + length d1 then d1 ! (i - s) else mem i"
  let ?m2 = "\<lambda>i. if 0 \<le> i \<and> i < 0 + length d2 then d2 ! (i - 0) else ?m1 i"
  have w1: "blk_write mem bl s d1 = Inr ?m1"
    using s l1 by (auto simp: blk_write_def)
  have w2: "blk_write ?m1 bl 0 d2 = Inr ?m2"
    using n l2 by (auto simp: blk_write_def)
  have "?m2 ((s + j) mod bl) = (if j < length d then d ! j else mem ((s + j) mod bl))"
    if j: "j < bl" for j
  proof (cases "s + j < bl")
    case True
    then have "(s + j) mod bl = s + j" by simp
    moreover have "\<not> s + j < length d2" using True l2 n s by linarith
    ultimately show ?thesis using True l1 d1 by auto
  next
    case False
    then have m: "(s + j) mod bl = s + j - bl" using ring_index [OF s j] by simp
    have "\<not> s \<le> s + j - bl" using False j s by linarith
    moreover have "s + j - bl < length d2 \<longleftrightarrow> j < length d" using l2 False s by linarith
    moreover have "d2 ! (s + j - bl) = d ! j" if "j < length d"
    proof -
      have "d2 ! (s + j - bl) = d ! (min (length d) (bl - s) + (s + j - bl))"
        unfolding d2 using that False s by (intro nth_drop) simp
      also have "min (length d) (bl - s) + (s + j - bl) = j"
        using that False s by simp
      finally show ?thesis .
    qed
    ultimately show ?thesis unfolding m by simp
  qed
  then show ?thesis using w1 w2 by blast
qed

lemma ring_read:
  assumes s: "s < bl" and n: "n \<le> bl"
  shows "\<exists>d1 d2. blk_read mem bl s (min n (bl - s)) = Inr d1 \<and>
     blk_read mem bl 0 (n - min n (bl - s)) = Inr d2 \<and>
     d1 @ d2 = map (\<lambda>j. mem ((s + j) mod bl)) [0..<n]"
proof -
  let ?t = "min n (bl - s)"
  have r1: "blk_read mem bl s ?t = Inr (map mem [s..<s + ?t])"
    using s by (auto simp: blk_read_def)
  have r2: "blk_read mem bl 0 (n - ?t) = Inr (map mem [0..<n - ?t])"
    using n by (auto simp: blk_read_def)
  have "map mem [s..<s + ?t] @ map mem [0..<n - ?t] = map (\<lambda>j. mem ((s + j) mod bl)) [0..<n]"
  proof (rule nth_equalityI)
    show "length (map mem [s..<s + ?t] @ map mem [0..<n - ?t])
        = length (map (\<lambda>j. mem ((s + j) mod bl)) [0..<n])"
      by simp
    fix i assume "i < length (map mem [s..<s + ?t] @ map mem [0..<n - ?t])"
    then have "i < n" by simp
    with n have i: "i < bl" by simp
    show "(map mem [s..<s + ?t] @ map mem [0..<n - ?t]) ! i
        = map (\<lambda>j. mem ((s + j) mod bl)) [0..<n] ! i"
      using \<open>i < n\<close> s ring_index [OF s i] by (auto simp: nth_append add.commute)
  qed
  then show ?thesis using r1 r2 by blast
qed

section \<open>What each operation does to the cells\<close>

lemma fifo_ok_pos: "fifo_ok f \<Longrightarrow> 0 < buffer_length f"
  by (simp add: fifo_ok_def)

lemma fifo_ok_init: "0 < n \<Longrightarrow> fifo_ok (pseudo_tcp_fifo_init junk n)"
  by (simp add: fifo_ok_def pseudo_tcp_fifo_init_def)

lemma fifo_read_offset_spec:
  assumes ok: "fifo_ok f"
  shows "pseudo_tcp_fifo_read_offset f n off = Inr (fifo_cells f off (min n (data_length f - off)))"
proof (cases "off < data_length f")
  case False
  then show ?thesis using fifo_ok_pos [OF ok]
    by (simp add: pseudo_tcp_fifo_read_offset_def umod_def)
next
  case True
  let ?bl = "buffer_length f" and ?rp = "(read_position f + off) mod buffer_length f"
  let ?c = "min n (data_length f - off)"
  have rp: "?rp < ?bl" and c: "?c \<le> ?bl" using ok by (auto simp: fifo_ok_def)
  obtain d1 d2 where d: "blk_read (buffer f) ?bl ?rp (min ?c (?bl - ?rp)) = Inr d1"
    "blk_read (buffer f) ?bl 0 (?c - min ?c (?bl - ?rp)) = Inr d2"
    "d1 @ d2 = map (\<lambda>j. buffer f ((?rp + j) mod ?bl)) [0..<?c]"
    using ring_read [OF rp c] by blast
  have "map (\<lambda>j. buffer f ((?rp + j) mod ?bl)) [0..<?c] = fifo_cells f off ?c"
    by (rule nth_equalityI) (auto simp: fifo_cell_def mod_add_left_eq add.assoc)
  then show ?thesis using True d fifo_ok_pos [OF ok]
    by (simp add: pseudo_tcp_fifo_read_offset_def umod_def Let_def)
qed

lemma fifo_write_offset_spec:
  assumes ok: "fifo_ok f" and len: "n \<le> length d"
    and c: "c = min n (buffer_length f - data_length f - off)"
  shows "\<exists>f'. pseudo_tcp_fifo_write_offset f d n off = Inr (c, f') \<and> fifo_ok f' \<and>
     buffer_length f' = buffer_length f \<and> data_length f' = data_length f \<and>
     read_position f' = read_position f \<and>
     (\<forall>k < buffer_length f. fifo_cell f' k =
        (if data_length f + off \<le> k \<and> k < data_length f + off + c
         then d ! (k - (data_length f + off)) else fifo_cell f k))"
proof (cases "data_length f + off < buffer_length f")
  case False
  then show ?thesis using ok c fifo_ok_pos [OF ok]
    by (auto simp: pseudo_tcp_fifo_write_offset_def umod_def)
next
  case True
  let ?bl = "buffer_length f" and ?s = "data_length f + off"
  let ?wp = "(read_position f + ?s) mod ?bl"
  let ?d = "take c d"
  have wp: "?wp < ?bl" using fifo_ok_pos [OF ok] by simp
  have c': "min n (?bl - ?s) = c" using c by simp
  have cl: "length ?d = c" and cb: "c \<le> ?bl - ?s" and cn: "c \<le> n" using c len by auto
  have tk: "src_read d 0 (min c (?bl - ?wp)) = Inr (take (min (length ?d) (?bl - ?wp)) ?d)"
    using cn len cl by (auto simp: src_read_def min_def)
  have dr: "src_read d (min c (?bl - ?wp)) (c - min c (?bl - ?wp))
      = Inr (drop (min (length ?d) (?bl - ?wp)) ?d)"
    using cn len cl by (auto simp: src_read_def drop_take)
  obtain m1 m2 where m: "blk_write (buffer f) ?bl ?wp (take (min (length ?d) (?bl - ?wp)) ?d) = Inr m1"
    "blk_write m1 ?bl 0 (drop (min (length ?d) (?bl - ?wp)) ?d) = Inr m2"
    and m2: "\<And>j. j < ?bl \<Longrightarrow>
       m2 ((?wp + j) mod ?bl) = (if j < length ?d then ?d ! j else buffer f ((?wp + j) mod ?bl))"
    using ring_write [OF wp, of ?d _ _ "buffer f"] cl cb by fastforce
  have cells: "fifo_cell (f\<lparr>buffer := m2\<rparr>) k =
      (if ?s \<le> k \<and> k < ?s + c then d ! (k - ?s) else fifo_cell f k)" if k: "k < ?bl" for k
  proof -
    define j where "j = (if ?s \<le> k then k - ?s else k + ?bl - ?s)"
    have j: "j < ?bl" using k True by (auto simp: j_def)
    have "(?wp + j) mod ?bl = (read_position f + (?s + j)) mod ?bl"
      by (simp add: mod_add_left_eq add.assoc)
    also have "\<dots> = (read_position f + k) mod ?bl"
      using True by (auto simp: j_def add.assoc [symmetric])
    finally have idx: "(?wp + j) mod ?bl = (read_position f + k) mod ?bl" .
    have "j < c \<longleftrightarrow> ?s \<le> k \<and> k < ?s + c"
      using cb k True by (auto simp: j_def)
    moreover have "j = k - ?s" if "?s \<le> k" using that by (simp add: j_def)
    ultimately show ?thesis
      using m2 [OF j] cl unfolding idx by (auto simp: fifo_cell_def)
  qed
  have "pseudo_tcp_fifo_write_offset f d n off = Inr (c, f\<lparr>buffer := m2\<rparr>)"
    using True m fifo_ok_pos [OF ok] tk dr cl c'
    by (simp add: pseudo_tcp_fifo_write_offset_def umod_def Let_def add.assoc)
  then show ?thesis using ok cells by (auto simp: fifo_ok_def)
qed

lemma fifo_cell_advance:
  assumes "fifo_ok f"
  shows "fifo_cell (f\<lparr>read_position := (read_position f + n) mod buffer_length f, data_length := m\<rparr>) k
       = fifo_cell f (n + k)"
  by (simp add: fifo_cell_def mod_add_left_eq add.assoc)

lemma fifo_consume_read_spec:
  assumes ok: "fifo_ok f" and n: "n \<le> data_length f"
  shows "\<exists>f'. pseudo_tcp_fifo_consume_read_data f n = Inr f' \<and> fifo_ok f' \<and>
     buffer_length f' = buffer_length f \<and> data_length f' = data_length f - n \<and>
     (\<forall>k. fifo_cell f' k = fifo_cell f (n + k))"
  using assms fifo_ok_pos [OF ok]
  by (auto simp: pseudo_tcp_fifo_consume_read_data_def umod_def fifo_cell_advance)
     (auto simp: fifo_ok_def)

lemma fifo_consume_write_spec:
  assumes ok: "fifo_ok f" and n: "n \<le> buffer_length f - data_length f"
  shows "\<exists>f'. pseudo_tcp_fifo_consume_write_buffer f n = Inr f' \<and> fifo_ok f' \<and>
     buffer_length f' = buffer_length f \<and> data_length f' = data_length f + n \<and>
     (\<forall>k. fifo_cell f' k = fifo_cell f k)"
  using assms
  by (auto simp: pseudo_tcp_fifo_consume_write_buffer_def fifo_cell_def fifo_ok_def)

lemma fifo_read_spec:
  assumes ok: "fifo_ok f"
  shows "\<exists>f'. pseudo_tcp_fifo_read f n = Inr (take n (fifo_data f), f') \<and> fifo_ok f' \<and>
     buffer_length f' = buffer_length f \<and> data_length f' = data_length f - min n (data_length f) \<and>
     (\<forall>k. fifo_cell f' k = fifo_cell f (min n (data_length f) + k)) \<and>
     fifo_data f' = drop n (fifo_data f)"
proof -
  let ?c = "min n (data_length f)"
  let ?f' = "f\<lparr>read_position := (read_position f + ?c) mod buffer_length f,
      data_length := data_length f - ?c\<rparr>"
  have "take n (fifo_data f) = fifo_cells f 0 ?c"
    by (rule nth_equalityI) (auto simp: fifo_data_def)
  then have "pseudo_tcp_fifo_read f n = Inr (take n (fifo_data f), ?f')"
    using fifo_ok_pos [OF ok]
    by (simp add: pseudo_tcp_fifo_read_def fifo_read_offset_spec [OF ok] umod_def Let_def)
  moreover have "fifo_ok ?f'" using ok by (auto simp: fifo_ok_def)
  moreover have "fifo_data ?f' = drop n (fifo_data f)"
    by (rule nth_equalityI) (auto simp: fifo_data_def fifo_cell_advance [OF ok])
  ultimately show ?thesis using fifo_cell_advance [OF ok] by auto
qed

lemma fifo_write_spec:
  assumes ok: "fifo_ok f" and len: "n \<le> length d"
    and c: "c = min n (buffer_length f - data_length f)"
  shows "\<exists>f'. pseudo_tcp_fifo_write f d n = Inr (c, f') \<and> fifo_ok f' \<and>
     buffer_length f' = buffer_length f \<and> data_length f' = data_length f + c \<and>
     fifo_data f' = fifo_data f @ take c d"
proof -
  from c have c0: "c = min n (buffer_length f - data_length f - 0)" by simp
  from fifo_write_offset_spec [OF ok len c0] obtain f' where
    w: "pseudo_tcp_fifo_write_offset f d n 0 = Inr (c, f')" and ok': "fifo_ok f'"
    and bl: "buffer_length f' = buffer_length f" and dl: "data_length f' = data_length f"
    and cells: "\<forall>k < buffer_length f. fifo_cell f' k =
        (if data_length f \<le> k \<and> k < data_length f + c then d ! (k - data_length f) else fifo_cell f k)"
    by auto
  let ?f = "f'\<lparr>data_length := data_length f' + c\<rparr>"
  have cb: "data_length f + c \<le> buffer_length f" using ok c by (auto simp: fifo_ok_def)
  have "fifo_data ?f = fifo_data f @ take c d"
  proof (rule nth_equalityI)
    show "length (fifo_data ?f) = length (fifo_data f @ take c d)"
      using dl c len by auto
    fix i assume "i < length (fifo_data ?f)"
    then have i: "i < data_length f + c" using dl by simp
    then have "fifo_data ?f ! i = fifo_cell f' i"
      using dl by (simp add: fifo_data_def fifo_cell_def)
    also have "\<dots> = (fifo_data f @ take c d) ! i"
      using i cb cells by (auto simp: nth_append fifo_data_def)
    finally show "fifo_data ?f ! i = (fifo_data f @ take c d) ! i" .
  qed
  moreover have "fifo_ok ?f" using ok' cb bl dl by (simp add: fifo_ok_def)
  moreover have "pseudo_tcp_fifo_write f d n = Inr (c, ?f)"
    by (simp add: pseudo_tcp_fifo_write_def w)
  ultimately show ?thesis using bl dl by auto
qed

lemma fifo_set_capacity_spec:
  assumes ok: "fifo_ok f" and n: "data_length f < n"
  shows "\<exists>f'. pseudo_tcp_fifo_set_capacity junk f n = Inr (True, f') \<and> fifo_ok f' \<and>
     buffer_length f' = n \<and> fifo_data f' = fifo_data f"
proof -
  let ?bl = "buffer_length f" and ?rp = "read_position f" and ?c = "data_length f"
  let ?t = "min ?c (?bl - ?rp)"
  have rp: "?rp < ?bl" and c: "?c \<le> ?bl" using ok by (auto simp: fifo_ok_def)
  obtain d1 d2 where d: "blk_read (buffer f) ?bl ?rp ?t = Inr d1"
    "blk_read (buffer f) ?bl 0 (?c - ?t) = Inr d2"
    "d1 @ d2 = map (\<lambda>j. buffer f ((?rp + j) mod ?bl)) [0..<?c]"
    using ring_read [OF rp c] by blast
  have l1: "length d1 = ?t" and l2: "length d2 = ?c - ?t"
    using d by (auto simp: blk_read_def split: if_splits)
  have data: "d1 @ d2 = fifo_data f"
    unfolding d(3) by (simp add: fifo_data_def fifo_cells_def fifo_cell_def)
  let ?m1 = "\<lambda>i. if 0 \<le> i \<and> i < 0 + length d1 then d1 ! (i - 0) else junk i"
  let ?m2 = "\<lambda>i. if ?t \<le> i \<and> i < ?t + length d2 then d2 ! (i - ?t) else ?m1 i"
  let ?f' = "f\<lparr>buffer := ?m2, buffer_length := n, read_position := 0\<rparr>"
  have w: "blk_write junk n 0 d1 = Inr ?m1" "blk_write ?m1 n ?t d2 = Inr ?m2"
    using n l1 l2 by (auto simp: blk_write_def)
  have "pseudo_tcp_fifo_set_capacity junk f n = Inr (True, ?f')"
    using n d(1,2) w unfolding pseudo_tcp_fifo_set_capacity_def Let_def by (simp del: add_0)
  moreover have "fifo_ok ?f'" using n by (simp add: fifo_ok_def)
  moreover have "fifo_data ?f' = fifo_data f"
    unfolding data [symmetric] using n l1 l2
    by (intro nth_equalityI) (auto simp: fifo_data_def fifo_cell_def nth_append)
  ultimately show ?thesis by auto
qed

lemma fifo_set_capacity_small:
  "n < data_length f \<Longrightarrow> pseudo_tcp_fifo_set_capacity junk f n = Inr (False, f)"
  by (simp add: pseudo_tcp_fifo_set_capacity_def)

lemma fifo_set_capacity_exact:
  "pseudo_tcp_fifo_set_capacity junk f (data_length f) = Inr (True, f)"
  by (simp add: pseudo_tcp_fifo_set_capacity_def)

lemma fifo_write_cells:
  assumes ok: "fifo_ok f" and len: "n \<le> length d" and w: "pseudo_tcp_fifo_write f d n = Inr (c, f')"
    and k: "data_length f' \<le> k" "k < buffer_length f"
  shows "fifo_cell f' k = fifo_cell f k"
proof -
  let ?c = "min n (buffer_length f - data_length f - 0)"
  from fifo_write_offset_spec [OF ok len refl, of 0] obtain g where
    g: "pseudo_tcp_fifo_write_offset f d n 0 = Inr (?c, g)" "data_length g = data_length f"
    and cells: "\<forall>k < buffer_length f. fifo_cell g k =
        (if data_length f + 0 \<le> k \<and> k < data_length f + 0 + ?c
         then d ! (k - (data_length f + 0)) else fifo_cell f k)"
    by blast
  from w g have f': "f' = g\<lparr>data_length := data_length f + ?c\<rparr>"
    by (auto simp: pseudo_tcp_fifo_write_def)
  then have "fifo_cell f' k = fifo_cell g k" by (simp add: fifo_cell_def)
  moreover have "\<not> k < data_length f + ?c" using k(1) f' by auto
  ultimately show ?thesis using cells [rule_format, OF k(2)] by (simp only: add_0_right simp_thms if_False)
qed

section \<open>The queue contract\<close>

text \<open>
  What a client of the ring can do: write bytes at the end, of which a prefix may be accepted
  (\<open>Write\<close>), read and remove bytes (\<open>Read\<close>), read bytes at an offset without removing them
  (\<open>Peek\<close>, \<open>read_offset\<close>), remove bytes unread (\<open>Skip\<close>, \<open>consume_read_data\<close>), place bytes ahead
  of the end (\<open>Ahead\<close>, \<open>write_offset\<close>), append bytes that were placed ahead (\<open>Commit\<close>,
  \<open>consume_write_buffer\<close>), and change the capacity (\<open>Resize\<close>). \<open>q_out\<close> is what a call returns.
\<close>

datatype q_op = Write "byte list" | Read nat | Peek nat nat | Skip nat | Ahead "byte list" nat
  | Commit nat | Resize nat

datatype q_out = Count nat | Bytes "byte list" | Flag bool | Void

text \<open>
  The abstract queue has the bytes queued, the bytes placed ahead, by their distance from the
  end, and the capacity; \<open>aq_in\<close> and \<open>aq_out\<close> record all bytes that were ever appended and
  removed. \<open>None\<close> is a call that breaks the contract of the ring: removing more than is there,
  or appending a cell in which no byte was placed.
\<close>

record aqueue =
  aq_data :: "byte list"
  aq_ahead :: "nat \<Rightarrow> byte option"
  aq_cap :: nat
  aq_in :: "byte list"
  aq_out :: "byte list"

definition aq_append :: "byte list \<Rightarrow> aqueue \<Rightarrow> aqueue" where
  "aq_append bs a = a\<lparr> aq_data := aq_data a @ bs, aq_in := aq_in a @ bs,
     aq_ahead := (\<lambda>k. aq_ahead a (length bs + k)) \<rparr>"

definition aq_remove :: "nat \<Rightarrow> aqueue \<Rightarrow> aqueue" where
  "aq_remove n a = a\<lparr> aq_data := drop n (aq_data a), aq_out := aq_out a @ take n (aq_data a) \<rparr>"

definition aq_place :: "byte list \<Rightarrow> nat \<Rightarrow> aqueue \<Rightarrow> aqueue" where
  "aq_place bs off a = a\<lparr> aq_ahead :=
     (\<lambda>k. if off \<le> k \<and> k < off + length bs then Some (bs ! (k - off)) else aq_ahead a k) \<rparr>"

fun aq_step :: "aqueue \<Rightarrow> q_op \<Rightarrow> (q_out \<times> aqueue) option" where
  "aq_step a (Write bs) =
     (let n = min (length bs) (aq_cap a - length (aq_data a)) in Some (Count n, aq_append (take n bs) a))"
| "aq_step a (Read n) = Some (Bytes (take n (aq_data a)), aq_remove n a)"
| "aq_step a (Peek n off) = Some (Bytes (take n (drop off (aq_data a))), a)"
| "aq_step a (Skip n) = (if n \<le> length (aq_data a) then Some (Void, aq_remove n a) else None)"
| "aq_step a (Ahead bs off) =
     (let n = min (length bs) (aq_cap a - length (aq_data a) - off)
      in Some (Count n, aq_place (take n bs) off a))"
| "aq_step a (Commit n) =
     (if \<forall>k \<in> set [0..<n]. aq_ahead a k \<noteq> None
      then Some (Void, aq_append (map (\<lambda>k. the (aq_ahead a k)) [0..<n]) a) else None)"
| "aq_step a (Resize n) =
     Some (Flag (length (aq_data a) \<le> n),
       if length (aq_data a) < n then a\<lparr> aq_cap := n, aq_ahead := (\<lambda>_. None) \<rparr> else a)"

text \<open>The same calls on the ring.\<close>

fun fifo_step :: "(nat \<Rightarrow> byte) \<Rightarrow> fifo \<Rightarrow> q_op \<Rightarrow> (q_out \<times> fifo) res" where
  "fifo_step junk f (Write bs) =
     bindr (pseudo_tcp_fifo_write f bs (length bs)) (\<lambda>(n, f'). Inr (Count n, f'))"
| "fifo_step junk f (Read n) = bindr (pseudo_tcp_fifo_read f n) (\<lambda>(bs, f'). Inr (Bytes bs, f'))"
| "fifo_step junk f (Peek n off) =
     bindr (pseudo_tcp_fifo_read_offset f n off) (\<lambda>bs. Inr (Bytes bs, f))"
| "fifo_step junk f (Skip n) = bindr (pseudo_tcp_fifo_consume_read_data f n) (\<lambda>f'. Inr (Void, f'))"
| "fifo_step junk f (Ahead bs off) =
     bindr (pseudo_tcp_fifo_write_offset f bs (length bs) off) (\<lambda>(n, f'). Inr (Count n, f'))"
| "fifo_step junk f (Commit n) =
     bindr (pseudo_tcp_fifo_consume_write_buffer f n) (\<lambda>f'. Inr (Void, f'))"
| "fifo_step junk f (Resize n) =
     bindr (pseudo_tcp_fifo_set_capacity junk f n) (\<lambda>(b, f'). Inr (Flag b, f'))"

fun aq_run :: "aqueue \<Rightarrow> q_op list \<Rightarrow> (q_out list \<times> aqueue) option" where
  "aq_run a [] = Some ([], a)"
| "aq_run a (x # ops) =
     (case aq_step a x of None \<Rightarrow> None
      | Some (out, a') \<Rightarrow> (case aq_run a' ops of None \<Rightarrow> None
         | Some (outs, a'') \<Rightarrow> Some (out # outs, a'')))"

fun q_run :: "('q \<Rightarrow> q_op \<Rightarrow> (q_out \<times> 'q) res) \<Rightarrow> 'q \<Rightarrow> q_op list \<Rightarrow> (q_out list \<times> 'q) res" where
  "q_run step q [] = Inr ([], q)"
| "q_run step q (x # ops) =
     bindr (step q x) (\<lambda>(out, q'). bindr (q_run step q' ops) (\<lambda>(outs, q''). Inr (out # outs, q'')))"

text \<open>What the abstract queue itself promises: first in, first out, within the capacity.\<close>

definition aq_ok :: "aqueue \<Rightarrow> bool" where
  "aq_ok a \<longleftrightarrow> aq_in a = aq_out a @ aq_data a \<and> length (aq_data a) \<le> aq_cap a \<and>
     (\<forall>k. aq_ahead a k \<noteq> None \<longrightarrow> length (aq_data a) + k < aq_cap a)"

definition aq_empty :: "nat \<Rightarrow> aqueue" where
  "aq_empty cap = \<lparr> aq_data = [], aq_ahead = (\<lambda>_. None), aq_cap = cap, aq_in = [], aq_out = [] \<rparr>"

lemma aq_ok_append:
  "aq_ok a \<Longrightarrow> length bs \<le> aq_cap a - length (aq_data a) \<Longrightarrow> aq_ok (aq_append bs a)"
  by (auto simp: aq_ok_def aq_append_def)

lemma aq_ok_remove: "aq_ok a \<Longrightarrow> aq_ok (aq_remove n a)"
  by (fastforce simp: aq_ok_def aq_remove_def)

lemma aq_commit_fits:
  assumes "aq_ok a" and "\<forall>k \<in> set [0..<n]. aq_ahead a k \<noteq> None"
  shows "n \<le> aq_cap a - length (aq_data a)"
proof (cases n)
  case (Suc m)
  with assms(2) have "aq_ahead a m \<noteq> None" by auto
  with assms(1) have "length (aq_data a) + m < aq_cap a" unfolding aq_ok_def by blast
  with Suc show ?thesis by simp
qed simp

lemma aq_step_ok:
  assumes "aq_ok a" and "aq_step a x = Some (out, a')"
  shows "aq_ok a'"
proof (cases x)
  case (Commit n)
  with assms aq_commit_fits [of a n] show ?thesis
    by (auto simp: Let_def intro!: aq_ok_append split: if_splits)
next
  case (Ahead bs off)
  with assms show ?thesis by (auto simp: Let_def aq_ok_def aq_place_def split: if_splits)
next
  case (Resize n)
  with assms show ?thesis by (auto simp: aq_ok_def split: if_splits)
qed (use assms in \<open>auto simp: Let_def intro!: aq_ok_append aq_ok_remove split: if_splits\<close>)

lemma aq_run_ok: "aq_ok a \<Longrightarrow> aq_run a ops = Some (outs, a') \<Longrightarrow> aq_ok a'"
  by (induction ops arbitrary: a outs) (auto split: option.splits, metis aq_step_ok)

text \<open>
  The interface: a representation \<open>rep\<close> of abstract queues such that a call that keeps the
  contract returns what the abstract queue returns. A run of such calls then does so too.
\<close>

locale byte_queue =
  fixes rep :: "'q \<Rightarrow> aqueue \<Rightarrow> bool"
    and step :: "'q \<Rightarrow> q_op \<Rightarrow> (q_out \<times> 'q) res"
  assumes step_law: "rep q a \<Longrightarrow> aq_ok a \<Longrightarrow> aq_step a x = Some (out, a') \<Longrightarrow>
      \<exists>q'. step q x = Inr (out, q') \<and> rep q' a'"
begin

lemma run_refines:
  assumes "rep q a" and "aq_ok a" and "aq_run a ops = Some (outs, a')"
  shows "\<exists>q'. q_run step q ops = Inr (outs, q') \<and> rep q' a' \<and> aq_ok a'"
  using assms
proof (induction ops arbitrary: q a outs)
  case Nil
  then show ?case by simp
next
  case (Cons x ops)
  from Cons.prems(3) obtain out a1 outs1 where
    1: "aq_step a x = Some (out, a1)" "aq_run a1 ops = Some (outs1, a')" "outs = out # outs1"
    by (auto split: option.splits)
  from step_law [OF Cons.prems(1,2) 1(1)] obtain q1 where q1: "step q x = Inr (out, q1)" "rep q1 a1"
    by blast
  from Cons.IH [OF q1(2) aq_step_ok [OF Cons.prems(2) 1(1)] 1(2)] q1(1) 1(3) show ?case by auto
qed

end

text \<open>The ring represents the queue of its contents; its free cells hold the bytes placed ahead.\<close>

definition fifo_rep :: "fifo \<Rightarrow> aqueue \<Rightarrow> bool" where
  "fifo_rep f a \<longleftrightarrow> fifo_ok f \<and> fifo_data f = aq_data a \<and> buffer_length f = aq_cap a \<and>
     (\<forall>k b. aq_ahead a k = Some b \<longrightarrow> fifo_cell f (data_length f + k) = b)"

lemma fifo_rep_data: "fifo_rep f a \<Longrightarrow> data_length f = length (aq_data a)"
  unfolding fifo_rep_def using length_fifo_data [of f] by auto

lemma fifo_data_nth: "i < data_length f \<Longrightarrow> fifo_data f ! i = fifo_cell f i"
  by (simp add: fifo_data_def)

lemma fifo_data_eqI:
  "data_length f = length bs \<Longrightarrow> (\<And>i. i < length bs \<Longrightarrow> fifo_cell f i = bs ! i) \<Longrightarrow> fifo_data f = bs"
  by (rule nth_equalityI) (auto simp: fifo_data_nth)

lemma step_Write:
  assumes r: "fifo_rep f a" and a: "aq_ok a" and s: "aq_step a (Write bs) = Some (out, a')"
  shows "\<exists>f'. fifo_step junk f (Write bs) = Inr (out, f') \<and> fifo_rep f' a'"
proof -
  let ?n = "min (length bs) (buffer_length f - data_length f)"
  have ok: "fifo_ok f" using r by (simp add: fifo_rep_def)
  have s': "out = Count ?n" "a' = aq_append (take ?n bs) a"
    using s r fifo_rep_data [OF r] by (auto simp: Let_def fifo_rep_def)
  from fifo_write_spec [OF ok order_refl refl] obtain f' where
    w: "pseudo_tcp_fifo_write f bs (length bs) = Inr (?n, f')" "fifo_ok f'"
      "buffer_length f' = buffer_length f" "data_length f' = data_length f + ?n"
      "fifo_data f' = fifo_data f @ take ?n bs" by blast
  have "fifo_cell f' (data_length f' + k) = b" if "aq_ahead a' k = Some b" for k b
  proof -
    from that s' have ah: "aq_ahead a (?n + k) = Some b" by (simp add: aq_append_def)
    with a r have "data_length f + (?n + k) < buffer_length f"
      using fifo_rep_data [OF r] by (auto simp: aq_ok_def fifo_rep_def)
    then have "fifo_cell f' (data_length f' + k) = fifo_cell f (data_length f + (?n + k))"
      using fifo_write_cells [OF ok order_refl w(1), of "data_length f' + k"] w(4)
      by (simp add: add.assoc)
    with ah r show ?thesis by (simp add: fifo_rep_def)
  qed
  with w r s' have "fifo_rep f' a'" by (auto simp: fifo_rep_def aq_append_def)
  with w(1) s'(1) show ?thesis by simp
qed

lemma step_Read:
  assumes r: "fifo_rep f a" and s: "aq_step a (Read n) = Some (out, a')"
  shows "\<exists>f'. fifo_step junk f (Read n) = Inr (out, f') \<and> fifo_rep f' a'"
proof -
  have ok: "fifo_ok f" using r by (simp add: fifo_rep_def)
  from fifo_read_spec [OF ok, of n] obtain f' where
    w: "pseudo_tcp_fifo_read f n = Inr (take n (fifo_data f), f')" "fifo_ok f'"
      "buffer_length f' = buffer_length f" "data_length f' = data_length f - min n (data_length f)"
      "\<forall>k. fifo_cell f' k = fifo_cell f (min n (data_length f) + k)"
      "fifo_data f' = drop n (fifo_data f)" by blast
  have "min n (data_length f) + (data_length f' + k) = data_length f + k" for k
    using w(4) by simp
  with w r s have "fifo_rep f' a'" by (auto simp: fifo_rep_def aq_remove_def)
  with w(1) r s show ?thesis by (auto simp: fifo_rep_def)
qed

lemma step_Skip:
  assumes r: "fifo_rep f a" and s: "aq_step a (Skip n) = Some (out, a')"
  shows "\<exists>f'. fifo_step junk f (Skip n) = Inr (out, f') \<and> fifo_rep f' a'"
proof -
  have ok: "fifo_ok f" using r by (simp add: fifo_rep_def)
  have n: "n \<le> data_length f" "out = Void" "a' = aq_remove n a"
    using s fifo_rep_data [OF r] by (auto split: if_splits)
  from fifo_consume_read_spec [OF ok n(1)] obtain f' where
    w: "pseudo_tcp_fifo_consume_read_data f n = Inr f'" "fifo_ok f'"
      "buffer_length f' = buffer_length f" "data_length f' = data_length f - n"
      "\<forall>k. fifo_cell f' k = fifo_cell f (n + k)" by blast
  have "fifo_data f' = drop n (fifo_data f)"
    using w n(1) by (intro fifo_data_eqI) (auto simp: fifo_data_nth)
  moreover have "n + (data_length f' + k) = data_length f + k" for k using w(4) n(1) by simp
  ultimately have "fifo_rep f' a'" using w r n(3) by (auto simp: fifo_rep_def aq_remove_def)
  with w(1) n(2) show ?thesis by auto
qed

lemma step_Peek:
  assumes r: "fifo_rep f a" and s: "aq_step a (Peek n off) = Some (out, a')"
  shows "\<exists>f'. fifo_step junk f (Peek n off) = Inr (out, f') \<and> fifo_rep f' a'"
proof -
  have ok: "fifo_ok f" using r by (simp add: fifo_rep_def)
  have "fifo_cells f off (min n (data_length f - off)) = take n (drop off (fifo_data f))"
    by (rule nth_equalityI) (auto simp: fifo_data_nth)
  with r s show ?thesis by (auto simp: fifo_read_offset_spec [OF ok] fifo_rep_def)
qed

lemma step_Ahead:
  assumes r: "fifo_rep f a" and a: "aq_ok a" and s: "aq_step a (Ahead bs off) = Some (out, a')"
  shows "\<exists>f'. fifo_step junk f (Ahead bs off) = Inr (out, f') \<and> fifo_rep f' a'"
proof -
  let ?n = "min (length bs) (buffer_length f - data_length f - off)" and ?e = "data_length f"
  have ok: "fifo_ok f" using r by (simp add: fifo_rep_def)
  have s': "out = Count ?n" "a' = aq_place (take ?n bs) off a"
    using s r fifo_rep_data [OF r] by (auto simp: Let_def fifo_rep_def)
  from fifo_write_offset_spec [OF ok order_refl refl] obtain f' where
    w: "pseudo_tcp_fifo_write_offset f bs (length bs) off = Inr (?n, f')" "fifo_ok f'"
      "buffer_length f' = buffer_length f" "data_length f' = ?e"
      "\<forall>k < buffer_length f. fifo_cell f' k = (if ?e + off \<le> k \<and> k < ?e + off + ?n
         then bs ! (k - (?e + off)) else fifo_cell f k)" by blast
  have el: "?e \<le> buffer_length f" using ok by (simp add: fifo_ok_def)
  have "fifo_cell f' (?e + k) = b" if k: "aq_ahead a' k = Some b" for k b
  proof -
    have "?e + k < buffer_length f"
      using k a s'(2) el r fifo_rep_data [OF r]
      by (auto simp: aq_place_def aq_ok_def fifo_rep_def split: if_splits)
    with w(5) have c: "fifo_cell f' (?e + k) = (if off \<le> k \<and> k < off + ?n then bs ! (k - off)
        else fifo_cell f (?e + k))" by (simp add: add.assoc)
    show ?thesis
    proof (cases "off \<le> k \<and> k < off + ?n")
      case True
      then have "k - off < ?n" by linarith
      then have "take ?n bs ! (k - off) = bs ! (k - off)" by (rule nth_take)
      with c k s'(2) True show ?thesis by (auto simp: aq_place_def)
    next
      case False
      with c k s'(2) r show ?thesis by (auto simp: aq_place_def fifo_rep_def)
    qed
  qed
  moreover have "fifo_data f' = fifo_data f"
    using w el by (intro fifo_data_eqI) (auto simp: fifo_data_nth)
  ultimately have "fifo_rep f' a'" using w r s'(2) by (auto simp: fifo_rep_def aq_place_def)
  with w(1) s'(1) show ?thesis by simp
qed

lemma step_Commit:
  assumes r: "fifo_rep f a" and a: "aq_ok a" and s: "aq_step a (Commit n) = Some (out, a')"
  shows "\<exists>f'. fifo_step junk f (Commit n) = Inr (out, f') \<and> fifo_rep f' a'"
proof -
  have ok: "fifo_ok f" using r by (simp add: fifo_rep_def)
  have all: "\<forall>k \<in> set [0..<n]. aq_ahead a k \<noteq> None" and o: "out = Void"
    and a': "a' = aq_append (map (\<lambda>k. the (aq_ahead a k)) [0..<n]) a"
    using s by (auto split: if_splits)
  have n: "n \<le> buffer_length f - data_length f"
    using aq_commit_fits [OF a all] r fifo_rep_data [OF r] by (simp add: fifo_rep_def)
  from fifo_consume_write_spec [OF ok n] obtain f' where
    w: "pseudo_tcp_fifo_consume_write_buffer f n = Inr f'" "fifo_ok f'"
      "buffer_length f' = buffer_length f" "data_length f' = data_length f + n"
      "\<forall>k. fifo_cell f' k = fifo_cell f k" by blast
  have ah: "fifo_cell f (data_length f + k) = the (aq_ahead a k)" if "k < n" for k
    using that all r by (force simp: fifo_rep_def)
  have "fifo_data f' = fifo_data f @ map (\<lambda>k. the (aq_ahead a k)) [0..<n]"
  proof (rule fifo_data_eqI)
    show "fifo_cell f' i = (fifo_data f @ map (\<lambda>k. the (aq_ahead a k)) [0..<n]) ! i"
      if "i < length (fifo_data f @ map (\<lambda>k. the (aq_ahead a k)) [0..<n])" for i
      using that w(5) ah [of "i - data_length f"] by (auto simp: nth_append fifo_data_nth)
  qed (simp add: w(4))
  with w r a' have "fifo_rep f' a'" by (auto simp: fifo_rep_def aq_append_def add.assoc)
  with w(1) o show ?thesis by simp
qed

lemma step_Resize:
  assumes r: "fifo_rep f a" and s: "aq_step a (Resize n) = Some (out, a')"
  shows "\<exists>f'. fifo_step junk f (Resize n) = Inr (out, f') \<and> fifo_rep f' a'"
proof -
  have ok: "fifo_ok f" using r by (simp add: fifo_rep_def)
  consider "n < data_length f" | "n = data_length f" | "data_length f < n" by linarith
  then show ?thesis
    using r s fifo_set_capacity_small [of n f junk] fifo_set_capacity_exact [of junk f]
      fifo_set_capacity_spec [OF ok, of n junk] fifo_rep_data [OF r]
    by cases (auto simp: fifo_rep_def)
qed

lemmas fifo_steps = step_Write step_Read step_Peek step_Skip step_Ahead step_Commit step_Resize

interpretation ring: byte_queue fifo_rep "fifo_step junk" for junk
proof
  fix q :: fifo and a a' :: aqueue and x :: q_op and out :: q_out
  assume "fifo_rep q a" "aq_ok a" "aq_step a x = Some (out, a')"
  then show "\<exists>q'. fifo_step junk q x = Inr (out, q') \<and> fifo_rep q' a'"
    by (cases x) (blast intro: fifo_steps)+
qed

section \<open>Properties\<close>


definition q_example :: "q_op list" where
  "q_example = [Write [1, 2], Read 1, Ahead [4, 5] 1, Write [3], Peek 9 1, Skip 1, Commit 1, Resize 5, Read 9]"


text \<open>
  Growing or shrinking the ring keeps its contents: \<open>pseudo_tcp_fifo_set_capacity\<close> fails,
  changing nothing, exactly when the data would not fit; when it succeeds the queued bytes
  are unchanged and in order, whatever the read position was, and unless the new size equals
  the number of queued bytes the new capacity is the requested one.
\<close>

theorem fifo_set_capacity_keeps_data:
  assumes "fifo_ok f"
  shows "\<exists>b f'. pseudo_tcp_fifo_set_capacity junk f n = Inr (b, f') \<and> fifo_ok f' \<and>
     b = (data_length f \<le> n) \<and> fifo_data f' = fifo_data f \<and>
     buffer_length f' = (if data_length f < n then n else buffer_length f)"
proof -
  consider "n < data_length f" | "n = data_length f" | "data_length f < n" by linarith
  then show ?thesis
    using assms fifo_set_capacity_small [of n f junk] fifo_set_capacity_exact [of junk f]
      fifo_set_capacity_spec [OF assms, of n junk]
    by cases auto
qed

definition fifo_example :: fifo where
  "fifo_example = \<lparr> buffer = (\<lambda>i. if i = 0 then 9 else 8), buffer_length = 2, data_length = 2,
     read_position = 1 \<rparr>"

theorem fifo_set_capacity_keeps_data_witness:
  "\<exists>b f'. pseudo_tcp_fifo_set_capacity (\<lambda>_. 0) fifo_example 5 = Inr (b, f') \<and> fifo_ok f' \<and>
     b = (data_length fifo_example \<le> 5) \<and> fifo_data f' = fifo_data fifo_example \<and>
     buffer_length f' = (if data_length fifo_example < 5 then 5 else buffer_length fifo_example)"
  by (rule fifo_set_capacity_keeps_data) (simp add: fifo_ok_def fifo_example_def)

end
