(* ===== verification/PTcp.thy ===== *)
theory PTcp
  imports SeqArith Fifo
begin

text \<open>
  The pseudo-TCP socket of \<open>src/session/pseudotcp/pseudotcp.c\<close>: constants, data types, the
  socket structure, its callbacks, the state changes and the MTU adjustment.

  \<open>psock\<close> has the fields of \<open>struct _PseudoTcpSocketPrivate\<close>. The objects of type \<open>SSegment\<close>
  are shared by the queues \<open>slist\<close> and \<open>unsent_slist\<close> and updated through both, so they live
  in a store \<open>seg_heap\<close> and the queues hold addresses. \<open>trace\<close> is not a field of the code: it
  records the calls of the user's callbacks, the bytes accepted for sending and the bytes handed
  to the user, so that what the socket sends and reports can be stated; no function reads it. The callbacks themselves, the monotonic clock and the contents of fresh memory are
  code outside this file and are given by an environment \<open>tcp_env\<close>.

  Assertions are those of a build without \<open>NDEBUG\<close> (\<open>gfake.h\<close>).
\<close>

section \<open>Constants\<close>

definition PACKET_MAXIMUMS :: "u16 list" where
  "PACKET_MAXIMUMS = [65535, 32000, 17914, 8166, 4352, 2002, 1492, 1006, 508, 296, 0]"

definition DEF_MTU :: u32 where "DEF_MTU = 1400"
definition MAX_PACKET :: u32 where "MAX_PACKET = 65532"
definition MIN_PACKET :: u32 where "MIN_PACKET = 296"
definition HEADER_SIZE :: u32 where "HEADER_SIZE = 24"
definition PACKET_OVERHEAD :: u32 where "PACKET_OVERHEAD = HEADER_SIZE + 8 + 20 + 64"
definition MIN_RTO :: u32 where "MIN_RTO = 1000"
definition DEF_RTO :: u32 where "DEF_RTO = 1000"
definition MAX_RTO :: u32 where "MAX_RTO = 60000"
definition DEFAULT_ACK_DELAY :: u32 where "DEFAULT_ACK_DELAY = 100"
definition DEFAULT_RCV_BUF_SIZE :: u32 where "DEFAULT_RCV_BUF_SIZE = 60 * 1024"
definition DEFAULT_SND_BUF_SIZE :: u32 where "DEFAULT_SND_BUF_SIZE = 90 * 1024"

definition TCP_OPT_EOL :: u8 where "TCP_OPT_EOL = 0"
definition TCP_OPT_NOOP :: u8 where "TCP_OPT_NOOP = 1"
definition TCP_OPT_MSS :: u8 where "TCP_OPT_MSS = 2"
definition TCP_OPT_WND_SCALE :: u8 where "TCP_OPT_WND_SCALE = 3"
definition TCP_OPT_FIN_ACK :: u8 where "TCP_OPT_FIN_ACK = 254"

definition FLAG_NONE :: u8 where "FLAG_NONE = 0"
definition FLAG_FIN :: u8 where "FLAG_FIN = 1"
definition FLAG_CTL :: u8 where "FLAG_CTL = 2"
definition FLAG_RST :: u8 where "FLAG_RST = 4"

definition CTL_CONNECT :: u8 where "CTL_CONNECT = 0"

definition DEFAULT_TIMEOUT :: u32 where "DEFAULT_TIMEOUT = 4000"
definition CLOSED_TIMEOUT :: u32 where "CLOSED_TIMEOUT = 60000"
definition TIME_WAIT_TIMEOUT :: u32 where "TIME_WAIT_TIMEOUT = 1"

lemmas tcp_consts =
  DEF_MTU_def MAX_PACKET_def MIN_PACKET_def HEADER_SIZE_def PACKET_OVERHEAD_def
  MIN_RTO_def DEF_RTO_def MAX_RTO_def DEFAULT_ACK_DELAY_def DEFAULT_RCV_BUF_SIZE_def
  DEFAULT_SND_BUF_SIZE_def TCP_OPT_EOL_def TCP_OPT_NOOP_def TCP_OPT_MSS_def
  TCP_OPT_WND_SCALE_def TCP_OPT_FIN_ACK_def FLAG_NONE_def FLAG_FIN_def FLAG_CTL_def
  FLAG_RST_def CTL_CONNECT_def DEFAULT_TIMEOUT_def CLOSED_TIMEOUT_def TIME_WAIT_TIMEOUT_def

section \<open>Data types\<close>

datatype PseudoTcpState =
    TCP_LISTEN | TCP_SYN_SENT | TCP_SYN_RECEIVED | TCP_ESTABLISHED | TCP_CLOSED
  | TCP_FIN_WAIT_1 | TCP_FIN_WAIT_2 | TCP_CLOSING | TCP_TIME_WAIT | TCP_CLOSE_WAIT | TCP_LAST_ACK

text \<open>The values of the enumeration are ordered by their position.\<close>

fun state_index :: "PseudoTcpState \<Rightarrow> nat" where
  "state_index TCP_LISTEN = 0"
| "state_index TCP_SYN_SENT = 1"
| "state_index TCP_SYN_RECEIVED = 2"
| "state_index TCP_ESTABLISHED = 3"
| "state_index TCP_CLOSED = 4"
| "state_index TCP_FIN_WAIT_1 = 5"
| "state_index TCP_FIN_WAIT_2 = 6"
| "state_index TCP_CLOSING = 7"
| "state_index TCP_TIME_WAIT = 8"
| "state_index TCP_CLOSE_WAIT = 9"
| "state_index TCP_LAST_ACK = 10"

lemma state_index_inj: "state_index a = state_index b \<Longrightarrow> a = b"
  by (cases a; cases b) simp_all

instantiation PseudoTcpState :: linorder
begin

definition less_eq_PseudoTcpState :: "PseudoTcpState \<Rightarrow> PseudoTcpState \<Rightarrow> bool" where
  "less_eq_PseudoTcpState a b = (state_index a \<le> state_index b)"

definition less_PseudoTcpState :: "PseudoTcpState \<Rightarrow> PseudoTcpState \<Rightarrow> bool" where
  "less_PseudoTcpState a b = (state_index a < state_index b)"

instance
  by standard (auto simp: less_eq_PseudoTcpState_def less_PseudoTcpState_def dest: state_index_inj)

end

datatype PseudoTcpWriteResult = WR_SUCCESS | WR_TOO_LARGE | WR_FAIL

datatype PseudoTcpShutdown = PSEUDO_TCP_SHUTDOWN_RD | PSEUDO_TCP_SHUTDOWN_WR | PSEUDO_TCP_SHUTDOWN_RDWR

datatype Shutdown = SD_NONE | SD_GRACEFUL | SD_FORCEFUL

datatype SendFlags = sfNone | sfDelayedAck | sfImmediateAck | sfFin | sfRst | sfDuplicateAck

datatype ClosedownSource = CLOSEDOWN_LOCAL | CLOSEDOWN_REMOTE

datatype errno =
    E_NONE | EINVAL | EMSGSIZE | EWOULDBLOCK | ENOTCONN | EPIPE | ECONNABORTED | ECONNRESET | ETIMEDOUT

record Segment =
  seg_conv :: u32
  seg_seq :: u32
  seg_ack :: u32
  seg_flags :: u8
  seg_wnd :: u16
  seg_data :: "byte list"
  seg_len :: u32
  seg_tsval :: u32
  seg_tsecr :: u32

record SSegment =
  ss_seq :: u32
  ss_len :: u32
  ss_xmit :: u8
  ss_flags :: u8

record RSegment =
  rs_seq :: u32
  rs_len :: u32

datatype tcp_event =
    EvWritePacket "byte list" PseudoTcpWriteResult
  | EvOpened | EvReadable | EvWritable | EvClosed errno
  | EvQueued "byte list"    \<comment> \<open>bytes accepted into the send buffer by \<open>queue\<close>\<close>
  | EvRead "byte list"      \<comment> \<open>bytes handed to the user by \<open>pseudo_tcp_socket_recv\<close>\<close>

section \<open>The socket\<close>

record psock =
  shutdown :: Shutdown
  shutdown_reads :: bool
  error :: errno
  state :: PseudoTcpState
  conv :: u32
  bReadEnable :: bool
  bWriteEnable :: bool
  bOutgoing :: bool
  last_traffic :: u32
  rlist :: "RSegment list"
  rbuf_len :: u32
  rcv_nxt :: u32
  rcv_wnd :: u32
  lastrecv :: u32
  rwnd_scale :: u8
  rbuf :: fifo
  rcv_fin :: u32
  slist :: "nat list"
  unsent_slist :: "nat list"
  sbuf_len :: u32
  snd_nxt :: u32
  snd_wnd :: u32
  lastsend :: u32
  snd_una :: u32
  swnd_scale :: u8
  sbuf :: fifo
  mss :: u32
  msslevel :: u32
  largest :: u32
  mtu_advise :: u32
  rto_base :: u32
  ts_recent :: u32
  ts_lastack :: u32
  rx_rttvar :: u32
  rx_srtt :: u32
  rx_rto :: u32
  ssthresh :: u32
  cwnd :: u32
  dup_acks :: u8
  recover :: u32
  fast_recovery :: bool
  t_ack :: u32
  last_acked_ts :: u32
  use_nagling :: bool
  ack_delay :: u32
  support_wnd_scale :: bool
  current_time :: u32
  support_fin_ack :: bool
  seg_heap :: "nat \<rightharpoonup> SSegment"
  seg_next :: nat
  trace :: "tcp_event list"

record tcp_env =
  WritePacket :: "psock \<Rightarrow> byte list \<Rightarrow> PseudoTcpWriteResult"
  PseudoTcpOpened :: "(psock \<Rightarrow> psock res) option"
  PseudoTcpReadable :: "(psock \<Rightarrow> psock res) option"
  PseudoTcpWritable :: "(psock \<Rightarrow> psock res) option"
  PseudoTcpClosed :: "(psock \<Rightarrow> errno \<Rightarrow> psock res) option"
  monotonic_ms :: "psock \<Rightarrow> u32"
  junk :: "nat \<Rightarrow> byte"

text \<open>Calls of a callback: a NULL callback is not called.\<close>

definition log_event :: "psock \<Rightarrow> tcp_event \<Rightarrow> psock" where
  "log_event s e = s\<lparr> trace := trace s @ [e] \<rparr>"

definition call_cb :: "(psock \<Rightarrow> psock res) option \<Rightarrow> tcp_event \<Rightarrow> psock \<Rightarrow> psock res" where
  "call_cb cb e s = (case cb of None \<Rightarrow> Inr s | Some f \<Rightarrow> f (log_event s e))"

definition get_current_time :: "tcp_env \<Rightarrow> psock \<Rightarrow> u32" where
  "get_current_time env s = (if current_time s \<noteq> 0 then current_time s else monotonic_ms env s)"

definition pseudo_tcp_socket_set_time :: "psock \<Rightarrow> u32 \<Rightarrow> psock" where
  "pseudo_tcp_socket_set_time s t = s\<lparr> current_time := t \<rparr>"

definition get_seg :: "psock \<Rightarrow> nat \<Rightarrow> SSegment res" where
  "get_seg s a = (case seg_heap s a of None \<Rightarrow> Inl BadPointer | Some g \<Rightarrow> Inr g)"

definition put_seg :: "psock \<Rightarrow> nat \<Rightarrow> SSegment \<Rightarrow> psock" where
  "put_seg s a g = s\<lparr> seg_heap := (seg_heap s)(a \<mapsto> g) \<rparr>"

text \<open>A C shift of a 32-bit quantity is undefined for amounts of 32 and more.\<close>

definition shr32 :: "u32 \<Rightarrow> u8 \<Rightarrow> u32 res" where
  "shr32 w k = (if k < 32 then Inr (drop_bit (unat k) w) else Inl ShiftUB)"

text \<open>\<open>seg->wnd << scale\<close> shifts an \<open>int\<close>: it is undefined also when the value leaves the type.\<close>

definition shl_wnd :: "u16 \<Rightarrow> u8 \<Rightarrow> u32 res" where
  "shl_wnd w k = (if k < 32 \<and> uint w * 2 ^ unat k < 2 ^ 31
                  then Inr (of_int (uint w * 2 ^ unat k)) else Inl ShiftUB)"

text \<open>The structure is zeroed by \<open>rc_zalloc\<close> before \<open>pseudo_tcp_socket_init\<close> runs.\<close>

definition pseudo_tcp_socket_init :: "tcp_env \<Rightarrow> psock" where
  "pseudo_tcp_socket_init env =
    \<lparr> shutdown = SD_NONE, shutdown_reads = False, error = E_NONE, state = TCP_LISTEN, conv = 0,
      bReadEnable = True, bWriteEnable = False, bOutgoing = False, last_traffic = 0,
      rlist = [], rbuf_len = DEFAULT_RCV_BUF_SIZE, rcv_nxt = 0, rcv_wnd = DEFAULT_RCV_BUF_SIZE,
      lastrecv = 0, rwnd_scale = 0,
      rbuf = pseudo_tcp_fifo_init (junk env) (unat DEFAULT_RCV_BUF_SIZE), rcv_fin = 0,
      slist = [], unsent_slist = [], sbuf_len = DEFAULT_SND_BUF_SIZE, snd_nxt = 0, snd_wnd = 1,
      lastsend = 0, snd_una = 0, swnd_scale = 0,
      sbuf = pseudo_tcp_fifo_init (junk env) (unat DEFAULT_SND_BUF_SIZE),
      mss = MIN_PACKET - PACKET_OVERHEAD, msslevel = 0, largest = 0, mtu_advise = DEF_MTU,
      rto_base = 0, ts_recent = 0, ts_lastack = 0, rx_rttvar = 0, rx_srtt = 0, rx_rto = DEF_RTO,
      ssthresh = DEFAULT_RCV_BUF_SIZE, cwnd = 2 * (MIN_PACKET - PACKET_OVERHEAD), dup_acks = 0,
      recover = 0, fast_recovery = False, t_ack = 0, last_acked_ts = 0, use_nagling = True,
      ack_delay = DEFAULT_ACK_DELAY, support_wnd_scale = True, current_time = 0,
      support_fin_ack = True, seg_heap = Map.empty, seg_next = 0, trace = [] \<rparr>"

definition pseudo_tcp_socket_new :: "tcp_env \<Rightarrow> u32 \<Rightarrow> psock" where
  "pseudo_tcp_socket_new env conversation = (pseudo_tcp_socket_init env)\<lparr> conv := conversation \<rparr>"

section \<open>State changes\<close>

definition transitions :: "(PseudoTcpState \<times> PseudoTcpState) list" where
  "transitions =
     [(TCP_CLOSED, TCP_SYN_SENT), (TCP_SYN_SENT, TCP_CLOSED), (TCP_CLOSED, TCP_LISTEN),
      (TCP_LISTEN, TCP_CLOSED), (TCP_LISTEN, TCP_SYN_SENT), (TCP_LISTEN, TCP_SYN_RECEIVED),
      (TCP_SYN_SENT, TCP_SYN_RECEIVED), (TCP_SYN_RECEIVED, TCP_ESTABLISHED),
      (TCP_SYN_SENT, TCP_ESTABLISHED), (TCP_SYN_RECEIVED, TCP_FIN_WAIT_1),
      (TCP_ESTABLISHED, TCP_FIN_WAIT_1), (TCP_ESTABLISHED, TCP_CLOSE_WAIT),
      (TCP_FIN_WAIT_1, TCP_FIN_WAIT_2), (TCP_FIN_WAIT_1, TCP_CLOSING),
      (TCP_CLOSE_WAIT, TCP_LAST_ACK), (TCP_FIN_WAIT_2, TCP_TIME_WAIT),
      (TCP_CLOSING, TCP_TIME_WAIT), (TCP_LAST_ACK, TCP_CLOSED), (TCP_TIME_WAIT, TCP_CLOSED),
      (TCP_SYN_RECEIVED, TCP_LISTEN), (TCP_FIN_WAIT_1, TCP_TIME_WAIT)]"

definition set_state :: "psock \<Rightarrow> PseudoTcpState \<Rightarrow> psock res" where
  "set_state s new_state =
     (if new_state = state s then Inr s
      else bindr (g_assert ((state s, new_state) \<in> set transitions)) (\<lambda>_.
           Inr (s\<lparr> state := new_state \<rparr>)))"

definition pseudo_tcp_state_has_sent_fin :: "PseudoTcpState \<Rightarrow> bool" where
  "pseudo_tcp_state_has_sent_fin st = (case st of
     TCP_LISTEN \<Rightarrow> False | TCP_SYN_SENT \<Rightarrow> False | TCP_SYN_RECEIVED \<Rightarrow> False
   | TCP_ESTABLISHED \<Rightarrow> False | TCP_CLOSE_WAIT \<Rightarrow> False
   | TCP_CLOSED \<Rightarrow> True | TCP_FIN_WAIT_1 \<Rightarrow> True | TCP_FIN_WAIT_2 \<Rightarrow> True
   | TCP_CLOSING \<Rightarrow> True | TCP_TIME_WAIT \<Rightarrow> True | TCP_LAST_ACK \<Rightarrow> True)"

definition pseudo_tcp_state_has_received_fin :: "PseudoTcpState \<Rightarrow> bool" where
  "pseudo_tcp_state_has_received_fin st = (case st of
     TCP_LISTEN \<Rightarrow> False | TCP_SYN_SENT \<Rightarrow> False | TCP_SYN_RECEIVED \<Rightarrow> False
   | TCP_ESTABLISHED \<Rightarrow> False | TCP_FIN_WAIT_1 \<Rightarrow> False | TCP_FIN_WAIT_2 \<Rightarrow> False
   | TCP_CLOSED \<Rightarrow> True | TCP_CLOSING \<Rightarrow> True | TCP_TIME_WAIT \<Rightarrow> True
   | TCP_CLOSE_WAIT \<Rightarrow> True | TCP_LAST_ACK \<Rightarrow> True)"

definition pseudo_tcp_state_has_received_fin_ack :: "PseudoTcpState \<Rightarrow> bool" where
  "pseudo_tcp_state_has_received_fin_ack st = (case st of
     TCP_LISTEN \<Rightarrow> False | TCP_SYN_SENT \<Rightarrow> False | TCP_SYN_RECEIVED \<Rightarrow> False
   | TCP_ESTABLISHED \<Rightarrow> False | TCP_FIN_WAIT_1 \<Rightarrow> False | TCP_FIN_WAIT_2 \<Rightarrow> False
   | TCP_CLOSING \<Rightarrow> False | TCP_CLOSE_WAIT \<Rightarrow> False | TCP_LAST_ACK \<Rightarrow> False
   | TCP_CLOSED \<Rightarrow> True | TCP_TIME_WAIT \<Rightarrow> True)"

definition set_state_closed :: "tcp_env \<Rightarrow> psock \<Rightarrow> errno \<Rightarrow> psock res" where
  "set_state_closed env s err =
     bindr (set_state s TCP_CLOSED) (\<lambda>s.
     if err \<noteq> E_NONE
     then call_cb (map_option (\<lambda>f s. f s err) (PseudoTcpClosed env)) (EvClosed err) s
     else Inr s)"

definition pseudo_tcp_socket_is_closed :: "psock \<Rightarrow> bool" where
  "pseudo_tcp_socket_is_closed s = (state s = TCP_CLOSED)"

definition pseudo_tcp_socket_is_closed_remotely :: "psock \<Rightarrow> bool" where
  "pseudo_tcp_socket_is_closed_remotely s = pseudo_tcp_state_has_received_fin (state s)"

section \<open>MTU adjustment\<close>

function adjust_level :: "u32 \<Rightarrow> nat \<Rightarrow> nat" where
  "adjust_level mtu l =
     (if Suc l < length PACKET_MAXIMUMS \<and> PACKET_MAXIMUMS ! Suc l > 0
      then (if ucast (PACKET_MAXIMUMS ! l) \<le> mtu then l else adjust_level mtu (Suc l))
      else l)"
  by pat_completeness auto
termination
  by (relation "measure (\<lambda>(mtu, l). length PACKET_MAXIMUMS - l)") auto

declare adjust_level.simps [simp del]

definition adjustMTU :: "psock \<Rightarrow> psock" where
  "adjustMTU s =
     (let s = s\<lparr> msslevel := of_nat (adjust_level (mtu_advise s) 0) \<rparr>;
          s = s\<lparr> mss := mtu_advise s - PACKET_OVERHEAD \<rparr>;
          s = s\<lparr> ssthresh := max (ssthresh s) (2 * mss s) \<rparr>
      in s\<lparr> cwnd := max (cwnd s) (mss s) \<rparr>)"

definition set_state_established :: "tcp_env \<Rightarrow> psock \<Rightarrow> psock res" where
  "set_state_established env s =
     bindr (set_state s TCP_ESTABLISHED) (\<lambda>s.
     call_cb (PseudoTcpOpened env) EvOpened (adjustMTU s))"

definition pseudo_tcp_socket_notify_mtu :: "psock \<Rightarrow> u16 \<Rightarrow> psock" where
  "pseudo_tcp_socket_notify_mtu s mtu =
     (let s = s\<lparr> mtu_advise := ucast mtu \<rparr>
      in if state s = TCP_ESTABLISHED then adjustMTU s else s)"

end
