(* ===== verification/PTcp_Send.thy ===== *)
theory PTcp_Send
  imports PTcp
begin

text \<open>
  The sending half of \<open>src/session/pseudotcp/pseudotcp.c\<close>: \<open>queue\<close>, \<open>packet\<close>, \<open>transmit\<close>,
  \<open>attempt_send\<close> and \<open>closedown\<close>, with the FIN, RST and connect messages.

  \<open>attempt_send\<close> and \<open>closedown\<close> call one another: \<open>closedown\<close> with a local source sends an RST
  segment, and \<open>attempt_send\<close> closes down, with a remote source, when a transmission fails.
  A remote \<open>closedown\<close> sends nothing, so the recursion has depth two and the model unfolds it:
  \<open>closedown_remote\<close> is the part of \<open>closedown\<close> after the test of its source.

  The loop of \<open>attempt_send\<close> runs with a bound of one iteration per byte and per segment of
  \<open>unsent_slist\<close>, and two more; \<open>Diverges\<close> is the outcome when that is exceeded.
\<close>

section \<open>Queues of segments\<close>

definition peek_head :: "nat list \<Rightarrow> nat res" where
  "peek_head q = (case q of [] \<Rightarrow> Inl BadPointer | a # _ \<Rightarrow> Inr a)"

text \<open>\<open>g_queue_insert_after (q, g_queue_find (q, a), x)\<close>: without a link, \<open>x\<close> goes to the head.\<close>

fun insert_link :: "nat \<Rightarrow> nat \<Rightarrow> nat list \<Rightarrow> nat list" where
  "insert_link a x [] = []"
| "insert_link a x (b # q) = (if b = a then b # x # q else b # insert_link a x q)"

definition g_queue_insert_after_find :: "nat \<Rightarrow> nat \<Rightarrow> nat list \<Rightarrow> nat list" where
  "g_queue_insert_after_find a x q = (if a \<in> set q then insert_link a x q else x # q)"

section \<open>Queueing data\<close>

definition queue :: "psock \<Rightarrow> byte list \<Rightarrow> u32 \<Rightarrow> u8 \<Rightarrow> (u32 \<times> psock) res" where
  "queue s data len flags =
     (let available_space = pseudo_tcp_fifo_get_write_remaining (sbuf s) in
      bindr (if unat len > available_space
             then bindr (g_assert (flags = FLAG_NONE)) (\<lambda>_. Inr (of_nat available_space))
             else Inr len) (\<lambda>len.
      bindr (case rev (slist s) of
               [] \<Rightarrow> Inr None
             | a # _ \<Rightarrow> bindr (get_seg s a) (\<lambda>g.
                 Inr (if ss_flags g = flags \<and> ss_xmit g = 0 then Some (a, g) else None))) (\<lambda>tail.
      let s = (case tail of
                 Some (a, g) \<Rightarrow> put_seg s a (g\<lparr> ss_len := ss_len g + len \<rparr>)
               | None \<Rightarrow>
                   (let snd_buffered = pseudo_tcp_fifo_get_buffered (sbuf s);
                        a = seg_next s;
                        g = \<lparr> ss_seq = snd_una s + of_nat snd_buffered, ss_len = len,
                              ss_xmit = 0, ss_flags = flags \<rparr>
                    in (put_seg s a g)\<lparr> seg_next := Suc a, slist := slist s @ [a],
                         unsent_slist := unsent_slist s @ [a] \<rparr>))
      in bindr (pseudo_tcp_fifo_write (sbuf s) data (unat len)) (\<lambda>(n, f).
         Inr (of_nat n, log_event (s\<lparr> sbuf := f \<rparr>) (EvQueued (take n data)))))))"

definition connect_message :: "psock \<Rightarrow> byte list" where
  "connect_message s =
     [CTL_CONNECT]
     @ (if support_wnd_scale s then [TCP_OPT_WND_SCALE, 1, rwnd_scale s] else [])
     @ (if support_fin_ack s then [TCP_OPT_FIN_ACK, 1, 0] else [])"

definition queue_connect_message :: "psock \<Rightarrow> psock res" where
  "queue_connect_message s =
     (let buf = connect_message s; sz = of_nat (length buf);
          s = s\<lparr> snd_wnd := sz \<rparr>
      in bindr (queue s buf sz FLAG_CTL) (\<lambda>(_, s). Inr s))"

definition queue_fin_message :: "psock \<Rightarrow> psock res" where
  "queue_fin_message s =
     bindr (g_assert (support_fin_ack s)) (\<lambda>_.
     bindr (queue s [] 0 FLAG_FIN) (\<lambda>(_, s). Inr s))"

definition queue_rst_message :: "psock \<Rightarrow> psock res" where
  "queue_rst_message s =
     bindr (g_assert (support_fin_ack s)) (\<lambda>_.
     bindr (queue s [] 0 FLAG_RST) (\<lambda>(_, s). Inr s))"

section \<open>Packets\<close>

definition tcp_header :: "psock \<Rightarrow> u32 \<Rightarrow> u8 \<Rightarrow> u32 \<Rightarrow> u16 \<Rightarrow> byte list" where
  "tcp_header s seq flags now wnd =
     htonl_bytes (conv s) @ htonl_bytes seq @ htonl_bytes (rcv_nxt s) @ [0, flags]
     @ htons_bytes wnd @ htonl_bytes now @ htonl_bytes (ts_recent s)"

definition packet ::
    "tcp_env \<Rightarrow> psock \<Rightarrow> u32 \<Rightarrow> u8 \<Rightarrow> u32 \<Rightarrow> u32 \<Rightarrow> u32 \<Rightarrow> (PseudoTcpWriteResult \<times> psock) res" where
  "packet env s seq flags offset len now =
     bindr (g_assert (HEADER_SIZE + len \<le> MAX_PACKET)) (\<lambda>_.
     bindr (shr32 (rcv_wnd s) (rwnd_scale s)) (\<lambda>w.
     let hdr = tcp_header s seq flags now (ucast w);
         s = s\<lparr> ts_lastack := rcv_nxt s \<rparr> in
     bindr (if len \<noteq> 0
            then bindr (pseudo_tcp_fifo_read_offset (sbuf s) (unat len) (unat offset)) (\<lambda>bs.
                 bindr (g_assert (length bs = unat len)) (\<lambda>_. Inr bs))
            else Inr []) (\<lambda>payload.
     let wres = WritePacket env s (hdr @ payload);
         s = log_event s (EvWritePacket (hdr @ payload) wres) in
     if wres \<noteq> WR_SUCCESS \<and> len \<noteq> 0 then Inr (wres, s)
     else
       (let s = s\<lparr> t_ack := 0 \<rparr>;
            s = (if len > 0 then s\<lparr> lastsend := now \<rparr> else s);
            s = s\<lparr> last_traffic := now, bOutgoing := True \<rparr>
        in Inr (WR_SUCCESS, s)))))"

section \<open>Transmission of a segment\<close>

lemma unat_msslevel_step:
  "Suc (unat (m::u32)) < length PACKET_MAXIMUMS \<Longrightarrow> unat (m + 1) = Suc (unat m)"
  by (simp add: PACKET_MAXIMUMS_def unat_word_ariths)

text \<open>
  The inner loop of \<open>transmit\<close>: step down the table of packet sizes until the segment size
  falls below \<open>nTransmit\<close>. \<open>None\<close> is the early return of \<open>EMSGSIZE\<close>.
\<close>

function shrink_mss :: "psock \<Rightarrow> u32 \<Rightarrow> (u32 option \<times> psock) res" where
  "shrink_mss s nTransmit =
     (let l = Suc (unat (msslevel s)) in
      if l \<ge> length PACKET_MAXIMUMS then Inl OutOfBounds
      else if PACKET_MAXIMUMS ! l = 0 then Inr (None, s)
      else
        (let s' = s\<lparr> msslevel := msslevel s + 1, mss := ucast (PACKET_MAXIMUMS ! l) - PACKET_OVERHEAD \<rparr>;
             s'' = s'\<lparr> cwnd := 2 * mss s' \<rparr>
         in if mss s'' < nTransmit then Inr (Some (mss s''), s'')
            else shrink_mss s'' nTransmit))"
  by pat_completeness auto

termination
  by (relation "measure (\<lambda>(s, n). length PACKET_MAXIMUMS - unat (msslevel s))")
     (auto simp: unat_msslevel_step Let_def)

declare shrink_mss.simps [simp del]

lemma shrink_mss_level:
  "shrink_mss s n = Inr (Some n', s') \<Longrightarrow>
     unat (msslevel s) < unat (msslevel s') \<and> unat (msslevel s') < length PACKET_MAXIMUMS"
proof (induction s n rule: shrink_mss.induct)
  case (1 s n)
  let ?l = "Suc (unat (msslevel s))"
  from "1.prems" have l: "?l < length PACKET_MAXIMUMS" and nz: "PACKET_MAXIMUMS ! ?l \<noteq> 0"
    by (auto simp: shrink_mss.simps [of s n] Let_def split: if_splits)
  show ?case
    using "1.prems" "1.IH" [OF refl] l nz unat_msslevel_step [OF l]
    by (fastforce simp: shrink_mss.simps [of s n] Let_def split: if_splits)
qed

lemma packet_msslevel:
  "packet env s seq flags offset len now = Inr (w, s') \<Longrightarrow> msslevel s' = msslevel s"
  by (auto simp: packet_def Let_def log_event_def split: if_splits)

text \<open>
  The outer loop: send the packet, and shrink the segment size as long as the network reports
  it as too large. The result is an error number, or the number of bytes sent.
\<close>

function transmit_loop ::
    "tcp_env \<Rightarrow> psock \<Rightarrow> nat \<Rightarrow> u32 \<Rightarrow> u32 \<Rightarrow> ((errno + u32) \<times> psock) res" where
  "transmit_loop env s a nTransmit now =
     bindr (get_seg s a) (\<lambda>g.
     bindr (g_assert (ss_seq g - snd_una s \<le> 1024 * 1024 * 64)) (\<lambda>_.
     bindr (packet env s (ss_seq g) (ss_flags g) (ss_seq g - snd_una s) nTransmit now) (\<lambda>(wres, s).
     case wres of
       WR_SUCCESS \<Rightarrow> Inr (Inr nTransmit, s)
     | WR_FAIL \<Rightarrow> Inr (Inl ECONNABORTED, s)
     | WR_TOO_LARGE \<Rightarrow>
         (case shrink_mss s nTransmit of
            Inl e \<Rightarrow> Inl e
          | Inr (None, s) \<Rightarrow> Inr (Inl EMSGSIZE, s)
          | Inr (Some n, s) \<Rightarrow> transmit_loop env s a n now))))"
  by pat_completeness auto

termination
  by (relation "measure (\<lambda>(env, s, a, n, now). length PACKET_MAXIMUMS - unat (msslevel s))")
     (auto dest!: packet_msslevel shrink_mss_level)

declare transmit_loop.simps [simp del]

text \<open>\<open>E_NONE\<close> is the status 0.\<close>

definition transmit :: "tcp_env \<Rightarrow> psock \<Rightarrow> nat \<Rightarrow> u32 \<Rightarrow> (errno \<times> psock) res" where
  "transmit env s a now =
     bindr (get_seg s a) (\<lambda>g.
     if ss_xmit g \<ge> (if state s = TCP_ESTABLISHED then 15 else 30) then Inr (ETIMEDOUT, s)
     else
       bindr (transmit_loop env s a (min (ss_len g) (mss s)) now) (\<lambda>(r, s).
       case r of Inl e \<Rightarrow> Inr (e, s)
       | Inr nTransmit \<Rightarrow>
           (let s = (if nTransmit < ss_len g then
                       (let b = seg_next s;
                            sub = \<lparr> ss_seq = ss_seq g + nTransmit, ss_len = ss_len g - nTransmit,
                                    ss_xmit = ss_xmit g, ss_flags = ss_flags g \<rparr>;
                            s = (put_seg (put_seg s a (g\<lparr> ss_len := nTransmit \<rparr>)) b sub)\<lparr> seg_next := Suc b \<rparr>;
                            s = s\<lparr> slist := g_queue_insert_after_find a b (slist s) \<rparr>
                        in if ss_xmit sub = 0
                           then s\<lparr> unsent_slist := g_queue_insert_after_find a b (unsent_slist s) \<rparr>
                           else s)
                     else s)
            in bindr (get_seg s a) (\<lambda>g.
               bindr (if ss_xmit g = 0 then
                        bindr (g_assert (unsent_slist s \<noteq> [] \<and> hd (unsent_slist s) = a)) (\<lambda>_.
                        Inr (s\<lparr> unsent_slist := tl (unsent_slist s),
                                snd_nxt := snd_nxt s + ss_len g
                                  + (if ss_len g = 0 \<and> ss_flags g AND FLAG_FIN \<noteq> 0 then 1 else 0) \<rparr>))
                      else Inr s) (\<lambda>s.
               let s = put_seg s a (g\<lparr> ss_xmit := ss_xmit g + 1 \<rparr>) in
               Inr (E_NONE, if rto_base s = 0 then s\<lparr> rto_base := now \<rparr> else s))))))"

section \<open>Closing down\<close>

definition closedown_navigate :: "psock \<Rightarrow> psock res" where
  "closedown_navigate s = (case state s of
     TCP_LISTEN \<Rightarrow> Inr s
   | TCP_SYN_SENT \<Rightarrow> Inr s
   | TCP_SYN_RECEIVED \<Rightarrow> bindr (set_state s TCP_FIN_WAIT_1) (\<lambda>s.
       bindr (set_state s TCP_FIN_WAIT_2) (\<lambda>s. set_state s TCP_TIME_WAIT))
   | TCP_ESTABLISHED \<Rightarrow> bindr (set_state s TCP_FIN_WAIT_1) (\<lambda>s.
       bindr (set_state s TCP_FIN_WAIT_2) (\<lambda>s. set_state s TCP_TIME_WAIT))
   | TCP_FIN_WAIT_1 \<Rightarrow> bindr (set_state s TCP_FIN_WAIT_2) (\<lambda>s. set_state s TCP_TIME_WAIT)
   | TCP_FIN_WAIT_2 \<Rightarrow> set_state s TCP_TIME_WAIT
   | TCP_CLOSING \<Rightarrow> set_state s TCP_TIME_WAIT
   | TCP_CLOSE_WAIT \<Rightarrow> set_state s TCP_LAST_ACK
   | TCP_LAST_ACK \<Rightarrow> Inr s
   | TCP_TIME_WAIT \<Rightarrow> Inr s
   | TCP_CLOSED \<Rightarrow> Inr s)"

definition closedown_remote :: "tcp_env \<Rightarrow> psock \<Rightarrow> errno \<Rightarrow> psock res" where
  "closedown_remote env s err =
     bindr (closedown_navigate s) (\<lambda>s. set_state_closed env s err)"

section \<open>Sending what the window allows\<close>

definition window_room :: "psock \<Rightarrow> u32 \<times> u32" where
  "window_room s =
     (let cw = cwnd s + (if dup_acks s = 1 \<or> dup_acks s = 2 then ucast (dup_acks s) * mss s else 0);
          nWindow = min (snd_wnd s) cw;
          nInFlight = snd_nxt s - snd_una s;
          nUseable = (if nInFlight < nWindow then nWindow - nInFlight else 0)
      in (nWindow, nUseable))"

definition send_available :: "psock \<Rightarrow> u32" where
  "send_available s =
     (let (nWindow, nUseable) = window_room s;
          nInFlight = snd_nxt s - snd_una s;
          snd_buffered = pseudo_tcp_fifo_get_buffered (sbuf s);
          nAvailable = (if snd_buffered < unat nInFlight then 0
                        else of_nat (min (snd_buffered - unat nInFlight) (unat (mss s))))
      in if nAvailable > nUseable then (if nUseable * 4 < nWindow then 0 else nUseable)
         else nAvailable)"

text \<open>Cut the first unsent segment after \<open>n\<close> bytes.\<close>

definition split_unsent :: "psock \<Rightarrow> nat \<Rightarrow> SSegment \<Rightarrow> u32 \<Rightarrow> psock" where
  "split_unsent s a g n =
     (let b = seg_next s;
          sub = \<lparr> ss_seq = ss_seq g + n, ss_len = ss_len g - n, ss_xmit = 0, ss_flags = ss_flags g \<rparr>;
          s = (put_seg (put_seg s a (g\<lparr> ss_len := n \<rparr>)) b sub)\<lparr> seg_next := Suc b \<rparr>;
          s = s\<lparr> unsent_slist := insert_link a b (unsent_slist s) \<rparr>
      in s\<lparr> slist := g_queue_insert_after_find a b (slist s) \<rparr>)"

fun attempt_send_loop :: "nat \<Rightarrow> tcp_env \<Rightarrow> psock \<Rightarrow> u32 \<Rightarrow> SendFlags \<Rightarrow> psock res" where
  "attempt_send_loop 0 env s now sflags = Inl Diverges"
| "attempt_send_loop (Suc fuel) env s now sflags =
     (let nAvailable = send_available s in
      if sflags = sfDuplicateAck then
        bindr (packet env s (snd_nxt s) FLAG_NONE 0 0 now) (\<lambda>(_, s).
        attempt_send_loop fuel env s now sfNone)
      else if nAvailable = 0 \<and> sflags \<noteq> sfFin \<and> sflags \<noteq> sfRst then
        (if sflags = sfNone then Inr s
         else if sflags = sfImmediateAck \<or> sflags = sfDuplicateAck \<or> t_ack s \<noteq> 0 then
           bindr (packet env s (snd_nxt s) FLAG_NONE 0 0 now) (\<lambda>(_, s). Inr s)
         else Inr (s\<lparr> t_ack := now \<rparr>))
      else if use_nagling s \<and> sflags \<noteq> sfFin \<and> sflags \<noteq> sfRst \<and>
              snd_nxt s > snd_una s \<and> nAvailable < mss s then Inr s
      else (case unsent_slist s of
        [] \<Rightarrow> Inr s
      | a # _ \<Rightarrow>
          bindr (get_seg s a) (\<lambda>g.
          let s = (if ss_len g > nAvailable \<and> sflags \<noteq> sfFin \<and> sflags \<noteq> sfRst
                   then split_unsent s a g nAvailable else s) in
          bindr (transmit env s a now) (\<lambda>(st, s).
          if st \<noteq> E_NONE then closedown_remote env s st
          else attempt_send_loop fuel env s now
                 (if sflags = sfImmediateAck \<or> sflags = sfDelayedAck then sfNone else sflags)))))"

declare attempt_send_loop.simps [simp del]

definition unsent_weight :: "psock \<Rightarrow> nat" where
  "unsent_weight s =
     sum_list (map (\<lambda>a. case seg_heap s a of None \<Rightarrow> 1 | Some g \<Rightarrow> Suc (unat (ss_len g))) (unsent_slist s))"

definition attempt_send :: "tcp_env \<Rightarrow> psock \<Rightarrow> SendFlags \<Rightarrow> psock res" where
  "attempt_send env s sflags =
     (let now = get_current_time env s;
          s = (if time_diff now (lastsend s) > int (unat (rx_rto s)) then s\<lparr> cwnd := mss s \<rparr> else s)
      in attempt_send_loop (unsent_weight s + 2) env s now sflags)"

definition closedown :: "tcp_env \<Rightarrow> psock \<Rightarrow> errno \<Rightarrow> ClosedownSource \<Rightarrow> psock res" where
  "closedown env s err source =
     bindr (if source = CLOSEDOWN_LOCAL \<and> support_fin_ack s then
              bindr (queue_rst_message s) (\<lambda>s. attempt_send env s sfRst)
            else if source = CLOSEDOWN_LOCAL then Inr (s\<lparr> shutdown := SD_FORCEFUL \<rparr>)
            else Inr s) (\<lambda>s.
     closedown_remote env s err)"

end
