(* ===== verification/PTcp_Process.thy ===== *)
theory PTcp_Process
  imports PTcp_Send
begin

text \<open>
  The receiving half of \<open>src/session/pseudotcp/pseudotcp.c\<close> and its public functions: the
  option parser, \<open>process\<close> cut at its comments into one definition per stage, \<open>parse\<close>, and
  the functions \<open>pseudo_tcp_socket_*\<close>.

  A stage of \<open>process\<close> that may return early has the result \<open>None\<close> for \<open>return FALSE\<close>.
\<close>

section \<open>Buffer sizes and options\<close>

fun scale_down :: "nat \<Rightarrow> u32 \<Rightarrow> u8 \<Rightarrow> u32 \<times> u8" where
  "scale_down 0 n k = (n, k)"
| "scale_down (Suc fuel) n k = (if n > 0xFFFF then scale_down fuel (drop_bit 1 n) (k + 1) else (n, k))"

definition resize_send_buffer :: "tcp_env \<Rightarrow> psock \<Rightarrow> u32 \<Rightarrow> psock res" where
  "resize_send_buffer env s new_size =
     (let s = s\<lparr> sbuf_len := new_size \<rparr> in
      bindr (pseudo_tcp_fifo_set_capacity (junk env) (sbuf s) (unat new_size)) (\<lambda>(_, f).
      Inr (s\<lparr> sbuf := f \<rparr>)))"

text \<open>A 32-bit value is at most \<open>0xFFFF\<close> after sixteen halvings, which bounds the loop.\<close>

definition resize_receive_buffer :: "tcp_env \<Rightarrow> psock \<Rightarrow> u32 \<Rightarrow> psock res" where
  "resize_receive_buffer env s new_size =
     (if rbuf_len s = new_size then Inr s
      else
        (let (n, scale_factor) = scale_down 16 new_size 0;
             new_size = push_bit (unat scale_factor) n
         in bindr (pseudo_tcp_fifo_set_capacity (junk env) (rbuf s) (unat new_size)) (\<lambda>(result, f).
            bindr (g_assert result) (\<lambda>_.
            let s = s\<lparr> rbuf := f, rbuf_len := new_size, rwnd_scale := scale_factor, ssthresh := new_size \<rparr>;
                available_space = pseudo_tcp_fifo_get_write_remaining (rbuf s)
            in Inr (s\<lparr> rcv_wnd := of_nat available_space \<rparr>)))))"

definition apply_option :: "psock \<Rightarrow> u8 \<Rightarrow> byte list \<Rightarrow> psock" where
  "apply_option s kind data =
     (if kind = TCP_OPT_WND_SCALE then
        (if length data \<noteq> 1 then s else s\<lparr> swnd_scale := data ! 0 \<rparr>)
      else if kind = TCP_OPT_FIN_ACK then s\<lparr> support_fin_ack := True \<rparr>
      else s)"

text \<open>
  The loop of \<open>parse_options\<close>. Every read of the option list is checked. \<open>None\<close> is a
  \<open>return\<close> inside the loop; \<open>Some\<close> gives the two flags \<open>has_window_scaling_option\<close> and
  \<open>has_fin_ack_option\<close> at its end.
\<close>

definition opt_byte :: "byte list \<Rightarrow> nat \<Rightarrow> byte res" where
  "opt_byte data i = (if i < length data then Inr (data ! i) else Inl OutOfBounds)"

function parse_options_loop ::
    "psock \<Rightarrow> byte list \<Rightarrow> nat \<Rightarrow> nat \<Rightarrow> bool \<Rightarrow> bool \<Rightarrow> ((bool \<times> bool) option \<times> psock) res" where
  "parse_options_loop s data len pos has_ws has_fin =
     (if pos < len then
        (if len < pos + 1 then Inr (None, s)
         else bindr (opt_byte data pos) (\<lambda>kind.
           if kind = TCP_OPT_EOL then Inr (Some (has_ws, has_fin), s)
           else if kind = TCP_OPT_NOOP then parse_options_loop s data len (pos + 1) has_ws has_fin
           else if len < pos + 1 + 1 then Inr (None, s)
           else bindr (opt_byte data (pos + 1)) (\<lambda>opt_len.
             let pos' = pos + 2 in
             if len < pos' + unat opt_len then Inr (None, s)
             else if unat opt_len \<le> len - pos' then
               bindr (src_read data pos' (unat opt_len)) (\<lambda>content.
               parse_options_loop (apply_option s kind content) data len (pos' + unat opt_len)
                 (kind = TCP_OPT_WND_SCALE \<or> has_ws) (kind = TCP_OPT_FIN_ACK \<or> has_fin))
             else Inr (None, s))))
      else Inr (Some (has_ws, has_fin), s))"
  by pat_completeness auto
termination
  by (relation "measure (\<lambda>(s, data, len, pos, w, f). len - pos)") auto

declare parse_options_loop.simps [simp del]

definition parse_options :: "tcp_env \<Rightarrow> psock \<Rightarrow> byte list \<Rightarrow> nat \<Rightarrow> psock res" where
  "parse_options env s data len =
     bindr (parse_options_loop s data len 0 False False) (\<lambda>(r, s).
     case r of None \<Rightarrow> Inr s
     | Some (has_ws, has_fin) \<Rightarrow>
         bindr (if \<not> has_ws \<and> rwnd_scale s > 0 then
                  bindr (resize_receive_buffer env s DEFAULT_RCV_BUF_SIZE) (\<lambda>s.
                  Inr (s\<lparr> swnd_scale := 0 \<rparr>))
                else Inr s) (\<lambda>s.
         Inr (if \<not> has_fin then s\<lparr> support_fin_ack := False \<rparr> else s)))"

section \<open>Processing a segment\<close>

subsection \<open>Control segments\<close>

definition process_ctl :: "tcp_env \<Rightarrow> psock \<Rightarrow> Segment \<Rightarrow> (bool option \<times> psock) res" where
  "process_ctl env s seg =
     (if seg_flags seg AND FLAG_CTL \<noteq> 0 then
        (if seg_len seg = 0 then Inr (None, s)
         else bindr (opt_byte (seg_data seg) 0) (\<lambda>c.
           if c = CTL_CONNECT then
             bindr (parse_options env s (tl (seg_data seg)) (unat (seg_len seg) - 1)) (\<lambda>s.
             if state s = TCP_LISTEN then
               bindr (set_state s TCP_SYN_RECEIVED) (\<lambda>s.
               bindr (queue_connect_message s) (\<lambda>s. Inr (Some True, s)))
             else if state s = TCP_SYN_SENT then
               bindr (set_state_established env s) (\<lambda>s. Inr (Some True, s))
             else Inr (Some True, s))
           else Inr (None, s)))
      else Inr (Some False, s))"

definition update_timestamp :: "psock \<Rightarrow> Segment \<Rightarrow> psock" where
  "update_timestamp s seg =
     (if SMALLER_OR_EQUAL (seg_seq seg) (ts_lastack s) \<and>
         SMALLER (ts_lastack s) (seg_seq seg + seg_len seg)
      then s\<lparr> ts_recent := seg_tsval seg \<rparr> else s)"

subsection \<open>Acknowledgements\<close>

text \<open>
  The round-trip estimate. The arithmetic mixes \<open>guint32\<close> and \<open>long\<close>: the products wrap at
  32 bits, the sums are 64-bit signed, and the stores truncate. \<open>None\<close>: negative RTT.
\<close>

definition update_rtt :: "psock \<Rightarrow> u32 \<Rightarrow> u32 \<Rightarrow> psock option" where
  "update_rtt s tsecr now =
     (if tsecr = 0 then Some s
      else
        (let rtt = time_diff now tsecr in
         if rtt \<ge> 0 then
           (let s = (if rx_srtt s = 0
                     then s\<lparr> rx_srtt := of_int rtt, rx_rttvar := of_int (rtt div 2) \<rparr>
                     else
                       (let s' = s\<lparr> rx_rttvar := of_int ((uint (3 * rx_rttvar s)
                                     + \<bar>rtt - uint (rx_srtt s)\<bar>) div 4) \<rparr>
                        in s'\<lparr> rx_srtt := of_int ((uint (7 * rx_srtt s') + rtt) div 8) \<rparr>));
                s = s\<lparr> rx_rto := bound MIN_RTO (rx_srtt s + max 1 (4 * rx_rttvar s)) MAX_RTO \<rparr>
            in Some (s\<lparr> last_acked_ts := tsecr \<rparr>))
         else None))"

text \<open>Free the acknowledged segments at the head of \<open>slist\<close>.\<close>

fun free_acked :: "nat list \<Rightarrow> (nat \<rightharpoonup> SSegment) \<Rightarrow> u32 \<Rightarrow> u32 \<Rightarrow>
    (nat list \<times> (nat \<rightharpoonup> SSegment) \<times> u32) res" where
  "free_acked [] h lg nFree = (if nFree > 0 then Inl AssertFail else Inr ([], h, lg))"
| "free_acked (a # q) h lg nFree =
     (if nFree > 0 then
        (case h a of None \<Rightarrow> Inl BadPointer
         | Some d \<Rightarrow>
             if nFree < ss_len d
             then Inr (a # q, h(a \<mapsto> d\<lparr> ss_len := ss_len d - nFree, ss_seq := ss_seq d + nFree \<rparr>), lg)
             else free_acked q (h(a := None)) (if ss_len d > lg then ss_len d else lg) (nFree - ss_len d))
      else Inr (a # q, h, lg))"

definition congestion_avoidance :: "psock \<Rightarrow> psock res" where
  "congestion_avoidance s =
     (if cwnd s < ssthresh s then Inr (s\<lparr> cwnd := cwnd s + mss s \<rparr>)
      else if cwnd s = 0 then Inl DivByZero
      else Inr (s\<lparr> cwnd := cwnd s + max 1 (mss s * mss s div cwnd s) \<rparr>))"

text \<open>The congestion window after new data is acknowledged; \<open>None\<close> when the retransmission fails.\<close>

definition ack_recovery :: "tcp_env \<Rightarrow> psock \<Rightarrow> u32 \<Rightarrow> u32 \<Rightarrow> (unit option \<times> psock) res" where
  "ack_recovery env s nAcked now =
     (if dup_acks s \<ge> 3 then
        (if LARGER_OR_EQUAL (snd_una s) (recover s) then
           (let nInFlight = snd_nxt s - snd_una s
            in Inr (Some (),
                 s\<lparr> cwnd := min (ssthresh s) (max nInFlight (mss s) + mss s),
                    fast_recovery := False, dup_acks := 0 \<rparr>))
         else
           bindr (peek_head (slist s)) (\<lambda>a.
           bindr (transmit env s a now) (\<lambda>(st, s).
           if st \<noteq> E_NONE then bindr (closedown env s st CLOSEDOWN_LOCAL) (\<lambda>s. Inr (None, s))
           else Inr (Some (),
                  s\<lparr> cwnd := cwnd s + ((if nAcked > mss s then mss s else 0) - min nAcked (cwnd s)) \<rparr>))))
      else
        bindr (congestion_avoidance (s\<lparr> dup_acks := 0 \<rparr>)) (\<lambda>s. Inr (Some (), s)))"

definition process_valuable_ack ::
    "tcp_env \<Rightarrow> psock \<Rightarrow> Segment \<Rightarrow> u32 \<Rightarrow> (bool option \<times> psock) res" where
  "process_valuable_ack env s seg now =
     (case update_rtt s (seg_tsecr seg) now of
        None \<Rightarrow> Inr (None, s)
      | Some s \<Rightarrow>
          bindr (shl_wnd (seg_wnd seg) (swnd_scale s)) (\<lambda>w.
          let s = s\<lparr> snd_wnd := w \<rparr>;
              nAcked = seg_ack seg - snd_una s;
              s = s\<lparr> snd_una := seg_ack seg \<rparr>;
              s = s\<lparr> rto_base := (if snd_una s = snd_nxt s then 0 else now) \<rparr>;
              is_fin_ack = (unat nAcked = data_length (sbuf s) + 1 \<and> pseudo_tcp_state_has_sent_fin (state s));
              nAcked = (if is_fin_ack then nAcked - 1 else nAcked) in
          bindr (pseudo_tcp_fifo_consume_read_data (sbuf s) (unat nAcked)) (\<lambda>f.
          let s = s\<lparr> sbuf := f \<rparr> in
          bindr (free_acked (slist s) (seg_heap s) (largest s) nAcked) (\<lambda>(q, h, lg).
          bindr (ack_recovery env (s\<lparr> slist := q, seg_heap := h, largest := lg \<rparr>) nAcked now) (\<lambda>(r, s).
          Inr (map_option (\<lambda>_. is_fin_ack) r, s))))))"

definition process_duplicate_ack ::
    "tcp_env \<Rightarrow> psock \<Rightarrow> Segment \<Rightarrow> u32 \<Rightarrow> (bool option \<times> psock) res" where
  "process_duplicate_ack env s seg now =
     bindr (shl_wnd (seg_wnd seg) (swnd_scale s)) (\<lambda>w.
     let s = s\<lparr> snd_wnd := w \<rparr> in
     if seg_len seg > 0 then Inr (Some False, s)
     else if snd_una s \<noteq> snd_nxt s then
       (let s = s\<lparr> dup_acks := dup_acks s + 1 \<rparr> in
        if dup_acks s = 3 then
          (if LARGER_OR_EQUAL (snd_una s) (recover s) \<or> seg_tsecr seg = last_acked_ts s then
             bindr (peek_head (slist s)) (\<lambda>a.
             bindr (transmit env s a now) (\<lambda>(st, s).
             if st \<noteq> E_NONE then bindr (closedown env s st CLOSEDOWN_LOCAL) (\<lambda>s. Inr (None, s))
             else
               (let s = s\<lparr> recover := snd_nxt s \<rparr>;
                    nInFlight = snd_nxt s - snd_una s;
                    s = s\<lparr> ssthresh := max (nInFlight div 2) (2 * mss s) \<rparr>
                in Inr (Some False, s\<lparr> cwnd := ssthresh s + 3 * mss s, fast_recovery := True \<rparr>))))
           else Inr (Some False, s))
        else if dup_acks s > 3 then
          Inr (Some False, if fast_recovery s then s\<lparr> cwnd := cwnd s + mss s \<rparr> else s)
        else Inr (Some False, s))
     else Inr (Some False, s\<lparr> dup_acks := 0 \<rparr>))"

text \<open>The result is \<open>is_fin_ack\<close>.\<close>

definition process_ack ::
    "tcp_env \<Rightarrow> psock \<Rightarrow> Segment \<Rightarrow> u32 \<Rightarrow> (bool option \<times> psock) res" where
  "process_ack env s seg now =
     (if LARGER (seg_ack seg) (snd_una s) \<and> SMALLER_OR_EQUAL (seg_ack seg) (snd_nxt s)
      then process_valuable_ack env s seg now
      else if seg_ack seg = snd_una s then process_duplicate_ack env s seg now
      else Inr (Some False, s))"

subsection \<open>Connection closure\<close>

text \<open>The transitions on \<open>rcv FIN\<close> and \<open>rcv ACK of FIN\<close>.\<close>

definition fin_transition :: "tcp_env \<Rightarrow> psock \<Rightarrow> bool \<Rightarrow> bool \<Rightarrow> psock res" where
  "fin_transition env s received_fin is_fin_ack = (case state s of
     TCP_ESTABLISHED \<Rightarrow> if received_fin then set_state s TCP_CLOSE_WAIT else Inr s
   | TCP_CLOSING \<Rightarrow> if is_fin_ack then set_state s TCP_TIME_WAIT else Inr s
   | TCP_LAST_ACK \<Rightarrow> if is_fin_ack then set_state_closed env s E_NONE else Inr s
   | TCP_FIN_WAIT_1 \<Rightarrow>
       if is_fin_ack \<and> received_fin then set_state s TCP_TIME_WAIT
       else if is_fin_ack then set_state s TCP_FIN_WAIT_2
       else if received_fin then set_state s TCP_CLOSING
       else Inr s
   | TCP_FIN_WAIT_2 \<Rightarrow> if received_fin then set_state s TCP_TIME_WAIT else Inr s
   | TCP_LISTEN \<Rightarrow> Inr s
   | TCP_SYN_SENT \<Rightarrow> Inr s
   | TCP_SYN_RECEIVED \<Rightarrow> Inr s
   | TCP_TIME_WAIT \<Rightarrow> Inr s
   | TCP_CLOSED \<Rightarrow> Inr s
   | TCP_CLOSE_WAIT \<Rightarrow> Inr s)"

text \<open>The result is \<open>received_fin\<close>.\<close>

definition process_fin :: "tcp_env \<Rightarrow> psock \<Rightarrow> Segment \<Rightarrow> bool \<Rightarrow> (bool option \<times> psock) res" where
  "process_fin env s seg is_fin_ack =
     (if support_fin_ack s then
        (let s = (if seg_flags seg AND FLAG_FIN \<noteq> 0 then s\<lparr> rcv_fin := seg_seq seg \<rparr> else s) in
         if seg_flags seg AND FLAG_FIN \<noteq> 0 \<and> seg_len seg \<noteq> 0 then Inr (None, s)
         else
           (let received_fin = (rcv_nxt s \<noteq> 0 \<and> rcv_nxt s + seg_len seg = rcv_fin s)
            in bindr (fin_transition env s received_fin is_fin_ack) (\<lambda>s.
               Inr (Some received_fin, s))))
      else Inr (Some False, s))"

definition notify_writable :: "tcp_env \<Rightarrow> psock \<Rightarrow> psock res" where
  "notify_writable env s =
     (let kIdealRefillSize = (sbuf_len s + rbuf_len s) div 2;
          snd_buffered = pseudo_tcp_fifo_get_buffered (sbuf s) in
      if bWriteEnable s \<and> snd_buffered < unat kIdealRefillSize
      then call_cb (PseudoTcpWritable env) EvWritable (s\<lparr> bWriteEnable := False \<rparr>)
      else Inr s)"

subsection \<open>Data\<close>

definition ack_flags :: "psock \<Rightarrow> Segment \<Rightarrow> bool \<Rightarrow> SendFlags" where
  "ack_flags s seg received_fin =
     (if seg_seq seg \<noteq> rcv_nxt s then sfDuplicateAck
      else if seg_len seg \<noteq> 0 then (if ack_delay s = 0 then sfImmediateAck else sfDelayedAck)
      else if received_fin then sfImmediateAck
      else sfNone)"

text \<open>Adjust the incoming segment to fit the receive buffer.\<close>

definition trim_front :: "psock \<Rightarrow> Segment \<Rightarrow> Segment" where
  "trim_front s seg =
     (if SMALLER (seg_seq seg) (rcv_nxt s) then
        (let nAdjust = rcv_nxt s - seg_seq seg in
         if nAdjust < seg_len seg
         then seg\<lparr> seg_seq := seg_seq seg + nAdjust,
                   seg_data := drop (unat nAdjust) (seg_data seg),
                   seg_len := seg_len seg - nAdjust \<rparr>
         else seg\<lparr> seg_len := 0 \<rparr>)
      else seg)"

definition trim_back :: "psock \<Rightarrow> Segment \<Rightarrow> Segment" where
  "trim_back s seg =
     (let available_space = pseudo_tcp_fifo_get_write_remaining (rbuf s) in
      if unat (seg_seq seg + seg_len seg - rcv_nxt s) > available_space then
        (let nAdjust = of_nat (unat (seg_seq seg + seg_len seg - rcv_nxt s) - available_space) in
         if nAdjust < seg_len seg then seg\<lparr> seg_len := seg_len seg - nAdjust \<rparr>
         else seg\<lparr> seg_len := 0 \<rparr>)
      else seg)"

definition trim_segment :: "psock \<Rightarrow> Segment \<Rightarrow> Segment" where
  "trim_segment s seg = trim_back s (trim_front s seg)"

text \<open>
  After in-order data: take over the saved out-of-order segments that continue it. The flag
  tells whether bytes were recovered (then the acknowledgement is sent at once).
\<close>

fun recover_rlist :: "RSegment list \<Rightarrow> fifo \<Rightarrow> u32 \<Rightarrow> u32 \<Rightarrow> bool \<Rightarrow>
    (RSegment list \<times> fifo \<times> u32 \<times> u32 \<times> bool) res" where
  "recover_rlist [] f nxt wnd rec = Inr ([], f, nxt, wnd, rec)"
| "recover_rlist (d # rl) f nxt wnd rec =
     (if SMALLER_OR_EQUAL (rs_seq d) nxt then
        (if LARGER (rs_seq d + rs_len d) nxt then
           (let nAdjust = rs_seq d + rs_len d - nxt in
            bindr (pseudo_tcp_fifo_consume_write_buffer f (unat nAdjust)) (\<lambda>f.
            recover_rlist rl f (nxt + nAdjust) (wnd - nAdjust) True))
         else recover_rlist rl f nxt wnd rec)
      else Inr (d # rl, f, nxt, wnd, rec))"

text \<open>Insertion of an out-of-order segment before the first one that does not precede it.\<close>

fun insert_rseg :: "RSegment \<Rightarrow> RSegment list \<Rightarrow> RSegment list" where
  "insert_rseg r [] = [r]"
| "insert_rseg r (d # rl) = (if SMALLER (rs_seq d) (rs_seq r) then d # insert_rseg r rl else r # d # rl)"

text \<open>The result is the flags for the acknowledgement and \<open>bNewData\<close>.\<close>

definition process_data :: "psock \<Rightarrow> Segment \<Rightarrow> SendFlags \<Rightarrow> ((SendFlags \<times> bool) \<times> psock) res" where
  "process_data s seg0 sflags =
     (let seg = trim_segment s seg0;
          bIgnoreData = (seg_flags seg AND FLAG_CTL \<noteq> 0 \<or> (\<not> support_fin_ack s \<and> shutdown s \<noteq> SD_NONE)) in
      if seg_len seg > 0 then
        (if bIgnoreData then
           Inr ((sflags, False),
             if seg_seq seg = rcv_nxt s then s\<lparr> rcv_nxt := rcv_nxt s + seg_len seg \<rparr> else s)
         else
           bindr (pseudo_tcp_fifo_write_offset (rbuf s) (seg_data seg) (unat (seg_len seg))
                    (unat (seg_seq seg - rcv_nxt s))) (\<lambda>(res, f).
           bindr (g_assert (res = unat (seg_len seg))) (\<lambda>_.
           let s = s\<lparr> rbuf := f \<rparr> in
           if seg_seq seg = rcv_nxt s then
             bindr (pseudo_tcp_fifo_consume_write_buffer (rbuf s) (unat (seg_len seg))) (\<lambda>f.
             bindr (recover_rlist (rlist s) f (rcv_nxt s + seg_len seg) (rcv_wnd s - seg_len seg) False)
               (\<lambda>(rl, f, nxt, wnd, rec).
             Inr ((if rec then sfImmediateAck else sflags, True),
               s\<lparr> rlist := rl, rbuf := f, rcv_nxt := nxt, rcv_wnd := wnd \<rparr>)))
           else
             Inr ((sflags, False),
               s\<lparr> rlist := insert_rseg \<lparr> rs_seq = seg_seq seg, rs_len = seg_len seg \<rparr> (rlist s) \<rparr>))))
      else Inr ((sflags, False), s))"

subsection \<open>The whole function\<close>

definition process_tail :: "tcp_env \<Rightarrow> psock \<Rightarrow> Segment \<Rightarrow> bool \<Rightarrow> psock res" where
  "process_tail env s seg received_fin =
     bindr (notify_writable env s) (\<lambda>s.
     bindr (process_data s seg (ack_flags s seg received_fin)) (\<lambda>((sflags, bNewData), s).
     let s = (if received_fin then s\<lparr> rcv_nxt := rcv_nxt s + 1 \<rparr> else s) in
     bindr (attempt_send env s sflags) (\<lambda>s.
     if bNewData \<and> bReadEnable s then call_cb (PseudoTcpReadable env) EvReadable s else Inr s)))"

definition process :: "tcp_env \<Rightarrow> psock \<Rightarrow> Segment \<Rightarrow> (bool \<times> psock) res" where
  "process env s seg =
     (if seg_conv seg \<noteq> conv s then Inr (False, s)
      else
        (let now = get_current_time env s;
             s = s\<lparr> last_traffic := now, lastrecv := now, bOutgoing := False \<rparr> in
         if state s = TCP_CLOSED \<or> (pseudo_tcp_state_has_received_fin_ack (state s) \<and> seg_len seg > 0) then
           (if seg_flags seg AND FLAG_RST = 0
            then bindr (closedown env s E_NONE CLOSEDOWN_LOCAL) (\<lambda>s. Inr (False, s))
            else Inr (False, s))
         else if seg_flags seg AND FLAG_RST \<noteq> 0 then
           bindr (closedown env s ECONNRESET CLOSEDOWN_REMOTE) (\<lambda>s. Inr (False, s))
         else
           bindr (process_ctl env s seg) (\<lambda>(r, s). case r of None \<Rightarrow> Inr (False, s) | Some bConnect \<Rightarrow>
           bindr (process_ack env (update_timestamp s seg) seg now) (\<lambda>(r, s).
             case r of None \<Rightarrow> Inr (False, s) | Some is_fin_ack \<Rightarrow>
           bindr (if state s = TCP_SYN_RECEIVED \<and> \<not> bConnect then set_state_established env s else Inr s) (\<lambda>s.
           bindr (process_fin env s seg is_fin_ack) (\<lambda>(r, s).
             case r of None \<Rightarrow> Inr (False, s) | Some received_fin \<Rightarrow>
           bindr (process_tail env s seg received_fin) (\<lambda>s. Inr (True, s))))))))"

section \<open>Parsing\<close>

definition word_at :: "byte list \<Rightarrow> nat \<Rightarrow> u32" where
  "word_at b i = ntohl_bytes (b ! i) (b ! (i + 1)) (b ! (i + 2)) (b ! (i + 3))"

definition half_at :: "byte list \<Rightarrow> nat \<Rightarrow> u16" where
  "half_at b i = ntohs_bytes (b ! i) (b ! (i + 1))"

definition parse_segment :: "byte list \<Rightarrow> byte list \<Rightarrow> Segment" where
  "parse_segment hdr data =
     \<lparr> seg_conv = word_at hdr 0, seg_seq = word_at hdr 4, seg_ack = word_at hdr 8,
       seg_flags = hdr ! 13, seg_wnd = half_at hdr 14, seg_data = data,
       seg_len = of_nat (length data), seg_tsval = word_at hdr 16, seg_tsecr = word_at hdr 20 \<rparr>"

definition parse :: "tcp_env \<Rightarrow> psock \<Rightarrow> byte list \<Rightarrow> byte list \<Rightarrow> (bool \<times> psock) res" where
  "parse env s hdr data =
     (if length hdr \<noteq> 24 then Inr (False, s) else process env s (parse_segment hdr data))"

end
