(* ===== verification/PTcp_Api.thy ===== *)
theory PTcp_Api
  imports PTcp_Process
begin

text \<open>
  The public functions of \<open>src/session/pseudotcp/pseudotcp.c\<close>: connect, clock and packet
  notifications, receive, send, close, shutdown, the properties and the queries.
\<close>

definition pseudo_tcp_socket_connect :: "tcp_env \<Rightarrow> psock \<Rightarrow> (bool \<times> psock) res" where
  "pseudo_tcp_socket_connect env s =
     (if state s \<noteq> TCP_LISTEN then Inr (False, s\<lparr> error := EINVAL \<rparr>)
      else
        bindr (set_state s TCP_SYN_SENT) (\<lambda>s.
        bindr (queue_connect_message s) (\<lambda>s.
        bindr (attempt_send env s sfNone) (\<lambda>s. Inr (True, s)))))"

section \<open>The clock\<close>

text \<open>
  The retransmission part of \<open>pseudo_tcp_socket_notify_clock\<close>. \<open>None\<close> is its early return.
\<close>

definition clock_retransmit :: "tcp_env \<Rightarrow> psock \<Rightarrow> u32 \<Rightarrow> (unit option \<times> psock) res" where
  "clock_retransmit env s now =
     (if rto_base s \<noteq> 0 \<and> time_diff (rto_base s + rx_rto s) now \<le> 0 then
        (case slist s of
           [] \<Rightarrow> Inl AssertFail
         | a # _ \<Rightarrow>
             bindr (transmit env s a now) (\<lambda>(st, s).
             if st \<noteq> E_NONE then bindr (closedown env s st CLOSEDOWN_LOCAL) (\<lambda>s. Inr (None, s))
             else
               (let nInFlight = snd_nxt s - snd_una s;
                    s = s\<lparr> ssthresh := max (nInFlight div 2) (2 * mss s) \<rparr>;
                    s = s\<lparr> cwnd := mss s \<rparr>;
                    rto_limit = (if state s < TCP_ESTABLISHED then DEF_RTO else MAX_RTO);
                    s = s\<lparr> rx_rto := min rto_limit (rx_rto s * 2), rto_base := now \<rparr>;
                    s = s\<lparr> recover := snd_nxt s \<rparr>
                in Inr (Some (), if dup_acks s \<ge> 3 then s\<lparr> dup_acks := 0, fast_recovery := False \<rparr> else s))))
      else Inr (Some (), s))"

text \<open>The probe of a closed window.\<close>

definition clock_probe :: "tcp_env \<Rightarrow> psock \<Rightarrow> u32 \<Rightarrow> (unit option \<times> psock) res" where
  "clock_probe env s now =
     (if snd_wnd s = 0 \<and> time_diff (lastsend s + rx_rto s) now \<le> 0 then
        (if time_diff now (lastrecv s) \<ge> 15000 then
           bindr (closedown env s ECONNABORTED CLOSEDOWN_LOCAL) (\<lambda>s. Inr (None, s))
         else
           bindr (packet env s (snd_nxt s - 1) FLAG_NONE 0 0 now) (\<lambda>(_, s).
           let s = s\<lparr> lastsend := now \<rparr> in
           Inr (Some (), s\<lparr> rx_rto := min MAX_RTO (rx_rto s * 2) \<rparr>)))
      else Inr (Some (), s))"

definition pseudo_tcp_socket_notify_clock :: "tcp_env \<Rightarrow> psock \<Rightarrow> psock res" where
  "pseudo_tcp_socket_notify_clock env s =
     (let now = get_current_time env s in
      if state s = TCP_CLOSED then Inr s
      else
        bindr (if support_fin_ack s \<and> state s = TCP_TIME_WAIT then set_state_closed env s E_NONE else Inr s) (\<lambda>s.
        bindr (if support_fin_ack s \<and> state s = TCP_LAST_ACK then
                 bindr (queue_fin_message s) (\<lambda>s. attempt_send env s sfFin)
               else Inr s) (\<lambda>s.
        bindr (clock_retransmit env s now) (\<lambda>(r, s). case r of None \<Rightarrow> Inr s | Some _ \<Rightarrow>
        bindr (clock_probe env s now) (\<lambda>(r, s). case r of None \<Rightarrow> Inr s | Some _ \<Rightarrow>
        if t_ack s \<noteq> 0 \<and> time_diff (t_ack s + ack_delay s) now \<le> 0 then
          bindr (packet env s (snd_nxt s) FLAG_NONE 0 0 now) (\<lambda>(_, s). Inr s)
        else Inr s)))))"

text \<open>The time-out argument is a 64-bit value; the sums of 32-bit times wrap before they are widened.\<close>

definition pseudo_tcp_socket_get_next_clock ::
    "tcp_env \<Rightarrow> psock \<Rightarrow> u64 \<Rightarrow> (bool \<times> u64 \<times> psock) res" where
  "pseudo_tcp_socket_get_next_clock env s timeout =
     (let now = get_current_time env s in
      if shutdown s = SD_FORCEFUL then
        bindr (closedown env s E_NONE CLOSEDOWN_REMOTE) (\<lambda>s. Inr (False, timeout, s))
      else if shutdown s = SD_GRACEFUL \<and>
              (state s \<noteq> TCP_ESTABLISHED \<or>
               (pseudo_tcp_fifo_get_buffered (sbuf s) = 0 \<and> t_ack s = 0)) then
        bindr (closedown env s E_NONE CLOSEDOWN_REMOTE) (\<lambda>s. Inr (False, timeout, s))
      else
        (let closed_timeout = (if support_fin_ack s \<and> state s = TCP_TIME_WAIT
                               then TIME_WAIT_TIMEOUT else CLOSED_TIMEOUT) in
         if support_fin_ack s \<and> state s = TCP_CLOSED then Inr (False, timeout, s)
         else
           (let timeout = (if timeout = 0 \<or> timeout < ucast now then ucast (now + closed_timeout) else timeout) in
            if support_fin_ack s \<and> state s = TCP_TIME_WAIT then
              Inr (True, min timeout (ucast (now + TIME_WAIT_TIMEOUT)), s)
            else if state s = TCP_CLOSED \<and> \<not> support_fin_ack s then
              Inr (True, min timeout (ucast (now + CLOSED_TIMEOUT)), s)
            else
              (let timeout = min timeout (ucast (now + DEFAULT_TIMEOUT));
                   timeout = (if t_ack s \<noteq> 0 then min timeout (ucast (t_ack s + ack_delay s)) else timeout);
                   timeout = (if rto_base s \<noteq> 0 then min timeout (ucast (rto_base s + rx_rto s)) else timeout);
                   timeout = (if snd_wnd s = 0 then min timeout (ucast (lastsend s + rx_rto s)) else timeout)
               in Inr (True, timeout, s)))))"

section \<open>Packets\<close>

definition pseudo_tcp_socket_notify_packet :: "tcp_env \<Rightarrow> psock \<Rightarrow> byte list \<Rightarrow> (bool \<times> psock) res" where
  "pseudo_tcp_socket_notify_packet env s buf =
     (if length buf > unat MAX_PACKET then Inr (False, s\<lparr> error := EMSGSIZE \<rparr>)
      else if length buf < unat HEADER_SIZE then Inr (False, s\<lparr> error := EINVAL \<rparr>)
      else parse env s (take (unat HEADER_SIZE) buf) (drop (unat HEADER_SIZE) buf))"

section \<open>Receive and send\<close>

definition pseudo_tcp_socket_get_available_bytes :: "psock \<Rightarrow> int" where
  "pseudo_tcp_socket_get_available_bytes s = to_gint32 (int (pseudo_tcp_fifo_get_buffered (rbuf s)))"

text \<open>The results of \<open>recv\<close> are its return value, the bytes written to the buffer, the socket.\<close>

definition pseudo_tcp_socket_recv :: "tcp_env \<Rightarrow> psock \<Rightarrow> nat \<Rightarrow> (int \<times> byte list \<times> psock) res" where
  "pseudo_tcp_socket_recv env s len =
     (if support_fin_ack s \<and> shutdown_reads s then Inr (0, [], s)
      else if \<not> support_fin_ack s \<and> pseudo_tcp_socket_is_closed s then Inr (0, [], s)
      else if \<not> support_fin_ack s \<and> state s \<noteq> TCP_ESTABLISHED then Inr (-1, [], s\<lparr> error := ENOTCONN \<rparr>)
      else if len = 0 then Inr (0, [], s)
      else
        bindr (pseudo_tcp_fifo_read (rbuf s) len) (\<lambda>(bs, f).
        let s = log_event (s\<lparr> rbuf := f \<rparr>) (EvRead bs) in
        if bs = [] \<and> \<not> (pseudo_tcp_state_has_received_fin (state s) \<or>
                        pseudo_tcp_state_has_received_fin_ack (state s)) then
          Inr (-1, [], s\<lparr> bReadEnable := True, error := EWOULDBLOCK \<rparr>)
        else
          (let available_space = pseudo_tcp_fifo_get_write_remaining (rbuf s) in
           bindr (if of_nat available_space - (ucast (rcv_wnd s) :: u64) \<ge>
                     ucast (min (rbuf_len s div 2) (mss s)) then
                    (let bWasClosed = (rcv_wnd s = 0);
                         s = s\<lparr> rcv_wnd := of_nat available_space \<rparr>
                     in if bWasClosed then attempt_send env s sfImmediateAck else Inr s)
                  else Inr s) (\<lambda>s.
           Inr (to_gint32 (int (length bs)), bs, s)))))"

definition pseudo_tcp_socket_send ::
    "tcp_env \<Rightarrow> psock \<Rightarrow> byte list \<Rightarrow> u32 \<Rightarrow> (int \<times> psock) res" where
  "pseudo_tcp_socket_send env s data len =
     (if state s \<noteq> TCP_ESTABLISHED then
        Inr (-1, s\<lparr> error := (if pseudo_tcp_state_has_sent_fin (state s) then EPIPE else ENOTCONN) \<rparr>)
      else if pseudo_tcp_fifo_get_write_remaining (sbuf s) = 0 then
        Inr (-1, s\<lparr> bWriteEnable := True, error := EWOULDBLOCK \<rparr>)
      else
        bindr (queue s data len FLAG_NONE) (\<lambda>(written, s).
        bindr (attempt_send env s sfNone) (\<lambda>s.
        Inr (sint written,
          if sint written > 0 \<and> written < len then s\<lparr> bWriteEnable := True \<rparr> else s))))"

section \<open>Close and shutdown\<close>

definition shutdown_write :: "tcp_env \<Rightarrow> psock \<Rightarrow> psock res" where
  "shutdown_write env s = (case state s of
     TCP_LISTEN \<Rightarrow> set_state_closed env s E_NONE
   | TCP_SYN_SENT \<Rightarrow> set_state_closed env s E_NONE
   | TCP_CLOSE_WAIT \<Rightarrow>
       bindr (queue_fin_message s) (\<lambda>s.
       bindr (attempt_send env s sfFin) (\<lambda>s. set_state s TCP_LAST_ACK))
   | TCP_CLOSING \<Rightarrow> Inr s
   | TCP_CLOSED \<Rightarrow> Inr s
   | TCP_FIN_WAIT_1 \<Rightarrow> Inr s
   | TCP_FIN_WAIT_2 \<Rightarrow> Inr s
   | TCP_TIME_WAIT \<Rightarrow> Inr s
   | TCP_LAST_ACK \<Rightarrow> Inr s
   | _ \<Rightarrow>
       if pseudo_tcp_socket_get_available_bytes s > 0
       then closedown env s ECONNABORTED CLOSEDOWN_LOCAL
       else bindr (queue_fin_message s) (\<lambda>s.
            bindr (attempt_send env s sfFin) (\<lambda>s. set_state s TCP_FIN_WAIT_1)))"

definition pseudo_tcp_socket_shutdown :: "tcp_env \<Rightarrow> psock \<Rightarrow> PseudoTcpShutdown \<Rightarrow> psock res" where
  "pseudo_tcp_socket_shutdown env s how =
     (if \<not> support_fin_ack s then Inr (if shutdown s = SD_NONE then s\<lparr> shutdown := SD_GRACEFUL \<rparr> else s)
      else
        (let s = (if how = PSEUDO_TCP_SHUTDOWN_RD \<or> how = PSEUDO_TCP_SHUTDOWN_RDWR
                  then s\<lparr> shutdown_reads := True \<rparr> else s) in
         if how = PSEUDO_TCP_SHUTDOWN_RD then Inr s else shutdown_write env s))"

definition pseudo_tcp_socket_close :: "tcp_env \<Rightarrow> psock \<Rightarrow> bool \<Rightarrow> psock res" where
  "pseudo_tcp_socket_close env s force =
     (if force \<and> state s \<noteq> TCP_CLOSED then closedown env s ECONNABORTED CLOSEDOWN_LOCAL
      else pseudo_tcp_socket_shutdown env s PSEUDO_TCP_SHUTDOWN_RDWR)"

section \<open>Queries and properties\<close>

definition pseudo_tcp_socket_get_available_send_space :: "psock \<Rightarrow> nat \<times> psock" where
  "pseudo_tcp_socket_get_available_send_space s =
     (let ret = (if \<not> pseudo_tcp_state_has_sent_fin (state s)
                 then pseudo_tcp_fifo_get_write_remaining (sbuf s) else 0)
      in (ret, if ret = 0 then s\<lparr> bWriteEnable := True \<rparr> else s))"

definition pseudo_tcp_socket_can_send :: "psock \<Rightarrow> bool \<times> psock" where
  "pseudo_tcp_socket_can_send s =
     (let (n, s) = pseudo_tcp_socket_get_available_send_space s in (n > 0, s))"

datatype tcp_property =
    PROP_CONVERSATION u32 | PROP_ACK_DELAY u32 | PROP_NO_DELAY bool
  | PROP_RCV_BUF u32 | PROP_SND_BUF u32 | PROP_SUPPORT_FIN_ACK bool

text \<open>A false \<open>g_return_if_fail\<close> leaves the function.\<close>

fun pseudo_tcp_socket_set_property :: "tcp_env \<Rightarrow> psock \<Rightarrow> tcp_property \<Rightarrow> psock res" where
  "pseudo_tcp_socket_set_property env s (PROP_CONVERSATION v) = Inr (s\<lparr> conv := v \<rparr>)"
| "pseudo_tcp_socket_set_property env s (PROP_ACK_DELAY v) = Inr (s\<lparr> ack_delay := v \<rparr>)"
| "pseudo_tcp_socket_set_property env s (PROP_NO_DELAY b) = Inr (s\<lparr> use_nagling := \<not> b \<rparr>)"
| "pseudo_tcp_socket_set_property env s (PROP_RCV_BUF v) =
     (if state s = TCP_LISTEN then resize_receive_buffer env s v else Inr s)"
| "pseudo_tcp_socket_set_property env s (PROP_SND_BUF v) =
     (if state s = TCP_LISTEN then resize_send_buffer env s v else Inr s)"
| "pseudo_tcp_socket_set_property env s (PROP_SUPPORT_FIN_ACK b) = Inr (s\<lparr> support_fin_ack := b \<rparr>)"

end
