(* ===== verification/PTcp_Wire.thy ===== *)
theory PTcp_Wire
  imports PTcp_Api
begin

text \<open>
  The wire format of the pseudo-TCP segments: what \<open>packet\<close> writes is what \<open>parse\<close> reads, the
  option list is parsed without reading outside the segment, and the connect message of one
  side configures the other side as its sender asked.
\<close>

section \<open>Packets\<close>

lemma length_tcp_header [simp]: "length (tcp_header s seq flags now wnd) = 24"
  by (simp add: tcp_header_def)

lemma tcp_header_fields:
  "word_at (tcp_header s seq flags now wnd) 0 = conv s"
  "word_at (tcp_header s seq flags now wnd) 4 = seq"
  "word_at (tcp_header s seq flags now wnd) 8 = rcv_nxt s"
  "tcp_header s seq flags now wnd ! 13 = flags"
  "half_at (tcp_header s seq flags now wnd) 14 = wnd"
  "word_at (tcp_header s seq flags now wnd) 16 = now"
  "word_at (tcp_header s seq flags now wnd) 20 = ts_recent s"
  by (simp_all add: word_at_def half_at_def tcp_header_def htonl_bytes_def htons_bytes_def)

definition payload_of :: "psock \<Rightarrow> u32 \<Rightarrow> u32 \<Rightarrow> byte list" where
  "payload_of s offset len = fifo_cells (sbuf s) (unat offset) (unat len)"

definition segment_of :: "psock \<Rightarrow> u32 \<Rightarrow> u8 \<Rightarrow> u32 \<Rightarrow> byte list \<Rightarrow> Segment" where
  "segment_of s seq flags now data =
     \<lparr> seg_conv = conv s, seg_seq = seq, seg_ack = rcv_nxt s, seg_flags = flags,
       seg_wnd = ucast (drop_bit (unat (rwnd_scale s)) (rcv_wnd s)), seg_data = data,
       seg_len = of_nat (length data), seg_tsval = now, seg_tsecr = ts_recent s \<rparr>"

text \<open>The effect of \<open>packet\<close> when its assertions hold: what is written, and the socket after it.\<close>

definition packet_bytes :: "psock \<Rightarrow> u32 \<Rightarrow> u8 \<Rightarrow> u32 \<Rightarrow> u32 \<Rightarrow> u32 \<Rightarrow> byte list" where
  "packet_bytes s seq flags offset len now =
     tcp_header s seq flags now (ucast (drop_bit (unat (rwnd_scale s)) (rcv_wnd s)))
     @ payload_of s offset len"

definition packet_ok :: "psock \<Rightarrow> u32 \<Rightarrow> u32 \<Rightarrow> bool" where
  "packet_ok s offset len \<longleftrightarrow> rwnd_scale s < 32 \<and> HEADER_SIZE + len \<le> MAX_PACKET \<and> fifo_ok (sbuf s) \<and>
     unat offset + unat len \<le> data_length (sbuf s)"

definition packet_sent :: "psock \<Rightarrow> byte list \<Rightarrow> PseudoTcpWriteResult \<Rightarrow> psock" where
  "packet_sent s pkt wres = log_event (s\<lparr> ts_lastack := rcv_nxt s \<rparr>) (EvWritePacket pkt wres)"

lemma packet_effect:
  assumes ok: "len = 0 \<and> rwnd_scale s < 32 \<or> packet_ok s offset len"
    and pkt: "pkt = packet_bytes s seq flags offset len now"
    and w: "w = WritePacket env (s\<lparr> ts_lastack := rcv_nxt s \<rparr>) pkt"
  shows "packet env s seq flags offset len now =
     (if w \<noteq> WR_SUCCESS \<and> len \<noteq> 0 then Inr (w, packet_sent s pkt w)
      else Inr (WR_SUCCESS, (packet_sent s pkt w)\<lparr> t_ack := 0,
             lastsend := (if len > 0 then now else lastsend s), last_traffic := now, bOutgoing := True \<rparr>))"
proof (cases "len = 0")
  case True
  with ok have "rwnd_scale s < 32" by (auto simp: packet_ok_def)
  with True pkt w show ?thesis
    by (simp add: packet_def shr32_def packet_bytes_def payload_of_def packet_sent_def log_event_def
        tcp_header_def Let_def tcp_consts)
next
  case False
  with ok have pok: "packet_ok s offset len" by simp
  then have "pseudo_tcp_fifo_read_offset (sbuf s) (unat len) (unat offset) = Inr (payload_of s offset len)"
    by (auto simp: packet_ok_def fifo_read_offset_spec payload_of_def min_absorb1)
  moreover have "length (payload_of s offset len) = unat len"
    by (simp add: payload_of_def)
  moreover have "len > 0" using False by (simp add: word_neq_0_conv)
  ultimately show ?thesis using pok False pkt w
    by (simp add: packet_ok_def packet_def shr32_def packet_bytes_def packet_sent_def log_event_def
        tcp_header_def Let_def)
qed

lemma parse_packet_bytes:
  "parse_segment (take 24 (packet_bytes s seq flags offset len now))
      (drop 24 (packet_bytes s seq flags offset len now))
   = segment_of s seq flags now (payload_of s offset len)"
  by (simp add: packet_bytes_def parse_segment_def segment_of_def tcp_header_fields)

text \<open>
  C20. What \<open>packet\<close> hands to the network parses back: whenever the payload lies within the
  queued data and fits a packet, \<open>packet\<close> succeeds without a failed assertion, writes
  exactly one packet, of 24 bytes plus the payload, and \<open>parse\<close> on the other side hands to
  \<open>process\<close> a segment with the conversation, sequence and acknowledgement numbers, flags,
  scaled window, time stamps and payload bytes of the sender.
\<close>

theorem packet_parse_roundtrip:
  assumes "packet_ok s offset len"
  shows "\<exists>w wres s' pkt. packet env s seq flags offset len now = Inr (w, s') \<and>
     trace s' = trace s @ [EvWritePacket pkt wres] \<and> length pkt = 24 + unat len \<and>
     parse env' peer (take 24 pkt) (drop 24 pkt) =
       process env' peer (segment_of s seq flags now (payload_of s offset len))"
proof -
  let ?pkt = "packet_bytes s seq flags offset len now"
  let ?w = "WritePacket env (s\<lparr> ts_lastack := rcv_nxt s \<rparr>) ?pkt"
  have len: "length ?pkt = 24 + unat len" by (simp add: packet_bytes_def payload_of_def)
  then have "parse env' peer (take 24 ?pkt) (drop 24 ?pkt) =
       process env' peer (segment_of s seq flags now (payload_of s offset len))"
    by (simp add: parse_def parse_packet_bytes)
  moreover have "\<exists>w s'. packet env s seq flags offset len now = Inr (w, s') \<and>
      trace s' = trace s @ [EvWritePacket ?pkt ?w]"
    using packet_effect [OF disjI2 [OF assms] refl refl, of env seq flags now]
    by (auto simp: packet_sent_def log_event_def)
  ultimately show ?thesis using len by blast
qed

section \<open>Options\<close>

lemma opt_byte_Inr: "i < length data \<Longrightarrow> opt_byte data i = Inr (data ! i)"
  by (simp add: opt_byte_def)

lemma parse_options_loop_total:
  "len \<le> length data \<Longrightarrow> \<exists>r s'. parse_options_loop s data len pos w f = Inr (r, s')"
proof (induction s data len pos w f rule: parse_options_loop.induct)
  case (1 s data len pos w f)
  show ?case
  proof (cases "pos < len \<and> data ! pos \<noteq> TCP_OPT_EOL")
    case False
    then show ?thesis using "1.prems"
      by (auto simp: parse_options_loop.simps [of s data len pos] opt_byte_Inr)
  next
    case True
    then have b: "opt_byte data pos = Inr (data ! pos)" using "1.prems" by (simp add: opt_byte_Inr)
    show ?thesis
    proof (cases "data ! pos = TCP_OPT_NOOP")
      case noop: True
      with True b "1.IH"(1) [OF _ _ b] "1.prems" show ?thesis
        by (auto simp: parse_options_loop.simps [of s data len pos])
    next
      case noop: False
      show ?thesis
      proof (cases "len < pos + 2 \<or> len < pos + 2 + unat (data ! (pos + 1))")
        case short: True
        then show ?thesis using True b noop "1.prems"
          by (auto simp: parse_options_loop.simps [of s data len pos] opt_byte_def)
      next
        case short: False
        then have b1: "opt_byte data (pos + 1) = Inr (data ! (pos + 1))"
          using "1.prems" by (simp add: opt_byte_Inr)
        have c: "src_read data (pos + 2) (unat (data ! (pos + 1)))
            = Inr (take (unat (data ! (pos + 1))) (drop (pos + 2) data))"
          using short "1.prems" by (simp add: src_read_def)
        show ?thesis
          using "1.IH"(2) [OF _ _ b _ _ _ b1 refl _ _ c] True b b1 c noop short "1.prems"
          by (auto simp: parse_options_loop.simps [of s data len pos])
      qed
    qed
  qed
qed

text \<open>What an option list may change.\<close>

definition opt_frame :: "psock \<Rightarrow> psock \<Rightarrow> bool" where
  "opt_frame s s' \<longleftrightarrow> s' = s\<lparr> swnd_scale := swnd_scale s', support_fin_ack := support_fin_ack s' \<rparr>"

lemma opt_frame_refl [simp]: "opt_frame s s"
  by (simp add: opt_frame_def)

lemma opt_frame_upd [simp]: "opt_frame s (s\<lparr> support_fin_ack := b \<rparr>)" "opt_frame s (s\<lparr> swnd_scale := k \<rparr>)"
  by (simp_all add: opt_frame_def)

lemma opt_frame_trans:
  assumes 1: "opt_frame s s1" and 2: "opt_frame s1 s2"
  shows "opt_frame s s2"
proof -
  from 2 have "s2 = s1\<lparr> swnd_scale := swnd_scale s2, support_fin_ack := support_fin_ack s2 \<rparr>"
    by (simp add: opt_frame_def)
  also have "s1\<lparr> swnd_scale := swnd_scale s2, support_fin_ack := support_fin_ack s2 \<rparr>
      = (s\<lparr> swnd_scale := swnd_scale s1, support_fin_ack := support_fin_ack s1 \<rparr>)
          \<lparr> swnd_scale := swnd_scale s2, support_fin_ack := support_fin_ack s2 \<rparr>"
    using 1 by (simp add: opt_frame_def)
  also have "\<dots> = s\<lparr> swnd_scale := swnd_scale s2, support_fin_ack := support_fin_ack s2 \<rparr>" by simp
  finally show ?thesis by (simp add: opt_frame_def)
qed

lemma apply_option_frame [simp]: "opt_frame s (apply_option s kind data)"
  by (simp add: apply_option_def)

text \<open>One step of the loop: it stops, skips a no-op, or applies an option and goes on.\<close>

lemma parse_options_loop_step:
  assumes "parse_options_loop s data len pos w f = Inr (r, s')"
  obtains (stop) "s' = s"
  | (noop) "pos < len" "parse_options_loop s data len (pos + 1) w f = Inr (r, s')"
  | (option) k c p w0 f0 where "pos < len" "pos < p"
      "parse_options_loop (apply_option s k c) data len p w0 f0 = Inr (r, s')"
proof (cases "pos < len")
  case False
  with assms show ?thesis by (intro stop) (simp add: parse_options_loop.simps [of s data len pos])
next
  case True
  with assms obtain kind where k: "opt_byte data pos = Inr kind"
    by (cases "opt_byte data pos") (auto simp: parse_options_loop.simps [of s data len pos])
  consider "kind = TCP_OPT_EOL" | "kind \<noteq> TCP_OPT_EOL" "kind = TCP_OPT_NOOP"
    | "kind \<noteq> TCP_OPT_EOL" "kind \<noteq> TCP_OPT_NOOP" "len < pos + 2"
    | "kind \<noteq> TCP_OPT_EOL" "kind \<noteq> TCP_OPT_NOOP" "\<not> len < pos + 2"
    by blast
  then show ?thesis
  proof cases
    case 1
    with assms True k show ?thesis
      by (intro stop) (simp add: parse_options_loop.simps [of s data len pos])
  next
    case 2
    with assms True k show ?thesis
      by (intro noop) (simp_all add: parse_options_loop.simps [of s data len pos])
  next
    case 3
    with assms True k show ?thesis
      by (intro stop) (simp add: parse_options_loop.simps [of s data len pos])
  next
    case 4
    with assms True k obtain l where l: "opt_byte data (pos + 1) = Inr l"
      by (cases "opt_byte data (pos + 1)") (auto simp: parse_options_loop.simps [of s data len pos])
    show ?thesis
    proof (cases "len < pos + 2 + unat l")
      case True
      with assms \<open>pos < len\<close> k 4 l show ?thesis
        by (intro stop) (simp add: parse_options_loop.simps [of s data len pos] Let_def)
    next
      case False
      then have le: "unat l \<le> len - Suc (Suc pos)" by simp
      from False assms \<open>pos < len\<close> k 4 l le obtain c where
        "parse_options_loop (apply_option s kind c) data len (Suc (Suc pos) + unat l)
          (kind = TCP_OPT_WND_SCALE \<or> w) (kind = TCP_OPT_FIN_ACK \<or> f) = Inr (r, s')"
        by (cases "src_read data (Suc (Suc pos)) (unat l)")
           (simp_all add: parse_options_loop.simps [of s data len pos] Let_def)
      with \<open>pos < len\<close> show ?thesis by (intro option) simp_all
    qed
  qed
qed

lemma parse_options_loop_frame:
  "parse_options_loop s data len pos w f = Inr (r, s') \<Longrightarrow> opt_frame s s'"
proof (induction "len - pos" arbitrary: s pos w f rule: less_induct)
  case less
  from less.prems show ?case
  proof (cases rule: parse_options_loop_step)
    case stop
    then show ?thesis by simp
  next
    case noop
    then show ?thesis using less.hyps [of "pos + 1" s w f] by simp
  next
    case (option k c p w0 f0)
    then have "opt_frame (apply_option s k c) s'"
      using less.hyps [of p "apply_option s k c" w0 f0] by simp
    then show ?thesis by (rule opt_frame_trans [OF apply_option_frame])
  qed
qed

lemma scale_down_small: "n \<le> 0xFFFF \<Longrightarrow> scale_down fuel n k = (n, k)"
  by (cases fuel) auto

lemma resize_default_receive_buffer:
  assumes "fifo_ok (rbuf s)" and "data_length (rbuf s) < unat DEFAULT_RCV_BUF_SIZE"
  shows "\<exists>s'. resize_receive_buffer env s DEFAULT_RCV_BUF_SIZE = Inr s' \<and> fifo_ok (rbuf s') \<and>
     fifo_data (rbuf s') = fifo_data (rbuf s) \<and> state s' = state s \<and> rcv_nxt s' = rcv_nxt s \<and>
     sbuf s' = sbuf s \<and> slist s' = slist s \<and> seg_heap s' = seg_heap s"
  using fifo_set_capacity_spec [OF assms, of "junk env"] assms(1)
  by (auto simp: resize_receive_buffer_def scale_down_small DEFAULT_RCV_BUF_SIZE_def Let_def)


definition example_env :: tcp_env where
  "example_env = \<lparr> WritePacket = (\<lambda>_ _. WR_SUCCESS), PseudoTcpOpened = Some Inr,
     PseudoTcpReadable = Some Inr, PseudoTcpWritable = Some Inr,
     PseudoTcpClosed = Some (\<lambda>s _. Inr s), monotonic_ms = (\<lambda>_. 5), junk = (\<lambda>_. 0) \<rparr>"

definition example_socket :: psock where
  "example_socket = pseudo_tcp_socket_new example_env 1"

lemma example_socket_fifos [simp]:
  "fifo_ok (rbuf example_socket)" "fifo_ok (sbuf example_socket)"
  "data_length (rbuf example_socket) = 0" "data_length (sbuf example_socket) = 0"
  "rwnd_scale example_socket = 0" "rcv_nxt example_socket = 0"
  by (simp_all add: example_socket_def pseudo_tcp_socket_new_def pseudo_tcp_socket_init_def
      fifo_ok_def pseudo_tcp_fifo_init_def tcp_consts)


theorem packet_parse_roundtrip_witness:
  "\<exists>w wres s' pkt. packet example_env example_socket 17 FLAG_CTL 0 0 99 = Inr (w, s') \<and>
     trace s' = trace example_socket @ [EvWritePacket pkt wres] \<and> length pkt = 24 + unat (0::u32) \<and>
     parse example_env example_socket (take 24 pkt) (drop 24 pkt) =
       process example_env example_socket
         (segment_of example_socket 17 FLAG_CTL 99 (payload_of example_socket 0 0))"
  by (rule packet_parse_roundtrip) (simp add: packet_ok_def tcp_consts)

text \<open>
  Option negotiation: when a socket receives the body of the connect message that its peer
  composes with \<open>queue_connect_message\<close>, and the peer announces its window scale, the socket
  takes over the peer's receive window scale as its send scale and supports FIN-ACK exactly
  when the peer does, and changes nothing else.
\<close>

theorem connect_message_negotiates:
  assumes "support_wnd_scale peer"
  shows "parse_options env s (tl (connect_message peer)) (length (connect_message peer) - 1)
       = Inr (s\<lparr> swnd_scale := rwnd_scale peer, support_fin_ack := support_fin_ack peer \<rparr>)"
  using assms
  by (simp add: connect_message_def parse_options_def parse_options_loop.simps tcp_consts
      opt_byte_def src_read_def apply_option_def)

theorem connect_message_negotiates_witness:
  "parse_options example_env example_socket (tl (connect_message example_socket))
     (length (connect_message example_socket) - 1)
   = Inr (example_socket\<lparr> swnd_scale := rwnd_scale example_socket,
            support_fin_ack := support_fin_ack example_socket \<rparr>)"
  by (rule connect_message_negotiates)
     (simp add: example_socket_def pseudo_tcp_socket_new_def pseudo_tcp_socket_init_def)

end
