(* ===== verification/PTcp_Recv.thy ===== *)
theory PTcp_Recv
  imports PTcp_Wire
begin

text \<open>
  Correctness of the receiver of \<open>src/session/pseudotcp/pseudotcp.c\<close>. The peer's stream is a list
  \<open>xs\<close>; a data segment is genuine when it carries a slice of it under the sequence number of
  the slice's position. However such segments are lost, duplicated, reordered or cut, the
  bytes the user reads are the stream's bytes in order.

  The invariant says where the bytes are: the queued bytes of \<open>rbuf\<close> are the last ones before
  \<open>rcv_nxt\<close>, and each element of \<open>rlist\<close> stands for a slice already stored ahead of them.
\<close>

section \<open>The receive buffer and the stream\<close>

definition stream_ok :: "byte list \<Rightarrow> fifo \<Rightarrow> nat \<Rightarrow> bool" where
  "stream_ok xs f q \<longleftrightarrow> fifo_ok f \<and> data_length f \<le> q \<and> q \<le> length xs \<and>
     fifo_data f = drop (q - data_length f) (take q xs)"

definition covers :: "byte list \<Rightarrow> fifo \<Rightarrow> nat \<Rightarrow> nat \<times> nat \<Rightarrow> bool" where
  "covers xs f q = (\<lambda>(p, n). 0 < n \<and> p + n \<le> length xs \<and>
     p + n \<le> q + pseudo_tcp_fifo_get_write_remaining f \<and>
     (\<forall>k. q \<le> k \<and> p \<le> k \<and> k < p + n \<longrightarrow> fifo_cell f (data_length f + k - q) = xs ! k))"

definition rseg_of :: "u32 \<Rightarrow> nat \<times> nat \<Rightarrow> RSegment" where
  "rseg_of base = (\<lambda>(p, n). \<lparr> rs_seq = seqno base p, rs_len = of_nat n \<rparr>)"

definition ahead_ok :: "byte list \<Rightarrow> fifo \<Rightarrow> nat \<Rightarrow> (nat \<times> nat) list \<Rightarrow> bool" where
  "ahead_ok xs f q ps \<longleftrightarrow> sorted (map fst ps) \<and> (\<forall>x \<in> set ps. covers xs f q x)"

text \<open>The stream positions the receiver holds or has passed on.\<close>

definition got :: "nat \<Rightarrow> (nat \<times> nat) list \<Rightarrow> nat \<Rightarrow> bool" where
  "got q ps k \<longleftrightarrow> k < q \<or> (\<exists>(p, n) \<in> set ps. p \<le> k \<and> k < p + n)"

lemmas remaining_def = pseudo_tcp_fifo_get_write_remaining_def

lemma stream_consume:
  assumes s: "stream_ok xs f q" and m: "m \<le> pseudo_tcp_fifo_get_write_remaining f" "q + m \<le> length xs"
    and cells: "\<And>k. q \<le> k \<Longrightarrow> k < q + m \<Longrightarrow> fifo_cell f (data_length f + k - q) = xs ! k"
  obtains f' where "pseudo_tcp_fifo_consume_write_buffer f m = Inr f'" "stream_ok xs f' (q + m)"
    "pseudo_tcp_fifo_get_write_remaining f' = pseudo_tcp_fifo_get_write_remaining f - m"
    "data_length f' = data_length f + m" "buffer_length f' = buffer_length f" "\<And>x. covers xs f q x \<Longrightarrow> covers xs f' (q + m) x"
proof
  let ?f = "f\<lparr> data_length := data_length f + m \<rparr>"
  show "pseudo_tcp_fifo_consume_write_buffer f m = Inr ?f"
    using m by (simp add: pseudo_tcp_fifo_consume_write_buffer_def remaining_def)
  have c: "fifo_cell ?f k = fifo_cell f k" for k
    by (simp add: fifo_cell_def)
  have "fifo_data ?f = drop (q - data_length f) (take q xs) @ map ((!) xs) [q..<q + m]"
  proof -
    have "fifo_data ?f = fifo_data f @ fifo_cells f (data_length f) m"
      by (intro nth_equalityI) (auto simp: fifo_data_def nth_append c)
    also have "fifo_cells f (data_length f) m = map ((!) xs) [q..<q + m]"
    proof (rule nth_equalityI)
      show "fifo_cells f (data_length f) m ! i = map ((!) xs) [q..<q + m] ! i"
        if "i < length (fifo_cells f (data_length f) m)" for i
        using that cells [of "q + i"] by simp
    qed simp
    finally show ?thesis using s by (simp add: stream_ok_def)
  qed
  also have "\<dots> = drop (q - data_length f) (take (q + m) xs)"
    using s m by (intro nth_equalityI) (auto simp: stream_ok_def nth_append)
  finally show "stream_ok xs ?f (q + m)"
    using s m by (auto simp: stream_ok_def fifo_ok_def remaining_def)
  show "pseudo_tcp_fifo_get_write_remaining ?f = pseudo_tcp_fifo_get_write_remaining f - m"
    by (simp add: remaining_def)
  show "covers xs ?f (q + m) x" if "covers xs f q x" for x
  proof -
    obtain p n where x: "x = (p, n)" by force
    have "fifo_cell f (data_length f + m + k - (q + m)) = xs ! k"
      if "q + m \<le> k" "p \<le> k" "k < p + n" for k
    proof -
      have "data_length f + m + k - (q + m) = data_length f + k - q" using that by simp
      then show ?thesis using \<open>covers xs f q x\<close> that by (auto simp: covers_def x)
    qed
    then show ?thesis using that m s
      by (auto simp: covers_def x c remaining_def stream_ok_def fifo_ok_def)
  qed
qed simp_all

lemma covers_bounds: "covers xs f q (p, n) \<Longrightarrow> p + n \<le> length xs \<and> 0 < n"
  by (simp add: covers_def)

lemma recover_rlist_spec:
  assumes "stream_ok xs f q" and "ahead_ok xs f q ps" and "length xs \<le> 2 ^ 30"
  shows "\<exists>ps' f' q' rec'. recover_rlist (map (rseg_of base) ps) f (seqno base q) wnd rec =
      Inr (map (rseg_of base) ps', f', seqno base q', wnd - of_nat (q' - q), rec') \<and>
    q \<le> q' \<and> stream_ok xs f' q' \<and> ahead_ok xs f' q' ps' \<and> (\<forall>x \<in> set ps'. q' < fst x) \<and>
    data_length f' = data_length f + (q' - q) \<and> buffer_length f' = buffer_length f \<and>
    (\<forall>k. got q ps k \<longrightarrow> got q' ps' k)"
  using assms
proof (induction ps arbitrary: f q wnd rec)
  case Nil
  then show ?case by auto
next
  case (Cons x ps)
  obtain p n where x: "x = (p, n)" by force
  have cov: "covers xs f q (p, n)" and bnd: "p + n \<le> length xs" "q \<le> length xs" "0 < n"
    using Cons.prems by (auto simp: ahead_ok_def x covers_def stream_ok_def)
  have le: "SMALLER_OR_EQUAL (seqno base p) (seqno base q) = (p \<le> q)"
    using bnd Cons.prems(3) by (intro SMALLER_OR_EQUAL_seqno) auto
  have gt: "LARGER (seqno base p + of_nat n) (seqno base q) = (q < p + n)"
    unfolding seqno_add [symmetric] using bnd Cons.prems(3) by (intro LARGER_seqno) auto
  show ?case
  proof (cases "p \<le> q")
    case False
    have "q < fst y" if "y \<in> set (x # ps)" for y
      using that False Cons.prems(2) by (auto simp: ahead_ok_def x)
    with False show ?thesis using Cons.prems le
      by (intro exI [of _ "x # ps"] exI [of _ f] exI [of _ q] exI [of _ rec])
         (auto simp: x rseg_of_def)
  next
    case pq: True
    show ?thesis
    proof (cases "q < p + n")
      case False
      have "ahead_ok xs f q ps" using Cons.prems(2) by (auto simp: ahead_ok_def)
      moreover have "got q (x # ps) k \<Longrightarrow> got q ps k" for k
        using False by (auto simp: got_def x)
      ultimately show ?thesis
        using Cons.IH [OF Cons.prems(1) _ Cons.prems(3)] pq False le gt
        by (simp add: x rseg_of_def) (metis (no_types, lifting))
    next
      case True
      define m where "m = p + n - q"
      have d: "seqno base p + of_nat n - seqno base q = of_nat m"
        unfolding seqno_add [symmetric] using True by (simp add: seqno_diff m_def)
      have u: "unat (of_nat m :: u32) = m"
        using bnd Cons.prems(3) by (intro unat_of_nat_small) (simp add: m_def)
      have nx: "seqno base q + of_nat m = seqno base (q + m)"
        by (rule seqno_add [symmetric])
      have m_le: "m \<le> pseudo_tcp_fifo_get_write_remaining f" "q + m \<le> length xs"
        using cov True bnd by (auto simp: covers_def m_def)
      have "fifo_cell f (data_length f + k - q) = xs ! k" if "q \<le> k" "k < q + m" for k
        using cov that pq True by (auto simp: covers_def m_def)
      then obtain f1 where f1: "pseudo_tcp_fifo_consume_write_buffer f m = Inr f1"
        "stream_ok xs f1 (q + m)" "data_length f1 = data_length f + m" "buffer_length f1 = buffer_length f"
        "\<And>x. covers xs f q x \<Longrightarrow> covers xs f1 (q + m) x"
        using stream_consume [OF Cons.prems(1) m_le] by metis
      have "ahead_ok xs f1 (q + m) ps" using Cons.prems(2) f1(5) by (auto simp: ahead_ok_def)
      from Cons.IH [OF f1(2) this Cons.prems(3), of "wnd - of_nat m" True] obtain ps' f' q' rec'
        where r: "recover_rlist (map (rseg_of base) ps) f1 (seqno base (q + m)) (wnd - of_nat m) True
            = Inr (map (rseg_of base) ps', f', seqno base q', wnd - of_nat m - of_nat (q' - (q + m)), rec')"
          "q + m \<le> q'" "stream_ok xs f' q'" "ahead_ok xs f' q' ps'" "\<forall>x \<in> set ps'. q' < fst x"
          "data_length f' = data_length f1 + (q' - (q + m))" "buffer_length f' = buffer_length f1" "\<forall>k. got (q + m) ps k \<longrightarrow> got q' ps' k"
        by blast
      have "got q (x # ps) k \<Longrightarrow> got (q + m) ps k" for k
        using pq True by (auto simp: got_def x m_def)
      with r(8) have g: "\<forall>k. got q (x # ps) k \<longrightarrow> got q' ps' k" by blast
      have w: "wnd - of_nat m - of_nat (q' - (q + m)) = wnd - (of_nat (q' - q) :: u32)"
        using r(2) by (simp add: algebra_simps of_nat_diff)
      have 1: "recover_rlist (map (rseg_of base) (x # ps)) f (seqno base q) wnd rec =
          Inr (map (rseg_of base) ps', f', seqno base q', wnd - of_nat (q' - q), rec')"
        using pq True le gt f1(1) r(1) unfolding w by (simp add: x rseg_of_def d u nx Let_def)
      show ?thesis by (intro exI conjI) (rule 1, use r f1 g in simp_all)
    qed
  qed
qed


section \<open>Incoming segments\<close>

text \<open>
  A genuine segment at position \<open>p\<close> of the stream: its first \<open>seg_len\<close> bytes are those of the
  stream from \<open>p\<close> on.
\<close>

definition genuine :: "u32 \<Rightarrow> byte list \<Rightarrow> Segment \<Rightarrow> nat \<Rightarrow> nat \<Rightarrow> bool" where
  "genuine base xs seg p n \<longleftrightarrow> p + n \<le> length xs \<and> seg_seq seg = seqno base p \<and>
     seg_len seg = of_nat n \<and> n \<le> length (seg_data seg) \<and> take n (seg_data seg) = take n (drop p xs)"

lemma unat_pos: "k \<le> 2 ^ 30 \<Longrightarrow> unat (of_nat k :: u32) = k"
  by (intro unat_of_nat_small) simp

lemma pos_less: "k \<le> 2 ^ 30 \<Longrightarrow> l \<le> 2 ^ 30 \<Longrightarrow> (of_nat k :: u32) < of_nat l \<longleftrightarrow> k < l"
  by (simp add: word_less_nat_alt unat_pos)

lemma trim_front_spec:
  assumes g: "genuine base xs seg p n" and q: "rcv_nxt s = seqno base q" "q \<le> length xs"
    and xs: "length xs \<le> 2 ^ 30"
  shows "if p + n \<le> q then seg_len (trim_front s seg) = 0 \<and> seg_seq (trim_front s seg) = seqno base p
    else genuine base xs (trim_front s seg) (max p q) (p + n - max p q)"
proof -
  note gd = g [unfolded genuine_def]
  have sm: "SMALLER (seqno base p) (seqno base q) = (p < q)"
    using gd q xs by (intro SMALLER_seqno) auto
  show ?thesis
  proof (cases "p < q")
    case False
    then have "p + n \<le> q \<longleftrightarrow> p = q \<and> n = 0" by auto
    with False show ?thesis using sm gd q by (auto simp: trim_front_def genuine_def max_def)
  next
    case True
    then have d: "seqno base q - seqno base p = of_nat (q - p)"
      by (simp add: seqno_diff)
    have s: "seqno base p + of_nat (q - p) = seqno base q"
      using True by (simp add: seqno_add [symmetric] del: of_nat_diff)
    have b: "q - p \<le> 2 ^ 30" "n \<le> 2 ^ 30" using gd q xs by auto
    have r: "of_nat n - of_nat (q - p) = (of_nat (n - (q - p)) :: u32)" if "q - p < n"
      using that by (metis less_imp_le of_nat_diff)
    have t: "take (n - (q - p)) (drop (q - p) (seg_data seg)) = take (n - (q - p)) (drop q xs)"
      using gd True by (metis drop_drop drop_take le_add_diff_inverse2 less_imp_le)
    show ?thesis
      using True sm gd q pos_less [OF b] unat_pos [OF b(1)] d s r t
      by (auto simp: trim_front_def genuine_def max_def Let_def add.commute [of n p] simp del: of_nat_diff)
  qed
qed

lemma trim_back_spec:
  assumes g: "genuine base xs seg p n" and q: "rcv_nxt s = seqno base q" "q \<le> p"
    and xs: "length xs \<le> 2 ^ 30" and av: "av = pseudo_tcp_fifo_get_write_remaining (rbuf s)"
  shows "genuine base xs (trim_back s seg) p (min (p + n) (q + av) - p)"
proof -
  note gd = g [unfolded genuine_def]
  have d: "seqno base p + of_nat n - seqno base q = of_nat (p + n - q)"
    unfolding seqno_add [symmetric] using q by (intro seqno_diff) simp
  have b: "p + n - q \<le> 2 ^ 30" "n \<le> 2 ^ 30" "p + n - q - av \<le> 2 ^ 30" using gd q xs by auto
  have r: "of_nat n - of_nat (p + n - q - av) = (of_nat (q + av - p) :: u32)"
    if "p + n - q - av < n" "av < p + n - q"
    using that q by (simp flip: of_nat_diff)
  have t: "take k (seg_data seg) = take k (drop p xs)" if "k \<le> n" for k
    using gd that by (metis min.absorb1 take_take)
  show ?thesis
    using gd q d unat_pos [OF b(1)] pos_less [OF b(3,2)] r t av
    by (auto simp: trim_back_def genuine_def Let_def min_def simp del: of_nat_diff)
qed


lemma trim_segment_spec:
  assumes g: "genuine base xs seg p n" and q: "rcv_nxt s = seqno base q" "q \<le> length xs"
    and xs: "length xs \<le> 2 ^ 30" and av: "av = pseudo_tcp_fifo_get_write_remaining (rbuf s)"
  shows "if p + n \<le> q then seg_len (trim_segment s seg) = 0
    else genuine base xs (trim_segment s seg) (max p q) (min (p + n) (q + av) - max p q)"
proof (cases "p + n \<le> q")
  case True
  then show ?thesis
    using trim_front_spec [OF g q xs] by (auto simp: trim_segment_def trim_back_def Let_def)
next
  case False
  then have "genuine base xs (trim_front s seg) (max p q) (p + n - max p q)"
    using trim_front_spec [OF g q xs] by simp
  from trim_back_spec [OF this q(1) _ xs av] False show ?thesis
    by (auto simp: trim_segment_def max_def split: if_splits)
qed

lemma trim_segment_flags [simp]: "seg_flags (trim_segment s seg) = seg_flags seg"
  by (simp add: trim_segment_def trim_back_def trim_front_def Let_def)

lemma insert_rseg_spec:
  assumes "sorted (map fst ps)" and "\<forall>x \<in> set ps. fst x \<le> 2 ^ 30" and "p \<le> 2 ^ 30"
  shows "\<exists>ps'. insert_rseg (rseg_of base (p, n)) (map (rseg_of base) ps) = map (rseg_of base) ps' \<and>
     sorted (map fst ps') \<and> set ps' = insert (p, n) (set ps)"
  using assms
proof (induction ps)
  case Nil
  then show ?case by (intro exI [of _ "[(p, n)]"]) simp
next
  case (Cons x ps)
  obtain r l where x: "x = (r, l)" by force
  have sm: "SMALLER (seqno base r) (seqno base p) = (r < p)"
    using Cons.prems by (intro SMALLER_seqno) (auto simp: x)
  show ?case
  proof (cases "r < p")
    case True
    from Cons obtain ps' where ps': "insert_rseg (rseg_of base (p, n)) (map (rseg_of base) ps) = map (rseg_of base) ps'"
      "sorted (map fst ps')" "set ps' = insert (p, n) (set ps)" by auto
    with True Cons.prems show ?thesis
      by (intro exI [of _ "x # ps'"]) (auto simp: x rseg_of_def sm)
  next
    case False
    with Cons.prems show ?thesis
      by (intro exI [of _ "(p, n) # x # ps"]) (auto simp: x rseg_of_def sm)
  qed
qed


section \<open>The invariant of the receiver\<close>

definition recv_at :: "u32 \<Rightarrow> byte list \<Rightarrow> psock \<Rightarrow> nat \<Rightarrow> (nat \<times> nat) list \<Rightarrow> bool" where
  "recv_at base xs s q ps \<longleftrightarrow> rcv_nxt s = seqno base q \<and> stream_ok xs (rbuf s) q \<and>
     rlist s = map (rseg_of base) ps \<and> ahead_ok xs (rbuf s) q ps \<and> (\<forall>x \<in> set ps. q < fst x)"

lemma genuine_write:
  assumes g: "genuine base xs seg p n" and q: "q \<le> p" and n: "0 < n"
    and s: "stream_ok xs f q" and a: "ahead_ok xs f q ps"
    and fit: "p + n \<le> q + pseudo_tcp_fifo_get_write_remaining f"
  obtains f' where "pseudo_tcp_fifo_write_offset f (seg_data seg) n (p - q) = Inr (n, f')"
    "stream_ok xs f' q" "ahead_ok xs f' q ps" "covers xs f' q (p, n)"
    "pseudo_tcp_fifo_get_write_remaining f' = pseudo_tcp_fifo_get_write_remaining f"
    "data_length f' = data_length f" "buffer_length f' = buffer_length f"
proof -
  let ?dl = "data_length f"
  have len: "n \<le> length (seg_data seg)" using g by (simp add: genuine_def)
  have ok: "fifo_ok f" using s by (simp add: stream_ok_def)
  have c: "n = min n (buffer_length f - ?dl - (p - q))"
    using fit q by (simp add: remaining_def)
  from fifo_write_offset_spec [OF ok len c] obtain f' where
    w: "pseudo_tcp_fifo_write_offset f (seg_data seg) n (p - q) = Inr (n, f')" and ok': "fifo_ok f'"
    and bl: "buffer_length f' = buffer_length f" and dl: "data_length f' = ?dl"
    and cell: "\<And>k. k < buffer_length f \<Longrightarrow> fifo_cell f' k =
      (if ?dl + (p - q) \<le> k \<and> k < ?dl + (p - q) + n then seg_data seg ! (k - (?dl + (p - q)))
       else fifo_cell f k)"
    by blast
  have d: "seg_data seg ! i = xs ! (p + i)" if "i < n" for i
  proof -
    have "take n (seg_data seg) ! i = take n (drop p xs) ! i" using g by (simp add: genuine_def)
    then show ?thesis using that g by (simp add: genuine_def)
  qed
  have new: "fifo_cell f' (?dl + k - q) = xs ! k" if "p \<le> k" "k < p + n" for k
  proof -
    have "?dl + k - q < buffer_length f" and "?dl + (p - q) \<le> ?dl + k - q"
      and "?dl + k - q < ?dl + (p - q) + n" and "?dl + k - q - (?dl + (p - q)) = k - p"
      using that q fit by (auto simp: remaining_def)
    then show ?thesis using cell [of "?dl + k - q"] d [of "k - p"] that by simp
  qed
  have old: "fifo_cell f' (?dl + k - q) = xs ! k"
    if "q \<le> k" "fifo_cell f (?dl + k - q) = xs ! k" "k < q + pseudo_tcp_fifo_get_write_remaining f" for k
  proof (cases "p \<le> k \<and> k < p + n")
    case True
    then show ?thesis using new by blast
  next
    case False
    have "?dl + k - q < buffer_length f" using that by (auto simp: remaining_def)
    then show ?thesis using cell [of "?dl + k - q"] that False q by auto
  qed
  have rem: "pseudo_tcp_fifo_get_write_remaining f' = pseudo_tcp_fifo_get_write_remaining f"
    by (simp add: remaining_def bl dl)
  have "fifo_data f' = fifo_data f"
    using cell ok q by (intro nth_equalityI) (auto simp: fifo_data_def dl fifo_ok_def)
  then have st: "stream_ok xs f' q" using s ok' by (simp add: stream_ok_def dl)
  have "covers xs f' q x" if "x \<in> set ps" for x
    using a that old by (fastforce simp: ahead_ok_def covers_def rem dl)
  then have ah: "ahead_ok xs f' q ps" using a by (simp add: ahead_ok_def)
  have "covers xs f' q (p, n)"
    using g n fit new by (auto simp: covers_def rem dl genuine_def)
  from that [OF w st ah this rem dl bl] show ?thesis .
qed


text \<open>
  \<open>process_data\<close> on a segment whose trimmed part is genuine, not empty and starts at or after
  \<open>rcv_nxt\<close>, when the data is not ignored.
\<close>

definition rx_set :: "psock \<Rightarrow> RSegment list \<Rightarrow> fifo \<Rightarrow> u32 \<Rightarrow> u32 \<Rightarrow> psock" where
  "rx_set s rl f nxt wnd = s\<lparr> rlist := rl, rbuf := f, rcv_nxt := nxt, rcv_wnd := wnd \<rparr>"

lemma rx_set_same: "rx_set s (rlist s) (rbuf s) (rcv_nxt s) (rcv_wnd s) = s"
  by (simp add: rx_set_def)

lemma recv_at_rx_set:
  "recv_at base xs (rx_set s rl f nxt wnd) q ps \<longleftrightarrow> nxt = seqno base q \<and> stream_ok xs f q \<and>
     rl = map (rseg_of base) ps \<and> ahead_ok xs f q ps \<and> (\<forall>x \<in> set ps. q < fst x)"
  by (simp add: recv_at_def rx_set_def)

lemma process_data_trimmed:
  assumes g: "genuine base xs (trim_segment s seg) p n" and n: "0 < n" and q: "rcv_nxt s = seqno base q"
    and le: "q \<le> p" and xs: "length xs \<le> 2 ^ 30"
    and use: "seg_flags seg AND FLAG_CTL = 0" "support_fin_ack s \<or> shutdown s = SD_NONE"
    and w: "pseudo_tcp_fifo_write_offset (rbuf s) (seg_data (trim_segment s seg)) n (p - q) = Inr (n, f)"
  shows "process_data s seg fl =
    (if p = q then
       bindr (pseudo_tcp_fifo_consume_write_buffer f n) (\<lambda>f.
       bindr (recover_rlist (rlist s) f (seqno base (q + n)) (rcv_wnd s - of_nat n) False)
         (\<lambda>(rl, f, nxt, wnd, rec). Inr ((if rec then sfImmediateAck else fl, True), rx_set s rl f nxt wnd)))
     else Inr ((fl, False), rx_set s (insert_rseg (rseg_of base (p, n)) (rlist s)) f (rcv_nxt s) (rcv_wnd s)))"
proof -
  let ?t = "trim_segment s seg"
  have b: "p + n \<le> 2 ^ 30" and t: "seg_seq ?t = seqno base p" "seg_len ?t = of_nat n"
    using g xs by (auto simp: genuine_def)
  have un: "unat (of_nat n :: u32) = n" "unat (seqno base p - seqno base q) = p - q"
    using b le by (auto intro: unat_pos unat_seqno_diff)
  have pos: "(0 :: u32) < of_nat n"
    using n un(1) by (simp add: word_less_nat_alt)
  have inord: "seqno base p = seqno base q \<longleftrightarrow> p = q"
    using b le by (intro seqno_eq) auto
  show ?thesis
    unfolding process_data_def Let_def
    using use w pos by (auto simp: t q un inord seqno_add rseg_of_def rx_set_def split: sum.splits
        intro!: arg_cong2 [where f = bindr])
qed

lemma process_data_in_order:
  assumes st: "stream_ok xs f q" and ah: "ahead_ok xs f q ps" and cov: "covers xs f q (q, n)"
    and xs: "length xs \<le> 2 ^ 30"
  obtains f1 f' ps' q' rec' where "pseudo_tcp_fifo_consume_write_buffer f n = Inr f1"
    "recover_rlist (map (rseg_of base) ps) f1 (seqno base (q + n)) (wnd - of_nat n) False =
       Inr (map (rseg_of base) ps', f', seqno base q', wnd - of_nat (q' - q), rec')"
    "q + n \<le> q'" "stream_ok xs f' q'" "ahead_ok xs f' q' ps'" "\<forall>x \<in> set ps'. q' < fst x"
    "data_length f' = data_length f + (q' - q)" "buffer_length f' = buffer_length f"
    "\<forall>k. got (q + n) ps k \<longrightarrow> got q' ps' k"
proof -
  obtain f1 where f1: "pseudo_tcp_fifo_consume_write_buffer f n = Inr f1"
    "stream_ok xs f1 (q + n)" "data_length f1 = data_length f + n" "buffer_length f1 = buffer_length f"
    "\<And>x. covers xs f q x \<Longrightarrow> covers xs f1 (q + n) x"
  proof (rule stream_consume [OF st, of n])
    show "n \<le> pseudo_tcp_fifo_get_write_remaining f" "q + n \<le> length xs"
      using cov by (auto simp: covers_def)
    show "fifo_cell f (data_length f + k - q) = xs ! k" if "q \<le> k" "k < q + n" for k
      using cov that by (auto simp: covers_def)
  qed blast
  have "ahead_ok xs f1 (q + n) ps" using ah f1(5) by (auto simp: ahead_ok_def)
  from recover_rlist_spec [OF f1(2) this xs, of base "wnd - of_nat n" False]
  obtain ps' f' q' rec' where r: "recover_rlist (map (rseg_of base) ps) f1 (seqno base (q + n))
        (wnd - of_nat n) False = Inr (map (rseg_of base) ps', f', seqno base q',
        wnd - of_nat n - of_nat (q' - (q + n)), rec')"
    "q + n \<le> q'" "stream_ok xs f' q'" "ahead_ok xs f' q' ps'" "\<forall>x \<in> set ps'. q' < fst x"
    "data_length f' = data_length f1 + (q' - (q + n))" "buffer_length f' = buffer_length f1" "\<forall>k. got (q + n) ps k \<longrightarrow> got q' ps' k"
    by blast
  have "wnd - of_nat n - of_nat (q' - (q + n)) = wnd - (of_nat (q' - q) :: u32)"
    using r(2) by (simp add: algebra_simps of_nat_diff)
  with r f1 show ?thesis by (intro that [of f1 ps' f' q' rec']) auto
qed

text \<open>
  \<open>process_data\<close> on a genuine segment keeps the invariant, never fails, and when the segment
  reaches up to \<open>rcv_nxt\<close> everything of it that fits is received.
\<close>

lemma process_data_spec:
  assumes inv: "recv_at base xs s q ps" and g: "genuine base xs seg p n" and xs: "length xs \<le> 2 ^ 30"
    and use: "seg_flags seg AND FLAG_CTL = 0" "support_fin_ack s \<or> shutdown s = SD_NONE"
  shows "\<exists>r rl f nxt wnd q' ps'. process_data s seg fl = Inr (r, rx_set s rl f nxt wnd) \<and>
    recv_at base xs (rx_set s rl f nxt wnd) q' ps' \<and> q \<le> q' \<and>
    (\<forall>k. got q ps k \<or> p \<le> k \<and> k < p + n \<and> k < q + pseudo_tcp_fifo_get_write_remaining (rbuf s)
        \<longrightarrow> got q' ps' k) \<and>
    data_length f = data_length (rbuf s) + (q' - q) \<and> wnd = rcv_wnd s - of_nat (q' - q) \<and>
    buffer_length f = buffer_length (rbuf s)"
proof -
  let ?av = "pseudo_tcp_fifo_get_write_remaining (rbuf s)"
  define p' n' where p': "p' = max p q" and n': "n' = min (p + n) (q + ?av) - p'"
  have nxt: "rcv_nxt s = seqno base q" and st: "stream_ok xs (rbuf s) q"
    and ps: "rlist s = map (rseg_of base) ps" "ahead_ok xs (rbuf s) q ps" "\<forall>x \<in> set ps. q < fst x"
    using inv by (auto simp: recv_at_def)
  have q: "q \<le> length xs" using st by (simp add: stream_ok_def)
  have tr: "if p + n \<le> q then seg_len (trim_segment s seg) = 0 else genuine base xs (trim_segment s seg) p' n'"
    using trim_segment_spec [OF g nxt q xs refl] by (simp add: p' n')
  have new: "k < q \<or> p' \<le> k \<and> k < p' + n'" if "p \<le> k" "k < p + n" "k < q + ?av" for k
    using that by (auto simp: p' n')
  show ?thesis
  proof (cases "n' = 0")
    case True
    have "seg_len (trim_segment s seg) = 0"
      using tr True by (auto simp: genuine_def split: if_splits)
    then have "process_data s seg fl = Inr ((fl, False), rx_set s (rlist s) (rbuf s) (rcv_nxt s) (rcv_wnd s))"
      by (simp add: process_data_def Let_def rx_set_same)
    moreover have "got q ps k" if "p \<le> k" "k < p + n" "k < q + ?av" for k
      using new [OF that] True by (auto simp: got_def)
    ultimately show ?thesis using inv
      by (intro exI [of _ "(fl, False)"] exI [of _ "rlist s"] exI [of _ "rbuf s"] exI [of _ "rcv_nxt s"]
          exI [of _ "rcv_wnd s"] exI [of _ q] exI [of _ ps]) (auto simp: rx_set_same)
  next
    case False
    have gt: "genuine base xs (trim_segment s seg) p' n'" and le: "q \<le> p'" and n0: "0 < n'"
      and fit: "p' + n' \<le> q + ?av" using tr False by (auto simp: p' n' split: if_splits)
    obtain f where w: "pseudo_tcp_fifo_write_offset (rbuf s) (seg_data (trim_segment s seg)) n' (p' - q) = Inr (n', f)"
      and f: "stream_ok xs f q" "ahead_ok xs f q ps" "covers xs f q (p', n')"
        "data_length f = data_length (rbuf s)" "buffer_length f = buffer_length (rbuf s)"
      using genuine_write [OF gt le n0 st ps(2) fit] by blast
    note pd = process_data_trimmed [OF gt n0 nxt le xs use w, of fl]
    show ?thesis
    proof (cases "p' = q")
      case True
      obtain f1 f' ps' q' rec' where r: "pseudo_tcp_fifo_consume_write_buffer f n' = Inr f1"
        "recover_rlist (map (rseg_of base) ps) f1 (seqno base (q + n')) (rcv_wnd s - of_nat n') False =
           Inr (map (rseg_of base) ps', f', seqno base q', rcv_wnd s - of_nat (q' - q), rec')"
        "q + n' \<le> q'" "stream_ok xs f' q'" "ahead_ok xs f' q' ps'" "\<forall>x \<in> set ps'. q' < fst x"
        "data_length f' = data_length f + (q' - q)" "buffer_length f' = buffer_length f"
        "\<forall>k. got (q + n') ps k \<longrightarrow> got q' ps' k"
        using process_data_in_order [OF f(1,2) f(3) [unfolded True] xs] by metis
      have 1: "process_data s seg fl = Inr ((if rec' then sfImmediateAck else fl, True),
          rx_set s (map (rseg_of base) ps') f' (seqno base q') (rcv_wnd s - of_nat (q' - q)))"
        unfolding pd ps(1) using True r(1,2) by simp
      have 2: "recv_at base xs (rx_set s (map (rseg_of base) ps') f' (seqno base q')
          (rcv_wnd s - of_nat (q' - q))) q' ps'"
        using r by (auto simp: recv_at_rx_set)
      have "got (q + n') ps k" if "got q ps k \<or> p \<le> k \<and> k < p + n \<and> k < q + ?av" for k
        using that new [of k] True by (auto simp: got_def)
      with r(9) have 3: "\<forall>k. got q ps k \<or> p \<le> k \<and> k < p + n \<and> k < q + ?av \<longrightarrow> got q' ps' k" by blast
      show ?thesis by (intro exI conjI) (rule 1, rule 2, use r(3) in simp, rule 3, simp_all add: r f)
    next
      case False
      have "\<forall>x \<in> set ps. fst x \<le> 2 ^ 30" and "p' \<le> 2 ^ 30"
        using ps(2) xs gt by (fastforce simp: ahead_ok_def covers_def genuine_def)+
      then obtain ps' where ps': "insert_rseg (rseg_of base (p', n')) (rlist s) = map (rseg_of base) ps'"
        "sorted (map fst ps')" "set ps' = insert (p', n') (set ps)"
        using insert_rseg_spec [of ps p' base n'] ps by (auto simp: ahead_ok_def)
      have 1: "process_data s seg fl = Inr ((fl, False), rx_set s (map (rseg_of base) ps') f (rcv_nxt s) (rcv_wnd s))"
        unfolding pd using False ps'(1) by simp
      have 2: "recv_at base xs (rx_set s (map (rseg_of base) ps') f (rcv_nxt s) (rcv_wnd s)) q ps'"
        unfolding recv_at_rx_set using f ps' ps False le nxt by (auto simp: ahead_ok_def)
      have 3: "\<forall>k. got q ps k \<or> p \<le> k \<and> k < p + n \<and> k < q + ?av \<longrightarrow> got q ps' k"
        using new by (fastforce simp: got_def ps'(3))
      show ?thesis by (intro exI conjI) (rule 1, rule 2, rule order_refl, rule 3, simp_all add: f)
    qed
  qed
qed


lemma recv_read_spec:
  assumes inv: "recv_at base xs s q ps"
  shows "\<exists>f. pseudo_tcp_fifo_read (rbuf s) n = Inr (take n (fifo_data (rbuf s)), f) \<and>
    recv_at base xs (s\<lparr> rbuf := f \<rparr>) q ps \<and> buffer_length f = buffer_length (rbuf s) \<and>
    data_length f = data_length (rbuf s) - min n (data_length (rbuf s))"
proof -
  let ?b = "rbuf s" and ?c = "min n (data_length (rbuf s))"
  have st: "stream_ok xs ?b q" and ah: "ahead_ok xs ?b q ps" using inv by (auto simp: recv_at_def)
  then have "fifo_ok ?b" by (simp add: stream_ok_def)
  from fifo_read_spec [OF this, of n] obtain f where
    r: "pseudo_tcp_fifo_read ?b n = Inr (take n (fifo_data ?b), f)" and ok: "fifo_ok f"
    and bl: "buffer_length f = buffer_length ?b" and dl: "data_length f = data_length ?b - ?c"
    and cell: "\<And>k. fifo_cell f k = fifo_cell ?b (?c + k)" and dt: "fifo_data f = drop n (fifo_data ?b)"
    by blast
  have "fifo_data f = drop ?c (fifo_data ?b)"
    unfolding dt by (cases "n \<le> data_length ?b") (auto simp: min_def)
  then have "stream_ok xs f q"
    using st ok by (auto simp: stream_ok_def dl add.commute)
  moreover have "covers xs f q x" if "covers xs ?b q x" for x
  proof -
    have "?c + (data_length f + k - q) = data_length ?b + k - q" if "q \<le> k" for k
      using that by (simp add: dl)
    then show ?thesis using that by (auto simp: covers_def cell bl dl remaining_def)
  qed
  ultimately have "recv_at base xs (s\<lparr> rbuf := f \<rparr>) q ps"
    using inv ah by (auto simp: recv_at_def ahead_ok_def)
  with r bl dl show ?thesis by blast
qed

section \<open>Runs of the receiver\<close>

text \<open>
  The network hands over data segments, the user reads; the result is what the user read.
\<close>

datatype rx_op = RxSegment Segment | RxRead nat

fun rx_run :: "psock \<Rightarrow> rx_op list \<Rightarrow> (byte list \<times> psock) res" where
  "rx_run s [] = Inr ([], s)"
| "rx_run s (RxSegment seg # ops) = bindr (process_data s seg sfNone) (\<lambda>(_, s). rx_run s ops)"
| "rx_run s (RxRead n # ops) =
     bindr (pseudo_tcp_fifo_read (rbuf s) n) (\<lambda>(bs, f).
     bindr (rx_run (s\<lparr> rbuf := f \<rparr>) ops) (\<lambda>(out, s). Inr (bs @ out, s)))"

definition data_segment :: "u32 \<Rightarrow> byte list \<Rightarrow> Segment \<Rightarrow> bool" where
  "data_segment base xs seg \<longleftrightarrow>
     seg_flags seg AND FLAG_CTL = 0 \<and> (\<exists>p \<le> length xs. genuine base xs seg p (unat (seg_len seg)))"

lemma data_segmentI:
  "genuine base xs seg p (unat (seg_len seg)) \<Longrightarrow> seg_flags seg AND FLAG_CTL = 0 \<Longrightarrow> data_segment base xs seg"
  unfolding data_segment_def by (intro conjI exI [of _ p]) (auto simp: genuine_def)

definition rx_segments :: "rx_op list \<Rightarrow> Segment list" where
  "rx_segments ops = concat (map (\<lambda>op. case op of RxSegment seg \<Rightarrow> [seg] | RxRead _ \<Rightarrow> []) ops)"

definition seg_holds :: "u32 \<Rightarrow> Segment \<Rightarrow> nat \<Rightarrow> bool" where
  "seg_holds base seg k \<longleftrightarrow> unat (seqno base k - seg_seq seg) < unat (seg_len seg)"

lemma seg_holds_genuine:
  assumes "genuine base xs seg p n" and "length xs \<le> 2 ^ 30" and "k < length xs"
  shows "seg_holds base seg k \<longleftrightarrow> p \<le> k \<and> k < p + n"
proof -
  have n: "unat (of_nat n :: u32) = n" using assms by (intro unat_pos) (auto simp: genuine_def)
  show ?thesis
  proof (cases "p \<le> k")
    case True
    have "unat (seqno base k - seqno base p) = k - p"
      using assms True by (intro unat_seqno_diff) auto
    then show ?thesis using True assms n by (auto simp: seg_holds_def genuine_def)
  next
    case False
    have "unat (seqno base k - seqno base p) = 2 ^ 32 - (p - k)"
      using assms False by (intro unat_seqno_diff_neg) (auto simp: genuine_def)
    then show ?thesis using False assms n by (auto simp: seg_holds_def genuine_def)
  qed
qed

text \<open>
  \<open>rx_after\<close> relates the receiver before and after a run with output \<open>out\<close>, in which \<open>segs\<close>
  arrived.
\<close>

definition rx_after :: "u32 \<Rightarrow> byte list \<Rightarrow> psock \<Rightarrow> nat \<Rightarrow> (nat \<times> nat) list \<Rightarrow> Segment set \<Rightarrow>
    byte list \<Rightarrow> psock \<Rightarrow> nat \<Rightarrow> (nat \<times> nat) list \<Rightarrow> bool" where
  "rx_after base xs s q ps segs out s' q' ps' \<longleftrightarrow> recv_at base xs s' q' ps' \<and> q \<le> q' \<and>
     buffer_length (rbuf s') = buffer_length (rbuf s) \<and>
     q' - data_length (rbuf s') = q - data_length (rbuf s) + length out \<and>
     drop (q - data_length (rbuf s)) xs = out @ drop (q' - data_length (rbuf s')) xs \<and>
     (length xs \<le> buffer_length (rbuf s) \<longrightarrow>
        (\<forall>k < length xs. got q ps k \<or> (\<exists>seg \<in> segs. seg_holds base seg k) \<longrightarrow> got q' ps' k))"

lemma rx_after_recv_at: "rx_after base xs s q ps A out s' q' ps' \<Longrightarrow> recv_at base xs s' q' ps'"
  by (simp add: rx_after_def)

lemma rx_after_trans:
  assumes "rx_after base xs s q ps A out s1 q1 ps1" and "rx_after base xs s1 q1 ps1 B out' s' q' ps'"
  shows "rx_after base xs s q ps (A \<union> B) (out @ out') s' q' ps'"
  using assms by (auto simp: rx_after_def)

lemma rx_after_segment:
  assumes inv: "recv_at base xs s q ps" and xs: "length xs \<le> 2 ^ 30" and fin: "support_fin_ack s"
    and seg: "data_segment base xs seg"
  obtains r s' q' ps' where "process_data s seg fl = Inr (r, s')" "rx_after base xs s q ps {seg} [] s' q' ps'"
    "support_fin_ack s'"
proof -
  obtain p n where g: "genuine base xs seg p n" and fl: "seg_flags seg AND FLAG_CTL = 0"
    using seg by (auto simp: data_segment_def)
  from process_data_spec [OF inv g xs fl disjI1 [OF fin], of fl] obtain r rl f nxt wnd q' ps' where
    r: "process_data s seg fl = Inr (r, rx_set s rl f nxt wnd)"
    "recv_at base xs (rx_set s rl f nxt wnd) q' ps'" "q \<le> q'"
    "\<forall>k. got q ps k \<or> p \<le> k \<and> k < p + n \<and> k < q + pseudo_tcp_fifo_get_write_remaining (rbuf s)
        \<longrightarrow> got q' ps' k"
    "data_length f = data_length (rbuf s) + (q' - q)" "buffer_length f = buffer_length (rbuf s)"
    by blast
  have dl: "data_length (rbuf s) \<le> q" "data_length (rbuf s) \<le> buffer_length (rbuf s)"
    using inv by (auto simp: recv_at_def stream_ok_def fifo_ok_def)
  have "got q' ps' k" if "length xs \<le> buffer_length (rbuf s)" "k < length xs"
    "got q ps k \<or> seg_holds base seg k" for k
  proof -
    have "k < q + pseudo_tcp_fifo_get_write_remaining (rbuf s)"
      using that dl by (simp add: remaining_def)
    then show ?thesis using r(4) seg_holds_genuine [OF g xs] that by blast
  qed
  then have "rx_after base xs s q ps {seg} [] (rx_set s rl f nxt wnd) q' ps'"
    using r dl by (auto simp: rx_after_def rx_set_def)
  then show ?thesis using that r(1) fin by (simp add: rx_set_def)
qed

lemma rx_after_read:
  assumes inv: "recv_at base xs s q ps"
  obtains bs f where "pseudo_tcp_fifo_read (rbuf s) n = Inr (bs, f)"
    "rx_after base xs s q ps {} bs (s\<lparr> rbuf := f \<rparr>) q ps"
proof -
  let ?d = "q - data_length (rbuf s)" and ?bs = "take n (fifo_data (rbuf s))"
  have st: "data_length (rbuf s) \<le> q" "fifo_data (rbuf s) = drop ?d (take q xs)"
    using inv by (auto simp: recv_at_def stream_ok_def)
  from recv_read_spec [OF inv, of n] obtain f where
    f: "pseudo_tcp_fifo_read (rbuf s) n = Inr (?bs, f)" "recv_at base xs (s\<lparr> rbuf := f \<rparr>) q ps"
    "buffer_length f = buffer_length (rbuf s)"
    "data_length f = data_length (rbuf s) - min n (data_length (rbuf s))" by blast
  have "?bs = take (length ?bs) (drop ?d xs)" and l: "length ?bs = min (data_length (rbuf s)) n"
    using st length_fifo_data [of "rbuf s"] by (auto simp: drop_take)
  then have "drop ?d xs = ?bs @ drop (?d + length ?bs) xs"
    by (metis append_take_drop_id drop_drop add.commute)
  then have "rx_after base xs s q ps {} ?bs (s\<lparr> rbuf := f \<rparr>) q ps"
    using f st(1) unfolding l by (simp add: rx_after_def min.commute add.commute)
  with f(1) that show ?thesis by blast
qed

lemma rx_run_spec:
  assumes "recv_at base xs s q ps" and "length xs \<le> 2 ^ 30" and "support_fin_ack s"
    and "\<forall>seg \<in> set (rx_segments ops). data_segment base xs seg"
  shows "\<exists>out s' q' ps'. rx_run s ops = Inr (out, s') \<and>
    rx_after base xs s q ps (set (rx_segments ops)) out s' q' ps'"
  using assms
proof (induction ops arbitrary: s q ps)
  case Nil
  then show ?case by (auto simp: rx_after_def rx_segments_def)
next
  case (Cons op ops)
  show ?case
  proof (cases op)
    case (RxSegment seg)
    obtain r s1 q1 ps1 where 1: "process_data s seg sfNone = Inr (r, s1)" "support_fin_ack s1"
      and a: "rx_after base xs s q ps {seg} [] s1 q1 ps1"
    proof (rule rx_after_segment [OF Cons.prems(1,2,3), of seg sfNone])
      show "data_segment base xs seg" using Cons.prems(4) by (simp add: RxSegment rx_segments_def)
    qed blast
    from Cons.IH [OF rx_after_recv_at [OF a] Cons.prems(2) 1(2)] Cons.prems(4) obtain out s' q' ps' where
      2: "rx_run s1 ops = Inr (out, s')" and b: "rx_after base xs s1 q1 ps1 (set (rx_segments ops)) out s' q' ps'"
      by (auto simp: rx_segments_def RxSegment)
    from rx_after_trans [OF a b] 1 2 show ?thesis
      by (auto simp: RxSegment rx_segments_def)
  next
    case (RxRead n)
    obtain bs f where 1: "pseudo_tcp_fifo_read (rbuf s) n = Inr (bs, f)"
      and a: "rx_after base xs s q ps {} bs (s\<lparr> rbuf := f \<rparr>) q ps"
      by (rule rx_after_read [OF Cons.prems(1)])
    from Cons.IH [OF rx_after_recv_at [OF a] Cons.prems(2)] Cons.prems(3,4) obtain out s' q' ps' where
      2: "rx_run (s\<lparr> rbuf := f \<rparr>) ops = Inr (out, s')"
      and b: "rx_after base xs (s\<lparr> rbuf := f \<rparr>) q ps (set (rx_segments ops)) out s' q' ps'"
      by (auto simp: rx_segments_def RxRead)
    from rx_after_trans [OF a b] 1 2 show ?thesis
      by (auto simp: RxRead rx_segments_def)
  qed
qed


lemma recv_at_fresh:
  "fifo_ok (rbuf s) \<Longrightarrow> data_length (rbuf s) = 0 \<Longrightarrow> rlist s = [] \<Longrightarrow> rcv_nxt s = base \<Longrightarrow>
    recv_at base xs s 0 []"
  by (simp add: recv_at_def stream_ok_def ahead_ok_def fifo_data_def)

text \<open>When every position has arrived nothing is missing before \<open>rcv_nxt\<close>.\<close>

lemma got_all:
  assumes "recv_at base xs s q ps" and "\<forall>k < length xs. got q ps k"
  shows "q = length xs"
proof (rule ccontr)
  assume "q \<noteq> length xs"
  moreover have "q \<le> length xs" using assms(1) by (simp add: recv_at_def stream_ok_def)
  ultimately have "got q ps q" using assms(2) by simp
  then show False using assms(1) by (auto simp: got_def recv_at_def)
qed

text \<open>
  The receiver delivers the stream. On a connection whose receive side is fresh, let data
  segments of the peer's stream \<open>xs\<close> arrive in any order, any number of times, any of them
  missing, cut at any positions, interleaved with reads: every step returns (no assertion of
  \<open>process\<close> fails, no access is outside the buffer), the bytes read are a prefix of \<open>xs\<close>, and the
  bytes still queued continue it.
\<close>

theorem receiver_delivers_prefix:
  assumes "length xs \<le> 2 ^ 30" and "support_fin_ack s" and "fifo_ok (rbuf s)"
    and "data_length (rbuf s) = 0" and "rlist s = []" and "rcv_nxt s = base"
    and "\<forall>seg \<in> set (rx_segments ops). data_segment base xs seg"
  shows "\<exists>out s'. rx_run s ops = Inr (out, s') \<and>
    out @ fifo_data (rbuf s') = take (length out + data_length (rbuf s')) xs \<and>
    rcv_nxt s' = base + of_nat (length out + data_length (rbuf s'))"
proof -
  have inv: "recv_at base xs s 0 []" using assms by (intro recv_at_fresh)
  from rx_run_spec [OF inv assms(1,2,7)] obtain out s' q ps where
    r: "rx_run s ops = Inr (out, s')" and a: "rx_after base xs s 0 [] (set (rx_segments ops)) out s' q ps"
    by blast
  from rx_after_recv_at [OF a] have i: "stream_ok xs (rbuf s') q" "rcv_nxt s' = seqno base q"
    by (auto simp: recv_at_def)
  have q: "q = length out + data_length (rbuf s')" and xs: "xs = out @ drop (length out) xs"
    using a i assms(4) by (auto simp: rx_after_def stream_ok_def)
  have "out @ fifo_data (rbuf s') = out @ drop (length out) (take q xs)"
    using i q by (simp add: stream_ok_def)
  also have "\<dots> = take q xs"
    by (subst (2) xs, subst xs) (simp add: q)
  finally show ?thesis using r q i(2) by (auto simp: seqno_def)
qed

text \<open>
  C12. The receiver completes the stream. It starts with a fresh receive side: an empty, well formed buffer, nothing stored out of
  order, \<open>rcv_nxt\<close> at the sequence number \<open>base\<close> of the first byte, and FIN-ACK supported. The stream
  \<open>xs\<close> has at most 2^30 bytes and fits into the receive buffer as a whole. Segments without CTL flag, with pieces of \<open>xs\<close>, go
  through \<open>process_data\<close>, in any order and with reads in between, and every byte of \<open>xs\<close> is in some of them.
  Then no step aborts, what was read together with what is queued is all of \<open>xs\<close>, and nothing is left out of order.
\<close>

theorem receiver_completes:
  assumes "length xs \<le> 2 ^ 30" and "support_fin_ack s" and "fifo_ok (rbuf s)"
    and "data_length (rbuf s) = 0" and "rlist s = []" and "rcv_nxt s = base"
    and "\<forall>seg \<in> set (rx_segments ops). data_segment base xs seg"
    and "length xs \<le> buffer_length (rbuf s)"
    and "\<forall>k < length xs. \<exists>seg \<in> set (rx_segments ops). seg_holds base seg k"
  shows "\<exists>out s'. rx_run s ops = Inr (out, s') \<and> out @ fifo_data (rbuf s') = xs \<and> rlist s' = []"
proof -
  have inv: "recv_at base xs s 0 []" using assms by (intro recv_at_fresh)
  from rx_run_spec [OF inv assms(1,2,7)] obtain out s' q ps where
    r: "rx_run s ops = Inr (out, s')" and a: "rx_after base xs s 0 [] (set (rx_segments ops)) out s' q ps"
    by blast
  note i = rx_after_recv_at [OF a]
  have "\<forall>k < length xs. got q ps k"
    using a assms(8,9) by (auto simp: rx_after_def)
  then have q: "q = length xs" by (rule got_all [OF i])
  have "ps = []"
  proof (cases ps)
    case (Cons x ps')
    then have "q < fst x" "covers xs (rbuf s') q x"
      using i by (auto simp: recv_at_def ahead_ok_def)
    then show ?thesis by (auto simp: covers_def q)
  qed simp
  moreover have "fifo_data (rbuf s') = drop (length out) xs" and "xs = out @ drop (length out) xs"
    using a i q assms(4) by (auto simp: rx_after_def recv_at_def stream_ok_def)
  ultimately show ?thesis using r i by (auto simp: recv_at_def)
qed


text \<open>A stream of four bytes whose sequence numbers wrap, arriving out of order and overlapping.\<close>

definition rx_example_socket :: psock where
  "rx_example_socket = (pseudo_tcp_socket_init example_env)\<lparr>
     rcv_nxt := 0xFFFFFFFE, rbuf := pseudo_tcp_fifo_init (\<lambda>_. 0) 8 \<rparr>"

definition rx_example_segment :: "u32 \<Rightarrow> byte list \<Rightarrow> Segment" where
  "rx_example_segment seq bs = \<lparr> seg_conv = 0, seg_seq = seq, seg_ack = 0, seg_flags = 0, seg_wnd = 0,
     seg_data = bs, seg_len = of_nat (length bs), seg_tsval = 0, seg_tsecr = 0 \<rparr>"

definition rx_example_ops :: "rx_op list" where
  "rx_example_ops = [RxSegment (rx_example_segment 0 [12, 13]), RxRead 4,
     RxSegment (rx_example_segment 0xFFFFFFFE [10, 11, 12]), RxRead 3]"

lemma rx_example_genuine:
  "\<forall>seg \<in> set (rx_segments rx_example_ops). data_segment 0xFFFFFFFE [10, 11, 12, 13] seg"
proof -
  have "data_segment 0xFFFFFFFE [10, 11, 12, 13] (rx_example_segment 0 [12, 13])"
    by (rule data_segmentI [of _ _ _ 2]) (simp_all add: genuine_def rx_example_segment_def seqno_def)
  moreover have "data_segment 0xFFFFFFFE [10, 11, 12, 13] (rx_example_segment 0xFFFFFFFE [10, 11, 12])"
    by (rule data_segmentI [of _ _ _ 0]) (simp_all add: genuine_def rx_example_segment_def seqno_def)
  ultimately show ?thesis
    by (simp add: rx_example_ops_def rx_segments_def)
qed

lemma rx_example_socket_fresh:
  "support_fin_ack rx_example_socket" "fifo_ok (rbuf rx_example_socket)"
  "data_length (rbuf rx_example_socket) = 0" "rlist rx_example_socket = []"
  "rcv_nxt rx_example_socket = 0xFFFFFFFE" "buffer_length (rbuf rx_example_socket) = 8"
  by (simp_all add: rx_example_socket_def pseudo_tcp_socket_init_def pseudo_tcp_fifo_init_def fifo_ok_def)

theorem receiver_delivers_prefix_witness:
  "\<exists>out s'. rx_run rx_example_socket rx_example_ops = Inr (out, s') \<and>
    out @ fifo_data (rbuf s') = take (length out + data_length (rbuf s')) [10, 11, 12, 13] \<and>
    rcv_nxt s' = 0xFFFFFFFE + of_nat (length out + data_length (rbuf s'))"
  by (rule receiver_delivers_prefix) (simp_all add: rx_example_socket_fresh rx_example_genuine)

theorem receiver_completes_witness:
  "\<exists>out s'. rx_run rx_example_socket rx_example_ops = Inr (out, s') \<and>
    out @ fifo_data (rbuf s') = [10, 11, 12, 13] \<and> rlist s' = []"
proof (rule receiver_completes)
  have "seg_holds 0xFFFFFFFE (rx_example_segment 0xFFFFFFFE [10, 11, 12]) k" if "k < 3" for k
    using that unat_of_nat_small [where 'a = 32, of k]
    by (simp add: seg_holds_def seqno_def rx_example_segment_def)
  moreover have "seg_holds 0xFFFFFFFE (rx_example_segment 0 [12, 13]) 3"
    by (simp add: seg_holds_def seqno_def rx_example_segment_def)
  moreover have "k < 3 \<or> k = 3" if "k < length [10, 11, 12, 13 :: byte]" for k
    using that by auto
  ultimately show "\<forall>k < length [10, 11, 12, 13 :: byte].
      \<exists>seg \<in> set (rx_segments rx_example_ops). seg_holds 0xFFFFFFFE seg k"
    by (auto simp: rx_example_ops_def rx_segments_def)
qed (simp_all add: rx_example_socket_fresh rx_example_genuine)

end
