(* ===== verification/PTcp_Inv.thy ===== *)
theory PTcp_Inv
  imports PTcp_Recv
begin

text \<open>
  Invariants of the pseudo-TCP socket. The locale \<open>tcp_invariant\<close> lists what a predicate on
  sockets must satisfy to hold throughout a connection: it may depend on the fields in \<open>core\<close>
  only, and it must survive each of the few elementary changes of these fields (a state change,
  a packet, an acknowledgement, data queued, received or read, a callback). Inside the locale
  the predicate is carried once through every function of the file.

  The interpretations give: the retransmission time-out stays in its bounds, every packet
  carries the bytes of the stream at the position it names, and the receiver delivers the
  peer's stream.
\<close>

section \<open>The contract\<close>

definition core ::
    "psock \<Rightarrow> PseudoTcpState \<times> RSegment list \<times> fifo \<times> u32 \<times> u32 \<times> fifo \<times> u32 \<times> u32 \<times> bool \<times> tcp_event list" where
  "core s = (state s, rlist s, rbuf s, rcv_nxt s, rcv_fin s, sbuf s, snd_una s, rx_rto s, support_fin_ack s, trace s)"

lemma queue_core:
  assumes "queue s data len flags = Inr (r, s')"
  shows "\<exists>n k f. pseudo_tcp_fifo_write (sbuf s) data n = Inr (k, f) \<and>
    core (log_event (s\<lparr> sbuf := f \<rparr>) (EvQueued (take k data))) = core s'"
  using assms
  by (auto simp: queue_def Let_def put_seg_def log_event_def core_def split: if_splits option.splits list.splits)
    blast+

lemma transmit_core:
  assumes "transmit env s a now = Inr (r, s')"
  shows "s' = s \<or> (\<exists>n r t. transmit_loop env s a n now = Inr (r, t) \<and> core t = core s')"
  using assms
  by (auto simp: transmit_def Let_def put_seg_def core_def split: if_splits sum.splits) blast+

text \<open>The calls a user of the socket can make; \<open>ok\<close> restricts the segments that arrive.\<close>

inductive tcp_step :: "tcp_env \<Rightarrow> (Segment \<Rightarrow> bool) \<Rightarrow> psock \<Rightarrow> psock \<Rightarrow> bool" for env ok where
  Connect: "pseudo_tcp_socket_connect env s = Inr (b, s') \<Longrightarrow> tcp_step env ok s s'"
| Clock: "pseudo_tcp_socket_notify_clock env s = Inr s' \<Longrightarrow> tcp_step env ok s s'"
| Next_clock: "pseudo_tcp_socket_get_next_clock env s t = Inr (b, t', s') \<Longrightarrow> tcp_step env ok s s'"
| Packet: "pseudo_tcp_socket_notify_packet env s buf = Inr (b, s') \<Longrightarrow>
    (length buf \<ge> 24 \<Longrightarrow> ok (parse_segment (take 24 buf) (drop 24 buf))) \<Longrightarrow> tcp_step env ok s s'"
| Recv: "pseudo_tcp_socket_recv env s n = Inr (r, bs, s') \<Longrightarrow> tcp_step env ok s s'"
| Send: "pseudo_tcp_socket_send env s data len = Inr (r, s') \<Longrightarrow> tcp_step env ok s s'"
| Shutdown: "pseudo_tcp_socket_shutdown env s how = Inr s' \<Longrightarrow> tcp_step env ok s s'"
| Close: "pseudo_tcp_socket_close env s force = Inr s' \<Longrightarrow> tcp_step env ok s s'"
| Mtu: "tcp_step env ok s (pseudo_tcp_socket_notify_mtu s mtu)"
| Space: "tcp_step env ok s (snd (pseudo_tcp_socket_get_available_send_space s))"
| Time: "tcp_step env ok s (pseudo_tcp_socket_set_time s ms)"

abbreviation tcp_run :: "tcp_env \<Rightarrow> (Segment \<Rightarrow> bool) \<Rightarrow> psock \<Rightarrow> psock \<Rightarrow> bool" where
  "tcp_run env ok \<equiv> (tcp_step env ok)\<^sup>*\<^sup>*"

locale tcp_output =
  fixes env :: tcp_env
    and P :: "psock \<Rightarrow> bool"
  assumes P_core: "P s \<Longrightarrow> core s = core s' \<Longrightarrow> P s'"
    and P_state: "P s \<Longrightarrow> (state s, st) \<in> set transitions \<Longrightarrow> state s \<noteq> TCP_CLOSED \<Longrightarrow> P (s\<lparr> state := st \<rparr>)"
    and P_backoff: "P s \<Longrightarrow> v = min lim (rx_rto s * 2) \<Longrightarrow> lim = DEF_RTO \<or> lim = MAX_RTO \<Longrightarrow> P (s\<lparr> rx_rto := v \<rparr>)"
    and P_packet: "P s \<Longrightarrow> len = 0 \<or> offset = seq - snd_una s \<Longrightarrow>
      packet env s seq flags offset len now = Inr (w, s') \<Longrightarrow> P s'"
    and P_queue: "P s \<Longrightarrow> data = [] \<or> \<not> pseudo_tcp_state_has_sent_fin (state s) \<Longrightarrow>
      pseudo_tcp_fifo_write (sbuf s) data c = Inr (k, f) \<Longrightarrow>
      P (log_event (s\<lparr> sbuf := f \<rparr>) (EvQueued (take k data)))"
    and P_read: "P s \<Longrightarrow> pseudo_tcp_fifo_read (rbuf s) c = Inr (bs, f) \<Longrightarrow>
      P (log_event (s\<lparr> rbuf := f \<rparr>) (EvRead bs))"
    and P_closed: "P s \<Longrightarrow> call_cb (map_option (\<lambda>f s. f s err) (PseudoTcpClosed env)) (EvClosed err) s = Inr s' \<Longrightarrow> P s'"
begin

lemma core_P: "core s = core s' \<Longrightarrow> P s = P s'"
  using P_core by metis

lemma irrelevant [simp]:
  "P (s\<lparr> shutdown := a1 \<rparr>) = P s" "P (s\<lparr> shutdown_reads := a2 \<rparr>) = P s" "P (s\<lparr> error := a3 \<rparr>) = P s"
  "P (s\<lparr> bReadEnable := a4 \<rparr>) = P s" "P (s\<lparr> bWriteEnable := a5 \<rparr>) = P s" "P (s\<lparr> bOutgoing := a6 \<rparr>) = P s"
  "P (s\<lparr> last_traffic := a7 \<rparr>) = P s" "P (s\<lparr> lastrecv := a8 \<rparr>) = P s" "P (s\<lparr> rcv_wnd := a9 \<rparr>) = P s"
  "P (s\<lparr> slist := b1 \<rparr>) = P s" "P (s\<lparr> unsent_slist := b1 \<rparr>) = P s" "P (s\<lparr> seg_heap := b2 \<rparr>) = P s"
  "P (s\<lparr> seg_next := b3 \<rparr>) = P s" "P (s\<lparr> snd_nxt := b4 \<rparr>) = P s" "P (s\<lparr> snd_wnd := b5 \<rparr>) = P s"
  "P (s\<lparr> lastsend := b6 \<rparr>) = P s" "P (s\<lparr> mss := b7 \<rparr>) = P s" "P (s\<lparr> msslevel := b8 \<rparr>) = P s"
  "P (s\<lparr> largest := b9 \<rparr>) = P s" "P (s\<lparr> mtu_advise := c1 \<rparr>) = P s" "P (s\<lparr> rto_base := c2 \<rparr>) = P s"
  "P (s\<lparr> ts_recent := c3 \<rparr>) = P s" "P (s\<lparr> ts_lastack := c4 \<rparr>) = P s" "P (s\<lparr> rx_rttvar := c5 \<rparr>) = P s"
  "P (s\<lparr> rx_srtt := c6 \<rparr>) = P s" "P (s\<lparr> ssthresh := c7 \<rparr>) = P s" "P (s\<lparr> cwnd := c8 \<rparr>) = P s"
  "P (s\<lparr> dup_acks := c9 \<rparr>) = P s" "P (s\<lparr> recover := d1 \<rparr>) = P s" "P (s\<lparr> fast_recovery := d2 \<rparr>) = P s"
  "P (s\<lparr> t_ack := d3 \<rparr>) = P s" "P (s\<lparr> last_acked_ts := d4 \<rparr>) = P s" "P (s\<lparr> conv := d5 \<rparr>) = P s"
  "P (s\<lparr> use_nagling := d6 \<rparr>) = P s" "P (s\<lparr> ack_delay := d7 \<rparr>) = P s" "P (s\<lparr> current_time := d8 \<rparr>) = P s"
  by (rule core_P, simp add: core_def)+

lemma set_state_post:
  assumes "P s" and "state s \<noteq> TCP_CLOSED \<or> st \<noteq> TCP_SYN_SENT \<and> st \<noteq> TCP_LISTEN" and "\<And>s'. P s' \<Longrightarrow> state s' = st \<Longrightarrow> R s'"
  shows "post R (set_state s st)"
proof -
  have "state s \<noteq> TCP_CLOSED" if "(state s, st) \<in> set transitions"
    using that assms(2) by (auto simp: transitions_def)
  with assms(1,2) show ?thesis
    using assms(3) [OF P_state [of s st]] assms(3) [of s] by (simp add: set_state_def)
qed

lemma closed_post:
  "P s \<Longrightarrow> (\<And>s'. P s' \<Longrightarrow> R s') \<Longrightarrow>
    post R (call_cb (map_option (\<lambda>f s. f s err) (PseudoTcpClosed env)) (EvClosed err) s)"
  by (blast intro: post_eqI P_closed)

lemma set_state_closed_post: "P s \<Longrightarrow> (\<And>s'. P s' \<Longrightarrow> R s') \<Longrightarrow> post R (set_state_closed env s err)"
  unfolding set_state_closed_def by (auto intro!: set_state_post closed_post)

lemma adjustMTU_P [simp]: "P (adjustMTU s) = P s"
  by (simp add: adjustMTU_def Let_def)

lemma put_seg_P [simp]: "P (put_seg s a g) = P s"
  by (simp add: put_seg_def)

lemma queue_post:
  assumes "P s" and "data = [] \<or> \<not> pseudo_tcp_state_has_sent_fin (state s)" and "\<And>r s'. P s' \<Longrightarrow> R (r, s')"
  shows "post R (queue s data len flags)"
proof -
  have "P s'" if "queue s data len flags = Inr (r, s')" for r s'
    using queue_core [OF that] P_queue [OF assms(1,2)] P_core by blast
  then show ?thesis using assms(3) by (auto simp: post_def)
qed

lemma queue_messages_post:
  "P s \<Longrightarrow> (\<And>s'. P s' \<Longrightarrow> R s') \<Longrightarrow> post R (queue_fin_message s)"
  "P s \<Longrightarrow> (\<And>s'. P s' \<Longrightarrow> R s') \<Longrightarrow> post R (queue_rst_message s)"
  "P s \<Longrightarrow> \<not> pseudo_tcp_state_has_sent_fin (state s) \<Longrightarrow> (\<And>s'. P s' \<Longrightarrow> R s') \<Longrightarrow> post R (queue_connect_message s)"
  unfolding queue_fin_message_def queue_rst_message_def queue_connect_message_def Let_def
  by (auto intro!: queue_post)

lemma packet_post:
  "P s \<Longrightarrow> len = 0 \<or> offset = seq - snd_una s \<Longrightarrow> (\<And>w s'. P s' \<Longrightarrow> R (w, s')) \<Longrightarrow>
    post R (packet env s seq flags offset len now)"
  using P_packet by (auto simp: post_def)

lemma shrink_mss_post: "P s \<Longrightarrow> post (\<lambda>(r, s'). P s') (shrink_mss s n)"
proof (induction s n rule: shrink_mss.induct)
  case (1 s n)
  show ?case
    using "1.prems" "1.IH" [OF refl] by (simp add: shrink_mss.simps [of s n] Let_def)
qed

lemma transmit_loop_P:
  "e = env \<Longrightarrow> P s \<Longrightarrow> transmit_loop e s a n now = Inr (r, s') \<Longrightarrow> P s'"
proof (induction e s a n now rule: transmit_loop.induct)
  case (1 e s a n now)
  from "1.prems"(3) obtain g w t where g: "get_seg s a = Inr g"
    "ss_seq g - snd_una s \<le> 1024 * 1024 * 64"
    and t: "packet env s (ss_seq g) (ss_flags g) (ss_seq g - snd_una s) n now = Inr (w, t)"
    using "1.prems"(1) by (auto simp: transmit_loop.simps [of env s a n now])
  from P_packet [OF "1.prems"(2) _ t] have "P t" by simp
  show ?case
  proof (cases w)
    case WR_TOO_LARGE
    with "1.prems"(1,3) g t obtain o1 u where sh: "shrink_mss t n = Inr (o1, u)"
      and cont: "case o1 of None \<Rightarrow> s' = u | Some m \<Rightarrow> transmit_loop env u a m now = Inr (r, s')"
      by (auto simp: transmit_loop.simps [of env s a n now] split: sum.splits option.splits)
    have "P u" using postD [OF shrink_mss_post [OF \<open>P t\<close>] sh] by simp
    then show ?thesis
      using "1.IH" [OF g(1) _ t [folded "1.prems"(1)] refl WR_TOO_LARGE sh] "1.prems"(1) g(2) cont
      by (cases o1) auto
  qed (use "1.prems" g t \<open>P t\<close> in \<open>auto simp: transmit_loop.simps [of env s a n now]\<close>)
qed

lemma transmit_post:
  assumes "P s" and "\<And>r s'. P s' \<Longrightarrow> R (r, s')"
  shows "post R (transmit env s a now)"
proof -
  have "P s'" if "transmit env s a now = Inr (r, s')" for r s'
    using transmit_core [OF that] assms(1) transmit_loop_P [OF refl assms(1)] P_core by blast
  then show ?thesis using assms(2) by (auto simp: post_def)
qed

lemma closedown_navigate_post: "P s \<Longrightarrow> (\<And>s'. P s' \<Longrightarrow> R s') \<Longrightarrow> post R (closedown_navigate s)"
  unfolding closedown_navigate_def by (cases "state s") (auto intro!: set_state_post)

lemma closedown_remote_post: "P s \<Longrightarrow> (\<And>s'. P s' \<Longrightarrow> R s') \<Longrightarrow> post R (closedown_remote env s err)"
  unfolding closedown_remote_def by (auto intro!: closedown_navigate_post set_state_closed_post)

lemma split_unsent_P [simp]: "P (split_unsent s a g n) = P s"
  by (simp add: split_unsent_def Let_def put_seg_def)

lemma get_seg_post: "(\<And>g. seg_heap s a = Some g \<Longrightarrow> R g) \<Longrightarrow> post R (get_seg s a)"
  by (auto simp: post_def get_seg_def split: option.splits)

lemma attempt_send_loop_post:
  "P s \<Longrightarrow> post P (attempt_send_loop fuel env s now sflags)"
proof (induction fuel arbitrary: s sflags)
  case 0
  then show ?case by (simp add: attempt_send_loop.simps)
next
  case (Suc fuel)
  then show ?case
    unfolding attempt_send_loop.simps Let_def
    by (auto split: list.split intro!: packet_post get_seg_post transmit_post closedown_remote_post)
qed

lemma attempt_send_post:
  assumes "P s" and "\<And>s'. P s' \<Longrightarrow> R s'"
  shows "post R (attempt_send env s sflags)"
  unfolding attempt_send_def Let_def
  by (rule post_mono [OF attempt_send_loop_post]) (use assms in auto)

lemma closedown_post: "P s \<Longrightarrow> (\<And>s'. P s' \<Longrightarrow> R s') \<Longrightarrow> post R (closedown env s err src)"
  unfolding closedown_def
  by (auto intro!: queue_messages_post attempt_send_post closedown_remote_post)

lemma connect_post:
  assumes "P s" and "\<And>b s'. P s' \<Longrightarrow> R (b, s')"
  shows "post R (pseudo_tcp_socket_connect env s)"
  unfolding pseudo_tcp_socket_connect_def
  by (auto intro!: assms set_state_post queue_messages_post attempt_send_post
      simp: pseudo_tcp_state_has_sent_fin_def)

lemma backoff_P:
  assumes "P s" and "v = min DEF_RTO (rx_rto s * 2) \<or> v = min MAX_RTO (rx_rto s * 2)"
  shows "P (s\<lparr> rx_rto := v \<rparr>)"
  using assms P_backoff by blast

lemma clock_retransmit_post:
  assumes "P s" and "\<And>r s'. P s' \<Longrightarrow> R (r, s')"
  shows "post R (clock_retransmit env s now)"
  unfolding clock_retransmit_def Let_def
  by (auto intro!: assms transmit_post closedown_post backoff_P split: list.split)

lemma clock_probe_post:
  assumes "P s" and "\<And>r s'. P s' \<Longrightarrow> R (r, s')"
  shows "post R (clock_probe env s now)"
  unfolding clock_probe_def Let_def
  by (auto intro!: assms closedown_post packet_post backoff_P)

lemma notify_clock_post:
  assumes "P s" and "\<And>s'. P s' \<Longrightarrow> R s'"
  shows "post R (pseudo_tcp_socket_notify_clock env s)"
  unfolding pseudo_tcp_socket_notify_clock_def Let_def
  by (auto intro!: assms set_state_closed_post queue_messages_post attempt_send_post clock_retransmit_post
      clock_probe_post packet_post split: option.splits)

lemma get_next_clock_post:
  assumes "P s" and "\<And>b t s'. P s' \<Longrightarrow> R (b, t, s')"
  shows "post R (pseudo_tcp_socket_get_next_clock env s timeout)"
  unfolding pseudo_tcp_socket_get_next_clock_def Let_def post_if post_simps prod.case
  by (intro conjI impI assms closedown_post) simp_all

lemma recv_post:
  assumes "P s" and "\<And>r bs s'. P s' \<Longrightarrow> R (r, bs, s')"
  shows "post R (pseudo_tcp_socket_recv env s n)"
proof -
  have r: "post S (pseudo_tcp_fifo_read (rbuf s) n)"
    if "\<And>bs f. P (log_event (s\<lparr> rbuf := f \<rparr>) (EvRead bs)) \<Longrightarrow> S (bs, f)" for S
    using P_read [OF assms(1)] that by (auto simp: post_def)
  show ?thesis
    unfolding pseudo_tcp_socket_recv_def Let_def
    by (auto intro!: assms r attempt_send_post)
qed

lemma send_post:
  assumes "P s" and "\<And>r s'. P s' \<Longrightarrow> R (r, s')"
  shows "post R (pseudo_tcp_socket_send env s data len)"
  unfolding pseudo_tcp_socket_send_def
  by (auto intro!: assms queue_post attempt_send_post simp: pseudo_tcp_state_has_sent_fin_def)

lemma shutdown_post:
  assumes "P s" and "\<And>s'. P s' \<Longrightarrow> R s'"
  shows "post R (pseudo_tcp_socket_shutdown env s how)"
proof -
  have "post R (shutdown_write env t)" if "P t" for t
    unfolding shutdown_write_def using that
    by (cases "state t") (auto intro!: assms set_state_closed_post queue_messages_post attempt_send_post
        set_state_post closedown_post)
  then show ?thesis unfolding pseudo_tcp_socket_shutdown_def Let_def using assms by auto
qed

lemma close_post:
  assumes "P s" and "\<And>s'. P s' \<Longrightarrow> R s'"
  shows "post R (pseudo_tcp_socket_close env s force)"
  unfolding pseudo_tcp_socket_close_def by (auto intro!: assms closedown_post shutdown_post)

lemma notify_mtu_P [simp]: "P (pseudo_tcp_socket_notify_mtu s mtu) = P s"
  by (simp add: pseudo_tcp_socket_notify_mtu_def Let_def)

lemma send_space_P [simp]: "P (snd (pseudo_tcp_socket_get_available_send_space s)) = P s"
  by (simp add: pseudo_tcp_socket_get_available_send_space_def Let_def)

end

text \<open>The laws for incoming segments; \<open>ok\<close> says which segments may arrive.\<close>

locale tcp_invariant = tcp_output +
  fixes ok :: "Segment \<Rightarrow> bool"
  assumes P_rto: "P s \<Longrightarrow> MIN_RTO \<le> v \<Longrightarrow> v \<le> MAX_RTO \<Longrightarrow> P (s\<lparr> rx_rto := v \<rparr>)"
    and P_ack: "P s \<Longrightarrow> pseudo_tcp_fifo_consume_read_data (sbuf s) (unat n) = Inr f \<Longrightarrow>
      m = n \<or> m = n + 1 \<and> pseudo_tcp_state_has_sent_fin (state s) \<and> unat n = data_length (sbuf s) \<Longrightarrow>
      P (s\<lparr> snd_una := snd_una s + m, sbuf := f \<rparr>)"
    and P_data: "P s \<Longrightarrow> ok seg \<Longrightarrow> process_data s seg fl = Inr (r, s') \<Longrightarrow> P s'"
    and P_options: "P s \<Longrightarrow> ok seg \<Longrightarrow> seg_flags seg AND FLAG_CTL \<noteq> 0 \<Longrightarrow>
      parse_options env s data c = Inr s' \<Longrightarrow> P s'"
    and P_fin: "P s \<Longrightarrow> ok seg \<Longrightarrow> seg_flags seg AND FLAG_FIN \<noteq> 0 \<Longrightarrow> P (s\<lparr> rcv_fin := seg_seq seg \<rparr>)"
    and P_fin_nxt: "P s \<Longrightarrow> ok seg \<Longrightarrow> rcv_nxt s \<noteq> 0 \<Longrightarrow> rcv_nxt s + seg_len seg = rcv_fin s \<Longrightarrow>
      P t \<Longrightarrow> P (t\<lparr> rcv_nxt := x \<rparr>)"
    and P_opened: "P s \<Longrightarrow> call_cb (PseudoTcpOpened env) EvOpened s = Inr s' \<Longrightarrow> P s'"
    and P_readable: "P s \<Longrightarrow> call_cb (PseudoTcpReadable env) EvReadable s = Inr s' \<Longrightarrow> P s'"
    and P_writable: "P s \<Longrightarrow> call_cb (PseudoTcpWritable env) EvWritable s = Inr s' \<Longrightarrow> P s'"
begin

lemma callbacks_post:
  "P s \<Longrightarrow> (\<And>s'. P s' \<Longrightarrow> R s') \<Longrightarrow> post R (call_cb (PseudoTcpOpened env) EvOpened s)"
  "P s \<Longrightarrow> (\<And>s'. P s' \<Longrightarrow> R s') \<Longrightarrow> post R (call_cb (PseudoTcpReadable env) EvReadable s)"
  "P s \<Longrightarrow> (\<And>s'. P s' \<Longrightarrow> R s') \<Longrightarrow> post R (call_cb (PseudoTcpWritable env) EvWritable s)"
  by (blast intro: post_eqI P_opened P_readable P_writable)+

lemma set_state_established_post: "P s \<Longrightarrow> (\<And>s'. P s' \<Longrightarrow> R s') \<Longrightarrow> post R (set_state_established env s)"
  unfolding set_state_established_def by (auto intro!: set_state_post callbacks_post)

lemma process_ctl_post:
  assumes "P s" and "ok seg" and "\<And>r s'. P s' \<Longrightarrow> R (r, s')"
  shows "post R (process_ctl env s seg)"
proof (cases "seg_flags seg AND FLAG_CTL = 0")
  case True
  then show ?thesis using assms by (simp add: process_ctl_def)
next
  case False
  have o: "post S (parse_options env s data n)" if "\<And>s'. P s' \<Longrightarrow> S s'" for S data n
    using P_options [OF assms(1,2) False] that by (auto simp: post_def)
  show ?thesis
    unfolding process_ctl_def
    by (auto intro!: o post_eqI [of "opt_byte _ _"] set_state_post queue_messages_post set_state_established_post
        assms(3) simp: assms(1) pseudo_tcp_state_has_sent_fin_def)
qed

lemma update_timestamp_P [simp]: "P (update_timestamp s seg) = P s"
  by (simp add: update_timestamp_def)

lemma update_rtt_P:
  assumes "P s" and "update_rtt s tsecr now = Some s'"
  shows "P s' \<and> sbuf s' = sbuf s \<and> state s' = state s \<and> snd_una s' = snd_una s"
  using assms bound_between [of MIN_RTO MAX_RTO]
  by (auto simp: update_rtt_def Let_def tcp_consts split: if_splits intro!: P_rto)

lemma ack_P:
  assumes "P s" and "pseudo_tcp_fifo_consume_read_data (sbuf s) (unat n) = Inr f"
    and "a - snd_una s = n \<or> a - snd_una s - 1 = n \<and> unat (a - snd_una s) = data_length (sbuf s) + 1 \<and>
      pseudo_tcp_state_has_sent_fin (state s)"
  shows "P (s\<lparr> snd_una := a, sbuf := f \<rparr>)"
proof -
  have "a - snd_una s = n \<or> a - snd_una s = n + 1 \<and> pseudo_tcp_state_has_sent_fin (state s) \<and>
      unat n = data_length (sbuf s)"
  proof (use assms(3) in \<open>elim disjE conjE\<close>)
    assume n: "a - snd_una s - 1 = n" "unat (a - snd_una s) = data_length (sbuf s) + 1"
      and fin: "pseudo_tcp_state_has_sent_fin (state s)"
    then have "a - snd_una s \<noteq> 0" by (metis Suc_eq_plus1 old.nat.distinct(2) unat_0)
    from unat_minus_one [OF this] have "unat n = data_length (sbuf s)" using n by simp
    then show ?thesis using n fin by auto
  qed simp
  from P_ack [OF assms(1,2) this] show ?thesis by simp
qed

lemma congestion_avoidance_post: "P s \<Longrightarrow> (\<And>s'. P s' \<Longrightarrow> R s') \<Longrightarrow> post R (congestion_avoidance s)"
  by (simp add: congestion_avoidance_def)

lemma peek_head_post: "(\<And>a. R a) \<Longrightarrow> post R (peek_head q)"
  by (simp add: peek_head_def split: list.split)

lemma ack_recovery_post:
  assumes "P s" and "\<And>r s'. P s' \<Longrightarrow> R (r, s')"
  shows "post R (ack_recovery env s nAcked now)"
  unfolding ack_recovery_def Let_def
  by (auto intro!: assms peek_head_post transmit_post closedown_post congestion_avoidance_post)

lemma process_valuable_ack_post:
  assumes "P s" and "\<And>r s'. P s' \<Longrightarrow> R (r, s')"
  shows "post R (process_valuable_ack env s seg now)"
proof (cases "update_rtt s (seg_tsecr seg) now")
  case None
  then show ?thesis using assms by (simp add: process_valuable_ack_def)
next
  case (Some s1)
  note 1 = update_rtt_P [OF assms(1) Some]
  let ?n = "seg_ack seg - snd_una s1"
  have k: "post S (pseudo_tcp_fifo_consume_read_data (sbuf s1) (unat n))"
    if "n = ?n \<or> n = ?n - 1 \<and> unat ?n = data_length (sbuf s1) + 1 \<and> pseudo_tcp_state_has_sent_fin (state s1)"
      "\<And>f. (\<And>t. core t = core (s1\<lparr> snd_una := seg_ack seg, sbuf := f \<rparr>) \<Longrightarrow> P t) \<Longrightarrow> S f" for S n
  proof (rule post_eqI)
    fix f assume "pseudo_tcp_fifo_consume_read_data (sbuf s1) (unat n) = Inr f"
    from ack_P [OF _ this, of "seg_ack seg"] 1 that(1) have "P (s1\<lparr> snd_una := seg_ack seg, sbuf := f \<rparr>)"
      by auto
    then show "S f" by (intro that(2)) (metis P_core)
  qed
  show ?thesis
    unfolding process_valuable_ack_def Some option.case Let_def
    by (auto intro!: k ack_recovery_post assms(2) post_eqI [of "shl_wnd _ _"] post_eqI [of "free_acked _ _ _ _"]
        simp: core_def)
qed

lemma process_duplicate_ack_post:
  assumes "P s" and "\<And>r s'. P s' \<Longrightarrow> R (r, s')"
  shows "post R (process_duplicate_ack env s seg now)"
  unfolding process_duplicate_ack_def Let_def
  by (auto intro!: post_eqI [of "shl_wnd _ _"] assms peek_head_post transmit_post closedown_post)

lemma process_ack_post:
  assumes "P s" and "\<And>r s'. P s' \<Longrightarrow> R (r, s')"
  shows "post R (process_ack env s seg now)"
  unfolding process_ack_def
  by (auto intro!: assms process_valuable_ack_post process_duplicate_ack_post)

lemma fin_transition_post: "P s \<Longrightarrow> (\<And>s'. P s' \<Longrightarrow> R s') \<Longrightarrow> post R (fin_transition env s fin ack)"
  unfolding fin_transition_def
  by (cases "state s") (auto intro!: set_state_post set_state_closed_post)

lemma process_fin_post:
  assumes "P s" and "ok seg"
    and "\<And>r s'. P s' \<Longrightarrow> (r = Some True \<Longrightarrow> (\<And>t x. P t \<Longrightarrow> P (t\<lparr> rcv_nxt := x \<rparr>))) \<Longrightarrow> R (r, s')"
  shows "post R (process_fin env s seg ack)"
proof -
  let ?s = "if seg_flags seg AND FLAG_FIN \<noteq> 0 then s\<lparr> rcv_fin := seg_seq seg \<rparr> else s"
  have P: "P ?s" using P_fin assms(1,2) by simp
  have x: "P (t\<lparr> rcv_nxt := x \<rparr>)" if "rcv_nxt ?s \<noteq> 0" "rcv_nxt ?s + seg_len seg = rcv_fin ?s" "P t" for t x
    by (rule P_fin_nxt [OF P assms(2) that])
  show ?thesis
    unfolding process_fin_def Let_def using P x assms(1)
    by (auto intro!: fin_transition_post assms(3))
qed

lemma notify_writable_post: "P s \<Longrightarrow> (\<And>s'. P s' \<Longrightarrow> R s') \<Longrightarrow> post R (notify_writable env s)"
  unfolding notify_writable_def Let_def by (auto intro!: callbacks_post)

lemma process_data_post:
  assumes "P s" and "ok seg" and "\<And>r s'. P s' \<Longrightarrow> R (r, s')"
  shows "post R (process_data s seg fl)"
  using P_data [OF assms(1,2)] assms(3) by (auto simp: post_def)

lemma process_tail_post:
  assumes "P s" and "ok seg" and "fin \<Longrightarrow> (\<And>t x. P t \<Longrightarrow> P (t\<lparr> rcv_nxt := x \<rparr>))" and "\<And>s'. P s' \<Longrightarrow> R s'"
  shows "post R (process_tail env s seg fin)"
  unfolding process_tail_def Let_def
  by (auto intro!: assms notify_writable_post process_data_post attempt_send_post callbacks_post)

lemma process_post:
  assumes "P s" and "ok seg" and "\<And>b s'. P s' \<Longrightarrow> R (b, s')"
  shows "post R (process env s seg)"
  unfolding process_def Let_def
  by (auto intro!: assms closedown_post process_ctl_post process_ack_post set_state_established_post
      process_fin_post process_tail_post split: option.splits)

lemma notify_packet_post:
  assumes "P s" and "length buf \<ge> 24 \<Longrightarrow> ok (parse_segment (take 24 buf) (drop 24 buf))"
    and "\<And>b s'. P s' \<Longrightarrow> R (b, s')"
  shows "post R (pseudo_tcp_socket_notify_packet env s buf)"
  unfolding pseudo_tcp_socket_notify_packet_def parse_def
  by (auto intro!: process_post assms simp: tcp_consts)

theorem step_P: "tcp_step env ok s s' \<Longrightarrow> P s \<Longrightarrow> P s'"
proof (induction rule: tcp_step.induct)
  case (Connect s b s')
  from postD [OF connect_post [of s "\<lambda>(_, s'). P s'", OF Connect(2)] Connect(1)] show ?case by simp
next
  case (Clock s s')
  from postD [OF notify_clock_post [of s P, OF Clock(2)] Clock(1)] show ?case by simp
next
  case (Next_clock s t b t' s')
  from postD [OF get_next_clock_post [of s "\<lambda>(_, _, s'). P s'", OF Next_clock(2)] Next_clock(1)]
  show ?case by simp
next
  case (Packet s buf b s')
  from postD [OF notify_packet_post [of s buf "\<lambda>(_, s'). P s'", OF Packet(3,2)] Packet(1)]
  show ?case by simp
next
  case (Recv s n r bs s')
  from postD [OF recv_post [of s "\<lambda>(_, _, s'). P s'", OF Recv(2)] Recv(1)] show ?case by simp
next
  case (Send s data len r s')
  from postD [OF send_post [of s "\<lambda>(_, s'). P s'", OF Send(2)] Send(1)] show ?case by simp
next
  case (Shutdown s how s')
  from postD [OF shutdown_post [of s P, OF Shutdown(2)] Shutdown(1)] show ?case by simp
next
  case (Close s force s')
  from postD [OF close_post [of s P, OF Close(2)] Close(1)] show ?case by simp
qed (simp_all add: pseudo_tcp_socket_set_time_def)

theorem run_P: "tcp_run env ok s s' \<Longrightarrow> P s \<Longrightarrow> P s'"
  by (induction rule: rtranclp_induct) (auto intro: step_P)

end

end
