(* ===== verification/PTcp_Stream.thy ===== *)
theory PTcp_Stream
  imports PTcp_Inv
begin

text \<open>
  The predicates carried through the pseudo-TCP functions by the locale \<open>tcp_invariant\<close>, and the
  laws of that locale for them, proved here for every environment up to the callbacks.

  \<^item> \<open>rto_ok\<close>: the retransmission time-out is between \<open>MIN_RTO\<close> and \<open>MAX_RTO\<close>;
  \<^item> \<open>tx_ok\<close>: the send buffer holds the accepted bytes from \<open>snd_una\<close> on, and every packet written
    so far carries the accepted bytes at the position its sequence number names;
  \<^item> \<open>rx_ok\<close>: the bytes handed to the user and those queued are a prefix of the peer's stream.
\<close>

section \<open>What each elementary operation does\<close>

lemma fifo_write_Inr:
  assumes ok: "fifo_ok f" and w: "pseudo_tcp_fifo_write f d n = Inr (k, f')"
  shows "fifo_ok f' \<and> k \<le> length d \<and> fifo_data f' = fifo_data f @ take k d"
proof -
  let ?c = "min n (buffer_length f - data_length f)"
  have same: "pseudo_tcp_fifo_write f d n = pseudo_tcp_fifo_write f d ?c"
    by (cases "buffer_length f \<le> data_length f")
       (simp_all add: pseudo_tcp_fifo_write_def pseudo_tcp_fifo_write_offset_def Let_def)
  have c: "?c \<le> length d"
  proof (cases "data_length f < buffer_length f")
    case True
    with w show ?thesis
      by (auto simp: pseudo_tcp_fifo_write_def pseudo_tcp_fifo_write_offset_def Let_def umod_def src_read_def
          split: if_splits)
  qed simp
  from fifo_write_spec [OF ok c refl] w same c show ?thesis by auto
qed

lemma fifo_consume_read_Inr:
  assumes ok: "fifo_ok f" and w: "pseudo_tcp_fifo_consume_read_data f n = Inr f'"
  shows "fifo_ok f' \<and> n \<le> data_length f \<and> fifo_data f' = drop n (fifo_data f)"
proof -
  have n: "n \<le> data_length f" using w by (auto simp: pseudo_tcp_fifo_consume_read_data_def)
  from fifo_consume_read_spec [OF ok n] w have "fifo_ok f'" "data_length f' = data_length f - n"
    "\<forall>k. fifo_cell f' k = fifo_cell f (n + k)" by auto
  then show ?thesis using n
    by (auto simp: fifo_data_def intro!: nth_equalityI)
qed

lemma parse_options_frame:
  assumes "parse_options env s data n = Inr s'"
  shows "state s' = state s \<and> sbuf s' = sbuf s \<and> snd_una s' = snd_una s \<and> rx_rto s' = rx_rto s \<and> trace s' = trace s"
proof -
  from assms obtain r s1 where l: "parse_options_loop s data n 0 False False = Inr (r, s1)"
    and k: "(case r of None \<Rightarrow> Inr s1 | Some (has_ws, has_fin) \<Rightarrow>
         bindr (if \<not> has_ws \<and> rwnd_scale s1 > 0 then
                  bindr (resize_receive_buffer env s1 DEFAULT_RCV_BUF_SIZE) (\<lambda>s. Inr (s\<lparr> swnd_scale := 0 \<rparr>))
                else Inr s1) (\<lambda>s. Inr (if \<not> has_fin then s\<lparr> support_fin_ack := False \<rparr> else s))) = Inr s'"
    by (auto simp: parse_options_def)
  from parse_options_loop_frame [OF l] obtain a b where s1: "s1 = s\<lparr> swnd_scale := a, support_fin_ack := b \<rparr>"
    by (auto simp: opt_frame_def)
  have res: "state t = state s1 \<and> sbuf t = sbuf s1 \<and> snd_una t = snd_una s1 \<and> rx_rto t = rx_rto s1 \<and> trace t = trace s1"
    if "resize_receive_buffer env s1 m = Inr t" for m t
    using that by (auto simp: resize_receive_buffer_def Let_def split: if_splits prod.splits)
  show ?thesis using k by (auto simp: s1 split: option.splits if_splits dest!: res [unfolded s1])
qed

lemma packet_trace:
  assumes p: "packet env s seq flags offset len now = Inr (w, s')" and ok: "fifo_ok (sbuf s)"
  obtains hdr bs res where "trace s' = trace s @ [EvWritePacket (hdr @ bs) res]" "length hdr = 24"
    "word_at hdr 4 = seq" "length bs = unat len"
    "len \<noteq> 0 \<Longrightarrow> bs = take (unat len) (drop (unat offset) (fifo_data (sbuf s))) \<and>
       unat offset + unat len \<le> data_length (sbuf s)"
proof -
  from p obtain x :: u32 and bs where
    b: "if len \<noteq> 0 then pseudo_tcp_fifo_read_offset (sbuf s) (unat len) (unat offset) = Inr bs \<and> length bs = unat len
        else bs = []"
    and tr: "\<exists>res. trace s' = trace s @ [EvWritePacket (tcp_header s seq flags now (ucast x) @ bs) res]"
    by (auto simp: packet_def Let_def log_event_def split: if_splits)
  have "bs = take (unat len) (drop (unat offset) (fifo_data (sbuf s))) \<and>
       unat offset + unat len \<le> data_length (sbuf s)" if "len \<noteq> 0"
  proof -
    let ?m = "min (unat len) (data_length (sbuf s) - unat offset)"
    have "bs = fifo_cells (sbuf s) (unat offset) ?m" and l: "length bs = unat len"
      using b that fifo_read_offset_spec [OF ok, of "unat len" "unat offset"] by auto
    moreover have "0 < unat len" using that by (simp add: unat_gt_0)
    with l calculation have "unat offset + unat len \<le> data_length (sbuf s)"
      by (auto simp: min_def split: if_splits)
    ultimately show ?thesis
      by (auto intro!: nth_equalityI simp: fifo_data_def)
  qed
  moreover have "length bs = unat len" using b by (auto split: if_splits)
  ultimately show ?thesis using tr that by (auto simp: tcp_header_fields)
qed

lemma packet_core:
  assumes "packet env s seq flags offset len now = Inr (w, s')"
  shows "state s' = state s \<and> rlist s' = rlist s \<and> rbuf s' = rbuf s \<and> rcv_nxt s' = rcv_nxt s \<and>
    rcv_fin s' = rcv_fin s \<and> sbuf s' = sbuf s \<and> snd_una s' = snd_una s \<and> rx_rto s' = rx_rto s \<and>
    support_fin_ack s' = support_fin_ack s \<and> (\<exists>pkt res. trace s' = trace s @ [EvWritePacket pkt res])"
  using assms by (auto simp: packet_def Let_def log_event_def split: if_splits)


section \<open>The retransmission time-out\<close>

definition rto_ok :: "psock \<Rightarrow> bool" where
  "rto_ok s \<longleftrightarrow> MIN_RTO \<le> rx_rto s \<and> rx_rto s \<le> MAX_RTO"

lemma rto_backoff:
  assumes "rto_ok s" and "lim = DEF_RTO \<or> lim = MAX_RTO"
  shows "MIN_RTO \<le> min lim (rx_rto s * 2) \<and> min lim (rx_rto s * 2) \<le> MAX_RTO"
proof -
  have r: "1000 \<le> unat (rx_rto s)" "unat (rx_rto s) \<le> 60000"
    using assms(1) by (simp_all add: rto_ok_def tcp_consts word_le_nat_alt)
  then have "unat (rx_rto s * 2) = unat (rx_rto s) * 2"
    by (simp add: unat_word_ariths)
  then have "1000 \<le> rx_rto s * 2" using r by (simp add: word_le_nat_alt)
  then show ?thesis using assms(2) by (auto simp: tcp_consts min_def)
qed

section \<open>The sender's stream\<close>

definition accepted :: "psock \<Rightarrow> byte list" where
  "accepted s = concat (map (\<lambda>e. case e of EvQueued bs \<Rightarrow> bs | _ \<Rightarrow> []) (trace s))"

definition delivered :: "psock \<Rightarrow> byte list" where
  "delivered s = concat (map (\<lambda>e. case e of EvRead bs \<Rightarrow> bs | _ \<Rightarrow> []) (trace s))"

text \<open>
  A packet carries the bytes of \<open>xs\<close> at the position its sequence number names, the first byte
  of \<open>xs\<close> having number 0. A packet without payload names no position.
\<close>

definition carries :: "byte list \<Rightarrow> byte list \<Rightarrow> bool" where
  "carries xs pkt \<longleftrightarrow> length pkt \<ge> 24 \<and> (length pkt > 24 \<longrightarrow>
     (\<exists>p. word_at pkt 4 = of_nat p \<and> p + (length pkt - 24) \<le> length xs \<and>
       drop 24 pkt = take (length pkt - 24) (drop p xs)))"

definition tx_ok :: "psock \<Rightarrow> bool" where
  "tx_ok s \<longleftrightarrow> fifo_ok (sbuf s) \<and>
     (\<exists>u. snd_una s = of_nat u \<and> fifo_data (sbuf s) = drop u (accepted s) \<and>
        (\<not> pseudo_tcp_state_has_sent_fin (state s) \<longrightarrow> u \<le> length (accepted s))) \<and>
     (\<forall>pkt res. EvWritePacket pkt res \<in> set (trace s) \<longrightarrow> carries (accepted s) pkt)"

lemma carries_append: "carries xs pkt \<Longrightarrow> carries (xs @ ys) pkt"
  by (fastforce simp: carries_def)

lemma accepted_log [simp]:
  "accepted (log_event s e) = accepted s @ (case e of EvQueued bs \<Rightarrow> bs | _ \<Rightarrow> [])"
  "delivered (log_event s e) = delivered s @ (case e of EvRead bs \<Rightarrow> bs | _ \<Rightarrow> [])"
  by (simp_all add: accepted_def delivered_def log_event_def)

lemma tx_ok_core: "tx_ok s \<Longrightarrow> core s = core s' \<Longrightarrow> tx_ok s'"
  by (simp add: tx_ok_def core_def accepted_def)

lemma tx_ok_log:
  "(\<And>pkt r. e \<noteq> EvWritePacket pkt r) \<Longrightarrow> (\<And>bs. e \<noteq> EvQueued bs) \<Longrightarrow> tx_ok (log_event s e) = tx_ok s"
  by (cases e) (auto simp: tx_ok_def log_event_def accepted_def)

lemma tx_ok_state:
  assumes "tx_ok s" and "(state s, st) \<in> set transitions" and "state s \<noteq> TCP_CLOSED"
  shows "tx_ok (s\<lparr> state := st \<rparr>)"
proof -
  have "pseudo_tcp_state_has_sent_fin st \<or> \<not> pseudo_tcp_state_has_sent_fin (state s)"
    using assms(2,3) by (auto simp: transitions_def pseudo_tcp_state_has_sent_fin_def)
  then show ?thesis using assms(1) by (auto simp: tx_ok_def accepted_def)
qed


lemma tx_ok_packet:
  assumes tx: "tx_ok s" and off: "len = 0 \<or> offset = seq - snd_una s"
    and p: "packet env s seq flags offset len now = Inr (w, s')"
  shows "tx_ok s'"
proof -
  have ok: "fifo_ok (sbuf s)" using tx by (simp add: tx_ok_def)
  obtain hdr bs res where tr: "trace s' = trace s @ [EvWritePacket (hdr @ bs) res]" "length hdr = 24"
    "word_at hdr 4 = seq" "length bs = unat len"
    and bs: "len \<noteq> 0 \<Longrightarrow> bs = take (unat len) (drop (unat offset) (fifo_data (sbuf s))) \<and>
       unat offset + unat len \<le> data_length (sbuf s)"
    using packet_trace [OF p ok] by blast
  obtain u where u: "snd_una s = of_nat u" "fifo_data (sbuf s) = drop u (accepted s)"
    using tx by (auto simp: tx_ok_def)
  have acc: "accepted s' = accepted s" by (simp add: accepted_def tr(1))
  have "carries (accepted s) (hdr @ bs)"
  proof (cases "len = 0")
    case True
    then show ?thesis using tr by (simp add: carries_def)
  next
    case False
    let ?p = "u + unat offset"
    have l: "length (accepted s) - u = data_length (sbuf s)"
      using u(2) length_fifo_data [of "sbuf s"] by simp
    have "word_at (hdr @ bs) 4 = of_nat ?p"
      using tr(2,3) off False u(1) by (simp add: word_at_def nth_append)
    moreover have "bs = take (unat len) (drop ?p (accepted s))" and "?p + unat len \<le> length (accepted s)"
      using bs [OF False] u(2) l False unat_gt_0 [of len] by (auto simp: add.commute)
    ultimately show ?thesis using tr(2,4) unfolding carries_def
      by (intro conjI impI exI [of _ ?p]) simp_all
  qed
  moreover note packet_core [OF p]
  ultimately show ?thesis using tx by (auto simp: tx_ok_def acc tr(1))
qed

lemma tx_ok_ack:
  assumes tx: "tx_ok s" and c: "pseudo_tcp_fifo_consume_read_data (sbuf s) (unat n) = Inr f"
    and m: "m = n \<or> m = n + 1 \<and> pseudo_tcp_state_has_sent_fin (state s) \<and> unat n = data_length (sbuf s)"
  shows "tx_ok (s\<lparr> snd_una := snd_una s + m, sbuf := f \<rparr>)"
proof -
  have ok: "fifo_ok (sbuf s)" using tx by (simp add: tx_ok_def)
  from fifo_consume_read_Inr [OF ok c] have f: "fifo_ok f" "unat n \<le> data_length (sbuf s)"
    "fifo_data f = drop (unat n) (fifo_data (sbuf s))" by auto
  obtain u where u: "snd_una s = of_nat u" "fifo_data (sbuf s) = drop u (accepted s)"
    and fin: "\<not> pseudo_tcp_state_has_sent_fin (state s) \<longrightarrow> u \<le> length (accepted s)"
    using tx by (auto simp: tx_ok_def)
  have l: "length (accepted s) - u = data_length (sbuf s)"
    using u(2) length_fifo_data [of "sbuf s"] by simp
  define v where "v = (if m = n then u + unat n else u + unat n + 1)"
  have "snd_una s + m = of_nat v"
    using m u(1) by (auto simp: v_def)
  moreover have "fifo_data f = drop v (accepted s)"
    using m f(3) u(2) l by (auto simp: v_def add.commute)
  moreover have "\<not> pseudo_tcp_state_has_sent_fin (state s) \<longrightarrow> v \<le> length (accepted s)"
    using m fin f(2) l by (auto simp: v_def)
  ultimately show ?thesis using tx f(1) by (auto simp: tx_ok_def accepted_def)
qed

lemma tx_ok_queue:
  assumes tx: "tx_ok s" and d: "data = [] \<or> \<not> pseudo_tcp_state_has_sent_fin (state s)"
    and w: "pseudo_tcp_fifo_write (sbuf s) data c = Inr (k, f)"
  shows "tx_ok (log_event (s\<lparr> sbuf := f \<rparr>) (EvQueued (take k data)))"
proof -
  have ok: "fifo_ok (sbuf s)" using tx by (simp add: tx_ok_def)
  from fifo_write_Inr [OF ok w] have f: "fifo_ok f" "fifo_data f = fifo_data (sbuf s) @ take k data" by auto
  obtain u where u: "snd_una s = of_nat u" "fifo_data (sbuf s) = drop u (accepted s)"
    and fin: "\<not> pseudo_tcp_state_has_sent_fin (state s) \<longrightarrow> u \<le> length (accepted s)"
    using tx by (auto simp: tx_ok_def)
  have a: "accepted (s\<lparr> sbuf := f \<rparr>) = accepted s" by (simp add: accepted_def)
  have "fifo_data f = drop u (accepted s @ take k data)"
    using f(2) u(2) d fin by auto
  then show ?thesis using tx f(1) u fin
    by (auto simp: tx_ok_def a log_event_def [of "s\<lparr> sbuf := f \<rparr>"] accepted_def intro!: carries_append)
qed


section \<open>The receiver's stream\<close>

text \<open>
  \<open>rx_ok base xs\<close>: the receiver is at some position of the stream, has handed over what precedes
  its queued bytes, and knows of no FIN.
\<close>

definition rx_ok :: "u32 \<Rightarrow> byte list \<Rightarrow> psock \<Rightarrow> bool" where
  "rx_ok base xs s \<longleftrightarrow> length xs \<le> 2 ^ 30 \<and> support_fin_ack s \<and> (\<forall>k \<le> 2 ^ 31. seqno base k \<noteq> rcv_fin s) \<and>
     (\<exists>q ps. recv_at base xs s q ps \<and> delivered s = take (q - data_length (rbuf s)) xs)"

text \<open>The segments that may arrive: data of the stream, and segments without data; no FIN, no control data.\<close>

definition rx_segment :: "u32 \<Rightarrow> byte list \<Rightarrow> Segment \<Rightarrow> bool" where
  "rx_segment base xs seg \<longleftrightarrow> seg_flags seg AND FLAG_CTL = 0 \<and> seg_flags seg AND FLAG_FIN = 0 \<and>
     (seg_len seg = 0 \<or> data_segment base xs seg)"

lemma rx_ok_core: "rx_ok base xs s \<Longrightarrow> core s = core s' \<Longrightarrow> rx_ok base xs s'"
  by (simp add: rx_ok_def core_def recv_at_def delivered_def)

lemma rx_ok_log: "(\<And>bs. e \<noteq> EvRead bs) \<Longrightarrow> rx_ok base xs (log_event s e) = rx_ok base xs s"
  by (cases e) (auto simp: rx_ok_def log_event_def recv_at_def delivered_def)

lemma rx_ok_state [simp]: "rx_ok base xs (s\<lparr> state := st \<rparr>) = rx_ok base xs s"
  "rx_ok base xs (s\<lparr> rx_rto := v \<rparr>) = rx_ok base xs s"
  "rx_ok base xs (s\<lparr> sbuf := f \<rparr>) = rx_ok base xs s"
  "rx_ok base xs (s\<lparr> snd_una := a \<rparr>) = rx_ok base xs s"
  by (simp_all add: rx_ok_def recv_at_def delivered_def)

lemma rx_ok_packet:
  assumes "rx_ok base xs s" and "packet env s seq flags offset len now = Inr (w, s')"
  shows "rx_ok base xs s'"
proof -
  note c = packet_core [OF assms(2)]
  have "recv_at base xs s' q ps = recv_at base xs s q ps" for q ps
    using c by (simp add: recv_at_def)
  moreover have "delivered s' = delivered s"
    using c by (auto simp: delivered_def)
  ultimately show ?thesis using assms(1) c by (simp add: rx_ok_def)
qed

lemma rx_ok_read:
  assumes rx: "rx_ok base xs s" and r: "pseudo_tcp_fifo_read (rbuf s) n = Inr (bs, f)"
  shows "rx_ok base xs (log_event (s\<lparr> rbuf := f \<rparr>) (EvRead bs))"
proof -
  obtain q ps where inv: "recv_at base xs s q ps" and d: "delivered s = take (q - data_length (rbuf s)) xs"
    using rx by (auto simp: rx_ok_def)
  obtain bs' f' where "pseudo_tcp_fifo_read (rbuf s) n = Inr (bs', f')"
    and a': "rx_after base xs s q ps {} bs' (s\<lparr> rbuf := f' \<rparr>) q ps"
    by (rule rx_after_read [OF inv])
  with r have a: "rx_after base xs s q ps {} bs (s\<lparr> rbuf := f \<rparr>) q ps" by simp
  let ?m = "q - data_length (rbuf s)"
  have "q - data_length f = ?m + length bs" and e: "drop ?m xs = bs @ drop (q - data_length f) xs"
    using a by (simp_all add: rx_after_def)
  then have "take (q - data_length f) xs = take ?m xs @ bs"
    by (simp add: take_add)
  moreover have "recv_at base xs (log_event (s\<lparr> rbuf := f \<rparr>) (EvRead bs)) q ps"
    using rx_after_recv_at [OF a] by (simp add: recv_at_def log_event_def)
  moreover have "delivered (s\<lparr> rbuf := f \<rparr>) = delivered s" by (simp add: delivered_def)
  ultimately show ?thesis using rx d by (auto simp: rx_ok_def) (auto simp: log_event_def)
qed

lemma process_data_empty: "seg_len seg = 0 \<Longrightarrow> process_data s seg fl = Inr ((fl, False), s)"
  by (simp add: process_data_def trim_segment_def trim_back_def trim_front_def Let_def)

lemma rx_ok_data:
  assumes rx: "rx_ok base xs s" and seg: "rx_segment base xs seg" and d: "process_data s seg fl = Inr (r, s')"
  shows "rx_ok base xs s'"
proof (cases "seg_len seg = 0")
  case True
  then show ?thesis using rx d by (simp add: process_data_empty)
next
  case False
  then obtain p n where g: "genuine base xs seg p n" and fl: "seg_flags seg AND FLAG_CTL = 0"
    using seg by (auto simp: rx_segment_def data_segment_def)
  obtain q ps where inv: "recv_at base xs s q ps" and del: "delivered s = take (q - data_length (rbuf s)) xs"
    and fin: "support_fin_ack s" "length xs \<le> 2 ^ 30"
    using rx by (auto simp: rx_ok_def)
  from process_data_spec [OF inv g fin(2) fl disjI1 [OF fin(1)], of "fl"] d obtain rl f nxt wnd q' ps' where
    s': "s' = rx_set s rl f nxt wnd" and inv': "recv_at base xs s' q' ps'" and q: "q \<le> q'"
      "data_length f = data_length (rbuf s) + (q' - q)"
    by auto
  have "data_length (rbuf s) \<le> q" using inv by (simp add: recv_at_def stream_ok_def)
  then have "delivered s' = take (q' - data_length (rbuf s')) xs"
    using del q by (simp add: s' rx_set_def delivered_def)
  then show ?thesis using rx inv' by (auto simp: rx_ok_def) (auto simp: s' rx_set_def)
qed

lemma rx_ok_no_fin:
  assumes rx: "rx_ok base xs s" and seg: "rx_segment base xs seg"
  shows "rcv_nxt s + seg_len seg \<noteq> rcv_fin s"
proof -
  obtain q ps where inv: "recv_at base xs s q ps" and b: "length xs \<le> 2 ^ 30"
    and fin: "\<forall>k \<le> 2 ^ 31. seqno base k \<noteq> rcv_fin s"
    using rx by (auto simp: rx_ok_def)
  have q: "q \<le> length xs" "rcv_nxt s = seqno base q" using inv by (auto simp: recv_at_def stream_ok_def)
  define n where "n = unat (seg_len seg)"
  have n: "n \<le> length xs" "seg_len seg = of_nat n"
    using seg by (auto simp: rx_segment_def data_segment_def genuine_def n_def)
  have "q + n \<le> 2 ^ 31" using q n b by simp
  then have "seqno base (q + n) \<noteq> rcv_fin s" using fin by blast
  then show ?thesis using q n by (simp add: seqno_add)
qed

end
