(* ===== verification/FlexBuffer.thy ===== *)
theory FlexBuffer
  imports Prelude
begin

text \<open>
  The buffers handed from one stream handler to the next, \<open>src/session/flex_buffer.h\<close>. The fields
  are of type \<open>size_t\<close> (64 bits): sums and differences wrap. A handler gives its lower neighbour
  room for a header by moving the offset backward and takes a header off by moving it forward.

  \<open>flex_ok\<close> is the invariant offset + size \<open>\<le>\<close> capacity; \<open>flex_data\<close> is the payload.
\<close>

section \<open>The operations\<close>

record FlexBuffer =
  fb_capacity :: u64
  fb_offset :: u64
  fb_size :: u64
  fb_buffer :: "nat \<Rightarrow> byte"

definition FLEX_PADDING_LEN :: u64 where "FLEX_PADDING_LEN = 128"
definition ELA_MAX_USER_DATA_LEN :: u64 where "ELA_MAX_USER_DATA_LEN = 2048"
definition FLEX_BUFFER_MAX_LEN :: u64 where
  "FLEX_BUFFER_MAX_LEN = FLEX_PADDING_LEN * 2 + ELA_MAX_USER_DATA_LEN"

definition flex_buffer_alloca :: "(nat \<Rightarrow> byte) \<Rightarrow> u64 \<Rightarrow> u64 \<Rightarrow> FlexBuffer" where
  "flex_buffer_alloca junk cap off =
     \<lparr> fb_capacity = cap, fb_offset = off, fb_size = 0, fb_buffer = junk \<rparr>"

definition flex_buffer_from :: "(nat \<Rightarrow> byte) \<Rightarrow> u64 \<Rightarrow> byte list \<Rightarrow> u64 \<Rightarrow> FlexBuffer res" where
  "flex_buffer_from junk off src len =
     (let cap = len + off in
      bindr (src_read src 0 (unat len)) (\<lambda>bs.
      bindr (blk_write junk (unat cap) (unat off) bs) (\<lambda>m.
      Inr \<lparr> fb_capacity = cap, fb_offset = off, fb_size = len, fb_buffer = m \<rparr>)))"

definition flex_buffer_init :: "(nat \<Rightarrow> byte) \<Rightarrow> u64 \<Rightarrow> u64 \<Rightarrow> FlexBuffer" where
  "flex_buffer_init mem cap off =
     \<lparr> fb_capacity = cap, fb_offset = off, fb_size = 0, fb_buffer = mem \<rparr>"

definition flex_buffer_reset :: "FlexBuffer \<Rightarrow> u64 \<Rightarrow> FlexBuffer" where
  "flex_buffer_reset b off = b\<lparr> fb_offset := off, fb_size := 0 \<rparr>"

definition flex_buffer_offset :: "FlexBuffer \<Rightarrow> u64" where
  "flex_buffer_offset b = fb_offset b"

definition flex_buffer_available :: "FlexBuffer \<Rightarrow> u64" where
  "flex_buffer_available b = fb_capacity b - fb_offset b - fb_size b"

definition flex_buffer_size :: "FlexBuffer \<Rightarrow> u64" where
  "flex_buffer_size b = fb_size b"

definition flex_buffer_set_size :: "FlexBuffer \<Rightarrow> u64 \<Rightarrow> FlexBuffer" where
  "flex_buffer_set_size b n = b\<lparr> fb_size := n \<rparr>"

text \<open>Reading \<open>n\<close> bytes at \<open>flex_buffer_ptr\<close>, and writing at \<open>flex_buffer_mutable_ptr\<close>.\<close>

definition flex_buffer_ptr :: "FlexBuffer \<Rightarrow> nat \<Rightarrow> byte list res" where
  "flex_buffer_ptr b n = blk_read (fb_buffer b) (unat (fb_capacity b)) (unat (fb_offset b)) n"

definition flex_buffer_mutable_ptr :: "FlexBuffer \<Rightarrow> byte list \<Rightarrow> FlexBuffer res" where
  "flex_buffer_mutable_ptr b bs =
     bindr (blk_write (fb_buffer b) (unat (fb_capacity b)) (unat (fb_offset b)) bs) (\<lambda>m.
     Inr (b\<lparr> fb_buffer := m \<rparr>))"

definition flex_buffer_forward_offset :: "FlexBuffer \<Rightarrow> u64 \<Rightarrow> (u64 \<times> FlexBuffer) res" where
  "flex_buffer_forward_offset b n =
     bindr (g_assert (fb_offset b + n \<le> fb_capacity b)) (\<lambda>_.
     let n = (if fb_offset b + n \<le> fb_capacity b then n else fb_capacity b - fb_offset b - 1)
     in Inr (n, b\<lparr> fb_offset := fb_offset b + n, fb_size := fb_size b - n \<rparr>))"

definition flex_buffer_backward_offset :: "FlexBuffer \<Rightarrow> u64 \<Rightarrow> (u64 \<times> FlexBuffer) res" where
  "flex_buffer_backward_offset b n =
     bindr (g_assert (fb_offset b \<ge> n)) (\<lambda>_.
     let n = (if fb_offset b \<ge> n then n else fb_offset b)
     in Inr (n, b\<lparr> fb_offset := fb_offset b - n, fb_size := fb_size b + n \<rparr>))"

definition flex_buffer_copy :: "FlexBuffer \<Rightarrow> FlexBuffer \<Rightarrow> FlexBuffer res" where
  "flex_buffer_copy dest src =
     (let len = fb_capacity dest - fb_offset dest;
          len = (if len > fb_size src then fb_size src else len) in
      bindr (blk_read (fb_buffer src) (unat (fb_capacity src)) 0 (unat len)) (\<lambda>bs.
      bindr (blk_write (fb_buffer dest) (unat (fb_capacity dest)) 0 bs) (\<lambda>m.
      Inr (dest\<lparr> fb_buffer := m, fb_size := len \<rparr>))))"

definition flex_append_len :: "FlexBuffer \<Rightarrow> FlexBuffer \<Rightarrow> u64 \<Rightarrow> FlexBuffer res" where
  "flex_append_len dest src len =
     bindr (blk_read (fb_buffer src) (unat (fb_capacity src)) (unat (fb_offset src)) (unat len)) (\<lambda>bs.
     bindr (blk_write (fb_buffer dest) (unat (fb_capacity dest)) (unat (fb_offset dest + fb_size dest)) bs) (\<lambda>m.
     Inr (dest\<lparr> fb_buffer := m, fb_size := fb_size dest + len \<rparr>)))"

definition flex_buffer_append :: "FlexBuffer \<Rightarrow> FlexBuffer \<Rightarrow> FlexBuffer res" where
  "flex_buffer_append dest src =
     (let available = fb_capacity dest - fb_offset dest - fb_size dest;
          len = (if fb_size src < available then fb_size src else available)
      in flex_append_len dest src len)"

definition flex_buffer_append2 :: "FlexBuffer \<Rightarrow> FlexBuffer \<Rightarrow> u64 \<Rightarrow> FlexBuffer res" where
  "flex_buffer_append2 dest src n =
     (let available = fb_capacity dest - fb_offset dest - fb_size dest;
          len = (if n < available then n else available)
      in flex_append_len dest src len)"

section \<open>Invariant and payload\<close>

definition flex_ok :: "FlexBuffer \<Rightarrow> bool" where
  "flex_ok b \<longleftrightarrow> unat (fb_offset b) + unat (fb_size b) \<le> unat (fb_capacity b)"

definition flex_data :: "FlexBuffer \<Rightarrow> byte list" where
  "flex_data b = map (fb_buffer b) [unat (fb_offset b)..<unat (fb_offset b) + unat (fb_size b)]"

lemma length_flex_data [simp]: "length (flex_data b) = unat (fb_size b)"
  by (simp add: flex_data_def)

lemma unat_add_le: "unat (a::'a::len word) + unat b \<le> unat (c::'a word) \<Longrightarrow> unat (a + b) = unat a + unat b"
proof -
  assume "unat a + unat b \<le> unat c"
  also have "unat c < 2 ^ LENGTH('a)" by (rule unsigned_less)
  finally show ?thesis by (simp add: unat_word_ariths)
qed

lemma flex_ok_no_wrap: "flex_ok b \<Longrightarrow> unat (fb_offset b + fb_size b) = unat (fb_offset b) + unat (fb_size b)"
  unfolding flex_ok_def by (rule unat_add_le)

lemma unat_available:
  assumes "flex_ok b"
  shows "unat (flex_buffer_available b) = unat (fb_capacity b) - unat (fb_offset b) - unat (fb_size b)"
proof -
  have "fb_offset b \<le> fb_capacity b" using assms by (simp add: flex_ok_def word_le_nat_alt)
  then have o: "unat (fb_capacity b - fb_offset b) = unat (fb_capacity b) - unat (fb_offset b)"
    by (rule unat_sub_le)
  then have "fb_size b \<le> fb_capacity b - fb_offset b" using assms by (simp add: flex_ok_def word_le_nat_alt)
  from unat_sub_le [OF this] o show ?thesis by (simp add: flex_buffer_available_def)
qed

lemma flex_from_spec:
  assumes "length src = unat len" and "unat len + unat off < 2 ^ 64"
  shows "total (\<lambda>b. flex_ok b \<and> flex_data b = src \<and> fb_offset b = off \<and> fb_size b = len)
    (flex_buffer_from junk off src len)"
proof -
  have "unat (len + off) = unat len + unat off" using assms(2) by (simp add: unat_word_ariths)
  then show ?thesis using assms(1)
    by (auto simp: flex_buffer_from_def Let_def src_read_def blk_write_def flex_ok_def flex_data_def
        intro!: nth_equalityI)
qed

lemma flex_forward_spec:
  assumes "flex_ok b" and "n \<le> fb_size b"
  shows "total (\<lambda>(k, b'). k = n \<and> flex_ok b' \<and> flex_data b' = drop (unat n) (flex_data b) \<and>
      fb_offset b' = fb_offset b + n \<and> fb_size b' = fb_size b - n \<and> fb_capacity b' = fb_capacity b \<and>
      fb_buffer b' = fb_buffer b) (flex_buffer_forward_offset b n)"
proof -
  have n: "unat n \<le> unat (fb_size b)" using assms(2) by (simp add: word_le_nat_alt)
  then have o: "unat (fb_offset b + n) = unat (fb_offset b) + unat n"
    using assms(1) by (intro unat_add_le [where c = "fb_capacity b"]) (simp add: flex_ok_def)
  have s: "unat (fb_size b - n) = unat (fb_size b) - unat n" using assms(2) by (rule unat_sub_le)
  have "fb_offset b + n \<le> fb_capacity b" using assms(1) n by (simp add: word_le_nat_alt o flex_ok_def)
  then show ?thesis using assms(1) n
    by (auto simp: flex_buffer_forward_offset_def flex_ok_def flex_data_def o s drop_map)
qed

lemma flex_backward_spec:
  assumes "flex_ok b" and "n \<le> fb_offset b"
  shows "total (\<lambda>(k, b'). k = n \<and> flex_ok b' \<and> drop (unat n) (flex_data b') = flex_data b \<and>
      fb_offset b' = fb_offset b - n \<and> fb_size b' = fb_size b + n \<and> unat n \<le> unat (fb_size b') \<and>
      fb_capacity b' = fb_capacity b \<and> fb_buffer b' = fb_buffer b) (flex_buffer_backward_offset b n)"
proof -
  have n: "unat n \<le> unat (fb_offset b)" using assms(2) by (simp add: word_le_nat_alt)
  then have s: "unat (fb_size b + n) = unat (fb_size b) + unat n"
    using assms(1) by (intro unat_add_le [where c = "fb_capacity b"]) (simp add: flex_ok_def)
  have o: "unat (fb_offset b - n) = unat (fb_offset b) - unat n" using assms(2) by (rule unat_sub_le)
  show ?thesis using assms n
    by (auto simp: flex_buffer_backward_offset_def flex_ok_def flex_data_def o s drop_map)
qed


lemma flex_mutable_spec:
  assumes "flex_ok b" and "length bs \<le> unat (fb_size b)"
  shows "total (\<lambda>b'. flex_ok b' \<and> flex_data b' = bs @ drop (length bs) (flex_data b) \<and>
      fb_offset b' = fb_offset b \<and> fb_size b' = fb_size b \<and> fb_capacity b' = fb_capacity b)
    (flex_buffer_mutable_ptr b bs)"
  using assms
  by (auto simp: flex_buffer_mutable_ptr_def blk_write_def flex_ok_def flex_data_def nth_append
      intro!: nth_equalityI)

lemma flex_append_len_spec:
  assumes d: "flex_ok dest" and s: "flex_ok src" and n: "unat len \<le> unat (fb_size src)"
    and fit: "unat (fb_offset dest) + unat (fb_size dest) + unat len \<le> unat (fb_capacity dest)"
  shows "total (\<lambda>b. flex_ok b \<and> flex_data b = flex_data dest @ take (unat len) (flex_data src) \<and>
      fb_offset b = fb_offset dest \<and> fb_capacity b = fb_capacity dest) (flex_append_len dest src len)"
proof -
  have e: "unat (fb_offset dest + fb_size dest) = unat (fb_offset dest) + unat (fb_size dest)"
    by (rule flex_ok_no_wrap [OF d])
  have z: "unat (fb_size dest + len) = unat (fb_size dest) + unat len"
    using fit by (intro unat_add_le [where c = "fb_capacity dest"]) simp
  show ?thesis using d s n fit
    by (auto simp: flex_append_len_def blk_read_def blk_write_def e z flex_ok_def flex_data_def nth_append
        intro!: nth_equalityI)
qed

lemma flex_append2_spec:
  assumes "flex_ok dest" and "flex_ok src" and "unat n \<le> unat (fb_size src)"
  shows "total (\<lambda>b. flex_ok b \<and>
      flex_data b = flex_data dest @ take (min (unat n) (unat (flex_buffer_available dest))) (flex_data src) \<and>
      fb_offset b = fb_offset dest \<and> fb_capacity b = fb_capacity dest) (flex_buffer_append2 dest src n)"
proof -
  let ?a = "flex_buffer_available dest"
  let ?len = "if n < ?a then n else ?a"
  have l: "unat ?len = min (unat n) (unat ?a)" by (simp add: word_less_nat_alt min_def)
  have "total (\<lambda>b. flex_ok b \<and> flex_data b = flex_data dest @ take (unat ?len) (flex_data src) \<and>
      fb_offset b = fb_offset dest \<and> fb_capacity b = fb_capacity dest) (flex_append_len dest src ?len)"
    using assms l unat_available [OF assms(1)]
    by (intro flex_append_len_spec) (auto simp: flex_ok_def)
  moreover have "flex_buffer_append2 dest src n = flex_append_len dest src ?len"
    by (simp only: flex_buffer_append2_def flex_buffer_available_def Let_def)
  ultimately show ?thesis by (simp only: l)
qed

lemma append_append2: "flex_buffer_append dest src = flex_buffer_append2 dest src (fb_size src)"
  by (simp add: flex_buffer_append_def flex_buffer_append2_def)

text \<open>Prepending a header, and reading the whole payload.\<close>

lemma flex_prepend:
  assumes "flex_ok b" and "n \<le> fb_offset b" and "length hdr = unat n"
  shows "total (\<lambda>(k, b1). total (\<lambda>b2. flex_ok b2 \<and> flex_data b2 = hdr @ flex_data b \<and>
      fb_offset b2 = fb_offset b - n \<and> fb_size b2 = fb_size b + n \<and> unat n \<le> unat (fb_size b2) \<and>
      fb_capacity b2 = fb_capacity b)
    (flex_buffer_mutable_ptr b1 hdr)) (flex_buffer_backward_offset b n)"
proof -
  from flex_backward_spec [OF assms(1,2)] obtain k b1 where
    1: "flex_buffer_backward_offset b n = Inr (k, b1)" "flex_ok b1" "drop (unat n) (flex_data b1) = flex_data b"
      "fb_offset b1 = fb_offset b - n" "fb_size b1 = fb_size b + n" "unat n \<le> unat (fb_size b1)"
      "fb_capacity b1 = fb_capacity b"
    by (auto simp: total_def)
  from flex_mutable_spec [OF 1(2), of hdr] 1 assms(3) show ?thesis
    by (auto elim!: total_mono)
qed

lemma flex_ptr_data: "flex_ok b \<Longrightarrow> n \<le> unat (fb_size b) \<Longrightarrow> flex_buffer_ptr b n = Inr (take n (flex_data b))"
  by (simp add: flex_buffer_ptr_def blk_read_def flex_ok_def flex_data_def take_map)

lemma flex_ptr_all: "flex_ok b \<Longrightarrow> flex_buffer_ptr b (unat (flex_buffer_size b)) = Inr (flex_data b)"
  by (simp add: flex_ptr_data flex_buffer_size_def)

section \<open>Properties\<close>

text \<open>
  Headers: making room for a header of \<open>n\<close> bytes in front of the payload, writing it there
  and taking it off again gives back the payload, the offset and the size; none of the steps
  leaves the buffer. This is what a stream handler does on the way down and its peer on the way up.
\<close>

theorem flex_header_roundtrip:
  assumes "flex_ok b" and "n \<le> fb_offset b" and "length hdr = unat n"
  shows "\<exists>k b1 b2 b3 k'. flex_buffer_backward_offset b n = Inr (k, b1) \<and>
     flex_buffer_mutable_ptr b1 hdr = Inr b2 \<and> flex_data b2 = hdr @ flex_data b \<and>
     flex_buffer_forward_offset b2 n = Inr (k', b3) \<and> flex_data b3 = flex_data b \<and>
     fb_offset b3 = fb_offset b \<and> fb_size b3 = fb_size b \<and> flex_ok b3"
proof -
  from flex_prepend [OF assms] obtain k b1 b2 where
    1: "flex_buffer_backward_offset b n = Inr (k, b1)" and
    2: "flex_buffer_mutable_ptr b1 hdr = Inr b2" "flex_ok b2" "flex_data b2 = hdr @ flex_data b"
      "fb_offset b2 = fb_offset b - n" "fb_size b2 = fb_size b + n" "unat n \<le> unat (fb_size b2)"
    by (auto simp: total_def)
  from flex_forward_spec [OF 2(2), of n] 1 2 assms(3) show ?thesis
    by (auto simp: total_def word_le_nat_alt)
qed

text \<open>
  \<open>flex_buffer_append\<close> appends as much of the source's payload as fits and leaves the rest;
  both buffers stay within their capacity.
\<close>

theorem flex_append_appends:
  assumes "flex_ok dest" and "flex_ok src"
  shows "\<exists>b. flex_buffer_append dest src = Inr b \<and> flex_ok b \<and> fb_capacity b = fb_capacity dest \<and>
     flex_data b = flex_data dest @ take (unat (flex_buffer_available dest)) (flex_data src)"
  using flex_append2_spec [OF assms, of "fb_size src"]
  by (auto simp: append_append2 total_def min_def)

definition flex_example :: FlexBuffer where
  "flex_example = \<lparr> fb_capacity = 8, fb_offset = 3, fb_size = 2, fb_buffer = (\<lambda>i. of_nat i) \<rparr>"

theorem flex_header_roundtrip_witness:
  "\<exists>k b1 b2 b3 k'. flex_buffer_backward_offset flex_example 2 = Inr (k, b1) \<and>
     flex_buffer_mutable_ptr b1 [7, 9] = Inr b2 \<and> flex_data b2 = [7, 9] @ flex_data flex_example \<and>
     flex_buffer_forward_offset b2 2 = Inr (k', b3) \<and> flex_data b3 = flex_data flex_example \<and>
     fb_offset b3 = fb_offset flex_example \<and> fb_size b3 = fb_size flex_example \<and> flex_ok b3"
  by (rule flex_header_roundtrip) (simp_all add: flex_example_def flex_ok_def)

theorem flex_append_appends_witness:
  "\<exists>b. flex_buffer_append flex_example flex_example = Inr b \<and> flex_ok b \<and>
     fb_capacity b = fb_capacity flex_example \<and>
     flex_data b = flex_data flex_example @
       take (unat (flex_buffer_available flex_example)) (flex_data flex_example)"
  by (rule flex_append_appends) (simp_all add: flex_example_def flex_ok_def)

text \<open>
  \<open>flex_buffer_copy\<close> copies from the start of the source's memory to the start of the
  destination's, not from payload to payload: with a header in front of it, the payload
  of the copy is not that of the source.
\<close>

theorem flex_copy_ignores_offsets:
  "\<exists>b. flex_buffer_copy (flex_buffer_alloca (\<lambda>_. 0) 8 3) flex_example = Inr b \<and>
     flex_data flex_example = [3, 4] \<and> flex_data b = [0, 0]"
  by (simp add: flex_buffer_copy_def flex_buffer_alloca_def flex_example_def flex_data_def
      blk_read_def blk_write_def upt_rec)

end
