(* ===== verification/Ela.thy ===== *)
theory Ela
  imports Prelude
begin

text \<open>
  Public constants and types of the SDK, from \<open>src/carrier/ela_carrier.h\<close> and
  \<open>src/session/ela_session.h\<close>, and the error strings of \<open>src/carrier/ela_error.c\<close>.

  \<open>ELA_MK_ERROR\<close> is an expression of type \<open>unsigned int\<close>. Converted to \<open>ssize_t\<close> (64 bits) it keeps
  its value (\<open>ssize_of_unsigned\<close>); converted to \<open>int\<close> first, it is negative (\<open>ssize_of_int\<close>).

  \<open>ela_get_strerror\<close> writes into a buffer of the caller: every write is checked against the
  length that the caller passes.
\<close>

section \<open>Error codes\<close>

definition ELA_MK_ERROR :: "u32 \<Rightarrow> u32 \<Rightarrow> u32" where
  "ELA_MK_ERROR facility code = 0x80000000 OR push_bit 24 facility OR
     (drop_bit 8 (code AND 0x80000000) OR (code AND 0x7FFFFFFF))"

definition ELAF_GENERAL :: u32 where "ELAF_GENERAL = 0x01"
definition ELAF_SYS :: u32 where "ELAF_SYS = 0x02"
definition ELAF_RESERVED1 :: u32 where "ELAF_RESERVED1 = 0x03"
definition ELAF_RESERVED2 :: u32 where "ELAF_RESERVED2 = 0x04"
definition ELAF_ICE :: u32 where "ELAF_ICE = 0x05"
definition ELAF_DHT :: u32 where "ELAF_DHT = 0x06"

definition ELAERR_INVALID_ARGS :: u32 where "ELAERR_INVALID_ARGS = 0x01"
definition ELAERR_OUT_OF_MEMORY :: u32 where "ELAERR_OUT_OF_MEMORY = 0x02"
definition ELAERR_BUFFER_TOO_SMALL :: u32 where "ELAERR_BUFFER_TOO_SMALL = 0x03"
definition ELAERR_BAD_PERSISTENT_DATA :: u32 where "ELAERR_BAD_PERSISTENT_DATA = 0x04"
definition ELAERR_INVALID_PERSISTENCE_FILE :: u32 where "ELAERR_INVALID_PERSISTENCE_FILE = 0x05"
definition ELAERR_INVALID_CONTROL_PACKET :: u32 where "ELAERR_INVALID_CONTROL_PACKET = 0x06"
definition ELAERR_INVALID_CREDENTIAL :: u32 where "ELAERR_INVALID_CREDENTIAL = 0x07"
definition ELAERR_ALREADY_RUN :: u32 where "ELAERR_ALREADY_RUN = 0x08"
definition ELAERR_NOT_READY :: u32 where "ELAERR_NOT_READY = 0x09"
definition ELAERR_NOT_EXIST :: u32 where "ELAERR_NOT_EXIST = 0x0A"
definition ELAERR_ALREADY_EXIST :: u32 where "ELAERR_ALREADY_EXIST = 0x0B"
definition ELAERR_NO_MATCHED_REQUEST :: u32 where "ELAERR_NO_MATCHED_REQUEST = 0x0C"
definition ELAERR_INVALID_USERID :: u32 where "ELAERR_INVALID_USERID = 0x0D"
definition ELAERR_INVALID_NODEID :: u32 where "ELAERR_INVALID_NODEID = 0x0E"
definition ELAERR_WRONG_STATE :: u32 where "ELAERR_WRONG_STATE = 0x0F"
definition ELAERR_BUSY :: u32 where "ELAERR_BUSY = 0x10"
definition ELAERR_LANGUAGE_BINDING :: u32 where "ELAERR_LANGUAGE_BINDING = 0x11"
definition ELAERR_ENCRYPT :: u32 where "ELAERR_ENCRYPT = 0x12"
definition ELAERR_SDP_TOO_LONG :: u32 where "ELAERR_SDP_TOO_LONG = 0x13"
definition ELAERR_INVALID_SDP :: u32 where "ELAERR_INVALID_SDP = 0x14"
definition ELAERR_NOT_IMPLEMENTED :: u32 where "ELAERR_NOT_IMPLEMENTED = 0x15"
definition ELAERR_LIMIT_EXCEEDED :: u32 where "ELAERR_LIMIT_EXCEEDED = 0x16"
definition ELAERR_PORT_ALLOC :: u32 where "ELAERR_PORT_ALLOC = 0x17"
definition ELAERR_BAD_PROXY_TYPE :: u32 where "ELAERR_BAD_PROXY_TYPE = 0x18"
definition ELAERR_BAD_PROXY_HOST :: u32 where "ELAERR_BAD_PROXY_HOST = 0x19"
definition ELAERR_BAD_PROXY_PORT :: u32 where "ELAERR_BAD_PROXY_PORT = 0x1A"
definition ELAERR_PROXY_NOT_AVAILABLE :: u32 where "ELAERR_PROXY_NOT_AVAILABLE = 0x1B"
definition ELAERR_ENCRYPTED_PERSISTENT_DATA :: u32 where "ELAERR_ENCRYPTED_PERSISTENT_DATA = 0x1C"
definition ELAERR_BAD_BOOTSTRAP_HOST :: u32 where "ELAERR_BAD_BOOTSTRAP_HOST = 0x1D"
definition ELAERR_BAD_BOOTSTRAP_PORT :: u32 where "ELAERR_BAD_BOOTSTRAP_PORT = 0x1E"
definition ELAERR_TOO_LONG :: u32 where "ELAERR_TOO_LONG = 0x1F"
definition ELAERR_ADD_SELF :: u32 where "ELAERR_ADD_SELF = 0x20"
definition ELAERR_BAD_ADDRESS :: u32 where "ELAERR_BAD_ADDRESS = 0x21"
definition ELAERR_FRIEND_OFFLINE :: u32 where "ELAERR_FRIEND_OFFLINE = 0x22"
definition ELAERR_UNKNOWN :: u32 where "ELAERR_UNKNOWN = 0xFF"

lemmas ela_codes = ELAF_GENERAL_def ELAF_SYS_def ELAF_RESERVED1_def ELAF_RESERVED2_def ELAF_ICE_def ELAF_DHT_def
  ELAERR_INVALID_ARGS_def ELAERR_OUT_OF_MEMORY_def ELAERR_BUFFER_TOO_SMALL_def ELAERR_BAD_PERSISTENT_DATA_def
  ELAERR_INVALID_PERSISTENCE_FILE_def ELAERR_INVALID_CONTROL_PACKET_def ELAERR_INVALID_CREDENTIAL_def ELAERR_ALREADY_RUN_def
  ELAERR_NOT_READY_def ELAERR_NOT_EXIST_def ELAERR_ALREADY_EXIST_def ELAERR_NO_MATCHED_REQUEST_def
  ELAERR_INVALID_USERID_def ELAERR_INVALID_NODEID_def ELAERR_WRONG_STATE_def ELAERR_BUSY_def
  ELAERR_LANGUAGE_BINDING_def ELAERR_ENCRYPT_def ELAERR_SDP_TOO_LONG_def ELAERR_INVALID_SDP_def
  ELAERR_NOT_IMPLEMENTED_def ELAERR_LIMIT_EXCEEDED_def ELAERR_PORT_ALLOC_def ELAERR_BAD_PROXY_TYPE_def
  ELAERR_BAD_PROXY_HOST_def ELAERR_BAD_PROXY_PORT_def ELAERR_PROXY_NOT_AVAILABLE_def ELAERR_ENCRYPTED_PERSISTENT_DATA_def
  ELAERR_BAD_BOOTSTRAP_HOST_def ELAERR_BAD_BOOTSTRAP_PORT_def ELAERR_TOO_LONG_def ELAERR_ADD_SELF_def
  ELAERR_BAD_ADDRESS_def ELAERR_FRIEND_OFFLINE_def ELAERR_UNKNOWN_def

definition ELA_GENERAL_ERROR :: "u32 \<Rightarrow> u32" where "ELA_GENERAL_ERROR code = ELA_MK_ERROR ELAF_GENERAL code"
definition ELA_SYS_ERROR :: "u32 \<Rightarrow> u32" where "ELA_SYS_ERROR code = ELA_MK_ERROR ELAF_SYS code"
definition ELA_ICE_ERROR :: "u32 \<Rightarrow> u32" where "ELA_ICE_ERROR code = ELA_MK_ERROR ELAF_ICE code"
definition ELA_DHT_ERROR :: "u32 \<Rightarrow> u32" where "ELA_DHT_ERROR code = ELA_MK_ERROR ELAF_DHT code"

definition ssize_of_unsigned :: "u32 \<Rightarrow> int" where "ssize_of_unsigned w = uint w"
definition ssize_of_int :: "u32 \<Rightarrow> int" where "ssize_of_int w = sint w"

section \<open>Types of the session interface\<close>

datatype ElaStreamState =
    ElaStreamState_initialized | ElaStreamState_transport_ready | ElaStreamState_connecting
  | ElaStreamState_connected | ElaStreamState_deactivated | ElaStreamState_closed | ElaStreamState_failed

datatype CloseReason = CloseReason_Normal | CloseReason_Timeout | CloseReason_Error

section \<open>Error strings\<close>

text \<open>The table \<open>error_codes\<close>.\<close>

definition error_codes :: "(u32 \<times> string) list" where
  "error_codes = [
    (ELAERR_INVALID_ARGS, ''Invalid argument(s)''),
    (ELAERR_OUT_OF_MEMORY, ''Out of memory''),
    (ELAERR_BUFFER_TOO_SMALL, ''Too small buffer size''),
    (ELAERR_BAD_PERSISTENT_DATA, ''Bad persistent data''),
    (ELAERR_INVALID_PERSISTENCE_FILE, ''Invalid persistent file''),
    (ELAERR_INVALID_CONTROL_PACKET, ''Invalid control packet''),
    (ELAERR_INVALID_CREDENTIAL, ''Invalid credential''),
    (ELAERR_ALREADY_RUN, ''Carrier is already being running''),
    (ELAERR_NOT_READY, ''Carrier is not ready''),
    (ELAERR_NOT_EXIST, ''Friend does not exist''),
    (ELAERR_ALREADY_EXIST, ''Friend already exists''),
    (ELAERR_NO_MATCHED_REQUEST, ''Unmatched request''),
    (ELAERR_INVALID_USERID, ''Invalid carrier userid''),
    (ELAERR_INVALID_NODEID, ''Invalid carrier nodeid''),
    (ELAERR_WRONG_STATE, ''Being in wrong state''),
    (ELAERR_BUSY, ''Instance is being busy''),
    (ELAERR_LANGUAGE_BINDING, ''Language binding error''),
    (ELAERR_ENCRYPT, ''Encrypt error''),
    (ELAERR_SDP_TOO_LONG, ''SDP is too long''),
    (ELAERR_INVALID_SDP, ''Invalid SDP''),
    (ELAERR_NOT_IMPLEMENTED, ''Not implemented yet''),
    (ELAERR_LIMIT_EXCEEDED, ''Exceeding the limit''),
    (ELAERR_PORT_ALLOC, ''Allocate port error''),
    (ELAERR_BAD_PROXY_TYPE, ''Bad proxy type''),
    (ELAERR_BAD_PROXY_HOST, ''Bad proxy host''),
    (ELAERR_BAD_PROXY_PORT, ''Bad proxy port''),
    (ELAERR_PROXY_NOT_AVAILABLE, ''No proxy available''),
    (ELAERR_ENCRYPTED_PERSISTENT_DATA, ''Load encrypted persistent data error''),
    (ELAERR_BAD_BOOTSTRAP_HOST, ''Bad bootstrap host''),
    (ELAERR_BAD_BOOTSTRAP_PORT, ''Bad bootstrap port''),
    (ELAERR_TOO_LONG, ''Data content too long''),
    (ELAERR_ADD_SELF, ''Try add myself as friend''),
    (ELAERR_BAD_ADDRESS, ''Bad carrier node address''),
    (ELAERR_FRIEND_OFFLINE, ''Friend is being offline''),
    (ELAERR_UNKNOWN, ''Unknown error'')]"

text \<open>
  A \<open>strerror_t\<close> gets the error number, the memory it writes to (a block with its size), the
  position of its pointer and the length it may use; it returns a status and the memory.
\<close>

type_synonym strerror_t = "u32 \<Rightarrow> (nat \<Rightarrow> byte) \<Rightarrow> nat \<Rightarrow> nat \<Rightarrow> nat \<Rightarrow> (int \<times> (nat \<Rightarrow> byte)) res"

definition cstring :: "string \<Rightarrow> byte list" where
  "cstring str = map of_char str @ [0]"

definition strcpy :: "(nat \<Rightarrow> byte) \<Rightarrow> nat \<Rightarrow> nat \<Rightarrow> string \<Rightarrow> (nat \<Rightarrow> byte) res" where
  "strcpy mem sz pos str = blk_write mem sz pos (cstring str)"

definition general_error :: strerror_t where
  "general_error errcode mem sz pos len =
     (case find (\<lambda>(c, _). errcode = c) error_codes of
        None \<Rightarrow> Inr (sint (ELA_GENERAL_ERROR ELAERR_INVALID_ARGS), mem)
      | Some (_, d) \<Rightarrow>
          if len \<le> length d then Inr (sint (ELA_GENERAL_ERROR ELAERR_INVALID_ARGS), mem)
          else bindr (strcpy mem sz pos d) (\<lambda>mem. Inr (0, mem)))"

definition dht_error :: strerror_t where
  "dht_error errcode mem sz pos len =
     (case find (\<lambda>(c, _). errcode = c) error_codes of
        None \<Rightarrow> Inr (sint (ELA_GENERAL_ERROR ELAERR_INVALID_ARGS), mem)
      | Some (_, d) \<Rightarrow>
          if len \<le> length d then Inr (sint (ELA_GENERAL_ERROR ELAERR_INVALID_ARGS), mem)
          else bindr (strcpy mem sz pos d) (\<lambda>mem. Inr (0, mem)))"

text \<open>\<open>strerror_r\<close> of the C library is a parameter.\<close>

definition system_error :: "strerror_t \<Rightarrow> strerror_t" where
  "system_error strerror_r errcode mem sz pos len =
     bindr (strerror_r errcode mem sz pos len) (\<lambda>(rc, mem).
     if rc < 0 then Inr (sint (ELA_SYS_ERROR ELAERR_INVALID_ARGS), mem) else Inr (0, mem))"

text \<open>The error number of the thread and the table \<open>facility_codes\<close>.\<close>

record err_state =
  ela_error :: u32
  facility_codes :: "(string \<times> strerror_t option) list"

definition ELASUCCESS :: u32 where "ELASUCCESS = 0"

definition ela_get_error :: "err_state \<Rightarrow> u32" where "ela_get_error st = ela_error st"
definition ela_clear_error :: "err_state \<Rightarrow> err_state" where "ela_clear_error st = st\<lparr> ela_error := ELASUCCESS \<rparr>"
definition ela_set_error :: "err_state \<Rightarrow> u32 \<Rightarrow> err_state" where "ela_set_error st err = st\<lparr> ela_error := err \<rparr>"

definition err_state_init :: "strerror_t \<Rightarrow> err_state" where
  "err_state_init strerror_r = \<lparr> ela_error = 0, facility_codes = [
     (''[General] '', Some general_error),
     (''[System] '', Some (system_error strerror_r)),
     (''Reserved facility'', None),
     (''Reserved facility'', None),
     (''[ICE] '', None),
     (''[DHT] '', Some dht_error)] \<rparr>"

text \<open>
  \<open>buf\<close> is \<open>None\<close> for NULL, otherwise the memory and its size; the first result is false when the
  function returns NULL.
\<close>

definition ela_get_strerror ::
    "err_state \<Rightarrow> u32 \<Rightarrow> ((nat \<Rightarrow> byte) \<times> nat) option \<Rightarrow> nat \<Rightarrow> (bool \<times> (nat \<Rightarrow> byte) \<times> err_state) res" where
  "ela_get_strerror st err buf len =
     (let negative = (err AND 0x80000000 \<noteq> 0);
          facility = unat (drop_bit 24 err AND 0x0F);
          errcode = err AND 0x00FFFFFF in
      case buf of
        None \<Rightarrow> Inr (False, (\<lambda>_. 0), ela_set_error st (ELA_GENERAL_ERROR ELAERR_INVALID_ARGS))
      | Some (mem, sz) \<Rightarrow>
          if \<not> negative \<or> facility \<le> 0 \<or> facility > length (facility_codes st) then
            Inr (False, mem, ela_set_error st (ELA_GENERAL_ERROR ELAERR_INVALID_ARGS))
          else
            (let (desc, errstring) = facility_codes st ! (facility - 1) in
             if len < length desc then
               Inr (False, mem, ela_set_error st (ELA_GENERAL_ERROR ELAERR_BUFFER_TOO_SMALL))
             else
               bindr (strcpy mem sz 0 desc) (\<lambda>mem.
               bindr (case errstring of None \<Rightarrow> Inr (0, mem)
                      | Some f \<Rightarrow> f errcode mem sz (length desc) (len - length desc)) (\<lambda>(rc, mem).
               if rc < 0 then Inr (False, mem, ela_set_error st (of_int rc)) else Inr (True, mem, st)))))"

definition ela_register_strerror :: "err_state \<Rightarrow> int \<Rightarrow> strerror_t \<Rightarrow> int \<times> err_state" where
  "ela_register_strerror st facility user_strerr =
     (if facility \<le> 0 \<or> facility > uint ELAF_DHT then
        (-1, ela_set_error st (ELA_GENERAL_ERROR ELAERR_INVALID_ARGS))
      else
        (let i = nat (facility - 1); (desc, errstring) = facility_codes st ! i in
         (0, case errstring of
               None \<Rightarrow> st\<lparr> facility_codes := (facility_codes st)[i := (desc, Some user_strerr)] \<rparr>
             | Some _ \<Rightarrow> st)))"

section \<open>Properties\<close>

definition buffer_holds :: "(nat \<Rightarrow> byte) \<Rightarrow> string \<Rightarrow> bool" where
  "buffer_holds mem str \<longleftrightarrow> map mem [0..<length str + 1] = cstring str"

lemma buffer_holdsI: "(\<And>i. i \<le> length str \<Longrightarrow> mem i = cstring str ! i) \<Longrightarrow> buffer_holds mem str"
  by (auto simp: buffer_holds_def cstring_def nth_append intro!: nth_equalityI simp del: upt_Suc)

lemma error_codes_distinct: "distinct (map fst error_codes)"
  by (simp add: error_codes_def ela_codes)

lemma error_codes_small: "(code, d) \<in> set error_codes \<Longrightarrow> code AND 0x00FFFFFF = code \<and> code AND 0x7F000000 = 0 \<and> code AND 0x80000000 = 0"
  by (auto simp: error_codes_def ela_codes)

lemma find_distinct_fst:
  "distinct (map fst xs) \<Longrightarrow> (c, d) \<in> set xs \<Longrightarrow> find (\<lambda>(c', _). c = c') xs = Some (c, d)"
  by (induction xs) (auto simp: image_iff)

lemma strcpy_spec:
  "pos + length str < sz \<Longrightarrow> strcpy mem sz pos str =
     Inr (\<lambda>i. if pos \<le> i \<and> i \<le> pos + length str then cstring str ! (i - pos) else mem i)"
  by (auto simp: strcpy_def blk_write_def cstring_def)

lemma buffer_holds_append:
  "buffer_holds (\<lambda>i. if length a \<le> i \<and> i \<le> length a + length d then cstring d ! (i - length a)
     else if i \<le> length a then cstring a ! i else mem i) (a @ d)"
  by (rule buffer_holdsI) (auto simp: cstring_def nth_append)

lemma general_error_fields:
  assumes "(code, d) \<in> set error_codes"
  shows "ELA_GENERAL_ERROR code AND 0x80000000 \<noteq> 0" "unat (drop_bit 24 (ELA_GENERAL_ERROR code) AND 0x0F) = 1"
    "ELA_GENERAL_ERROR code AND 0x00FFFFFF = code"
  using assms by (auto simp: error_codes_def ela_codes ELA_GENERAL_ERROR_def ELA_MK_ERROR_def)

text \<open>
  The text of a general error: for every error code in the table, \<open>ela_get_strerror\<close> of the
  number made by \<open>ELA_GENERAL_ERROR\<close> decodes facility and code again and leaves the facility's
  and the code's description, as one C string, in any buffer that can hold them.
\<close>

theorem strerror_general:
  assumes "(code, d) \<in> set error_codes" and "len > 10 + length d"
  shows "\<exists>mem'. ela_get_strerror (err_state_init r) (ELA_GENERAL_ERROR code) (Some (mem, len)) len =
      Inr (True, mem', err_state_init r) \<and> buffer_holds mem' (''[General] '' @ d)"
proof -
  note f = general_error_fields [OF assms(1)]
  note find = find_distinct_fst [OF error_codes_distinct assms(1)]
  have desc: "facility_codes (err_state_init r) ! 0 = (''[General] '', Some general_error)"
    "length (facility_codes (err_state_init r)) = 6"
    by (simp_all add: err_state_init_def)
  have ten: "length ''[General] '' = 10" by simp
  define m1 where "m1 = (\<lambda>i. if i \<le> 10 then cstring ''[General] '' ! i else mem i)"
  define m2 where "m2 = (\<lambda>i. if 10 \<le> i \<and> i \<le> 10 + length d then cstring d ! (i - 10) else m1 i)"
  have 1: "strcpy mem len 0 ''[General] '' = Inr m1"
    using assms(2) by (subst strcpy_spec) (auto simp: m1_def)
  have 2: "strcpy m1 len 10 d = Inr m2"
    using assms(2) by (subst strcpy_spec) (auto simp: m2_def)
  have g: "general_error code m1 len 10 (len - 10) = Inr (0, m2)"
    using assms(2) by (auto simp: general_error_def find 2)
  have "buffer_holds m2 (''[General] '' @ d)"
    using buffer_holds_append [of "''[General] ''" d mem] unfolding ten m1_def m2_def .
  moreover have "ela_get_strerror (err_state_init r) (ELA_GENERAL_ERROR code) (Some (mem, len)) len =
      Inr (True, m2, err_state_init r)"
    using assms(2) by (simp add: ela_get_strerror_def Let_def f desc 1 g ten del: list.size)
  ultimately show ?thesis by blast
qed

theorem strerror_general_witness:
  "\<exists>mem'. ela_get_strerror (err_state_init (\<lambda>_ mem _ _ _. Inr (0, mem)))
      (ELA_GENERAL_ERROR ELAERR_BUSY) (Some ((\<lambda>_. 0), 64)) 64 =
      Inr (True, mem', err_state_init (\<lambda>_ mem _ _ _. Inr (0, mem))) \<and>
    buffer_holds mem' (''[General] '' @ ''Instance is being busy'')"
  by (rule strerror_general) (simp_all add: error_codes_def)

text \<open>
  A buffer exactly as long as the facility's description is accepted, and the terminating
  zero of the description is written one byte past its end.
\<close>

theorem strerror_writes_past_buffer:
  "ela_get_strerror (err_state_init r) (ELA_GENERAL_ERROR ELAERR_BUSY) (Some (mem, 10)) 10 = Inl OutOfBounds"
  by (simp add: ela_get_strerror_def Let_def ELA_GENERAL_ERROR_def ELA_MK_ERROR_def ela_codes err_state_init_def
      strcpy_def blk_write_def cstring_def)

end
