(* ===== verification/Reliable.thy ===== *)
theory Reliable
  imports PTcp_Stream FlexBuffer Ela
begin

text \<open>
  The reliable stream handler, \<open>src/session/reliable_handler.c\<close>: it owns a pseudo-TCP socket,
  installs the callbacks of the socket and moves data between its neighbours and the socket.

  The neighbours are other components or the user: \<open>next_write\<close> is the \<open>write\<close> function of the
  next handler, \<open>stream_state\<close> the state of the stream (both may depend on everything that
  happened, which the socket's trace records). The upper neighbour calls back into the handler
  from \<open>on_data\<close> and from \<open>on_state_changed\<close> when the socket opens: \<open>data_calls\<close> and
  \<open>opened_calls\<close> give its next call, a write or a stop, from the state and the results of its
  calls so far. A write from a callback that waits for room in the send buffer, and an upper
  neighbour that goes on calling for ever, do not return; \<open>patience\<close> bounds both loops.

  The environment \<open>rh_env\<close> of the socket is the interpretation of the locale \<open>tcp_invariant\<close>; the
  theorems at the end hold for sockets used through this handler.
\<close>

section \<open>The callbacks of the socket\<close>

datatype up_call = UpWrite "byte list" | UpStop

record neighbours =
  stream_state :: "psock \<Rightarrow> ElaStreamState"
  next_write :: "psock \<Rightarrow> byte list \<Rightarrow> int"
  clock_ms :: "psock \<Rightarrow> u32"
  fresh_memory :: "nat \<Rightarrow> byte"
  data_calls :: "psock \<Rightarrow> byte list \<Rightarrow> int list \<Rightarrow> up_call option"
  opened_calls :: "psock \<Rightarrow> int list \<Rightarrow> up_call option"
  patience :: nat
  errno_code :: "errno \<Rightarrow> u32"

definition pseudo_tcp_socket_write_packet :: "neighbours \<Rightarrow> psock \<Rightarrow> byte list \<Rightarrow> PseudoTcpWriteResult" where
  "pseudo_tcp_socket_write_packet nb s pkt =
     (if stream_state nb s = ElaStreamState_connected \<or> stream_state nb s = ElaStreamState_connecting then
        (let rc = next_write nb s pkt in
         if rc > 0 \<or> rc = ssize_of_unsigned (ELA_GENERAL_ERROR ELAERR_BUSY) then WR_SUCCESS else WR_FAIL)
      else WR_FAIL)"

text \<open>\<open>sock_closed\<close> is set by the closed callback.\<close>

definition sock_closed :: "psock \<Rightarrow> bool" where
  "sock_closed s = (\<exists>e \<in> set (trace s). case e of EvClosed _ \<Rightarrow> True | _ \<Rightarrow> False)"

text \<open>
  The callbacks \<open>writable\<close> and \<open>closed\<close> do not touch the socket (\<open>closed\<close> stops the handler, which
  leaves a closed socket alone, and then the next handler, which ends the stream, so that writes
  are refused from then on); their calls are in the trace. \<open>rh_env0\<close> is the environment of the
  calls made from a callback: sending, receiving, closing and the clock use neither \<open>opened\<close> nor
  \<open>readable\<close>.
\<close>

definition rh_env0 :: "neighbours \<Rightarrow> tcp_env" where
  "rh_env0 nb = \<lparr> WritePacket = pseudo_tcp_socket_write_packet nb, PseudoTcpOpened = Some Inr,
     PseudoTcpReadable = None, PseudoTcpWritable = Some Inr, PseudoTcpClosed = Some (\<lambda>s _. Inr s),
     monotonic_ms = clock_ms nb, junk = fresh_memory nb \<rparr>"

text \<open>
  The socket after \<open>reliable_handler_stop\<close>, and after \<open>reliable_handler_adjust_clock\<close>, whose first
  result is the new time-out when it changed. The socket does not depend on \<open>last_timeout\<close>.
\<close>

definition reliable_handler_stop :: "tcp_env \<Rightarrow> psock \<Rightarrow> psock res" where
  "reliable_handler_stop env s =
     (if \<not> sock_closed s \<and> \<not> pseudo_tcp_socket_is_closed s then pseudo_tcp_socket_close env s True else Inr s)"

definition adjust_clock :: "tcp_env \<Rightarrow> psock \<Rightarrow> u64 \<Rightarrow> (u64 option \<times> psock) res" where
  "adjust_clock env s last_timeout =
     (if pseudo_tcp_socket_is_closed s then Inr (None, s)
      else
        bindr (pseudo_tcp_socket_get_next_clock env s last_timeout) (\<lambda>(b, timeout, s).
        if b then Inr (if timeout \<noteq> last_timeout then Some timeout else None, s)
        else bindr (reliable_handler_stop env s) (\<lambda>s. Inr (None, s))))"

text \<open>
  Writing: the loop sends until all bytes are taken, and waits when the send buffer is full.
  The error codes are unsigned numbers converted to \<open>ssize_t\<close>.
\<close>

fun write_loop :: "nat \<Rightarrow> neighbours \<Rightarrow> tcp_env \<Rightarrow> psock \<Rightarrow> byte list \<Rightarrow> nat \<Rightarrow> (int \<times> psock) res" where
  "write_loop 0 nb env s bs len = Inl Diverges"
| "write_loop (Suc fuel) nb env s bs len =
     (if bs = [] then Inr (int len, s)
      else
        bindr (pseudo_tcp_socket_send env s bs (of_nat (length bs))) (\<lambda>(sent, s).
        bindr (adjust_clock env s 0) (\<lambda>(_, s).
        if sent < 0 then
          (if error s \<noteq> EWOULDBLOCK then
             bindr (reliable_handler_stop env s) (\<lambda>s'.
             Inr (ssize_of_unsigned (ELA_SYS_ERROR (errno_code nb (error s))), s'))
           else
             bindr (adjust_clock env s 0) (\<lambda>(_, s). write_loop fuel nb env s bs len))
        else write_loop fuel nb env s (drop (nat sent) bs) len)))"

definition reliable_handler_write :: "neighbours \<Rightarrow> tcp_env \<Rightarrow> psock \<Rightarrow> byte list \<Rightarrow> (int \<times> psock) res" where
  "reliable_handler_write nb env s bs =
     (if stream_state nb s \<noteq> ElaStreamState_connected then
        Inr (ssize_of_unsigned (ELA_GENERAL_ERROR ELAERR_WRONG_STATE), s)
      else write_loop (patience nb) nb env s bs (length bs))"

text \<open>What the upper neighbour does in a callback.\<close>

fun upper_call :: "neighbours \<Rightarrow> tcp_env \<Rightarrow> psock \<Rightarrow> up_call \<Rightarrow> (int \<times> psock) res" where
  "upper_call nb env s (UpWrite bs) = reliable_handler_write nb env s bs"
| "upper_call nb env s UpStop = bindr (reliable_handler_stop env s) (\<lambda>s. Inr (0, s))"

fun upper_calls :: "nat \<Rightarrow> neighbours \<Rightarrow> tcp_env \<Rightarrow> (psock \<Rightarrow> int list \<Rightarrow> up_call option) \<Rightarrow>
    psock \<Rightarrow> int list \<Rightarrow> psock res" where
  "upper_calls 0 nb env f s rs = Inl Diverges"
| "upper_calls (Suc fuel) nb env f s rs = (case f s rs of None \<Rightarrow> Inr s
     | Some c \<Rightarrow> bindr (upper_call nb env s c) (\<lambda>(r, s). upper_calls fuel nb env f s (rs @ [r])))"

definition pseudo_tcp_socket_opened :: "neighbours \<Rightarrow> tcp_env \<Rightarrow> psock \<Rightarrow> psock res" where
  "pseudo_tcp_socket_opened nb env s = upper_calls (patience nb) nb env (opened_calls nb) s []"

text \<open>
  The loop of the readable callback; \<open>flex_buffer_available\<close> of its buffer is the size of a read.
  Each turn that goes on takes at least one byte out of the receive buffer, and the calls of
  the upper neighbour put none into it, which bounds the number of turns.
\<close>

definition RX_CHUNK :: nat where
  "RX_CHUNK = unat (flex_buffer_available (flex_buffer_alloca (\<lambda>_. 0) FLEX_BUFFER_MAX_LEN FLEX_PADDING_LEN))"

fun readable_loop :: "nat \<Rightarrow> neighbours \<Rightarrow> tcp_env \<Rightarrow> psock \<Rightarrow> psock res" where
  "readable_loop 0 nb env s = Inl Diverges"
| "readable_loop (Suc fuel) nb env s =
     bindr (pseudo_tcp_socket_recv env s RX_CHUNK) (\<lambda>(len, bs, s).
     if len = 0 then
       bindr (pseudo_tcp_socket_close env s False) (\<lambda>s.
       bindr (adjust_clock env s 0) (\<lambda>(_, s). Inr s))
     else if len < 0 then
       bindr (if error s \<noteq> EWOULDBLOCK then reliable_handler_stop env s else Inr s) (\<lambda>s.
       bindr (adjust_clock env s 0) (\<lambda>(_, s). Inr s))
     else
       bindr (upper_calls (patience nb) nb env (\<lambda>s. data_calls nb s bs) s []) (\<lambda>s.
       if pseudo_tcp_socket_is_closed s then Inr s
       else readable_loop fuel nb env s))"

definition pseudo_tcp_socket_readable :: "neighbours \<Rightarrow> tcp_env \<Rightarrow> psock \<Rightarrow> psock res" where
  "pseudo_tcp_socket_readable nb env s = readable_loop (Suc (data_length (rbuf s))) nb env s"

definition rh_env :: "neighbours \<Rightarrow> tcp_env" where
  "rh_env nb = (rh_env0 nb)\<lparr> PseudoTcpOpened := Some (pseudo_tcp_socket_opened nb (rh_env0 nb)),
     PseudoTcpReadable := Some (pseudo_tcp_socket_readable nb (rh_env0 nb)) \<rparr>"

section \<open>Invariants of sockets used through the handler\<close>

lemma rh_env_callbacks [simp]:
  "call_cb (PseudoTcpOpened (rh_env nb)) e s = pseudo_tcp_socket_opened nb (rh_env0 nb) (log_event s e)"
  "call_cb (PseudoTcpWritable (rh_env nb)) e s = Inr (log_event s e)"
  "call_cb (map_option (\<lambda>f s. f s err) (PseudoTcpClosed (rh_env nb))) e s = Inr (log_event s e)"
  "call_cb (map_option (\<lambda>f s. f s err) (PseudoTcpClosed (rh_env0 nb))) e s = Inr (log_event s e)"
  "call_cb (PseudoTcpReadable (rh_env nb)) e s = pseudo_tcp_socket_readable nb (rh_env0 nb) (log_event s e)"
  by (simp_all add: rh_env_def rh_env0_def call_cb_def)

context tcp_output
begin

lemma handler_stop_post: "P s \<Longrightarrow> (\<And>s'. P s' \<Longrightarrow> R s') \<Longrightarrow> post R (reliable_handler_stop env s)"
  unfolding reliable_handler_stop_def by (auto intro!: close_post)

lemma adjust_clock_post: "P s \<Longrightarrow> (\<And>r s'. P s' \<Longrightarrow> R (r, s')) \<Longrightarrow> post R (adjust_clock env s t)"
  unfolding adjust_clock_def by (auto intro!: get_next_clock_post handler_stop_post)

lemma write_loop_post: "P s \<Longrightarrow> (\<And>r s'. P s' \<Longrightarrow> R (r, s')) \<Longrightarrow> post R (write_loop fuel nb env s bs len)"
proof (induction fuel arbitrary: s bs)
  case (Suc fuel)
  then show ?case
    by (auto intro!: send_post handler_stop_post adjust_clock_post)
qed simp

lemma upper_call_post: "P s \<Longrightarrow> (\<And>r s'. P s' \<Longrightarrow> R (r, s')) \<Longrightarrow> post R (upper_call nb env s c)"
  by (cases c) (auto simp: reliable_handler_write_def intro!: write_loop_post handler_stop_post)

lemma upper_calls_post: "P s \<Longrightarrow> (\<And>s'. P s' \<Longrightarrow> R s') \<Longrightarrow> post R (upper_calls fuel nb env f s rs)"
proof (induction fuel arbitrary: s rs)
  case (Suc fuel)
  then show ?case by (auto split: option.split intro!: upper_call_post)
qed simp

lemma readable_loop_post: "P s \<Longrightarrow> post P (readable_loop fuel nb env s)"
proof (induction fuel arbitrary: s)
  case (Suc fuel)
  then show ?case
    by (auto intro!: recv_post close_post handler_stop_post adjust_clock_post upper_calls_post)
qed simp

lemma readable_P: "P s \<Longrightarrow> pseudo_tcp_socket_readable nb env s = Inr s' \<Longrightarrow> P s'"
  unfolding pseudo_tcp_socket_readable_def using readable_loop_post [THEN postD] by blast

lemma opened_P: "P s \<Longrightarrow> pseudo_tcp_socket_opened nb env s = Inr s' \<Longrightarrow> P s'"
  unfolding pseudo_tcp_socket_opened_def using upper_calls_post [of s P, THEN postD] by blast

end

text \<open>The retransmission time-out.\<close>

lemma rto_ok_backoff:
  "rto_ok s \<Longrightarrow> v = min lim (rx_rto s * 2) \<Longrightarrow> lim = DEF_RTO \<or> lim = MAX_RTO \<Longrightarrow> rto_ok (s\<lparr> rx_rto := v \<rparr>)"
  using rto_backoff [of s lim] by (auto simp: rto_ok_def)

lemma rto_ok_simps [simp]:
  "rto_ok (log_event s e) = rto_ok s" "rto_ok (s\<lparr> state := a \<rparr>) = rto_ok s" "rto_ok (s\<lparr> sbuf := b \<rparr>) = rto_ok s"
  "rto_ok (s\<lparr> rbuf := b \<rparr>) = rto_ok s" "rto_ok (s\<lparr> rcv_fin := c \<rparr>) = rto_ok s" "rto_ok (s\<lparr> rcv_nxt := c \<rparr>) = rto_ok s"
  "rto_ok (s\<lparr> snd_una := c \<rparr>) = rto_ok s"
  by (simp_all add: rto_ok_def log_event_def)

lemma rto_ok_packet: "rto_ok s \<Longrightarrow> packet env s seq flags offset len now = Inr (w, s') \<Longrightarrow> rto_ok s'"
  using packet_core [of env s seq flags offset len now w s'] by (simp add: rto_ok_def)

lemma process_data_frame:
  assumes "process_data s seg fl = Inr (r, s')"
  shows "rx_rto s' = rx_rto s \<and> state s' = state s \<and> sbuf s' = sbuf s \<and> snd_una s' = snd_una s \<and> trace s' = trace s"
  using assms by (auto simp: process_data_def Let_def split: if_splits prod.splits)

lemma rto_ok_core: "rto_ok s \<Longrightarrow> core s = core s' \<Longrightarrow> rto_ok s'"
  by (simp add: rto_ok_def core_def)

lemma rto_ok_set: "rto_ok s \<Longrightarrow> MIN_RTO \<le> v \<Longrightarrow> v \<le> MAX_RTO \<Longrightarrow> rto_ok (s\<lparr> rx_rto := v \<rparr>)"
  by (simp add: rto_ok_def)

interpretation rto0: tcp_output "rh_env0 nb" rto_ok
  by unfold_locales
    (fact rto_ok_core rto_ok_backoff | erule (1) rto_ok_packet | (auto) [1])+

interpretation rto: tcp_invariant "rh_env nb" rto_ok "\<lambda>_. True"
proof unfold_locales
  show "rto_ok s'" if "rto_ok s" "call_cb (PseudoTcpReadable (rh_env nb)) EvReadable s = Inr s'" for s s'
    using that rto0.readable_P [of "log_event s EvReadable" nb nb] by simp
  show "rto_ok s'" if "rto_ok s" "call_cb (PseudoTcpOpened (rh_env nb)) EvOpened s = Inr s'" for s s'
    using that rto0.opened_P [of "log_event s EvOpened" nb nb] by simp
  show "rto_ok s'" if "rto_ok s" "process_data s seg fl = Inr (r, s')" for s seg fl r s'
    using that process_data_frame [OF that(2)] by (simp add: rto_ok_def)
  show "rto_ok s'" if "rto_ok s" "parse_options (rh_env nb) s data c = Inr s'" for s data c s'
    using that parse_options_frame [OF that(2)] by (simp add: rto_ok_def)
qed (fact rto_ok_core rto_ok_backoff rto_ok_set | erule (1) rto_ok_packet | (auto) [1])+

text \<open>The sender's stream.\<close>

lemma tx_ok_simps [simp]:
  "tx_ok (s\<lparr> rx_rto := a \<rparr>) = tx_ok s" "tx_ok (s\<lparr> rbuf := b \<rparr>) = tx_ok s"
  "tx_ok (s\<lparr> rcv_fin := c \<rparr>) = tx_ok s" "tx_ok (s\<lparr> rcv_nxt := c \<rparr>) = tx_ok s"
  by (simp_all add: tx_ok_def accepted_def)

interpretation tx0: tcp_output "rh_env0 nb" tx_ok
  by unfold_locales
    (fact tx_ok_core tx_ok_state tx_ok_packet tx_ok_queue | (auto simp: tx_ok_log) [1])+

interpretation tx: tcp_invariant "rh_env nb" tx_ok "\<lambda>_. True"
proof unfold_locales
  show "tx_ok s'" if "tx_ok s" "call_cb (PseudoTcpReadable (rh_env nb)) EvReadable s = Inr s'" for s s'
  proof (rule tx0.readable_P)
    show "tx_ok (log_event s EvReadable)" using that(1) tx_ok_log [of EvReadable s] by blast
    show "pseudo_tcp_socket_readable nb (rh_env0 nb) (log_event s EvReadable) = Inr s'" using that(2) by simp
  qed
  show "tx_ok s'" if "tx_ok s" "call_cb (PseudoTcpOpened (rh_env nb)) EvOpened s = Inr s'" for s s'
  proof (rule tx0.opened_P)
    show "tx_ok (log_event s EvOpened)" using that(1) tx_ok_log [of EvOpened s] by blast
    show "pseudo_tcp_socket_opened nb (rh_env0 nb) (log_event s EvOpened) = Inr s'" using that(2) by simp
  qed
  show "tx_ok s'" if "tx_ok s" "process_data s seg fl = Inr (r, s')" for s seg fl r s'
    using that process_data_frame [OF that(2)] by (simp add: tx_ok_def accepted_def)
  show "tx_ok s'" if "tx_ok s" "parse_options (rh_env nb) s data c = Inr s'" for s data c s'
    using that parse_options_frame [OF that(2)] by (simp add: tx_ok_def accepted_def)
qed (fact tx_ok_core tx_ok_state tx_ok_packet tx_ok_queue tx_ok_ack | (auto simp: tx_ok_log) [1])+

text \<open>The receiver's stream.\<close>

interpretation rx0: tcp_output "rh_env0 nb" "rx_ok base xs"
  by unfold_locales
    (fact rx_ok_core rx_ok_read | erule (1) rx_ok_packet | (auto simp: rx_ok_log) [1])+

interpretation rx: tcp_invariant "rh_env nb" "rx_ok base xs" "rx_segment base xs"
proof unfold_locales
  show "rx_ok base xs s'" if "rx_ok base xs s" "call_cb (PseudoTcpReadable (rh_env nb)) EvReadable s = Inr s'" for s s'
    using that rx0.readable_P [of base xs "log_event s EvReadable" nb nb] by (simp add: rx_ok_log)
  show "rx_ok base xs s'" if "rx_ok base xs s" "call_cb (PseudoTcpOpened (rh_env nb)) EvOpened s = Inr s'" for s s'
    using that rx0.opened_P [of base xs "log_event s EvOpened" nb nb] by (simp add: rx_ok_log)
qed (fact rx_ok_core rx_ok_read rx_ok_data | erule (1) rx_ok_packet
  | (auto simp: rx_ok_log rx_segment_def dest: rx_ok_no_fin) [1])+


section \<open>Properties\<close>

text \<open>
  C21. The retransmission time-out of a socket used through the handler is always between
  \<open>MIN_RTO\<close> and \<open>MAX_RTO\<close> (1 s and 60 s), whatever segments arrive and however the clock jumps.
\<close>

theorem rto_bounds:
  assumes "tcp_run (rh_env nb) (\<lambda>_. True) (pseudo_tcp_socket_new (rh_env nb) c) s"
  shows "1000 \<le> unat (rx_rto s) \<and> unat (rx_rto s) \<le> 60000"
proof -
  have "rto_ok (pseudo_tcp_socket_new (rh_env nb) c)"
    by (simp add: rto_ok_def pseudo_tcp_socket_new_def pseudo_tcp_socket_init_def tcp_consts)
  from rto.run_P [OF assms this] show ?thesis
    by (simp add: rto_ok_def tcp_consts word_le_nat_alt)
qed

text \<open>
  C13. Everything on the wire is the stream: in every run of a socket used through the handler,
  whatever is received, lost, timed out or retransmitted, each packet passed to the network with a
  payload carries exactly the bytes accepted by \<open>queue\<close> at the position that its sequence number
  names, in the stream of all bytes accepted so far.
\<close>

theorem packets_carry_stream:
  assumes "tcp_run (rh_env nb) (\<lambda>_. True) (pseudo_tcp_socket_new (rh_env nb) c) s"
    and "EvWritePacket pkt res \<in> set (trace s)"
  shows "carries (accepted s) pkt"
proof -
  have "tx_ok (pseudo_tcp_socket_new (rh_env nb) c)"
    by (auto simp: tx_ok_def accepted_def pseudo_tcp_socket_new_def pseudo_tcp_socket_init_def tcp_consts
        fifo_ok_def pseudo_tcp_fifo_init_def fifo_data_def intro: exI [of _ 0])
  from tx.run_P [OF assms(1) this] assms(2) show ?thesis by (auto simp: tx_ok_def)
qed

text \<open>
  C1. What the user reads is the peer's stream. The run starts from a socket after the handshake, with a fresh
  receive side: a well formed and empty receive buffer, nothing stored out of order, \<open>rcv_nxt\<close> at
  the sequence number \<open>base\<close> of the first byte, FIN-ACK supported and \<open>rcv_fin\<close> outside the numbers
  of the stream, which has at most 2^30 bytes. The steps are sends, clock ticks, closes and the arrival of segments
  without CTL and FIN flags, with arbitrary acknowledgements and with pieces of the peer's stream in any
  order, any number of times or not at all; the neighbour above may write to the handler and stop it from its
  callbacks. Each step of the run returned. Then the bytes handed to the user are a prefix of the peer's stream.
  (Data that overtakes the connect message is outside of this run; \<open>Bugs\<close> shows that it is corrupted.)
\<close>

theorem user_reads_stream:
  assumes "tcp_run (rh_env nb) (rx_segment base xs) s0 s"
    and "length xs \<le> 2 ^ 30" and "support_fin_ack s0" and "fifo_ok (rbuf s0)"
    and "data_length (rbuf s0) = 0" and "rlist s0 = []" and "rcv_nxt s0 = base"
    and "delivered s0 = []" and "\<forall>k \<le> 2 ^ 31. seqno base k \<noteq> rcv_fin s0"
  shows "delivered s = take (length (delivered s)) xs"
proof -
  have "recv_at base xs s0 0 []" using assms by (intro recv_at_fresh)
  with assms have "rx_ok base xs s0" by (auto simp: rx_ok_def)
  from rx.run_P [OF assms(1) this] obtain q ps where
    "recv_at base xs s q ps" and d: "delivered s = take (q - data_length (rbuf s)) xs"
    by (auto simp: rx_ok_def)
  then have "length (delivered s) = q - data_length (rbuf s)"
    by (auto simp: recv_at_def stream_ok_def)
  with d show ?thesis by simp
qed


end
