(* ===== verification/Runs.thy ===== *)
theory Runs
  imports Reliable
begin

text \<open>
  Concrete runs of the pseudo-TCP socket under the reliable handler, evaluated by the simplifier:
  witnesses for the theorems on streams, and runs in which the code does not do what it means to.

  A definition of the model is evaluated by rewriting with its equations, strictly from the outside
  in: the congruence rules keep the simplifier out of branches and continuations that are not
  reached.
\<close>

section \<open>Evaluation\<close>

section \<open>Sockets\<close>

text \<open>A connected stream over a network that takes every packet.\<close>

definition example_neighbours :: neighbours where
  "example_neighbours = \<lparr> stream_state = (\<lambda>_. ElaStreamState_connected), next_write = (\<lambda>_ b. int (length b)),
     clock_ms = (\<lambda>_. 5), fresh_memory = (\<lambda>_. 0), data_calls = (\<lambda>_ _ _. None), opened_calls = (\<lambda>_ _. None),
     patience = 3, errno_code = (\<lambda>_. 1) \<rparr>"

text \<open>The same with an upper neighbour that writes back from \<open>on_data\<close> what it is given.\<close>

definition echo_neighbours :: neighbours where
  "echo_neighbours = \<lparr> stream_state = (\<lambda>_. ElaStreamState_connected), next_write = (\<lambda>_ b. int (length b)),
     clock_ms = (\<lambda>_. 5), fresh_memory = (\<lambda>_. 0),
     data_calls = (\<lambda>_ bs rs. if rs = [] then Some (UpWrite bs) else None), opened_calls = (\<lambda>_ _. None),
     patience = 3, errno_code = (\<lambda>_. 1) \<rparr>"

definition fresh_socket :: psock where
  "fresh_socket = pseudo_tcp_socket_new (rh_env example_neighbours) 1"

text \<open>An established connection before any data, its peer's data starting at number 7.\<close>

definition open_socket :: psock where
  "open_socket = fresh_socket\<lparr> state := TCP_ESTABLISHED, rcv_nxt := 7, snd_wnd := 1000 \<rparr>"

definition data_packet :: "u32 \<Rightarrow> byte list \<Rightarrow> byte list" where
  "data_packet seq bs = tcp_header fresh_socket seq 0 1 1000 @ bs"

lemma attempt_send_loop_eval:
  "attempt_send_loop fuel env s now sflags = (if fuel = 0 then Inl Diverges else
     (let nAvailable = send_available s in
      if sflags = sfDuplicateAck then
        bindr (packet env s (snd_nxt s) FLAG_NONE 0 0 now) (\<lambda>(_, s).
        attempt_send_loop (fuel - 1) env s now sfNone)
      else if nAvailable = 0 \<and> sflags \<noteq> sfFin \<and> sflags \<noteq> sfRst then
        (if sflags = sfNone then Inr s
         else if sflags = sfImmediateAck \<or> sflags = sfDuplicateAck \<or> t_ack s \<noteq> 0 then
           bindr (packet env s (snd_nxt s) FLAG_NONE 0 0 now) (\<lambda>(_, s). Inr s)
         else Inr (s\<lparr> t_ack := now \<rparr>))
      else if use_nagling s \<and> sflags \<noteq> sfFin \<and> sflags \<noteq> sfRst \<and>
              snd_nxt s > snd_una s \<and> nAvailable < mss s then Inr s
      else (case unsent_slist s of
        [] \<Rightarrow> Inr s
      | a # _ \<Rightarrow>
          bindr (get_seg s a) (\<lambda>g.
          let s = (if ss_len g > nAvailable \<and> sflags \<noteq> sfFin \<and> sflags \<noteq> sfRst
                   then split_unsent s a g nAvailable else s) in
          bindr (transmit env s a now) (\<lambda>(st, s).
          if st \<noteq> E_NONE then closedown_remote env s st
          else attempt_send_loop (fuel - 1) env s now
                 (if sflags = sfImmediateAck \<or> sflags = sfDelayedAck then sfNone else sflags))))))"
  by (cases fuel) (simp_all only: attempt_send_loop.simps nat.distinct if_True if_False diff_Suc_1 simp_thms)

lemma readable_loop_eval:
  "readable_loop fuel nb env s = (if fuel = 0 then Inl Diverges else
     bindr (pseudo_tcp_socket_recv env s RX_CHUNK) (\<lambda>(len, bs, s).
     if len = 0 then
       bindr (pseudo_tcp_socket_close env s False) (\<lambda>s.
       bindr (adjust_clock env s 0) (\<lambda>(_, s). Inr s))
     else if len < 0 then
       bindr (if error s \<noteq> EWOULDBLOCK then reliable_handler_stop env s else Inr s) (\<lambda>s.
       bindr (adjust_clock env s 0) (\<lambda>(_, s). Inr s))
     else
       bindr (upper_calls (patience nb) nb env (\<lambda>s. data_calls nb s bs) s []) (\<lambda>s.
       if pseudo_tcp_socket_is_closed s then Inr s
       else readable_loop (fuel - 1) nb env s)))"
  by (cases fuel) (simp_all only: readable_loop.simps nat.distinct if_True if_False diff_Suc_1 simp_thms)

lemma write_loop_eval:
  "write_loop fuel nb env s bs len = (if fuel = 0 then Inl Diverges
     else if bs = [] then Inr (int len, s)
      else
        bindr (pseudo_tcp_socket_send env s bs (of_nat (length bs))) (\<lambda>(sent, s).
        bindr (adjust_clock env s 0) (\<lambda>(_, s).
        if sent < 0 then
          (if error s \<noteq> EWOULDBLOCK then
             bindr (reliable_handler_stop env s) (\<lambda>s'.
             Inr (ssize_of_unsigned (ELA_SYS_ERROR (errno_code nb (error s))), s'))
           else
             bindr (adjust_clock env s 0) (\<lambda>(_, s). write_loop (fuel - 1) nb env s bs len))
        else write_loop (fuel - 1) nb env s (drop (nat sent) bs) len)))"
  by (cases fuel) (simp_all only: write_loop.simps nat.distinct if_True if_False diff_Suc_1 simp_thms)

lemma upper_calls_eval:
  "upper_calls fuel nb env f s rs = (if fuel = 0 then Inl Diverges else (case f s rs of None \<Rightarrow> Inr s
     | Some c \<Rightarrow> bindr (upper_call nb env s c) (\<lambda>(r, s). upper_calls (fuel - 1) nb env f s (rs @ [r]))))"
  by (cases fuel) (simp_all only: upper_calls.simps nat.distinct if_True if_False diff_Suc_1 simp_thms)

lemma bindr_weak_cong: "m = m' \<Longrightarrow> bindr m f = bindr m' f"
  by simp

lemmas eval_congs = bindr_weak_cong if_weak_cong let_weak_cong option.case_cong_weak sum.case_cong_weak
  list.case_cong_weak prod.case_cong_weak PseudoTcpWriteResult.case_cong_weak PseudoTcpState.case_cong_weak
  tcp_event.case_cong_weak conj_cong

lemmas eval_defs =
   pseudo_tcp_socket_connect_def pseudo_tcp_socket_new_def pseudo_tcp_socket_init_def set_state_def transitions_def
   queue_connect_message_def queue_def Let_def connect_message_def pseudo_tcp_fifo_get_write_remaining_def pseudo_tcp_fifo_init_def
   get_seg_def put_seg_def pseudo_tcp_fifo_get_buffered_def pseudo_tcp_fifo_write_def pseudo_tcp_fifo_write_offset_def umod_def src_read_def blk_write_def
   log_event_def tcp_consts attempt_send_def get_current_time_def time_diff_sint unsent_weight_def
   send_available_def window_room_def split_unsent_def rh_env_def rh_env0_def example_neighbours_def pseudo_tcp_socket_write_packet_def
   transmit_def packet_def shr32_def blk_read_def pseudo_tcp_fifo_read_offset_def attempt_send_loop_eval transmit_loop.simps
   fresh_socket_def open_socket_def tcp_header_def htonl_bytes_def htons_bytes_def pseudo_tcp_socket_notify_packet_def
   parse_def process_def parse_segment_def word_at_def half_at_def ntohl_bytes_def ntohs_bytes_def data_packet_def
   process_ctl_def update_timestamp_def LARGER_def LARGER_OR_EQUAL_def SMALLER_def SMALLER_OR_EQUAL_def process_ack_def process_duplicate_ack_def
   shl_wnd_def process_fin_def fin_transition_def process_tail_def notify_writable_def ack_flags_def process_data_def trim_segment_def trim_front_def trim_back_def
   insert_rseg.simps recover_rlist.simps pseudo_tcp_state_has_received_fin_ack_def pseudo_tcp_state_has_received_fin_def pseudo_tcp_state_has_sent_fin_def
   call_cb_def pseudo_tcp_socket_readable_def pseudo_tcp_socket_opened_def readable_loop_eval upper_calls_eval pseudo_tcp_socket_recv_def pseudo_tcp_fifo_read_def
   pseudo_tcp_fifo_consume_write_buffer_def RX_CHUNK_def to_gint32_def pseudo_tcp_socket_is_closed_def adjust_clock_def
   pseudo_tcp_socket_get_next_clock_def flex_buffer_alloca_def flex_buffer_available_def FLEX_BUFFER_MAX_LEN_def FLEX_PADDING_LEN_def ELA_MAX_USER_DATA_LEN_def
   delivered_def upt_rec

lemmas echo_defs = eval_defs echo_neighbours_def upper_call.simps reliable_handler_write_def write_loop_eval
  pseudo_tcp_socket_send_def accepted_def

section \<open>Witnesses\<close>

theorem rto_bounds_witness:
  "1000 \<le> unat (rx_rto (pseudo_tcp_socket_notify_mtu fresh_socket 1400)) \<and>
   unat (rx_rto (pseudo_tcp_socket_notify_mtu fresh_socket 1400)) \<le> 60000"
  unfolding fresh_socket_def by (rule rto_bounds [of example_neighbours]) (blast intro: tcp_step.Mtu)

lemma connect_example:
  "case pseudo_tcp_socket_connect (rh_env example_neighbours) fresh_socket of
     Inr (b, s) \<Rightarrow> b \<and> (\<exists>e \<in> set (trace s). case e of EvWritePacket pkt _ \<Rightarrow> length pkt = 31 | _ \<Rightarrow> False)
   | Inl _ \<Rightarrow> False"
  by (simp add: eval_defs cong: eval_congs)

theorem packets_carry_stream_witness:
  "\<exists>s pkt res. pseudo_tcp_socket_connect (rh_env example_neighbours) fresh_socket = Inr (True, s) \<and>
     EvWritePacket pkt res \<in> set (trace s) \<and> length pkt = 31 \<and> carries (accepted s) pkt"
proof -
  obtain s e where c: "pseudo_tcp_socket_connect (rh_env example_neighbours) fresh_socket = Inr (True, s)"
    and e: "e \<in> set (trace s)" "case e of EvWritePacket pkt _ \<Rightarrow> length pkt = 31 | _ \<Rightarrow> False"
    using connect_example by (auto split: sum.splits)
  then obtain pkt res where p: "e = EvWritePacket pkt res" "length pkt = 31"
    by (auto split: tcp_event.splits)
  have "tcp_run (rh_env example_neighbours) (\<lambda>_. True) fresh_socket s"
    using c by (blast intro: tcp_step.Connect)
  from packets_carry_stream [OF this [unfolded fresh_socket_def] e(1) [unfolded p(1)]] c e(1) p
  show ?thesis by blast
qed

text \<open>The second packet fills the gap before the first; the readable callback reads all four bytes, which the upper
  neighbour writes back from the callback.\<close>

lemma packets_example:
  "case pseudo_tcp_socket_notify_packet (rh_env echo_neighbours) open_socket (data_packet 9 [12, 13]) of
     Inr (_, s1) \<Rightarrow>
       (case pseudo_tcp_socket_notify_packet (rh_env echo_neighbours) s1 (data_packet 7 [10, 11, 12]) of
          Inr (_, s2) \<Rightarrow> delivered s2 = [10, 11, 12, 13] \<and> accepted s2 = [10, 11, 12, 13] | Inl _ \<Rightarrow> False)
   | Inl _ \<Rightarrow> False"
  by (simp add: echo_defs cong: eval_congs)

lemma data_packet_ok:
  assumes "genuine 7 xs (parse_segment (take 24 (data_packet seq bs)) bs) p (length bs)" and "length bs < 100"
  shows "rx_segment 7 xs (parse_segment (take 24 (data_packet seq bs)) (drop 24 (data_packet seq bs)))"
proof -
  let ?seg = "parse_segment (take 24 (data_packet seq bs)) bs"
  have h: "take 24 (data_packet seq bs) = tcp_header fresh_socket seq 0 1 1000"
    "drop 24 (data_packet seq bs) = bs"
    by (simp_all add: data_packet_def)
  have "seg_flags ?seg = 0"
    unfolding h(1) by (simp add: parse_segment_def tcp_header_fields)
  moreover have "unat (seg_len ?seg) = length bs"
    using assms(2) unat_of_nat_small [where 'a = 32, of "length bs"] by (simp add: parse_segment_def)
  ultimately show ?thesis using assms(1) unfolding rx_segment_def h(2)
    by (auto intro: data_segmentI [of 7 xs _ p])
qed

theorem user_reads_stream_witness:
  "\<exists>s. tcp_run (rh_env echo_neighbours) (rx_segment 7 [10, 11, 12, 13]) open_socket s \<and>
     delivered s = [10, 11, 12, 13] \<and> accepted s = [10, 11, 12, 13] \<and> delivered s = take (length (delivered s)) [10, 11, 12, 13]"
proof -
  let ?env = "rh_env echo_neighbours" and ?ok = "rx_segment 7 [10, 11, 12, 13]"
  obtain b1 s1 where r1: "pseudo_tcp_socket_notify_packet ?env open_socket (data_packet 9 [12, 13]) = Inr (b1, s1)"
    and c: "case pseudo_tcp_socket_notify_packet ?env s1 (data_packet 7 [10, 11, 12]) of
      Inr (_, s2) \<Rightarrow> delivered s2 = [10, 11, 12, 13] \<and> accepted s2 = [10, 11, 12, 13] | Inl _ \<Rightarrow> False"
    using packets_example
    by (cases "pseudo_tcp_socket_notify_packet ?env open_socket (data_packet 9 [12, 13])") auto
  obtain b2 s2 where r2: "pseudo_tcp_socket_notify_packet ?env s1 (data_packet 7 [10, 11, 12]) = Inr (b2, s2)"
    and d: "delivered s2 = [10, 11, 12, 13]" "accepted s2 = [10, 11, 12, 13]"
    using c by (cases "pseudo_tcp_socket_notify_packet ?env s1 (data_packet 7 [10, 11, 12])") auto
  have f: "word_at (take 24 (data_packet seq bs)) 4 = seq" for seq bs
    by (simp add: data_packet_def tcp_header_fields)
  have "tcp_step ?env ?ok open_socket s1"
    using r1 by (rule tcp_step.Packet) (rule data_packet_ok [of _ _ _ 2];
      simp add: genuine_def parse_segment_def f seqno_def)
  moreover have "tcp_step ?env ?ok s1 s2"
    using r2 by (rule tcp_step.Packet) (rule data_packet_ok [of _ _ _ 0];
      simp add: genuine_def parse_segment_def f seqno_def)
  ultimately have run: "tcp_run ?env ?ok open_socket s2" by (meson converse_rtranclp_into_rtranclp r_into_rtranclp)
  have "seqno 7 k \<noteq> rcv_fin open_socket" if "k \<le> 2 ^ 31" for k
  proof -
    have "unat (seqno 7 k) = 7 + k"
      using that unat_of_nat_small [where 'a = 32, of "7 + k"] by (simp add: seqno_def)
    then have "seqno 7 k \<noteq> 0" by auto
    then show ?thesis by (simp add: open_socket_def fresh_socket_def pseudo_tcp_socket_new_def pseudo_tcp_socket_init_def)
  qed
  moreover have "support_fin_ack open_socket" "fifo_ok (rbuf open_socket)" "data_length (rbuf open_socket) = 0"
    "rlist open_socket = []" "rcv_nxt open_socket = 7" "delivered open_socket = []"
    by (simp_all add: open_socket_def fresh_socket_def pseudo_tcp_socket_new_def pseudo_tcp_socket_init_def
        fifo_ok_def pseudo_tcp_fifo_init_def delivered_def tcp_consts)
  ultimately have "delivered s2 = take (length (delivered s2)) [10, 11, 12, 13]"
    by (intro user_reads_stream [OF run]) auto
  with run d show ?thesis by blast
qed

end
