(* ===== verification/Bugs.thy ===== *)
theory Bugs
  imports Runs
begin

text \<open>
  Cases in which the pseudo-TCP code does not do what it means to: a general theorem on data that
  overtakes the connect message, and closed runs of the model, evaluated by the simplifier.
\<close>

section \<open>Feeding a socket\<close>

definition segment_bytes :: "u32 \<Rightarrow> u32 \<Rightarrow> u8 \<Rightarrow> byte list \<Rightarrow> byte list" where
  "segment_bytes seq ack flags bs =
     tcp_header (fresh_socket\<lparr> rcv_nxt := ack \<rparr>) seq flags 1 1000 @ bs"

fun feed :: "tcp_env \<Rightarrow> psock \<Rightarrow> byte list list \<Rightarrow> psock res" where
  "feed env s [] = Inr s"
| "feed env s (pkt # pkts) =
     bindr (pseudo_tcp_socket_notify_packet env s pkt) (\<lambda>(_, s). feed env s pkts)"

text \<open>The peer's connect message, which occupies the sequence numbers 0 to 6.\<close>

definition connect_packet :: "byte list" where
  "connect_packet = segment_bytes 0 7 FLAG_CTL [0, 3, 1, 0, 254, 1, 0]"

lemmas bug_defs = eval_defs segment_bytes_def connect_packet_def opt_byte_def parse_options_def
  parse_options_loop.simps apply_option_def set_state_established_def adjustMTU_def adjust_level.simps
  PACKET_MAXIMUMS_def process_valuable_ack_def update_rtt_def pseudo_tcp_fifo_consume_read_data_def
  free_acked.simps ack_recovery_def congestion_avoidance_def pseudo_tcp_socket_close_def
  pseudo_tcp_socket_shutdown_def shutdown_write_def queue_fin_message_def reliable_handler_stop_def
  closedown_def closedown_remote_def closedown_navigate_def set_state_closed_def
  pseudo_tcp_socket_notify_clock_def clock_retransmit_def clock_probe_def pseudo_tcp_socket_send_def
  g_queue_insert_after_find_def insert_link.simps
  pseudo_tcp_socket_get_available_bytes_def queue_rst_message_def
  ssize_of_unsigned_def ELA_GENERAL_ERROR_def ELA_MK_ERROR_def ELAERR_BUSY_def ELAF_GENERAL_def

section \<open>Data that overtakes the connect message\<close>

text \<open>
  Three segments in the steps of \<open>process_data\<close>: data beyond the next expected number is stored
  in the free part of the ring, at its distance from that number; a connect message in order
  advances the number and leaves the ring alone; data that fills the gap before stored data
  appends both.
\<close>

definition plain_segment :: "u32 \<Rightarrow> u8 \<Rightarrow> byte list \<Rightarrow> Segment" where
  "plain_segment seq flags bs = \<lparr> seg_conv = 0, seg_seq = seq, seg_ack = 0, seg_flags = flags, seg_wnd = 0,
     seg_data = bs, seg_len = of_nat (length bs), seg_tsval = 0, seg_tsecr = 0 \<rparr>"

lemma trim_fitting:
  assumes "q \<le> p" and "p + length bs \<le> q + pseudo_tcp_fifo_get_write_remaining (rbuf s)"
    and "p + length bs \<le> 2 ^ 30" and "rcv_nxt s = seqno base q"
  shows "trim_segment s (plain_segment (seqno base p) fl bs) = plain_segment (seqno base p) fl bs"
proof -
  have "\<not> SMALLER (seqno base p) (rcv_nxt s)"
    using assms SMALLER_seqno [of p q base] by simp
  moreover have "unat (seqno base p + of_nat (length bs) - rcv_nxt s) = p + length bs - q"
    using assms unat_seqno_diff [of q "p + length bs" base] by (simp add: seqno_add)
  ultimately show ?thesis
    using assms(2) by (simp add: trim_segment_def trim_front_def trim_back_def plain_segment_def Let_def)
qed

lemma early_step:
  assumes "fifo_ok (rbuf s)" and "rcv_nxt s = seqno base q" and "q < p" and "bs \<noteq> []"
    and fit: "p + length bs \<le> q + pseudo_tcp_fifo_get_write_remaining (rbuf s)" "p + length bs \<le> 2 ^ 30"
    and "support_fin_ack s" and "rlist s = []"
  shows "\<exists>f. process_data s (plain_segment (seqno base p) 0 bs) fl = Inr ((fl, False),
        s\<lparr> rbuf := f, rlist := [\<lparr> rs_seq = seqno base p, rs_len = of_nat (length bs) \<rparr>] \<rparr>) \<and>
      fifo_ok f \<and> buffer_length f = buffer_length (rbuf s) \<and> data_length f = data_length (rbuf s) \<and>
      (\<forall>k < buffer_length f. fifo_cell f k =
         (if data_length f + (p - q) \<le> k \<and> k < data_length f + (p - q) + length bs
          then bs ! (k - (data_length f + (p - q))) else fifo_cell (rbuf s) k))"
proof -
  have c: "length bs = min (length bs) (buffer_length (rbuf s) - data_length (rbuf s) - (p - q))"
    using fit(1) assms(3) by (simp add: remaining_def)
  have off: "unat (seqno base p - rcv_nxt s) = p - q"
    using assms(2,3) fit(2) unat_seqno_diff [of q p base] by simp
  have len: "unat (of_nat (length bs) :: u32) = length bs" using fit(2) by (intro unat_pos) simp
  have ne: "seqno base p \<noteq> rcv_nxt s" using assms(2,3) fit(2) seqno_eq [of p q base] by simp
  have pos: "(0 :: u32) < of_nat (length bs)"
    using len assms(4) by (metis unat_0 word_gt_0 length_0_conv)
  from fifo_write_offset_spec [OF assms(1) order_refl c] obtain f where
    f: "pseudo_tcp_fifo_write_offset (rbuf s) bs (length bs) (p - q) = Inr (length bs, f)" "fifo_ok f"
      "buffer_length f = buffer_length (rbuf s)" "data_length f = data_length (rbuf s)"
      "\<forall>k < buffer_length (rbuf s). fifo_cell f k =
         (if data_length (rbuf s) + (p - q) \<le> k \<and> k < data_length (rbuf s) + (p - q) + length bs
          then bs ! (k - (data_length (rbuf s) + (p - q))) else fifo_cell (rbuf s) k)" by blast
  have t: "trim_segment s (plain_segment (seqno base p) 0 bs) = plain_segment (seqno base p) 0 bs"
    using assms(2,3) fit by (intro trim_fitting [where q = q]) simp_all
  have "process_data s (plain_segment (seqno base p) 0 bs) fl = Inr ((fl, False),
        s\<lparr> rbuf := f, rlist := [\<lparr> rs_seq = seqno base p, rs_len = of_nat (length bs) \<rparr>] \<rparr>)"
    unfolding process_data_def t Let_def
    using f(1) off len ne pos assms(7,8) by (simp add: plain_segment_def)
  with f show ?thesis by auto
qed

lemma connect_step:
  assumes "rcv_nxt s = seqno base q" and "c \<noteq> []"
    and fit: "length c \<le> pseudo_tcp_fifo_get_write_remaining (rbuf s)" "q + length c \<le> 2 ^ 30"
  shows "process_data s (plain_segment (seqno base q) FLAG_CTL c) fl =
    Inr ((fl, False), s\<lparr> rcv_nxt := seqno base (q + length c) \<rparr>)"
proof -
  have t: "trim_segment s (plain_segment (seqno base q) FLAG_CTL c) = plain_segment (seqno base q) FLAG_CTL c"
    using assms(1) fit by (intro trim_fitting [where q = q]) simp_all
  have "unat (of_nat (length c) :: u32) = length c" using fit(2) by (intro unat_pos) simp
  then have pos: "(0 :: u32) < of_nat (length c)"
    using assms(2) by (metis unat_0 word_gt_0 length_0_conv)
  show ?thesis
    unfolding process_data_def t Let_def
    using pos assms(1) by (simp add: plain_segment_def FLAG_CTL_def seqno_add)
qed

lemma fill_step:
  assumes "fifo_ok (rbuf s)" and "rcv_nxt s = seqno base q" and "d \<noteq> []" and "0 < m"
    and fit: "length d + m \<le> pseudo_tcp_fifo_get_write_remaining (rbuf s)" "q + length d + m \<le> 2 ^ 30"
    and "support_fin_ack s"
    and rl: "rlist s = [\<lparr> rs_seq = seqno base (q + length d), rs_len = of_nat m \<rparr>]"
  shows "\<exists>fl' s'. process_data s (plain_segment (seqno base q) 0 d) fl = Inr ((fl', True), s') \<and>
    rcv_nxt s' = seqno base (q + length d + m) \<and>
    fifo_data (rbuf s') = fifo_data (rbuf s) @ d @ fifo_cells (rbuf s) (data_length (rbuf s) + length d) m"
proof -
  let ?e = "data_length (rbuf s)" and ?l = "length d"
  have c: "?l = min ?l (buffer_length (rbuf s) - ?e - 0)" using fit(1) by (simp add: remaining_def)
  have len: "unat (of_nat ?l :: u32) = ?l" "unat (of_nat m :: u32) = m"
    using fit(2) by (intro unat_pos; simp)+
  have pos: "(0 :: u32) < of_nat ?l" using len(1) assms(3) by (metis unat_0 word_gt_0 length_0_conv)
  from fifo_write_offset_spec [OF assms(1) order_refl c] obtain f where
    f: "pseudo_tcp_fifo_write_offset (rbuf s) d ?l 0 = Inr (?l, f)" "fifo_ok f"
      "buffer_length f = buffer_length (rbuf s)" "data_length f = ?e"
      "\<forall>k < buffer_length (rbuf s). fifo_cell f k =
         (if ?e + 0 \<le> k \<and> k < ?e + 0 + ?l then d ! (k - (?e + 0)) else fifo_cell (rbuf s) k)" by blast
  have "?l \<le> buffer_length f - data_length f" using fit(1) f(3,4) by (simp add: remaining_def)
  from fifo_consume_write_spec [OF f(2) this] obtain g where
    g: "pseudo_tcp_fifo_consume_write_buffer f ?l = Inr g" "fifo_ok g" "buffer_length g = buffer_length f"
      "data_length g = data_length f + ?l" "\<forall>k. fifo_cell g k = fifo_cell f k" by blast
  have "m \<le> buffer_length g - data_length g" using fit(1) f(3,4) g(3,4) by (simp add: remaining_def)
  from fifo_consume_write_spec [OF g(2) this] obtain h where
    h: "pseudo_tcp_fifo_consume_write_buffer g m = Inr h" "fifo_ok h" "buffer_length h = buffer_length g"
      "data_length h = data_length g + m" "\<forall>k. fifo_cell h k = fifo_cell g k" by blast
  have t: "trim_segment s (plain_segment (seqno base q) 0 d) = plain_segment (seqno base q) 0 d"
    using assms(2) fit by (intro trim_fitting [where q = q]) simp_all
  have nxt: "rcv_nxt s + of_nat ?l = seqno base (q + ?l)" using assms(2) by (simp add: seqno_add)
  have cmp: "SMALLER_OR_EQUAL (seqno base (q + ?l)) (seqno base (q + ?l))"
    "LARGER (seqno base (q + ?l) + of_nat m) (seqno base (q + ?l))"
    "seqno base (q + ?l) + of_nat m - seqno base (q + ?l) = of_nat m"
    using assms(4) fit(2) SMALLER_OR_EQUAL_seqno [of "q + ?l" "q + ?l" base]
      LARGER_seqno [of "q + ?l + m" "q + ?l" base] by (simp_all add: seqno_add)
  have "fifo_data h = fifo_data (rbuf s) @ d @ fifo_cells (rbuf s) (?e + ?l) m"
  proof (rule fifo_data_eqI)
    show "data_length h = length (fifo_data (rbuf s) @ d @ fifo_cells (rbuf s) (?e + ?l) m)"
      using f(4) g(4) h(4) by simp
    fix i assume i: "i < length (fifo_data (rbuf s) @ d @ fifo_cells (rbuf s) (?e + ?l) m)"
    then have "i < buffer_length (rbuf s)" using fit(1) assms(4) by (simp add: remaining_def)
    then have "fifo_cell h i = (if ?e \<le> i \<and> i < ?e + ?l then d ! (i - ?e) else fifo_cell (rbuf s) i)"
      using f(5) g(5) h(5) by simp
    also have "\<dots> = (fifo_data (rbuf s) @ d @ fifo_cells (rbuf s) (?e + ?l) m) ! i"
      using i by (auto simp: nth_append fifo_data_nth)
    finally show "fifo_cell h i = (fifo_data (rbuf s) @ d @ fifo_cells (rbuf s) (?e + ?l) m) ! i" .
  qed
  moreover have "process_data s (plain_segment (seqno base q) 0 d) fl = Inr ((sfImmediateAck, True),
      s\<lparr> rbuf := h, rlist := [], rcv_nxt := seqno base (q + ?l + m), rcv_wnd := rcv_wnd s - of_nat ?l - of_nat m \<rparr>)"
    unfolding process_data_def t Let_def
    using f(1) g(1) h(1) len pos nxt cmp assms(2,7) rl
    by (simp add: plain_segment_def Let_def seqno_add)
  ultimately show ?thesis by auto
qed

text \<open>
  C33. Data that overtakes the connect message is misplaced. Take any socket that supports FIN-ACK,
  whose receive buffer is well formed and that has nothing stored out of order, and let data \<open>e\<close>
  arrive before the connect message \<open>c\<close> and the data \<open>d\<close> that come before it in the stream, all
  of them non-empty and together within the window and at most 2^30 bytes. Then \<open>process_data\<close> succeeds for all three, the socket
  counts all of them as received, and the user gets, instead of \<open>d @ e\<close>, the data \<open>d\<close> followed by
  as many bytes as \<open>e\<close> has of: \<open>length c\<close> cells of the ring that were never written, and then
  the beginning of \<open>e\<close>. The branch for ignored data advances \<open>rcv_nxt\<close> without moving what is
  stored relative to it.
\<close>

theorem early_data_misplaced:
  assumes "fifo_ok (rbuf s)" and "support_fin_ack s" and "rlist s = []"
    and "c \<noteq> []" and "d \<noteq> []" and "e \<noteq> []"
    and fit: "length c + length d + length e \<le> pseudo_tcp_fifo_get_write_remaining (rbuf s)"
      "length c + length d + length e \<le> 2 ^ 30"
  shows "\<exists>r1 s1 r2 s2 r3 s3.
     process_data s (plain_segment (rcv_nxt s + of_nat (length c + length d)) 0 e) fl = Inr (r1, s1) \<and>
     process_data s1 (plain_segment (rcv_nxt s) FLAG_CTL c) fl = Inr (r2, s2) \<and>
     process_data s2 (plain_segment (rcv_nxt s + of_nat (length c)) 0 d) fl = Inr (r3, s3) \<and>
     rcv_nxt s3 = rcv_nxt s + of_nat (length c + length d + length e) \<and>
     fifo_data (rbuf s3) = fifo_data (rbuf s) @ d @
       take (length e) (fifo_cells (rbuf s) (data_length (rbuf s) + length d) (length c) @ e)"
proof -
  define base where "base = rcv_nxt s"
  let ?c = "length c" and ?d = "length d" and ?e = "length e"
  have b: "rcv_nxt s = seqno base 0" by (simp add: base_def)
  have 1: "\<exists>f. process_data s (plain_segment (seqno base (?c + ?d)) 0 e) fl = Inr ((fl, False),
        s\<lparr> rbuf := f, rlist := [\<lparr> rs_seq = seqno base (?c + ?d), rs_len = of_nat ?e \<rparr>] \<rparr>) \<and>
      fifo_ok f \<and> buffer_length f = buffer_length (rbuf s) \<and> data_length f = data_length (rbuf s) \<and>
      (\<forall>k < buffer_length f. fifo_cell f k =
         (if data_length f + (?c + ?d - 0) \<le> k \<and> k < data_length f + (?c + ?d - 0) + ?e
          then e ! (k - (data_length f + (?c + ?d - 0))) else fifo_cell (rbuf s) k))"
    using assms by (intro early_step [OF assms(1) b]) (auto simp: add.assoc)
  then obtain f where
    f: "process_data s (plain_segment (seqno base (?c + ?d)) 0 e) fl = Inr ((fl, False),
        s\<lparr> rbuf := f, rlist := [\<lparr> rs_seq = seqno base (?c + ?d), rs_len = of_nat ?e \<rparr>] \<rparr>)"
      "fifo_ok f" "buffer_length f = buffer_length (rbuf s)" "data_length f = data_length (rbuf s)"
      "\<forall>k < buffer_length f. fifo_cell f k =
         (if data_length f + (?c + ?d) \<le> k \<and> k < data_length f + (?c + ?d) + ?e
          then e ! (k - (data_length f + (?c + ?d))) else fifo_cell (rbuf s) k)" by auto
  define s1 where "s1 = s\<lparr> rbuf := f, rlist := [\<lparr> rs_seq = seqno base (?c + ?d), rs_len = of_nat ?e \<rparr>] \<rparr>"
  have rem: "pseudo_tcp_fifo_get_write_remaining (rbuf s1) = pseudo_tcp_fifo_get_write_remaining (rbuf s)"
    using f(3,4) by (simp add: s1_def remaining_def)
  have 2: "process_data s1 (plain_segment (seqno base 0) FLAG_CTL c) fl =
      Inr ((fl, False), s1\<lparr> rcv_nxt := seqno base (0 + ?c) \<rparr>)"
    by (rule connect_step) (use assms(4) fit rem b in \<open>simp_all add: s1_def\<close>)
  define s2 where "s2 = s1\<lparr> rcv_nxt := seqno base ?c \<rparr>"
  have 3: "\<exists>fl' s'. process_data s2 (plain_segment (seqno base ?c) 0 d) fl = Inr ((fl', True), s') \<and>
    rcv_nxt s' = seqno base (?c + ?d + ?e) \<and>
    fifo_data (rbuf s') = fifo_data (rbuf s2) @ d @ fifo_cells (rbuf s2) (data_length (rbuf s2) + ?d) ?e"
    by (rule fill_step) (use assms f(2) rem in \<open>auto simp: s2_def s1_def add.assoc\<close>)
  then obtain fl3 s3 where 3: "process_data s2 (plain_segment (seqno base ?c) 0 d) fl = Inr ((fl3, True), s3)"
    "rcv_nxt s3 = seqno base (?c + ?d + ?e)"
    "fifo_data (rbuf s3) = fifo_data f @ d @ fifo_cells f (data_length f + ?d) ?e"
    by (auto simp: s2_def s1_def)
  have bl: "data_length (rbuf s) + (?c + ?d + ?e) \<le> buffer_length f"
    using fit(1) assms(1) f(3) by (auto simp: remaining_def fifo_ok_def)
  have "fifo_data f = fifo_data (rbuf s)"
    using f(4,5) bl by (intro fifo_data_eqI) (auto simp: fifo_data_nth)
  moreover have "fifo_cells f (data_length f + ?d) ?e =
      take ?e (fifo_cells (rbuf s) (data_length (rbuf s) + ?d) ?c @ e)"
  proof (rule nth_equalityI)
    show "fifo_cells f (data_length f + ?d) ?e ! i =
        take ?e (fifo_cells (rbuf s) (data_length (rbuf s) + ?d) ?c @ e) ! i"
      if "i < length (fifo_cells f (data_length f + ?d) ?e)" for i
      using that f(4,5) bl by (auto simp: nth_append)
  qed simp
  ultimately have "fifo_data (rbuf s3) = fifo_data (rbuf s) @ d @
       take ?e (fifo_cells (rbuf s) (data_length (rbuf s) + ?d) ?c @ e)"
    using 3(3) by simp
  then show ?thesis
    using f(1) 2 3(1,2) unfolding s1_def [symmetric] s2_def by (fastforce simp: seqno_def base_def)
qed

theorem early_data_misplaced_witness:
  "\<exists>r1 s1 r2 s2 r3 s3.
     process_data fresh_socket (plain_segment 10 0 [13, 14, 15, 16, 17, 18, 19, 20]) sfNone = Inr (r1, s1) \<and>
     process_data s1 (plain_segment 0 FLAG_CTL [0, 3, 1, 0, 254, 1, 0]) sfNone = Inr (r2, s2) \<and>
     process_data s2 (plain_segment 7 0 [10, 11, 12]) sfNone = Inr (r3, s3) \<and> rcv_nxt s3 = 18 \<and>
     fifo_data (rbuf s3) = [10, 11, 12, 0, 0, 0, 0, 0, 0, 0, 13]"
proof -
  have f: "fifo_ok (rbuf fresh_socket)" "support_fin_ack fresh_socket" "rlist fresh_socket = []"
    "rcv_nxt fresh_socket = 0" "fifo_data (rbuf fresh_socket) = []"
    "pseudo_tcp_fifo_get_write_remaining (rbuf fresh_socket) = 61440"
    "fifo_cells (rbuf fresh_socket) (Suc (Suc (Suc (data_length (rbuf fresh_socket)))))
       (Suc (Suc (Suc (Suc (Suc (Suc (Suc 0))))))) = [0, 0, 0, 0, 0, 0, 0]"
    by (simp_all add: fresh_socket_def pseudo_tcp_socket_new_def pseudo_tcp_socket_init_def fifo_ok_def
        pseudo_tcp_fifo_init_def fifo_data_def fifo_cells_def fifo_cell_def tcp_consts rh_env_def rh_env0_def
        example_neighbours_def pseudo_tcp_fifo_get_write_remaining_def upt_rec)
  show ?thesis
    using early_data_misplaced [of fresh_socket "[0, 3, 1, 0, 254, 1, 0]" "[10, 11, 12]"
        "[13, 14, 15, 16, 17, 18, 19, 20]" sfNone]
    by (simp add: f)
qed

section \<open>Runs\<close>

text \<open>
  The same in a whole run: data that overtakes the connect message is corrupted. A socket that has sent its connect
  message and receives the peer's data before the peer's connect message stores it relative to
  number 0. The connect message then advances \<open>rcv_nxt\<close> without moving what was stored (the
  branch for ignored data of \<open>process\<close>), so the stored bytes are delivered at the wrong place:
  the stream 10, ..., 17 is read as 10, 11, 12, 0, 0, 0, 0, 10.
\<close>

theorem early_data_is_corrupted:
  "case pseudo_tcp_socket_connect (rh_env example_neighbours) fresh_socket of
     Inr (_, s) \<Rightarrow>
       (case feed (rh_env example_neighbours) s
          [segment_bytes 7 7 0 [10, 11, 12], segment_bytes 10 7 0 [13, 14, 15, 16, 17], connect_packet,
           segment_bytes 7 7 0 [10, 11, 12]] of
          Inr s \<Rightarrow> delivered s = [10, 11, 12, 0, 0, 0, 0, 10] | Inl _ \<Rightarrow> False)
   | Inl _ \<Rightarrow> False"
  by (simp add: bug_defs cong: eval_congs)

text \<open>
  A connection can be closed by the position of its data alone: \<open>process\<close> takes a segment that
  ends at number \<open>rcv_fin\<close> for the end of the stream, and \<open>rcv_fin\<close> is 0 before any FIN. When the
  end of an in-order segment falls on number 0, after 4 GB of data, the socket goes to
  CLOSE-WAIT and counts a FIN, although none was sent; the handler reads the end of the stream and
  closes.
\<close>

theorem wrap_is_taken_for_fin:
  "case feed (rh_env example_neighbours) (open_socket\<lparr> rcv_nxt := 0xFFFFFFFE \<rparr>)
      [segment_bytes 0xFFFFFFFE 0 0 [1, 2]] of
     Inr s \<Rightarrow> state s = TCP_LAST_ACK \<and> rcv_nxt s = 1
   | Inl _ \<Rightarrow> False"
  by (simp add: bug_defs cong: eval_congs)

text \<open>
  A FIN is counted although data before it is missing. The test uses \<open>rcv_nxt + len\<close> where
  the segment may overlap data already received: after a FIN at number 17 and two of ten bytes,
  a retransmission of the first eight bytes makes the receiver believe it has all ten; the
  handler takes this for the end of the stream and closes.
\<close>

theorem fin_counted_with_data_missing:
  "case feed (rh_env example_neighbours) open_socket
      [segment_bytes 17 0 FLAG_FIN [], segment_bytes 7 0 0 [1, 2], segment_bytes 7 0 0 [1, 2, 3, 4, 5, 6, 7, 8]] of
     Inr s \<Rightarrow> delivered s = [1, 2, 3, 4, 5, 6, 7, 8] \<and> state s = TCP_LAST_ACK \<and> rcv_nxt s = 16
   | Inl _ \<Rightarrow> False"
  by (simp add: bug_defs cong: eval_congs)


text \<open>
  A socket in LAST-ACK can be made to fail an assertion by its peer. The clock sends a second
  FIN by queueing one more, and \<open>transmit\<close> counts it again in \<open>snd_nxt\<close>; an acknowledgement of
  that number is accepted as covering one byte of an empty send buffer, and
  \<open>pseudo_tcp_fifo_consume_read_data\<close> fails its assertion.
\<close>

theorem last_ack_assertion:
  "case feed (rh_env example_neighbours) open_socket [segment_bytes 7 0 FLAG_FIN []] of
     Inr s \<Rightarrow> state s = TCP_CLOSE_WAIT \<and>
       (case pseudo_tcp_socket_close (rh_env example_neighbours) s False of
          Inr s \<Rightarrow> state s = TCP_LAST_ACK \<and>
            (case pseudo_tcp_socket_notify_clock (rh_env example_neighbours) s of
               Inr s \<Rightarrow> feed (rh_env example_neighbours) s [segment_bytes 8 2 0 []] = Inl AssertFail
             | Inl _ \<Rightarrow> False)
        | Inl _ \<Rightarrow> False)
   | Inl _ \<Rightarrow> False"
  by (simp add: bug_defs cong: eval_congs)

text \<open>
  Shutting down a connection with unsent data over a network that refuses a packet fails an
  assertion: \<open>attempt_send\<close> closes the socket, and the caller then asks for the transition from
  CLOSED to FIN-WAIT-1, which \<open>set_state\<close> does not allow.
\<close>

theorem shutdown_on_broken_network_asserts:
  "case pseudo_tcp_socket_send (rh_env example_neighbours) open_socket [1] 1 of
     Inr (n, s) \<Rightarrow> n = 1 \<and>
       (case pseudo_tcp_socket_send (rh_env example_neighbours) s [2] 1 of
          Inr (n, s) \<Rightarrow> n = 1 \<and>
            pseudo_tcp_socket_shutdown (rh_env (example_neighbours\<lparr> next_write := (\<lambda>_ _. -1) \<rparr>)) s
              PSEUDO_TCP_SHUTDOWN_WR = Inl AssertFail
        | Inl _ \<Rightarrow> False)
   | Inl _ \<Rightarrow> False"
  by (simp add: bug_defs cong: eval_congs)

text \<open>
  A busy network is reported as a failure, contrary to the comment in
  \<open>pseudo_tcp_socket_write_packet\<close>: the next handler returns the error as a negative \<open>int\<close>, the code
  compares it with the \<open>unsigned\<close> error code, and the two differ as 64-bit values. Errors that a
  handler returns without passing through \<open>int\<close> are positive and count as success.
\<close>

theorem busy_is_failure:
  "pseudo_tcp_socket_write_packet (nb\<lparr> stream_state := (\<lambda>_. ElaStreamState_connected),
      next_write := (\<lambda>_ _. ssize_of_int (ELA_GENERAL_ERROR ELAERR_BUSY)) \<rparr>) s pkt = WR_FAIL \<and>
   pseudo_tcp_socket_write_packet (nb\<lparr> stream_state := (\<lambda>_. ElaStreamState_connected),
      next_write := (\<lambda>_ _. ssize_of_unsigned (ELA_GENERAL_ERROR code)) \<rparr>) s pkt = WR_SUCCESS"
proof -
  have "bit (ELA_GENERAL_ERROR code) 31"
    by (simp add: ELA_GENERAL_ERROR_def ELA_MK_ERROR_def ELAF_GENERAL_def bit_simps)
  then have "ELA_GENERAL_ERROR code \<noteq> 0" by (metis bit_0_eq bot_apply bot_bool_def)
  then have "uint (ELA_GENERAL_ERROR code) > 0"
    using uint_ge_0 [of "ELA_GENERAL_ERROR code"] by (simp add: less_le uint_0_iff)
  moreover have "ssize_of_int (ELA_GENERAL_ERROR ELAERR_BUSY) < 0"
    by (simp add: ELA_GENERAL_ERROR_def ELA_MK_ERROR_def ELAERR_BUSY_def ELAF_GENERAL_def ssize_of_int_def)
  moreover from this have "ssize_of_int (ELA_GENERAL_ERROR ELAERR_BUSY) \<noteq> uint (ELA_GENERAL_ERROR ELAERR_BUSY)"
    using uint_ge_0 [of "ELA_GENERAL_ERROR ELAERR_BUSY"] by linarith
  ultimately show ?thesis
    by (simp add: pseudo_tcp_socket_write_packet_def ssize_of_unsigned_def)
qed

end
