(* ===== verification/Crystal.thy ===== *)
theory Crystal
  imports Prelude "HOL-Library.AList"
begin

text \<open>
  The containers of the library libcrystal that the sources use: hash tables and heaps of
  identifiers. The library is not part of the sources, so its operations are parameters of the
  model (the records below) and what its documentation promises is the predicate \<open>hashtable_ok\<close> or
  \<open>ids_heap_ok\<close>, a hypothesis of the theorems that need it.

  The last section has an implementation of both interfaces for examples.
\<close>

section \<open>Times\<close>

text \<open>The time of day; \<open>timeradd\<close> and \<open>timercmp\<close> are macros of the C library.\<close>

record timeval =
  tv_sec :: int
  tv_usec :: int

definition time_zero :: timeval where "time_zero = \<lparr> tv_sec = 0, tv_usec = 0 \<rparr>"

definition timeradd :: "timeval \<Rightarrow> timeval \<Rightarrow> timeval" where
  "timeradd a b = (let u = tv_usec a + tv_usec b in
     if u \<ge> 1000000 then \<lparr> tv_sec = tv_sec a + tv_sec b + 1, tv_usec = u - 1000000 \<rparr>
     else \<lparr> tv_sec = tv_sec a + tv_sec b, tv_usec = u \<rparr>)"

definition time_after :: "timeval \<Rightarrow> timeval \<Rightarrow> bool" where
  "time_after a b = (if tv_sec a = tv_sec b then tv_usec a > tv_usec b else tv_sec a > tv_sec b)"

section \<open>Hash tables\<close>

text \<open>
  A table of type \<open>'h\<close> maps keys to (pointers to) entries. \<open>hashtable_items\<close> lists the entries in
  the order in which an iterator visits them. An iterator notices a change of the table by
  \<open>hashtable_version\<close>.
\<close>

record ('h, 'k, 'v) hashtable_ops =
  hashtable_empty :: 'h
  hashtable_put :: "'h \<Rightarrow> 'k \<Rightarrow> 'v \<Rightarrow> 'h"
  hashtable_get :: "'h \<Rightarrow> 'k \<Rightarrow> 'v option"
  hashtable_remove :: "'h \<Rightarrow> 'k \<Rightarrow> 'h"
  hashtable_items :: "'h \<Rightarrow> 'v list"
  hashtable_version :: "'h \<Rightarrow> nat"

definition hashtable_ok :: "('h, 'k, 'v) hashtable_ops \<Rightarrow> bool" where
  "hashtable_ok T \<longleftrightarrow>
     (\<forall>k. hashtable_get T (hashtable_empty T) k = None) \<and>
     (\<forall>h k v. hashtable_get T (hashtable_put T h k v) = (hashtable_get T h)(k \<mapsto> v)) \<and>
     (\<forall>h k. hashtable_get T (hashtable_remove T h k) = (hashtable_get T h)(k := None)) \<and>
     (\<forall>h k v. hashtable_version T h < hashtable_version T (hashtable_put T h k v)) \<and>
     (\<forall>h k. hashtable_remove T h k = h \<or> hashtable_version T h < hashtable_version T (hashtable_remove T h k)) \<and>
     (\<forall>h. \<exists>ks. distinct ks \<and> set ks = dom (hashtable_get T h) \<and>
        hashtable_items T h = map (\<lambda>k. the (hashtable_get T h k)) ks)"

text \<open>\<open>table_le\<close>: the second table is the first one after some changes.\<close>

definition table_le :: "('h, 'k, 'v) hashtable_ops \<Rightarrow> 'h \<Rightarrow> 'h \<Rightarrow> bool" where
  "table_le T h h' \<longleftrightarrow> h = h' \<or> hashtable_version T h < hashtable_version T h'"

lemma table_le_refl [simp]: "table_le T h h"
  by (simp add: table_le_def)

lemma table_le_trans: "table_le T h h' \<Longrightarrow> table_le T h' h'' \<Longrightarrow> table_le T h h''"
  by (auto simp: table_le_def)

lemma hashtable_okD:
  assumes "hashtable_ok T"
  shows "hashtable_get T (hashtable_empty T) k = None"
    "hashtable_get T (hashtable_put T h k v) = (hashtable_get T h)(k \<mapsto> v)"
    "hashtable_get T (hashtable_remove T h k) = (hashtable_get T h)(k := None)"
    "table_le T h (hashtable_put T h k v)" "table_le T h (hashtable_remove T h k)"
  using assms by (simp_all add: hashtable_ok_def table_le_def) metis

lemma hashtable_items_keys:
  assumes "hashtable_ok T"
  obtains ks where "distinct ks" "set ks = dom (hashtable_get T h)"
    "hashtable_items T h = map (\<lambda>k. the (hashtable_get T h k)) ks"
  using assms unfolding hashtable_ok_def by blast

lemma hashtable_items_ran: "hashtable_ok T \<Longrightarrow> set (hashtable_items T h) = ran (hashtable_get T h)"
proof -
  assume "hashtable_ok T"
  then obtain ks where "set ks = dom (hashtable_get T h)"
    "hashtable_items T h = map (\<lambda>k. the (hashtable_get T h k)) ks"
    by (rule hashtable_items_keys)
  then show ?thesis by (force simp: ran_def)
qed

lemma hashtable_items_distinct:
  assumes "hashtable_ok T" and "inj_on (hashtable_get T h) (dom (hashtable_get T h))"
  shows "distinct (hashtable_items T h)"
proof -
  obtain ks where ks: "distinct ks" "set ks = dom (hashtable_get T h)"
    "hashtable_items T h = map (\<lambda>k. the (hashtable_get T h k)) ks"
    by (rule hashtable_items_keys [OF assms(1)])
  have "inj_on (\<lambda>k. the (hashtable_get T h k)) (set ks)"
    using assms(2) ks(2) by (auto simp: inj_on_def dom_def)
  then show ?thesis using ks by (simp add: distinct_map)
qed

section \<open>Heaps of identifiers\<close>

text \<open>
  \<open>ids_heap_alloc\<close> gives an identifier that is not in use, between 1 and the maximum, or a negative
  number when there is none. \<open>ids_in_use\<close> is the abstraction of the heap.
\<close>

record 'i ids_ops =
  ids_heap_alloc :: "'i \<Rightarrow> int \<times> 'i"
  ids_heap_free :: "'i \<Rightarrow> int \<Rightarrow> 'i"
  ids_in_use :: "'i \<Rightarrow> int set"

definition ids_heap_ok :: "'i ids_ops \<Rightarrow> int \<Rightarrow> bool" where
  "ids_heap_ok I mx \<longleftrightarrow>
     (\<forall>i. case ids_heap_alloc I i of (c, i') \<Rightarrow>
        if c < 0 then ids_in_use I i' = ids_in_use I i
        else 0 < c \<and> c \<le> mx \<and> c \<notin> ids_in_use I i \<and> ids_in_use I i' = insert c (ids_in_use I i)) \<and>
     (\<forall>i c. ids_in_use I (ids_heap_free I i c) = ids_in_use I i - {c})"

lemma ids_alloc_fresh:
  assumes "ids_heap_ok I mx" and "ids_heap_alloc I i = (c, i')" and "\<not> c < 0"
  shows "0 < c" "c \<le> mx" "c \<notin> ids_in_use I i" "ids_in_use I i' = insert c (ids_in_use I i)"
  using assms by (auto simp: ids_heap_ok_def split: prod.splits if_splits)

lemma ids_alloc_none:
  "ids_heap_ok I mx \<Longrightarrow> ids_heap_alloc I i = (c, i') \<Longrightarrow> c < 0 \<Longrightarrow> ids_in_use I i' = ids_in_use I i"
  by (auto simp: ids_heap_ok_def split: prod.splits if_splits)

lemma ids_free_in_use: "ids_heap_ok I mx \<Longrightarrow> ids_in_use I (ids_heap_free I i c) = ids_in_use I i - {c}"
  by (simp add: ids_heap_ok_def)

section \<open>An implementation for examples\<close>

definition alist_table :: "(nat \<times> ('k \<times> 'v) list, 'k, 'v) hashtable_ops" where
  "alist_table = \<lparr> hashtable_empty = (0, []),
     hashtable_put = (\<lambda>(n, h) k v. (n + 1, AList.update k v h)),
     hashtable_get = (\<lambda>(n, h). map_of h),
     hashtable_remove = (\<lambda>(n, h) k. (n + 1, AList.delete k h)),
     hashtable_items = (\<lambda>(n, h). map snd (AList.clearjunk h)),
     hashtable_version = fst \<rparr>"

lemma alist_items:
  "\<exists>ks. distinct ks \<and> set ks = dom (map_of h) \<and> map snd (AList.clearjunk h) = map (\<lambda>k. the (map_of h k)) ks"
proof (intro exI conjI)
  show "distinct (map fst (AList.clearjunk h))" by (rule distinct_clearjunk)
  show "set (map fst (AList.clearjunk h)) = dom (map_of h)"
    by (simp add: dom_clearjunk dom_map_of_conv_image_fst)
  have "the (map_of h (fst x)) = snd x" if "x \<in> set (AList.clearjunk h)" for x
    using that map_of_clearjunk [of h] map_of_is_SomeI [OF distinct_clearjunk, of "fst x" "snd x" h] by auto
  then show "map snd (AList.clearjunk h) = map (\<lambda>k. the (map_of h k)) (map fst (AList.clearjunk h))"
    by (simp add: comp_def)
qed

lemma alist_table_ok: "hashtable_ok (alist_table :: (nat \<times> ('k \<times> 'v) list, 'k, 'v) hashtable_ops)"
  by (auto simp: hashtable_ok_def alist_table_def update_conv' delete_conv' alist_items)

text \<open>The identifiers in use, in a list; the next one is above all of them.\<close>

definition list_ids :: "int \<Rightarrow> (int list) ids_ops" where
  "list_ids mx = \<lparr>
     ids_heap_alloc = (\<lambda>i. let c = foldr max i 0 + 1 in if c \<le> mx then (c, c # i) else (-1, i)),
     ids_heap_free = (\<lambda>i c. filter (\<lambda>x. x \<noteq> c) i),
     ids_in_use = set \<rparr>"

lemma foldr_max_ge: "x \<in> set i \<Longrightarrow> x \<le> foldr max i (0::int)" "0 \<le> foldr max i (0::int)"
  by (induction i) auto

lemma list_ids_ok: "ids_heap_ok (list_ids mx) mx"
proof -
  have "foldr max i 0 + 1 \<notin> set i" for i :: "int list"
    using foldr_max_ge(1) [of "foldr max i 0 + 1" i] by auto
  moreover have "0 < foldr max i 0 + 1 \<and> \<not> foldr max i 0 + 1 < 0" for i :: "int list"
    using foldr_max_ge(2) [of i] by simp
  ultimately show ?thesis
    by (auto simp: ids_heap_ok_def list_ids_def Let_def)
qed

end
