(* ===== verification/Mux.thy ===== *)
theory Mux
  imports FlexBuffer Ela Crystal
begin

text \<open>
  The multiplexing stream handler, \<open>src/session/multiplex_handler.c\<close>, with the table of channels of
  \<open>src/session/channels.h\<close>. It carries many channels over one stream: each packet has a header of
  8 bytes with a type, an option and the channel numbers of both ends.

  Channels are reference-counted objects: \<open>mx_heap\<close> maps addresses to live channels, the count is
  the field \<open>ch_refs\<close>, and \<open>deref\<close> of the last reference runs \<open>channel_destroy\<close>. The table of
  channels and the heap of channel numbers are containers of libcrystal (theory \<open>Crystal\<close>): a
  \<open>put\<close> takes a reference, a \<open>get\<close> returns a new one, a \<open>remove\<close> returns the table's.

  The neighbours are functions of the environment \<open>mux_env\<close> and may change the handler's state in
  any way, for instance by calling the handler again: the user's callbacks, the handlers
  above and below, the port-forwarding worker. \<open>mx_trace\<close> records the calls. \<open>mx_log_args\<close> tells
  whether the logging functions of the build evaluate their arguments.
\<close>

section \<open>Data\<close>

definition KEEPALIVE_INTERVAL :: int where "KEEPALIVE_INTERVAL = 30000"
definition KEEPALIVE_TIMEOUT_INTERVAL :: int where "KEEPALIVE_TIMEOUT_INTERVAL = 130000"
definition PROTOCOL_HEAD_LEN :: u64 where "PROTOCOL_HEAD_LEN = 8"
definition MAX_CHANNEL_ID :: int where "MAX_CHANNEL_ID = 2048"

record ProtocolBuffer =
  pb_type :: u8
  pb_option :: u8
  pb_local_channel_id :: u16
  pb_remote_channel_id :: u16
  pb_payload_len :: u16

definition PacketType_ChannelOpen :: u8 where "PacketType_ChannelOpen = 1"
definition PacketType_ChannelOpenConfirmation :: u8 where "PacketType_ChannelOpenConfirmation = 2"
definition PacketType_ChannelData :: u8 where "PacketType_ChannelData = 3"
definition PacketType_ChannelKeepAlive :: u8 where "PacketType_ChannelKeepAlive = 4"
definition PacketType_ChannelPending :: u8 where "PacketType_ChannelPending = 5"
definition PacketType_ChannelResume :: u8 where "PacketType_ChannelResume = 6"
definition PacketType_ChannelClose :: u8 where "PacketType_ChannelClose = 7"

lemmas packet_types = PacketType_ChannelOpen_def PacketType_ChannelOpenConfirmation_def PacketType_ChannelData_def
  PacketType_ChannelKeepAlive_def PacketType_ChannelPending_def PacketType_ChannelResume_def
  PacketType_ChannelClose_def

definition PacketTypeNames :: "string list" where
  "PacketTypeNames = [''N/A'', ''Open'', ''OpenConfirmation'', ''Data'', ''KeepAlive'', ''Pending'',
     ''Resume'', ''Close'']"

datatype ChannelType =
    ChannelType_User | ChannelType_UDP_PortForwarding | ChannelType_TCP_PortForwarding | ChannelType_MAX

definition channel_type_code :: "ChannelType \<Rightarrow> u8" where
  "channel_type_code ty = (case ty of ChannelType_User \<Rightarrow> 0 | ChannelType_UDP_PortForwarding \<Rightarrow> 1
     | ChannelType_TCP_PortForwarding \<Rightarrow> 2 | ChannelType_MAX \<Rightarrow> 3)"

definition channel_type_of :: "u8 \<Rightarrow> ChannelType" where
  "channel_type_of b = (if b = 0 then ChannelType_User else if b = 1 then ChannelType_UDP_PortForwarding
     else if b = 2 then ChannelType_TCP_PortForwarding else ChannelType_MAX)"

datatype ChannelStatus =
    ChannelStatus_Opening | ChannelStatus_Open | ChannelStatus_Pending | ChannelStatus_Closing

type_synonym addr = nat

record Channel =
  ch_mux :: bool    \<comment> \<open>the back pointer is set\<close>
  ch_id :: u16
  ch_remote_id :: u16
  ch_type :: ChannelType
  ch_status :: ChannelStatus
  ch_local_timestamp :: timeval
  ch_remote_timestamp :: timeval
  ch_last_activity :: timeval
  ch_timeout :: int
  ch_sock :: int    \<comment> \<open>of a \<open>TcpChannel\<close>\<close>
  ch_refs :: nat

definition zero_channel :: Channel where
  "zero_channel = \<lparr> ch_mux = False, ch_id = 0, ch_remote_id = 0, ch_type = ChannelType_User,
     ch_status = ChannelStatus_Opening, ch_local_timestamp = time_zero, ch_remote_timestamp = time_zero,
     ch_last_activity = time_zero, ch_timeout = 0, ch_sock = 0, ch_refs = 1 \<rparr>"

datatype mux_event =
    MxWrite "byte list" int
  | MxUp "byte list"
  | MxUpState ElaStreamState
  | MxDownStop int
  | MxOpen u16 "byte list option"
  | MxOpened u16
  | MxClose u16 CloseReason
  | MxData u16 "byte list"
  | MxPending u16
  | MxResume u16

record ('h, 'i) mux =
  mx_channels :: 'h
  mx_ids :: 'i
  mx_heap :: "addr \<rightharpoonup> Channel"
  mx_next :: addr
  mx_worker :: bool
  mx_timer :: bool
  mx_incomplete :: FlexBuffer
  mx_trace :: "mux_event list"

text \<open>The callbacks of a type of channels; a missing callback is \<open>None\<close>.\<close>

record ('h, 'i) ChannelCallbacks =
  channel_open :: "(('h, 'i) mux \<Rightarrow> addr \<Rightarrow> byte list option \<Rightarrow> (bool \<times> ('h, 'i) mux) res) option"
  channel_opened :: "(('h, 'i) mux \<Rightarrow> addr \<Rightarrow> ('h, 'i) mux res) option"
  channel_close :: "(('h, 'i) mux \<Rightarrow> addr \<Rightarrow> CloseReason \<Rightarrow> ('h, 'i) mux res) option"
  channel_data :: "(('h, 'i) mux \<Rightarrow> addr \<Rightarrow> FlexBuffer \<Rightarrow> (bool \<times> ('h, 'i) mux) res) option"
  channel_pending :: "(('h, 'i) mux \<Rightarrow> addr \<Rightarrow> ('h, 'i) mux res) option"
  channel_resume :: "(('h, 'i) mux \<Rightarrow> addr \<Rightarrow> ('h, 'i) mux res) option"

text \<open>The callbacks of the user of the stream, who knows channels by their numbers.\<close>

record ('h, 'i) ElaStreamCallbacks =
  user_open :: "(('h, 'i) mux \<Rightarrow> u16 \<Rightarrow> byte list option \<Rightarrow> (bool \<times> ('h, 'i) mux) res) option"
  user_opened :: "(('h, 'i) mux \<Rightarrow> u16 \<Rightarrow> ('h, 'i) mux res) option"
  user_close :: "(('h, 'i) mux \<Rightarrow> u16 \<Rightarrow> CloseReason \<Rightarrow> ('h, 'i) mux res) option"
  user_data :: "(('h, 'i) mux \<Rightarrow> u16 \<Rightarrow> byte list \<Rightarrow> (bool \<times> ('h, 'i) mux) res) option"
  user_pending :: "(('h, 'i) mux \<Rightarrow> u16 \<Rightarrow> ('h, 'i) mux res) option"
  user_resume :: "(('h, 'i) mux \<Rightarrow> u16 \<Rightarrow> ('h, 'i) mux res) option"

record ('h, 'i) mux_env =
  mx_table :: "('h, u32, addr) hashtable_ops"
  mx_idops :: "'i ids_ops"
  mx_zalloc :: "('h, 'i) mux \<Rightarrow> bool"
  mx_now :: "('h, 'i) mux \<Rightarrow> timeval"
  mx_junk :: "nat \<Rightarrow> byte"
  mx_log_args :: bool
  mx_reliable :: bool
  mx_portforwarding :: bool
  mx_fuel :: nat
  mx_user :: "('h, 'i) ElaStreamCallbacks"
  mx_pf :: "ChannelType \<Rightarrow> ('h, 'i) ChannelCallbacks"
  next_write_mx :: "('h, 'i) mux \<Rightarrow> byte list \<Rightarrow> (int \<times> ('h, 'i) mux) res"
  prev_on_data :: "('h, 'i) mux \<Rightarrow> FlexBuffer \<Rightarrow> ('h, 'i) mux res"
  prev_on_state :: "('h, 'i) mux \<Rightarrow> ElaStreamState \<Rightarrow> ('h, 'i) mux res"
  next_start :: "('h, 'i) mux \<Rightarrow> int"
  next_stop :: "('h, 'i) mux \<Rightarrow> int \<Rightarrow> ('h, 'i) mux res"
  create_timer :: "('h, 'i) mux \<Rightarrow> int"
  worker_start :: "('h, 'i) mux \<Rightarrow> int"
  worker_stop :: "('h, 'i) mux \<Rightarrow> ('h, 'i) mux res"

section \<open>Channels as objects\<close>

definition mx_log :: "('h, 'i) mux \<Rightarrow> mux_event \<Rightarrow> ('h, 'i) mux" where
  "mx_log s e = s\<lparr> mx_trace := mx_trace s @ [e] \<rparr>"

definition get_chan :: "('h, 'i) mux \<Rightarrow> addr \<Rightarrow> Channel res" where
  "get_chan s a = (case mx_heap s a of None \<Rightarrow> Inl BadPointer | Some ch \<Rightarrow> Inr ch)"

definition put_chan :: "('h, 'i) mux \<Rightarrow> addr \<Rightarrow> Channel \<Rightarrow> ('h, 'i) mux" where
  "put_chan s a ch = s\<lparr> mx_heap := (mx_heap s)(a \<mapsto> ch) \<rparr>"

definition mod_chan :: "('h, 'i) mux \<Rightarrow> addr \<Rightarrow> (Channel \<Rightarrow> Channel) \<Rightarrow> ('h, 'i) mux res" where
  "mod_chan s a f = bindr (get_chan s a) (\<lambda>ch. Inr (put_chan s a (f ch)))"

definition chan_ref :: "('h, 'i) mux \<Rightarrow> addr \<Rightarrow> ('h, 'i) mux res" where
  "chan_ref s a = mod_chan s a (\<lambda>ch. ch\<lparr> ch_refs := ch_refs ch + 1 \<rparr>)"

definition channel_destroy :: "('h, 'i) mux_env \<Rightarrow> ('h, 'i) mux \<Rightarrow> Channel \<Rightarrow> ('h, 'i) mux" where
  "channel_destroy env s ch =
     (if ch_id ch \<noteq> 0 \<and> ch_mux ch then s\<lparr> mx_ids := ids_heap_free (mx_idops env) (mx_ids s) (uint (ch_id ch)) \<rparr>
      else s)"

definition chan_deref :: "('h, 'i) mux_env \<Rightarrow> ('h, 'i) mux \<Rightarrow> addr \<Rightarrow> ('h, 'i) mux res" where
  "chan_deref env s a =
     bindr (get_chan s a) (\<lambda>ch.
     if ch_refs ch \<le> 1 then Inr ((channel_destroy env s ch)\<lparr> mx_heap := (mx_heap s)(a := None) \<rparr>)
     else Inr (put_chan s a (ch\<lparr> ch_refs := ch_refs ch - 1 \<rparr>)))"

text \<open>\<open>rc_zalloc\<close>: \<open>None\<close> when out of memory.\<close>

definition chan_alloc :: "('h, 'i) mux_env \<Rightarrow> ('h, 'i) mux \<Rightarrow> addr option \<times> ('h, 'i) mux" where
  "chan_alloc env s =
     (if mx_zalloc env s
      then (Some (mx_next s), s\<lparr> mx_heap := (mx_heap s)(mx_next s \<mapsto> zero_channel), mx_next := mx_next s + 1 \<rparr>)
      else (None, s))"

text \<open>The table of channels, keyed by \<open>(uint32_t)id\<close>.\<close>

definition channels_put :: "('h, 'i) mux_env \<Rightarrow> ('h, 'i) mux \<Rightarrow> addr \<Rightarrow> ('h, 'i) mux res" where
  "channels_put env s a =
     bindr (get_chan s a) (\<lambda>ch.
     chan_ref (s\<lparr> mx_channels := hashtable_put (mx_table env) (mx_channels s) (ucast (ch_id ch)) a \<rparr>) a)"

definition channels_get :: "('h, 'i) mux_env \<Rightarrow> ('h, 'i) mux \<Rightarrow> u32 \<Rightarrow> (addr option \<times> ('h, 'i) mux) res" where
  "channels_get env s k =
     (case hashtable_get (mx_table env) (mx_channels s) k of
        None \<Rightarrow> Inr (None, s)
      | Some a \<Rightarrow> bindr (chan_ref s a) (\<lambda>s. Inr (Some a, s)))"

definition channels_remove :: "('h, 'i) mux_env \<Rightarrow> ('h, 'i) mux \<Rightarrow> u32 \<Rightarrow> ('h, 'i) mux res" where
  "channels_remove env s k =
     (case hashtable_get (mx_table env) (mx_channels s) k of
        None \<Rightarrow> Inr s
      | Some a \<Rightarrow> chan_deref env (s\<lparr> mx_channels := hashtable_remove (mx_table env) (mx_channels s) k \<rparr>) a)"

section \<open>Callbacks\<close>

definition user_channel_open where
  "user_channel_open env s a cookie =
     (case user_open (mx_user env) of None \<Rightarrow> Inr (True, s)
      | Some f \<Rightarrow> bindr (get_chan s a) (\<lambda>ch. f s (ch_id ch) cookie))"

definition user_channel_opened where
  "user_channel_opened env s a =
     (case user_opened (mx_user env) of None \<Rightarrow> Inr s
      | Some f \<Rightarrow> bindr (get_chan s a) (\<lambda>ch. f s (ch_id ch)))"

definition user_channel_close where
  "user_channel_close env s a reason =
     (case user_close (mx_user env) of None \<Rightarrow> Inr s
      | Some f \<Rightarrow> bindr (get_chan s a) (\<lambda>ch. f s (ch_id ch) reason))"

definition user_channel_data where
  "user_channel_data env s a buf =
     (case user_data (mx_user env) of None \<Rightarrow> Inr (True, s)
      | Some f \<Rightarrow> bindr (get_chan s a) (\<lambda>ch.
          bindr (flex_buffer_ptr buf (unat (flex_buffer_size buf))) (\<lambda>bs. f s (ch_id ch) bs)))"

definition user_channel_pending where
  "user_channel_pending env s a =
     (case user_pending (mx_user env) of None \<Rightarrow> Inr s
      | Some f \<Rightarrow> bindr (get_chan s a) (\<lambda>ch. f s (ch_id ch)))"

definition user_channel_resume where
  "user_channel_resume env s a =
     (case user_resume (mx_user env) of None \<Rightarrow> Inr s
      | Some f \<Rightarrow> bindr (get_chan s a) (\<lambda>ch. f s (ch_id ch)))"

definition user_channel_callbacks :: "('h, 'i) mux_env \<Rightarrow> ('h, 'i) ChannelCallbacks" where
  "user_channel_callbacks env = \<lparr> channel_open = Some (user_channel_open env),
     channel_opened = Some (user_channel_opened env), channel_close = Some (user_channel_close env),
     channel_data = Some (user_channel_data env), channel_pending = Some (user_channel_pending env),
     channel_resume = Some (user_channel_resume env) \<rparr>"

text \<open>
  The array \<open>callbacks\<close>: the entry of user channels is set by \<open>multiplex_handler_create\<close>, the others by
  the port-forwarding worker with \<open>multiplex_handler_set_channel_callbacks\<close>.
\<close>

definition callbacks_of :: "('h, 'i) mux_env \<Rightarrow> ChannelType \<Rightarrow> ('h, 'i) ChannelCallbacks" where
  "callbacks_of env ty = (if ty = ChannelType_User then user_channel_callbacks env else mx_pf env ty)"

definition multiplex_handler_set_channel_callbacks ::
    "('h, 'i) mux_env \<Rightarrow> ChannelType \<Rightarrow> ('h, 'i) ChannelCallbacks \<Rightarrow> ('h, 'i) mux_env res" where
  "multiplex_handler_set_channel_callbacks env ty cbs =
     bindr (g_assert (ty \<noteq> ChannelType_MAX)) (\<lambda>_. Inr (env\<lparr> mx_pf := (mx_pf env)(ty := cbs) \<rparr>))"

definition notify_channel_open where
  "notify_channel_open env s a cookie =
     bindr (get_chan s a) (\<lambda>ch.
     let s = mx_log s (MxOpen (ch_id ch) cookie) in
     case channel_open (callbacks_of env (ch_type ch)) of None \<Rightarrow> Inr (True, s) | Some f \<Rightarrow> f s a cookie)"

definition notify_channel_opened where
  "notify_channel_opened env s a =
     bindr (get_chan s a) (\<lambda>ch.
     let s = mx_log s (MxOpened (ch_id ch)) in
     case channel_opened (callbacks_of env (ch_type ch)) of None \<Rightarrow> Inr s | Some f \<Rightarrow> f s a)"

definition notify_channel_close where
  "notify_channel_close env s a reason =
     bindr (get_chan s a) (\<lambda>ch.
     let s = mx_log s (MxClose (ch_id ch) reason) in
     case channel_close (callbacks_of env (ch_type ch)) of None \<Rightarrow> Inr s | Some f \<Rightarrow> f s a reason)"

definition notify_channel_data where
  "notify_channel_data env s a buf =
     bindr (get_chan s a) (\<lambda>ch.
     let s = mx_log s (MxData (ch_id ch) (flex_data buf)) in
     case channel_data (callbacks_of env (ch_type ch)) of None \<Rightarrow> Inr (True, s) | Some f \<Rightarrow> f s a buf)"

definition notify_channel_pending where
  "notify_channel_pending env s a =
     bindr (get_chan s a) (\<lambda>ch.
     let s = mx_log s (MxPending (ch_id ch)) in
     case channel_pending (callbacks_of env (ch_type ch)) of None \<Rightarrow> Inr s | Some f \<Rightarrow> f s a)"

definition notify_channel_resume where
  "notify_channel_resume env s a =
     bindr (get_chan s a) (\<lambda>ch.
     let s = mx_log s (MxResume (ch_id ch)) in
     case channel_resume (callbacks_of env (ch_type ch)) of None \<Rightarrow> Inr s | Some f \<Rightarrow> f s a)"

definition update_remote_timestamp :: "('h, 'i) mux_env \<Rightarrow> ('h, 'i) mux \<Rightarrow> addr \<Rightarrow> ('h, 'i) mux res" where
  "update_remote_timestamp env s a =
     mod_chan s a (\<lambda>ch. ch\<lparr> ch_remote_timestamp := mx_now env s, ch_last_activity := mx_now env s \<rparr>)"

section \<open>Sending\<close>

text \<open>The header as it is on the wire: the peer's number first.\<close>

definition protocol_header :: "u8 \<Rightarrow> u8 \<Rightarrow> u16 \<Rightarrow> u16 \<Rightarrow> u16 \<Rightarrow> byte list" where
  "protocol_header type option local_id remote_id len =
     [type, option] @ htons_bytes remote_id @ htons_bytes local_id @ htons_bytes len"

text \<open>Results of type \<open>int\<close>: \<open>int_of_ssize\<close> is the conversion \<open>(int)\<close> of a 64-bit value.\<close>

definition int_of_ssize :: "int \<Rightarrow> int" where
  "int_of_ssize n = sint (of_int n :: u32)"

definition general_err :: "u32 \<Rightarrow> int" where
  "general_err code = ssize_of_int (ELA_GENERAL_ERROR code)"

text \<open>
  \<open>buf\<close> is \<open>None\<close> for NULL. The caller's buffer keeps the header in front of its payload; the
  result of the model is the status and the state.
\<close>

definition multiplex_handler_send_packet ::
    "('h, 'i) mux_env \<Rightarrow> ('h, 'i) mux \<Rightarrow> u8 \<Rightarrow> u8 \<Rightarrow> u16 \<Rightarrow> u16 \<Rightarrow> FlexBuffer option \<Rightarrow> (int \<times> ('h, 'i) mux) res" where
  "multiplex_handler_send_packet env s type option local_id remote_id bufo =
     bindr (g_assert (type \<ge> PacketType_ChannelOpen \<and> type \<le> PacketType_ChannelClose)) (\<lambda>_.
     let buf = (case bufo of None \<Rightarrow> flex_buffer_alloca (mx_junk env) FLEX_PADDING_LEN FLEX_PADDING_LEN
                | Some b \<Rightarrow> b);
         len = flex_buffer_size buf in
     bindr (flex_buffer_backward_offset buf PROTOCOL_HEAD_LEN) (\<lambda>(_, buf).
     bindr (flex_buffer_mutable_ptr buf (protocol_header type option local_id remote_id (ucast len))) (\<lambda>buf.
     bindr (flex_buffer_ptr buf (unat (flex_buffer_size buf))) (\<lambda>bytes.
     bindr (next_write_mx env s bytes) (\<lambda>(sent, s).
     let s = mx_log s (MxWrite bytes sent) in
     if sent < 0 then Inr (int_of_ssize sent, s) else Inr (int_of_ssize (uint len), s))))))"

section \<open>Receiving\<close>

definition header_of :: "byte list \<Rightarrow> ProtocolBuffer" where
  "header_of b = \<lparr> pb_type = b ! 0, pb_option = b ! 1, pb_local_channel_id = ntohs_bytes (b ! 2) (b ! 3),
     pb_remote_channel_id = ntohs_bytes (b ! 4) (b ! 5), pb_payload_len = ntohs_bytes (b ! 6) (b ! 7) \<rparr>"

definition parse_header :: "FlexBuffer \<Rightarrow> ProtocolBuffer res" where
  "parse_header buf = bindr (flex_buffer_ptr buf 8) (\<lambda>b. Inr (header_of b))"

text \<open>The read of \<open>PacketTypeNames\<close> for the log.\<close>

definition log_packet_type :: "('h, 'i) mux_env \<Rightarrow> u8 \<Rightarrow> unit res" where
  "log_packet_type env type =
     (if \<not> mx_log_args env \<or> unat type < length PacketTypeNames then Inr () else Inl OutOfBounds)"

text \<open>
  The part of \<open>multiplex_handler_notify_packet\<close> that creates the channel of an \<open>Open\<close> packet; \<open>None\<close>
  when the function returns early.
\<close>

definition accept_channel ::
    "('h, 'i) mux_env \<Rightarrow> ('h, 'i) mux \<Rightarrow> ProtocolBuffer \<Rightarrow> (addr option \<times> ('h, 'i) mux) res" where
  "accept_channel env s pb =
     (let type = channel_type_of (pb_option pb) in
      if type = ChannelType_MAX \<or>
         (type = ChannelType_UDP_PortForwarding \<and> \<not> mx_worker s) \<or>
         (type = ChannelType_TCP_PortForwarding \<and> (\<not> mx_worker s \<or> \<not> mx_reliable env))
      then Inr (None, s)
      else (case chan_alloc env s of
        (None, s) \<Rightarrow> Inr (None, s)
      | (Some a, s) \<Rightarrow>
          (let (cid, i) = ids_heap_alloc (mx_idops env) (mx_ids s); s = s\<lparr> mx_ids := i \<rparr> in
           if cid < 0 then
             bindr (get_chan s a) (\<lambda>ch.
             bindr (multiplex_handler_send_packet env s PacketType_ChannelOpenConfirmation 0 0
                      (ch_remote_id ch) None) (\<lambda>(_, s).
             bindr (chan_deref env s a) (\<lambda>s. Inr (None, s))))
           else
             bindr (mod_chan s a (\<lambda>ch. ch\<lparr> ch_mux := True, ch_type := type, ch_id := of_int cid,
                      ch_remote_id := pb_remote_channel_id pb, ch_status := ChannelStatus_Opening \<rparr>)) (\<lambda>s.
             bindr (update_remote_timestamp env s a) (\<lambda>s.
             bindr (channels_put env s a) (\<lambda>s. Inr (Some a, s)))))))"

definition on_packet_open where
  "on_packet_open env s a pb payload =
     bindr (notify_channel_open env s a (if pb_payload_len pb \<noteq> 0 then Some payload else None)) (\<lambda>(ok, s).
     bindr (get_chan s a) (\<lambda>ch.
     bindr (multiplex_handler_send_packet env s PacketType_ChannelOpenConfirmation 0
              (if ok then ch_id ch else 0) (ch_remote_id ch) None) (\<lambda>(rc, s).
     bindr (if \<not> ok \<or> rc < 0 then
              bindr (if ok then notify_channel_close env s a CloseReason_Error else Inr s) (\<lambda>s.
              bindr (get_chan s a) (\<lambda>ch. channels_remove env s (ucast (ch_id ch))))
            else
              bindr (mod_chan s a (\<lambda>ch. ch\<lparr> ch_status := ChannelStatus_Open \<rparr>)) (\<lambda>s.
              bindr (notify_channel_opened env s a) (\<lambda>s. update_remote_timestamp env s a))) (\<lambda>s.
     chan_deref env s a))))"

definition on_packet_confirmation where
  "on_packet_confirmation env s a pb =
     bindr (get_chan s a) (\<lambda>ch.
     if ch_status ch \<noteq> ChannelStatus_Opening then chan_deref env s a
     else
       bindr (if pb_remote_channel_id pb \<noteq> 0 then
                bindr (mod_chan s a (\<lambda>ch. ch\<lparr> ch_status := ChannelStatus_Open,
                         ch_remote_id := pb_remote_channel_id pb \<rparr>)) (\<lambda>s.
                bindr (notify_channel_opened env s a) (\<lambda>s. update_remote_timestamp env s a))
              else
                bindr (notify_channel_close env s a CloseReason_Error) (\<lambda>s.
                bindr (get_chan s a) (\<lambda>ch. channels_remove env s (ucast (ch_id ch))))) (\<lambda>s.
       chan_deref env s a))"

definition on_packet_data where
  "on_packet_data env s a buf =
     bindr (get_chan s a) (\<lambda>ch.
     if ch_status ch \<noteq> ChannelStatus_Pending \<and> ch_status ch \<noteq> ChannelStatus_Open then chan_deref env s a
     else
       bindr (flex_buffer_forward_offset buf PROTOCOL_HEAD_LEN) (\<lambda>(_, buf).
       bindr (notify_channel_data env s a buf) (\<lambda>(ok, s).
       bindr (if \<not> ok then
                bindr (notify_channel_close env s a CloseReason_Error) (\<lambda>s.
                bindr (get_chan s a) (\<lambda>ch. channels_remove env s (ucast (ch_id ch))))
              else update_remote_timestamp env s a) (\<lambda>s.
       chan_deref env s a))))"

definition on_packet_keepalive where
  "on_packet_keepalive env s a =
     bindr (mod_chan s a (\<lambda>ch. ch\<lparr> ch_remote_timestamp := mx_now env s \<rparr>)) (\<lambda>s. chan_deref env s a)"

definition on_packet_pending where
  "on_packet_pending env s a =
     bindr (get_chan s a) (\<lambda>ch.
     if ch_status ch \<noteq> ChannelStatus_Open then chan_deref env s a
     else
       bindr (mod_chan s a (\<lambda>ch. ch\<lparr> ch_status := ChannelStatus_Pending \<rparr>)) (\<lambda>s.
       bindr (notify_channel_pending env s a) (\<lambda>s.
       bindr (update_remote_timestamp env s a) (\<lambda>s. chan_deref env s a))))"

definition on_packet_resume where
  "on_packet_resume env s a =
     bindr (get_chan s a) (\<lambda>ch.
     if ch_status ch \<noteq> ChannelStatus_Pending then chan_deref env s a
     else
       bindr (mod_chan s a (\<lambda>ch. ch\<lparr> ch_status := ChannelStatus_Open \<rparr>)) (\<lambda>s.
       bindr (notify_channel_resume env s a) (\<lambda>s.
       bindr (update_remote_timestamp env s a) (\<lambda>s. chan_deref env s a))))"

definition on_packet_close where
  "on_packet_close env s a =
     bindr (notify_channel_close env s a CloseReason_Normal) (\<lambda>s.
     bindr (get_chan s a) (\<lambda>ch.
     bindr (channels_remove env s (ucast (ch_id ch))) (\<lambda>s. chan_deref env s a)))"

definition dispatch_packet where
  "dispatch_packet env s a pb buf payload =
     (if pb_type pb = PacketType_ChannelOpen then on_packet_open env s a pb payload
      else if pb_type pb = PacketType_ChannelOpenConfirmation then on_packet_confirmation env s a pb
      else if pb_type pb = PacketType_ChannelData then on_packet_data env s a buf
      else if pb_type pb = PacketType_ChannelKeepAlive then on_packet_keepalive env s a
      else if pb_type pb = PacketType_ChannelPending then on_packet_pending env s a
      else if pb_type pb = PacketType_ChannelResume then on_packet_resume env s a
      else if pb_type pb = PacketType_ChannelClose then on_packet_close env s a
      else chan_deref env s a)"

text \<open>
  The function converts the numbers of the header in place; nobody reads the header afterwards, so
  the model does not write the converted numbers back.
\<close>

definition multiplex_handler_notify_packet ::
    "('h, 'i) mux_env \<Rightarrow> ('h, 'i) mux \<Rightarrow> FlexBuffer \<Rightarrow> ('h, 'i) mux res" where
  "multiplex_handler_notify_packet env s buf =
     bindr (g_assert (flex_buffer_size buf \<ge> PROTOCOL_HEAD_LEN)) (\<lambda>_.
     if flex_buffer_size buf < PROTOCOL_HEAD_LEN then Inr s
     else
       bindr (parse_header buf) (\<lambda>pb.
       if flex_buffer_size buf \<noteq> ucast (pb_payload_len pb) + PROTOCOL_HEAD_LEN then Inr s
       else if pb_remote_channel_id pb = 0 \<and> pb_local_channel_id pb = 0 \<and> pb_type pb = PacketType_ChannelData then
         bindr (flex_buffer_forward_offset buf PROTOCOL_HEAD_LEN) (\<lambda>(_, buf).
         prev_on_data env (mx_log s (MxUp (flex_data buf))) buf)
       else
         bindr (log_packet_type env (pb_type pb)) (\<lambda>_.
         bindr (if pb_type pb = PacketType_ChannelOpen then accept_channel env s pb
                else channels_get env s (ucast (pb_local_channel_id pb))) (\<lambda>(r, s).
         case r of None \<Rightarrow> Inr s
         | Some a \<Rightarrow> dispatch_packet env s a pb buf (drop 8 (flex_data buf))))))"

text \<open>
  The stream mode: \<open>incomplete_buf\<close> collects a header, then a packet. Each turn of the loop but the last
  takes at least one byte of \<open>buf\<close>, or handles a packet.
\<close>

definition set_incomplete :: "('h, 'i) mux \<Rightarrow> FlexBuffer \<Rightarrow> ('h, 'i) mux" where
  "set_incomplete s b = s\<lparr> mx_incomplete := b \<rparr>"

text \<open>\<open>flex_buffer_append2\<close> to \<open>incomplete_buf\<close>, then \<open>flex_buffer_forward_offset\<close> on the source.\<close>

definition take_over :: "('h, 'i) mux \<Rightarrow> FlexBuffer \<Rightarrow> u64 \<Rightarrow> (FlexBuffer \<times> ('h, 'i) mux) res" where
  "take_over s buf n =
     bindr (flex_buffer_append2 (mx_incomplete s) buf n) (\<lambda>inc.
     bindr (flex_buffer_forward_offset buf n) (\<lambda>(_, buf). Inr (buf, set_incomplete s inc)))"

fun notify_data_loop :: "nat \<Rightarrow> ('h, 'i) mux_env \<Rightarrow> ('h, 'i) mux \<Rightarrow> FlexBuffer \<Rightarrow> ('h, 'i) mux res" where
  "notify_data_loop 0 env s buf = Inl Diverges"
| "notify_data_loop (Suc fuel) env s buf =
     (if flex_buffer_size buf = 0 then Inr s
      else if flex_buffer_size (mx_incomplete s) + flex_buffer_size buf < PROTOCOL_HEAD_LEN then
        bindr (flex_buffer_append (mx_incomplete s) buf) (\<lambda>inc. Inr (set_incomplete s inc))
      else
        bindr (if flex_buffer_size (mx_incomplete s) < PROTOCOL_HEAD_LEN
               then take_over s buf (PROTOCOL_HEAD_LEN - flex_buffer_size (mx_incomplete s))
               else Inr (buf, s)) (\<lambda>(buf, s).
        bindr (parse_header (mx_incomplete s)) (\<lambda>pb.
        let payload_len = ucast (pb_payload_len pb) :: u64 in
        if payload_len + PROTOCOL_HEAD_LEN > flex_buffer_size (mx_incomplete s) + flex_buffer_size buf then
          bindr (flex_buffer_append (mx_incomplete s) buf) (\<lambda>inc. Inr (set_incomplete s inc))
        else
          bindr (if payload_len + PROTOCOL_HEAD_LEN > flex_buffer_size (mx_incomplete s)
                 then take_over s buf (payload_len + PROTOCOL_HEAD_LEN - flex_buffer_size (mx_incomplete s))
                 else Inr (buf, s)) (\<lambda>(buf, s).
          bindr (multiplex_handler_notify_packet env s (mx_incomplete s)) (\<lambda>s.
          notify_data_loop fuel env
            (set_incomplete s (flex_buffer_reset (mx_incomplete s) FLEX_PADDING_LEN)) buf)))))"

definition multiplex_handler_notify_data ::
    "('h, 'i) mux_env \<Rightarrow> ('h, 'i) mux \<Rightarrow> FlexBuffer \<Rightarrow> ('h, 'i) mux res" where
  "multiplex_handler_notify_data env s buf =
     bindr (g_assert (flex_buffer_size buf \<noteq> 0)) (\<lambda>_.
     notify_data_loop (Suc (Suc (unat (flex_buffer_size buf)))) env s buf)"

definition multiplex_handler_on_data ::
    "('h, 'i) mux_env \<Rightarrow> ('h, 'i) mux \<Rightarrow> FlexBuffer \<Rightarrow> ('h, 'i) mux res" where
  "multiplex_handler_on_data env s buf =
     (if mx_reliable env then multiplex_handler_notify_data env s buf
      else multiplex_handler_notify_packet env s buf)"

section \<open>The interface of the multiplexer\<close>

text \<open>The loop of \<open>multiplex_handler_close_channels\<close>; the iterator is the items still to visit and the
  version of the table it expects. \<open>channels_iterator_next\<close> fails when the table has another version.\<close>

definition iterator_remove :: "('h, 'i) mux_env \<Rightarrow> ('h, 'i) mux \<Rightarrow> addr \<Rightarrow> ('h, 'i) mux res" where
  "iterator_remove env s a =
     bindr (get_chan s a) (\<lambda>ch.
     chan_deref env (s\<lparr> mx_channels := hashtable_remove (mx_table env) (mx_channels s) (ucast (ch_id ch)) \<rparr>) a)"

fun close_iter :: "nat \<Rightarrow> ('h, 'i) mux_env \<Rightarrow> ('h, 'i) mux \<Rightarrow> addr list \<Rightarrow> nat \<Rightarrow> CloseReason \<Rightarrow> ('h, 'i) mux res" where
  "close_iter 0 env s it ver reason = Inl Diverges"
| "close_iter (Suc fuel) env s it ver reason =
     (case it of
        [] \<Rightarrow> Inr s
      | a # it' \<Rightarrow>
          if hashtable_version (mx_table env) (mx_channels s) \<noteq> ver then
            close_iter fuel env s (hashtable_items (mx_table env) (mx_channels s))
              (hashtable_version (mx_table env) (mx_channels s)) reason
          else
            bindr (chan_ref s a) (\<lambda>s.
            bindr (iterator_remove env s a) (\<lambda>s.
            let ver = hashtable_version (mx_table env) (mx_channels s) in
            bindr (notify_channel_close env s a reason) (\<lambda>s.
            bindr (chan_deref env s a) (\<lambda>s.
            close_iter fuel env s it' ver reason)))))"

definition multiplex_handler_close_channels ::
    "('h, 'i) mux_env \<Rightarrow> ('h, 'i) mux \<Rightarrow> CloseReason \<Rightarrow> ('h, 'i) mux res" where
  "multiplex_handler_close_channels env s reason =
     close_iter (mx_fuel env) env s (hashtable_items (mx_table env) (mx_channels s))
       (hashtable_version (mx_table env) (mx_channels s)) reason"

text \<open>\<open>sock\<close> is the variadic argument of TCP channels.\<close>

definition multiplex_handler_open_channel ::
    "('h, 'i) mux_env \<Rightarrow> ('h, 'i) mux \<Rightarrow> ChannelType \<Rightarrow> byte list option \<Rightarrow> int \<Rightarrow> int \<Rightarrow> (int \<times> ('h, 'i) mux) res" where
  "multiplex_handler_open_channel env s type cookie timeout sock =
     bindr (g_assert (case type of ChannelType_User \<Rightarrow> True
              | ChannelType_UDP_PortForwarding \<Rightarrow> mx_portforwarding env
              | ChannelType_TCP_PortForwarding \<Rightarrow> mx_portforwarding env \<and> mx_reliable env
              | ChannelType_MAX \<Rightarrow> False)) (\<lambda>_.
     case chan_alloc env s of
       (None, s) \<Rightarrow> Inr (general_err ELAERR_OUT_OF_MEMORY, s)
     | (Some a, s) \<Rightarrow>
         (let (cid, i) = ids_heap_alloc (mx_idops env) (mx_ids s); s = s\<lparr> mx_ids := i \<rparr> in
          if cid < 0 then
            bindr (chan_deref env s a) (\<lambda>s. Inr (general_err ELAERR_LIMIT_EXCEEDED, s))
          else
            bindr (mod_chan s a (\<lambda>ch. ch\<lparr> ch_mux := True, ch_type := type, ch_id := of_int cid,
                     ch_remote_id := 0, ch_status := ChannelStatus_Opening, ch_timeout := timeout \<rparr>)) (\<lambda>s.
            bindr (update_remote_timestamp env s a) (\<lambda>s.
            bindr (if type = ChannelType_TCP_PortForwarding
                   then mod_chan s a (\<lambda>ch. ch\<lparr> ch_sock := sock \<rparr>) else Inr s) (\<lambda>s.
            bindr (channels_put env s a) (\<lambda>s.
            bindr (case cookie of None \<Rightarrow> Inr None
                   | Some str \<Rightarrow>
                       bindr (flex_buffer_from (mx_junk env) FLEX_PADDING_LEN (str @ [0]) (of_nat (length str + 1)))
                         (\<lambda>b. Inr (Some b))) (\<lambda>buf.
            bindr (get_chan s a) (\<lambda>ch.
            bindr (multiplex_handler_send_packet env s PacketType_ChannelOpen (channel_type_code type)
                     (ch_id ch) (ch_remote_id ch) buf) (\<lambda>(rc, s).
            bindr (chan_deref env s a) (\<lambda>s.
            if rc < 0 then bindr (channels_remove env s (of_int cid)) (\<lambda>s. Inr (rc, s))
            else Inr (cid, s)))))))))))"

definition multiplex_handler_close_channel ::
    "('h, 'i) mux_env \<Rightarrow> ('h, 'i) mux \<Rightarrow> int \<Rightarrow> (int \<times> ('h, 'i) mux) res" where
  "multiplex_handler_close_channel env s cid =
     bindr (g_assert (cid > 0)) (\<lambda>_.
     bindr (channels_get env s (of_int cid)) (\<lambda>(r, s).
     case r of None \<Rightarrow> Inr (general_err ELAERR_NOT_EXIST, s)
     | Some a \<Rightarrow>
         bindr (get_chan s a) (\<lambda>ch.
         bindr (if ch_remote_id ch \<noteq> 0 then
                  bindr (multiplex_handler_send_packet env s PacketType_ChannelClose 0 (ch_id ch)
                           (ch_remote_id ch) None) (\<lambda>(_, s). Inr s)
                else Inr s) (\<lambda>s.
         bindr (notify_channel_close env s a CloseReason_Normal) (\<lambda>s.
         bindr (channels_remove env s (of_int cid)) (\<lambda>s.
         bindr (chan_deref env s a) (\<lambda>s. Inr (0, s))))))))"

text \<open>
  \<open>write\<close>, \<open>pend\<close> and \<open>resume\<close> share their guards: \<open>with_open_channel\<close> looks the channel up, checks
  its status and its remote number and releases it at the end.
\<close>

definition with_open_channel where
  "with_open_channel env s cid body =
     bindr (channels_get env s (of_int cid)) (\<lambda>(r, s).
     case r of None \<Rightarrow> Inr (general_err ELAERR_NOT_EXIST, s)
     | Some a \<Rightarrow>
         bindr (get_chan s a) (\<lambda>ch.
         if ch_status ch \<noteq> ChannelStatus_Open \<and> ch_status ch \<noteq> ChannelStatus_Pending then
           bindr (chan_deref env s a) (\<lambda>s. Inr (general_err ELAERR_WRONG_STATE, s))
         else if ch_remote_id ch = 0 then
           bindr (chan_deref env s a) (\<lambda>s. Inr (general_err ELAERR_WRONG_STATE, s))
         else
           bindr (body s a ch) (\<lambda>(rc, s).
           bindr (chan_deref env s a) (\<lambda>s. Inr (rc, s)))))"

definition update_local_timestamp where
  "update_local_timestamp env s a =
     mod_chan s a (\<lambda>ch. ch\<lparr> ch_local_timestamp := mx_now env s, ch_last_activity := mx_now env s \<rparr>)"

definition multiplex_handler_write_channel ::
    "('h, 'i) mux_env \<Rightarrow> ('h, 'i) mux \<Rightarrow> int \<Rightarrow> FlexBuffer \<Rightarrow> (int \<times> ('h, 'i) mux) res" where
  "multiplex_handler_write_channel env s cid buf =
     bindr (g_assert (cid \<ge> 0)) (\<lambda>_.
     if cid = 0 then multiplex_handler_send_packet env s PacketType_ChannelData 0 0 0 (Some buf)
     else
       with_open_channel env s cid (\<lambda>s a ch.
         bindr (multiplex_handler_send_packet env s PacketType_ChannelData 0 (ch_id ch) (ch_remote_id ch)
                  (Some buf)) (\<lambda>(rc, s).
         bindr (if rc \<ge> 0 then update_local_timestamp env s a else Inr s) (\<lambda>s. Inr (rc, s)))))"

definition multiplex_handler_pend_channel ::
    "('h, 'i) mux_env \<Rightarrow> ('h, 'i) mux \<Rightarrow> int \<Rightarrow> (int \<times> ('h, 'i) mux) res" where
  "multiplex_handler_pend_channel env s cid =
     bindr (g_assert (cid > 0)) (\<lambda>_.
     with_open_channel env s cid (\<lambda>s a ch.
       bindr (multiplex_handler_send_packet env s PacketType_ChannelPending 0 (ch_id ch) (ch_remote_id ch)
                None) (\<lambda>(rc, s).
       bindr (if rc = 0 then update_local_timestamp env s a else Inr s) (\<lambda>s. Inr (rc, s)))))"

definition multiplex_handler_resume_channel ::
    "('h, 'i) mux_env \<Rightarrow> ('h, 'i) mux \<Rightarrow> int \<Rightarrow> (int \<times> ('h, 'i) mux) res" where
  "multiplex_handler_resume_channel env s cid =
     bindr (g_assert (cid > 0)) (\<lambda>_.
     with_open_channel env s cid (\<lambda>s a ch.
       bindr (multiplex_handler_send_packet env s PacketType_ChannelResume 0 (ch_id ch) (ch_remote_id ch)
                None) (\<lambda>(rc, s).
       bindr (if rc = 0 then update_local_timestamp env s a else Inr s) (\<lambda>s. Inr (rc, s)))))"

definition multiplex_handler_write ::
    "('h, 'i) mux_env \<Rightarrow> ('h, 'i) mux \<Rightarrow> FlexBuffer \<Rightarrow> (int \<times> ('h, 'i) mux) res" where
  "multiplex_handler_write env s buf = multiplex_handler_write_channel env s 0 buf"

section \<open>The check point\<close>

text \<open>
  Milliseconds between two times: each summand is converted to \<open>int\<close> (32 bits), the division of
  the microseconds truncates towards zero.
\<close>

definition tdiv :: "int \<Rightarrow> int \<Rightarrow> int" where
  "tdiv a b = sgn a * sgn b * (\<bar>a\<bar> div \<bar>b\<bar>)"

definition interval_ms :: "timeval \<Rightarrow> timeval \<Rightarrow> int" where
  "interval_ms now t =
     sint ((of_int ((tv_sec now - tv_sec t) * 1000) :: u32) + of_int (tdiv (tv_usec now - tv_usec t) 1000))"

fun checkpoint_iter ::
    "nat \<Rightarrow> ('h, 'i) mux_env \<Rightarrow> ('h, 'i) mux \<Rightarrow> timeval \<Rightarrow> addr list \<Rightarrow> nat \<Rightarrow> ('h, 'i) mux res" where
  "checkpoint_iter 0 env s now it ver = Inl Diverges"
| "checkpoint_iter (Suc fuel) env s now it ver =
     (case it of
        [] \<Rightarrow> Inr s
      | a # it' \<Rightarrow>
          if hashtable_version (mx_table env) (mx_channels s) \<noteq> ver then
            checkpoint_iter fuel env s (mx_now env s) (hashtable_items (mx_table env) (mx_channels s))
              (hashtable_version (mx_table env) (mx_channels s))
          else
            bindr (chan_ref s a) (\<lambda>s.
            bindr (get_chan s a) (\<lambda>ch.
            if (ch_timeout ch \<noteq> 0 \<and>
                  interval_ms now (ch_last_activity ch) \<ge> int_of_ssize (ch_timeout ch * 1000)) \<or>
               interval_ms now (ch_remote_timestamp ch) \<ge> KEEPALIVE_TIMEOUT_INTERVAL then
              bindr (notify_channel_close env s a CloseReason_Timeout) (\<lambda>s.
              bindr (if hashtable_version (mx_table env) (mx_channels s) \<noteq> ver then Inr (ver, s)
                     else bindr (iterator_remove env s a) (\<lambda>s.
                       Inr (hashtable_version (mx_table env) (mx_channels s), s))) (\<lambda>(ver, s).
              bindr (chan_deref env s a) (\<lambda>s.
              checkpoint_iter fuel env s now it' ver)))
            else
              bindr (if interval_ms now (ch_local_timestamp ch) \<ge> KEEPALIVE_INTERVAL then
                       bindr (multiplex_handler_send_packet env s PacketType_ChannelKeepAlive 0 (ch_id ch)
                                (ch_remote_id ch) None) (\<lambda>(rc, s).
                       if rc = 0 then mod_chan s a (\<lambda>ch. ch\<lparr> ch_local_timestamp := now \<rparr>) else Inr s)
                     else Inr s) (\<lambda>s.
              bindr (chan_deref env s a) (\<lambda>s.
              checkpoint_iter fuel env s now it' ver)))))"

definition multiplex_handler_checkpoint :: "('h, 'i) mux_env \<Rightarrow> ('h, 'i) mux \<Rightarrow> ('h, 'i) mux res" where
  "multiplex_handler_checkpoint env s =
     checkpoint_iter (mx_fuel env) env s (mx_now env s) (hashtable_items (mx_table env) (mx_channels s))
       (hashtable_version (mx_table env) (mx_channels s))"

section \<open>The stream handler interface\<close>

definition multiplex_handler_start :: "('h, 'i) mux_env \<Rightarrow> ('h, 'i) mux \<Rightarrow> int \<times> ('h, 'i) mux" where
  "multiplex_handler_start env s =
     (let rc = next_start env s in
      if rc \<noteq> 0 then (rc, s)
      else
        (let rc = (if \<not> mx_reliable env then create_timer env s else 0);
             s = (if \<not> mx_reliable env \<and> rc \<ge> 0 then s\<lparr> mx_timer := True \<rparr> else s) in
         if rc < 0 then (rc, s)
         else
           (let rc = (if mx_worker s then worker_start env s else 0) in
            if rc < 0 then (rc, s) else (0, s))))"

definition multiplex_handler_stop :: "('h, 'i) mux_env \<Rightarrow> ('h, 'i) mux \<Rightarrow> int \<Rightarrow> ('h, 'i) mux res" where
  "multiplex_handler_stop env s error =
     bindr (multiplex_handler_close_channels env s CloseReason_Normal) (\<lambda>s.
     let s = s\<lparr> mx_timer := False \<rparr> in
     bindr (if mx_worker s then worker_stop env s else Inr s) (\<lambda>s.
     next_stop env (mx_log s (MxDownStop error)) error))"

definition multiplex_handler_on_state_changed ::
    "('h, 'i) mux_env \<Rightarrow> ('h, 'i) mux \<Rightarrow> ElaStreamState \<Rightarrow> ('h, 'i) mux res" where
  "multiplex_handler_on_state_changed env s st =
     bindr (if st = ElaStreamState_closed \<or> st = ElaStreamState_failed then
              multiplex_handler_close_channels env s
                (if st = ElaStreamState_closed then CloseReason_Normal else CloseReason_Error)
            else Inr s) (\<lambda>s.
     prev_on_state env (mx_log s (MxUpState st)) st)"

text \<open>The calls to the port-forwarding worker, which is an argument.\<close>

definition PortForwardingProtocol_TCP :: int where "PortForwardingProtocol_TCP = 1"

definition multiplex_handler_open_portforwarding ::
    "(('h, 'i) mux \<Rightarrow> string \<Rightarrow> int \<Rightarrow> string \<Rightarrow> string \<Rightarrow> (int \<times> ('h, 'i) mux) res) \<Rightarrow> ('h, 'i) mux \<Rightarrow>
      string \<Rightarrow> int \<Rightarrow> string \<Rightarrow> string \<Rightarrow> (int \<times> ('h, 'i) mux) res" where
  "multiplex_handler_open_portforwarding worker_open s service protocol host port =
     bindr (g_assert (service \<noteq> [])) (\<lambda>_.
     bindr (g_assert (protocol = PortForwardingProtocol_TCP)) (\<lambda>_.
     bindr (g_assert (host \<noteq> [] \<and> port \<noteq> [])) (\<lambda>_.
     if \<not> mx_worker s then Inr (general_err ELAERR_WRONG_STATE, s)
     else worker_open s service protocol host port)))"

definition multiplex_handler_close_portforwarding ::
    "(('h, 'i) mux \<Rightarrow> int \<Rightarrow> ('h, 'i) mux res) \<Rightarrow> ('h, 'i) mux \<Rightarrow> int \<Rightarrow> (int \<times> ('h, 'i) mux) res" where
  "multiplex_handler_close_portforwarding worker_close s portforwarding =
     bindr (g_assert (portforwarding > 0)) (\<lambda>_.
     bindr (if mx_worker s then worker_close s portforwarding else Inr s) (\<lambda>s. Inr (0, s)))"

text \<open>
  \<open>multiplex_handler_create\<close>. The outcomes of the library calls are arguments: whether memory was
  allocated, the table of \<open>channels_create\<close> (or NULL), status and heap of \<open>ids_heap_init\<close>, and
  the status of \<open>portforwarding_worker_create\<close>. The code tests its out parameter instead of the
  new object, and on errors it releases the out parameter, which is no object of the library.
\<close>

definition multiplex_handler_create ::
    "('h, 'i) mux_env \<Rightarrow> bool \<Rightarrow> 'h option \<Rightarrow> int \<times> 'i \<Rightarrow> int \<Rightarrow> (int \<times> ('h, 'i) mux) res" where
  "multiplex_handler_create env allocated table idsi worker_rc =
     (if \<not> allocated then Inl BadPointer
      else (case table of
        None \<Rightarrow> Inl BadPointer
      | Some h \<Rightarrow>
          if fst idsi \<noteq> 0 then Inl BadPointer
          else if mx_portforwarding env \<and> worker_rc < 0 then Inl BadPointer
          else Inr (0, \<lparr> mx_channels = h, mx_ids = snd idsi, mx_heap = Map.empty, mx_next = 0,
                 mx_worker = mx_portforwarding env, mx_timer = False,
                 mx_incomplete = (if mx_reliable env
                    then flex_buffer_init (\<lambda>_. 0) FLEX_BUFFER_MAX_LEN FLEX_PADDING_LEN
                    else flex_buffer_init (\<lambda>_. 0) 0 0),
                 mx_trace = [] \<rparr>)))"

section \<open>What is sent and received\<close>

lemma header_of_protocol_header:
  "header_of (protocol_header type option local_id remote_id len @ payload) =
     \<lparr> pb_type = type, pb_option = option, pb_local_channel_id = remote_id,
       pb_remote_channel_id = local_id, pb_payload_len = len \<rparr>"
  by (simp add: header_of_def protocol_header_def htons_bytes_def)

lemma length_protocol_header [simp]: "length (protocol_header type option local_id remote_id len) = 8"
  by (simp add: protocol_header_def)

lemma parse_header_eq:
  assumes "flex_ok buf" and "8 \<le> unat (fb_size buf)"
  shows "parse_header buf = Inr (header_of (flex_data buf))"
  using assms by (simp add: parse_header_def flex_ptr_data header_of_def)

text \<open>A packet is the header and the payload, in one write to the next handler.\<close>

lemma send_packet_eq:
  assumes "PacketType_ChannelOpen \<le> type" "type \<le> PacketType_ChannelClose"
    and "flex_ok buf" "PROTOCOL_HEAD_LEN \<le> fb_offset buf"
  shows "multiplex_handler_send_packet env s type option local_id remote_id (Some buf) =
     bindr (next_write_mx env s
       (protocol_header type option local_id remote_id (ucast (fb_size buf)) @ flex_data buf)) (\<lambda>(sent, s).
     Inr (if sent < 0 then int_of_ssize sent else int_of_ssize (uint (fb_size buf)),
          mx_log s (MxWrite (protocol_header type option local_id remote_id (ucast (fb_size buf)) @ flex_data buf) sent)))"
proof -
  have "length (protocol_header type option local_id remote_id (ucast (fb_size buf))) = unat PROTOCOL_HEAD_LEN"
    by (simp add: PROTOCOL_HEAD_LEN_def)
  from flex_prepend [OF assms(3,4) this] obtain k b1 b2 where
    b: "flex_buffer_backward_offset buf PROTOCOL_HEAD_LEN = Inr (k, b1)"
      "flex_buffer_mutable_ptr b1 (protocol_header type option local_id remote_id (ucast (fb_size buf))) = Inr b2"
      "flex_ok b2" "flex_data b2 = protocol_header type option local_id remote_id (ucast (fb_size buf)) @ flex_data buf"
    by (auto simp: total_def)
  then show ?thesis
    using assms(1,2)
    by (simp add: multiplex_handler_send_packet_def Let_def b flex_ptr_all [OF b(3)] flex_buffer_size_def [of buf]
        split_def) (rule bindr_cong; simp add: flex_buffer_size_def)
qed

lemma send_packet_None:
  "multiplex_handler_send_packet env s type option local_id remote_id None =
   multiplex_handler_send_packet env s type option local_id remote_id
     (Some (flex_buffer_alloca (mx_junk env) FLEX_PADDING_LEN FLEX_PADDING_LEN))"
  by (simp add: multiplex_handler_send_packet_def)

lemma alloca_ok:
  "flex_ok (flex_buffer_alloca junk cap off) = (off \<le> cap)"
  "fb_size (flex_buffer_alloca junk cap off) = 0" "fb_offset (flex_buffer_alloca junk cap off) = off"
  "flex_data (flex_buffer_alloca junk cap off) = []"
  by (simp_all add: flex_buffer_alloca_def flex_ok_def flex_data_def word_le_nat_alt)

end
