(* ===== verification/Mux_Inv.thy ===== *)
theory Mux_Inv
  imports Mux
begin

text \<open>
  The invariant of the multiplexer and its proof for every operation.

  \<open>mux_inv env H B s\<close> says: the table lists live channels under their numbers; the reference count
  of a channel is the number of references held by running functions, \<open>H\<close>, plus one if the table
  has it; channel numbers are unique and the heap of numbers has exactly those of the live
  channels; the table is a successor of every table in \<open>B\<close> (the tables that running iterators
  rely on).

  The locale \<open>mux_callbacks\<close> is the contract between the multiplexer and what it calls: the user's
  callbacks and the neighbouring handlers may do what they like with the multiplexer, as long as
  they keep the invariant for every \<open>H\<close> and \<open>B\<close>. Inside it, each operation is shown to keep the
  invariant, to balance its references and to follow no dangling pointer.
\<close>

section \<open>The invariant\<close>

definition table_live :: "('h, 'i) mux_env \<Rightarrow> ('h, 'i) mux \<Rightarrow> bool" where
  "table_live env s \<longleftrightarrow> (\<forall>k a. hashtable_get (mx_table env) (mx_channels s) k = Some a \<longrightarrow>
     (\<exists>ch. mx_heap s a = Some ch \<and> k = ucast (ch_id ch) \<and> ch_id ch \<noteq> 0))"

definition refs_ok :: "('h, 'i) mux_env \<Rightarrow> (addr \<Rightarrow> nat) \<Rightarrow> ('h, 'i) mux \<Rightarrow> bool" where
  "refs_ok env H s \<longleftrightarrow> (\<forall>a. mx_heap s a = None \<longrightarrow> H a = 0) \<and>
     (\<forall>a ch. mx_heap s a = Some ch \<longrightarrow> 0 < ch_refs ch \<and> ch_refs ch = H a +
        (if hashtable_get (mx_table env) (mx_channels s) (ucast (ch_id ch)) = Some a then 1 else 0) \<and>
        ch_mux ch = (ch_id ch \<noteq> 0))"

definition heap_fresh :: "('h, 'i) mux \<Rightarrow> bool" where
  "heap_fresh s \<longleftrightarrow> (\<forall>a. mx_next s \<le> a \<longrightarrow> mx_heap s a = None)"

definition ids_unique :: "('h, 'i) mux \<Rightarrow> bool" where
  "ids_unique s \<longleftrightarrow> (\<forall>a b c d. mx_heap s a = Some c \<longrightarrow> mx_heap s b = Some d \<longrightarrow> ch_id c = ch_id d \<longrightarrow>
     ch_id c \<noteq> 0 \<longrightarrow> a = b)"

definition live_ids :: "(addr \<rightharpoonup> Channel) \<Rightarrow> u16 set" where
  "live_ids m = {i. i \<noteq> 0 \<and> (\<exists>a ch. m a = Some ch \<and> ch_id ch = i)}"

definition ids_live :: "('h, 'i) mux_env \<Rightarrow> ('h, 'i) mux \<Rightarrow> bool" where
  "ids_live env s \<longleftrightarrow> ids_in_use (mx_idops env) (mx_ids s) = uint ` live_ids (mx_heap s)"

definition incomplete_ok :: "('h, 'i) mux_env \<Rightarrow> ('h, 'i) mux \<Rightarrow> bool" where
  "incomplete_ok env s \<longleftrightarrow> (mx_reliable env \<longrightarrow> flex_ok (mx_incomplete s) \<and>
     fb_capacity (mx_incomplete s) = FLEX_BUFFER_MAX_LEN \<and> fb_offset (mx_incomplete s) = FLEX_PADDING_LEN)"

definition mux_inv :: "('h, 'i) mux_env \<Rightarrow> (addr \<Rightarrow> nat) \<Rightarrow> 'h set \<Rightarrow> ('h, 'i) mux \<Rightarrow> bool" where
  "mux_inv env H B s \<longleftrightarrow> table_live env s \<and> refs_ok env H s \<and> heap_fresh s \<and> ids_unique s \<and> ids_live env s \<and>
     (\<forall>h \<in> B. table_le (mx_table env) h (mx_channels s)) \<and> incomplete_ok env s"

lemma mux_invD:
  assumes "mux_inv env H B s"
  shows "hashtable_get (mx_table env) (mx_channels s) k = Some a \<Longrightarrow>
      \<exists>ch. mx_heap s a = Some ch \<and> k = ucast (ch_id ch) \<and> ch_id ch \<noteq> 0"
    and "mx_heap s a = Some ch \<Longrightarrow> 0 < ch_refs ch"
    and "mx_heap s a = Some ch \<Longrightarrow> ch_refs ch = H a +
      (if hashtable_get (mx_table env) (mx_channels s) (ucast (ch_id ch)) = Some a then 1 else 0)"
    and "mx_heap s a = Some ch \<Longrightarrow> ch_mux ch = (ch_id ch \<noteq> 0)"
    and "mx_heap s a = None \<Longrightarrow> H a = 0"
    and "mx_next s \<le> a \<Longrightarrow> mx_heap s a = None"
    and "mx_heap s a = Some c \<Longrightarrow> mx_heap s b = Some d \<Longrightarrow> ch_id c = ch_id d \<Longrightarrow> ch_id c \<noteq> 0 \<Longrightarrow> a = b"
    and "ids_live env s"
    and "h \<in> B \<Longrightarrow> table_le (mx_table env) h (mx_channels s)"
    and "incomplete_ok env s"
proof -
  have i: "table_live env s" "refs_ok env H s" "heap_fresh s" "ids_unique s"
    using assms by (simp_all add: mux_inv_def)
  note d = table_live_def refs_ok_def heap_fresh_def ids_unique_def
  show "hashtable_get (mx_table env) (mx_channels s) k = Some a \<Longrightarrow>
      \<exists>ch. mx_heap s a = Some ch \<and> k = ucast (ch_id ch) \<and> ch_id ch \<noteq> 0"
    using i(1) unfolding d by blast
  show "mx_heap s a = Some ch \<Longrightarrow> 0 < ch_refs ch" "mx_heap s a = Some ch \<Longrightarrow> ch_mux ch = (ch_id ch \<noteq> 0)"
    "mx_heap s a = None \<Longrightarrow> H a = 0"
    using i(2) unfolding d by blast+
  show "mx_heap s a = Some ch \<Longrightarrow> ch_refs ch = H a +
      (if hashtable_get (mx_table env) (mx_channels s) (ucast (ch_id ch)) = Some a then 1 else 0)"
    using i(2) unfolding d by blast
  show "mx_next s \<le> a \<Longrightarrow> mx_heap s a = None" using i(3) unfolding d by blast
  show "mx_heap s a = Some c \<Longrightarrow> mx_heap s b = Some d \<Longrightarrow> ch_id c = ch_id d \<Longrightarrow> ch_id c \<noteq> 0 \<Longrightarrow> a = b"
    using i(4) unfolding d by blast
qed (use assms in \<open>simp_all add: mux_inv_def\<close>)

lemma mux_inv_held: "mux_inv env H B s \<Longrightarrow> 0 < H a \<Longrightarrow> \<exists>ch. mx_heap s a = Some ch"
  using mux_invD(5) [of env H B s a] by (cases "mx_heap s a") auto

lemma ucast_u16_inj [simp]: "(ucast (a::u16) :: u32) = ucast b \<longleftrightarrow> a = b"
  by transfer (simp add: take_bit_int_eq_self_iff take_bit_eq_mod)

section \<open>Channels as objects\<close>

lemmas inv_defs = table_live_def refs_ok_def heap_fresh_def ids_unique_def ids_live_def incomplete_ok_def

lemma live_ids_upd: "m a = Some ch \<Longrightarrow> ch_id ch' = ch_id ch \<Longrightarrow> live_ids (m(a \<mapsto> ch')) = live_ids m"
  unfolding live_ids_def by (rule Collect_cong) (metis fun_upd_apply option.inject)

lemma live_ids_new: "m a = None \<Longrightarrow> live_ids (m(a \<mapsto> ch)) = live_ids m \<union> ({ch_id ch} - {0})"
  unfolding live_ids_def by (auto split: if_splits) (metis option.distinct(1))

lemma live_ids_del:
  assumes "m a = Some ch" and "\<And>b c. m b = Some c \<Longrightarrow> ch_id c = ch_id ch \<Longrightarrow> ch_id ch \<noteq> 0 \<Longrightarrow> b = a"
  shows "live_ids (m(a := None)) = live_ids m - {ch_id ch}"
proof -
  have "(\<exists>b c. (m(a := None)) b = Some c \<and> ch_id c = i) \<longleftrightarrow> (\<exists>b c. m b = Some c \<and> ch_id c = i) \<and> i \<noteq> ch_id ch"
    if "i \<noteq> 0" for i
    using assms that by (metis fun_upd_apply option.distinct(1) option.inject)
  then show ?thesis unfolding live_ids_def by blast
qed

text \<open>Changing a channel without touching its number and its references, and holding one more.\<close>

lemma put_chan_inv:
  assumes i: "mux_inv env H B s" and h: "mx_heap s a = Some ch"
    and e: "ch_id ch' = ch_id ch" "ch_mux ch' = ch_mux ch" "ch_refs ch' + H a = ch_refs ch + H' a"
    and o: "\<And>b. b \<noteq> a \<Longrightarrow> H' b = H b" and p: "0 < ch_refs ch'"
  shows "mux_inv env H' B (put_chan s a ch')"
proof -
  note d = mux_invD [OF i]
  have "table_live env (put_chan s a ch')"
    unfolding inv_defs put_chan_def using h e(1) by (auto dest!: d(1))
  moreover have "refs_ok env H' (put_chan s a ch')"
    unfolding inv_defs put_chan_def using d(2,3,4,5) h e o p by (auto split: if_splits)
  moreover have "heap_fresh (put_chan s a ch')"
    unfolding inv_defs put_chan_def using h by (auto dest: d(6))
  moreover have "ids_unique (put_chan s a ch')"
    unfolding inv_defs put_chan_def using d(7) h e(1) by (auto split: if_splits)
  moreover have "ids_live env (put_chan s a ch')"
    using d(8) live_ids_upd [of "mx_heap s", OF h e(1)] by (simp add: ids_live_def put_chan_def)
  ultimately show ?thesis
    using i by (auto simp: mux_inv_def put_chan_def inv_defs(6))
qed

lemma mux_inv_mono: "mux_inv env H B s \<Longrightarrow> B' \<subseteq> B \<Longrightarrow> mux_inv env H B' s"
  by (auto simp: mux_inv_def)

lemma mux_inv_here: "mux_inv env H B s \<Longrightarrow> mux_inv env H (insert (mx_channels s) B) s"
  by (simp add: mux_inv_def)

text \<open>An iterator that expects the version of the table \<open>h\<close>.\<close>

lemma same_table:
  "mux_inv env H (insert h B) s \<Longrightarrow>
    hashtable_version (mx_table env) (mx_channels s) = hashtable_version (mx_table env) h \<Longrightarrow> mx_channels s = h"
  using mux_invD(9) [of env H "insert h B" s h] by (auto simp: table_le_def)

lemma table_inj: "mux_inv env H B s \<Longrightarrow> inj_on (hashtable_get (mx_table env) (mx_channels s)) (dom (hashtable_get (mx_table env) (mx_channels s)))"
  by (rule inj_onI) (metis domD mux_invD(1) option.inject)

lemma mx_log_inv [simp]: "mux_inv env H B (mx_log s e) = mux_inv env H B s"
  by (simp add: mux_inv_def inv_defs mx_log_def)

lemma mx_log_heap [simp]: "mx_heap (mx_log s e) = mx_heap s" "mx_channels (mx_log s e) = mx_channels s"
  by (simp_all add: mx_log_def)

lemma get_chan_held:
  "mux_inv env H B s \<Longrightarrow> 0 < H a \<Longrightarrow> (\<And>ch. mux_inv env H B s \<Longrightarrow> mx_heap s a = Some ch \<Longrightarrow> R ch) \<Longrightarrow>
    safely D R (get_chan s a)"
  using mux_inv_held [of env H B s a] by (auto simp: get_chan_def)

lemma mod_chan_held:
  assumes "mux_inv env H B s" and "0 < H a"
    and "\<And>ch. ch_id (f ch) = ch_id ch \<and> ch_mux (f ch) = ch_mux ch \<and> ch_refs (f ch) = ch_refs ch"
    and "\<And>s'. mux_inv env H B s' \<Longrightarrow> R s'"
  shows "safely D R (mod_chan s a f)"
proof -
  obtain ch where h: "mx_heap s a = Some ch" using mux_inv_held [OF assms(1,2)] by blast
  have "mux_inv env H B (put_chan s a (f ch))"
    using put_chan_inv [OF assms(1) h, of "f ch" H] assms(3) mux_invD(2) [OF assms(1) h] by simp
  then show ?thesis using assms(4) h by (simp add: mod_chan_def get_chan_def)
qed

lemma mod_chan_eq: "mx_heap s a = Some ch \<Longrightarrow> mod_chan s a f = Inr (put_chan s a (f ch))"
  by (simp add: mod_chan_def get_chan_def)

lemma put_chan_simps [simp]:
  "mx_heap (put_chan s a ch) a = Some ch" "put_chan (put_chan s a ch) a ch' = put_chan s a ch'"
  "mx_channels (put_chan s a ch) = mx_channels s"
  by (simp_all add: put_chan_def)

lemma chan_ref_inv:
  assumes "mux_inv env H B s" and "mx_heap s a = Some ch"
    and "\<And>s'. mux_inv env (H(a := H a + 1)) B s' \<Longrightarrow> mx_channels s' = mx_channels s \<Longrightarrow> R s'"
  shows "safely D R (chan_ref s a)"
proof -
  have "mux_inv env (H(a := H a + 1)) B (put_chan s a (ch\<lparr> ch_refs := ch_refs ch + 1 \<rparr>))"
    by (rule put_chan_inv [OF assms(1,2)]) simp_all
  then show ?thesis using assms(2,3) by (simp add: chan_ref_def mod_chan_def get_chan_def)
qed

text \<open>A new channel, held by its creator.\<close>

lemma chan_alloc_inv:
  assumes i: "mux_inv env H B s" and a: "chan_alloc env s = (Some a, s')"
  shows "mux_inv env (H(a := 1)) B s'" "H a = 0" "mx_heap s' a = Some zero_channel"
    "mx_heap s' = (mx_heap s)(a \<mapsto> zero_channel)" "mx_channels s' = mx_channels s" "mx_ids s' = mx_ids s"
proof -
  note d = mux_invD [OF i]
  have s': "a = mx_next s" "s' = s\<lparr> mx_heap := (mx_heap s)(a \<mapsto> zero_channel), mx_next := mx_next s + 1 \<rparr>"
    using a by (auto simp: chan_alloc_def split: if_splits)
  have n: "mx_heap s a = None" using d(6) s'(1) by simp
  then show "H a = 0" by (rule d(5))
  show "mx_heap s' a = Some zero_channel" "mx_heap s' = (mx_heap s)(a \<mapsto> zero_channel)"
    "mx_channels s' = mx_channels s" "mx_ids s' = mx_ids s" by (simp_all add: s'(2))
  have nt: "hashtable_get (mx_table env) (mx_channels s) k \<noteq> Some a" for k
    using d(1) [of k a] n by auto
  have "table_live env s'" unfolding inv_defs s'(2) using nt by (auto dest!: d(1))
  moreover have "refs_ok env (H(a := 1)) s'"
    unfolding inv_defs s'(2) using nt d(2,3,4,5) by (auto simp: zero_channel_def)
  moreover have "heap_fresh s'" unfolding inv_defs s'(2) using d(6) s'(1) by auto
  moreover have "ids_unique s'" unfolding inv_defs s'(2) using d(7) by (auto simp: zero_channel_def)
  moreover have "live_ids (mx_heap s') = live_ids (mx_heap s)"
    using live_ids_new [of "mx_heap s" a zero_channel] n by (simp add: s'(2) zero_channel_def)
  ultimately show "mux_inv env (H(a := 1)) B s'"
    using i by (simp add: mux_inv_def s'(2) ids_live_def incomplete_ok_def)
qed

lemma ids_update_simps:
  "table_live env (s\<lparr> mx_ids := i \<rparr>) = table_live env s" "refs_ok env H (s\<lparr> mx_ids := i \<rparr>) = refs_ok env H s"
  "heap_fresh (s\<lparr> mx_ids := i \<rparr>) = heap_fresh s" "ids_unique (s\<lparr> mx_ids := i \<rparr>) = ids_unique s"
  "incomplete_ok env (s\<lparr> mx_ids := i \<rparr>) = incomplete_ok env s"
  unfolding inv_defs by simp_all

locale mux_containers =
  fixes env :: "('h, 'i) mux_env"
  assumes table_ok: "hashtable_ok (mx_table env)"
    and idheap_ok: "ids_heap_ok (mx_idops env) MAX_CHANNEL_ID"
begin

lemma chan_deref_inv:
  assumes i: "mux_inv env H B s" and p: "0 < H a"
    and R: "\<And>s'. mux_inv env (H(a := H a - 1)) B s' \<Longrightarrow> mx_channels s' = mx_channels s \<Longrightarrow> R s'"
  shows "safely D R (chan_deref env s a)"
proof -
  note d = mux_invD [OF i]
  obtain ch where h: "mx_heap s a = Some ch" using mux_inv_held [OF i p] by blast
  show ?thesis
  proof (cases "ch_refs ch \<le> 1")
    case False
    have "mux_inv env (H(a := H a - 1)) B (put_chan s a (ch\<lparr> ch_refs := ch_refs ch - 1 \<rparr>))"
      by (rule put_chan_inv [OF i h]) (use False p in simp_all)
    then show ?thesis using False h R by (simp add: chan_deref_def get_chan_def)
  next
    case True
    let ?s = "(channel_destroy env s ch)\<lparr> mx_heap := (mx_heap s)(a := None) \<rparr>"
    have f: "mx_channels ?s = mx_channels s" "mx_next ?s = mx_next s" "mx_incomplete ?s = mx_incomplete s"
      "mx_heap ?s = (mx_heap s)(a := None)"
      by (simp_all add: channel_destroy_def)
    have nt: "hashtable_get (mx_table env) (mx_channels s) k \<noteq> Some a" for k
      using d(1) [of k a] d(3) [OF h] h p True by (auto split: if_splits)
    have one: "H a = 1" using d(3) [OF h] nt True p by simp
    have "table_live env ?s" unfolding inv_defs f using nt by (auto dest!: d(1))
    moreover have "refs_ok env (H(a := H a - 1)) ?s"
      unfolding inv_defs f using d(2,3,4,5) one by auto
    moreover have "heap_fresh ?s" unfolding inv_defs f using d(6) by auto
    moreover have "ids_unique ?s" unfolding inv_defs f using d(7) by auto
    moreover have "ids_live env ?s"
    proof -
      have l: "live_ids (mx_heap ?s) = live_ids (mx_heap s) - {ch_id ch}"
        unfolding f by (rule live_ids_del [of "mx_heap s", OF h]) (use d(7) [OF _ h] in auto)
      show ?thesis
      proof (cases "ch_id ch = 0")
        case True
        then have "0 \<notin> live_ids (mx_heap s)" by (simp add: live_ids_def)
        with l True d(8) show ?thesis by (simp add: ids_live_def channel_destroy_def)
      next
        case False
        with l d(8) show ?thesis
          using ids_free_in_use [OF idheap_ok] d(4) [OF h]
          by (auto simp: ids_live_def channel_destroy_def word_uint_eq_iff)
      qed
    qed
    ultimately have "mux_inv env (H(a := H a - 1)) B ?s"
      using i by (simp add: mux_inv_def f incomplete_ok_def)
    then show ?thesis using True h R f(1) by (simp add: chan_deref_def get_chan_def)
  qed
qed

text \<open>A new channel gets a free number.\<close>

lemma new_channel_inv:
  assumes i: "mux_inv env H B s" and a: "chan_alloc env s = (Some a, s1)"
    and c: "ids_heap_alloc (mx_idops env) (mx_ids s1) = (cid, ids)" "\<not> cid < 0"
    and ch: "ch_id ch = of_int cid" "ch_mux ch" "ch_refs ch = 1"
  shows "mux_inv env (H(a := 1)) B (put_chan (s1\<lparr> mx_ids := ids \<rparr>) a ch)" (is "mux_inv _ _ _ ?s")
    and "ch_id ch \<noteq> 0" "uint (ch_id ch) = cid"
    and "hashtable_get (mx_table env) (mx_channels s1) k \<noteq> Some a"
proof -
  note d = mux_invD [OF i] and al = chan_alloc_inv [OF i a]
  note f = ids_alloc_fresh [OF idheap_ok c]
  have n: "mx_heap s a = None" "mx_next s1 = mx_next s + 1" "mx_incomplete s1 = mx_incomplete s" "a = mx_next s"
    using a d(6) [of a] by (auto simp: chan_alloc_def split: if_splits)
  have "cid < 2 ^ 16" using f(2) by (simp add: MAX_CHANNEL_ID_def)
  with f(1) show id: "uint (ch_id ch) = cid" by (simp add: ch(1) uint_word_of_int)
  then show nz: "ch_id ch \<noteq> 0" using f(1) by auto
  have nl: "ch_id ch \<notin> live_ids (mx_heap s)"
    using f(3) d(8) id al(6) by (auto simp: ids_live_def)
  have h: "mx_heap ?s = (mx_heap s)(a \<mapsto> ch)" "mx_channels ?s = mx_channels s" "mx_ids ?s = ids"
    "mx_next ?s = mx_next s + 1" "mx_incomplete ?s = mx_incomplete s"
    using al(4,5) n by (simp_all add: put_chan_def)
  have nt: "hashtable_get (mx_table env) (mx_channels s) k \<noteq> Some a" for k
    using d(1) [of k a] n by auto
  then show "hashtable_get (mx_table env) (mx_channels s1) k \<noteq> Some a" by (simp add: al(5))
  have other: "b \<noteq> a \<Longrightarrow> mx_heap s b = Some cb \<Longrightarrow> ch_id cb \<noteq> ch_id ch" for b cb
    using nl nz by (auto simp: live_ids_def)
  have "table_live env ?s" unfolding inv_defs h using nt by (auto dest!: d(1))
  moreover have "refs_ok env (H(a := 1)) ?s"
    unfolding inv_defs h using nt d(2,3,4,5) ch(2,3) nz al(2) by auto
  moreover have "heap_fresh ?s"
    unfolding inv_defs h using d(6) n(4) by auto
  moreover have "ids_unique ?s" unfolding inv_defs h by (simp split: if_splits) (metis d(7) other)
  moreover have "ids_live env ?s"
    using d(8) live_ids_new [of "mx_heap s" a ch] n(1) f(4) nz id al(6) by (simp add: ids_live_def h)
  ultimately show "mux_inv env (H(a := 1)) B ?s"
    using i by (simp add: mux_inv_def h inv_defs(6) al(5))
qed

lemma ids_alloc_none_inv:
  "mux_inv env H B s \<Longrightarrow> ids_heap_alloc (mx_idops env) (mx_ids s) = (cid, i) \<Longrightarrow> cid < 0 \<Longrightarrow>
    mux_inv env H B (s\<lparr> mx_ids := i \<rparr>)"
  using ids_alloc_none [OF idheap_ok] by (simp add: mux_inv_def ids_update_simps ids_live_def)

lemma channels_get_inv:
  assumes "mux_inv env H B s" and "\<And>s'. mux_inv env H B s' \<Longrightarrow> R (None, s')"
    and "\<And>a s'. mux_inv env (H(a := H a + 1)) B s' \<Longrightarrow> R (Some a, s')"
  shows "safely D R (channels_get env s k)"
proof (cases "hashtable_get (mx_table env) (mx_channels s) k")
  case None
  then show ?thesis using assms by (simp add: channels_get_def)
next
  case (Some a)
  with mux_invD(1) [OF assms(1)] obtain ch where "mx_heap s a = Some ch" by blast
  then show ?thesis using Some assms(3) by (auto simp: channels_get_def intro!: chan_ref_inv [OF assms(1)])
qed

text \<open>Taking a channel out of the table moves the table's reference to the caller.\<close>

lemma table_remove_inv:
  assumes i: "mux_inv env H B s" and g: "hashtable_get (mx_table env) (mx_channels s) k = Some a"
  shows "mux_inv env (H(a := H a + 1)) B (s\<lparr> mx_channels := hashtable_remove (mx_table env) (mx_channels s) k \<rparr>)"
    (is "mux_inv env _ B ?s")
proof -
  note d = mux_invD [OF i] and h = hashtable_okD [OF table_ok]
  obtain ch where c: "mx_heap s a = Some ch" "k = ucast (ch_id ch)" using d(1) [OF g] by blast
  have "table_live env ?s" unfolding inv_defs by (auto simp: h dest!: d(1) split: if_splits)
  moreover have "refs_ok env (H(a := H a + 1)) ?s"
    unfolding inv_defs
  proof (intro conjI allI impI)
    fix b cb
    assume b: "mx_heap ?s b = Some cb"
    then have b: "mx_heap s b = Some cb" by simp
    show "0 < ch_refs cb" "ch_mux cb = (ch_id cb \<noteq> 0)" using d(2,4) [OF b] by simp_all
    have "ucast (ch_id cb) = k \<Longrightarrow> b = a"
      using d(7) [OF b c(1)] c(2) d(1) [OF g] c(1) by auto
    then show "ch_refs cb = (H(a := H a + 1)) b +
        (if hashtable_get (mx_table env) (mx_channels ?s) (ucast (ch_id cb)) = Some b then 1 else 0)"
      using d(3) [OF b] g c b by (auto simp: h)
  next
    fix b
    assume b: "mx_heap ?s b = None"
    then show "(H(a := H a + 1)) b = 0" using d(5) c by auto
  qed
  moreover have "table_le (mx_table env) x (mx_channels ?s)" if "x \<in> B" for x
    using table_le_trans [OF d(9) [OF that] h(5)] by simp
  ultimately show ?thesis
    using i by (auto simp: mux_inv_def inv_defs(3,4,5,6))
qed

lemma channels_remove_inv:
  assumes "mux_inv env H B s" and "\<And>s'. mux_inv env H B s' \<Longrightarrow> R s'"
  shows "safely D R (channels_remove env s k)"
proof (cases "hashtable_get (mx_table env) (mx_channels s) k")
  case None
  then show ?thesis using assms by (simp add: channels_remove_def)
next
  case (Some a)
  then show ?thesis
    using assms(2) by (auto simp: channels_remove_def intro!: chan_deref_inv [OF table_remove_inv [OF assms(1) Some]])
qed

lemma channels_put_inv:
  assumes i: "mux_inv env H B s" and c: "mx_heap s a = Some ch" "ch_id ch \<noteq> 0"
    and n: "hashtable_get (mx_table env) (mx_channels s) (ucast (ch_id ch)) \<noteq> Some a"
    and R: "\<And>s'. mux_inv env H B s' \<Longrightarrow> R s'"
  shows "safely D R (channels_put env s a)"
proof -
  note d = mux_invD [OF i] and h = hashtable_okD [OF table_ok]
  let ?s = "put_chan (s\<lparr> mx_channels := hashtable_put (mx_table env) (mx_channels s) (ucast (ch_id ch)) a \<rparr>) a
    (ch\<lparr> ch_refs := ch_refs ch + 1 \<rparr>)"
  have u: "mx_heap s b = Some cb \<Longrightarrow> ch_id cb = ch_id ch \<longleftrightarrow> b = a" for b cb
    using d(7) [of b cb a ch] c by force
  have "table_live env ?s"
    unfolding inv_defs put_chan_def using c by (auto simp: h split: if_splits dest!: d(1))
  moreover have "refs_ok env H ?s"
    unfolding inv_defs put_chan_def using c n d(2,3,4,5) u by (auto simp: h)
  moreover have "heap_fresh ?s" unfolding inv_defs put_chan_def using c by (auto dest: d(6))
  moreover have "ids_unique ?s" unfolding inv_defs put_chan_def using c d(7) by (auto split: if_splits)
  moreover have "ids_live env ?s"
    using d(8) live_ids_upd [of "mx_heap s", OF c(1)] by (simp add: ids_live_def put_chan_def)
  moreover have "table_le (mx_table env) x (mx_channels ?s)" if "x \<in> B" for x
    using table_le_trans [OF d(9) [OF that] h(4)] by (simp add: put_chan_def)
  ultimately have "mux_inv env H B ?s"
    using i by (auto simp: mux_inv_def inv_defs(6) put_chan_def)
  then show ?thesis using c R by (simp add: channels_put_def chan_ref_def mod_chan_def get_chan_def put_chan_def)
qed

end

section \<open>The contract of callbacks\<close>

text \<open>
  \<open>keeps\<close>: a function on the state keeps the invariant, whoever holds references and whatever
  iterators are running; \<open>keeps_at\<close>: if a reference to the channel at \<open>a\<close> is held.
\<close>

definition keeps :: "('h, 'i) mux_env \<Rightarrow> bool \<Rightarrow> (('h, 'i) mux \<Rightarrow> ('h, 'i) mux res) \<Rightarrow> bool" where
  "keeps env D f \<longleftrightarrow> (\<forall>H B s. mux_inv env H B s \<longrightarrow> safely D (mux_inv env H B) (f s))"

definition keeps_ret :: "('h, 'i) mux_env \<Rightarrow> bool \<Rightarrow> (('h, 'i) mux \<Rightarrow> ('a \<times> ('h, 'i) mux) res) \<Rightarrow> bool" where
  "keeps_ret env D f \<longleftrightarrow> (\<forall>H B s. mux_inv env H B s \<longrightarrow> safely D (\<lambda>(r, s). mux_inv env H B s) (f s))"

definition keeps_at :: "('h, 'i) mux_env \<Rightarrow> bool \<Rightarrow> addr \<Rightarrow> (('h, 'i) mux \<Rightarrow> ('h, 'i) mux res) \<Rightarrow> bool" where
  "keeps_at env D a f \<longleftrightarrow> (\<forall>H B s. mux_inv env H B s \<longrightarrow> 0 < H a \<longrightarrow> safely D (mux_inv env H B) (f s))"

definition keeps_ret_at ::
    "('h, 'i) mux_env \<Rightarrow> bool \<Rightarrow> addr \<Rightarrow> (('h, 'i) mux \<Rightarrow> ('a \<times> ('h, 'i) mux) res) \<Rightarrow> bool" where
  "keeps_ret_at env D a f \<longleftrightarrow>
     (\<forall>H B s. mux_inv env H B s \<longrightarrow> 0 < H a \<longrightarrow> safely D (\<lambda>(r, s). mux_inv env H B s) (f s))"

definition callbacks_ok :: "('h, 'i) mux_env \<Rightarrow> bool \<Rightarrow> ('h, 'i) ChannelCallbacks \<Rightarrow> bool" where
  "callbacks_ok env D cb \<longleftrightarrow>
     (\<forall>f a c. channel_open cb = Some f \<longrightarrow> keeps_ret_at env D a (\<lambda>s. f s a c)) \<and>
     (\<forall>f a. channel_opened cb = Some f \<longrightarrow> keeps_at env D a (\<lambda>s. f s a)) \<and>
     (\<forall>f a r. channel_close cb = Some f \<longrightarrow> keeps_at env D a (\<lambda>s. f s a r)) \<and>
     (\<forall>f a b. channel_data cb = Some f \<longrightarrow> flex_ok b \<longrightarrow> keeps_ret_at env D a (\<lambda>s. f s a b)) \<and>
     (\<forall>f a. channel_pending cb = Some f \<longrightarrow> keeps_at env D a (\<lambda>s. f s a)) \<and>
     (\<forall>f a. channel_resume cb = Some f \<longrightarrow> keeps_at env D a (\<lambda>s. f s a))"

definition user_callbacks_ok :: "('h, 'i) mux_env \<Rightarrow> bool \<Rightarrow> ('h, 'i) ElaStreamCallbacks \<Rightarrow> bool" where
  "user_callbacks_ok env D cb \<longleftrightarrow>
     (\<forall>f i c. user_open cb = Some f \<longrightarrow> keeps_ret env D (\<lambda>s. f s i c)) \<and>
     (\<forall>f i. user_opened cb = Some f \<longrightarrow> keeps env D (\<lambda>s. f s i)) \<and>
     (\<forall>f i r. user_close cb = Some f \<longrightarrow> keeps env D (\<lambda>s. f s i r)) \<and>
     (\<forall>f i b. user_data cb = Some f \<longrightarrow> keeps_ret env D (\<lambda>s. f s i b)) \<and>
     (\<forall>f i. user_pending cb = Some f \<longrightarrow> keeps env D (\<lambda>s. f s i)) \<and>
     (\<forall>f i. user_resume cb = Some f \<longrightarrow> keeps env D (\<lambda>s. f s i))"

lemmas keeps_defs = keeps_def keeps_ret_def keeps_at_def keeps_ret_at_def

lemma user_callbacks_callbacks: "user_callbacks_ok env D (mx_user env) \<Longrightarrow> callbacks_ok env D (user_channel_callbacks env)"
  unfolding callbacks_ok_def user_callbacks_ok_def user_channel_callbacks_def
    user_channel_open_def user_channel_opened_def user_channel_close_def user_channel_data_def
    user_channel_pending_def user_channel_resume_def keeps_defs
  by (auto simp: flex_ptr_all split: option.split intro!: get_chan_held)

lemma keepsD:
  "keeps env D f \<Longrightarrow> mux_inv env H B s \<Longrightarrow> (\<And>s'. mux_inv env H B s' \<Longrightarrow> R s') \<Longrightarrow> safely D R (f s)"
  "keeps_at env D a f \<Longrightarrow> mux_inv env H B s \<Longrightarrow> 0 < H a \<Longrightarrow> (\<And>s'. mux_inv env H B s' \<Longrightarrow> R s') \<Longrightarrow>
    safely D R (f s)"
  unfolding keeps_defs by (blast intro: safely_mono)+

lemma keeps_retD:
  "keeps_ret env D g \<Longrightarrow> mux_inv env H B s \<Longrightarrow> (\<And>r s'. mux_inv env H B s' \<Longrightarrow> R (r, s')) \<Longrightarrow> safely D R (g s)"
  "keeps_ret_at env D a g \<Longrightarrow> mux_inv env H B s \<Longrightarrow> 0 < H a \<Longrightarrow>
    (\<And>r s'. mux_inv env H B s' \<Longrightarrow> R (r, s')) \<Longrightarrow> safely D R (g s)"
  unfolding keeps_defs by (drule spec, drule spec, drule spec, drule (1) mp, erule safely_mono, auto)
    (drule spec, drule spec, drule spec, drule (1) mp, drule (1) mp, erule safely_mono, auto)

text \<open>Calling an optional callback.\<close>

lemma call_keeps:
  assumes "mux_inv env H B s" "0 < H a" "\<And>f. cb = Some f \<Longrightarrow> keeps_at env D a (app f)"
    and "\<And>s'. mux_inv env H B s' \<Longrightarrow> R s'"
  shows "safely D R (case cb of None \<Rightarrow> Inr s | Some f \<Rightarrow> app f s)"
  using assms keepsD(2) [of env D a "app f" H B s R for f] by (auto split: option.split)

lemma call_keeps_ret:
  assumes "mux_inv env H B s" "0 < H a" "\<And>f. cb = Some f \<Longrightarrow> keeps_ret_at env D a (app f)"
    and "\<And>r s'. mux_inv env H B s' \<Longrightarrow> R (r, s')"
  shows "safely D R (case cb of None \<Rightarrow> Inr (True, s) | Some f \<Rightarrow> app f s)"
  using assms keeps_retD(2) [of env D a "app f" H B s R for f] by (auto split: option.split)

definition buf_ready :: "FlexBuffer option \<Rightarrow> bool" where
  "buf_ready bufo = (case bufo of None \<Rightarrow> True | Some b \<Rightarrow> flex_ok b \<and> PROTOCOL_HEAD_LEN \<le> fb_offset b)"

locale mux_callbacks = mux_containers env for env :: "('h, 'i) mux_env" +
  fixes D :: bool
  assumes user_ok: "user_callbacks_ok env D (mx_user env)"
    and pf_ok: "callbacks_ok env D (mx_pf env ty)"
    and write_ok: "keeps_ret env D (\<lambda>s. next_write_mx env s bs)"
    and on_data_ok: "keeps env D (\<lambda>s. prev_on_data env s buf)"
    and on_state_ok: "keeps env D (\<lambda>s. prev_on_state env s st)"
    and stop_ok: "keeps env D (\<lambda>s. next_stop env s err)"
    and worker_stop_ok: "keeps env D (worker_stop env)"
begin

lemma callbacks_of_ok: "callbacks_ok env D (callbacks_of env ty)"
  using user_callbacks_callbacks [OF user_ok] pf_ok by (simp add: callbacks_of_def)

lemma notify_inv:
  assumes "mux_inv env H B s" "0 < H a" and R: "\<And>s'. mux_inv env H B s' \<Longrightarrow> R s'"
  shows "safely D R (notify_channel_opened env s a)" "safely D R (notify_channel_close env s a reason)"
    "safely D R (notify_channel_pending env s a)" "safely D R (notify_channel_resume env s a)"
proof -
  have "safely D R (case channel_opened (callbacks_of env ty) of None \<Rightarrow> Inr (mx_log s e) | Some f \<Rightarrow> f (mx_log s e) a)"
    "safely D R (case channel_close (callbacks_of env ty) of None \<Rightarrow> Inr (mx_log s e) | Some f \<Rightarrow> f (mx_log s e) a reason)"
    "safely D R (case channel_pending (callbacks_of env ty) of None \<Rightarrow> Inr (mx_log s e) | Some f \<Rightarrow> f (mx_log s e) a)"
    "safely D R (case channel_resume (callbacks_of env ty) of None \<Rightarrow> Inr (mx_log s e) | Some f \<Rightarrow> f (mx_log s e) a)"
    for ty e
    using callbacks_of_ok [of ty] assms
      call_keeps [where app = "\<lambda>f s. f s a" and s = "mx_log s e" and H = H and B = B and a = a and R = R]
      call_keeps [where app = "\<lambda>f s. f s a reason" and s = "mx_log s e" and H = H and B = B and a = a and R = R]
    by (simp_all add: callbacks_ok_def)
  then show "safely D R (notify_channel_opened env s a)" "safely D R (notify_channel_close env s a reason)"
    "safely D R (notify_channel_pending env s a)" "safely D R (notify_channel_resume env s a)"
    unfolding notify_channel_opened_def notify_channel_close_def notify_channel_pending_def
      notify_channel_resume_def Let_def
    using get_chan_held [OF assms(1,2)] by simp_all
qed

lemma notify_ret_inv:
  assumes "mux_inv env H B s" "0 < H a" and R: "\<And>r s'. mux_inv env H B s' \<Longrightarrow> R (r, s')"
  shows "safely D R (notify_channel_open env s a cookie)"
    "flex_ok buf \<Longrightarrow> safely D R (notify_channel_data env s a buf)"
proof -
  have "safely D R (case channel_open (callbacks_of env ty) of None \<Rightarrow> Inr (True, mx_log s e) | Some f \<Rightarrow> f (mx_log s e) a cookie)"
    "flex_ok buf \<Longrightarrow>
     safely D R (case channel_data (callbacks_of env ty) of None \<Rightarrow> Inr (True, mx_log s e) | Some f \<Rightarrow> f (mx_log s e) a buf)"
    for ty e
    using callbacks_of_ok [of ty] assms
      call_keeps_ret [where app = "\<lambda>f s. f s a cookie" and s = "mx_log s e" and H = H and B = B and a = a and R = R]
      call_keeps_ret [where app = "\<lambda>f s. f s a buf" and s = "mx_log s e" and H = H and B = B and a = a and R = R]
    by (simp_all add: callbacks_ok_def)
  then show "safely D R (notify_channel_open env s a cookie)"
    "flex_ok buf \<Longrightarrow> safely D R (notify_channel_data env s a buf)"
    unfolding notify_channel_open_def notify_channel_data_def Let_def
    using get_chan_held [OF assms(1,2)] by simp_all
qed

lemma update_timestamps_inv:
  assumes "mux_inv env H B s" "0 < H a" and R: "\<And>s'. mux_inv env H B s' \<Longrightarrow> R s'"
  shows "safely D R (update_remote_timestamp env s a)" "safely D R (update_local_timestamp env s a)"
  unfolding update_remote_timestamp_def update_local_timestamp_def
  by (rule mod_chan_held [OF assms(1,2)]; simp add: R)+

lemma send_packet_inv:
  assumes "mux_inv env H B s" and "buf_ready bufo"
    and "PacketType_ChannelOpen \<le> type" "type \<le> PacketType_ChannelClose"
    and R: "\<And>r s'. mux_inv env H B s' \<Longrightarrow> R (r, s')"
  shows "safely D R (multiplex_handler_send_packet env s type option l r bufo)"
proof -
  have "safely D R (multiplex_handler_send_packet env s type option l r (Some b))"
    if "flex_ok b" "PROTOCOL_HEAD_LEN \<le> fb_offset b" for b
    by (simp add: send_packet_eq [OF assms(3,4) that]) (rule keeps_retD(1) [OF write_ok assms(1)], simp add: R)
  then show ?thesis
    using assms(2) by (cases bufo) (simp_all add: buf_ready_def send_packet_None alloca_ok FLEX_PADDING_LEN_def PROTOCOL_HEAD_LEN_def)
qed

lemmas op_rules = get_chan_held mod_chan_held notify_inv notify_ret_inv update_timestamps_inv send_packet_inv
  channels_remove_inv chan_deref_inv

lemma on_packet_simple_inv:
  assumes "mux_inv env K B s" "0 < K a" and R: "\<And>s'. mux_inv env (K(a := K a - 1)) B s' \<Longrightarrow> R s'"
  shows "safely D R (on_packet_keepalive env s a)" "safely D R (on_packet_pending env s a)"
    "safely D R (on_packet_resume env s a)" "safely D R (on_packet_close env s a)"
    "safely D R (on_packet_confirmation env s a pb)"
  unfolding on_packet_keepalive_def on_packet_pending_def on_packet_resume_def on_packet_close_def
    on_packet_confirmation_def
  using assms by (auto elim!: op_rules)

lemma on_packet_open_inv:
  assumes "mux_inv env K B s" "0 < K a" and R: "\<And>s'. mux_inv env (K(a := K a - 1)) B s' \<Longrightarrow> R s'"
  shows "safely D R (on_packet_open env s a pb payload)"
  unfolding on_packet_open_def
  using assms by (auto elim!: op_rules simp: buf_ready_def packet_types)

lemma on_packet_data_inv:
  assumes "mux_inv env K B s" "0 < K a" "flex_ok buf" "8 \<le> unat (fb_size buf)"
    and R: "\<And>s'. mux_inv env (K(a := K a - 1)) B s' \<Longrightarrow> R s'"
  shows "safely D R (on_packet_data env s a buf)"
proof -
  have "total (\<lambda>(k, b). flex_ok b) (flex_buffer_forward_offset buf PROTOCOL_HEAD_LEN)"
    using flex_forward_spec [OF assms(3), of PROTOCOL_HEAD_LEN] assms(4)
    by (auto simp: PROTOCOL_HEAD_LEN_def word_le_nat_alt elim!: total_mono)
  then obtain k b where "flex_buffer_forward_offset buf PROTOCOL_HEAD_LEN = Inr (k, b)" "flex_ok b"
    by (auto simp: total_def)
  then show ?thesis
    unfolding on_packet_data_def using assms by (auto elim!: op_rules)
qed

lemma accept_channel_inv:
  assumes i: "mux_inv env H B s" and N: "\<And>s'. mux_inv env H B s' \<Longrightarrow> R (None, s')"
    and S: "\<And>a s'. mux_inv env (H(a := H a + 1)) B s' \<Longrightarrow> R (Some a, s')"
  shows "safely D R (accept_channel env s pb)"
proof -
  let ?new = "\<lambda>cid t. zero_channel\<lparr> ch_mux := True, ch_type := channel_type_of (pb_option pb), ch_id := of_int cid,
     ch_remote_id := pb_remote_channel_id pb, ch_status := ChannelStatus_Opening,
     ch_remote_timestamp := t, ch_last_activity := t \<rparr>"
  have 1: "safely D R (case r of None \<Rightarrow> Inr (None, s1) | Some a \<Rightarrow>
      (let (cid, i) = ids_heap_alloc (mx_idops env) (mx_ids s1); s = s1\<lparr> mx_ids := i \<rparr> in
       if cid < 0 then
         bindr (get_chan s a) (\<lambda>ch.
         bindr (multiplex_handler_send_packet env s PacketType_ChannelOpenConfirmation 0 0
                  (ch_remote_id ch) None) (\<lambda>(_, s).
         bindr (chan_deref env s a) (\<lambda>s. Inr (None, s))))
       else
         bindr (mod_chan s a (\<lambda>ch. ch\<lparr> ch_mux := True, ch_type := channel_type_of (pb_option pb), ch_id := of_int cid,
                  ch_remote_id := pb_remote_channel_id pb, ch_status := ChannelStatus_Opening \<rparr>)) (\<lambda>s.
         bindr (update_remote_timestamp env s a) (\<lambda>s.
         bindr (channels_put env s a) (\<lambda>s. Inr (Some a, s))))))"
    if al: "chan_alloc env s = (r, s1)" for r s1
  proof (cases r)
    case None
    then show ?thesis using al i N by (auto simp: chan_alloc_def split: if_splits)
  next
    case (Some a)
    note al = al [unfolded Some]
    obtain cid ids where c: "ids_heap_alloc (mx_idops env) (mx_ids s1) = (cid, ids)" by fastforce
    note h = chan_alloc_inv [OF i al]
    show ?thesis
    proof (cases "cid < 0")
      case True
      have "mux_inv env (H(a := 1)) B (s1\<lparr> mx_ids := ids \<rparr>)" by (rule ids_alloc_none_inv [OF h(1) c True])
      moreover have "H(a := 0) = H" using h(2) by auto
      ultimately show ?thesis
        using True Some c N by (auto simp: Let_def buf_ready_def packet_types elim!: op_rules)
    next
      case False
      let ?t = "mx_now env (put_chan (s1\<lparr> mx_ids := ids \<rparr>) a (?new cid time_zero))"
      note n = new_channel_inv [OF i al c False, of "?new cid ?t"]
      have "safely D (\<lambda>s. R (Some a, s)) (channels_put env (put_chan (s1\<lparr> mx_ids := ids \<rparr>) a (?new cid ?t)) a)"
      proof (rule channels_put_inv [OF n(1), where ch = "?new cid ?t"])
        fix s' assume "mux_inv env (H(a := 1)) B s'"
        then show "R (Some a, s')" using S [of a] h(2) by simp
      qed (use n(2,4) in \<open>simp_all add: zero_channel_def\<close>)
      then show ?thesis
        using False Some c h(3)
        by (simp add: mod_chan_eq update_remote_timestamp_def zero_channel_def)
    qed
  qed
  show ?thesis
    unfolding accept_channel_def Let_def using i N 1 [unfolded Let_def]
    by (auto split: prod.split)
qed

lemma dispatch_packet_inv:
  assumes "mux_inv env K B s" "0 < K a" "flex_ok buf" "8 \<le> unat (fb_size buf)"
    and R: "\<And>s'. mux_inv env (K(a := K a - 1)) B s' \<Longrightarrow> R s'"
  shows "safely D R (dispatch_packet env s a pb buf payload)"
  unfolding dispatch_packet_def
  using assms by (auto elim!: on_packet_simple_inv on_packet_open_inv on_packet_data_inv chan_deref_inv)

lemma notify_packet_inv:
  assumes i: "mux_inv env H B s" and b: "flex_ok buf" "8 \<le> unat (fb_size buf)"
    and t: "mx_log_args env \<Longrightarrow> unat (flex_data buf ! 0) < 8"
    and R: "\<And>s'. mux_inv env H B s' \<Longrightarrow> R s'"
  shows "safely D R (multiplex_handler_notify_packet env s buf)"
proof -
  let ?pb = "header_of (flex_data buf)"
  have "\<exists>k b'. flex_buffer_forward_offset buf PROTOCOL_HEAD_LEN = Inr (k, b')"
    using flex_forward_spec [OF b(1), of PROTOCOL_HEAD_LEN] b(2)
    by (auto simp: PROTOCOL_HEAD_LEN_def word_le_nat_alt total_def)
  then have up: "safely D R (bindr (flex_buffer_forward_offset buf PROTOCOL_HEAD_LEN) (\<lambda>(_, buf).
      prev_on_data env (mx_log s (MxUp (flex_data buf))) buf))"
    using keepsD(1) [OF on_data_ok] i R by auto
  have log: "log_packet_type env (pb_type ?pb) = Inr ()"
    using t by (auto simp: log_packet_type_def header_of_def PacketTypeNames_def)
  have d: "safely D R (dispatch_packet env s' a ?pb buf (drop 8 (flex_data buf)))"
    if "mux_inv env (H(a := H a + 1)) B s'" for a s'
    by (rule dispatch_packet_inv [OF that _ b]) (auto simp: R)
  have "safely D (\<lambda>(r, s). safely D R (case r of None \<Rightarrow> Inr s
      | Some a \<Rightarrow> dispatch_packet env s a ?pb buf (drop 8 (flex_data buf)))) (accept_channel env s ?pb)"
    by (rule accept_channel_inv [OF i]) (simp_all add: R d)
  moreover have "safely D (\<lambda>(r, s). safely D R (case r of None \<Rightarrow> Inr s
      | Some a \<Rightarrow> dispatch_packet env s a ?pb buf (drop 8 (flex_data buf))))
      (channels_get env s (ucast (pb_local_channel_id ?pb)))"
    by (rule channels_get_inv [OF i]) (simp_all add: R d)
  ultimately show ?thesis
    unfolding multiplex_handler_notify_packet_def
    using b up i R by (simp add: parse_header_eq log flex_buffer_size_def PROTOCOL_HEAD_LEN_def word_le_nat_alt
        word_less_nat_alt split_def)
qed

lemma with_open_channel_inv:
  assumes i: "mux_inv env H B s" and R: "\<And>r s'. mux_inv env H B s' \<Longrightarrow> R (r, s')"
    and body: "\<And>K s a ch R. mux_inv env K B s \<Longrightarrow> 0 < K a \<Longrightarrow> (\<And>r s'. mux_inv env K B s' \<Longrightarrow> R (r, s')) \<Longrightarrow>
      safely D R (body s a ch)"
  shows "safely D R (with_open_channel env s cid body)"
  unfolding with_open_channel_def safely_simps
  by (rule channels_get_inv [OF i]) (auto simp: R elim!: op_rules body)

lemma channel_calls_inv:
  assumes i: "mux_inv env H B s" and R: "\<And>r s'. mux_inv env H B s' \<Longrightarrow> R (r, s')"
  shows "0 < cid \<Longrightarrow> safely D R (multiplex_handler_pend_channel env s cid)"
    "0 < cid \<Longrightarrow> safely D R (multiplex_handler_resume_channel env s cid)"
    "0 \<le> cid \<Longrightarrow> buf_ready (Some buf) \<Longrightarrow> safely D R (multiplex_handler_write_channel env s cid buf)"
    "0 < cid \<Longrightarrow> safely D R (multiplex_handler_close_channel env s cid)"
proof -
  show "0 < cid \<Longrightarrow> safely D R (multiplex_handler_pend_channel env s cid)"
    "0 < cid \<Longrightarrow> safely D R (multiplex_handler_resume_channel env s cid)"
    unfolding multiplex_handler_pend_channel_def multiplex_handler_resume_channel_def
    using R by (auto simp: buf_ready_def packet_types intro!: with_open_channel_inv [OF i] elim!: op_rules)
  show "0 \<le> cid \<Longrightarrow> buf_ready (Some buf) \<Longrightarrow> safely D R (multiplex_handler_write_channel env s cid buf)"
    unfolding multiplex_handler_write_channel_def
    using R by (auto simp: packet_types intro!: with_open_channel_inv [OF i] send_packet_inv [OF i] elim!: op_rules)
  show "0 < cid \<Longrightarrow> safely D R (multiplex_handler_close_channel env s cid)"
    unfolding multiplex_handler_close_channel_def
    by (auto simp: R buf_ready_def packet_types intro!: channels_get_inv [OF i] elim!: op_rules)
qed

text \<open>Opening: the arguments that the assertions ask for.\<close>

lemma open_channel_tail_inv:
  assumes "mux_inv env (H(a := 1)) B s" "H a = 0" "buf_ready bufo"
    and R: "\<And>r s'. mux_inv env H B s' \<Longrightarrow> R (r, s')"
  shows "safely D R (bindr (get_chan s a) (\<lambda>ch.
     bindr (multiplex_handler_send_packet env s PacketType_ChannelOpen (channel_type_code type)
              (ch_id ch) (ch_remote_id ch) bufo) (\<lambda>(rc, s).
     bindr (chan_deref env s a) (\<lambda>s.
     if rc < 0 then bindr (channels_remove env s (of_int cid)) (\<lambda>s. Inr (rc, s))
     else Inr (cid, s)))))"
proof -
  have "H(a := 0) = H" using assms(2) by auto
  then show ?thesis using assms by (auto simp: packet_types elim!: op_rules)
qed

lemma cookie_buffer:
  assumes "length str < 2 ^ 32" and that: "cookie = None \<or> cookie = Some str"
  shows "safely D (\<lambda>b. buf_ready b) (case cookie of None \<Rightarrow> Inr None
    | Some str \<Rightarrow> bindr (flex_buffer_from junk FLEX_PADDING_LEN (str @ [0]) (of_nat (length str + 1))) (\<lambda>b. Inr (Some b)))"
proof -
  have u: "unat (of_nat (length str + 1) :: u64) = length str + 1"
    using assms by (intro unat_of_nat_small) simp
  have "total (\<lambda>b. flex_ok b \<and> flex_data b = str @ [0] \<and> fb_offset b = FLEX_PADDING_LEN \<and>
      fb_size b = of_nat (length str + 1)) (flex_buffer_from junk FLEX_PADDING_LEN (str @ [0]) (of_nat (length str + 1)))"
    by (rule flex_from_spec) (use u assms in \<open>simp_all add: FLEX_PADDING_LEN_def\<close>)
  then show ?thesis
    using that by (auto simp: buf_ready_def FLEX_PADDING_LEN_def PROTOCOL_HEAD_LEN_def elim!: total_safely)
qed

lemma open_channel_inv:
  assumes i: "mux_inv env H B s" and R: "\<And>r s'. mux_inv env H B s' \<Longrightarrow> R (r, s')"
    and t: "type = ChannelType_User \<or> mx_portforwarding env \<and> (type = ChannelType_UDP_PortForwarding \<or>
        type = ChannelType_TCP_PortForwarding \<and> mx_reliable env)"
    and c: "\<And>str. cookie = Some str \<Longrightarrow> length str < 2 ^ 32"
  shows "safely D R (multiplex_handler_open_channel env s type cookie timeout sock)"
proof (cases "chan_alloc env s")
  case (Pair r s1)
  note al = Pair
  have g: "g_assert (case type of ChannelType_User \<Rightarrow> True
      | ChannelType_UDP_PortForwarding \<Rightarrow> mx_portforwarding env
      | ChannelType_TCP_PortForwarding \<Rightarrow> mx_portforwarding env \<and> mx_reliable env
      | ChannelType_MAX \<Rightarrow> False) = Inr ()"
    using t by auto
  show ?thesis
  proof (cases r)
    case None
    then show ?thesis
      using al i R by (auto simp: multiplex_handler_open_channel_def g chan_alloc_def split: if_splits)
  next
    case (Some a)
    note al = al [unfolded Some]
    obtain cid ids where ids: "ids_heap_alloc (mx_idops env) (mx_ids s1) = (cid, ids)" by fastforce
    note h = chan_alloc_inv [OF i al]
    have H0: "H(a := 0) = H" using h(2) by auto
    show ?thesis
    proof (cases "cid < 0")
      case True
      have "mux_inv env (H(a := 1)) B (s1\<lparr> mx_ids := ids \<rparr>)" by (rule ids_alloc_none_inv [OF h(1) ids True])
      then have "safely D R (bindr (chan_deref env (s1\<lparr> mx_ids := ids \<rparr>) a)
          (\<lambda>s. Inr (general_err ELAERR_LIMIT_EXCEEDED, s)))"
        using H0 R by (auto elim!: chan_deref_inv)
      then show ?thesis by (simp add: multiplex_handler_open_channel_def g al ids True)
    next
      case False
      let ?new = "\<lambda>t k. zero_channel\<lparr> ch_mux := True, ch_type := type, ch_id := of_int cid, ch_remote_id := 0,
        ch_status := ChannelStatus_Opening, ch_timeout := timeout, ch_remote_timestamp := t,
        ch_last_activity := t, ch_sock := k \<rparr>"
      let ?t = "mx_now env (put_chan (s1\<lparr> mx_ids := ids \<rparr>) a (?new time_zero 0))"
      let ?k = "if type = ChannelType_TCP_PortForwarding then sock else 0"
      note n = new_channel_inv [OF i al ids False, of "?new ?t ?k"]
      obtain str where str: "cookie = None \<or> cookie = Some str" "length str < 2 ^ 32"
        using c by (cases cookie) (auto intro: that [of "[]"])
      have "safely D (\<lambda>s. safely D (\<lambda>buf. safely D R (bindr (get_chan s a) (\<lambda>ch.
           bindr (multiplex_handler_send_packet env s PacketType_ChannelOpen (channel_type_code type)
                    (ch_id ch) (ch_remote_id ch) buf) (\<lambda>(rc, s).
           bindr (chan_deref env s a) (\<lambda>s.
           if rc < 0 then bindr (channels_remove env s (of_int cid)) (\<lambda>s. Inr (rc, s))
           else Inr (cid, s))))))
         (case cookie of None \<Rightarrow> Inr None
          | Some str \<Rightarrow> bindr (flex_buffer_from (mx_junk env) FLEX_PADDING_LEN (str @ [0])
              (of_nat (length str + 1))) (\<lambda>b. Inr (Some b))))
         (channels_put env (put_chan (s1\<lparr> mx_ids := ids \<rparr>) a (?new ?t ?k)) a)"
      proof (rule channels_put_inv [OF n(1), where ch = "?new ?t ?k"])
        fix s'
        assume s': "mux_inv env (H(a := 1)) B s'"
        show "safely D (\<lambda>buf. safely D R (bindr (get_chan s' a) (\<lambda>ch.
           bindr (multiplex_handler_send_packet env s' PacketType_ChannelOpen (channel_type_code type)
                    (ch_id ch) (ch_remote_id ch) buf) (\<lambda>(rc, s).
           bindr (chan_deref env s a) (\<lambda>s.
           if rc < 0 then bindr (channels_remove env s (of_int cid)) (\<lambda>s. Inr (rc, s))
           else Inr (cid, s))))))
         (case cookie of None \<Rightarrow> Inr None
          | Some str \<Rightarrow> bindr (flex_buffer_from (mx_junk env) FLEX_PADDING_LEN (str @ [0])
              (of_nat (length str + 1))) (\<lambda>b. Inr (Some b)))"
          by (rule safely_mono [OF cookie_buffer [OF str(2,1)]])
            (rule open_channel_tail_inv [where H = H and R = R, OF s' h(2)]; (simp add: R)?)
      qed (use n(2,4) in \<open>simp_all add: zero_channel_def\<close>)
      then show ?thesis
        using False ids h(3) t
        by (cases "type = ChannelType_TCP_PortForwarding")
          (simp_all add: multiplex_handler_open_channel_def g al mod_chan_eq update_remote_timestamp_def
            zero_channel_def)
    qed
  qed
qed

section \<open>Loops over the channels\<close>

lemma iterator_remove_inv:
  assumes i: "mux_inv env K (insert h B) s" and h: "mx_channels s = h" and k: "hashtable_get (mx_table env) h k = Some a"
    and R: "\<And>s'. mux_inv env K (insert (hashtable_remove (mx_table env) h k) B) s' \<Longrightarrow>
      mx_channels s' = hashtable_remove (mx_table env) h k \<Longrightarrow> R s'"
  shows "safely D' R (iterator_remove env s a)"
proof -
  have k': "hashtable_get (mx_table env) (mx_channels s) k = Some a" using k h by simp
  obtain ch where ch: "mx_heap s a = Some ch" "k = ucast (ch_id ch)" using mux_invD(1) [OF i k'] by blast
  let ?s = "s\<lparr> mx_channels := hashtable_remove (mx_table env) (mx_channels s) k \<rparr>"
  have "mux_inv env (K(a := K a + 1)) (insert (hashtable_remove (mx_table env) h k) B) ?s"
    using mux_inv_mono [OF mux_inv_here [OF table_remove_inv [OF i k']], of "insert (hashtable_remove (mx_table env) h k) B"]
    by (auto simp: h)
  from chan_deref_inv [OF this, of a R D'] show ?thesis
    using R ch h by (simp add: iterator_remove_def get_chan_def)
qed

lemma items_ok:
  assumes "mux_inv env H B s"
  shows "set (hashtable_items (mx_table env) (mx_channels s)) \<subseteq> ran (hashtable_get (mx_table env) (mx_channels s))"
    "distinct (hashtable_items (mx_table env) (mx_channels s))"
  using hashtable_items_ran [OF table_ok] hashtable_items_distinct [OF table_ok table_inj [OF assms]] by auto

lemma ran_remove:
  "set (a # it) \<subseteq> ran (hashtable_get (mx_table env) h) \<Longrightarrow> distinct (a # it) \<Longrightarrow>
    hashtable_get (mx_table env) h k = Some a \<Longrightarrow>
    set it \<subseteq> ran (hashtable_get (mx_table env) (hashtable_remove (mx_table env) h k))"
  unfolding hashtable_okD(3) [OF table_ok] ran_def by (simp add: subset_iff) (metis option.inject)

lemma close_iter_inv:
  assumes D and "mux_inv env H (insert h B) s" and "hashtable_version (mx_table env) h = ver"
    and "set it \<subseteq> ran (hashtable_get (mx_table env) h)" "distinct it"
    and "\<And>s'. mux_inv env H B s' \<Longrightarrow> R s'"
  shows "safely D R (close_iter fuel env s it ver reason)"
  using assms(2-)
proof (induction fuel arbitrary: s h it ver)
  case 0
  then show ?case using \<open>D\<close> by simp
next
  case (Suc fuel)
  show ?case
  proof (cases it)
    case Nil
    then show ?thesis using Suc.prems(5) mux_inv_mono [OF Suc.prems(1), of B] by auto
  next
    case (Cons a it')
    show ?thesis
    proof (cases "hashtable_version (mx_table env) (mx_channels s) = ver")
      case False
      have i: "mux_inv env H (insert (mx_channels s) B) s"
        by (rule mux_inv_mono [OF mux_inv_here [OF Suc.prems(1)]]) auto
      from Suc.IH [OF i refl items_ok [OF i] Suc.prems(5)] False Cons show ?thesis by simp
    next
      case True
      have h: "mx_channels s = h" using same_table [OF Suc.prems(1)] True Suc.prems(2) by simp
      obtain k where k: "hashtable_get (mx_table env) h k = Some a"
        using Suc.prems(3) Cons by (auto simp: ran_def)
      obtain ch where ch: "mx_heap s a = Some ch" using mux_invD(1) [OF Suc.prems(1)] k h by blast
      let ?h = "hashtable_remove (mx_table env) h k"
      have go: "safely D R (close_iter fuel env s' it' (hashtable_version (mx_table env) ?h) reason)"
        if "mux_inv env H (insert ?h B) s'" for s'
        by (rule Suc.IH [OF that refl ran_remove [OF _ _ k]]) (use Suc.prems Cons in auto)
      have "safely D (\<lambda>s. safely D (\<lambda>s. safely D (\<lambda>s'. safely D
          (\<lambda>s'. safely D R (close_iter fuel env s' it' (hashtable_version (mx_table env) (mx_channels s)) reason))
          (chan_deref env s' a)) (notify_channel_close env s a reason)) (iterator_remove env s a)) (chan_ref s a)"
      proof (rule chan_ref_inv [OF Suc.prems(1) ch])
        fix s1
        assume s1: "mux_inv env (H(a := H a + 1)) (insert h B) s1" "mx_channels s1 = mx_channels s"
        show "safely D (\<lambda>s. safely D (\<lambda>s'. safely D
          (\<lambda>s'. safely D R (close_iter fuel env s' it' (hashtable_version (mx_table env) (mx_channels s)) reason))
          (chan_deref env s' a)) (notify_channel_close env s a reason)) (iterator_remove env s1 a)"
          by (rule iterator_remove_inv [OF s1(1) _ k])
            (use s1(2) h go in \<open>auto elim!: op_rules\<close>)
      qed
      then show ?thesis using Cons True by (simp add: Let_def)
    qed
  qed
qed

lemma checkpoint_iter_inv:
  assumes D and "mux_inv env H (insert h B) s" and "hashtable_version (mx_table env) h = ver"
    and "set it \<subseteq> ran (hashtable_get (mx_table env) h)" "distinct it"
    and "\<And>s'. mux_inv env H B s' \<Longrightarrow> R s'"
  shows "safely D R (checkpoint_iter fuel env s now it ver)"
  using assms(2-)
proof (induction fuel arbitrary: s now h it ver)
  case 0
  then show ?case using \<open>D\<close> by simp
next
  case (Suc fuel)
  show ?case
  proof (cases it)
    case Nil
    then show ?thesis using Suc.prems(5) mux_inv_mono [OF Suc.prems(1), of B] by auto
  next
    case (Cons a it')
    show ?thesis
    proof (cases "hashtable_version (mx_table env) (mx_channels s) = ver")
      case False
      have i: "mux_inv env H (insert (mx_channels s) B) s"
        by (rule mux_inv_mono [OF mux_inv_here [OF Suc.prems(1)]]) auto
      from Suc.IH [OF i refl items_ok [OF i] Suc.prems(5)] False Cons show ?thesis by simp
    next
      case True
      have h: "mx_channels s = h" using same_table [OF Suc.prems(1)] True Suc.prems(2) by simp
      obtain k where k: "hashtable_get (mx_table env) h k = Some a"
        using Suc.prems(3) Cons by (auto simp: ran_def)
      obtain ch where ch: "mx_heap s a = Some ch" using mux_invD(1) [OF Suc.prems(1)] k h by blast
      let ?h = "hashtable_remove (mx_table env) h k"
      have go: "safely D R (checkpoint_iter fuel env s' now it' (hashtable_version (mx_table env) ?h))"
        if "mux_inv env H (insert ?h B) s'" for s'
        by (rule Suc.IH [OF that refl ran_remove [OF _ _ k]]) (use Suc.prems Cons in auto)
      have stay: "safely D R (checkpoint_iter fuel env s' now it' ver)"
        if "mux_inv env H (insert h B) s'" for s'
        by (rule Suc.IH [OF that Suc.prems(2)]) (use Suc.prems Cons in auto)
      have rem: "safely D Q (iterator_remove env s a)"
        if "mux_inv env K (insert h B) s" "hashtable_version (mx_table env) (mx_channels s) = hashtable_version (mx_table env) h"
          "\<And>s'. mux_inv env K (insert ?h B) s' \<Longrightarrow> mx_channels s' = ?h \<Longrightarrow> Q s'" for K s Q
        using that same_table [OF that(1,2)] by (intro iterator_remove_inv [OF that(1) _ k])
      show ?thesis
        unfolding Cons checkpoint_iter.simps list.case Suc.prems(2) [symmetric]
        using h go stay [unfolded Suc.prems(2) [symmetric]]
        by (auto simp: buf_ready_def packet_types intro!: chan_ref_inv [OF Suc.prems(1) ch] elim!: op_rules rem [folded h])
    qed
  qed
qed

lemma loops_inv:
  assumes D and i: "mux_inv env H B s" and R: "\<And>s'. mux_inv env H B s' \<Longrightarrow> R s'"
  shows "safely D R (multiplex_handler_close_channels env s reason)"
    "safely D R (multiplex_handler_checkpoint env s)"
  unfolding multiplex_handler_close_channels_def multiplex_handler_checkpoint_def
  by (rule close_iter_inv checkpoint_iter_inv, rule \<open>D\<close>, rule mux_inv_here [OF i], rule refl, rule items_ok [OF i],
      rule items_ok [OF i], erule R)+

lemma timer_inv: "mux_inv env H B (s\<lparr> mx_timer := b \<rparr>) = mux_inv env H B s"
  by (simp add: mux_inv_def inv_defs)

lemma handler_calls_inv:
  assumes D and i: "mux_inv env H B s" and R: "\<And>s'. mux_inv env H B s' \<Longrightarrow> R s'"
  shows "safely D R (multiplex_handler_stop env s err)"
    "safely D R (multiplex_handler_on_state_changed env s st)"
proof -
  show "safely D R (multiplex_handler_stop env s err)"
  proof -
    have "safely D R (next_stop env (mx_log s' (MxDownStop err)) err)" if "mux_inv env H B s'" for s'
      by (rule keepsD(1) [OF stop_ok _ R]) (use that in simp_all)
    then show ?thesis
      unfolding multiplex_handler_stop_def Let_def safely_simps
      by (intro loops_inv(1) [OF \<open>D\<close> i]) (auto intro!: keepsD(1) [OF worker_stop_ok] simp: timer_inv)
  qed
  have "safely D R (prev_on_state env (mx_log s' (MxUpState st)) st)" if "mux_inv env H B s'" for s'
    by (rule keepsD(1) [OF on_state_ok _ R]) (use that in simp_all)
  then show "safely D R (multiplex_handler_on_state_changed env s st)"
    unfolding multiplex_handler_on_state_changed_def using i by (auto intro!: loops_inv(1) [OF \<open>D\<close> i])
qed

end

text \<open>The state after \<open>multiplex_handler_create\<close>.\<close>

lemma create_inv:
  assumes "hashtable_ok (mx_table env)" "ids_in_use (mx_idops env) i = {}"
    and "multiplex_handler_create env True (Some (hashtable_empty (mx_table env))) (0, i) rc = Inr (r, s)"
  shows "mux_inv env (\<lambda>_. 0) {} s"
  using assms hashtable_okD(1) [OF assms(1)]
  by (auto simp: multiplex_handler_create_def mux_inv_def inv_defs live_ids_def flex_buffer_init_def flex_ok_def
      FLEX_PADDING_LEN_def FLEX_BUFFER_MAX_LEN_def ELA_MAX_USER_DATA_LEN_def split: if_splits)

end
