(* ===== verification/Mux_Frame.thy ===== *)
theory Mux_Frame
  imports Mux_Inv
begin

text \<open>
  The stream mode of the multiplexer: packets are cut out of a byte stream that arrives in pieces of
  any size. \<open>deframe\<close> is the reference: it splits a list of bytes into packets by their length fields.
  The loop of \<open>multiplex_handler_notify_data\<close>, with its buffer for the incomplete packet, hands on the
  packets of \<open>deframe\<close>, however the stream is cut.

  The locale \<open>mux_blind\<close> is the contract for this: what the multiplexer calls does not look at the buffer for
  the incomplete packet and takes from a packet's buffer only its bytes.
\<close>

section \<open>Functions that do not look at the incomplete packet\<close>

definition blind :: "(('h, 'i) mux \<Rightarrow> ('h, 'i) mux res) \<Rightarrow> bool" where
  "blind f \<longleftrightarrow> (\<forall>s x. f (set_incomplete s x) = bindr (f s) (\<lambda>s'. Inr (set_incomplete s' x)))"

definition blind_ret :: "(('h, 'i) mux \<Rightarrow> ('a \<times> ('h, 'i) mux) res) \<Rightarrow> bool" where
  "blind_ret f \<longleftrightarrow> (\<forall>s x. f (set_incomplete s x) = bindr (f s) (\<lambda>(r, s'). Inr (r, set_incomplete s' x)))"

definition blind_callbacks :: "('h, 'i) ChannelCallbacks \<Rightarrow> bool" where
  "blind_callbacks cb \<longleftrightarrow>
     (\<forall>f a c. channel_open cb = Some f \<longrightarrow> blind_ret (\<lambda>s. f s a c)) \<and>
     (\<forall>f a. channel_opened cb = Some f \<longrightarrow> blind (\<lambda>s. f s a)) \<and>
     (\<forall>f a r. channel_close cb = Some f \<longrightarrow> blind (\<lambda>s. f s a r)) \<and>
     (\<forall>f a b. channel_data cb = Some f \<longrightarrow> blind_ret (\<lambda>s. f s a b)) \<and>
     (\<forall>f a. channel_pending cb = Some f \<longrightarrow> blind (\<lambda>s. f s a)) \<and>
     (\<forall>f a. channel_resume cb = Some f \<longrightarrow> blind (\<lambda>s. f s a)) \<and>
     (\<forall>f s a b b'. channel_data cb = Some f \<longrightarrow> flex_ok b \<longrightarrow> flex_ok b' \<longrightarrow> flex_data b = flex_data b' \<longrightarrow>
        f s a b = f s a b')"

definition blind_user :: "('h, 'i) ElaStreamCallbacks \<Rightarrow> bool" where
  "blind_user cb \<longleftrightarrow>
     (\<forall>f i c. user_open cb = Some f \<longrightarrow> blind_ret (\<lambda>s. f s i c)) \<and>
     (\<forall>f i. user_opened cb = Some f \<longrightarrow> blind (\<lambda>s. f s i)) \<and>
     (\<forall>f i r. user_close cb = Some f \<longrightarrow> blind (\<lambda>s. f s i r)) \<and>
     (\<forall>f i b. user_data cb = Some f \<longrightarrow> blind_ret (\<lambda>s. f s i b)) \<and>
     (\<forall>f i. user_pending cb = Some f \<longrightarrow> blind (\<lambda>s. f s i)) \<and>
     (\<forall>f i. user_resume cb = Some f \<longrightarrow> blind (\<lambda>s. f s i))"

lemma set_incomplete_simps [simp]:
  "mx_heap (set_incomplete s x) = mx_heap s" "mx_channels (set_incomplete s x) = mx_channels s"
  "mx_ids (set_incomplete s x) = mx_ids s" "mx_next (set_incomplete s x) = mx_next s"
  "mx_worker (set_incomplete s x) = mx_worker s" "mx_incomplete (set_incomplete s x) = x"
  "set_incomplete (set_incomplete s x) y = set_incomplete s y"
  "mx_log (set_incomplete s x) e = set_incomplete (mx_log s e) x"
  "put_chan (set_incomplete s x) a ch = set_incomplete (put_chan s a ch) x"
  "get_chan (set_incomplete s x) a = get_chan s a"
  "mx_channels_update f (set_incomplete s x) = set_incomplete (mx_channels_update f s) x"
  "mx_ids_update g (set_incomplete s x) = set_incomplete (mx_ids_update g s) x"
  "mx_heap_update h (set_incomplete s x) = set_incomplete (mx_heap_update h s) x"
  "mx_next_update k (set_incomplete s x) = set_incomplete (mx_next_update k s) x"
  by (simp_all add: set_incomplete_def mx_log_def put_chan_def get_chan_def)

lemma bindr_if: "bindr (if b then m else m') f = (if b then bindr m f else bindr m' f)"
  by simp

named_theorems blind_simps \<open>functions commute with a change of the incomplete packet\<close>

lemma mod_chan_blind [blind_simps]:
  "mod_chan (set_incomplete s x) a f = bindr (mod_chan s a f) (\<lambda>s. Inr (set_incomplete s x))"
  "chan_ref (set_incomplete s x) a = bindr (chan_ref s a) (\<lambda>s. Inr (set_incomplete s x))"
  by (simp_all add: chan_ref_def mod_chan_def bindr_assoc)

lemma chan_deref_blind [blind_simps]:
  "chan_deref env (set_incomplete s x) a = bindr (chan_deref env s a) (\<lambda>s. Inr (set_incomplete s x))"
  by (auto simp: chan_deref_def channel_destroy_def bindr_assoc intro!: bindr_cong)

lemma channels_blind [blind_simps]:
  "channels_get env (set_incomplete s x) k = bindr (channels_get env s k) (\<lambda>(r, s). Inr (r, set_incomplete s x))"
  "channels_remove env (set_incomplete s x) k = bindr (channels_remove env s k) (\<lambda>s. Inr (set_incomplete s x))"
  "channels_put env (set_incomplete s x) a = bindr (channels_put env s a) (\<lambda>s. Inr (set_incomplete s x))"
  by (auto simp: channels_get_def channels_remove_def channels_put_def blind_simps bindr_assoc split: option.split)

lemma user_blind: "blind_user (mx_user env) \<Longrightarrow> blind_callbacks (user_channel_callbacks env)"
  unfolding blind_user_def blind_callbacks_def user_channel_callbacks_def blind_def blind_ret_def
    user_channel_open_def user_channel_opened_def user_channel_close_def user_channel_data_def
    user_channel_pending_def user_channel_resume_def
  by (auto simp: bindr_assoc flex_ptr_all split: option.split)

locale mux_blind =
  fixes env :: "('h, 'i) mux_env"
  assumes zalloc_blind: "mx_zalloc env (set_incomplete s x) = mx_zalloc env s"
    and now_blind: "mx_now env (set_incomplete s x) = mx_now env s"
    and user_blind': "blind_user (mx_user env)"
    and pf_blind: "blind_callbacks (mx_pf env ty)"
    and write_blind: "blind_ret (\<lambda>s. next_write_mx env s bs)"
    and on_data_blind: "blind (\<lambda>s. prev_on_data env s buf)"
    and on_data_bytes: "flex_ok b \<Longrightarrow> flex_ok b' \<Longrightarrow> flex_data b = flex_data b' \<Longrightarrow>
      prev_on_data env s b = prev_on_data env s b'"
begin

lemma callbacks_of_blind: "blind_callbacks (callbacks_of env ty)"
  using user_blind [OF user_blind'] pf_blind by (simp add: callbacks_of_def)

lemma notify_blind [blind_simps]:
  "notify_channel_open env (set_incomplete s x) a c =
     bindr (notify_channel_open env s a c) (\<lambda>(r, s). Inr (r, set_incomplete s x))"
  "notify_channel_data env (set_incomplete s x) a b =
     bindr (notify_channel_data env s a b) (\<lambda>(r, s). Inr (r, set_incomplete s x))"
  "notify_channel_opened env (set_incomplete s x) a = bindr (notify_channel_opened env s a) (\<lambda>s. Inr (set_incomplete s x))"
  "notify_channel_close env (set_incomplete s x) a e = bindr (notify_channel_close env s a e) (\<lambda>s. Inr (set_incomplete s x))"
  "notify_channel_pending env (set_incomplete s x) a = bindr (notify_channel_pending env s a) (\<lambda>s. Inr (set_incomplete s x))"
  "notify_channel_resume env (set_incomplete s x) a = bindr (notify_channel_resume env s a) (\<lambda>s. Inr (set_incomplete s x))"
  unfolding notify_channel_open_def notify_channel_data_def notify_channel_opened_def notify_channel_close_def
    notify_channel_pending_def notify_channel_resume_def Let_def
  using callbacks_of_blind
  by (auto simp: blind_callbacks_def blind_def blind_ret_def bindr_assoc split: option.split intro!: bindr_cong)

lemma timestamp_blind [blind_simps]:
  "update_remote_timestamp env (set_incomplete s x) a =
     bindr (update_remote_timestamp env s a) (\<lambda>s. Inr (set_incomplete s x))"
  "update_local_timestamp env (set_incomplete s x) a =
     bindr (update_local_timestamp env s a) (\<lambda>s. Inr (set_incomplete s x))"
  by (simp_all add: update_remote_timestamp_def update_local_timestamp_def now_blind blind_simps)

lemma chan_alloc_blind:
  "chan_alloc env (set_incomplete s x) = (let (r, s) = chan_alloc env s in (r, set_incomplete s x))"
  by (simp add: chan_alloc_def zalloc_blind)

lemma send_packet_blind [blind_simps]:
  "multiplex_handler_send_packet env (set_incomplete s x) t opt l r b =
     bindr (multiplex_handler_send_packet env s t opt l r b) (\<lambda>(rc, s). Inr (rc, set_incomplete s x))"
  using write_blind
  by (auto simp: multiplex_handler_send_packet_def blind_ret_def bindr_assoc Let_def split_def intro!: bindr_cong)

lemma on_packet_blind [blind_simps]:
  "on_packet_open env (set_incomplete s x) a pb p = bindr (on_packet_open env s a pb p) (\<lambda>s. Inr (set_incomplete s x))"
  "on_packet_confirmation env (set_incomplete s x) a pb = bindr (on_packet_confirmation env s a pb) (\<lambda>s. Inr (set_incomplete s x))"
  "on_packet_data env (set_incomplete s x) a b = bindr (on_packet_data env s a b) (\<lambda>s. Inr (set_incomplete s x))"
  "on_packet_keepalive env (set_incomplete s x) a = bindr (on_packet_keepalive env s a) (\<lambda>s. Inr (set_incomplete s x))"
  "on_packet_pending env (set_incomplete s x) a = bindr (on_packet_pending env s a) (\<lambda>s. Inr (set_incomplete s x))"
  "on_packet_resume env (set_incomplete s x) a = bindr (on_packet_resume env s a) (\<lambda>s. Inr (set_incomplete s x))"
  "on_packet_close env (set_incomplete s x) a = bindr (on_packet_close env s a) (\<lambda>s. Inr (set_incomplete s x))"
  unfolding on_packet_open_def on_packet_confirmation_def on_packet_data_def on_packet_keepalive_def
    on_packet_pending_def on_packet_resume_def on_packet_close_def
  by (auto simp: blind_simps bindr_assoc bindr_if split_def now_blind intro!: bindr_cong)

lemma accept_channel_blind [blind_simps]:
  "accept_channel env (set_incomplete s x) pb = bindr (accept_channel env s pb) (\<lambda>(r, s). Inr (r, set_incomplete s x))"
  unfolding accept_channel_def
  by (auto simp: chan_alloc_blind blind_simps bindr_assoc bindr_if Let_def split_def split: option.split intro!: bindr_cong)

lemma dispatch_packet_blind [blind_simps]:
  "dispatch_packet env (set_incomplete s x) a pb b p = bindr (dispatch_packet env s a pb b p) (\<lambda>s. Inr (set_incomplete s x))"
  by (simp add: dispatch_packet_def blind_simps)

lemma notify_packet_blind [blind_simps]:
  "multiplex_handler_notify_packet env (set_incomplete s x) b =
     bindr (multiplex_handler_notify_packet env s b) (\<lambda>s. Inr (set_incomplete s x))"
proof -
  have "prev_on_data env (set_incomplete s x) b = bindr (prev_on_data env s b) (\<lambda>s. Inr (set_incomplete s x))" for s b
    using on_data_blind by (simp add: blind_def)
  then show ?thesis
    unfolding multiplex_handler_notify_packet_def
    by (auto simp: blind_simps bindr_assoc bindr_if split_def split: option.split intro!: bindr_cong)
qed

text \<open>A packet's bytes are all that matters.\<close>

lemma notify_channel_data_bytes:
  "flex_ok b \<Longrightarrow> flex_ok b' \<Longrightarrow> flex_data b = flex_data b' \<Longrightarrow>
    notify_channel_data env s a b = notify_channel_data env s a b'"
  unfolding notify_channel_data_def Let_def using callbacks_of_blind
  by (auto simp: blind_callbacks_def split: option.split intro!: bindr_cong)

lemma notify_packet_bytes:
  assumes "flex_ok b" "flex_ok b'" "flex_data b = flex_data b'"
  shows "multiplex_handler_notify_packet env s b = multiplex_handler_notify_packet env s b'"
proof (cases "8 \<le> unat (fb_size b)")
  case True
  have sz: "fb_size b = fb_size b'"
    using assms(3) by (metis length_flex_data word_unat_eq_iff)
  then have fw: "total (\<lambda>(k, c). flex_ok c \<and> flex_data c = drop 8 (flex_data b))
      (flex_buffer_forward_offset x PROTOCOL_HEAD_LEN)" if "x = b \<or> x = b'" for x
    using that flex_forward_spec [of x PROTOCOL_HEAD_LEN] assms True
    by (auto simp: PROTOCOL_HEAD_LEN_def word_le_nat_alt elim!: total_mono)
  from fw [of b] fw [of b'] obtain k c k' c' where
    f: "flex_buffer_forward_offset b PROTOCOL_HEAD_LEN = Inr (k, c)"
      "flex_buffer_forward_offset b' PROTOCOL_HEAD_LEN = Inr (k', c')"
      "flex_ok c" "flex_ok c'" "flex_data c = flex_data c'"
    by (auto simp: total_def)
  have d: "on_packet_data env s a b = on_packet_data env s a b'" for s a
    using notify_channel_data_bytes [OF f(3-5)] by (simp add: on_packet_data_def f cong: if_cong)
  have dp: "dispatch_packet env s a pb b p = dispatch_packet env s a pb b' p" for s a pb p
    by (simp add: dispatch_packet_def d)
  show ?thesis
    using True assms on_data_bytes [OF f(3-5)] sz
    by (simp add: multiplex_handler_notify_packet_def parse_header_eq flex_buffer_size_def f dp
        cong: if_cong option.case_cong)
next
  case False
  moreover have "fb_size b = fb_size b'"
    using assms(3) by (metis length_flex_data word_unat_eq_iff)
  ultimately show ?thesis
    by (simp add: multiplex_handler_notify_packet_def flex_buffer_size_def PROTOCOL_HEAD_LEN_def word_le_nat_alt)
qed

end

section \<open>Packets in a stream\<close>

definition frame_len :: "byte list \<Rightarrow> nat" where
  "frame_len bs = 8 + unat (pb_payload_len (header_of bs))"

function deframe :: "byte list \<Rightarrow> byte list list \<times> byte list" where
  "deframe bs =
     (if length bs < 8 \<or> length bs < frame_len bs then ([], bs)
      else let (ps, r) = deframe (drop (frame_len bs) bs) in (take (frame_len bs) bs # ps, r))"
  by auto
termination
  by (relation "measure length") (auto simp: frame_len_def)

declare deframe.simps [simp del]

text \<open>The packets that fit into the buffer for the incomplete packet.\<close>

definition packet_room :: nat where
  "packet_room = unat FLEX_BUFFER_MAX_LEN - unat FLEX_PADDING_LEN"

definition frames_fit :: "byte list \<Rightarrow> bool" where
  "frames_fit bs \<longleftrightarrow> (\<forall>p \<in> set (fst (deframe bs)). length p \<le> packet_room) \<and>
     (length (snd (deframe bs)) \<ge> 8 \<longrightarrow> frame_len (snd (deframe bs)) \<le> packet_room)"

lemma header_of_take: "8 \<le> n \<Longrightarrow> header_of (take n bs) = header_of bs"
  by (simp add: header_of_def)

lemma header_of_append: "8 \<le> length bs \<Longrightarrow> header_of (bs @ cs) = header_of bs"
  by (auto simp: header_of_def nth_append)

lemma frame_len_append: "8 \<le> length bs \<Longrightarrow> frame_len (bs @ cs) = frame_len bs"
  by (simp add: frame_len_def header_of_append)

lemma deframe_partial: "length bs < 8 \<or> length bs < frame_len bs \<Longrightarrow> deframe bs = ([], bs)"
  by (subst deframe.simps) simp

lemma deframe_step:
  "8 \<le> length bs \<Longrightarrow> frame_len bs \<le> length bs \<Longrightarrow>
    deframe bs = (take (frame_len bs) bs # fst (deframe (drop (frame_len bs) bs)), snd (deframe (drop (frame_len bs) bs)))"
  by (subst deframe.simps) (simp add: Let_def split_def)

lemma deframe_rest_partial: "length (snd (deframe bs)) < 8 \<or> length (snd (deframe bs)) < frame_len (snd (deframe bs))"
proof (induction bs rule: deframe.induct)
  case (1 bs)
  then show ?case
    by (cases "length bs < 8 \<or> length bs < frame_len bs") (simp_all add: deframe_partial deframe_step)
qed

text \<open>Splitting further bytes off a stream that is already split.\<close>

lemma deframe_append:
  "deframe (bs @ cs) = (fst (deframe bs) @ fst (deframe (snd (deframe bs) @ cs)), snd (deframe (snd (deframe bs) @ cs)))"
proof (induction bs rule: deframe.induct)
  case (1 bs)
  show ?case
  proof (cases "length bs < 8 \<or> length bs < frame_len bs")
    case True
    then show ?thesis by (simp add: deframe_partial)
  next
    case False
    then have f: "frame_len (bs @ cs) = frame_len bs" by (simp add: frame_len_append)
    have "deframe (drop (frame_len bs) bs @ cs) =
        (fst (deframe (drop (frame_len bs) bs)) @ fst (deframe (snd (deframe (drop (frame_len bs) bs)) @ cs)),
         snd (deframe (snd (deframe (drop (frame_len bs) bs)) @ cs)))"
      using False "1.IH" by simp
    with False f show ?thesis by (simp add: deframe_step)
  qed
qed

lemma frames_fit_step:
  assumes "frames_fit bs" "8 \<le> length bs"
  shows "frame_len bs \<le> packet_room" "frame_len bs \<le> length bs \<Longrightarrow> frames_fit (drop (frame_len bs) bs)"
proof -
  have "length bs < frame_len bs \<or> 8 \<le> length bs \<and> frame_len bs \<le> length bs" using assms(2) by auto
  then show "frame_len bs \<le> packet_room"
    using assms by (auto simp: frames_fit_def deframe_partial deframe_step)
  show "frame_len bs \<le> length bs \<Longrightarrow> frames_fit (drop (frame_len bs) bs)"
    using assms by (simp add: frames_fit_def deframe_step)
qed

lemma frames_fit_append:
  assumes "frames_fit (bs @ cs)"
  shows "frames_fit bs" "frames_fit (snd (deframe bs) @ cs)"
proof -
  show r: "frames_fit (snd (deframe bs) @ cs)"
    using assms deframe_append [of bs cs] by (simp add: frames_fit_def)
  have "frame_len (snd (deframe bs)) \<le> packet_room" if "8 \<le> length (snd (deframe bs))"
    using frames_fit_step(1) [OF r] that by (simp add: frame_len_append)
  then show "frames_fit bs" using assms deframe_append [of bs cs] by (simp add: frames_fit_def)
qed

section \<open>The buffer for the incomplete packet\<close>

definition inc_ok :: "FlexBuffer \<Rightarrow> bool" where
  "inc_ok b \<longleftrightarrow> flex_ok b \<and> fb_capacity b = FLEX_BUFFER_MAX_LEN \<and> fb_offset b = FLEX_PADDING_LEN"

lemma inc_ok_available: "inc_ok b \<Longrightarrow> unat (flex_buffer_available b) = packet_room - length (flex_data b)"
  by (simp add: inc_ok_def unat_available packet_room_def)

lemma append_inc:
  assumes "inc_ok inc" "flex_ok buf" "length (flex_data inc) + length (flex_data buf) \<le> packet_room"
  shows "\<exists>inc'. flex_buffer_append inc buf = Inr inc' \<and> inc_ok inc' \<and> flex_data inc' = flex_data inc @ flex_data buf"
  using flex_append2_spec [of inc buf "fb_size buf"] assms inc_ok_available [OF assms(1)]
  by (auto simp: append_append2 total_def inc_ok_def min_def)

lemma take_over_inc:
  assumes "inc_ok (mx_incomplete s)" "flex_ok buf" "unat n \<le> length (flex_data buf)"
    "length (flex_data (mx_incomplete s)) + unat n \<le> packet_room"
  shows "\<exists>buf' inc'. take_over s buf n = Inr (buf', set_incomplete s inc') \<and> inc_ok inc' \<and>
    flex_data inc' = flex_data (mx_incomplete s) @ take (unat n) (flex_data buf) \<and>
    flex_ok buf' \<and> flex_data buf' = drop (unat n) (flex_data buf)"
proof -
  from flex_append2_spec [of "mx_incomplete s" buf n] assms inc_ok_available [OF assms(1)] obtain inc' where
    1: "flex_buffer_append2 (mx_incomplete s) buf n = Inr inc'" "inc_ok inc'"
      "flex_data inc' = flex_data (mx_incomplete s) @ take (unat n) (flex_data buf)"
    by (auto simp: total_def inc_ok_def min_def split: if_splits)
  from flex_forward_spec [OF assms(2), of n] assms(3) obtain k buf' where
    2: "flex_buffer_forward_offset buf n = Inr (k, buf')" "flex_ok buf'" "flex_data buf' = drop (unat n) (flex_data buf)"
    by (auto simp: total_def word_le_nat_alt)
  show ?thesis using 1 2 by (auto simp: take_over_def)
qed

lemma reset_inc: "inc_ok b \<Longrightarrow> inc_ok (flex_buffer_reset b FLEX_PADDING_LEN) \<and> flex_data (flex_buffer_reset b FLEX_PADDING_LEN) = []"
  by (simp add: inc_ok_def flex_buffer_reset_def flex_ok_def flex_data_def FLEX_PADDING_LEN_def FLEX_BUFFER_MAX_LEN_def
      ELA_MAX_USER_DATA_LEN_def)

lemma packet_room_8: "8 \<le> packet_room"
  by (simp add: packet_room_def FLEX_BUFFER_MAX_LEN_def FLEX_PADDING_LEN_def ELA_MAX_USER_DATA_LEN_def)

text \<open>A buffer that holds a packet.\<close>

definition packet_buffer :: "byte list \<Rightarrow> FlexBuffer" where
  "packet_buffer p = \<lparr> fb_capacity = FLEX_BUFFER_MAX_LEN, fb_offset = FLEX_PADDING_LEN, fb_size = of_nat (length p),
     fb_buffer = (\<lambda>i. if unat FLEX_PADDING_LEN \<le> i \<and> i < unat FLEX_PADDING_LEN + length p
                     then p ! (i - unat FLEX_PADDING_LEN) else 0) \<rparr>"

lemma packet_buffer_ok: "length p \<le> packet_room \<Longrightarrow> inc_ok (packet_buffer p) \<and> flex_data (packet_buffer p) = p"
proof -
  assume "length p \<le> packet_room"
  then have l: "length p \<le> 2176"
    by (simp add: packet_room_def FLEX_BUFFER_MAX_LEN_def FLEX_PADDING_LEN_def ELA_MAX_USER_DATA_LEN_def)
  then have "unat (of_nat (length p) :: u64) = length p" by (intro unat_of_nat_small) simp
  with l show ?thesis
    by (auto simp: inc_ok_def flex_ok_def flex_data_def packet_buffer_def FLEX_BUFFER_MAX_LEN_def FLEX_PADDING_LEN_def
        ELA_MAX_USER_DATA_LEN_def intro!: nth_equalityI)
qed

text \<open>Packets one by one, each in a buffer of its own.\<close>

fun feed_packets :: "('h, 'i) mux_env \<Rightarrow> ('h, 'i) mux \<Rightarrow> byte list list \<Rightarrow> ('h, 'i) mux res" where
  "feed_packets env s [] = Inr s"
| "feed_packets env s (p # ps) =
     bindr (multiplex_handler_notify_packet env s (packet_buffer p)) (\<lambda>s. feed_packets env s ps)"

text \<open>The stream, piece by piece.\<close>

fun feed_chunks :: "('h, 'i) mux_env \<Rightarrow> ('h, 'i) mux \<Rightarrow> FlexBuffer list \<Rightarrow> ('h, 'i) mux res" where
  "feed_chunks env s [] = Inr s"
| "feed_chunks env s (b # bs) = bindr (multiplex_handler_notify_data env s b) (\<lambda>s. feed_chunks env s bs)"

definition frames_to where
  "frames_to env s ps r m \<longleftrightarrow> (case feed_packets env s ps of Inl e \<Rightarrow> m = Inl e
     | Inr s' \<Rightarrow> \<exists>inc. inc_ok inc \<and> flex_data inc = r \<and> m = Inr (set_incomplete s' inc))"

lemma set_incomplete_same [simp]: "set_incomplete s (mx_incomplete s) = s"
  by (simp add: set_incomplete_def)

lemma frames_to_Nil: "inc_ok inc \<Longrightarrow> frames_to env s [] (flex_data inc) (Inr (set_incomplete s inc))"
  by (auto simp: frames_to_def)

lemma feed_packets_append: "feed_packets env s (ps @ qs) = bindr (feed_packets env s ps) (\<lambda>s. feed_packets env s qs)"
  by (induction ps arbitrary: s) (simp_all add: bindr_assoc)

lemma frames_to_append:
  assumes "frames_to env s ps r m"
    and "\<And>s' inc. inc_ok inc \<Longrightarrow> flex_data inc = r \<Longrightarrow> frames_to env s' qs r' (k (set_incomplete s' inc))"
  shows "frames_to env s (ps @ qs) r' (bindr m k)"
  using assms by (fastforce simp: frames_to_def feed_packets_append split: sum.splits)

lemma frames_to_Cons:
  assumes "\<And>s'. frames_to env s' ps r (m s')"
  shows "frames_to env s (p # ps) r (bindr (multiplex_handler_notify_packet env s (packet_buffer p)) m)"
  using assms by (cases "multiplex_handler_notify_packet env s (packet_buffer p)") (simp_all add: frames_to_def)

text \<open>The sizes of two buffers do not wrap when they are added.\<close>

lemma unat_size_add:
  assumes "inc_ok inc" "length (flex_data buf) < 2 ^ 32"
  shows "unat (fb_size inc + fb_size buf) = length (flex_data inc) + length (flex_data buf)"
proof -
  have "unat (fb_size inc) \<le> 2 ^ 32"
    using assms(1) by (auto simp: inc_ok_def flex_ok_def FLEX_BUFFER_MAX_LEN_def ELA_MAX_USER_DATA_LEN_def FLEX_PADDING_LEN_def)
  with assms(2) show ?thesis by (simp add: unat_word_ariths)
qed

lemma unat_packet_len: "unat (ucast (w :: u16) + PROTOCOL_HEAD_LEN) = 8 + unat w"
proof -
  have w: "unat w < 2 ^ 16" using unsigned_less [of w] by simp
  then have "unat (ucast w :: u64) = unat w"
    by (simp add: unsigned_ucast_eq take_bit_nat_eq_self)
  with w show ?thesis by (simp add: PROTOCOL_HEAD_LEN_def unat_word_ariths)
qed

text \<open>Filling the buffer for the incomplete packet up to \<open>t\<close> bytes.\<close>

definition fill_to :: "('h, 'i) mux \<Rightarrow> FlexBuffer \<Rightarrow> u64 \<Rightarrow> (FlexBuffer \<times> ('h, 'i) mux) res" where
  "fill_to s buf t = (if flex_buffer_size (mx_incomplete s) < t
     then take_over s buf (t - flex_buffer_size (mx_incomplete s)) else Inr (buf, s))"

lemma fill_to_spec:
  assumes "inc_ok (mx_incomplete s)" "flex_ok buf" "unat t \<le> packet_room"
    "unat t \<le> length (flex_data (mx_incomplete s)) + length (flex_data buf)"
  shows "\<exists>buf' inc'. fill_to s buf t = Inr (buf', set_incomplete s inc') \<and> inc_ok inc' \<and> flex_ok buf' \<and>
    flex_data inc' = take (max (length (flex_data (mx_incomplete s))) (unat t)) (flex_data (mx_incomplete s) @ flex_data buf) \<and>
    flex_data buf' = drop (max (length (flex_data (mx_incomplete s))) (unat t)) (flex_data (mx_incomplete s) @ flex_data buf)"
proof (cases "fb_size (mx_incomplete s) < t")
  case True
  then have "unat (t - fb_size (mx_incomplete s)) = unat t - length (flex_data (mx_incomplete s))"
    by (simp add: unat_sub)
  moreover have "unat t - length (flex_data (mx_incomplete s)) \<le> length (flex_data buf)" using assms(4) by simp
  ultimately show ?thesis
    using True take_over_inc [OF assms(1,2), of "t - fb_size (mx_incomplete s)"] assms(3)
    by (fastforce simp: fill_to_def flex_buffer_size_def word_less_nat_alt max_def)
next
  case False
  then show ?thesis
    using assms by (auto simp: fill_to_def flex_buffer_size_def word_less_nat_alt max_def intro!: exI [of _ "mx_incomplete s"])
qed

lemma loop_eq:
  "notify_data_loop (Suc fuel) env s buf =
     (if flex_buffer_size buf = 0 then Inr s
      else if flex_buffer_size (mx_incomplete s) + flex_buffer_size buf < PROTOCOL_HEAD_LEN then
        bindr (flex_buffer_append (mx_incomplete s) buf) (\<lambda>inc. Inr (set_incomplete s inc))
      else
        bindr (fill_to s buf PROTOCOL_HEAD_LEN) (\<lambda>(buf, s).
        bindr (parse_header (mx_incomplete s)) (\<lambda>pb.
        if ucast (pb_payload_len pb) + PROTOCOL_HEAD_LEN > flex_buffer_size (mx_incomplete s) + flex_buffer_size buf then
          bindr (flex_buffer_append (mx_incomplete s) buf) (\<lambda>inc. Inr (set_incomplete s inc))
        else
          bindr (fill_to s buf (ucast (pb_payload_len pb) + PROTOCOL_HEAD_LEN)) (\<lambda>(buf, s).
          bindr (multiplex_handler_notify_packet env s (mx_incomplete s)) (\<lambda>s.
          notify_data_loop fuel env
            (set_incomplete s (flex_buffer_reset (mx_incomplete s) FLEX_PADDING_LEN)) buf)))))"
  by (simp only: notify_data_loop.simps fill_to_def Let_def)

context mux_blind
begin

lemma feed_packets_blind:
  "feed_packets env (set_incomplete s x) ps = bindr (feed_packets env s ps) (\<lambda>s. Inr (set_incomplete s x))"
  by (induction ps arbitrary: s) (simp_all add: notify_packet_blind bindr_assoc)

lemma frames_to_blind: "frames_to env (set_incomplete s x) ps r m \<longleftrightarrow> frames_to env s ps r m"
  by (simp add: frames_to_def feed_packets_blind split: sum.split)

lemma loop_frames:
  assumes "inc_ok (mx_incomplete s)" "flex_ok buf" "length (flex_data buf) < 2 ^ 32"
    and "deframe (flex_data (mx_incomplete s)) = ([], flex_data (mx_incomplete s))"
    and "frames_fit (flex_data (mx_incomplete s) @ flex_data buf)"
    and "length (flex_data buf) < fuel"
  shows "frames_to env s (fst (deframe (flex_data (mx_incomplete s) @ flex_data buf)))
    (snd (deframe (flex_data (mx_incomplete s) @ flex_data buf))) (notify_data_loop fuel env s buf)"
  using assms
proof (induction fuel arbitrary: s buf)
  case 0
  then show ?case by simp
next
  case (Suc fuel)
  define pre where "pre = flex_data (mx_incomplete s)"
  define c where "c = flex_data buf"
  note defs = pre_def [symmetric] c_def [symmetric]
  have sz: "unat (fb_size (mx_incomplete s) + fb_size buf) = length (pre @ c)"
    using unat_size_add [OF Suc.prems(1,3)] by (simp add: defs)
  have pre: "length pre < 8 \<or> length pre < frame_len pre"
    using deframe_rest_partial [of pre] Suc.prems(4) by (simp add: defs)
  have ne: "c \<noteq> [] \<Longrightarrow> fb_size buf \<noteq> 0" by (auto simp: c_def flex_data_def)
  consider "c = []" | "c \<noteq> []" "length (pre @ c) < 8" | "c \<noteq> []" "8 \<le> length (pre @ c)" by fastforce
  then show ?case
  proof cases
    case 1
    then have "fb_size buf = 0" using length_flex_data [of buf] by (simp add: c_def unat_eq_0)
    with 1 Suc.prems(1,4) show ?thesis
      using frames_to_Nil [OF Suc.prems(1), of env s] by (simp add: c_def flex_buffer_size_def)
  next
    case 2
    then have "length pre + length c \<le> packet_room" using packet_room_8 by simp
    from append_inc [OF Suc.prems(1,2)] this obtain inc where
      "flex_buffer_append (mx_incomplete s) buf = Inr inc" "inc_ok inc" "flex_data inc = pre @ c"
      by (auto simp: defs)
    with 2 ne sz frames_to_Nil [of inc env s] show ?thesis
      by (simp add: loop_eq flex_buffer_size_def PROTOCOL_HEAD_LEN_def word_less_nat_alt deframe_partial defs)
  next
    case 3
    define n where "n = frame_len (pre @ c)"
    have n: "n \<le> packet_room" "8 \<le> n"
      using frames_fit_step(1) [OF Suc.prems(5)] 3 by (auto simp: defs n_def frame_len_def)
    have "length pre < n"
      using pre n(2) frame_len_append [of pre c] by (cases "8 \<le> length pre") (auto simp: n_def)
    from fill_to_spec [OF Suc.prems(1,2), of PROTOCOL_HEAD_LEN] 3 packet_room_8 obtain buf1 inc1 where
      1: "fill_to s buf PROTOCOL_HEAD_LEN = Inr (buf1, set_incomplete s inc1)" "inc_ok inc1" "flex_ok buf1"
        "flex_data inc1 = take (max (length pre) 8) (pre @ c)" "flex_data buf1 = drop (max (length pre) 8) (pre @ c)"
      by (auto simp: PROTOCOL_HEAD_LEN_def defs)
    have cat: "flex_data inc1 @ flex_data buf1 = pre @ c" using 1 by simp
    have l1: "length (flex_data inc1) = max (length pre) 8" using 1(4) 3 by simp
    have hd: "parse_header inc1 = Inr (header_of (pre @ c))"
      using parse_header_eq [of inc1] 1(2) l1 header_of_append [of "flex_data inc1" "flex_data buf1"]
      by (simp add: inc_ok_def cat)
    have pl: "unat (ucast (pb_payload_len (header_of (pre @ c))) + PROTOCOL_HEAD_LEN :: u64) = n"
      by (simp add: n_def frame_len_def unat_packet_len)
    have sz1: "unat (fb_size inc1 + fb_size buf1) = length (pre @ c)"
    proof -
      have "length (flex_data buf1) \<le> length c" using 1(5) by simp
      then show ?thesis using unat_size_add [OF 1(2), of buf1] Suc.prems(3) arg_cong [OF cat, of length]
        by (simp add: c_def)
    qed
    note loop = loop_eq [of fuel env s buf] 1(1) hd sz sz1 pl 3 ne
    show ?thesis
    proof (cases "length (pre @ c) < n")
      case True
      from append_inc [OF 1(2,3)] cat True n(1) obtain inc where
        "flex_buffer_append inc1 buf1 = Inr inc" "inc_ok inc" "flex_data inc = pre @ c"
        by (metis le_trans length_append less_imp_le)
      with loop True frames_to_Nil [of inc env s] show ?thesis
        by (simp add: flex_buffer_size_def PROTOCOL_HEAD_LEN_def word_less_nat_alt deframe_partial n_def defs)
    next
      case False
      have mx: "max (length (flex_data inc1)) n = n" using l1 n(2) \<open>length pre < n\<close> by simp
      have "n \<le> length (flex_data inc1) + length (flex_data buf1)"
        using False arg_cong [OF cat, of length] by (simp only: length_append)
      with fill_to_spec [of "set_incomplete s inc1" buf1 "ucast (pb_payload_len (header_of (pre @ c))) + PROTOCOL_HEAD_LEN",
          unfolded pl set_incomplete_simps mx cat] 1(2,3) n(1) obtain buf2 inc2 where
        2: "fill_to (set_incomplete s inc1) buf1 (ucast (pb_payload_len (header_of (pre @ c))) + PROTOCOL_HEAD_LEN) =
             Inr (buf2, set_incomplete s inc2)" "inc_ok inc2" "flex_ok buf2"
          "flex_data inc2 = take n (pre @ c)" "flex_data buf2 = drop n (pre @ c)"
        by blast
      have tl: "frames_to env s' (fst (deframe (drop n (pre @ c)))) (snd (deframe (drop n (pre @ c))))
          (notify_data_loop fuel env (set_incomplete s' (flex_buffer_reset inc2 FLEX_PADDING_LEN)) buf2)" for s'
        using Suc.IH [of "set_incomplete s' (flex_buffer_reset inc2 FLEX_PADDING_LEN)" buf2] reset_inc [OF 2(2)]
          2(3,5) Suc.prems(3,6) False \<open>length pre < n\<close> frames_fit_step(2) [OF Suc.prems(5)] 3
        by (simp add: frames_to_blind deframe_partial defs flip: n_def)
      have hp: "multiplex_handler_notify_packet env (set_incomplete s inc2) inc2 =
          bindr (multiplex_handler_notify_packet env s (packet_buffer (take n (pre @ c)))) (\<lambda>s. Inr (set_incomplete s inc2))"
        using notify_packet_bytes [of inc2 "packet_buffer (take n (pre @ c))"] 2(2,4) n(1)
          packet_buffer_ok [of "take n (pre @ c)"] False by (simp add: inc_ok_def notify_packet_blind)
      have "notify_data_loop (Suc fuel) env s buf =
          bindr (multiplex_handler_notify_packet env s (packet_buffer (take n (pre @ c))))
            (\<lambda>s. notify_data_loop fuel env (set_incomplete s (flex_buffer_reset inc2 FLEX_PADDING_LEN)) buf2)"
        using loop False 2(1) by (simp add: flex_buffer_size_def PROTOCOL_HEAD_LEN_def word_less_nat_alt hp bindr_assoc)
      with frames_to_Cons [where ps = "fst (deframe (drop n (pre @ c)))", OF tl] 3 False show ?thesis
        by (simp add: deframe_step defs flip: n_def)
    qed
  qed
qed

lemma chunks_frames:
  assumes "inc_ok (mx_incomplete s)" "deframe (flex_data (mx_incomplete s)) = ([], flex_data (mx_incomplete s))"
    and "\<forall>b \<in> set bufs. flex_ok b \<and> flex_data b \<noteq> [] \<and> length (flex_data b) < 2 ^ 32"
    and "frames_fit (flex_data (mx_incomplete s) @ concat (map flex_data bufs))"
  shows "frames_to env s (fst (deframe (flex_data (mx_incomplete s) @ concat (map flex_data bufs))))
    (snd (deframe (flex_data (mx_incomplete s) @ concat (map flex_data bufs)))) (feed_chunks env s bufs)"
  using assms
proof (induction bufs arbitrary: s)
  case Nil
  then show ?case using frames_to_Nil [of "mx_incomplete s" env s] by simp
next
  case (Cons b bufs)
  define pre where "pre = flex_data (mx_incomplete s) @ flex_data b"
  let ?rest = "concat (map flex_data bufs)"
  have fit: "frames_fit pre" "frames_fit (snd (deframe pre) @ ?rest)"
    using Cons.prems(4) frames_fit_append [of pre ?rest] by (simp_all add: pre_def)
  have b: "flex_ok b" "length (flex_data b) < 2 ^ 32" "fb_size b \<noteq> 0"
    using Cons.prems(3) by (auto simp: flex_data_def)
  have "frames_to env s (fst (deframe pre)) (snd (deframe pre)) (multiplex_handler_notify_data env s b)"
    using loop_frames [OF Cons.prems(1) b(1,2) Cons.prems(2) fit(1) [unfolded pre_def]] b(3)
    by (simp add: multiplex_handler_notify_data_def flex_buffer_size_def pre_def del: notify_data_loop.simps)
  moreover have "frames_to env s' (fst (deframe (snd (deframe pre) @ ?rest))) (snd (deframe (snd (deframe pre) @ ?rest)))
      (feed_chunks env (set_incomplete s' inc) bufs)" if "inc_ok inc" "flex_data inc = snd (deframe pre)" for s' inc
    using Cons.IH [of "set_incomplete s' inc"] that Cons.prems(3) fit(2) deframe_rest_partial [of pre]
    by (simp add: deframe_partial frames_to_blind)
  ultimately have "frames_to env s (fst (deframe pre) @ fst (deframe (snd (deframe pre) @ ?rest)))
      (snd (deframe (snd (deframe pre) @ ?rest))) (bindr (multiplex_handler_notify_data env s b) (\<lambda>s. feed_chunks env s bufs))"
    by (rule frames_to_append)
  then show ?case using deframe_append [of pre ?rest] by (simp add: pre_def)
qed

text \<open>The calls of the interface.\<close>

lemma open_channel_blind [blind_simps]:
  "multiplex_handler_open_channel env (set_incomplete s x) ty c tm k =
     bindr (multiplex_handler_open_channel env s ty c tm k) (\<lambda>(r, s). Inr (r, set_incomplete s x))"
  unfolding multiplex_handler_open_channel_def
  by (auto simp: chan_alloc_blind blind_simps bindr_assoc bindr_if Let_def split_def split: option.split intro!: bindr_cong)

lemma with_open_channel_blind:
  "(\<And>s a ch. body (set_incomplete s x) a ch = bindr (body s a ch) (\<lambda>(r, s). Inr (r, set_incomplete s x))) \<Longrightarrow>
    with_open_channel env (set_incomplete s x) k body =
      bindr (with_open_channel env s k body) (\<lambda>(r, s). Inr (r, set_incomplete s x))"
  unfolding with_open_channel_def
  by (auto simp: blind_simps bindr_assoc bindr_if split_def split: option.split intro!: bindr_cong)

lemma close_channel_blind [blind_simps]:
  "multiplex_handler_close_channel env (set_incomplete s x) k =
     bindr (multiplex_handler_close_channel env s k) (\<lambda>(r, s). Inr (r, set_incomplete s x))"
  unfolding multiplex_handler_close_channel_def
  by (auto simp: blind_simps bindr_assoc bindr_if split_def split: option.split intro!: bindr_cong)

lemma send_body_blind [blind_simps]:
  fixes s :: "('h, 'i) mux"
  shows "with_open_channel env (set_incomplete s x) k (\<lambda>s a ch.
      bindr (multiplex_handler_send_packet env s ty 0 (ch_id ch) (ch_remote_id ch) b) (\<lambda>(rc, s).
      bindr (if P rc then update_local_timestamp env s a else Inr s) (\<lambda>s. Inr (rc, s)))) =
    bindr (with_open_channel env s k (\<lambda>s a ch.
      bindr (multiplex_handler_send_packet env s ty 0 (ch_id ch) (ch_remote_id ch) b) (\<lambda>(rc, s).
      bindr (if P rc then update_local_timestamp env s a else Inr s) (\<lambda>s. Inr (rc, s)))))
      (\<lambda>(r, s). Inr (r, set_incomplete s x))"
  by (rule with_open_channel_blind) (auto simp: blind_simps bindr_assoc bindr_if split_def intro!: bindr_cong)

lemma channel_calls_blind [blind_simps]:
  "multiplex_handler_write_channel env (set_incomplete s x) k b =
     bindr (multiplex_handler_write_channel env s k b) (\<lambda>(r, s). Inr (r, set_incomplete s x))"
  "multiplex_handler_pend_channel env (set_incomplete s x) k =
     bindr (multiplex_handler_pend_channel env s k) (\<lambda>(r, s). Inr (r, set_incomplete s x))"
  "multiplex_handler_resume_channel env (set_incomplete s x) k =
     bindr (multiplex_handler_resume_channel env s k) (\<lambda>(r, s). Inr (r, set_incomplete s x))"
  unfolding multiplex_handler_write_channel_def multiplex_handler_pend_channel_def multiplex_handler_resume_channel_def
  by (auto simp only: blind_simps g_assert_def bindr_Inr bindr_Inl split: if_split)

end

section \<open>Any bytes are handled safely\<close>

text \<open>Without the assumption that packets fit: the buffer takes what it has room for.\<close>

lemma append2_any:
  assumes "inc_ok inc" "flex_ok buf" "unat n \<le> length (flex_data buf)"
  shows "\<exists>inc'. flex_buffer_append2 inc buf n = Inr inc' \<and> inc_ok inc' \<and>
    flex_data inc' = flex_data inc @ take (min (unat n) (packet_room - length (flex_data inc))) (flex_data buf)"
  using flex_append2_spec [of inc buf n] assms inc_ok_available [OF assms(1)] by (auto simp: total_def inc_ok_def)

lemma append_any:
  assumes "inc_ok inc" "flex_ok buf"
  shows "\<exists>inc'. flex_buffer_append inc buf = Inr inc' \<and> inc_ok inc'"
  using append2_any [OF assms, of "fb_size buf"] by (auto simp: append_append2)

lemma fill_to_any:
  assumes "inc_ok (mx_incomplete s)" "flex_ok buf" "length (flex_data buf) < 2 ^ 32"
    "\<not> fb_size (mx_incomplete s) + fb_size buf < t"
  shows "\<exists>buf' inc'. fill_to s buf t = Inr (buf', set_incomplete s inc') \<and> inc_ok inc' \<and> flex_ok buf' \<and>
    length (flex_data buf') < 2 ^ 32 \<and> length (flex_data (mx_incomplete s)) \<le> length (flex_data inc') \<and>
    (unat t \<le> packet_room \<longrightarrow> unat t \<le> length (flex_data inc'))"
proof -
  have le: "unat t \<le> length (flex_data (mx_incomplete s)) + length (flex_data buf)"
    using assms(4) unat_size_add [OF assms(1,3)] by (simp add: word_less_nat_alt)
  show ?thesis
  proof (cases "fb_size (mx_incomplete s) < t")
    case True
    then have n: "unat (t - fb_size (mx_incomplete s)) = unat t - length (flex_data (mx_incomplete s))"
      by (simp add: unat_sub)
    with le have n': "unat (t - fb_size (mx_incomplete s)) \<le> length (flex_data buf)" by simp
    obtain inc' where inc: "flex_buffer_append2 (mx_incomplete s) buf (t - fb_size (mx_incomplete s)) = Inr inc'" "inc_ok inc'"
      "flex_data inc' = flex_data (mx_incomplete s) @
        take (min (unat t - length (flex_data (mx_incomplete s))) (packet_room - length (flex_data (mx_incomplete s)))) (flex_data buf)"
      using append2_any [OF assms(1,2) n'] n by auto
    obtain k buf' where "flex_buffer_forward_offset buf (t - fb_size (mx_incomplete s)) = Inr (k, buf')" "flex_ok buf'"
      "flex_data buf' = drop (unat (t - fb_size (mx_incomplete s))) (flex_data buf)"
      using flex_forward_spec [OF assms(2), of "t - fb_size (mx_incomplete s)"] n' by (auto simp: total_def word_le_nat_alt)
    moreover have "length (flex_data inc') = length (flex_data (mx_incomplete s)) +
        min (min (unat t - length (flex_data (mx_incomplete s))) (packet_room - length (flex_data (mx_incomplete s))))
          (length (flex_data buf))"
      by (simp only: inc(3) length_append length_take ac_simps)
    ultimately show ?thesis
      using inc(1,2) assms(3) le True
      by (intro exI [of _ buf'] exI [of _ inc']) (auto simp: fill_to_def take_over_def flex_buffer_size_def)
  next
    case False
    then show ?thesis
      using assms(1-3) by (auto simp: fill_to_def flex_buffer_size_def word_less_nat_alt intro!: exI [of _ "mx_incomplete s"])
  qed
qed

lemma set_incomplete_inv: "mux_inv env H B s \<Longrightarrow> inc_ok x \<Longrightarrow> mux_inv env H B (set_incomplete s x)"
proof -
  have "table_live env (set_incomplete s x) = table_live env s" "refs_ok env H (set_incomplete s x) = refs_ok env H s"
    "heap_fresh (set_incomplete s x) = heap_fresh s" "ids_unique (set_incomplete s x) = ids_unique s"
    "ids_live env (set_incomplete s x) = ids_live env s"
    by (simp_all only: inv_defs set_incomplete_simps)
  moreover assume "mux_inv env H B s" "inc_ok x"
  ultimately show ?thesis by (simp add: mux_inv_def incomplete_ok_def inc_ok_def)
qed

lemma inc_ok_inv: "mux_inv env H B s \<Longrightarrow> mx_reliable env \<Longrightarrow> inc_ok (mx_incomplete s)"
  using mux_invD(10) [of env H B s] by (simp add: incomplete_ok_def inc_ok_def)

context mux_callbacks
begin

lemma notify_data_loop_inv:
  assumes D "mx_reliable env" "\<not> mx_log_args env"
    and "mux_inv env H B s" "flex_ok buf" "length (flex_data buf) < 2 ^ 32" and R: "\<And>s'. mux_inv env H B s' \<Longrightarrow> R s'"
  shows "safely D R (notify_data_loop fuel env s buf)"
  using assms(4-6)
proof (induction fuel arbitrary: s buf)
  case 0
  then show ?case using \<open>D\<close> by simp
next
  case (Suc fuel)
  have app: "safely D R (bindr (flex_buffer_append (mx_incomplete s) b) (\<lambda>inc. Inr (set_incomplete s inc)))"
    if "mux_inv env H B s" "flex_ok b" for s b
    using append_any [OF inc_ok_inv [OF that(1) assms(2)] that(2)] that(1) by (auto intro!: R set_incomplete_inv)
  have pk: "safely D R (bindr (multiplex_handler_notify_packet env s (mx_incomplete s)) (\<lambda>s.
      notify_data_loop fuel env (set_incomplete s (flex_buffer_reset (mx_incomplete s) FLEX_PADDING_LEN)) b))"
    if "mux_inv env H B s" "8 \<le> length (flex_data (mx_incomplete s))" "flex_ok b" "length (flex_data b) < 2 ^ 32" for s b
  proof -
    have "safely D (\<lambda>s'. safely D R (notify_data_loop fuel env
        (set_incomplete s' (flex_buffer_reset (mx_incomplete s') FLEX_PADDING_LEN)) b))
      (multiplex_handler_notify_packet env s (mx_incomplete s))"
    proof (rule notify_packet_inv [OF that(1)])
      fix s'
      assume s': "mux_inv env H B s'"
      show "safely D R (notify_data_loop fuel env
          (set_incomplete s' (flex_buffer_reset (mx_incomplete s') FLEX_PADDING_LEN)) b)"
        using reset_inc [OF inc_ok_inv [OF s' assms(2)]] by (intro Suc.IH set_incomplete_inv s' that(3,4)) simp
    qed (use inc_ok_inv [OF that(1) assms(2)] that(2) assms(3) in \<open>simp_all add: inc_ok_def\<close>)
    then show ?thesis by simp
  qed
  show ?case
  proof (cases "fb_size buf = 0 \<or> fb_size (mx_incomplete s) + fb_size buf < PROTOCOL_HEAD_LEN")
    case True
    then show ?thesis using app [OF Suc.prems(1,2)] R [OF Suc.prems(1)] by (auto simp: flex_buffer_size_def)
  next
    case False
    from fill_to_any [OF inc_ok_inv [OF Suc.prems(1) assms(2)] Suc.prems(2,3), of PROTOCOL_HEAD_LEN] False packet_room_8
    obtain buf1 inc1 where 1: "fill_to s buf PROTOCOL_HEAD_LEN = Inr (buf1, set_incomplete s inc1)" "inc_ok inc1"
      "flex_ok buf1" "length (flex_data buf1) < 2 ^ 32" "8 \<le> length (flex_data inc1)"
      by (auto simp: PROTOCOL_HEAD_LEN_def)
    define t where "t = ucast (pb_payload_len (header_of (flex_data inc1))) + PROTOCOL_HEAD_LEN"
    note i1 = set_incomplete_inv [OF Suc.prems(1) 1(2)]
    have hd: "parse_header inc1 = Inr (header_of (flex_data inc1))"
      using parse_header_eq [of inc1] 1(2,5) by (simp add: inc_ok_def)
    have "safely D R (bindr (fill_to (set_incomplete s inc1) buf1 t) (\<lambda>(buf, s).
        bindr (multiplex_handler_notify_packet env s (mx_incomplete s)) (\<lambda>s.
        notify_data_loop fuel env (set_incomplete s (flex_buffer_reset (mx_incomplete s) FLEX_PADDING_LEN)) buf)))"
      if "\<not> fb_size inc1 + fb_size buf1 < t"
    proof -
      from fill_to_any [of "set_incomplete s inc1" buf1 t] 1(2-5) that obtain buf2 inc2 where
        2: "fill_to (set_incomplete s inc1) buf1 t = Inr (buf2, set_incomplete s inc2)" "inc_ok inc2"
          "flex_ok buf2" "length (flex_data buf2) < 2 ^ 32" "8 \<le> length (flex_data inc2)"
        by auto
      with pk [OF set_incomplete_inv [OF Suc.prems(1) 2(2)], of buf2] show ?thesis by simp
    qed
    then show ?thesis
      using False app [OF i1 1(3)] by (simp add: loop_eq 1(1) hd flex_buffer_size_def del: notify_data_loop.simps flip: t_def)
  qed
qed

lemma notify_data_inv:
  assumes D "mx_reliable env" "\<not> mx_log_args env"
    and "mux_inv env H B s" "flex_ok buf" "length (flex_data buf) < 2 ^ 32" "flex_data buf \<noteq> []"
    and "\<And>s'. mux_inv env H B s' \<Longrightarrow> R s'"
  shows "safely D R (multiplex_handler_notify_data env s buf)"
proof -
  have "fb_size buf \<noteq> 0" using assms(7) by (auto simp: flex_data_def)
  then show ?thesis
    using notify_data_loop_inv [OF assms(1-6,8)]
    by (simp add: multiplex_handler_notify_data_def flex_buffer_size_def del: notify_data_loop.simps)
qed

end

end
