(* ===== verification/Mux_Run.thy ===== *)
theory Mux_Run
  imports Mux_Frame
begin

text \<open>
  Runs of a multiplexer whose user calls back into it: from every callback the user may open, close,
  write, pend and resume channels, and these calls may lead to further callbacks, to any depth. The
  contract \<open>mux_callbacks\<close> holds for such users by induction on the depth, so every operation keeps
  the invariant in every run.
\<close>

section \<open>Users that call back\<close>

text \<open>The calls of \<open>src/session/session.c\<close> to the multiplexer, with arguments that its guards let pass.\<close>

datatype mux_call =
    CallOpen "byte list option" | CallClose int | CallWrite int "byte list" | CallPend int | CallResume int

definition run_call :: "('h, 'i) mux_env \<Rightarrow> ('h, 'i) mux \<Rightarrow> mux_call \<Rightarrow> ('h, 'i) mux res" where
  "run_call env s c = (case c of
     CallOpen cookie \<Rightarrow>
       if case cookie of None \<Rightarrow> False | Some str \<Rightarrow> length str \<ge> 2 ^ 32 then Inr s
       else bindr (multiplex_handler_open_channel env s ChannelType_User cookie 0 0) (\<lambda>(_, s). Inr s)
   | CallClose cid \<Rightarrow>
       if cid \<le> 0 then Inr s else bindr (multiplex_handler_close_channel env s cid) (\<lambda>(_, s). Inr s)
   | CallWrite cid data \<Rightarrow>
       if cid < 0 \<or> length data > unat ELA_MAX_USER_DATA_LEN then Inr s
       else bindr (flex_buffer_from (mx_junk env) FLEX_PADDING_LEN data (of_nat (length data))) (\<lambda>buf.
            bindr (multiplex_handler_write_channel env s cid buf) (\<lambda>(_, s). Inr s))
   | CallPend cid \<Rightarrow>
       if cid \<le> 0 then Inr s else bindr (multiplex_handler_pend_channel env s cid) (\<lambda>(_, s). Inr s)
   | CallResume cid \<Rightarrow>
       if cid \<le> 0 then Inr s else bindr (multiplex_handler_resume_channel env s cid) (\<lambda>(_, s). Inr s))"

fun run_calls :: "('h, 'i) mux_env \<Rightarrow> ('h, 'i) mux \<Rightarrow> mux_call list \<Rightarrow> ('h, 'i) mux res" where
  "run_calls env s [] = Inr s"
| "run_calls env s (c # cs) = bindr (run_call env s c) (\<lambda>s. run_calls env s cs)"

text \<open>
  A user: what to call when something happens, and what to answer. \<open>calling_user env u\<close> makes its calls to a
  multiplexer with the environment \<open>env\<close>; \<open>nested_env n\<close> is the environment in which callbacks nest
  \<open>n\<close> deep.
\<close>

type_synonym ('h, 'i) mux_user = "mux_event \<Rightarrow> ('h, 'i) mux \<Rightarrow> bool \<times> mux_call list"

definition calling_user :: "('h, 'i) mux_env \<Rightarrow> ('h, 'i) mux_user \<Rightarrow> ('h, 'i) ElaStreamCallbacks" where
  "calling_user env u =
     (let ask = (\<lambda>e s. bindr (run_calls env s (snd (u e s))) (\<lambda>s'. Inr (fst (u e s), s')));
          tell = (\<lambda>e s. run_calls env s (snd (u e s))) in
      \<lparr> user_open = Some (\<lambda>s i c. ask (MxOpen i c) s), user_opened = Some (\<lambda>s i. tell (MxOpened i) s),
        user_close = Some (\<lambda>s i r. tell (MxClose i r) s), user_data = Some (\<lambda>s i bs. ask (MxData i bs) s),
        user_pending = Some (\<lambda>s i. tell (MxPending i) s), user_resume = Some (\<lambda>s i. tell (MxResume i) s) \<rparr>)"

fun nested_env :: "nat \<Rightarrow> ('h, 'i) mux_env \<Rightarrow> ('h, 'i) mux_user \<Rightarrow> ('h, 'i) mux_env" where
  "nested_env 0 env u = env"
| "nested_env (Suc n) env u = env\<lparr> mx_user := calling_user (nested_env n env u) u \<rparr>"

text \<open>Neighbours that leave the multiplexer alone: any lower handler, no port forwarding, no callbacks.\<close>

definition no_callbacks :: "('h, 'i) ChannelCallbacks" where
  "no_callbacks = \<lparr> channel_open = None, channel_opened = None, channel_close = None, channel_data = None,
     channel_pending = None, channel_resume = None \<rparr>"

definition no_user :: "('h, 'i) ElaStreamCallbacks" where
  "no_user = \<lparr> user_open = None, user_opened = None, user_close = None, user_data = None,
     user_pending = None, user_resume = None \<rparr>"

definition quiet :: "('h, 'i) mux_env \<Rightarrow> bool" where
  "quiet env \<longleftrightarrow> (\<exists>w. next_write_mx env = (\<lambda>s bs. Inr (w s bs, s))) \<and> prev_on_data env = (\<lambda>s b. Inr s) \<and>
     prev_on_state env = (\<lambda>s st. Inr s) \<and> next_stop env = (\<lambda>s e. Inr s) \<and> worker_stop env = Inr \<and> mx_pf env = (\<lambda>ty. no_callbacks) \<and>
     mx_user env = no_user"

lemma mux_inv_env [simp]: "mux_inv (env\<lparr> mx_user := u \<rparr>) = mux_inv env"
  by (simp add: mux_inv_def inv_defs fun_eq_iff)

lemma keeps_env [simp]:
  "keeps (env\<lparr> mx_user := u \<rparr>) = keeps env" "keeps_ret (env\<lparr> mx_user := u \<rparr>) = keeps_ret env"
  "keeps_at (env\<lparr> mx_user := u \<rparr>) = keeps_at env" "keeps_ret_at (env\<lparr> mx_user := u \<rparr>) = keeps_ret_at env"
  "callbacks_ok (env\<lparr> mx_user := u \<rparr>) = callbacks_ok env"
  "user_callbacks_ok (env\<lparr> mx_user := u \<rparr>) = user_callbacks_ok env"
  by (simp_all add: keeps_defs callbacks_ok_def user_callbacks_ok_def fun_eq_iff)

lemma quiet_callbacks:
  assumes "hashtable_ok (mx_table env)" "ids_heap_ok (mx_idops env) MAX_CHANNEL_ID" "quiet env"
  shows "mux_callbacks env D"
proof -
  obtain w where "next_write_mx env = (\<lambda>s bs. Inr (w s bs, s))" using assms(3) by (auto simp: quiet_def)
  then show ?thesis
    using assms by unfold_locales
      (auto simp: quiet_def user_callbacks_ok_def callbacks_ok_def no_callbacks_def no_user_def keeps_defs)
qed

context mux_callbacks
begin

lemma run_call_inv: "keeps env D (\<lambda>s. run_call env s c)"
  unfolding keeps_def
proof (intro allI impI)
  fix H B s
  assume i: "mux_inv env H B s"
  have "safely D (\<lambda>buf. buf_ready (Some buf)) (flex_buffer_from (mx_junk env) FLEX_PADDING_LEN data (of_nat (length data)))"
    if "length data \<le> unat ELA_MAX_USER_DATA_LEN" for data
  proof -
    have "unat (of_nat (length data) :: u64) = length data"
      using that by (intro unat_of_nat_small) (simp add: ELA_MAX_USER_DATA_LEN_def)
    then have "total (\<lambda>b. flex_ok b \<and> flex_data b = data \<and> fb_offset b = FLEX_PADDING_LEN \<and>
        fb_size b = of_nat (length data)) (flex_buffer_from (mx_junk env) FLEX_PADDING_LEN data (of_nat (length data)))"
      using that by (intro flex_from_spec) (simp_all add: FLEX_PADDING_LEN_def ELA_MAX_USER_DATA_LEN_def)
    then show ?thesis
      by (rule total_safely) (simp add: buf_ready_def FLEX_PADDING_LEN_def PROTOCOL_HEAD_LEN_def)
  qed
  note buf = this
  show "safely D (mux_inv env H B) (run_call env s c)"
  proof (cases c)
    case (CallWrite cid data)
    then show ?thesis
      using i by (auto simp: run_call_def intro!: safely_mono [OF buf] channel_calls_inv [OF i])
  qed (use i in \<open>auto simp: run_call_def split: option.splits intro!: open_channel_inv [OF i] channel_calls_inv [OF i]\<close>)
qed

lemma run_calls_inv: "keeps env D (\<lambda>s. run_calls env s cs)"
proof (induction cs)
  case Nil
  then show ?case by (simp add: keeps_def)
next
  case (Cons c cs)
  have "safely D (mux_inv env H B) (run_calls env s (c # cs))" if "mux_inv env H B s" for H B s
    using keepsD(1) [OF run_call_inv that, of "\<lambda>s. safely D (mux_inv env H B) (run_calls env s cs)" c] Cons
    by (simp add: keeps_def)
  then show ?case by (simp add: keeps_def)
qed

lemma calling_user_ok: "user_callbacks_ok env D (calling_user env u)"
  using run_calls_inv
  by (auto simp: user_callbacks_ok_def calling_user_def Let_def keeps_defs)

end

lemma nested_env_inv [simp]:
  "mux_inv (nested_env n env u) = mux_inv env" "user_callbacks_ok (nested_env n env u) = user_callbacks_ok env"
  by (cases n; simp)+

lemma nested_callbacks:
  assumes "hashtable_ok (mx_table env)" "ids_heap_ok (mx_idops env) MAX_CHANNEL_ID" "quiet env"
  shows "mux_callbacks (nested_env n env u) D"
proof (induction n)
  case 0
  then show ?case using quiet_callbacks [OF assms] by simp
next
  case (Suc n)
  note q = quiet_callbacks [OF assms, of D]
  have "user_callbacks_ok env D (calling_user (nested_env n env u) u)"
    using mux_callbacks.calling_user_ok [OF Suc, of u] by simp
  then show ?case
    using assms(1,2) mux_callbacks.pf_ok [OF q] mux_callbacks.write_ok [OF q] mux_callbacks.on_data_ok [OF q]
      mux_callbacks.on_state_ok [OF q] mux_callbacks.stop_ok [OF q] mux_callbacks.worker_stop_ok [OF q]
    by (unfold_locales) simp_all
qed

section \<open>Users that do not look at the incomplete packet\<close>

definition blind_env :: "('h, 'i) mux_env \<Rightarrow> bool" where
  "blind_env env \<longleftrightarrow> (\<forall>s x. mx_zalloc env (set_incomplete s x) = mx_zalloc env s \<and>
     mx_now env (set_incomplete s x) = mx_now env s) \<and> (\<forall>bs. blind_ret (\<lambda>s. next_write_mx env s bs))"

definition blind_mux_user :: "('h, 'i) mux_user \<Rightarrow> bool" where
  "blind_mux_user u \<longleftrightarrow> (\<forall>e s x. u e (set_incomplete s x) = u e s)"

context mux_blind
begin

lemma run_call_blind: "run_call env (set_incomplete s x) c = bindr (run_call env s c) (\<lambda>s. Inr (set_incomplete s x))"
  by (cases c) (auto simp: run_call_def blind_simps bindr_assoc split_def split: option.splits intro!: bindr_cong)

lemma run_calls_blind: "run_calls env (set_incomplete s x) cs = bindr (run_calls env s cs) (\<lambda>s. Inr (set_incomplete s x))"
  by (induction cs arbitrary: s) (auto simp: run_call_blind bindr_assoc intro!: bindr_cong)

lemma calling_user_blind: "blind_mux_user u \<Longrightarrow> blind_user (calling_user env u)"
  by (auto simp: blind_mux_user_def blind_user_def blind_def blind_ret_def calling_user_def Let_def run_calls_blind
      bindr_assoc)

end

lemma quiet_blind: "quiet env \<Longrightarrow> blind_env env \<Longrightarrow> mux_blind env"
  by unfold_locales
    (auto simp: quiet_def blind_env_def blind_user_def blind_callbacks_def no_callbacks_def no_user_def blind_def)

lemma nested_blind:
  assumes "quiet env" "blind_env env" "blind_mux_user u"
  shows "mux_blind (nested_env n env u)"
proof (induction n)
  case 0
  then show ?case using quiet_blind [OF assms(1,2)] by simp
next
  case (Suc n)
  note q = quiet_blind [OF assms(1,2)]
  show ?case
    using mux_blind.calling_user_blind [OF Suc assms(3)] mux_blind.zalloc_blind [OF q] mux_blind.now_blind [OF q]
      mux_blind.pf_blind [OF q] mux_blind.write_blind [OF q] mux_blind.on_data_blind [OF q] assms(1)
    by unfold_locales (simp_all add: quiet_def)
qed

section \<open>Runs\<close>

text \<open>What can happen to a multiplexer; \<open>input_ok\<close>: data is not empty, and a datagram has at least a header.\<close>

datatype mux_input =
    InCall mux_call | InData "byte list" | InTimer | InState ElaStreamState | InStop int

definition input_ok :: "('h, 'i) mux_env \<Rightarrow> mux_input \<Rightarrow> bool" where
  "input_ok env i = (case i of InData bs \<Rightarrow> bs \<noteq> [] \<and> length bs \<le> packet_room \<and> (mx_reliable env \<or> 8 \<le> length bs)
     | _ \<Rightarrow> True)"

definition mux_exec :: "('h, 'i) mux_env \<Rightarrow> ('h, 'i) mux \<Rightarrow> mux_input \<Rightarrow> ('h, 'i) mux res" where
  "mux_exec env s i = (case i of
     InCall c \<Rightarrow> run_call env s c
   | InData bs \<Rightarrow> multiplex_handler_on_data env s (packet_buffer bs)
   | InTimer \<Rightarrow> multiplex_handler_checkpoint env s
   | InState st \<Rightarrow> multiplex_handler_on_state_changed env s st
   | InStop e \<Rightarrow> multiplex_handler_stop env s e)"

inductive mux_run :: "('h, 'i) mux_env \<Rightarrow> ('h, 'i) mux \<Rightarrow> bool" for env :: "('h, 'i) mux_env" where
  created: "multiplex_handler_create env True (Some (hashtable_empty (mx_table env))) (0, i) rc = Inr (r, s) \<Longrightarrow>
     ids_in_use (mx_idops env) i = {} \<Longrightarrow> mux_run env s"
| stepped: "mux_run env s \<Longrightarrow> input_ok env i \<Longrightarrow> mux_exec env s i = Inr s' \<Longrightarrow> mux_run env s'"

text \<open>The inputs that start a loop over the channels or over the bytes of a stream.\<close>

definition starts_loop :: "('h, 'i) mux_env \<Rightarrow> mux_input \<Rightarrow> bool" where
  "starts_loop env i = (case i of InCall c \<Rightarrow> False | InData bs \<Rightarrow> mx_reliable env | InTimer \<Rightarrow> True
     | InState st \<Rightarrow> st = ElaStreamState_closed \<or> st = ElaStreamState_failed | InStop e \<Rightarrow> True)"

context mux_callbacks
begin

lemma state_changed_inv:
  assumes "st = ElaStreamState_closed \<or> st = ElaStreamState_failed \<Longrightarrow> D" "mux_inv env H B s"
  shows "safely D (mux_inv env H B) (multiplex_handler_on_state_changed env s st)"
proof (cases "st = ElaStreamState_closed \<or> st = ElaStreamState_failed")
  case False
  then show ?thesis
    using keepsD(1) [OF on_state_ok, of H B "mx_log s (MxUpState st)"] assms(2)
    by (simp add: multiplex_handler_on_state_changed_def)
qed (use assms handler_calls_inv in blast)

lemma mux_exec_inv:
  assumes "starts_loop env i \<Longrightarrow> D" "\<not> mx_log_args env" "mux_inv env H B s" "input_ok env i"
  shows "safely D (mux_inv env H B) (mux_exec env s i)"
proof (cases i)
  case (InCall c)
  then show ?thesis using run_call_inv [of c] assms(3) by (simp add: mux_exec_def keeps_def)
next
  case (InData bs)
  then have b: "inc_ok (packet_buffer bs)" "flex_data (packet_buffer bs) = bs" "bs \<noteq> []" "length bs \<le> packet_room"
    using assms(4) packet_buffer_ok [of bs] by (simp_all add: input_ok_def)
  then have l: "unat (fb_size (packet_buffer bs)) = length bs" using length_flex_data [of "packet_buffer bs"] by simp
  have "packet_room < 2 ^ 32"
    by (simp add: packet_room_def FLEX_BUFFER_MAX_LEN_def FLEX_PADDING_LEN_def ELA_MAX_USER_DATA_LEN_def)
  then show ?thesis
    using InData b l assms notify_data_inv [OF _ _ assms(2,3), of "packet_buffer bs" "mux_inv env H B"]
      notify_packet_inv [OF assms(3), of "packet_buffer bs" "mux_inv env H B"]
    by (auto simp: mux_exec_def multiplex_handler_on_data_def input_ok_def inc_ok_def starts_loop_def)
qed (use assms loops_inv(2) handler_calls_inv state_changed_inv in \<open>simp_all add: mux_exec_def starts_loop_def\<close>)

lemma mux_run_inv:
  assumes D "\<not> mx_log_args env" "mux_run env s"
  shows "mux_inv env (\<lambda>_. 0) {} s"
  using assms(3)
proof induction
  case (created i rc r s)
  then show ?case using create_inv [OF table_ok] by blast
next
  case (stepped s i s')
  then show ?case using mux_exec_inv [OF assms(1,2) stepped.IH stepped.hyps(2)] by simp
qed

end

lemma nested_env_fields [simp]:
  "mx_table (nested_env n env u) = mx_table env" "mx_idops (nested_env n env u) = mx_idops env"
  "mx_log_args (nested_env n env u) = mx_log_args env" "mx_fuel (nested_env n env u) = mx_fuel env"
  "mx_reliable (nested_env n env u) = mx_reliable env"
  by (cases n; simp)+

section \<open>Stopping\<close>

lemma quiet_close: "quiet env \<Longrightarrow> notify_channel_close env s a reason =
    bindr (get_chan s a) (\<lambda>ch. Inr (mx_log s (MxClose (ch_id ch) reason)))"
  by (auto simp: notify_channel_close_def quiet_def no_callbacks_def no_user_def callbacks_of_def user_channel_callbacks_def
      user_channel_close_def get_chan_def Let_def fun_eq_iff intro!: bindr_cong)

lemma no_refs: "(\<lambda>_. 0 :: nat)(a := 0) = (\<lambda>_. 0)"
  by auto

lemma ran_delete: "m k = Some a \<Longrightarrow> (\<And>k'. m k' = Some a \<Longrightarrow> k' = k) \<Longrightarrow> ran (m(k := None)) = ran m - {a}"
proof (intro set_eqI iffI)
  fix x
  assume m: "m k = Some a" "\<And>k'. m k' = Some a \<Longrightarrow> k' = k"
  show "x \<in> ran m - {a}" if "x \<in> ran (m(k := None))"
    using that m(2) by (auto simp: ran_def split: if_splits)
  show "x \<in> ran (m(k := None))" if "x \<in> ran m - {a}"
  proof -
    obtain j where "m j = Some x" "x \<noteq> a" using \<open>x \<in> ran m - {a}\<close> by (auto simp: ran_def)
    moreover from this m(1) have "j \<noteq> k" by auto
    ultimately show ?thesis by (auto simp: ran_def)
  qed
qed

context mux_callbacks
begin

text \<open>Without callbacks, the loop visits every channel once.\<close>

lemma close_iter_empties:
  assumes "quiet env" "mux_inv env (\<lambda>_. 0) {} s"
    and "set it = ran (hashtable_get (mx_table env) (mx_channels s))" "distinct it" "length it < fuel"
  shows "safely False (\<lambda>s'. mux_inv env (\<lambda>_. 0) {} s' \<and> hashtable_get (mx_table env) (mx_channels s') = Map.empty)
    (close_iter fuel env s it (hashtable_version (mx_table env) (mx_channels s)) reason)"
  using assms(2-)
proof (induction fuel arbitrary: s it)
  case 0
  then show ?case by simp
next
  case (Suc fuel)
  note h = hashtable_okD [OF table_ok]
  show ?case
  proof (cases it)
    case Nil
    then show ?thesis using Suc.prems by (auto simp: ran_def fun_eq_iff not_Some_eq [symmetric] simp del: not_Some_eq)
  next
    case (Cons a it')
    obtain k where k: "hashtable_get (mx_table env) (mx_channels s) k = Some a"
      using Suc.prems(2) Cons by (auto simp: ran_def)
    obtain ch where ch: "mx_heap s a = Some ch" using mux_invD(1) [OF Suc.prems(1) k] by blast
    let ?h = "hashtable_remove (mx_table env) (mx_channels s) k"
    let ?P = "\<lambda>s'. mux_inv env (\<lambda>_. 0) {} s' \<and> hashtable_get (mx_table env) (mx_channels s') = Map.empty"
    have ran: "set it' = ran (hashtable_get (mx_table env) ?h)"
    proof -
      have "k' = k" if "hashtable_get (mx_table env) (mx_channels s) k' = Some a" for k'
        using table_inj [OF Suc.prems(1)] k that by (metis domI inj_onD)
      then have "ran (hashtable_get (mx_table env) ?h) = ran (hashtable_get (mx_table env) (mx_channels s)) - {a}"
        unfolding h(3) by (rule ran_delete [of "hashtable_get (mx_table env) (mx_channels s)", OF k])
      then show ?thesis using Suc.prems(2,3) Cons by auto
    qed
    have go: "safely False ?P (close_iter fuel env s' it' (hashtable_version (mx_table env) ?h) reason)"
      if "mux_inv env (\<lambda>_. 0) {} s'" "mx_channels s' = ?h" for s'
      using Suc.IH [OF that(1)] ran Suc.prems(3,4) Cons that(2) by simp
    have "safely False (\<lambda>s. safely False (\<lambda>s. safely False (\<lambda>s'. safely False
        (\<lambda>s'. safely False ?P (close_iter fuel env s' it' (hashtable_version (mx_table env) (mx_channels s)) reason))
        (chan_deref env s' a)) (notify_channel_close env s a reason)) (iterator_remove env s a)) (chan_ref s a)"
    proof (rule chan_ref_inv [OF Suc.prems(1) ch])
      fix s1
      assume s1: "mux_inv env ((\<lambda>_. 0)(a := 0 + 1)) {} s1" "mx_channels s1 = mx_channels s"
      have "safely False (\<lambda>s'. mux_inv env ((\<lambda>_. 0)(a := 0 + 1)) {} s' \<and> mx_channels s' = ?h) (iterator_remove env s1 a)"
        by (rule iterator_remove_inv [OF mux_inv_here [OF s1(1)] refl k [folded s1(2)]])
          (use s1(2) in \<open>auto elim: mux_inv_mono\<close>)
      then show "safely False (\<lambda>s. safely False (\<lambda>s'. safely False
        (\<lambda>s'. safely False ?P (close_iter fuel env s' it' (hashtable_version (mx_table env) (mx_channels s)) reason))
        (chan_deref env s' a)) (notify_channel_close env s a reason)) (iterator_remove env s1 a)"
        by (rule safely_mono)
          (auto simp: quiet_close [OF assms(1)] no_refs intro!: chan_deref_inv go elim!: get_chan_held)
    qed
    then show ?thesis using Cons by (simp add: Let_def)
  qed
qed

lemma close_channels_empties:
  assumes "quiet env" "mux_inv env (\<lambda>_. 0) {} s" "length (hashtable_items (mx_table env) (mx_channels s)) < mx_fuel env"
  shows "safely False (\<lambda>s'. mux_inv env (\<lambda>_. 0) {} s' \<and> hashtable_get (mx_table env) (mx_channels s') = Map.empty)
    (multiplex_handler_close_channels env s reason)"
  unfolding multiplex_handler_close_channels_def
  by (rule close_iter_empties [OF assms(1,2)]) (use items_ok [OF assms(2)] hashtable_items_ran [OF table_ok] assms(3) in auto)

end

text \<open>Between two calls nobody holds a reference but the table.\<close>

lemma idle_channels:
  assumes "mux_inv env (\<lambda>_. 0) {} s"
  shows "mx_heap s a = Some ch \<Longrightarrow> ch_refs ch = 1 \<and> hashtable_get (mx_table env) (mx_channels s) (ucast (ch_id ch)) = Some a"
    and "hashtable_get (mx_table env) (mx_channels s) k = Some a \<Longrightarrow> \<exists>ch. mx_heap s a = Some ch \<and> k = ucast (ch_id ch)"
    and "ids_in_use (mx_idops env) (mx_ids s) = {uint (ch_id ch) | ch. ch \<in> ran (mx_heap s)}"
proof -
  note d = mux_invD [OF assms]
  show 1: "ch_refs ch = 1 \<and> hashtable_get (mx_table env) (mx_channels s) (ucast (ch_id ch)) = Some a"
    if "mx_heap s a = Some ch" for a ch
    using d(2,3) [OF that] by (simp split: if_splits)
  show "\<exists>ch. mx_heap s a = Some ch \<and> k = ucast (ch_id ch)" if "hashtable_get (mx_table env) (mx_channels s) k = Some a"
    using d(1) [OF that] by blast
  have "ch_id ch \<noteq> 0" if "mx_heap s a = Some ch" for a ch
    using d(1) 1 [OF that] that by (metis option.inject)
  then have "live_ids (mx_heap s) = {ch_id ch | ch. ch \<in> ran (mx_heap s)}"
    by (auto simp: live_ids_def ran_def)
  then show "ids_in_use (mx_idops env) (mx_ids s) = {uint (ch_id ch) | ch. ch \<in> ran (mx_heap s)}"
    using d(8) by (auto simp: ids_live_def)
qed

lemma idle_empty:
  assumes "mux_inv env (\<lambda>_. 0) {} s" "hashtable_get (mx_table env) (mx_channels s) = Map.empty"
  shows "mx_heap s = Map.empty" "ids_in_use (mx_idops env) (mx_ids s) = {}"
proof -
  show "mx_heap s = Map.empty"
    using idle_channels(1) [OF assms(1)] assms(2) by (metis ext option.distinct(1) option.exhaust)
  then show "ids_in_use (mx_idops env) (mx_ids s) = {}" using idle_channels(3) [OF assms(1)] by auto
qed

section \<open>A model of the environment\<close>

text \<open>
  The containers are those of \<open>Crystal\<close>; memory, clock, build options, and the lower
  handler's answers stay parameters.
\<close>

definition model_env where
  "model_env alloc now junk reliable pf fuel w = \<lparr>
     mx_table = alist_table, mx_idops = list_ids MAX_CHANNEL_ID, mx_zalloc = alloc, mx_now = now, mx_junk = junk,
     mx_log_args = False, mx_reliable = reliable, mx_portforwarding = pf, mx_fuel = fuel, mx_user = no_user,
     mx_pf = (\<lambda>ty. no_callbacks), next_write_mx = (\<lambda>s bs. Inr (w s bs, s)), prev_on_data = (\<lambda>s b. Inr s),
     prev_on_state = (\<lambda>s st. Inr s), next_start = (\<lambda>s. 0), next_stop = (\<lambda>s e. Inr s), create_timer = (\<lambda>s. 0),
     worker_start = (\<lambda>s. 0), worker_stop = Inr \<rparr>"

lemma model_env_ok [simp]:
  "quiet (model_env alloc now junk reliable pf fuel w)"
  "mx_table (model_env alloc now junk reliable pf fuel w) = alist_table"
  "mx_idops (model_env alloc now junk reliable pf fuel w) = list_ids MAX_CHANNEL_ID"
  "\<not> mx_log_args (model_env alloc now junk reliable pf fuel w)"
  "mx_reliable (model_env alloc now junk reliable pf fuel w) = reliable"
  "mx_fuel (model_env alloc now junk reliable pf fuel w) = fuel"
  by (auto simp: quiet_def model_env_def)

interpretation model: mux_callbacks "nested_env n (model_env alloc now junk reliable pf fuel w) u" D
  for n alloc now junk reliable pf fuel w u D
  by (rule nested_callbacks) (simp_all add: alist_table_ok list_ids_ok)

interpretation model_stream: mux_blind "nested_env n (model_env (\<lambda>_. al) (\<lambda>_. t) junk reliable pf fuel (\<lambda>_. w)) (\<lambda>e s. u e)"
  for n al t junk reliable pf fuel w u
  by (rule nested_blind [OF model_env_ok(1)]) (simp_all add: blind_env_def blind_ret_def blind_mux_user_def model_env_def)

end
