(* ===== verification/Mux_Spec.thy ===== *)
theory Mux_Spec
  imports Mux_Run
begin

text \<open>
  What the multiplexer guarantees: no reference, channel or channel number is lost in any run; the byte stream
  is cut into the packets that were sent; opening a channel connects the two ends; what is written to a channel
  arrives at the peer's end of this channel. The last section has defects of the code.
\<close>

section \<open>Runs are safe\<close>

text \<open>
  C2. Safety of every run in which arguments of log lines are not evaluated, the containers keep their contracts, the
  neighbours of the multiplexer do not call it from inside a call, and each packet from below is not empty, fits
  a buffer and, when datagrams are received, has at least the 8 bytes of a header (shorter ones fail the assertion in
  line 368 of the source). From creation on, whatever else the peer sends, the user calls (from outside and from
  callbacks, nested to any depth) and the lower handler answers: no operation follows a dangling
  pointer, reads or writes out of bounds, fails an assertion or releases a reference it does not hold,
  and the invariant of the multiplexer holds afterwards. An input that starts a loop over channels or
  bytes may fail to return, when callbacks keep changing the table; every other input returns.
\<close>

theorem mux_run_safe:
  assumes "hashtable_ok (mx_table env)" "ids_heap_ok (mx_idops env) MAX_CHANNEL_ID" "quiet env" "\<not> mx_log_args env"
    and "mux_run (nested_env n env u) s" "input_ok env i"
  shows "if starts_loop env i then safely True (mux_inv env (\<lambda>_. 0) {}) (mux_exec (nested_env n env u) s i)
    else (\<exists>s'. mux_exec (nested_env n env u) s i = Inr s' \<and> mux_inv env (\<lambda>_. 0) {} s')"
proof -
  note c = nested_callbacks [OF assms(1-3), of n u]
  have inv: "mux_inv env (\<lambda>_. 0) {} s" using mux_callbacks.mux_run_inv [OF c _ _ assms(5)] assms(4) by simp
  have e: "input_ok (nested_env n env u) i" "starts_loop (nested_env n env u) i = starts_loop env i"
    using assms(6) by (simp_all add: input_ok_def starts_loop_def split: mux_input.splits)
  show ?thesis
    using mux_callbacks.mux_exec_inv [OF c, of i "starts_loop env i" "\<lambda>_. 0" "{}" s] e inv assms(4)
    by (auto simp: safely_total total_def)
qed

text \<open>An environment for examples: memory is available, the clock stands at 5 s, the lower handler accepts everything.\<close>

definition demo_env :: "bool \<Rightarrow> (nat \<times> (u32 \<times> addr) list, int list) mux_env" where
  "demo_env reliable = model_env (\<lambda>_. True) (\<lambda>_. \<lparr> tv_sec = 5, tv_usec = 0 \<rparr>) (\<lambda>_. 0) reliable False 10 (\<lambda>_ bs. int (length bs))"

definition demo_mux :: "(nat \<times> (u32 \<times> addr) list, int list) mux" where
  "demo_mux = \<lparr> mx_channels = (0, []), mx_ids = [], mx_heap = Map.empty, mx_next = 0, mx_worker = False, mx_timer = False,
     mx_incomplete = flex_buffer_init (\<lambda>_. 0) FLEX_BUFFER_MAX_LEN FLEX_PADDING_LEN, mx_trace = [] \<rparr>"

text \<open>A user that closes every channel as soon as it is open.\<close>

definition demo_user :: "('h, 'i) mux_user" where
  "demo_user e s = (case e of MxOpened i \<Rightarrow> (True, [CallClose (uint i)]) | _ \<Rightarrow> (True, []))"

lemma demo_env_ok [simp]:
  "quiet (demo_env r)" "mx_table (demo_env r) = alist_table" "mx_idops (demo_env r) = list_ids MAX_CHANNEL_ID"
  "\<not> mx_log_args (demo_env r)" "mx_reliable (demo_env r) = r" "mx_fuel (demo_env r) = 10"
  "mx_portforwarding (demo_env r) = False"
  by (simp_all add: demo_env_def) (simp add: model_env_def)

lemma nested_pf [simp]: "mx_portforwarding (nested_env n env u) = mx_portforwarding env"
  by (cases n) simp_all

lemma demo_run: "mux_run (nested_env n (demo_env True) u) demo_mux"
  by (rule mux_run.created [of _ "[]" 0 0])
    (simp_all add: multiplex_handler_create_def demo_mux_def alist_table_def list_ids_def)

lemma mux_run_safe_witness:
  "\<exists>s'. mux_exec (nested_env 3 (demo_env True) demo_user) demo_mux (InCall (CallOpen None)) = Inr s' \<and>
     mux_inv (demo_env True) (\<lambda>_. 0) {} s'"
  using mux_run_safe [of "demo_env True" 3 demo_user demo_mux "InCall (CallOpen None)"]
  by (simp add: alist_table_ok list_ids_ok demo_run starts_loop_def input_ok_def)

text \<open>
  C18. No leak. Between two inputs of a run, the channels that exist are exactly those in the table,
  under their own numbers, each with the one reference of the table; and the channel numbers in use are
  exactly the numbers of these channels.
\<close>

theorem mux_no_leak:
  assumes "hashtable_ok (mx_table env)" "ids_heap_ok (mx_idops env) MAX_CHANNEL_ID" "quiet env" "\<not> mx_log_args env"
    and "mux_run (nested_env n env u) s"
  shows "(\<forall>a ch. mx_heap s a = Some ch \<longrightarrow>
        ch_refs ch = 1 \<and> hashtable_get (mx_table env) (mx_channels s) (ucast (ch_id ch)) = Some a) \<and>
    (\<forall>k a. hashtable_get (mx_table env) (mx_channels s) k = Some a \<longrightarrow>
        (\<exists>ch. mx_heap s a = Some ch \<and> k = ucast (ch_id ch))) \<and>
    ids_in_use (mx_idops env) (mx_ids s) = {uint (ch_id ch) | ch. ch \<in> ran (mx_heap s)}"
proof -
  have "mux_inv env (\<lambda>_. 0) {} s"
    using mux_callbacks.mux_run_inv [OF nested_callbacks [OF assms(1-3)] _ _ assms(5)] assms(4) by simp
  from idle_channels [OF this] show ?thesis by blast
qed

lemma mux_no_leak_witness:
  "ids_in_use (list_ids MAX_CHANNEL_ID) (mx_ids demo_mux) = {uint (ch_id ch) | ch. ch \<in> ran (mx_heap demo_mux)}"
  using mux_no_leak [of "demo_env True" 3 demo_user demo_mux] by (simp add: alist_table_ok list_ids_ok demo_run)

text \<open>
  C23. Stopping a multiplexer whose user has installed no callbacks and that has no worker. In every state of a run, whatever
  channels are open, \<open>multiplex_handler_stop\<close> returns, every channel has been released and every channel
  number is free again. The containers keep their contracts, the neighbours do not call back, arguments of log lines are
  not evaluated, and the fuel of the model exceeds the number of channels.
\<close>

theorem mux_stop_frees:
  assumes "hashtable_ok (mx_table env)" "ids_heap_ok (mx_idops env) MAX_CHANNEL_ID" "quiet env" "\<not> mx_log_args env"
    and "mux_run env s" "length (hashtable_items (mx_table env) (mx_channels s)) < mx_fuel env"
  shows "\<exists>s'. multiplex_handler_stop env s err = Inr s' \<and> mx_heap s' = Map.empty \<and>
    hashtable_get (mx_table env) (mx_channels s') = Map.empty \<and> ids_in_use (mx_idops env) (mx_ids s') = {}"
proof -
  note q = quiet_callbacks [OF assms(1-3)]
  have "mux_inv env (\<lambda>_. 0) {} s" using mux_callbacks.mux_run_inv [OF q _ assms(4,5)] by blast
  from mux_callbacks.close_channels_empties [OF q assms(3) this assms(6)] obtain s' where
    "multiplex_handler_close_channels env s CloseReason_Normal = Inr s'" "mux_inv env (\<lambda>_. 0) {} s'"
    "hashtable_get (mx_table env) (mx_channels s') = Map.empty"
    by (auto simp: safely_total total_def)
  with idle_empty [OF this(2,3)] assms(3) show ?thesis
    by (auto simp: multiplex_handler_stop_def quiet_def mx_log_def Let_def)
qed

section \<open>Two ends of a channel\<close>

text \<open>
  A multiplexer on its own: no callbacks, memory is available, and the lower handler takes every packet. What it is told
  and what it sends is in its trace.
\<close>

definition plain :: "('h, 'i) mux_env \<Rightarrow> timeval \<Rightarrow> bool" where
  "plain env t \<longleftrightarrow> quiet env \<and> hashtable_ok (mx_table env) \<and> ids_heap_ok (mx_idops env) MAX_CHANNEL_ID \<and>
     (\<forall>s. mx_zalloc env s) \<and> (\<forall>s. mx_now env s = t) \<and> (\<forall>s bs. next_write_mx env s bs = Inr (int (length bs), s))"

definition channel_of :: "('h, 'i) mux_env \<Rightarrow> ('h, 'i) mux \<Rightarrow> u16 \<Rightarrow> Channel option" where
  "channel_of env s i = Option.bind (hashtable_get (mx_table env) (mx_channels s) (ucast i)) (mx_heap s)"

definition connected :: "('h, 'i) mux_env \<Rightarrow> ('h, 'i) mux \<Rightarrow> u16 \<Rightarrow> u16 \<Rightarrow> bool" where
  "connected env s i j \<longleftrightarrow> (\<exists>ch. channel_of env s i = Some ch \<and> ch_id ch = i \<and> ch_remote_id ch = j \<and>
     ch_status ch = ChannelStatus_Open \<and> 0 < ch_refs ch) \<and> i \<noteq> 0 \<and> j \<noteq> 0"

lemma plain_callbacks:
  assumes "plain env t"
  shows "channel_open (callbacks_of env ty) = None \<or> channel_open (callbacks_of env ty) = Some (\<lambda>s a c. Inr (True, s))"
    "channel_opened (callbacks_of env ty) = None \<or> channel_opened (callbacks_of env ty) = Some (\<lambda>s a. Inr s)"
    "channel_data (callbacks_of env ty) = None \<or> channel_data (callbacks_of env ty) = Some (\<lambda>s a b. Inr (True, s))"
  using assms
  by (auto simp: plain_def quiet_def callbacks_of_def user_channel_callbacks_def no_callbacks_def no_user_def fun_eq_iff
      user_channel_open_def user_channel_opened_def user_channel_data_def)

lemma plain_notify:
  assumes "plain env t"
  shows "notify_channel_open env s a c = bindr (get_chan s a) (\<lambda>ch. Inr (True, mx_log s (MxOpen (ch_id ch) c)))"
    "notify_channel_opened env s a = bindr (get_chan s a) (\<lambda>ch. Inr (mx_log s (MxOpened (ch_id ch))))"
    "notify_channel_data env s a b = bindr (get_chan s a) (\<lambda>ch. Inr (True, mx_log s (MxData (ch_id ch) (flex_data b))))"
  using plain_callbacks [OF assms]
  by (auto simp: notify_channel_open_def notify_channel_opened_def notify_channel_data_def Let_def intro!: bindr_cong
      dest: spec split: option.splits) (metis option.distinct(1) option.inject)+

lemma int_of_ssize_small: "0 \<le> n \<Longrightarrow> n < 2 ^ 31 \<Longrightarrow> int_of_ssize n = n"
  unfolding int_of_ssize_def by (subst signed_of_int) (simp add: signed_take_bit_int_eq_self)

lemma send_packet_plain:
  assumes "plain env t" "PacketType_ChannelOpen \<le> type" "type \<le> PacketType_ChannelClose"
  shows "multiplex_handler_send_packet env s type opt l r None = Inr (0, mx_log s (MxWrite (protocol_header type opt l r 0) 8))"
    and "flex_ok buf \<Longrightarrow> PROTOCOL_HEAD_LEN \<le> fb_offset buf \<Longrightarrow> length (flex_data buf) < 2 ^ 16 \<Longrightarrow>
      multiplex_handler_send_packet env s type opt l r (Some buf) = Inr (int (length (flex_data buf)),
        mx_log s (MxWrite (protocol_header type opt l r (ucast (fb_size buf)) @ flex_data buf) (8 + int (length (flex_data buf)))))"
proof -
  have z: "flex_ok (flex_buffer_alloca (mx_junk env) FLEX_PADDING_LEN FLEX_PADDING_LEN)"
    "PROTOCOL_HEAD_LEN \<le> fb_offset (flex_buffer_alloca (mx_junk env) FLEX_PADDING_LEN FLEX_PADDING_LEN)"
    by (simp_all add: alloca_ok PROTOCOL_HEAD_LEN_def FLEX_PADDING_LEN_def)
  have "int_of_ssize 0 = 0" by (simp add: int_of_ssize_def)
  then show "multiplex_handler_send_packet env s type opt l r None = Inr (0, mx_log s (MxWrite (protocol_header type opt l r 0) 8))"
    using assms z by (simp add: send_packet_None send_packet_eq alloca_ok plain_def)
  assume b: "flex_ok buf" "PROTOCOL_HEAD_LEN \<le> fb_offset buf" "length (flex_data buf) < 2 ^ 16"
  have "int_of_ssize (uint (fb_size buf)) = int (length (flex_data buf))"
  proof -
    have "int (unat (fb_size buf)) < 2 ^ 16" using b(3) by (metis length_flex_data of_nat_less_iff of_nat_numeral of_nat_power)
    then show ?thesis using int_of_ssize_small [of "uint (fb_size buf)"] by simp
  qed
  moreover have "\<not> 8 + uint (fb_size buf) < 0" by (simp add: not_less add_nonneg_nonneg)
  ultimately show "multiplex_handler_send_packet env s type opt l r (Some buf) = Inr (int (length (flex_data buf)),
        mx_log s (MxWrite (protocol_header type opt l r (ucast (fb_size buf)) @ flex_data buf) (8 + int (length (flex_data buf)))))"
    using assms b by (simp add: send_packet_eq plain_def)
qed

lemma plainD: "plain env t \<Longrightarrow> mx_zalloc env s" "plain env t \<Longrightarrow> mx_now env s = t"
  "plain env t \<Longrightarrow> hashtable_get (mx_table env) (hashtable_put (mx_table env) h k v) = (hashtable_get (mx_table env) h)(k \<mapsto> v)"
  by (simp_all add: plain_def hashtable_okD(2))

lemma get_chan_eq: "mx_heap s a = Some ch \<Longrightarrow> get_chan s a = Inr ch"
  by (simp add: get_chan_def)

text \<open>The channel of a call or packet.\<close>

definition fresh_channel :: "u16 \<Rightarrow> u16 \<Rightarrow> timeval \<Rightarrow> int \<Rightarrow> Channel" where
  "fresh_channel i j t tm = zero_channel\<lparr> ch_mux := True, ch_id := i, ch_remote_id := j, ch_timeout := tm,
     ch_remote_timestamp := t, ch_last_activity := t \<rparr>"

text \<open>The state with a new channel in the table.\<close>

definition with_channel :: "('h, 'i) mux_env \<Rightarrow> ('h, 'i) mux \<Rightarrow> 'i \<Rightarrow> Channel \<Rightarrow> ('h, 'i) mux" where
  "with_channel env s ids ch = s\<lparr> mx_ids := ids, mx_heap := (mx_heap s)(mx_next s \<mapsto> ch), mx_next := mx_next s + 1,
     mx_channels := hashtable_put (mx_table env) (mx_channels s) (ucast (ch_id ch)) (mx_next s) \<rparr>"

lemmas chan_ops = get_chan_eq mod_chan_eq chan_ref_def chan_deref_def channels_put_def chan_alloc_def
  update_remote_timestamp_def update_local_timestamp_def

lemma open_channel_plain:
  assumes "plain env t" "ids_heap_alloc (mx_idops env) (mx_ids s) = (cid, ids)" "0 < cid"
  shows "multiplex_handler_open_channel env s ChannelType_User None tm k =
    Inr (cid, mx_log (with_channel env s ids (fresh_channel (of_int cid) 0 t tm))
      (MxWrite (protocol_header PacketType_ChannelOpen 0 (of_int cid) 0 0) 8))"
  using assms(2,3) plainD(1,2) [OF assms(1)] send_packet_plain(1) [OF assms(1)]
  by (simp add: multiplex_handler_open_channel_def chan_ops packet_types zero_channel_def fresh_channel_def
      with_channel_def channel_type_code_def put_chan_def mx_log_def)

text \<open>A packet as it arrives: the sender's and the receiver's number change places.\<close>

definition received :: "u8 \<Rightarrow> u8 \<Rightarrow> u16 \<Rightarrow> u16 \<Rightarrow> u16 \<Rightarrow> ProtocolBuffer" where
  "received type opt l r len = \<lparr> pb_type = type, pb_option = opt, pb_local_channel_id = r, pb_remote_channel_id = l,
     pb_payload_len = len \<rparr>"

lemma received_simps [simp]:
  "pb_type (received type opt l r len) = type" "pb_option (received type opt l r len) = opt"
  "pb_local_channel_id (received type opt l r len) = r" "pb_remote_channel_id (received type opt l r len) = l"
  "pb_payload_len (received type opt l r len) = len"
  by (simp_all add: received_def)

lemma notify_packet_eq:
  assumes "flex_ok b" "flex_data b = protocol_header type opt l r (of_nat (length d)) @ d" "length d < 2 ^ 16"
    "unat type < 8" "\<not> (l = 0 \<and> r = 0 \<and> type = PacketType_ChannelData)"
  shows "multiplex_handler_notify_packet env s b =
    bindr (if type = PacketType_ChannelOpen then accept_channel env s (received type opt l r (of_nat (length d)))
           else channels_get env s (ucast r)) (\<lambda>(x, s).
    case x of None \<Rightarrow> Inr s | Some a \<Rightarrow> dispatch_packet env s a (received type opt l r (of_nat (length d))) b d)"
proof -
  have sz: "unat (fb_size b) = 8 + length d" using assms(2) length_flex_data [of b] by simp
  have hd: "parse_header b = Inr (received type opt l r (of_nat (length d)))"
    using parse_header_eq [OF assms(1)] sz by (simp add: assms(2) header_of_protocol_header received_def)
  have ln: "fb_size b = ucast (of_nat (length d) :: u16) + PROTOCOL_HEAD_LEN"
  proof -
    have "unat (of_nat (length d) :: u16) = length d" using assms(3) by (intro unat_of_nat_small) simp
    then show ?thesis using sz unat_packet_len [of "of_nat (length d)"] by (simp add: word_unat_eq_iff)
  qed
  have "PROTOCOL_HEAD_LEN \<le> fb_size b" using sz by (simp add: word_le_nat_alt PROTOCOL_HEAD_LEN_def)
  then have "g_assert (flex_buffer_size b \<ge> PROTOCOL_HEAD_LEN) = Inr ()" "\<not> flex_buffer_size b < PROTOCOL_HEAD_LEN"
    "flex_buffer_size b = ucast (of_nat (length d) :: u16) + PROTOCOL_HEAD_LEN"
    using ln by (simp_all add: flex_buffer_size_def)
  moreover have "log_packet_type env type = Inr ()" using assms(4) by (simp add: log_packet_type_def PacketTypeNames_def)
  moreover have "drop 8 (flex_data b) = d" using assms(2) by simp
  ultimately show ?thesis
    unfolding multiplex_handler_notify_packet_def hd bindr_Inr received_simps using assms(5)
    by (simp only: bindr_Inr if_False simp_thms not_not)
qed

text \<open>The same for a packet in a buffer of its own.\<close>

lemma packet_arrives:
  assumes "length d \<le> packet_room - 8" "unat type < 8" "\<not> (l = 0 \<and> r = 0 \<and> type = PacketType_ChannelData)"
  shows "\<exists>b. packet_buffer (protocol_header type opt l r (of_nat (length d)) @ d) = b \<and> flex_ok b \<and>
      flex_data b = protocol_header type opt l r (of_nat (length d)) @ d \<and> 
      multiplex_handler_notify_packet env s b =
      bindr (if type = PacketType_ChannelOpen then accept_channel env s (received type opt l r (of_nat (length d)))
           else channels_get env s (ucast r)) (\<lambda>(x, s).
      case x of None \<Rightarrow> Inr s | Some a \<Rightarrow> dispatch_packet env s a (received type opt l r (of_nat (length d))) b d)"
proof -
  have "length (protocol_header type opt l r (of_nat (length d)) @ d) \<le> packet_room"
    using assms(1) packet_room_8 by simp
  note b = packet_buffer_ok [OF this]
  have "length d < 2 ^ 16"
    using assms(1) by (simp add: packet_room_def FLEX_BUFFER_MAX_LEN_def FLEX_PADDING_LEN_def ELA_MAX_USER_DATA_LEN_def)
  with b show ?thesis using notify_packet_eq [OF _ _ _ assms(2,3), of "packet_buffer (protocol_header type opt l r (of_nat (length d)) @ d)" opt d env s]
    by (simp add: inc_ok_def)
qed

lemma channels_get_eq:
  assumes "hashtable_get (mx_table env) (mx_channels s) k = Some a" "mx_heap s a = Some ch"
  shows "channels_get env s k = Inr (Some a, put_chan s a (ch\<lparr> ch_refs := ch_refs ch + 1 \<rparr>))"
  using assms by (simp add: channels_get_def chan_ref_def mod_chan_eq)

lemma notify_open_plain:
  assumes "plain env t" "ids_heap_alloc (mx_idops env) (mx_ids s) = (cid, ids)" "0 < cid" "of_int cid \<noteq> (0 :: u16)"
  shows "multiplex_handler_notify_packet env s (packet_buffer (protocol_header PacketType_ChannelOpen 0 i 0 0)) =
    Inr (mx_log (mx_log (mx_log (with_channel env s ids ((fresh_channel (of_int cid) i t 0)\<lparr> ch_status := ChannelStatus_Open \<rparr>))
      (MxOpen (of_int cid) None)) (MxWrite (protocol_header PacketType_ChannelOpenConfirmation 0 (of_int cid) i 0) 8))
      (MxOpened (of_int cid)))"
proof -
  have c: "channel_type_of 0 = ChannelType_User" by (simp add: channel_type_of_def)
  have "accept_channel env s (received PacketType_ChannelOpen 0 i 0 0) =
      Inr (Some (mx_next s), with_channel env s ids ((fresh_channel (of_int cid) i t 0)\<lparr> ch_refs := Suc (Suc 0) \<rparr>))"
    using assms(2,3) plainD(1,2) [OF assms(1)]
    by (simp add: accept_channel_def received_def c chan_ops zero_channel_def fresh_channel_def with_channel_def put_chan_def
        Let_def)
  moreover have "on_packet_open env (with_channel env s ids ((fresh_channel (of_int cid) i t 0)\<lparr> ch_refs := Suc (Suc 0) \<rparr>)) (mx_next s)
      (received PacketType_ChannelOpen 0 i 0 0) [] =
    Inr (mx_log (mx_log (mx_log (with_channel env s ids ((fresh_channel (of_int cid) i t 0)\<lparr> ch_status := ChannelStatus_Open \<rparr>))
      (MxOpen (of_int cid) None)) (MxWrite (protocol_header PacketType_ChannelOpenConfirmation 0 (of_int cid) i 0) 8))
      (MxOpened (of_int cid)))"
    using assms(2-4) plainD(1,2) [OF assms(1)] send_packet_plain(1) [OF assms(1)] plain_notify [OF assms(1)]
    by (simp add: on_packet_open_def received_def chan_ops packet_types zero_channel_def fresh_channel_def
      with_channel_def put_chan_def mx_log_def)
  ultimately show ?thesis
    using packet_arrives [of "[]" PacketType_ChannelOpen i 0 0 env s] by (simp add: packet_types dispatch_packet_def)
qed

lemma notify_confirmation_plain:
  assumes "plain env t" "hashtable_get (mx_table env) (mx_channels s) (ucast i) = Some a" "mx_heap s a = Some ch"
    "ch_status ch = ChannelStatus_Opening" "0 < ch_refs ch" "j \<noteq> 0"
  shows "multiplex_handler_notify_packet env s (packet_buffer (protocol_header PacketType_ChannelOpenConfirmation 0 j i 0)) =
    Inr (mx_log (put_chan s a (ch\<lparr> ch_status := ChannelStatus_Open, ch_remote_id := j, ch_remote_timestamp := t,
      ch_last_activity := t \<rparr>)) (MxOpened (ch_id ch)))"
proof -
  have "multiplex_handler_notify_packet env s (packet_buffer (protocol_header PacketType_ChannelOpenConfirmation 0 j i 0)) =
      on_packet_confirmation env (put_chan s a (ch\<lparr> ch_refs := ch_refs ch + 1 \<rparr>)) a
        (received PacketType_ChannelOpenConfirmation 0 j i 0)"
    using packet_arrives [of "[]" PacketType_ChannelOpenConfirmation j i 0 env s] channels_get_eq [OF assms(2,3)]
    by (simp add: packet_types dispatch_packet_def)
  then show ?thesis
    using assms(4-) plainD(2) [OF assms(1)] plain_notify(2) [OF assms(1)]
    by (simp add: on_packet_confirmation_def chan_ops put_chan_def mx_log_def)
qed

lemma write_channel_plain:
  assumes "plain env t" "hashtable_get (mx_table env) (mx_channels s) (ucast i) = Some a" "mx_heap s a = Some ch"
    "ch_status ch = ChannelStatus_Open" "0 < ch_refs ch" "ch_remote_id ch \<noteq> 0" "i \<noteq> 0"
    "flex_ok buf" "PROTOCOL_HEAD_LEN \<le> fb_offset buf" "length (flex_data buf) < 2 ^ 16"
  shows "multiplex_handler_write_channel env s (uint i) buf = Inr (int (length (flex_data buf)),
    mx_log (put_chan s a (ch\<lparr> ch_local_timestamp := t, ch_last_activity := t \<rparr>))
      (MxWrite (protocol_header PacketType_ChannelData 0 (ch_id ch) (ch_remote_id ch) (ucast (fb_size buf)) @ flex_data buf)
        (8 + int (length (flex_data buf)))))"
proof -
  have i: "(of_int (uint i) :: u32) = ucast i" by (metis ucast_eq)
  have "uint i \<noteq> 0" "0 \<le> uint i" using assms(7) by (simp_all add: uint_0_iff)
  then show ?thesis
    using assms(3-6) channels_get_eq [OF assms(2,3)] plainD(2) [OF assms(1)] send_packet_plain(2) [OF assms(1) _ _ assms(8-10)]
    by (simp add: multiplex_handler_write_channel_def with_open_channel_def i chan_ops packet_types put_chan_def mx_log_def)
qed

lemma notify_channel_data_plain:
  assumes "plain env t" "hashtable_get (mx_table env) (mx_channels s) (ucast j) = Some a" "mx_heap s a = Some ch"
    "ch_status ch = ChannelStatus_Open" "0 < ch_refs ch" "j \<noteq> 0" "length d \<le> packet_room - 8"
  shows "multiplex_handler_notify_packet env s (packet_buffer (protocol_header PacketType_ChannelData 0 i j (of_nat (length d)) @ d)) =
    Inr (mx_log (put_chan s a (ch\<lparr> ch_remote_timestamp := t, ch_last_activity := t \<rparr>)) (MxData (ch_id ch) d))"
proof -
  obtain b where b: "packet_buffer (protocol_header PacketType_ChannelData 0 i j (of_nat (length d)) @ d) = b" "flex_ok b"
    "flex_data b = protocol_header PacketType_ChannelData 0 i j (of_nat (length d)) @ d"
    "multiplex_handler_notify_packet env s b = on_packet_data env (put_chan s a (ch\<lparr> ch_refs := ch_refs ch + 1 \<rparr>)) a b"
    using packet_arrives [of d PacketType_ChannelData i j 0 env s] assms(6,7) channels_get_eq [OF assms(2,3)]
    by (auto simp: packet_types dispatch_packet_def)
  have "PROTOCOL_HEAD_LEN \<le> fb_size b"
    using b(3) length_flex_data [of b] by (simp add: word_le_nat_alt PROTOCOL_HEAD_LEN_def)
  with flex_forward_spec [OF b(2), of PROTOCOL_HEAD_LEN] obtain k b' where
    "flex_buffer_forward_offset b PROTOCOL_HEAD_LEN = Inr (k, b')" "flex_data b' = d"
    using b(3) by (auto simp: total_def PROTOCOL_HEAD_LEN_def)
  then show ?thesis
    using assms(4,5) b(1,4) plainD(2) [OF assms(1)] plain_notify(3) [OF assms(1)]
    by (simp add: on_packet_data_def chan_ops put_chan_def mx_log_def)
qed

text \<open>
  C24. Opening a channel. When one end opens a channel, the other end, given the packet this sends, creates a
  channel, tells its user and confirms; given the confirmation, the first end tells its user. Then both
  channels are open, and each has its own number and the number of the other end.
\<close>

theorem mux_handshake:
  assumes "plain envA tA" "plain envB tB"
    and "ids_heap_alloc (mx_idops envA) (mx_ids sA) = (i, idsA)" "0 < i"
    and "ids_heap_alloc (mx_idops envB) (mx_ids sB) = (j, idsB)" "0 < j"
  shows "\<exists>p q sA1 sA2 sB1.
    multiplex_handler_open_channel envA sA ChannelType_User None timeout sock = Inr (i, sA1) \<and>
    mx_trace sA1 = mx_trace sA @ [MxWrite p 8] \<and>
    multiplex_handler_notify_packet envB sB (packet_buffer p) = Inr sB1 \<and>
    mx_trace sB1 = mx_trace sB @ [MxOpen (of_int j) None, MxWrite q 8, MxOpened (of_int j)] \<and>
    multiplex_handler_notify_packet envA sA1 (packet_buffer q) = Inr sA2 \<and>
    mx_trace sA2 = mx_trace sA1 @ [MxOpened (of_int i)] \<and>
    connected envA sA2 (of_int i) (of_int j) \<and> connected envB sB1 (of_int j) (of_int i)"
proof -
  have nz: "of_int c \<noteq> (0 :: u16)" if "plain env t" "ids_heap_alloc (mx_idops env) ids = (c, ids')" "0 < c"
    for env :: "('x, 'y) mux_env" and t ids ids' c
  proof -
    have "c \<le> 2048" using ids_alloc_fresh(2) [OF _ that(2)] that(1,3) by (auto simp: plain_def MAX_CHANNEL_ID_def)
    then show ?thesis using that(3) by (simp add: word_of_int_eq_0_iff zdvd_not_zless)
  qed
  note i = nz [OF assms(1,3,4)] and j = nz [OF assms(2,5,6)]
  let ?cA = "fresh_channel (of_int i) 0 tA timeout"
  define sA1 where "sA1 = mx_log (with_channel envA sA idsA ?cA)
      (MxWrite (protocol_header PacketType_ChannelOpen 0 (of_int i) 0 0) 8)"
  have g: "hashtable_get (mx_table envA) (mx_channels sA1) (ucast (of_int i :: u16)) = Some (mx_next sA)"
    "mx_heap sA1 (mx_next sA) = Some ?cA"
    using plainD(3) [OF assms(1)] by (simp_all add: sA1_def with_channel_def fresh_channel_def)
  note A2 = notify_confirmation_plain [OF assms(1) g _ _ j]
  show ?thesis
    using open_channel_plain [OF assms(1,3,4), of timeout sock] notify_open_plain [OF assms(2,5,6) j, of "of_int i"] A2 g i j
      plainD(3) [OF assms(2)]
    by (auto simp: connected_def channel_of_def fresh_channel_def zero_channel_def sA1_def with_channel_def put_chan_def mx_log_def
        simp del: of_int_eq_iff)
qed

lemma demo_plain: "plain (demo_env r) \<lparr> tv_sec = 5, tv_usec = 0 \<rparr>"
  by (simp add: plain_def alist_table_ok list_ids_ok) (simp add: demo_env_def model_env_def)

definition demo_open :: "(nat \<times> (u32 \<times> addr) list, int list) mux" where
  "demo_open = mx_log (with_channel (demo_env True) demo_mux [1] (fresh_channel 1 0 \<lparr> tv_sec = 5, tv_usec = 0 \<rparr> 0))
     (MxWrite (protocol_header PacketType_ChannelOpen 0 1 0 0) 8)"

lemma demo_open_run: "mux_run (demo_env True) demo_open"
proof (rule mux_run.stepped [of _ demo_mux "InCall (CallOpen None)"])
  show "mux_run (demo_env True) demo_mux" using demo_run [of 0] by simp
  show "mux_exec (demo_env True) demo_mux (InCall (CallOpen None)) = Inr demo_open"
    using open_channel_plain [OF demo_plain, of True demo_mux 1 "[1]" 0 0]
    by (simp add: mux_exec_def run_call_def demo_open_def) (simp add: demo_mux_def list_ids_def MAX_CHANNEL_ID_def)
qed (simp add: input_ok_def)

lemma mux_stop_frees_witness:
  "\<exists>s'. multiplex_handler_stop (demo_env True) demo_open 0 = Inr s' \<and> mx_heap s' = Map.empty \<and>
    hashtable_get alist_table (mx_channels s') = Map.empty \<and> ids_in_use (list_ids MAX_CHANNEL_ID) (mx_ids s') = {}"
  using mux_stop_frees [OF _ _ _ _ demo_open_run, of 0] alist_table_ok list_ids_ok
  by (simp add: demo_open_def with_channel_def demo_mux_def alist_table_def mx_log_def)

lemma mux_handshake_witness:
  "\<exists>p q sA1 sA2 sB1.
    multiplex_handler_open_channel (demo_env True) demo_mux ChannelType_User None 0 0 = Inr (1, sA1) \<and>
    mx_trace sA1 = mx_trace demo_mux @ [MxWrite p 8] \<and>
    multiplex_handler_notify_packet (demo_env True) (demo_mux\<lparr> mx_ids := [6] \<rparr>) (packet_buffer p) = Inr sB1 \<and>
    mx_trace sB1 = mx_trace demo_mux @ [MxOpen 7 None, MxWrite q 8, MxOpened 7] \<and>
    multiplex_handler_notify_packet (demo_env True) sA1 (packet_buffer q) = Inr sA2 \<and>
    mx_trace sA2 = mx_trace sA1 @ [MxOpened 1] \<and>
    connected (demo_env True) sA2 1 7 \<and> connected (demo_env True) sB1 7 1"
  using mux_handshake [OF demo_plain demo_plain, where sA = demo_mux and sB = "demo_mux\<lparr> mx_ids := [6] \<rparr>" and i = 1 and j = 7
      and timeout = 0 and sock = 0]
  by (simp add: demo_mux_def list_ids_def MAX_CHANNEL_ID_def)

section \<open>A stream of packets\<close>


definition demo_chunks :: "FlexBuffer list" where
  "demo_chunks = [packet_buffer [7, 0, 0], packet_buffer [1, 0, 2, 0, 0, 9]]"

lemma demo_chunks_ok:
  "\<forall>b \<in> set demo_chunks. flex_ok b \<and> flex_data b \<noteq> [] \<and> length (flex_data b) < 2 ^ 32"
  "concat (map flex_data demo_chunks) = [7, 0, 0, 1, 0, 2, 0, 0, 9]"
proof -
  have "inc_ok (packet_buffer [7, 0, 0]) \<and> flex_data (packet_buffer [7, 0, 0]) = [7, 0, 0]"
    "inc_ok (packet_buffer [1, 0, 2, 0, 0, 9]) \<and> flex_data (packet_buffer [1, 0, 2, 0, 0, 9]) = [1, 0, 2, 0, 0, 9]"
    using packet_room_8 by (auto intro!: packet_buffer_ok)
  then show "\<forall>b \<in> set demo_chunks. flex_ok b \<and> flex_data b \<noteq> [] \<and> length (flex_data b) < 2 ^ 32"
    "concat (map flex_data demo_chunks) = [7, 0, 0, 1, 0, 2, 0, 0, 9]"
    by (simp_all add: demo_chunks_def inc_ok_def flip: length_flex_data)
qed

lemma demo_deframe: "deframe [7, 0, 0, 1, 0, 2, 0, 0, 9] = ([[7, 0, 0, 1, 0, 2, 0, 0]], [9])"
  by (simp add: deframe_step deframe_partial frame_len_def header_of_def ntohs_bytes_def)

lemma demo_incomplete: "inc_ok (mx_incomplete demo_mux)" "flex_data (mx_incomplete demo_mux) = []"
  by (simp_all add: demo_mux_def inc_ok_def flex_buffer_init_def flex_ok_def flex_data_def FLEX_PADDING_LEN_def
      FLEX_BUFFER_MAX_LEN_def ELA_MAX_USER_DATA_LEN_def)


text \<open>A sequence of writes, the bytes they turn into, and the packet of one write.\<close>

fun write_all :: "('h, 'i) mux_env \<Rightarrow> ('h, 'i) mux \<Rightarrow> int \<Rightarrow> FlexBuffer list \<Rightarrow> ('h, 'i) mux res" where
  "write_all env s cid [] = Inr s"
| "write_all env s cid (b # bs) = bindr (multiplex_handler_write_channel env s cid b) (\<lambda>(_, s). write_all env s cid bs)"

definition written :: "mux_event list \<Rightarrow> byte list" where
  "written tr = concat (map (\<lambda>e. case e of MxWrite bs n \<Rightarrow> bs | _ \<Rightarrow> []) tr)"

definition writable :: "FlexBuffer \<Rightarrow> bool" where
  "writable b \<longleftrightarrow> flex_ok b \<and> PROTOCOL_HEAD_LEN \<le> fb_offset b \<and> length (flex_data b) \<le> packet_room - 8"

definition mux_data_packet :: "u16 \<Rightarrow> u16 \<Rightarrow> byte list \<Rightarrow> byte list" where
  "mux_data_packet i j d = protocol_header PacketType_ChannelData 0 i j (of_nat (length d)) @ d"

lemma room_16: "length d \<le> packet_room - 8 \<Longrightarrow> length d < 2 ^ 16"
  by (simp add: packet_room_def FLEX_BUFFER_MAX_LEN_def FLEX_PADDING_LEN_def ELA_MAX_USER_DATA_LEN_def)

lemma trace_simps: "mx_trace (mx_log s e) = mx_trace s @ [e]" "mx_trace (put_chan s a ch) = mx_trace s"
  by (simp_all add: mx_log_def put_chan_def)

lemma connected_put:
  assumes "hashtable_get (mx_table env) (mx_channels s) (ucast i) = Some a" "mx_heap s a = Some ch"
    "ch_id ch = i" "ch_remote_id ch = j" "ch_status ch = ChannelStatus_Open" "0 < ch_refs ch" "i \<noteq> 0" "j \<noteq> 0"
  shows "connected env (mx_log (put_chan s a (ch\<lparr> ch_local_timestamp := t, ch_last_activity := t' \<rparr>)) e) i j"
    "connected env (mx_log (put_chan s a (ch\<lparr> ch_remote_timestamp := t, ch_last_activity := t' \<rparr>)) e) i j"
  using assms by (simp_all add: connected_def channel_of_def)

lemma write_connected:
  assumes "plain env t" "connected env s i j" "writable b"
  shows "\<exists>s'. multiplex_handler_write_channel env s (uint i) b = Inr (int (length (flex_data b)), s') \<and> connected env s' i j \<and>
    mx_trace s' = mx_trace s @ [MxWrite (mux_data_packet i j (flex_data b)) (8 + int (length (flex_data b)))]"
proof -
  obtain a ch where c: "hashtable_get (mx_table env) (mx_channels s) (ucast i) = Some a" "mx_heap s a = Some ch"
    "ch_id ch = i" "ch_remote_id ch = j" "ch_status ch = ChannelStatus_Open" "0 < ch_refs ch" "i \<noteq> 0" "j \<noteq> 0"
    using assms(2) by (auto simp: connected_def channel_of_def bind_eq_Some_conv)
  have b: "flex_ok b" "PROTOCOL_HEAD_LEN \<le> fb_offset b" "length (flex_data b) < 2 ^ 16"
    using assms(3) room_16 [of "flex_data b"] by (simp_all add: writable_def)
  have "ucast (fb_size b) = (of_nat (length (flex_data b)) :: u16)" by (simp only: length_flex_data) (metis of_nat_unat)
  then show ?thesis
    using write_channel_plain [OF assms(1) c(1,2,5,6) _ c(7) b] connected_put(1) [OF c] c(3,4,8)
    by (auto simp: mux_data_packet_def trace_simps)
qed

lemma notify_connected:
  assumes "plain env t" "connected env s j i" "length d \<le> packet_room - 8"
  shows "\<exists>s'. multiplex_handler_notify_packet env s (packet_buffer (mux_data_packet i j d)) = Inr s' \<and> connected env s' j i \<and>
    mx_trace s' = mx_trace s @ [MxData j d]"
proof -
  obtain a ch where c: "hashtable_get (mx_table env) (mx_channels s) (ucast j) = Some a" "mx_heap s a = Some ch"
    "ch_id ch = j" "ch_remote_id ch = i" "ch_status ch = ChannelStatus_Open" "0 < ch_refs ch" "j \<noteq> 0" "i \<noteq> 0"
    using assms(2) by (auto simp: connected_def channel_of_def bind_eq_Some_conv)
  show ?thesis
    using notify_channel_data_plain [OF assms(1) c(1,2,5,6,7) assms(3), of i] connected_put(2) [OF c] c(3)
    by (auto simp: mux_data_packet_def trace_simps)
qed

lemma deframe_data:
  assumes "\<forall>d \<in> set ds. length d \<le> packet_room - 8"
  shows "deframe (concat (map (mux_data_packet i j) ds)) = (map (mux_data_packet i j) ds, [])"
  using assms
proof (induction ds)
  case Nil
  then show ?case by (simp add: deframe_partial)
next
  case (Cons d ds)
  have "unat (of_nat (length d) :: u16) = length d"
    using room_16 [of d] Cons.prems by (intro unat_of_nat_small) simp
  then have "frame_len (mux_data_packet i j d @ r) = length (mux_data_packet i j d)" for r
    by (simp add: mux_data_packet_def frame_len_def header_of_protocol_header)
  moreover have "8 \<le> length (mux_data_packet i j d)" by (simp add: mux_data_packet_def)
  ultimately show ?case using Cons by (simp add: deframe_step)
qed

lemma write_all_connected:
  assumes "plain env t" "connected env s i j" "\<forall>b \<in> set bufs. writable b"
  shows "\<exists>s' tr. write_all env s (uint i) bufs = Inr s' \<and> connected env s' i j \<and> mx_trace s' = mx_trace s @ tr \<and>
    written tr = concat (map (mux_data_packet i j) (map flex_data bufs))"
  using assms(2,3)
proof (induction bufs arbitrary: s)
  case Nil
  then show ?case by (simp add: written_def)
next
  case (Cons b bufs)
  from write_connected [OF assms(1) Cons.prems(1), of b] Cons.prems(2) obtain s1 where
    1: "multiplex_handler_write_channel env s (uint i) b = Inr (int (length (flex_data b)), s1)" "connected env s1 i j"
      "mx_trace s1 = mx_trace s @ [MxWrite (mux_data_packet i j (flex_data b)) (8 + int (length (flex_data b)))]"
    by auto
  from Cons.IH [OF 1(2)] Cons.prems(2) obtain s' tr where "write_all env s1 (uint i) bufs = Inr s'" "connected env s' i j"
    "mx_trace s' = mx_trace s1 @ tr" "written tr = concat (map (mux_data_packet i j) (map flex_data bufs))"
    by auto
  with 1 show ?case by (simp add: written_def)
qed

lemma feed_connected:
  assumes "plain env t" "connected env s j i" "\<forall>d \<in> set ds. length d \<le> packet_room - 8"
  shows "\<exists>s'. feed_packets env s (map (mux_data_packet i j) ds) = Inr s' \<and> connected env s' j i \<and>
    mx_trace s' = mx_trace s @ map (MxData j) ds"
  using assms(2,3)
proof (induction ds arbitrary: s)
  case (Cons d ds)
  from notify_connected [OF assms(1) Cons.prems(1), of d] Cons.prems(2) obtain s1 where
    "multiplex_handler_notify_packet env s (packet_buffer (mux_data_packet i j d)) = Inr s1" "connected env s1 j i"
    "mx_trace s1 = mx_trace s @ [MxData j d]"
    by auto
  with Cons.IH [of s1] Cons.prems(2) show ?case by auto
qed simp

lemma plain_blind: "plain env t \<Longrightarrow> mux_blind env"
  by (rule quiet_blind) (simp_all add: plain_def blind_env_def blind_ret_def)

lemma data_fit:
  "\<forall>d \<in> set ds. length d \<le> packet_room - 8 \<Longrightarrow> frames_fit (concat (map (mux_data_packet i j) ds))"
  using packet_room_8 by (auto simp: frames_fit_def deframe_data mux_data_packet_def)

text \<open>
  C4. What one end writes to a channel is what the other end's user receives. A sequence of writes to an open
  channel turns into a sequence of bytes; however the transport cuts these bytes into pieces, the multiplexer
  at the other end calls the user once for each write, in order, with exactly the bytes that were
  written and with its own number of the channel, and nothing is left over.
\<close>

theorem mux_stream_roundtrip:
  assumes "plain envA tA" "connected envA sA i j" "\<forall>b \<in> set bufs. writable b"
    and "plain envB tB" "connected envB sB j i" "inc_ok (mx_incomplete sB)" "flex_data (mx_incomplete sB) = []"
  shows "\<exists>sA' tr. write_all envA sA (uint i) bufs = Inr sA' \<and> mx_trace sA' = mx_trace sA @ tr \<and>
    (\<forall>chunks. (\<forall>b \<in> set chunks. flex_ok b \<and> flex_data b \<noteq> [] \<and> length (flex_data b) < 2 ^ 32) \<and>
        concat (map flex_data chunks) = written tr \<longrightarrow>
      (\<exists>sB'. feed_chunks envB sB chunks = Inr sB' \<and> mx_trace sB' = mx_trace sB @ map (MxData j) (map flex_data bufs) \<and>
        flex_data (mx_incomplete sB') = [] \<and> connected envB sB' j i))"
proof -
  obtain sA' tr where A: "write_all envA sA (uint i) bufs = Inr sA'" "mx_trace sA' = mx_trace sA @ tr"
    "written tr = concat (map (mux_data_packet i j) (map flex_data bufs))"
    using write_all_connected [OF assms(1-3)] by blast
  have room: "\<forall>d \<in> set (map flex_data bufs). length d \<le> packet_room - 8" using assms(3) by (auto simp: writable_def)
  obtain sB1 where B: "feed_packets envB sB (map (mux_data_packet i j) (map flex_data bufs)) = Inr sB1" "connected envB sB1 j i"
    "mx_trace sB1 = mx_trace sB @ map (MxData j) (map flex_data bufs)"
    using feed_connected [OF assms(4,5) room] by blast
  have "\<exists>sB'. feed_chunks envB sB chunks = Inr sB' \<and> mx_trace sB' = mx_trace sB @ map (MxData j) (map flex_data bufs) \<and>
      flex_data (mx_incomplete sB') = [] \<and> connected envB sB' j i"
    if c: "\<forall>b \<in> set chunks. flex_ok b \<and> flex_data b \<noteq> [] \<and> length (flex_data b) < 2 ^ 32"
      "concat (map flex_data chunks) = written tr" for chunks
  proof -
    have "frames_to envB sB (map (mux_data_packet i j) (map flex_data bufs)) [] (feed_chunks envB sB chunks)"
      using mux_blind.chunks_frames [OF plain_blind [OF assms(4)] assms(6) _ c(1)] deframe_data [OF room, of i j]
        data_fit [OF room, of i j] by (simp add: assms(7) c(2) A(3) deframe_partial)
    then obtain inc where "feed_chunks envB sB chunks = Inr (set_incomplete sB1 inc)" "flex_data inc = []"
      unfolding frames_to_def B(1) by auto
    moreover have "mx_trace (set_incomplete sB1 inc) = mx_trace sB1" by (simp add: set_incomplete_def)
    ultimately show ?thesis using B(2,3) by (auto simp: connected_def channel_of_def)
  qed
  with A show ?thesis by blast
qed

text \<open>Two ends of one channel, number 3 here and number 4 there.\<close>

definition demo_linked :: "u16 \<Rightarrow> u16 \<Rightarrow> (nat \<times> (u32 \<times> addr) list, int list) mux" where
  "demo_linked i j = demo_mux\<lparr> mx_channels := (1, [(ucast i, 0)]), mx_ids := [uint i], mx_next := 1,
     mx_heap := [0 \<mapsto> (fresh_channel i j time_zero 0)\<lparr> ch_status := ChannelStatus_Open \<rparr>] \<rparr>"

lemma demo_connected: "i \<noteq> 0 \<Longrightarrow> j \<noteq> 0 \<Longrightarrow> connected (demo_env True) (demo_linked i j) i j"
  by (simp add: connected_def channel_of_def demo_linked_def alist_table_def fresh_channel_def zero_channel_def)

lemma mux_stream_roundtrip_witness:
  "\<exists>sA' tr. write_all (demo_env True) (demo_linked 3 4) 3 [packet_buffer [72, 105], packet_buffer []] = Inr sA' \<and>
    mx_trace sA' = mx_trace (demo_linked 3 4) @ tr \<and>
    (\<forall>chunks. (\<forall>b \<in> set chunks. flex_ok b \<and> flex_data b \<noteq> [] \<and> length (flex_data b) < 2 ^ 32) \<and>
        concat (map flex_data chunks) = written tr \<longrightarrow>
      (\<exists>sB'. feed_chunks (demo_env True) (demo_linked 4 3) chunks = Inr sB' \<and>
        mx_trace sB' = mx_trace (demo_linked 4 3) @ [MxData 4 [72, 105], MxData 4 []] \<and>
        flex_data (mx_incomplete sB') = [] \<and> connected (demo_env True) sB' 4 3))"
proof -
  have b: "inc_ok (packet_buffer d) \<and> flex_data (packet_buffer d) = d" if "length d \<le> 8" for d
    using that packet_room_8 by (intro packet_buffer_ok) simp
  have "10 \<le> packet_room"
    by (simp add: packet_room_def FLEX_BUFFER_MAX_LEN_def FLEX_PADDING_LEN_def ELA_MAX_USER_DATA_LEN_def)
  then have "\<forall>b \<in> set [packet_buffer [72, 105], packet_buffer []]. writable b"
    using b [of "[]"] b [of "[72, 105]"]
    by (auto simp: writable_def inc_ok_def FLEX_PADDING_LEN_def PROTOCOL_HEAD_LEN_def simp flip: length_flex_data)
  moreover have "inc_ok (mx_incomplete (demo_linked 4 3))" "flex_data (mx_incomplete (demo_linked 4 3)) = []"
    using demo_incomplete by (simp_all add: demo_linked_def)
  ultimately show ?thesis
    using mux_stream_roundtrip [of "demo_env True" _ "demo_linked 3 4" 3 4 "[packet_buffer [72, 105], packet_buffer []]"
        "demo_env True" _ "demo_linked 4 3", OF demo_plain _ _ demo_plain] demo_connected [of 3 4] demo_connected [of 4 3]
      b [of "[]"] b [of "[72, 105]"] by simp
qed

end
