(* ===== verification/Mux_Bugs.thy ===== *)
theory Mux_Bugs
  imports Mux_Spec
begin

text \<open>
  Defects of the multiplexer: a packet of an unknown type, a length field that no packet can have, a peer without free
  channel numbers, and the clock arithmetic of the keep-alive.
\<close>

text \<open>
  A packet whose type is none of the seven types makes the handler read past the end of \<open>PacketTypeNames\<close>
  for its log, whatever its state: the type is not checked before.
\<close>

theorem mux_unknown_type:
  assumes "mx_log_args env" "flex_ok b" "flex_data b = protocol_header type opt l r (of_nat (length d)) @ d"
    and "length d < 2 ^ 16" "8 \<le> unat type"
  shows "multiplex_handler_notify_packet env s b = Inl OutOfBounds"
proof -
  have sz: "unat (fb_size b) = 8 + length d" using assms(3) length_flex_data [of b] by simp
  have hd: "parse_header b = Inr (received type opt l r (of_nat (length d)))"
    using parse_header_eq [OF assms(2)] sz by (simp add: assms(3) header_of_protocol_header received_def)
  have "unat (of_nat (length d) :: u16) = length d" using assms(4) by (intro unat_of_nat_small) simp
  then have ln: "fb_size b = ucast (of_nat (length d) :: u16) + PROTOCOL_HEAD_LEN"
    using sz unat_packet_len [of "of_nat (length d)"] by (simp add: word_unat_eq_iff)
  have "PROTOCOL_HEAD_LEN \<le> fb_size b" using sz by (simp add: word_le_nat_alt PROTOCOL_HEAD_LEN_def)
  moreover have "type \<noteq> PacketType_ChannelData" using assms(5) by (auto simp: packet_types)
  moreover have "log_packet_type env type = Inl OutOfBounds"
    using assms(1,5) by (simp add: log_packet_type_def PacketTypeNames_def)
  ultimately show ?thesis
    using ln by (simp add: multiplex_handler_notify_packet_def flex_buffer_size_def hd not_less)
qed

lemma mux_unknown_type_witness:
  "multiplex_handler_notify_packet ((demo_env False)\<lparr> mx_log_args := True \<rparr>) demo_mux
     (packet_buffer (protocol_header 9 0 1 1 0)) = Inl OutOfBounds"
proof -
  have "inc_ok (packet_buffer (protocol_header 9 0 1 1 0)) \<and>
      flex_data (packet_buffer (protocol_header 9 0 1 1 0)) = protocol_header 9 0 1 1 0"
    using packet_room_8 by (intro packet_buffer_ok) simp
  then show ?thesis
    using mux_unknown_type [of "(demo_env False)\<lparr> mx_log_args := True \<rparr>" "packet_buffer (protocol_header 9 0 1 1 0)" 9 0 1 1 "[]" demo_mux]
    by (simp add: inc_ok_def)
qed

text \<open>
  When all channel numbers are in use, the request to open a channel is not refused: the refusal is addressed to
  channel 0, because the new channel object has no remote number yet, and the requesting end ignores it. Its channel stays
  in the state \<open>Opening\<close>.
\<close>

theorem mux_exhausted_ids:
  assumes "plain envB tB" "ids_heap_alloc (mx_idops envB) (mx_ids sB) = (c, ids)" "c < 0"
    and "plain envA tA" "hashtable_get (mx_table envA) (mx_channels sA) 0 = None"
  shows "\<exists>q sB'. multiplex_handler_notify_packet envB sB (packet_buffer (protocol_header PacketType_ChannelOpen 0 i 0 0)) = Inr sB' \<and>
    mx_trace sB' = mx_trace sB @ [MxWrite q 8] \<and>
    multiplex_handler_notify_packet envA sA (packet_buffer q) = Inr sA"
proof -
  have t: "channel_type_of 0 = ChannelType_User" by (simp add: channel_type_of_def)
  have "\<exists>sB'. accept_channel envB sB (received PacketType_ChannelOpen 0 i 0 0) = Inr (None, sB') \<and>
      mx_trace sB' = mx_trace sB @ [MxWrite (protocol_header PacketType_ChannelOpenConfirmation 0 0 0 0) 8]"
    using assms(2,3) plainD(1) [OF assms(1)] send_packet_plain(1) [OF assms(1)]
    by (simp add: accept_channel_def t chan_ops zero_channel_def packet_types mx_log_def channel_destroy_def)
  then obtain sB' where B: "multiplex_handler_notify_packet envB sB (packet_buffer (protocol_header PacketType_ChannelOpen 0 i 0 0)) = Inr sB'"
    "mx_trace sB' = mx_trace sB @ [MxWrite (protocol_header PacketType_ChannelOpenConfirmation 0 0 0 0) 8]"
    using packet_arrives [of "[]" PacketType_ChannelOpen i 0 0 envB sB] by (auto simp: packet_types)
  have "multiplex_handler_notify_packet envA sA (packet_buffer (protocol_header PacketType_ChannelOpenConfirmation 0 0 0 0)) = Inr sA"
    using packet_arrives [of "[]" PacketType_ChannelOpenConfirmation 0 0 0 envA sA] assms(5)
    by (simp add: packet_types channels_get_def)
  with B show ?thesis by blast
qed

lemma mux_exhausted_ids_witness:
  "\<exists>q sB'. multiplex_handler_notify_packet (demo_env False) (demo_mux\<lparr> mx_ids := [2048] \<rparr>)
      (packet_buffer (protocol_header PacketType_ChannelOpen 0 1 0 0)) = Inr sB' \<and>
    mx_trace sB' = mx_trace (demo_mux\<lparr> mx_ids := [2048] \<rparr>) @ [MxWrite q 8] \<and>
    multiplex_handler_notify_packet (demo_env False) (demo_linked 1 0) (packet_buffer q) = Inr (demo_linked 1 0)"
  by (rule mux_exhausted_ids [OF demo_plain _ _ demo_plain, of _ _ "-1" "[2048]"])
    (simp_all add: list_ids_def MAX_CHANNEL_ID_def alist_table_def demo_linked_def)

text \<open>
  The length field of a packet on the stream is not checked against the buffer for the incomplete packet. After a header
  with a length that does not fit, the buffer fills up and from then on every piece of the stream that
  arrives is dropped: the handler no longer receives anything.
\<close>

theorem mux_length_wedge:
  assumes "inc_ok (mx_incomplete s)" "length (flex_data (mx_incomplete s)) = packet_room"
    and "flex_ok buf" "flex_data buf \<noteq> []" "packet_room + length (flex_data buf) < frame_len (flex_data (mx_incomplete s))"
  shows "\<exists>inc. multiplex_handler_notify_data env s buf = Inr (set_incomplete s inc) \<and> inc_ok inc \<and>
    flex_data inc = flex_data (mx_incomplete s)"
proof -
  let ?inc = "mx_incomplete s"
  define t where "t = ucast (pb_payload_len (header_of (flex_data ?inc))) + PROTOCOL_HEAD_LEN"
  have t: "unat t = frame_len (flex_data ?inc)" by (simp add: t_def frame_len_def unat_packet_len)
  have "unat (pb_payload_len (header_of (flex_data ?inc))) < 2 ^ 16"
    using unsigned_less [of "pb_payload_len (header_of (flex_data ?inc))"] by simp
  then have l: "length (flex_data buf) < 2 ^ 32" using assms(5) by (simp add: frame_len_def)
  have sz: "unat (fb_size ?inc + fb_size buf) = packet_room + length (flex_data buf)"
    using unat_size_add [OF assms(1) l] assms(2) by simp
  have nz: "fb_size buf \<noteq> 0" using assms(4) by (auto simp: flex_data_def)
  have big: "8 \<le> unat (fb_size ?inc)" using assms(2) packet_room_8 by simp
  then have f: "fill_to s buf PROTOCOL_HEAD_LEN = Inr (buf, s)"
    by (simp add: fill_to_def flex_buffer_size_def PROTOCOL_HEAD_LEN_def word_less_nat_alt)
  have hd: "parse_header ?inc = Inr (header_of (flex_data ?inc))"
    using parse_header_eq big assms(1) by (simp add: inc_ok_def)
  from append2_any [OF assms(1,3), of "fb_size buf"] assms(2) obtain inc where
    "flex_buffer_append ?inc buf = Inr inc" "inc_ok inc" "flex_data inc = flex_data ?inc"
    by (auto simp: append_append2)
  moreover have "\<not> fb_size ?inc + fb_size buf < PROTOCOL_HEAD_LEN" "fb_size ?inc + fb_size buf < t"
    using sz t assms(5) packet_room_8 by (simp_all add: word_less_nat_alt PROTOCOL_HEAD_LEN_def)
  ultimately show ?thesis
    using nz
    by (intro exI [of _ inc]) (simp add: multiplex_handler_notify_data_def flex_buffer_size_def loop_eq f hd t_def del: notify_data_loop.simps)
qed

definition full_header :: "byte list" where
  "full_header = protocol_header PacketType_ChannelData 0 1 1 65535 @ replicate (packet_room - 8) 0"

lemma mux_length_wedge_witness:
  "\<exists>inc. multiplex_handler_notify_data (demo_env True) (set_incomplete demo_mux (packet_buffer full_header)) (packet_buffer [1, 2, 3]) =
      Inr (set_incomplete (set_incomplete demo_mux (packet_buffer full_header)) inc) \<and> inc_ok inc \<and> flex_data inc = full_header"
proof -
  have f: "inc_ok (packet_buffer full_header) \<and> flex_data (packet_buffer full_header) = full_header"
    using packet_room_8 by (intro packet_buffer_ok) (simp add: full_header_def)
  have d: "inc_ok (packet_buffer [1, 2, 3]) \<and> flex_data (packet_buffer [1, 2, 3]) = [1, 2, 3]"
    using packet_room_8 by (intro packet_buffer_ok) simp
  have "length full_header = packet_room" "packet_room + 3 < frame_len full_header"
    using packet_room_8
    by (simp_all add: full_header_def frame_len_def header_of_protocol_header)
      (simp add: packet_room_def FLEX_BUFFER_MAX_LEN_def FLEX_PADDING_LEN_def ELA_MAX_USER_DATA_LEN_def)
  with f d show ?thesis
    using mux_length_wedge [of "set_incomplete demo_mux (packet_buffer full_header)" "packet_buffer [1, 2, 3]" "demo_env True"]
    by (simp add: inc_ok_def flip: length_flex_data)
qed

definition idle_env :: "(nat \<times> (u32 \<times> addr) list, int list) mux_env" where
  "idle_env = (demo_env False)\<lparr> mx_now := (\<lambda>_. \<lparr> tv_sec = 1503000100, tv_usec = 0 \<rparr>) \<rparr>"

definition idle_mux :: "(nat \<times> (u32 \<times> addr) list, int list) mux" where
  "idle_mux = demo_mux\<lparr> mx_channels := (1, [(1, 0)]), mx_ids := [1], mx_next := 1,
     mx_heap := [0 \<mapsto> (fresh_channel 1 2 \<lparr> tv_sec = 1503000000, tv_usec = 0 \<rparr> 0)\<lparr> ch_status := ChannelStatus_Open \<rparr>] \<rparr>"

lemma idle_intervals:
  "interval_ms \<lparr> tv_sec = 1503000100, tv_usec = 0 \<rparr> time_zero < 0"
  "interval_ms \<lparr> tv_sec = 1503000100, tv_usec = 0 \<rparr> \<lparr> tv_sec = 1503000000, tv_usec = 0 \<rparr> = 100000"
  by code_simp+

text \<open>
  A channel that has not written anything has the local time 0, and the milliseconds since then do not fit into an
  \<open>int\<close>. For 25 days out of 50 the interval is negative, so no keep-alive is sent: for instance at 1503000000 s
  the check point leaves a channel alone that has been silent, although the keep-alive interval is 30 s.
\<close>

theorem mux_keepalive_wrap:
  "interval_ms \<lparr> tv_sec = 1503000100, tv_usec = 0 \<rparr> time_zero < 0 \<and>
   (case multiplex_handler_checkpoint idle_env idle_mux of Inr s \<Rightarrow> mx_trace s = [] | Inl e \<Rightarrow> False)"
  using idle_intervals
  by (simp add: multiplex_handler_checkpoint_def idle_env_def idle_mux_def demo_env_def model_env_def alist_table_def
      demo_mux_def eval_nat_numeral chan_ops fresh_channel_def zero_channel_def KEEPALIVE_TIMEOUT_INTERVAL_def
      KEEPALIVE_INTERVAL_def put_chan_def)

end
