(* ===== verification/Crypto.thy ===== *)
theory Crypto
  imports FlexBuffer Ela
begin

text \<open>
  The encrypting stream handler, \<open>src/session/crypto_handler.c\<close>. The cipher is the library's (\<open>crypto_encrypt2\<close> and
  \<open>crypto_decrypt2\<close> with the macros \<open>ZERO_BYTES\<close> and \<open>MAC_BYTES\<close>), a parameter of the model: the record
  \<open>crypto_lib\<close>. What the handler relies on is \<open>crypto_ok\<close>.

  The neighbours are functions on a state of any type.
\<close>

section \<open>The library\<close>

text \<open>
  Both functions get the bytes of their input buffer and return a length and the bytes they write to their output
  buffer.
\<close>

record ('k, 'n) crypto_lib =
  ZERO_BYTES :: u64
  MAC_BYTES :: u64
  crypto_encrypt2 :: "'k \<Rightarrow> 'n \<Rightarrow> byte list \<Rightarrow> int \<times> byte list"
  crypto_decrypt2 :: "'k \<Rightarrow> 'n \<Rightarrow> byte list \<Rightarrow> int \<times> byte list"

text \<open>
  The output of either function is as long as its input. The first \<open>ZERO_BYTES\<close> bytes of a plain text and the first
  \<open>ZERO_BYTES - MAC_BYTES\<close> bytes of a cipher text are room for the library and carry no data.
\<close>

definition crypto_ok :: "('k, 'n) crypto_lib \<Rightarrow> bool" where
  "crypto_ok C \<longleftrightarrow> MAC_BYTES C \<le> ZERO_BYTES C \<and> 0 < ZERO_BYTES C \<and> ZERO_BYTES C \<le> FLEX_PADDING_LEN \<and>
     (\<forall>k n p. unat (ZERO_BYTES C) \<le> length p \<longrightarrow>
       fst (crypto_encrypt2 C k n p) = int (length p) \<and> length (snd (crypto_encrypt2 C k n p)) = length p \<and>
       (\<forall>c. length c = length p \<longrightarrow>
         drop (unat (ZERO_BYTES C - MAC_BYTES C)) c = drop (unat (ZERO_BYTES C - MAC_BYTES C)) (snd (crypto_encrypt2 C k n p)) \<longrightarrow>
         fst (crypto_decrypt2 C k n c) = int (length p) \<and> length (snd (crypto_decrypt2 C k n c)) = length p \<and>
         drop (unat (ZERO_BYTES C)) (snd (crypto_decrypt2 C k n c)) = drop (unat (ZERO_BYTES C)) p))"

section \<open>The handler\<close>

definition crypto_handler_write ::
    "('k, 'n) crypto_lib \<Rightarrow> (nat \<Rightarrow> byte) \<Rightarrow> 'k \<Rightarrow> 'n \<Rightarrow> ('s \<Rightarrow> FlexBuffer \<Rightarrow> (int \<times> 's) res) \<Rightarrow> 's \<Rightarrow> FlexBuffer \<Rightarrow>
      (int \<times> FlexBuffer \<times> 's) res" where
  "crypto_handler_write C junk key nonce next_write s buf =
     bindr (g_assert (flex_buffer_offset buf \<ge> ZERO_BYTES C)) (\<lambda>_.
     let cipher_buf = flex_buffer_alloca junk (flex_buffer_size buf + FLEX_PADDING_LEN) (FLEX_PADDING_LEN - ZERO_BYTES C) in
     bindr (flex_buffer_backward_offset buf (ZERO_BYTES C)) (\<lambda>(_, buf).
     bindr (flex_buffer_ptr buf (unat (flex_buffer_size buf))) (\<lambda>plain.
     let (cipher_len, cipher) = crypto_encrypt2 C key nonce plain in
     bindr (flex_buffer_mutable_ptr cipher_buf cipher) (\<lambda>cipher_buf.
     bindr (flex_buffer_forward_offset buf (ZERO_BYTES C)) (\<lambda>(_, buf).
     if cipher_len \<le> 0 then Inr (ssize_of_unsigned (ELA_GENERAL_ERROR ELAERR_ENCRYPT), buf, s)
     else
       (let cipher_buf = flex_buffer_set_size cipher_buf (of_int cipher_len) in
        bindr (flex_buffer_forward_offset cipher_buf (ZERO_BYTES C - MAC_BYTES C)) (\<lambda>(_, cipher_buf).
        bindr (next_write s cipher_buf) (\<lambda>(written, s).
        Inr (if written = uint (flex_buffer_size cipher_buf) then uint (flex_buffer_size buf) else written,
             buf, s)))))))))"

definition crypto_handler_on_rx_data ::
    "('k, 'n) crypto_lib \<Rightarrow> (nat \<Rightarrow> byte) \<Rightarrow> 'k \<Rightarrow> 'n \<Rightarrow> ('s \<Rightarrow> FlexBuffer \<Rightarrow> 's res) \<Rightarrow> 's \<Rightarrow> FlexBuffer \<Rightarrow> 's res" where
  "crypto_handler_on_rx_data C junk key nonce prev_on_data s buf =
     bindr (g_assert (flex_buffer_offset buf \<ge> ZERO_BYTES C - MAC_BYTES C)) (\<lambda>_.
     let plain_buf = flex_buffer_alloca junk (flex_buffer_size buf + FLEX_PADDING_LEN)
           (FLEX_PADDING_LEN - (ZERO_BYTES C - MAC_BYTES C)) in
     bindr (flex_buffer_backward_offset buf (ZERO_BYTES C - MAC_BYTES C)) (\<lambda>(_, buf).
     bindr (flex_buffer_ptr buf (unat (flex_buffer_size buf))) (\<lambda>cipher.
     let (plain_len, plain) = crypto_decrypt2 C key nonce cipher in
     bindr (flex_buffer_mutable_ptr plain_buf plain) (\<lambda>plain_buf.
     bindr (flex_buffer_forward_offset buf (ZERO_BYTES C - MAC_BYTES C)) (\<lambda>(_, buf).
     if plain_len \<le> 0 then Inr s
     else
       (let plain_buf = flex_buffer_set_size plain_buf (of_int plain_len) in
        bindr (flex_buffer_forward_offset plain_buf (ZERO_BYTES C)) (\<lambda>(_, plain_buf).
        prev_on_data s plain_buf)))))))"

section \<open>What arrives is what was written\<close>

text \<open>A new buffer that is filled by the library.\<close>

lemma filled_buffer:
  assumes "unat off + length bs \<le> unat cap"
  shows "\<exists>b. flex_buffer_mutable_ptr (flex_buffer_alloca junk cap off) bs = Inr b \<and>
    flex_ok (flex_buffer_set_size b (of_int (int (length bs)))) \<and>
    flex_data (flex_buffer_set_size b (of_int (int (length bs)))) = bs \<and> fb_offset b = off \<and> fb_capacity b = cap"
proof -
  have "unat cap < 2 ^ 64" using unsigned_less [of cap] by simp
  then have "length bs < 2 ^ 64" using assms by simp
  then have "unat (of_nat (length bs) :: u64) = length bs" by (intro unat_of_nat_small) simp
  with assms show ?thesis
    by (auto simp: flex_buffer_mutable_ptr_def flex_buffer_alloca_def flex_buffer_set_size_def blk_write_def flex_ok_def
        flex_data_def intro!: nth_equalityI)
qed

lemma crypto_okD:
  assumes "crypto_ok C"
  shows "unat (ZERO_BYTES C - MAC_BYTES C) = unat (ZERO_BYTES C) - unat (MAC_BYTES C)"
    "unat (MAC_BYTES C) \<le> unat (ZERO_BYTES C)" "0 < unat (ZERO_BYTES C)" "unat (ZERO_BYTES C) \<le> 128"
    "ZERO_BYTES C - MAC_BYTES C \<le> ZERO_BYTES C" "ZERO_BYTES C \<le> FLEX_PADDING_LEN"
proof -
  show "unat (ZERO_BYTES C - MAC_BYTES C) = unat (ZERO_BYTES C) - unat (MAC_BYTES C)"
    using assms by (intro unat_sub_le) (simp add: crypto_ok_def)
  then show "ZERO_BYTES C - MAC_BYTES C \<le> ZERO_BYTES C" by (simp add: word_le_nat_alt)
qed (use assms in \<open>simp_all add: crypto_ok_def word_le_nat_alt word_less_nat_alt FLEX_PADDING_LEN_def\<close>)

lemma unat_room: "unat (n :: u64) < 2 ^ 32 \<Longrightarrow> unat (n + FLEX_PADDING_LEN) = unat n + 128"
  by (simp add: FLEX_PADDING_LEN_def unat_word_ariths)

lemma unat_padding: "n \<le> FLEX_PADDING_LEN \<Longrightarrow> unat (FLEX_PADDING_LEN - n) = 128 - unat n"
  by (subst unat_sub_le) (simp_all add: FLEX_PADDING_LEN_def)

text \<open>Encryption: the next handler gets the cipher text without the room in front.\<close>

lemma write_encrypts:
  assumes C: "crypto_ok C" and b: "flex_ok buf" "ZERO_BYTES C \<le> fb_offset buf" "length (flex_data buf) < 2 ^ 31"
  shows "\<exists>cb plain buf'. length plain = unat (ZERO_BYTES C) + length (flex_data buf) \<and>
    drop (unat (ZERO_BYTES C)) plain = flex_data buf \<and> flex_ok cb \<and>
    flex_data cb = drop (unat (ZERO_BYTES C - MAC_BYTES C)) (snd (crypto_encrypt2 C key nonce plain)) \<and>
    length (flex_data cb) = unat (MAC_BYTES C) + length (flex_data buf) \<and> flex_data buf' = flex_data buf \<and>
    crypto_handler_write C junk key nonce next_write s buf = bindr (next_write s cb) (\<lambda>(written, s).
      Inr (if written = int (length (flex_data cb)) then int (length (flex_data buf)) else written, buf', s))"
proof -
  note d = crypto_okD [OF C]
  from flex_backward_spec [OF b(1,2)] obtain k b1 where
    1: "flex_buffer_backward_offset buf (ZERO_BYTES C) = Inr (k, b1)" "flex_ok b1"
      "drop (unat (ZERO_BYTES C)) (flex_data b1) = flex_data buf" "unat (ZERO_BYTES C) \<le> unat (fb_size b1)"
    by (auto simp: total_def)
  let ?p = "flex_data b1"
  have lp: "length ?p = unat (ZERO_BYTES C) + length (flex_data buf)"
    using arg_cong [OF 1(3), of length] 1(4) by simp
  have enc: "fst (crypto_encrypt2 C key nonce ?p) = int (length ?p)" "length (snd (crypto_encrypt2 C key nonce ?p)) = length ?p"
    using C 1(4) by (simp_all add: crypto_ok_def)
  have sz: "unat (fb_size buf) < 2 ^ 32" using b(3) by simp
  from filled_buffer [of "FLEX_PADDING_LEN - ZERO_BYTES C" "snd (crypto_encrypt2 C key nonce ?p)" "fb_size buf + FLEX_PADDING_LEN" junk]
    enc(2) lp unat_room [OF sz] unat_padding [OF d(6)] d(4) obtain cb0 where
    2: "flex_buffer_mutable_ptr (flex_buffer_alloca junk (fb_size buf + FLEX_PADDING_LEN) (FLEX_PADDING_LEN - ZERO_BYTES C))
          (snd (crypto_encrypt2 C key nonce ?p)) = Inr cb0"
      "flex_ok (flex_buffer_set_size cb0 (of_int (int (length ?p))))"
      "flex_data (flex_buffer_set_size cb0 (of_int (int (length ?p)))) = snd (crypto_encrypt2 C key nonce ?p)"
    by auto
  define CB where "CB = flex_buffer_set_size cb0 (of_int (int (length ?p)))"
  note CB = 2(2,3) [folded CB_def]
  have lc: "unat (fb_size CB) = length ?p" using arg_cong [OF CB(2), of length] enc(2) by simp
  have "ZERO_BYTES C - MAC_BYTES C \<le> fb_size CB" using lc lp d(1) by (simp add: word_le_nat_alt)
  from flex_forward_spec [OF CB(1) this] obtain k' cb where
    3: "flex_buffer_forward_offset CB (ZERO_BYTES C - MAC_BYTES C) = Inr (k', cb)" "flex_ok cb"
      "flex_data cb = drop (unat (ZERO_BYTES C - MAC_BYTES C)) (snd (crypto_encrypt2 C key nonce ?p))"
    using CB(2) by (auto simp: total_def)
  have "ZERO_BYTES C \<le> fb_size b1" using 1(4) by (simp add: word_le_nat_alt)
  from flex_forward_spec [OF 1(2) this] obtain k'' buf' where
    4: "flex_buffer_forward_offset b1 (ZERO_BYTES C) = Inr (k'', buf')" "flex_data buf' = flex_data buf"
    using 1(3) by (auto simp: total_def)
  have l: "length (flex_data cb) = unat (MAC_BYTES C) + length (flex_data buf)"
    using arg_cong [OF 3(3), of length] enc(2) lp d(1,2) by simp
  have pos: "\<not> int (length ?p) \<le> 0" using lp d(3) by linarith
  have u: "uint (fb_size x) = int (length (flex_data x))" for x by simp
  have "crypto_handler_write C junk key nonce next_write s buf = bindr (next_write s cb) (\<lambda>(written, s).
      Inr (if written = int (length (flex_data cb)) then int (length (flex_data buf)) else written, buf', s))"
    using b(2) 1(1) 2(1) 3(1) [unfolded CB_def] 4(1) enc(1) pos flex_ptr_all [OF 1(2)] arg_cong [OF 4(2), of length]
    by (auto simp: crypto_handler_write_def flex_buffer_offset_def flex_buffer_size_def Let_def split_def u intro!: bindr_cong
        simp del: length_flex_data)
  with lp 1(3) 3(2,3) l 4(2) show ?thesis by blast
qed

text \<open>Decryption: the previous handler gets the plain text.\<close>

lemma rx_decrypts:
  assumes C: "crypto_ok C" and b: "flex_ok buf" "ZERO_BYTES C - MAC_BYTES C \<le> fb_offset buf" "length (flex_data buf) < 2 ^ 32"
    and e: "unat (ZERO_BYTES C) \<le> length plain"
      "flex_data buf = drop (unat (ZERO_BYTES C - MAC_BYTES C)) (snd (crypto_encrypt2 C key nonce plain))"
  shows "\<exists>pb. flex_ok pb \<and> flex_data pb = drop (unat (ZERO_BYTES C)) plain \<and>
    crypto_handler_on_rx_data C junk key nonce prev_on_data s buf = prev_on_data s pb"
proof -
  note d = crypto_okD [OF C]
  have lc: "length (snd (crypto_encrypt2 C key nonce plain)) = length plain" using C e(1) by (simp add: crypto_ok_def)
  from flex_backward_spec [OF b(1,2)] obtain k b1 where
    1: "flex_buffer_backward_offset buf (ZERO_BYTES C - MAC_BYTES C) = Inr (k, b1)" "flex_ok b1"
      "drop (unat (ZERO_BYTES C - MAC_BYTES C)) (flex_data b1) = flex_data buf"
      "unat (ZERO_BYTES C - MAC_BYTES C) \<le> unat (fb_size b1)"
    by (auto simp: total_def)
  let ?c = "flex_data b1"
  have l: "length ?c = length plain"
    using arg_cong [OF 1(3), of length] arg_cong [OF e(2), of length] 1(4) lc d(1,2) e(1) by simp
  have dec: "fst (crypto_decrypt2 C key nonce ?c) = int (length plain)" "length (snd (crypto_decrypt2 C key nonce ?c)) = length plain"
    "drop (unat (ZERO_BYTES C)) (snd (crypto_decrypt2 C key nonce ?c)) = drop (unat (ZERO_BYTES C)) plain"
    using C e l 1(3) unfolding crypto_ok_def by metis+
  have sz: "unat (fb_size buf) < 2 ^ 32" "length plain = unat (fb_size buf) + unat (ZERO_BYTES C - MAC_BYTES C)"
    using b(3) arg_cong [OF 1(3), of length] l 1(4) by simp_all
  have zm: "ZERO_BYTES C - MAC_BYTES C \<le> FLEX_PADDING_LEN" using d(5,6) by simp
  from filled_buffer [of "FLEX_PADDING_LEN - (ZERO_BYTES C - MAC_BYTES C)" "snd (crypto_decrypt2 C key nonce ?c)"
      "fb_size buf + FLEX_PADDING_LEN" junk] dec(2) sz unat_room [OF sz(1)] unat_padding [OF zm] d(1,4) obtain pb0 where
    2: "flex_buffer_mutable_ptr (flex_buffer_alloca junk (fb_size buf + FLEX_PADDING_LEN)
          (FLEX_PADDING_LEN - (ZERO_BYTES C - MAC_BYTES C))) (snd (crypto_decrypt2 C key nonce ?c)) = Inr pb0"
      "flex_ok (flex_buffer_set_size pb0 (of_int (int (length plain))))"
      "flex_data (flex_buffer_set_size pb0 (of_int (int (length plain)))) = snd (crypto_decrypt2 C key nonce ?c)"
    by auto
  define PB where "PB = flex_buffer_set_size pb0 (of_int (int (length plain)))"
  note PB = 2(2,3) [folded PB_def]
  have "ZERO_BYTES C \<le> fb_size PB" using arg_cong [OF PB(2), of length] dec(2) e(1) by (simp add: word_le_nat_alt)
  from flex_forward_spec [OF PB(1) this] obtain k' pb where
    3: "flex_buffer_forward_offset PB (ZERO_BYTES C) = Inr (k', pb)" "flex_ok pb" "flex_data pb = drop (unat (ZERO_BYTES C)) plain"
    using PB(2) dec(3) by (auto simp: total_def)
  have "ZERO_BYTES C - MAC_BYTES C \<le> fb_size b1" using 1(4) by (simp add: word_le_nat_alt)
  from flex_forward_spec [OF 1(2) this] obtain r where "flex_buffer_forward_offset b1 (ZERO_BYTES C - MAC_BYTES C) = Inr r"
    by (auto simp: total_def)
  moreover have "length plain > 0" using e(1) d(3) by linarith
  ultimately have "crypto_handler_on_rx_data C junk key nonce prev_on_data s buf = prev_on_data s pb"
    using b(2) 1(1) 2(1) 3(1) [unfolded PB_def] dec(1) flex_ptr_all [OF 1(2)]
    by (simp add: crypto_handler_on_rx_data_def flex_buffer_offset_def flex_buffer_size_def Let_def split_def)
  with 3(2,3) show ?thesis by blast
qed

text \<open>
  C27. Encryption is transparent. What one end writes is, after encryption by its handler and decryption by the other end's
  handler with the same key and nonce, handed to the handler above the other end, byte for byte; the
  packet on the wire is longer by the authentication code; and when the handler below takes the whole
  packet, the writer is told that its own bytes were written.
\<close>

theorem crypto_roundtrip:
  assumes "crypto_ok C" "flex_ok buf" "ZERO_BYTES C \<le> fb_offset buf" "length (flex_data buf) < 2 ^ 31"
    and "\<And>s b. next_write s b = Inr (int (length (flex_data b)), s @ [flex_data b])"
  shows "\<exists>cipher buf'. crypto_handler_write C junk key nonce next_write [] buf =
      Inr (int (length (flex_data buf)), buf', [cipher]) \<and> flex_data buf' = flex_data buf \<and>
    length cipher = unat (MAC_BYTES C) + length (flex_data buf) \<and>
    (\<forall>rx. flex_ok rx \<and> flex_data rx = cipher \<and> ZERO_BYTES C - MAC_BYTES C \<le> fb_offset rx \<longrightarrow>
      crypto_handler_on_rx_data C junk' key nonce (\<lambda>s b. Inr (s @ [flex_data b])) [] rx = Inr [flex_data buf])"
proof -
  obtain cb plain buf' where w: "length plain = unat (ZERO_BYTES C) + length (flex_data buf)"
    "drop (unat (ZERO_BYTES C)) plain = flex_data buf"
    "flex_data cb = drop (unat (ZERO_BYTES C - MAC_BYTES C)) (snd (crypto_encrypt2 C key nonce plain))"
    "length (flex_data cb) = unat (MAC_BYTES C) + length (flex_data buf)" "flex_data buf' = flex_data buf"
    "crypto_handler_write C junk key nonce next_write [] buf = bindr (next_write [] cb) (\<lambda>(written, s).
      Inr (if written = int (length (flex_data cb)) then int (length (flex_data buf)) else written, buf', s))"
    using write_encrypts [OF assms(1-4), of key nonce junk next_write "[]"] by blast
  have "crypto_handler_on_rx_data C junk' key nonce (\<lambda>s b. Inr (s @ [flex_data b])) [] rx = Inr [flex_data buf]"
    if "flex_ok rx" "flex_data rx = flex_data cb" "ZERO_BYTES C - MAC_BYTES C \<le> fb_offset rx" for rx
  proof -
    have "length (flex_data rx) < 2 ^ 32"
      unfolding that(2) w(4) using assms(4) crypto_okD(2,4) [OF assms(1)] by simp
    from rx_decrypts [OF assms(1) that(1,3) this _ that(2) [unfolded w(3)], of junk' "\<lambda>s b. Inr (s @ [flex_data b])" "[]"] w(1,2)
    show ?thesis by auto
  qed
  with w show ?thesis by (auto simp: assms(5))
qed

text \<open>A cipher for examples: a sum with the key.\<close>

definition sum_crypto :: "(byte, unit) crypto_lib" where
  "sum_crypto = \<lparr> ZERO_BYTES = 32, MAC_BYTES = 16,
     crypto_encrypt2 = (\<lambda>k n p. (int (length p), map (\<lambda>b. b + k) p)),
     crypto_decrypt2 = (\<lambda>k n c. (int (length c), map (\<lambda>b. b - k) c)) \<rparr>"

lemma sum_crypto_ok: "crypto_ok sum_crypto"
proof -
  have "map (\<lambda>b. b - k) (drop 32 c) = drop 32 p" if "drop 16 c = map (\<lambda>b. b + k) (drop 16 p)" for k :: byte and c p
  proof -
    have "drop 32 c = map (\<lambda>b. b + k) (drop 32 p)" using arg_cong [OF that, of "drop 16"] by (simp add: drop_map)
    then show ?thesis by (simp add: comp_def)
  qed
  then show ?thesis by (simp add: crypto_ok_def sum_crypto_def FLEX_PADDING_LEN_def drop_map)
qed

definition demo_buffer :: FlexBuffer where
  "demo_buffer = \<lparr> fb_capacity = 200, fb_offset = 64, fb_size = 3, fb_buffer = (\<lambda>i. of_nat i) \<rparr>"

lemma crypto_roundtrip_witness:
  "\<exists>cipher buf'. crypto_handler_write sum_crypto (\<lambda>_. 0) 5 () (\<lambda>s b. Inr (int (length (flex_data b)), s @ [flex_data b])) [] demo_buffer =
      Inr (3, buf', [cipher]) \<and> flex_data buf' = [64, 65, 66] \<and> length cipher = 19 \<and>
    (\<forall>rx. flex_ok rx \<and> flex_data rx = cipher \<and> 16 \<le> fb_offset rx \<longrightarrow>
      crypto_handler_on_rx_data sum_crypto (\<lambda>_. 0) 5 () (\<lambda>s b. Inr (s @ [flex_data b])) [] rx = Inr [[64, 65, 66]])"
proof -
  have d: "flex_data demo_buffer = [64, 65, 66]" "flex_ok demo_buffer" "fb_offset demo_buffer = 64"
    by (simp_all add: demo_buffer_def flex_data_def flex_ok_def upt_rec)
  show ?thesis
    using crypto_roundtrip [OF sum_crypto_ok d(2), of "\<lambda>s b. Inr (int (length (flex_data b)), s @ [flex_data b])" "\<lambda>_. 0" 5 "()" "\<lambda>_. 0"]
    unfolding d by (simp add: sum_crypto_def)
qed

end
