(* ===== verification/Requests.thy ===== *)
theory Requests
  imports Ela
begin

text \<open>
  Who is told of a session request: \<open>ela_session_set_callback\<close> and \<open>friend_invite\<close> of
  \<open>src/session/session.c\<close>. Callbacks are registered for prefixes of a bundle name, in a list that is
  kept in the order of decreasing length; a request goes to the first entry that fits.

  The specification is a map from prefixes to callbacks: a request goes to the longest registered
  prefix of its bundle. \<open>set_callback_abs\<close> and \<open>invite_longest\<close> relate the two.
\<close>

definition ELA_MAX_BUNDLE_LEN :: nat where "ELA_MAX_BUNDLE_LEN = 511"

record ('c, 'x) BundledRequestCallback =
  brc_callback :: "'c option"
  brc_context :: 'x
  brc_prefix :: string

record ('c, 'x) request_callbacks =
  default_callback :: "'c option"
  default_context :: "'x option"
  callbacks :: "('c, 'x) BundledRequestCallback list"

text \<open>The loop: \<open>Inl i\<close> when entry \<open>i\<close> has the prefix, \<open>Inr i\<close> when a new entry belongs at \<open>i\<close>.\<close>

fun find_slot :: "string \<Rightarrow> ('c, 'x) BundledRequestCallback list \<Rightarrow> nat \<Rightarrow> nat + nat" where
  "find_slot p [] idx = Inr idx"
| "find_slot p (brc # bs) idx =
     (if length (brc_prefix brc) = length p then
        if brc_prefix brc = p then Inl idx else find_slot p bs (idx + 1)
      else if length (brc_prefix brc) < length p then Inr idx
      else find_slot p bs (idx + 1))"

definition list_insert :: "'a list \<Rightarrow> nat \<Rightarrow> 'a \<Rightarrow> 'a list" where
  "list_insert xs i x = take i xs @ x # drop i xs"

text \<open>
  \<open>ext\<close> is \<open>None\<close> when the extension is not initialised; \<open>allocated\<close> is the outcome of \<open>rc_zalloc\<close>. The
  result has the error number that was set (0 if none), the status and the state.
\<close>

definition ela_session_set_callback ::
    "bool \<Rightarrow> ('c, 'x) request_callbacks option \<Rightarrow> string option \<Rightarrow> 'c option \<Rightarrow> 'x \<Rightarrow>
      (u32 \<times> int) \<times> ('c, 'x) request_callbacks option" where
  "ela_session_set_callback allocated ext bundle_prefix callback context =
     (if (case bundle_prefix of None \<Rightarrow> False | Some p \<Rightarrow> length p > ELA_MAX_BUNDLE_LEN) then
        ((ELA_GENERAL_ERROR ELAERR_INVALID_ARGS, -1), ext)
      else (case ext of
        None \<Rightarrow> ((ELA_GENERAL_ERROR ELAERR_NOT_EXIST, -1), ext)
      | Some e \<Rightarrow>
          if bundle_prefix = None \<or> bundle_prefix = Some [] then
            ((0, 0), Some (e\<lparr> default_callback := callback,
               default_context := (if callback \<noteq> None then Some context else None) \<rparr>))
          else
            (let p = the bundle_prefix in
             case find_slot p (callbacks e) 0 of
               Inl i \<Rightarrow>
                 (if callback \<noteq> None
                  then ((0, 0), Some (e\<lparr> callbacks := (callbacks e)[i := (callbacks e ! i)\<lparr> brc_callback := callback,
                          brc_context := context \<rparr>] \<rparr>))
                  else ((0, 0), Some (e\<lparr> callbacks := take i (callbacks e) @ drop (i + 1) (callbacks e) \<rparr>)))
             | Inr i \<Rightarrow>
                 (if \<not> allocated then ((ELA_GENERAL_ERROR ELAERR_OUT_OF_MEMORY, -1), ext)
                  else ((0, 0), Some (e\<lparr> callbacks := list_insert (callbacks e) i
                         \<lparr> brc_callback = callback, brc_context = context, brc_prefix = p \<rparr> \<rparr>))))))"

text \<open>\<open>strncmp (p, b, strlen (p)) == 0\<close>, for strings without the terminating zero.\<close>

definition strncmp_eq :: "string \<Rightarrow> string \<Rightarrow> nat \<Rightarrow> bool" where
  "strncmp_eq a b n \<longleftrightarrow> take n a = take n b"

text \<open>The callback that is called, with its context and the bundle it is given.\<close>

fun first_match :: "string \<Rightarrow> ('c, 'x) BundledRequestCallback list \<Rightarrow> ('c option \<times> 'x option) option" where
  "first_match bundle [] = None"
| "first_match bundle (brc # bs) =
     (if strncmp_eq (brc_prefix brc) bundle (length (brc_prefix brc)) then Some (brc_callback brc, Some (brc_context brc))
      else first_match bundle bs)"

definition friend_invite ::
    "('c, 'x) request_callbacks option \<Rightarrow> string option \<Rightarrow> ('c \<times> 'x option \<times> string option) option" where
  "friend_invite ext bundle =
     (case ext of
        None \<Rightarrow> None
      | Some e \<Rightarrow>
          let (callback, context, bundle) =
            (if bundle = None \<or> bundle = Some [] then (default_callback e, default_context e, None)
             else (case first_match (the bundle) (callbacks e) of
                     Some (Some c, x) \<Rightarrow> (Some c, x, bundle)
                   | _ \<Rightarrow> (default_callback e, default_context e, bundle))) in
          map_option (\<lambda>c. (c, context, bundle)) callback)"

section \<open>The specification\<close>

text \<open>The registered callbacks as a map, and the longest prefix of a name in the domain of a map.\<close>

definition registered :: "('c, 'x) request_callbacks \<Rightarrow> string \<rightharpoonup> 'c option \<times> 'x" where
  "registered e = map_of (map (\<lambda>b. (brc_prefix b, (brc_callback b, brc_context b))) (callbacks e))"

primrec longest_match :: "(string \<rightharpoonup> 'v) \<Rightarrow> string \<Rightarrow> nat \<Rightarrow> 'v option" where
  "longest_match m b 0 = m []"
| "longest_match m b (Suc n) = (case m (take (Suc n) b) of Some v \<Rightarrow> Some v | None \<Rightarrow> longest_match m b n)"

text \<open>The list is ordered by decreasing length and has each prefix once.\<close>

definition callbacks_sorted :: "('c, 'x) BundledRequestCallback list \<Rightarrow> bool" where
  "callbacks_sorted bs \<longleftrightarrow> sorted_wrt (\<lambda>a b. length (brc_prefix b) \<le> length (brc_prefix a)) bs \<and>
     distinct (map brc_prefix bs) \<and> [] \<notin> set (map brc_prefix bs)"

lemma find_slot_found:
  "find_slot p bs k = Inl i \<Longrightarrow> k \<le> i \<and> i - k < length bs \<and> brc_prefix (bs ! (i - k)) = p"
  by (induction p bs k rule: find_slot.induct) (auto split: if_splits simp: nth_Cons' Suc_diff_le)

lemma find_slot_new:
  "find_slot p bs k = Inr i \<Longrightarrow> sorted_wrt (\<lambda>a b. length (brc_prefix b) \<le> length (brc_prefix a)) bs \<Longrightarrow>
    k \<le> i \<and> i - k \<le> length bs \<and> p \<notin> set (map brc_prefix bs) \<and>
    (\<forall>b \<in> set (take (i - k) bs). length p \<le> length (brc_prefix b)) \<and>
    (\<forall>b \<in> set (drop (i - k) bs). length (brc_prefix b) < length p)"
proof (induction p bs k rule: find_slot.induct)
  case (2 p brc bs idx)
  then show ?case
    by (auto split: if_splits simp: Suc_diff_le take_Cons' drop_Cons')
qed simp

lemma map_of_split: "distinct (map fst (xs @ (k, v) # ys)) \<Longrightarrow> (map_of (xs @ (k, v) # ys)) = (map_of (xs @ ys))(k \<mapsto> v)"
  by (induction xs) (auto simp: fun_eq_iff)

abbreviation entry :: "('c, 'x) BundledRequestCallback \<Rightarrow> string \<times> 'c option \<times> 'x" where
  "entry b \<equiv> (brc_prefix b, (brc_callback b, brc_context b))"

text \<open>The map after each branch of \<open>ela_session_set_callback\<close>.\<close>

lemma map_of_middle:
  assumes "distinct (map brc_prefix (xs @ b # ys))"
  shows "map_of (map entry (xs @ b # ys)) = (map_of (map entry (xs @ ys)))(brc_prefix b \<mapsto> (brc_callback b, brc_context b))"
  using map_of_split [of "map entry xs" "brc_prefix b" "(brc_callback b, brc_context b)" "map entry ys"] assms
  by (simp add: comp_def)

lemma map_of_absent: "p \<notin> set (map brc_prefix bs) \<Longrightarrow> map_of (map entry bs) p = None"
  by (auto simp: map_of_eq_None_iff)

lemma set_callback_ok:
  assumes "callbacks_sorted (callbacks e)" "p \<noteq> []" "length p \<le> ELA_MAX_BUNDLE_LEN"
  shows "\<exists>e'. ela_session_set_callback True (Some e) (Some p) cb x = ((0, 0), Some e') \<and> callbacks_sorted (callbacks e') \<and>
    registered e' = (if cb = None \<and> registered e p \<noteq> None then (registered e)(p := None) else (registered e)(p \<mapsto> (cb, x))) \<and>
    default_callback e' = default_callback e \<and> default_context e' = default_context e"
proof (cases "find_slot p (callbacks e) 0")
  case (Inl i)
  then have i: "i < length (callbacks e)" "brc_prefix (callbacks e ! i) = p" using find_slot_found [of p "callbacks e" 0 i] by auto
  let ?b = "callbacks e ! i"
  let ?xs = "take i (callbacks e)" and ?ys = "drop (Suc i) (callbacks e)"
  have split: "callbacks e = ?xs @ ?b # ?ys" using i(1) by (simp add: id_take_nth_drop)
  have ok: "callbacks_sorted (?xs @ ?b # ?ys)" using assms(1) split by simp
  then have d: "distinct (map brc_prefix (?xs @ ?b # ?ys))" by (simp add: callbacks_sorted_def)
  have m: "registered e = (map_of (map entry (?xs @ ?ys)))(p \<mapsto> (brc_callback ?b, brc_context ?b))"
    unfolding registered_def by (subst split, subst map_of_middle [OF d]) (simp add: i(2))
  have ab: "map_of (map entry (?xs @ ?ys)) p = None"
    using d i(2) by (intro map_of_absent) auto
  show ?thesis
  proof (cases cb)
    case None
    have "callbacks_sorted (?xs @ ?ys)" using ok by (auto simp: callbacks_sorted_def sorted_wrt_append)
    moreover have "(registered e)(p := None) = map_of (map entry (?xs @ ?ys))"
      unfolding m using ab by (simp only: fun_upd_upd) (rule fun_upd_idem)
    ultimately show ?thesis
      using Inl None assms(2,3) m by (simp add: ela_session_set_callback_def registered_def)
  next
    case (Some c)
    let ?b' = "?b\<lparr> brc_callback := Some c, brc_context := x \<rparr>"
    have u: "(callbacks e)[i := ?b'] = ?xs @ ?b' # ?ys" using i(1) by (simp add: upd_conv_take_nth_drop)
    have "callbacks_sorted (?xs @ ?b' # ?ys)" using ok by (simp add: callbacks_sorted_def sorted_wrt_append)
    moreover from this have "map_of (map entry (?xs @ ?b' # ?ys)) = (map_of (map entry (?xs @ ?ys)))(p \<mapsto> (Some c, x))"
      using i(2) by (subst map_of_middle) (simp_all add: callbacks_sorted_def)
    ultimately show ?thesis
      using Inl Some assms(2,3) m by (simp add: ela_session_set_callback_def registered_def u)
  qed
next
  case (Inr i)
  let ?b = "\<lparr> brc_callback = cb, brc_context = x, brc_prefix = p \<rparr>"
  have n: "i \<le> length (callbacks e)" "p \<notin> set (map brc_prefix (callbacks e))"
    "\<forall>b \<in> set (take i (callbacks e)). length p \<le> length (brc_prefix b)"
    "\<forall>b \<in> set (drop i (callbacks e)). length (brc_prefix b) < length p"
    using find_slot_new [OF Inr] assms(1) by (auto simp: callbacks_sorted_def)
  have ok: "callbacks_sorted (take i (callbacks e) @ ?b # drop i (callbacks e))"
  proof -
    define xs where "xs = take i (callbacks e)"
    define ys where "ys = drop i (callbacks e)"
    have s: "callbacks e = xs @ ys" by (simp add: xs_def ys_def)
    have "callbacks_sorted (xs @ ys)" "p \<notin> set (map brc_prefix (xs @ ys))" using assms(1) n(2) by (simp_all only: s not_False_eq_True)
    with assms(2) n(3,4) [folded xs_def ys_def] show ?thesis
      unfolding xs_def [symmetric] ys_def [symmetric] by (auto simp: callbacks_sorted_def sorted_wrt_append less_imp_le)
  qed
  then have "map_of (map entry (take i (callbacks e) @ ?b # drop i (callbacks e))) = (registered e)(p \<mapsto> (cb, x))"
    by (subst map_of_middle) (simp_all add: callbacks_sorted_def registered_def)
  moreover have "registered e p = None" unfolding registered_def by (rule map_of_absent [OF n(2)])
  ultimately show ?thesis
    using Inr assms(2,3) ok by (simp add: ela_session_set_callback_def registered_def list_insert_def)
qed

text \<open>The first entry that fits is the longest prefix.\<close>

lemma longest_match_mono:
  "(\<And>k. k \<le> n \<Longrightarrow> m (take k b) = m' (take k b)) \<Longrightarrow> longest_match m b n = longest_match m' b n"
proof (induction n)
  case (Suc n)
  then show ?case using Suc.prems [of "Suc n"] by (auto split: option.split)
qed simp

lemma longest_match_shorter:
  assumes "l \<le> n" "\<And>k. l < k \<Longrightarrow> k \<le> n \<Longrightarrow> m (take k b) = None"
  shows "longest_match m b n = longest_match m b l"
  using assms by (induction n) (auto simp: le_Suc_eq)

lemma longest_match_hit: "m (take n b) = Some v \<Longrightarrow> longest_match m b n = Some v"
  by (cases n) auto

lemma first_match_longest:
  assumes "callbacks_sorted bs"
  shows "first_match b bs = map_option (\<lambda>(c, x). (c, Some x)) (longest_match (map_of (map entry bs)) b (length b))"
  using assms
proof (induction bs)
  case Nil
  have "longest_match Map.empty b n = None" for n by (induction n) auto
  then show ?case by simp
next
  case (Cons brc bs)
  let ?m = "map_of (map entry (brc # bs))"
  let ?l = "length (brc_prefix brc)"
  have ok: "callbacks_sorted bs" using Cons.prems by (simp add: callbacks_sorted_def)
  have le: "\<forall>c \<in> set bs. length (brc_prefix c) \<le> ?l" using Cons.prems by (auto simp: callbacks_sorted_def)
  show ?case
  proof (cases "take ?l b = brc_prefix brc")
    case True
    then have l: "?l \<le> length b" by (metis length_take min.absorb_iff1 min.commute)
    have "?m (take k b) = None" if "?l < k" "k \<le> length b" for k
    proof (rule map_of_absent)
      have "length (brc_prefix c) \<noteq> length (take k b)" if "c \<in> set (brc # bs)" for c
        using le that \<open>?l < k\<close> \<open>k \<le> length b\<close> by (auto simp: min_def)
      then show "take k b \<notin> set (map brc_prefix (brc # bs))" by (metis imageE set_map)
    qed
    then have "longest_match ?m b (length b) = longest_match ?m b ?l" by (rule longest_match_shorter [OF l])
    also have "\<dots> = Some (brc_callback brc, brc_context brc)" by (rule longest_match_hit) (simp add: True)
    finally have eq: "longest_match ?m b (length b) = Some (brc_callback brc, brc_context brc)" .
    show ?thesis unfolding eq using True by (simp add: strncmp_eq_def)
  next
    case False
    have eq: "longest_match ?m b (length b) = longest_match (map_of (map entry bs)) b (length b)"
    proof (rule longest_match_mono)
      fix k
      assume "k \<le> length b"
      then have "take k b \<noteq> brc_prefix brc" using False by (metis length_take min.absorb2)
      then show "?m (take k b) = map_of (map entry bs) (take k b)" by simp
    qed
    show ?thesis unfolding eq using False Cons.IH [OF ok] by (simp add: strncmp_eq_def)
  qed
qed

section \<open>Routing of requests\<close>

text \<open>A sequence of registrations, in the code and in the specification.\<close>

fun set_callbacks :: "('c, 'x) request_callbacks \<Rightarrow> (string \<times> 'c option \<times> 'x) list \<Rightarrow> ('c, 'x) request_callbacks" where
  "set_callbacks e [] = e"
| "set_callbacks e ((p, cb, x) # cs) = set_callbacks (the (snd (ela_session_set_callback True (Some e) (Some p) cb x))) cs"

fun registrations :: "(string \<rightharpoonup> 'c option \<times> 'x) \<Rightarrow> (string \<times> 'c option \<times> 'x) list \<Rightarrow> string \<rightharpoonup> 'c option \<times> 'x" where
  "registrations m [] = m"
| "registrations m ((p, cb, x) # cs) =
     registrations (if cb = None \<and> m p \<noteq> None then m(p := None) else m(p \<mapsto> (cb, x))) cs"

lemma set_callbacks_registered:
  assumes "callbacks_sorted (callbacks e)" "\<forall>(p, cb, x) \<in> set cs. p \<noteq> [] \<and> length p \<le> ELA_MAX_BUNDLE_LEN"
  shows "callbacks_sorted (callbacks (set_callbacks e cs)) \<and> registered (set_callbacks e cs) = registrations (registered e) cs \<and>
    default_callback (set_callbacks e cs) = default_callback e \<and> default_context (set_callbacks e cs) = default_context e"
  using assms
proof (induction cs arbitrary: e)
  case (Cons c cs)
  obtain p cb x where c: "c = (p, cb, x)" by (cases c)
  from set_callback_ok [OF Cons.prems(1), of p cb x] Cons.prems(2) obtain e' where
    "ela_session_set_callback True (Some e) (Some p) cb x = ((0, 0), Some e')" "callbacks_sorted (callbacks e')"
    "registered e' = (if cb = None \<and> registered e p \<noteq> None then (registered e)(p := None) else (registered e)(p \<mapsto> (cb, x)))"
    "default_callback e' = default_callback e" "default_context e' = default_context e"
    by (auto simp: c)
  then show ?case using Cons.IH [of e'] Cons.prems(2) by (simp add: c)
qed simp

text \<open>
  C19. A request goes to the callback registered for the longest prefix of its bundle, and to the default callback when no
  prefix is registered (or when the longest one has no callback); whatever callbacks were registered, replaced and
  removed before, in any order.
\<close>

theorem invite_longest:
  assumes "callbacks e = []" "\<forall>(p, cb, x) \<in> set cs. p \<noteq> [] \<and> length p \<le> ELA_MAX_BUNDLE_LEN" "bundle \<noteq> []"
  shows "friend_invite (Some (set_callbacks e cs)) (Some bundle) =
    (case longest_match (registrations Map.empty cs) bundle (length bundle) of
       Some (Some c, x) \<Rightarrow> Some (c, Some x, Some bundle)
     | _ \<Rightarrow> map_option (\<lambda>c. (c, default_context e, Some bundle)) (default_callback e))"
proof -
  have e: "callbacks_sorted (callbacks e)" "registered e = Map.empty" using assms(1) by (simp_all add: callbacks_sorted_def registered_def)
  note s = set_callbacks_registered [OF e(1) assms(2)]
  show ?thesis
    using s first_match_longest [of "callbacks (set_callbacks e cs)" "bundle"] assms(3) e(2)
    by (auto simp: friend_invite_def registered_def split: option.split)
qed

definition no_requests :: "(nat, nat) request_callbacks" where
  "no_requests = \<lparr> default_callback = Some 9, default_context = Some 0, callbacks = [] \<rparr>"

lemma invite_longest_witness:
  "friend_invite (Some (set_callbacks no_requests [(''a'', Some 1, 10), (''abc'', Some 2, 20), (''ab'', Some 3, 30), (''abc'', None, 0)]))
     (Some ''abcd'') = Some (3, Some 30, Some ''abcd'')"
  by (subst invite_longest) (simp_all add: no_requests_def ELA_MAX_BUNDLE_LEN_def)

text \<open>
  Removing a callback that was never registered is not a no-op: the code enters the prefix with no callback, which hides
  the shorter prefixes that fit. Here a request for \<open>abcd\<close>, for which the prefix \<open>a\<close> is registered, goes to the
  default callback after \<open>ela_session_set_callback\<close> with the prefix \<open>abc\<close> and a NULL callback.
\<close>

theorem remove_hides_prefix:
  "friend_invite (Some (set_callbacks no_requests [(''a'', Some 1, 10)])) (Some ''abcd'') = Some (1, Some 10, Some ''abcd'') \<and>
   friend_invite (Some (set_callbacks no_requests [(''a'', Some 1, 10), (''abc'', None, 0)])) (Some ''abcd'') =
     Some (9, Some 0, Some ''abcd'')"
  by (simp add: no_requests_def ela_session_set_callback_def friend_invite_def list_insert_def ELA_MAX_BUNDLE_LEN_def strncmp_eq_def)

end
