(* ===== verification/Handlers.thy ===== *)
theory Handlers
  imports Prelude
begin

text \<open>
  The pipeline of stream handlers, \<open>src/session/stream_handler.h\<close>: handlers are objects linked in both
  directions. A pipeline of handlers is a heap of nodes; \<open>chain\<close> is its abstraction, the list of
  handlers from the top to the bottom.
\<close>

type_synonym haddr = nat

record StreamHandler =
  h_prev :: "haddr option"
  h_next :: "haddr option"

type_synonym handlers = "haddr \<rightharpoonup> StreamHandler"

definition get_handler :: "handlers \<Rightarrow> haddr \<Rightarrow> StreamHandler res" where
  "get_handler g a = (case g a of None \<Rightarrow> Inl BadPointer | Some h \<Rightarrow> Inr h)"

definition upd_handler :: "handlers \<Rightarrow> haddr \<Rightarrow> (StreamHandler \<Rightarrow> StreamHandler) \<Rightarrow> handlers res" where
  "upd_handler g a f = bindr (get_handler g a) (\<lambda>h. Inr (g(a \<mapsto> f h)))"

text \<open>Each assignment of the code is one update, in the order of the code.\<close>

definition handler_connect :: "handlers \<Rightarrow> haddr \<Rightarrow> haddr \<Rightarrow> handlers res" where
  "handler_connect g handler next =
     bindr (get_handler g handler) (\<lambda>h.
     bindr (upd_handler g next (\<lambda>n. n\<lparr> h_next := h_next h \<rparr>)) (\<lambda>g.
     bindr (upd_handler g next (\<lambda>n. n\<lparr> h_prev := Some handler \<rparr>)) (\<lambda>g.
     bindr (get_handler g handler) (\<lambda>h.
     bindr (case h_next h of None \<Rightarrow> Inr g | Some c \<Rightarrow> upd_handler g c (\<lambda>n. n\<lparr> h_prev := Some next \<rparr>)) (\<lambda>g.
     upd_handler g handler (\<lambda>h. h\<lparr> h_next := Some next \<rparr>))))))"

definition handler_disconnect :: "handlers \<Rightarrow> haddr \<Rightarrow> (haddr option \<times> handlers) res" where
  "handler_disconnect g handler =
     bindr (get_handler g handler) (\<lambda>h.
     bindr (case h_prev h of None \<Rightarrow> Inr g | Some p \<Rightarrow> upd_handler g p (\<lambda>n. n\<lparr> h_next := h_next h \<rparr>)) (\<lambda>g.
     bindr (get_handler g handler) (\<lambda>h'.
     bindr (case h_next h' of None \<Rightarrow> Inr g | Some c \<Rightarrow> upd_handler g c (\<lambda>n. n\<lparr> h_prev := h_prev h' \<rparr>)) (\<lambda>g.
     bindr (upd_handler g handler (\<lambda>n. n\<lparr> h_next := None \<rparr>)) (\<lambda>g.
     bindr (upd_handler g handler (\<lambda>n. n\<lparr> h_prev := None \<rparr>)) (\<lambda>g.
     Inr (h_next h, g)))))))"

section \<open>Pipelines as lists\<close>

text \<open>\<open>chain g p xs n\<close>: the handlers \<open>xs\<close> are linked in this order, between the neighbours \<open>p\<close> and \<open>n\<close>.\<close>

fun chain :: "handlers \<Rightarrow> haddr option \<Rightarrow> haddr list \<Rightarrow> haddr option \<Rightarrow> bool" where
  "chain g p [] n = True"
| "chain g p (x # xs) n \<longleftrightarrow> g x = Some \<lparr> h_prev = p, h_next = (case xs of [] \<Rightarrow> n | y # ys \<Rightarrow> Some y) \<rparr> \<and>
     chain g (Some x) xs n"

definition pipeline :: "handlers \<Rightarrow> haddr list \<Rightarrow> bool" where
  "pipeline g xs \<longleftrightarrow> chain g None xs None \<and> distinct xs"

lemma chain_upd: "x \<notin> set xs \<Longrightarrow> chain (g(x \<mapsto> h)) p xs n = chain g p xs n"
  by (induction xs arbitrary: p) auto

lemma chain_first: "chain g p (x # xs) n \<Longrightarrow> x \<notin> set xs \<Longrightarrow>
    chain (g(x \<mapsto> \<lparr> h_prev = q, h_next = (case xs of [] \<Rightarrow> n | y # ys \<Rightarrow> Some y) \<rparr>)) q (x # xs) n"
  by (simp add: chain_upd)

text \<open>The links at the end of a chain.\<close>

lemma chain_append:
  "chain g p (xs @ y # ys) n \<longleftrightarrow> chain g p xs (Some y) \<and> chain g (if xs = [] then p else Some (last xs)) (y # ys) n"
proof (induction xs arbitrary: p)
  case (Cons x xs)
  then show ?case by (cases xs) (simp_all del: chain.simps add: chain.simps(2) [of _ _ x])
qed simp

lemma chain_last:
  assumes "chain g p (xs @ [x]) n" "x \<notin> set xs"
  shows "chain (g(x \<mapsto> \<lparr> h_prev = (if xs = [] then p else Some (last xs)), h_next = m \<rparr>)) p (xs @ [x]) m"
  using assms by (simp add: chain_append chain_upd)

lemma connect_chain:
  assumes "chain g p (xs @ a # ys) None" "distinct (xs @ a # ys)" "b \<notin> set (xs @ a # ys)" "g b \<noteq> None"
  shows "\<exists>g'. handler_connect g a b = Inr g' \<and> chain g' p (xs @ a # b # ys) None"
proof -
  obtain hb where hb: "g b = Some hb" using assms(4) by blast
  let ?p = "if xs = [] then p else Some (last xs)"
  have a: "g a = Some \<lparr> h_prev = ?p, h_next = (case ys of [] \<Rightarrow> None | y # _ \<Rightarrow> Some y) \<rparr>" "chain g (Some a) ys None"
    "chain g p xs (Some a)"
    using assms(1) by (simp_all add: chain_append)
  show ?thesis
  proof (cases ys)
    case Nil
    then show ?thesis
      using a hb assms(2,3)
      by (auto simp: handler_connect_def get_handler_def upd_handler_def chain_append chain_upd)
  next
    case (Cons c cs)
    then show ?thesis
      using a hb assms(2,3)
      by (auto simp: handler_connect_def get_handler_def upd_handler_def chain_append chain_upd)
  qed
qed

lemma disconnect_chain:
  assumes "chain g None (xs @ a # ys) None" "distinct (xs @ a # ys)"
  shows "\<exists>g'. handler_disconnect g a = Inr (case ys of [] \<Rightarrow> None | y # _ \<Rightarrow> Some y, g') \<and>
    chain g' None (xs @ ys) None \<and> g' a = Some \<lparr> h_prev = None, h_next = None \<rparr>"
proof -
  have a: "g a = Some \<lparr> h_prev = (if xs = [] then None else Some (last xs)), h_next = (case ys of [] \<Rightarrow> None | y # _ \<Rightarrow> Some y) \<rparr>"
    "chain g (Some a) ys None" "chain g None xs (Some a)"
    using assms(1) by (simp_all add: chain_append)
  show ?thesis
  proof (cases xs rule: rev_cases)
    case Nil
    then show ?thesis
      using a assms(2)
      by (cases ys) (auto simp: handler_disconnect_def get_handler_def upd_handler_def chain_upd)
  next
    case (snoc ws w)
    have w: "g w = Some \<lparr> h_prev = (if ws = [] then None else Some (last ws)), h_next = Some a \<rparr>" "chain g None ws (Some w)"
      using a(3) snoc by (simp_all add: chain_append)
    show ?thesis
      using a w assms(2) snoc
      by (cases ys) (auto simp: handler_disconnect_def get_handler_def upd_handler_def chain_append chain_upd)
  qed
qed

text \<open>
  \<open>handler_connect\<close> inserts a handler into a pipeline right below the given one, and \<open>handler_disconnect\<close> takes it
  out again: in the list of handlers from top to bottom, and with the links of both directions in order.
\<close>

theorem connect_disconnect:
  assumes "pipeline g (xs @ a # ys)" "b \<notin> set (xs @ a # ys)" "g b \<noteq> None"
  shows "\<exists>g' g''. handler_connect g a b = Inr g' \<and> pipeline g' (xs @ a # b # ys) \<and>
    handler_disconnect g' b = Inr (case ys of [] \<Rightarrow> None | y # _ \<Rightarrow> Some y, g'') \<and> pipeline g'' (xs @ a # ys)"
proof -
  obtain g' where g': "handler_connect g a b = Inr g'" "chain g' None ((xs @ [a]) @ b # ys) None"
    using connect_chain [of g None xs a ys b] assms by (auto simp: pipeline_def)
  obtain g'' where "handler_disconnect g' b = Inr (case ys of [] \<Rightarrow> None | y # _ \<Rightarrow> Some y, g'')"
    "chain g'' None ((xs @ [a]) @ ys) None"
    using disconnect_chain [OF g'(2)] assms by (auto simp: pipeline_def)
  with g' assms show ?thesis by (auto simp: pipeline_def)
qed

lemma connect_disconnect_witness:
  "\<exists>g' g''. handler_connect [0 \<mapsto> \<lparr> h_prev = None, h_next = Some 1 \<rparr>, 1 \<mapsto> \<lparr> h_prev = Some 0, h_next = None \<rparr>,
        2 \<mapsto> \<lparr> h_prev = None, h_next = None \<rparr>] 0 2 = Inr g' \<and> pipeline g' [0, 2, 1] \<and>
      handler_disconnect g' 2 = Inr (Some 1, g'') \<and> pipeline g'' [0, 1]"
  using connect_disconnect [of "[0 \<mapsto> \<lparr> h_prev = None, h_next = Some 1 \<rparr>, 1 \<mapsto> \<lparr> h_prev = Some 0, h_next = None \<rparr>,
      2 \<mapsto> \<lparr> h_prev = None, h_next = None \<rparr>]" "[]" 0 "[1]" 2]
  by (simp add: pipeline_def)

end
