(* ===== verification/Session.thy ===== *)
theory Session
  imports Mux_Run Handlers Requests
begin

text \<open>
  Sessions and their streams: the stream functions of \<open>src/session/session.c\<close> and the creation of streams in
  \<open>src/session/ice.c\<close>. A stream is a reference-counted object: the list of the session has one reference, a
  running function another. Its pipeline is a chain of handlers (theory \<open>Handlers\<close>); its multiplexer, if it
  has one, is that of theory \<open>Mux\<close>, and the channel functions call it.

  What lies below the pipeline (ICE) and the outcome of allocations are functions of the environment
  \<open>session_env\<close>. The last error number is a field of the state.
\<close>

section \<open>Data\<close>

datatype ElaStreamType =
    ElaStreamType_audio | ElaStreamType_video | ElaStreamType_text | ElaStreamType_application | ElaStreamType_message

definition ELA_STREAM_COMPRESS :: u32 where "ELA_STREAM_COMPRESS = 0x01"
definition ELA_STREAM_PLAIN :: u32 where "ELA_STREAM_PLAIN = 0x02"
definition ELA_STREAM_RELIABLE :: u32 where "ELA_STREAM_RELIABLE = 0x04"
definition ELA_STREAM_MULTIPLEXING :: u32 where "ELA_STREAM_MULTIPLEXING = 0x08"
definition ELA_STREAM_PORT_FORWARDING :: u32 where "ELA_STREAM_PORT_FORWARDING = 0x10"

definition MAX_STREAM_ID :: int where "MAX_STREAM_ID = 256"

text \<open>The handlers of a stream: the stream itself, and the objects that its creation may add.\<close>

definition root_handler :: haddr where "root_handler = 0"
definition ice_handler :: haddr where "ice_handler = 1"
definition mux_handler :: haddr where "mux_handler = 2"
definition reliable_handler :: haddr where "reliable_handler = 3"
definition crypto_handler :: haddr where "crypto_handler = 4"

lemmas handler_names = root_handler_def ice_handler_def mux_handler_def reliable_handler_def crypto_handler_def

text \<open>\<open>st_state\<close> is \<open>None\<close> for the value 0, which is no state.\<close>

record ('h, 'i) ElaStream =
  st_handlers :: handlers
  st_mux :: "('h, 'i) mux option"
  st_id :: int
  st_type :: ElaStreamType
  st_state :: "ElaStreamState option"
  st_compress :: bool
  st_unencrypt :: bool
  st_reliable :: bool
  st_multiplexing :: bool
  st_portforwarding :: bool
  st_deactivate :: bool
  st_refs :: nat

definition no_links :: StreamHandler where "no_links = \<lparr> h_prev = None, h_next = None \<rparr>"

definition zero_stream :: "('h, 'i) ElaStream" where
  "zero_stream = \<lparr> st_handlers = [root_handler \<mapsto> no_links], st_mux = None, st_id = 0, st_type = ElaStreamType_audio,
     st_state = None, st_compress = False, st_unencrypt = False, st_reliable = False, st_multiplexing = False,
     st_portforwarding = False, st_deactivate = False, st_refs = 1 \<rparr>"

record Service =
  svc_name :: string
  svc_protocol :: int
  svc_host :: string
  svc_port :: string

record ('h, 'i, 'j, 'v) session =
  ss_streams :: "addr list"
  ss_heap :: "addr \<rightharpoonup> ('h, 'i) ElaStream"
  ss_next :: addr
  ss_ids :: 'j
  ss_error :: u32
  ss_crypto_enabled :: bool
  ss_services :: "'v option"

record ('h, 'i, 'j, 'v) session_env =
  se_ids :: "'j ids_ops"
  se_svctab :: "('v, string, Service) hashtable_ops"
  se_alloc :: "('h, 'i, 'j, 'v) session \<Rightarrow> bool"
  se_ice_handler_create :: "('h, 'i, 'j, 'v) session \<Rightarrow> int"
  se_muxenv :: "bool \<Rightarrow> bool \<Rightarrow> ('h, 'i) mux_env"
  se_mux_alloc :: "('h, 'i, 'j, 'v) session \<Rightarrow> bool \<times> 'h option \<times> (int \<times> 'i) \<times> int"
  se_reliable_create :: "('h, 'i, 'j, 'v) session \<Rightarrow> int"
  se_crypto_create :: "('h, 'i, 'j, 'v) session \<Rightarrow> int"
  se_init :: "('h, 'i, 'j, 'v) session \<Rightarrow> int"
  se_write :: "('h, 'i, 'j, 'v) session \<Rightarrow> addr \<Rightarrow> FlexBuffer \<Rightarrow> int"
  se_get_info :: "('h, 'i, 'j, 'v) session \<Rightarrow> addr \<Rightarrow> int"
  se_junk :: "nat \<Rightarrow> byte"

definition set_err :: "('h, 'i, 'j, 'v) session \<Rightarrow> u32 \<Rightarrow> ('h, 'i, 'j, 'v) session" where
  "set_err s e = s\<lparr> ss_error := e \<rparr>"

definition set_err_rc :: "('h, 'i, 'j, 'v) session \<Rightarrow> int \<Rightarrow> ('h, 'i, 'j, 'v) session" where
  "set_err_rc s rc = set_err s (of_int rc)"

section \<open>Streams as objects\<close>

definition get_str :: "('h, 'i, 'j, 'v) session \<Rightarrow> addr \<Rightarrow> ('h, 'i) ElaStream res" where
  "get_str s a = (case ss_heap s a of None \<Rightarrow> Inl BadPointer | Some st \<Rightarrow> Inr st)"

definition mod_str :: "('h, 'i, 'j, 'v) session \<Rightarrow> addr \<Rightarrow> (('h, 'i) ElaStream \<Rightarrow> ('h, 'i) ElaStream) \<Rightarrow>
    ('h, 'i, 'j, 'v) session res" where
  "mod_str s a f = bindr (get_str s a) (\<lambda>st. Inr (s\<lparr> ss_heap := (ss_heap s)(a \<mapsto> f st) \<rparr>))"

definition str_ref :: "('h, 'i, 'j, 'v) session \<Rightarrow> addr \<Rightarrow> ('h, 'i, 'j, 'v) session res" where
  "str_ref s a = mod_str s a (\<lambda>st. st\<lparr> st_refs := st_refs st + 1 \<rparr>)"

definition stream_base_destroy ::
    "('h, 'i, 'j, 'v) session_env \<Rightarrow> ('h, 'i, 'j, 'v) session \<Rightarrow> ('h, 'i) ElaStream \<Rightarrow> ('h, 'i, 'j, 'v) session" where
  "stream_base_destroy env s st =
     (if st_id st > 0 then s\<lparr> ss_ids := ids_heap_free (se_ids env) (ss_ids s) (st_id st) \<rparr> else s)"

definition str_deref :: "('h, 'i, 'j, 'v) session_env \<Rightarrow> ('h, 'i, 'j, 'v) session \<Rightarrow> addr \<Rightarrow> ('h, 'i, 'j, 'v) session res" where
  "str_deref env s a =
     bindr (get_str s a) (\<lambda>st.
     if st_refs st \<le> 1 then Inr ((stream_base_destroy env s st)\<lparr> ss_heap := (ss_heap s)(a := None) \<rparr>)
     else Inr (s\<lparr> ss_heap := (ss_heap s)(a \<mapsto> st\<lparr> st_refs := st_refs st - 1 \<rparr>) \<rparr>))"

text \<open>\<open>ice_session_create_stream\<close>: the new stream, with the ICE handler below it.\<close>

definition connect_in :: "('h, 'i, 'j, 'v) session \<Rightarrow> addr \<Rightarrow> haddr \<Rightarrow> haddr \<Rightarrow> ('h, 'i, 'j, 'v) session res" where
  "connect_in s a prev handler =
     bindr (get_str s a) (\<lambda>st.
     bindr (handler_connect ((st_handlers st)(handler \<mapsto> no_links)) prev handler) (\<lambda>g.
     mod_str s a (\<lambda>st. st\<lparr> st_handlers := g \<rparr>)))"

definition ice_session_create_stream ::
    "('h, 'i, 'j, 'v) session_env \<Rightarrow> ('h, 'i, 'j, 'v) session \<Rightarrow> (int \<times> addr \<times> ('h, 'i, 'j, 'v) session) res" where
  "ice_session_create_stream env s =
     (if \<not> se_alloc env s then Inr (general_err ELAERR_OUT_OF_MEMORY, 0, s)
      else
        (let a = ss_next s; s = s\<lparr> ss_heap := (ss_heap s)(a \<mapsto> zero_stream), ss_next := ss_next s + 1 \<rparr>;
             rc = se_ice_handler_create env s in
         if rc \<noteq> 0 then bindr (str_deref env s a) (\<lambda>s. Inr (rc, 0, s))
         else bindr (connect_in s a root_handler ice_handler) (\<lambda>s. Inr (0, a, s))))"

section \<open>Adding and removing streams\<close>

text \<open>The way out when a handler cannot be created.\<close>

definition add_failed where
  "add_failed env s a rc = bindr (str_deref env s a) (\<lambda>s. Inr (-1 :: int, set_err_rc s rc))"

definition stream_options :: "u32 \<Rightarrow> ElaStreamType \<Rightarrow> ('h, 'i) ElaStream \<Rightarrow> ('h, 'i) ElaStream" where
  "stream_options options type st = st\<lparr> st_type := type, st_state := None,
     st_compress := (options AND ELA_STREAM_COMPRESS \<noteq> 0), st_unencrypt := (options AND ELA_STREAM_PLAIN \<noteq> 0),
     st_reliable := (options AND ELA_STREAM_RELIABLE \<noteq> 0),
     st_multiplexing := (options AND ELA_STREAM_MULTIPLEXING \<noteq> 0 \<or> options AND ELA_STREAM_PORT_FORWARDING \<noteq> 0),
     st_portforwarding := (options AND ELA_STREAM_PORT_FORWARDING \<noteq> 0) \<rparr>"

definition mux_env_of :: "('h, 'i, 'j, 'v) session_env \<Rightarrow> ('h, 'i) ElaStream \<Rightarrow> ('h, 'i) mux_env" where
  "mux_env_of env st = se_muxenv env (st_reliable st) (st_portforwarding st)"

text \<open>The handlers one by one; each is connected below \<open>prev\<close>, and the rest is the continuation.\<close>

definition add_mux where
  "add_mux env s a prev k =
     bindr (get_str s a) (\<lambda>st.
     if \<not> st_multiplexing st then k s prev
     else
       (case se_mux_alloc env s of (allocated, table, idsi, worker_rc) \<Rightarrow>
        bindr (multiplex_handler_create (mux_env_of env st) allocated table idsi worker_rc) (\<lambda>(rc, m).
        if rc < 0 then add_failed env s a rc
        else
          bindr (mod_str s a (\<lambda>st. st\<lparr> st_mux := Some m \<rparr>)) (\<lambda>s.
          bindr (connect_in s a prev mux_handler) (\<lambda>s. k s mux_handler)))))"

definition add_reliable where
  "add_reliable env s a prev k =
     bindr (get_str s a) (\<lambda>st.
     if \<not> st_reliable st then k s prev
     else
       (let rc = se_reliable_create env s in
        if rc < 0 then add_failed env s a rc
        else bindr (connect_in s a prev reliable_handler) (\<lambda>s. k s reliable_handler)))"

definition add_crypto where
  "add_crypto env s a prev k =
     bindr (get_str s a) (\<lambda>st.
     if st_unencrypt st then k s
     else
       (let s = s\<lparr> ss_crypto_enabled := True \<rparr>; rc = se_crypto_create env s in
        if rc < 0 then add_failed env s a rc
        else bindr (connect_in s a prev crypto_handler) (\<lambda>s. k s)))"

definition list_remove_entry :: "'a list \<Rightarrow> 'a \<Rightarrow> 'a list" where
  "list_remove_entry xs x = remove1 x xs"

definition ela_session_add_stream ::
    "('h, 'i, 'j, 'v) session_env \<Rightarrow> ('h, 'i, 'j, 'v) session \<Rightarrow> ElaStreamType \<Rightarrow> u32 \<Rightarrow> (int \<times> ('h, 'i, 'j, 'v) session) res" where
  "ela_session_add_stream env s type options =
     (if type = ElaStreamType_audio \<or> type = ElaStreamType_video then
        Inr (-1, set_err s (ELA_GENERAL_ERROR ELAERR_NOT_IMPLEMENTED))
      else
        bindr (ice_session_create_stream env s) (\<lambda>(rc, a, s).
        if rc \<noteq> 0 then Inr (-1, set_err_rc s rc)
        else
          (let (sid, ids) = ids_heap_alloc (se_ids env) (ss_ids s); s = s\<lparr> ss_ids := ids \<rparr> in
           bindr (mod_str s a (\<lambda>st. st\<lparr> st_id := sid \<rparr>)) (\<lambda>s.
           if sid \<le> 0 then
             bindr (str_deref env s a) (\<lambda>s. Inr (-1, set_err s (ELA_GENERAL_ERROR ELAERR_OUT_OF_MEMORY)))
           else
             bindr (mod_str s a (stream_options options type)) (\<lambda>s.
             add_mux env s a root_handler (\<lambda>s prev.
             add_reliable env s a prev (\<lambda>s prev.
             add_crypto env s a prev (\<lambda>s.
             bindr (str_ref (s\<lparr> ss_streams := ss_streams s @ [a] \<rparr>) a) (\<lambda>s.
             let rc = se_init env s in
             if rc < 0 then
               bindr (str_deref env (s\<lparr> ss_streams := list_remove_entry (ss_streams s) a \<rparr>) a) (\<lambda>s.
               bindr (str_deref env s a) (\<lambda>s. Inr (-1, set_err_rc s rc)))
             else
               bindr (str_deref env s a) (\<lambda>s.
               bindr (get_str s a) (\<lambda>st. Inr (st_id st, s)))))))))))) "

text \<open>\<open>get_stream\<close>: the iterator takes a reference to each stream it visits; the one that is found keeps it.\<close>

fun get_stream_iter where
  "get_stream_iter env s [] stream = Inr (None, s)"
| "get_stream_iter env s (a # it) stream =
     bindr (str_ref s a) (\<lambda>s.
     bindr (get_str s a) (\<lambda>st.
     if st_id st = stream then Inr (Some a, s)
     else bindr (str_deref env s a) (\<lambda>s. get_stream_iter env s it stream)))"

definition get_stream :: "('h, 'i, 'j, 'v) session_env \<Rightarrow> ('h, 'i, 'j, 'v) session \<Rightarrow> int \<Rightarrow>
    (addr option \<times> ('h, 'i, 'j, 'v) session) res" where
  "get_stream env s stream = bindr (g_assert (stream > 0)) (\<lambda>_. get_stream_iter env s (ss_streams s) stream)"

text \<open>
  What the functions on a stream share: they check their arguments (\<open>valid\<close>), look the stream up, do their work, and
  release it. \<open>failed\<close> is their result when they do not get to work.
\<close>

definition with_stream where
  "with_stream env s valid stream failed body =
     (if \<not> valid \<or> stream \<le> 0 then Inr (failed, set_err s (ELA_GENERAL_ERROR ELAERR_INVALID_ARGS))
      else
        bindr (get_stream env s stream) (\<lambda>(x, s).
        case x of None \<Rightarrow> Inr (failed, set_err s (ELA_GENERAL_ERROR ELAERR_NOT_EXIST))
        | Some a \<Rightarrow>
            bindr (body s a) (\<lambda>(rc, s).
            bindr (str_deref env s a) (\<lambda>s. Inr (rc, s)))))"

text \<open>The multiplexer of a stream.\<close>

definition call_mux where
  "call_mux env s a no_mux f =
     bindr (get_str s a) (\<lambda>st.
     case st_mux st of None \<Rightarrow> Inr (no_mux, s)
     | Some m \<Rightarrow>
         bindr (f (mux_env_of env st) m) (\<lambda>(rc, m').
         bindr (mod_str s a (\<lambda>st. st\<lparr> st_mux := Some m' \<rparr>)) (\<lambda>s. Inr (rc, s))))"

text \<open>The ways in which a status becomes a result.\<close>

definition status_result where
  "status_result ok = (\<lambda>(rc, s). if rc < 0 then (-1 :: int, set_err_rc s rc) else (ok rc, s))"

text \<open>
  A change of state comes up the pipeline: the multiplexer closes its channels on the way if the stream is gone, and
  passes it to the stream itself. The user's function for the state is called last; what it calls is a later input of the run.
\<close>

definition stream_base_on_state_chagned where
  "stream_base_on_state_chagned s a state = mod_str s a (\<lambda>st. st\<lparr> st_state := Some state \<rparr>)"

definition stream_on_state_changed where
  "stream_on_state_changed env s a state =
     bindr (call_mux env s a () (\<lambda>menv m. bindr (multiplex_handler_on_state_changed menv m state) (\<lambda>m. Inr ((), m)))) (\<lambda>(_, s).
     stream_base_on_state_chagned s a state)"

text \<open>
  Stopping the pipeline of a stream, without an error. The multiplexer closes its channels and stops the handlers below it. The
  reliable handler closes its socket, the crypto handler has nothing to do, and the ICE handler ends the transport; if the
  stream was not beyond the state connected, it reports that the stream is closed, up the pipeline, before it returns
  (\<open>ice_handler_stop\<close>).
\<close>

definition stream_live :: "('h, 'i) ElaStream \<Rightarrow> bool" where
  "stream_live st \<longleftrightarrow> st_state st \<notin> {Some ElaStreamState_deactivated, Some ElaStreamState_closed, Some ElaStreamState_failed}"

definition pipeline_stop where
  "pipeline_stop env s a =
     bindr (get_str s a) (\<lambda>st.
     bindr (case st_mux st of None \<Rightarrow> Inr s
            | Some m \<Rightarrow> bindr (multiplex_handler_stop (mux_env_of env st) m 0) (\<lambda>m'.
                mod_str s a (\<lambda>st. st\<lparr> st_mux := Some m' \<rparr>))) (\<lambda>s.
     if stream_live st then stream_on_state_changed env s a ElaStreamState_closed else Inr s))"

definition ela_session_remove_stream where
  "ela_session_remove_stream env s stream =
     with_stream env s True stream (-1) (\<lambda>s a.
       bindr (pipeline_stop env s a) (\<lambda>s.
       bindr (if a \<in> set (ss_streams s)
              then str_deref env (s\<lparr> ss_streams := list_remove_entry (ss_streams s) a \<rparr>) a else Inr s) (\<lambda>s.
       Inr (0 :: int, s))))"

section \<open>Functions on a stream\<close>

definition ela_stream_write where
  "ela_stream_write env s stream data =
     with_stream env s (0 < length data \<and> length data \<le> unat ELA_MAX_USER_DATA_LEN) stream (-1) (\<lambda>s a.
       bindr (get_str s a) (\<lambda>st.
       if st_type st = ElaStreamType_audio \<or> st_type st = ElaStreamType_video then
         Inr (-1, set_err s (ELA_GENERAL_ERROR ELAERR_NOT_IMPLEMENTED))
       else if st_state st \<noteq> Some ElaStreamState_connected then
         Inr (-1, set_err s (ELA_GENERAL_ERROR ELAERR_WRONG_STATE))
       else
         bindr (flex_buffer_from (se_junk env) FLEX_PADDING_LEN data (of_nat (length data))) (\<lambda>buf.
         bindr (if st_mux st = None then Inr (se_write env s a buf, s)
                else call_mux env s a 0 (\<lambda>menv m. multiplex_handler_write menv m buf)) (\<lambda>r.
         Inr (status_result (\<lambda>rc. rc) r)))))"

definition ela_stream_get_type where
  "ela_stream_get_type env s stream =
     with_stream env s True stream (-1 :: int, None) (\<lambda>s a.
       bindr (get_str s a) (\<lambda>st. Inr ((0, Some (st_type st)), s)))"

definition ela_stream_get_state where
  "ela_stream_get_state env s stream =
     with_stream env s True stream (-1 :: int, None) (\<lambda>s a.
       bindr (get_str s a) (\<lambda>st. Inr ((0, Some (st_state st)), s)))"

definition ela_stream_get_transport_info where
  "ela_stream_get_transport_info env s stream =
     with_stream env s True stream (-1) (\<lambda>s a.
       bindr (get_str s a) (\<lambda>st.
       if st_state st \<noteq> Some ElaStreamState_connected then
         Inr (-1, set_err s (ELA_GENERAL_ERROR ELAERR_WRONG_STATE))
       else Inr (status_result (\<lambda>_. 0) (se_get_info env s a, s))))"

definition ela_stream_open_channel where
  "ela_stream_open_channel env s stream cookie =
     with_stream env s True stream (-1) (\<lambda>s a.
       bindr (get_str s a) (\<lambda>st.
       if st_state st \<noteq> Some ElaStreamState_connected then
         Inr (-1, set_err s (ELA_GENERAL_ERROR ELAERR_WRONG_STATE))
       else
         bindr (call_mux env s a (general_err ELAERR_WRONG_STATE) (\<lambda>menv m.
           multiplex_handler_open_channel menv m ChannelType_User cookie 0 0)) (\<lambda>r.
         Inr (status_result (\<lambda>rc. rc) r))))"

definition ela_stream_close_channel where
  "ela_stream_close_channel env s stream channel =
     with_stream env s True stream (-1) (\<lambda>s a.
       bindr (call_mux env s a (general_err ELAERR_WRONG_STATE) (\<lambda>menv m.
         multiplex_handler_close_channel menv m channel)) (\<lambda>r.
       Inr (status_result (\<lambda>_. 0) r)))"

text \<open>Here the status goes through \<open>ssize_t\<close>, and it is also the result.\<close>

definition ela_stream_write_channel where
  "ela_stream_write_channel env s stream channel data =
     with_stream env s (channel \<ge> 0 \<and> length data \<le> unat ELA_MAX_USER_DATA_LEN) stream (-1) (\<lambda>s a.
       bindr (get_str s a) (\<lambda>st.
       if st_state st \<noteq> Some ElaStreamState_connected then
         Inr (-1, set_err s (ELA_GENERAL_ERROR ELAERR_WRONG_STATE))
       else
         bindr (call_mux env s a (ssize_of_unsigned (ELA_GENERAL_ERROR ELAERR_WRONG_STATE)) (\<lambda>menv m.
           bindr (flex_buffer_from (se_junk env) FLEX_PADDING_LEN data (of_nat (length data))) (\<lambda>buf.
           multiplex_handler_write_channel menv m channel buf))) (\<lambda>(written, s).
         Inr (written, if written < 0 then set_err_rc s written else s))))"

definition ela_stream_pend_channel where
  "ela_stream_pend_channel env s stream channel =
     with_stream env s (channel > 0) stream (-1) (\<lambda>s a.
       bindr (call_mux env s a (general_err ELAERR_WRONG_STATE) (\<lambda>menv m.
         multiplex_handler_pend_channel menv m channel)) (\<lambda>r.
       Inr (status_result (\<lambda>_. 0) r)))"

definition ela_stream_resume_channel where
  "ela_stream_resume_channel env s stream channel =
     with_stream env s (channel > 0) stream (-1) (\<lambda>s a.
       bindr (call_mux env s a (general_err ELAERR_WRONG_STATE) (\<lambda>menv m.
         multiplex_handler_resume_channel menv m channel)) (\<lambda>r.
       Inr (status_result (\<lambda>_. 0) r)))"

section \<open>Services\<close>

definition ela_session_add_service ::
    "('h, 'i, 'j, 'v) session_env \<Rightarrow> ('h, 'i, 'j, 'v) session \<Rightarrow> string \<Rightarrow> int \<Rightarrow> string \<Rightarrow> string \<Rightarrow>
     int \<times> ('h, 'i, 'j, 'v) session" where
  "ela_session_add_service env s service protocol host port =
     (if service = [] \<or> host = [] \<or> port = [] \<or> protocol \<noteq> PortForwardingProtocol_TCP then
        (-1 :: int, set_err s (ELA_GENERAL_ERROR ELAERR_INVALID_ARGS))
      else if ss_services s = None \<and> \<not> se_alloc env s then
        (-1, set_err s (ELA_GENERAL_ERROR ELAERR_OUT_OF_MEMORY))
      else
        (let tab = (case ss_services s of None \<Rightarrow> hashtable_empty (se_svctab env) | Some t \<Rightarrow> t);
             s = s\<lparr> ss_services := Some tab \<rparr> in
         if hashtable_get (se_svctab env) tab service \<noteq> None then
           (-1, set_err s (ELA_GENERAL_ERROR ELAERR_ALREADY_EXIST))
         else if \<not> se_alloc env s then (-1, set_err s (ELA_GENERAL_ERROR ELAERR_OUT_OF_MEMORY))
         else (0, s\<lparr> ss_services := Some (hashtable_put (se_svctab env) tab service
                \<lparr> svc_name = service, svc_protocol = protocol, svc_host = host, svc_port = port \<rparr>) \<rparr>)))"

definition ela_session_remove_service ::
    "('h, 'i, 'j, 'v) session_env \<Rightarrow> ('h, 'i, 'j, 'v) session \<Rightarrow> string \<Rightarrow> ('h, 'i, 'j, 'v) session" where
  "ela_session_remove_service env s service =
     (if service = [] then set_err s (ELA_GENERAL_ERROR ELAERR_INVALID_ARGS)
      else (case ss_services s of None \<Rightarrow> s
        | Some t \<Rightarrow> s\<lparr> ss_services := Some (hashtable_remove (se_svctab env) t service) \<rparr>))"

end
