(* ===== verification/Session_Inv.thy ===== *)
theory Session_Inv
  imports Session
begin

text \<open>
  The invariant of a session and its proof for every function: the list has live streams, each with a number of its own
  and the pipeline that its options ask for; the references to a stream are those of running functions,
  \<open>H\<close>, and one of the list; the numbers in use are those of the live streams; each multiplexer satisfies its own
  invariant.

  The locale \<open>session_services\<close> is the contract with the containers and with the multiplexers of the streams.
\<close>

section \<open>The invariant\<close>

definition handler_order :: "('h, 'i) ElaStream \<Rightarrow> haddr list" where
  "handler_order st = root_handler # (if st_multiplexing st then [mux_handler] else []) @
     (if st_reliable st then [reliable_handler] else []) @ (if st_unencrypt st then [] else [crypto_handler]) @ [ice_handler]"

definition stream_ok :: "('h, 'i, 'j, 'v) session_env \<Rightarrow> ('h, 'i) ElaStream \<Rightarrow> bool" where
  "stream_ok env st \<longleftrightarrow> pipeline (st_handlers st) (handler_order st) \<and> st_multiplexing st = (st_mux st \<noteq> None) \<and>
     (\<forall>m. st_mux st = Some m \<longrightarrow> mux_inv (mux_env_of env st) (\<lambda>_. 0) {} m)"

definition listed_ok :: "('h, 'i, 'j, 'v) session_env \<Rightarrow> ('h, 'i, 'j, 'v) session \<Rightarrow> bool" where
  "listed_ok env s \<longleftrightarrow> distinct (ss_streams s) \<and>
     (\<forall>a \<in> set (ss_streams s). \<exists>st. ss_heap s a = Some st \<and> 0 < st_id st \<and> stream_ok env st)"

definition str_refs_ok :: "(addr \<Rightarrow> nat) \<Rightarrow> ('h, 'i, 'j, 'v) session \<Rightarrow> bool" where
  "str_refs_ok H s \<longleftrightarrow> (\<forall>a. ss_heap s a = None \<longrightarrow> H a = 0) \<and> (\<forall>a. ss_next s \<le> a \<longrightarrow> ss_heap s a = None) \<and>
     (\<forall>a st. ss_heap s a = Some st \<longrightarrow> 0 < st_refs st \<and> st_refs st = H a + (if a \<in> set (ss_streams s) then 1 else 0))"

definition stream_ids_ok :: "('h, 'i, 'j, 'v) session_env \<Rightarrow> ('h, 'i, 'j, 'v) session \<Rightarrow> bool" where
  "stream_ids_ok env s \<longleftrightarrow>
     (\<forall>a b st st'. ss_heap s a = Some st \<longrightarrow> ss_heap s b = Some st' \<longrightarrow> st_id st = st_id st' \<longrightarrow> 0 < st_id st \<longrightarrow> a = b) \<and>
     ids_in_use (se_ids env) (ss_ids s) = {i. 0 < i \<and> (\<exists>a st. ss_heap s a = Some st \<and> st_id st = i)}"

definition sess_inv :: "('h, 'i, 'j, 'v) session_env \<Rightarrow> (addr \<Rightarrow> nat) \<Rightarrow> ('h, 'i, 'j, 'v) session \<Rightarrow> bool" where
  "sess_inv env H s \<longleftrightarrow> listed_ok env s \<and> str_refs_ok H s \<and> stream_ids_ok env s"

lemmas sess_defs = listed_ok_def str_refs_ok_def stream_ids_ok_def

lemma sess_inv_fields [simp]:
  "sess_inv env H (set_err s e) = sess_inv env H s" "sess_inv env H (set_err_rc s rc) = sess_inv env H s"
  "sess_inv env H (s\<lparr> ss_crypto_enabled := b \<rparr>) = sess_inv env H s" "sess_inv env H (s\<lparr> ss_services := v \<rparr>) = sess_inv env H s"
  by (simp_all add: sess_inv_def sess_defs set_err_def set_err_rc_def)

lemma sess_invD:
  assumes "sess_inv env H s"
  shows "a \<in> set (ss_streams s) \<Longrightarrow> \<exists>st. ss_heap s a = Some st \<and> 0 < st_id st \<and> stream_ok env st"
    and "distinct (ss_streams s)"
    and "ss_heap s a = Some st \<Longrightarrow> 0 < st_refs st \<and> st_refs st = H a + (if a \<in> set (ss_streams s) then 1 else 0)"
    and "ss_heap s a = None \<Longrightarrow> H a = 0"
    and "ss_next s \<le> a \<Longrightarrow> ss_heap s a = None"
    and "ss_heap s a = Some st \<Longrightarrow> ss_heap s b = Some st' \<Longrightarrow> st_id st = st_id st' \<Longrightarrow> 0 < st_id st \<Longrightarrow> a = b"
    and "ids_in_use (se_ids env) (ss_ids s) = {i. 0 < i \<and> (\<exists>a st. ss_heap s a = Some st \<and> st_id st = i)}"
  using assms unfolding sess_inv_def sess_defs by blast+

lemma sess_pos: "sess_inv env H s \<Longrightarrow> ss_heap s a = Some st \<Longrightarrow> a \<notin> set (ss_streams s) \<Longrightarrow> 0 < H a"
  using sess_invD(3) [of env H s a st] by simp

lemma stream_ok_refs [simp]: "stream_ok env (st\<lparr> st_refs := n \<rparr>) = stream_ok env st"
proof -
  have "handler_order (st\<lparr> st_refs := n \<rparr>) = handler_order st" "mux_env_of env (st\<lparr> st_refs := n \<rparr>) = mux_env_of env st"
    by (simp_all add: handler_order_def mux_env_of_def)
  then show ?thesis by (simp add: stream_ok_def)
qed

text \<open>Changing a stream, but not its number.\<close>

lemma upd_stream_inv:
  assumes i: "sess_inv env H s" and h: "ss_heap s a = Some st"
    and e: "st_id st' = st_id st" "st_refs st' + H a = st_refs st + H' a" "0 < st_refs st'"
    and o: "\<And>b. b \<noteq> a \<Longrightarrow> H' b = H b" and k: "a \<in> set (ss_streams s) \<Longrightarrow> stream_ok env st \<Longrightarrow> stream_ok env st'"
  shows "sess_inv env H' (s\<lparr> ss_heap := (ss_heap s)(a \<mapsto> st') \<rparr>)" (is "sess_inv env H' ?s")
proof -
  note d = sess_invD [OF i]
  have "listed_ok env ?s" unfolding sess_defs using d(1,2) h e(1) k by fastforce
  moreover have "str_refs_ok H' ?s"
    unfolding sess_defs using d(3,4,5) sess_pos [OF i] h e(2,3) o by (auto split: if_splits)
  moreover have "{i. 0 < i \<and> (\<exists>b t. ss_heap ?s b = Some t \<and> st_id t = i)} = {i. 0 < i \<and> (\<exists>b t. ss_heap s b = Some t \<and> st_id t = i)}"
    using h e(1) by (auto split: if_splits) (metis fun_upd_apply option.inject)
  then have "stream_ids_ok env ?s"
    unfolding sess_defs using d(6,7) h e(1) by (auto split: if_splits)
  ultimately show ?thesis by (simp add: sess_inv_def)
qed

lemma sess_held: "sess_inv env H s \<Longrightarrow> 0 < H a \<Longrightarrow> \<exists>st. ss_heap s a = Some st"
  using sess_invD(4) [of env H s a] by (cases "ss_heap s a") auto

lemma sess_live: "sess_inv env H s \<Longrightarrow> 0 < H a \<or> a \<in> set (ss_streams s) \<Longrightarrow> \<exists>st. ss_heap s a = Some st"
  using sess_held [of env H s a] sess_invD(1) [of env H s a] by blast

lemma get_str_held:
  assumes "sess_inv env H s" "0 < H a" "\<And>st. ss_heap s a = Some st \<Longrightarrow> R st"
  shows "safely D R (get_str s a)"
  using sess_held [OF assms(1,2)] assms(3) by (auto simp: get_str_def)

lemma mod_str_eq: "ss_heap s a = Some st \<Longrightarrow> mod_str s a f = Inr (s\<lparr> ss_heap := (ss_heap s)(a \<mapsto> f st) \<rparr>)"
  by (simp add: mod_str_def get_str_def)

lemma str_ref_inv:
  assumes "sess_inv env H s" "ss_heap s a = Some st"
    and "\<And>s'. sess_inv env (H(a := H a + 1)) s' \<Longrightarrow> ss_streams s' = ss_streams s \<Longrightarrow>
      ss_heap s' = (ss_heap s)(a \<mapsto> st\<lparr> st_refs := st_refs st + 1 \<rparr>) \<Longrightarrow> R s'"
  shows "safely D R (str_ref s a)"
proof -
  have "sess_inv env (H(a := H a + 1)) (s\<lparr> ss_heap := (ss_heap s)(a \<mapsto> st\<lparr> st_refs := st_refs st + 1 \<rparr>) \<rparr>)"
    by (rule upd_stream_inv [OF assms(1,2)]) simp_all
  then show ?thesis using assms(3) by (simp add: str_ref_def mod_str_eq [OF assms(2)])
qed

section \<open>The contract\<close>

locale session_services =
  fixes env :: "('h, 'i, 'j, 'v) session_env" and D :: bool
  assumes stream_ids: "ids_heap_ok (se_ids env) MAX_STREAM_ID"
    and muxes: "mux_callbacks (se_muxenv env r p) D"
    and mux_memory: "se_mux_alloc env s = (al, tb, (rc, j), w) \<Longrightarrow>
      (\<forall>t. tb = Some t \<longrightarrow> t = hashtable_empty (mx_table (se_muxenv env r p))) \<and>
      (rc = 0 \<longrightarrow> ids_in_use (mx_idops (se_muxenv env r p)) j = {})"
begin

lemma str_deref_inv:
  assumes i: "sess_inv env H s" and p: "0 < H a"
    and R: "\<And>s'. sess_inv env (H(a := H a - 1)) s' \<Longrightarrow> ss_streams s' = ss_streams s \<Longrightarrow>
      (\<forall>b. b \<noteq> a \<longrightarrow> ss_heap s' b = ss_heap s b) \<Longrightarrow> R s'"
  shows "safely D' R (str_deref env s a)"
proof -
  note d = sess_invD [OF i]
  obtain st where h: "ss_heap s a = Some st" using sess_held [OF i p] by blast
  show ?thesis
  proof (cases "st_refs st \<le> 1")
    case False
    have "sess_inv env (H(a := H a - 1)) (s\<lparr> ss_heap := (ss_heap s)(a \<mapsto> st\<lparr> st_refs := st_refs st - 1 \<rparr>) \<rparr>)"
      by (rule upd_stream_inv [OF i h]) (use False p in simp_all)
    with False h show ?thesis by (simp add: str_deref_def get_str_def R)
  next
    case True
    then have l: "st_refs st = 1" "H a = 1" "a \<notin> set (ss_streams s)" using d(3) [OF h] p by (auto split: if_splits)
    let ?s = "(stream_base_destroy env s st)\<lparr> ss_heap := (ss_heap s)(a := None) \<rparr>"
    have f: "ss_streams ?s = ss_streams s" "ss_next ?s = ss_next s" by (simp_all add: stream_base_destroy_def)
    have "listed_ok env ?s" unfolding sess_defs f using d(1,2) l(3) by auto
    moreover have "str_refs_ok (H(a := H a - 1)) ?s" unfolding sess_defs f using d(3,4,5) sess_pos [OF i] l(2,3) by auto
    moreover have "{i. 0 < i \<and> (\<exists>b t. ss_heap ?s b = Some t \<and> st_id t = i)} =
        {i. 0 < i \<and> (\<exists>b t. ss_heap s b = Some t \<and> st_id t = i)} - {st_id st}"
      using h d(6) by (auto split: if_splits) (metis option.inject)
    then have "stream_ids_ok env ?s"
      unfolding sess_defs using d(6,7) ids_free_in_use [OF stream_ids]
      by (auto simp: stream_base_destroy_def split: if_splits)
    ultimately have "sess_inv env (H(a := H a - 1)) ?s" by (simp add: sess_inv_def)
    with True h R f show ?thesis by (simp add: str_deref_def get_str_def)
  qed
qed

lemma get_stream_iter_inv:
  assumes "sess_inv env H s" "set it \<subseteq> set (ss_streams s)"
    and "\<And>s'. sess_inv env H s' \<Longrightarrow> ss_streams s' = ss_streams s \<Longrightarrow> R (None, s')"
    and "\<And>a s'. sess_inv env (H(a := H a + 1)) s' \<Longrightarrow> ss_streams s' = ss_streams s \<Longrightarrow> a \<in> set (ss_streams s) \<Longrightarrow>
      R (Some a, s')"
  shows "safely D' R (get_stream_iter env s it stream)"
  using assms
proof (induction it arbitrary: s)
  case (Cons a it)
  obtain st where st: "ss_heap s a = Some st" using sess_invD(1) [OF Cons.prems(1), of a] Cons.prems(2) by auto
  have "safely D' (\<lambda>s'. safely D' R (bindr (get_str s' a) (\<lambda>st. if st_id st = stream then Inr (Some a, s')
      else bindr (str_deref env s' a) (\<lambda>s. get_stream_iter env s it stream)))) (str_ref s a)"
  proof (rule str_ref_inv [OF Cons.prems(1) st])
    fix s'
    assume s': "sess_inv env (H(a := H a + 1)) s'" "ss_streams s' = ss_streams s"
    have go: "safely D' (\<lambda>s. safely D' R (get_stream_iter env s it stream)) (str_deref env s' a)"
    proof (rule str_deref_inv [OF s'(1)])
      fix s''
      assume "sess_inv env ((H(a := H a + 1))(a := (H(a := H a + 1)) a - 1)) s''" "ss_streams s'' = ss_streams s'"
      then show "safely D' R (get_stream_iter env s'' it stream)"
        using Cons.prems(2-) s'(2) by (intro Cons.IH) auto
    qed simp
    show "safely D' R (bindr (get_str s' a) (\<lambda>st. if st_id st = stream then Inr (Some a, s')
      else bindr (str_deref env s' a) (\<lambda>s. get_stream_iter env s it stream)))"
      unfolding safely_simps
    proof (rule get_str_held [OF s'(1)])
      have found: "R (Some a, s')" using Cons.prems(2) by (intro Cons.prems(4) [OF s']) simp
      fix st
      show "safely D' R (if st_id st = stream then Inr (Some a, s')
          else bindr (str_deref env s' a) (\<lambda>s. get_stream_iter env s it stream))"
        using found go by simp
    qed simp
  qed
  then show ?case by simp
qed simp

text \<open>The frame of the functions on a stream.\<close>

lemma with_stream_inv:
  assumes i: "sess_inv env H s"
    and body: "\<And>s a. sess_inv env (H(a := H a + 1)) s \<Longrightarrow> a \<in> set (ss_streams s) \<Longrightarrow> valid \<Longrightarrow>
      safely D (\<lambda>(rc, s'). sess_inv env (H(a := H a + 1)) s') (body s a)"
    and R: "\<And>rc s'. sess_inv env H s' \<Longrightarrow> R (rc, s')"
  shows "safely D R (with_stream env s valid stream failed body)"
proof (cases "valid \<and> 0 < stream")
  case True
  have "safely D (\<lambda>(x, s). safely D R (case x of None \<Rightarrow> Inr (failed, set_err s (ELA_GENERAL_ERROR ELAERR_NOT_EXIST))
      | Some a \<Rightarrow> bindr (body s a) (\<lambda>(rc, s). bindr (str_deref env s a) (\<lambda>s. Inr (rc, s)))))
      (get_stream_iter env s (ss_streams s) stream)"
  proof (rule get_stream_iter_inv [OF i])
    fix a s'
    assume s': "sess_inv env (H(a := H a + 1)) s'" "ss_streams s' = ss_streams s" "a \<in> set (ss_streams s)"
    have "safely D (\<lambda>(rc, s'). safely D R (bindr (str_deref env s' a) (\<lambda>s. Inr (rc, s)))) (body s' a)"
      by (rule safely_mono [OF body [OF s'(1)]]) (use s' True R in \<open>auto intro!: str_deref_inv\<close>)
    then show "case (Some a, s') of (x, s) \<Rightarrow> safely D R (case x of None \<Rightarrow> Inr (failed, set_err s (ELA_GENERAL_ERROR ELAERR_NOT_EXIST))
      | Some a \<Rightarrow> bindr (body s a) (\<lambda>(rc, s). bindr (str_deref env s a) (\<lambda>s. Inr (rc, s))))"
      by (simp add: split_def)
  qed (simp_all add: R)
  then show ?thesis using True by (simp add: with_stream_def get_stream_def split_def)
next
  case False
  then show ?thesis using i R by (auto simp: with_stream_def)
qed

lemma set_mux_inv:
  assumes "sess_inv env H s" "ss_heap s a = Some st" "st_mux st = Some m0" "mux_inv (mux_env_of env st) (\<lambda>_. 0) {} m"
  shows "sess_inv env H (s\<lparr> ss_heap := (ss_heap s)(a \<mapsto> st\<lparr> st_mux := Some m \<rparr>) \<rparr>)"
proof -
  have "handler_order (st\<lparr> st_mux := Some m \<rparr>) = handler_order st" "mux_env_of env (st\<lparr> st_mux := Some m \<rparr>) = mux_env_of env st"
    by (simp_all add: handler_order_def mux_env_of_def)
  then have "stream_ok env st \<Longrightarrow> stream_ok env (st\<lparr> st_mux := Some m \<rparr>)" using assms(3,4) by (simp add: stream_ok_def)
  with assms(1,2) sess_invD(3) [OF assms(1,2), THEN conjunct1] show ?thesis by (intro upd_stream_inv [OF assms(1,2)]) simp_all
qed

lemma call_mux_inv:
  assumes i: "sess_inv env H s" and a: "a \<in> set (ss_streams s)"
    and f: "\<And>r p m. mux_inv (se_muxenv env r p) (\<lambda>_. 0) {} m \<Longrightarrow>
      safely D (\<lambda>(rc, m'). mux_inv (se_muxenv env r p) (\<lambda>_. 0) {} m') (f (se_muxenv env r p) m)"
    and R: "\<And>rc s'. sess_inv env H s' \<Longrightarrow> ss_streams s' = ss_streams s \<Longrightarrow> R (rc, s')"
  shows "safely D R (call_mux env s a no_mux f)"
proof -
  obtain st where st: "ss_heap s a = Some st" "stream_ok env st" using sess_invD(1) [OF i a] by blast
  show ?thesis
  proof (cases "st_mux st")
    case None
    then show ?thesis using st(1) i R by (simp add: call_mux_def get_str_def)
  next
    case (Some m)
    have "mux_inv (mux_env_of env st) (\<lambda>_. 0) {} m" using st(2) Some by (simp add: stream_ok_def)
    then have "safely D (\<lambda>(rc, m'). mux_inv (mux_env_of env st) (\<lambda>_. 0) {} m') (f (mux_env_of env st) m)"
      using f by (simp add: mux_env_of_def)
    then have "safely D (\<lambda>(rc, m'). R (rc, s\<lparr> ss_heap := (ss_heap s)(a \<mapsto> st\<lparr> st_mux := Some m' \<rparr>) \<rparr>)) (f (mux_env_of env st) m)"
      by (rule safely_mono) (auto intro!: R set_mux_inv [OF i st(1) Some])
    then show ?thesis using st(1) Some by (simp add: call_mux_def get_str_def mod_str_eq split_def)
  qed
qed

end

end
