(* ===== verification/Session_Add.thy ===== *)
theory Session_Add
  imports Session_Inv
begin

text \<open>
  \<open>ela_session_add_stream\<close> step by step: the stream that ICE creates, its number, the handlers that the options ask
  for, the list. On every way out the session is as before, or it has one stream more, which is complete.
\<close>

section \<open>Adding a stream\<close>

text \<open>
  A stream under construction: the handlers \<open>upper\<close> ICE are in place. \<open>s0\<close> is the session before the call.
\<close>

definition part_ok :: "('h, 'i, 'j, 'v) session_env \<Rightarrow> haddr list \<Rightarrow> ('h, 'i) ElaStream \<Rightarrow> bool" where
  "part_ok env upper st \<longleftrightarrow> pipeline (st_handlers st) (upper @ [ice_handler]) \<and> (mux_handler \<in> set upper \<longrightarrow> st_mux st \<noteq> None) \<and>
     (\<forall>m. st_mux st = Some m \<longrightarrow> st_multiplexing st \<and> mux_inv (mux_env_of env st) (\<lambda>_. 0) {} m)"

definition building :: "('h, 'i, 'j, 'v) session_env \<Rightarrow> (addr \<Rightarrow> nat) \<Rightarrow> ('h, 'i, 'j, 'v) session \<Rightarrow> ElaStreamType \<Rightarrow> u32 \<Rightarrow> int \<Rightarrow>
    haddr list \<Rightarrow> ('h, 'i, 'j, 'v) session \<Rightarrow> bool" where
  "building env H s0 type options sid upper s \<longleftrightarrow> sess_inv env (H(ss_next s0 := 1)) s \<and> ss_streams s = ss_streams s0 \<and>
     (\<exists>st. ss_heap s = (ss_heap s0)(ss_next s0 \<mapsto> st) \<and> st_id st = sid \<and> 0 < sid \<and> stream_options options type st = st \<and>
        part_ok env upper st)"

definition untouched :: "('h, 'i, 'j, 'v) session_env \<Rightarrow> ('h, 'i, 'j, 'v) session \<Rightarrow> ('h, 'i, 'j, 'v) session \<Rightarrow> bool" where
  "untouched env s s' \<longleftrightarrow> ss_streams s' = ss_streams s \<and> ss_heap s' = ss_heap s \<and>
     ids_in_use (se_ids env) (ss_ids s') = ids_in_use (se_ids env) (ss_ids s)"

text \<open>
  Every failure of \<open>multiplex_handler_create\<close> ends in undefined behaviour: the code releases its out parameter instead of the new
  object. \<open>lacking\<close> is this outcome of a call that asks for a multiplexer.
\<close>

definition mux_fails :: "('h, 'i, 'j, 'v) session_env \<Rightarrow> bool" where
  "mux_fails env \<longleftrightarrow> (\<exists>s al tb rc j w. se_mux_alloc env s = (al, tb, (rc, j), w) \<and> (\<not> al \<or> tb = None \<or> rc \<noteq> 0 \<or> w < 0))"

definition added :: "('h, 'i, 'j, 'v) session_env \<Rightarrow> ('h, 'i, 'j, 'v) session \<Rightarrow> ElaStreamType \<Rightarrow> u32 \<Rightarrow> int \<Rightarrow>
    ('h, 'i, 'j, 'v) session \<Rightarrow> bool" where
  "added env s type options sid s' \<longleftrightarrow> 0 < sid \<and> sid \<le> MAX_STREAM_ID \<and> sid \<notin> ids_in_use (se_ids env) (ss_ids s) \<and>
     (\<exists>st. ss_streams s' = ss_streams s @ [ss_next s] \<and> ss_heap s' = (ss_heap s)(ss_next s \<mapsto> st) \<and> st_id st = sid \<and>
        stream_options options type st = st \<and> stream_ok env st)"

lemma untouched_fields [simp]:
  "untouched env s (set_err s' e) = untouched env s s'" "untouched env s (set_err_rc s' rc) = untouched env s s'"
  by (simp_all add: untouched_def set_err_def set_err_rc_def)

lemma options_fields [simp]:
  "stream_options options type (st\<lparr> st_handlers := g \<rparr>) = (stream_options options type st)\<lparr> st_handlers := g \<rparr>"
  "stream_options options type (st\<lparr> st_mux := x \<rparr>) = (stream_options options type st)\<lparr> st_mux := x \<rparr>"
  "stream_options options type (st\<lparr> st_refs := n \<rparr>) = (stream_options options type st)\<lparr> st_refs := n \<rparr>"
  "stream_options options type (stream_options options type st) = stream_options options type st"
  by (simp_all add: stream_options_def)

text \<open>What the options ask for.\<close>

definition wants_mux :: "u32 \<Rightarrow> bool" where
  "wants_mux options \<longleftrightarrow> options AND ELA_STREAM_MULTIPLEXING \<noteq> 0 \<or> options AND ELA_STREAM_PORT_FORWARDING \<noteq> 0"

definition lacking :: "('h, 'i, 'j, 'v) session_env \<Rightarrow> u32 \<Rightarrow> 'a res \<Rightarrow> bool" where
  "lacking env options m \<longleftrightarrow> wants_mux options \<and> mux_fails env \<and> m = Inl BadPointer"

definition wants_reliable :: "u32 \<Rightarrow> bool" where "wants_reliable options \<longleftrightarrow> options AND ELA_STREAM_RELIABLE \<noteq> 0"

definition wants_plain :: "u32 \<Rightarrow> bool" where "wants_plain options \<longleftrightarrow> options AND ELA_STREAM_PLAIN \<noteq> 0"

lemma options_wanted:
  assumes "stream_options options type st = st"
  shows "st_multiplexing st = wants_mux options" "st_reliable st = wants_reliable options" "st_unencrypt st = wants_plain options"
  by (subst assms [symmetric], simp add: stream_options_def wants_mux_def wants_reliable_def wants_plain_def)+

lemma sess_fresh:
  assumes "sess_inv env H s"
  shows "ss_heap s (ss_next s) = None" "ss_next s \<notin> set (ss_streams s)" "H (ss_next s) = 0"
  using sess_invD(1) [OF assms, of "ss_next s"] sess_invD(4,5) [OF assms, of "ss_next s"] by auto

lemma buildingD:
  assumes "building env H s0 type options sid upper s"
  obtains st where "sess_inv env (H(ss_next s0 := 1)) s" "ss_streams s = ss_streams s0" "ss_heap s = (ss_heap s0)(ss_next s0 \<mapsto> st)"
    "ss_heap s (ss_next s0) = Some st" "st_id st = sid" "0 < sid" "stream_options options type st = st" "part_ok env upper st"
  using assms unfolding building_def by auto

lemma building_upd:
  assumes "building env H s0 type options sid upper s" "ss_heap s (ss_next s0) = Some st"
    "st_id st' = st_id st" "st_refs st' = st_refs st" "stream_options options type st' = st'" "part_ok env upper' st'"
    and fresh: "ss_next s0 \<notin> set (ss_streams s0)"
  shows "building env H s0 type options sid upper' (s\<lparr> ss_heap := (ss_heap s)(ss_next s0 \<mapsto> st') \<rparr>)"
proof -
  obtain st1 where s: "sess_inv env (H(ss_next s0 := 1)) s" "ss_streams s = ss_streams s0" "ss_heap s = (ss_heap s0)(ss_next s0 \<mapsto> st1)"
    "ss_heap s (ss_next s0) = Some st1" "st_id st1 = sid" "0 < sid"
    using assms(1) by (rule buildingD)
  moreover have "0 < st_refs st'" using sess_invD(3) [OF s(1) assms(2)] assms(4) by simp
  then have "sess_inv env (H(ss_next s0 := 1)) (s\<lparr> ss_heap := (ss_heap s)(ss_next s0 \<mapsto> st') \<rparr>)"
    using fresh assms(2-4) s(2) by (intro upd_stream_inv [OF s(1) assms(2)]) simp_all
  ultimately show ?thesis using assms(2-) by (auto simp: building_def intro!: exI [of _ st'])
qed

lemma connect_building:
  assumes b: "building env H s0 type options sid (xs @ [prev]) s" and h: "h \<notin> set (xs @ [prev, ice_handler])"
    and mux: "\<And>st. ss_heap s (ss_next s0) = Some st \<Longrightarrow> h = mux_handler \<Longrightarrow> st_mux st \<noteq> None"
    and fresh: "ss_next s0 \<notin> set (ss_streams s0)"
    and R: "\<And>s'. building env H s0 type options sid (xs @ [prev, h]) s' \<Longrightarrow> R s'"
  shows "total R (connect_in s (ss_next s0) prev h)"
proof -
  obtain st where st: "sess_inv env (H(ss_next s0 := 1)) s" "ss_streams s = ss_streams s0" "ss_heap s = (ss_heap s0)(ss_next s0 \<mapsto> st)"
    "ss_heap s (ss_next s0) = Some st" "st_id st = sid" "0 < sid" "stream_options options type st = st" "part_ok env (xs @ [prev]) st"
    using b by (rule buildingD)
  let ?g = "(st_handlers st)(h \<mapsto> no_links)"
  have "chain ?g None (xs @ prev # [ice_handler]) None" "distinct (xs @ prev # [ice_handler])" "?g h \<noteq> None"
    using st(8) h by (simp_all add: part_ok_def pipeline_def chain_upd)
  then obtain g' where g': "handler_connect ?g prev h = Inr g'" "pipeline g' (xs @ prev # h # [ice_handler])"
    using connect_chain [of ?g None xs prev "[ice_handler]" h] h by (auto simp: pipeline_def)
  have "mux_env_of env (st\<lparr> st_handlers := g' \<rparr>) = mux_env_of env st" by (simp add: mux_env_of_def)
  then have "part_ok env (xs @ [prev, h]) (st\<lparr> st_handlers := g' \<rparr>)"
    using st(8) g'(2) mux [OF st(4)] by (auto simp: part_ok_def)
  then have "building env H s0 type options sid (xs @ [prev, h]) (s\<lparr> ss_heap := (ss_heap s)(ss_next s0 \<mapsto> st\<lparr> st_handlers := g' \<rparr>) \<rparr>)"
    by (intro building_upd [OF b st(4)]) (use st(7) fresh in simp_all)
  then show ?thesis using st(4) g'(1) R by (simp add: connect_in_def get_str_def mod_str_def)
qed

context session_services
begin

lemma discard_building:
  assumes b: "building env H s0 type options sid upper s" and i: "sess_inv env H s0"
    and R: "\<And>s'. sess_inv env H s' \<Longrightarrow> untouched env s0 s' \<Longrightarrow> R s'"
  shows "total R (str_deref env s (ss_next s0))"
proof -
  obtain st where st: "sess_inv env (H(ss_next s0 := 1)) s" "ss_streams s = ss_streams s0" "ss_heap s = (ss_heap s0)(ss_next s0 \<mapsto> st)"
    "ss_heap s (ss_next s0) = Some st" "st_id st = sid" "0 < sid"
    using b by (rule buildingD)
  have n: "ss_heap s0 (ss_next s0) = None" using sess_invD(5) [OF i] by simp
  then have H: "H(ss_next s0 := 0) = H" using sess_invD(4) [OF i] by (simp add: fun_upd_idem)
  have l: "ss_next s0 \<notin> set (ss_streams s0)" using sess_invD(1) [OF i, of "ss_next s0"] n by auto
  then have "st_refs st = 1" using sess_invD(3) [OF st(1,4)] st(2) by simp
  then have eq: "str_deref env s (ss_next s0) = Inr ((stream_base_destroy env s st)\<lparr> ss_heap := ss_heap s0 \<rparr>)" (is "_ = Inr ?s")
    using st(3,4) n by (simp add: str_deref_def get_str_def fun_upd_idem)
  have "safely False (sess_inv env ((H(ss_next s0 := 1))(ss_next s0 := (H(ss_next s0 := 1)) (ss_next s0) - 1))) (str_deref env s (ss_next s0))"
    by (rule str_deref_inv [OF st(1)]) simp_all
  then have v: "sess_inv env H ?s" using H by (simp add: eq)
  have "ids_in_use (se_ids env) (ss_ids ?s) = ids_in_use (se_ids env) (ss_ids s0)"
    using sess_invD(7) [OF v] sess_invD(7) [OF i] by simp
  then have "untouched env s0 ?s" using st(2) by (simp add: untouched_def stream_base_destroy_def)
  then show ?thesis using R v by (simp add: eq)
qed

lemma oom_negative: "general_err ELAERR_OUT_OF_MEMORY < 0"
  by (simp add: general_err_def ssize_of_int_def ELA_GENERAL_ERROR_def ELA_MK_ERROR_def ela_codes)

lemma create_stream_inv:
  assumes i: "sess_inv env H s" and R: "\<And>rc a s'. rc \<noteq> 0 \<Longrightarrow> sess_inv env H s' \<Longrightarrow> untouched env s s' \<Longrightarrow> R (rc, a, s')"
    and N: "\<And>s' st. sess_inv env (H(ss_next s := 1)) s' \<Longrightarrow> ss_ids s' = ss_ids s \<Longrightarrow> ss_streams s' = ss_streams s \<Longrightarrow>
      ss_heap s' = (ss_heap s)(ss_next s \<mapsto> st) \<Longrightarrow> st_id st = 0 \<Longrightarrow> st_mux st = None \<Longrightarrow>
      pipeline (st_handlers st) [root_handler, ice_handler] \<Longrightarrow> R (0, ss_next s, s')"
  shows "total R (ice_session_create_stream env s)"
proof (cases "se_alloc env s")
  case True
  note f = sess_fresh [OF i] and d = sess_invD [OF i]
  have new: "sess_inv env (H(ss_next s := 1)) s'" if "ss_heap s' = (ss_heap s)(ss_next s \<mapsto> st)" "ss_next s' = ss_next s + 1"
    "ss_streams s' = ss_streams s" "ss_ids s' = ss_ids s" "st_id st = 0" "st_refs st = 1" for s' st
  proof -
    have "listed_ok env s'" using d(1,2) f(2) that unfolding sess_defs by auto
    moreover have "str_refs_ok (H(ss_next s := 1)) s'" using d(3,4,5) sess_pos [OF i] f that unfolding sess_defs by auto
    moreover have "{j. 0 < j \<and> (\<exists>b t. ss_heap s' b = Some t \<and> st_id t = j)} = {j. 0 < j \<and> (\<exists>b t. ss_heap s b = Some t \<and> st_id t = j)}"
      using f(1) that by (auto split: if_splits) (metis option.distinct(1))
    then have "stream_ids_ok env s'" using d(6,7) that unfolding sess_defs by auto
    ultimately show ?thesis by (simp add: sess_inv_def)
  qed
  let ?g = "[root_handler \<mapsto> no_links, ice_handler \<mapsto> no_links]"
  obtain g' where g': "handler_connect ?g root_handler ice_handler = Inr g'" "pipeline g' [root_handler, ice_handler]"
    using connect_chain [of ?g None "[]" root_handler "[]" ice_handler]
    by (auto simp: handler_names no_links_def pipeline_def)
  have "R (0, ss_next s, s\<lparr> ss_next := ss_next s + 1, ss_heap := (ss_heap s)(ss_next s \<mapsto> zero_stream\<lparr> st_handlers := g' \<rparr>) \<rparr>)"
    using g'(2) new by (intro N [of _ "zero_stream\<lparr> st_handlers := g' \<rparr>"]) (simp_all add: zero_stream_def)
  moreover have "R (rc, 0, s)" if "rc \<noteq> 0" for rc using that i by (intro R) (simp_all add: untouched_def)
  moreover have "str_deref env (s\<lparr> ss_heap := (ss_heap s)(ss_next s \<mapsto> zero_stream), ss_next := ss_next s + 1 \<rparr>) (ss_next s) = Inr (s\<lparr> ss_next := ss_next s + 1 \<rparr>)"
    using f(1) by (simp add: str_deref_def get_str_def stream_base_destroy_def fun_upd_idem zero_stream_def)
  moreover have "R (rc, 0, s\<lparr> ss_next := ss_next s + 1 \<rparr>)" if "rc \<noteq> 0" for rc
  proof (rule R [OF that])
    show "sess_inv env H (s\<lparr> ss_next := ss_next s + 1 \<rparr>)" using d sess_pos [OF i] unfolding sess_inv_def sess_defs by auto
  qed (simp add: untouched_def)
  ultimately show ?thesis using True g'(1)
    by (simp add: ice_session_create_stream_def Let_def connect_in_def get_str_def mod_str_def zero_stream_def)
next
  case False
  then show ?thesis using i R [of "general_err ELAERR_OUT_OF_MEMORY" s 0] by (simp add: ice_session_create_stream_def untouched_def oom_negative [THEN less_imp_neq])
qed

lemma add_failed_inv:
  assumes "building env H s0 type options sid upper s" "sess_inv env H s0"
    and "\<And>s'. sess_inv env H s' \<Longrightarrow> untouched env s0 s' \<Longrightarrow> R (-1, s')"
  shows "total R (add_failed env s (ss_next s0) rc)"
  unfolding add_failed_def total_simps
  by (rule discard_building [OF assms(1,2)]) (simp add: assms(3))

lemma mux_create_cases:
  obtains (fails) "mux_fails env" "case se_mux_alloc env s of (al, tb, idsi, w) \<Rightarrow>
      multiplex_handler_create (se_muxenv env r p) al tb idsi w = Inl BadPointer"
  | (works) m where "case se_mux_alloc env s of (al, tb, idsi, w) \<Rightarrow>
      multiplex_handler_create (se_muxenv env r p) al tb idsi w = Inr (0, m)" "mux_inv (se_muxenv env r p) (\<lambda>_. 0) {} m"
proof -
  let ?e = "se_muxenv env r p"
  obtain al tb rc j w where e: "se_mux_alloc env s = (al, tb, (rc, j), w)" by (metis surj_pair)
  note mm = mux_memory [OF e, of r p]
  show thesis
  proof (cases "al \<and> tb \<noteq> None \<and> rc = 0 \<and> \<not> (mx_portforwarding ?e \<and> w < 0)")
    case True
    then have tb: "al" "tb = Some (hashtable_empty (mx_table ?e))" "rc = 0" "\<not> (mx_portforwarding ?e \<and> w < 0)" using mm by auto
    then obtain m where m: "multiplex_handler_create ?e True (Some (hashtable_empty (mx_table ?e))) (0, j) w = Inr (0, m)"
      by (simp add: multiplex_handler_create_def)
    have "mux_inv ?e (\<lambda>_. 0) {} m"
      using mux_callbacks.axioms(1) [OF muxes] m mm tb(3) by (intro create_inv) (auto simp: mux_containers_def)
    then show thesis using m tb e by (intro works [of m]) simp_all
  next
    case False
    then have "mux_fails env" unfolding mux_fails_def using e by (metis (full_types))
    then show thesis using False e by (intro fails) (auto simp: multiplex_handler_create_def split: option.split)
  qed
qed

lemma add_mux_step:
  assumes b: "building env H s0 type options sid [root_handler] s" and i: "sess_inv env H s0"
    and K: "\<And>s. building env H s0 type options sid (root_handler # (if wants_mux options then [mux_handler] else [])) s \<Longrightarrow>
      total R (k s (if wants_mux options then mux_handler else root_handler))"
  shows "total R (add_mux env s (ss_next s0) root_handler k) \<or> lacking env options (add_mux env s (ss_next s0) root_handler k)"
proof -
  note f = sess_fresh [OF i]
  obtain st where st: "ss_heap s (ss_next s0) = Some st" "stream_options options type st = st" "part_ok env [root_handler] st"
    using b by (rule buildingD)
  show ?thesis
  proof (cases "st_multiplexing st")
    case False
    then show ?thesis using st b options_wanted(1) [OF st(2)] K by (simp add: add_mux_def get_str_def)
  next
    case True
    let ?e = "se_muxenv env (st_reliable st) (st_portforwarding st)"
    show ?thesis
    proof (rule mux_create_cases [where s = s and r = "st_reliable st" and p = "st_portforwarding st"], goal_cases)
      case 1
      then show ?thesis
        using True options_wanted(1) [OF st(2)] st(1)
        by (auto simp: lacking_def add_mux_def get_str_def mux_env_of_def split: prod.splits)
    next
      case (2 m)
      let ?st = "st\<lparr> st_mux := Some m \<rparr>"
      let ?s = "s\<lparr> ss_heap := (ss_heap s)(ss_next s0 \<mapsto> ?st) \<rparr>"
      have "total (\<lambda>s. total R (k s mux_handler)) (connect_in ?s (ss_next s0) root_handler mux_handler)"
      proof (rule connect_building [where xs = "[]"])
        have "mux_env_of env ?st = ?e" by (simp add: mux_env_of_def)
        then have "part_ok env [root_handler] ?st" using st(3) 2(2) True by (auto simp: part_ok_def)
        then show "building env H s0 type options sid ([] @ [root_handler]) ?s"
          using building_upd [OF b st(1), of ?st] st(2) f(2) by simp
      qed (use f(2) K True options_wanted(1) [OF st(2)] in \<open>auto simp: handler_names\<close>)
      then show ?thesis using True st(1) 2(1) by (auto simp: add_mux_def get_str_def mod_str_def mux_env_of_def split: prod.splits)
    qed
  qed
qed

lemma add_reliable_step:
  assumes b: "building env H s0 type options sid (xs @ [prev]) s" and i: "sess_inv env H s0"
    and x: "set (xs @ [prev]) \<subseteq> {root_handler, mux_handler}"
    and F: "\<And>s'. sess_inv env H s' \<Longrightarrow> untouched env s0 s' \<Longrightarrow> R (-1, s')"
    and K: "\<And>s. building env H s0 type options sid (xs @ [prev] @ (if wants_reliable options then [reliable_handler] else [])) s \<Longrightarrow>
      total R (k s (if wants_reliable options then reliable_handler else prev))"
  shows "total R (add_reliable env s (ss_next s0) prev k)"
proof -
  obtain st where st: "ss_heap s (ss_next s0) = Some st" "stream_options options type st = st" "part_ok env (xs @ [prev]) st"
    using b by (rule buildingD)
  have failed: "total R (add_failed env s (ss_next s0) rc)" for rc by (rule add_failed_inv [OF b i], rule F)
  have "total (\<lambda>s. total R (k s reliable_handler)) (connect_in s (ss_next s0) prev reliable_handler)" if "st_reliable st"
    by (rule connect_building [OF b])
      (use x st K sess_fresh(2) [OF i] that options_wanted(2) [OF st(2)] in \<open>auto simp: handler_names part_ok_def\<close>)
  then show ?thesis
    using st b options_wanted(2) [OF st(2)] K failed
    by (auto simp: add_reliable_def get_str_def Let_def)
qed

lemma add_crypto_step:
  assumes b: "building env H s0 type options sid (xs @ [prev]) s" and i: "sess_inv env H s0"
    and x: "set (xs @ [prev]) \<subseteq> {root_handler, mux_handler, reliable_handler}"
    and F: "\<And>s'. sess_inv env H s' \<Longrightarrow> untouched env s0 s' \<Longrightarrow> R (-1, s')"
    and K: "\<And>s. building env H s0 type options sid (xs @ [prev] @ (if wants_plain options then [] else [crypto_handler])) s \<Longrightarrow>
      total R (k s)"
  shows "total R (add_crypto env s (ss_next s0) prev k)"
proof -
  obtain st where st: "ss_heap s (ss_next s0) = Some st" "stream_options options type st = st" "part_ok env (xs @ [prev]) st"
    using b by (rule buildingD)
  let ?s = "s\<lparr> ss_crypto_enabled := True \<rparr>"
  have b': "building env H s0 type options sid (xs @ [prev]) ?s" using b by (simp add: building_def)
  have failed: "total R (add_failed env ?s (ss_next s0) rc)" for rc by (rule add_failed_inv [OF b' i], rule F)
  have "total (\<lambda>s. total R (k s)) (connect_in ?s (ss_next s0) prev crypto_handler)" if "\<not> st_unencrypt st"
    by (rule connect_building [OF b'])
      (use x st K sess_fresh(2) [OF i] that options_wanted(3) [OF st(2)] in \<open>auto simp: handler_names part_ok_def\<close>)
  then show ?thesis
    using st b options_wanted(3) [OF st(2)] K failed
    by (auto simp: add_crypto_def get_str_def Let_def)
qed

lemma set_id_inv:
  assumes i: "sess_inv env H s" and h: "ss_heap s a = Some st" "a \<notin> set (ss_streams s)" "st_id st = 0"
    and st: "st_id st' = sid" "st_refs st' = st_refs st"
    and new: "ids_heap_alloc (se_ids env) (ss_ids s) = (sid, ids)" "0 < sid"
  shows "sess_inv env H (s\<lparr> ss_ids := ids, ss_heap := (ss_heap s)(a \<mapsto> st') \<rparr>)" (is "sess_inv _ _ ?s")
proof -
  note d = sess_invD [OF i]
  have list: "listed_ok env ?s" using d(1,2) h(2) unfolding sess_defs by auto
  have refs: "str_refs_ok H ?s" using d(3,4,5) sess_pos [OF i] h st unfolding sess_defs by auto
  have "{j. 0 < j \<and> (\<exists>b t. ss_heap ?s b = Some t \<and> st_id t = j)} = insert sid {j. 0 < j \<and> (\<exists>b t. ss_heap s b = Some t \<and> st_id t = j)}"
    using h st(1) new(2) by (auto split: if_splits) (metis less_irrefl option.inject)
  moreover have "st_id t \<noteq> sid" if "ss_heap s b = Some t" for b t
    using ids_alloc_fresh(3) [OF stream_ids new(1)] new(2) d(7) that by auto
  moreover have "ids_in_use (se_ids env) ids = insert sid (ids_in_use (se_ids env) (ss_ids s))"
    using ids_alloc_fresh(4) [OF stream_ids new(1)] new(2) by simp
  ultimately have "stream_ids_ok env ?s" using d(6,7) st(1) unfolding sess_defs by (auto split: if_splits; metis)
  with list refs show ?thesis by (simp add: sess_inv_def)
qed

lemma set_id_building:
  assumes i: "sess_inv env (H(ss_next s0 := 1)) s" and i0: "sess_inv env H s0" and h: "ss_streams s = ss_streams s0" "ss_ids s = ss_ids s0"
    "ss_heap s = (ss_heap s0)(ss_next s0 \<mapsto> st)" "st_id st = 0" "st_mux st = None" "pipeline (st_handlers st) [root_handler, ice_handler]"
    and a: "ids_heap_alloc (se_ids env) (ss_ids s0) = (sid, ids)" "0 < sid"
  shows "building env H s0 type options sid [root_handler]
    (s\<lparr> ss_ids := ids, ss_heap := (ss_heap s)(ss_next s0 \<mapsto> stream_options options type (st\<lparr> st_id := sid \<rparr>)) \<rparr>)"
    (is "building _ _ _ _ _ _ _ ?s")
proof -
  have "sess_inv env (H(ss_next s0 := 1)) ?s"
    using sess_fresh(2) [OF i0] h a by (intro set_id_inv [OF i]) (auto simp: stream_options_def)
  moreover have "part_ok env [root_handler] (stream_options options type (st\<lparr> st_id := sid \<rparr>))"
    using h(5,6) by (simp add: part_ok_def handler_names stream_options_def)
  ultimately show ?thesis using h(1,3) a(2) by (auto simp: building_def stream_options_def)
qed

text \<open>The stream goes into the list with the reference that its creation left, and gives up the one of the call.\<close>

lemma put_stream_inv:
  assumes i: "sess_inv env H s" and h: "ss_heap s a = Some st" "a \<notin> set (ss_streams s)" "0 < st_id st" "stream_ok env st"
  shows "sess_inv env H (s\<lparr> ss_streams := ss_streams s @ [a], ss_heap := (ss_heap s)(a \<mapsto> st\<lparr> st_refs := st_refs st + 1 \<rparr>) \<rparr>)"
    (is "sess_inv _ _ ?s")
proof -
  note d = sess_invD [OF i]
  have "listed_ok env ?s" using d(1,2) h unfolding sess_defs by auto
  moreover have "str_refs_ok H ?s" using d(3,4,5) sess_pos [OF i] h unfolding sess_defs by auto
  moreover have "{j. 0 < j \<and> (\<exists>b t. ss_heap ?s b = Some t \<and> st_id t = j)} = {j. 0 < j \<and> (\<exists>b t. ss_heap s b = Some t \<and> st_id t = j)}"
    using h(1) by (auto split: if_splits) (metis option.inject)
  then have "stream_ids_ok env ?s" using d(6,7) h(1) unfolding sess_defs by (auto split: if_splits)
  ultimately show ?thesis by (simp add: sess_inv_def)
qed

lemma list_add_inv:
  assumes b: "building env H s0 type options sid upper s" and i: "sess_inv env H s0"
    and u: "upper @ [ice_handler] = root_handler # (if wants_mux options then [mux_handler] else []) @
      (if wants_reliable options then [reliable_handler] else []) @ (if wants_plain options then [] else [crypto_handler]) @ [ice_handler]"
  shows "total (\<lambda>s'. sess_inv env (H(ss_next s0 := 1)) s' \<and> ss_streams s' = ss_streams s0 @ [ss_next s0] \<and>
    (\<exists>st. ss_heap s' = (ss_heap s0)(ss_next s0 \<mapsto> st) \<and> st_id st = sid \<and> st_refs st = 2 \<and> stream_options options type st = st \<and> stream_ok env st))
    (str_ref (s\<lparr> ss_streams := ss_streams s @ [ss_next s0] \<rparr>) (ss_next s0))"
proof -
  note f = sess_fresh [OF i]
  obtain st where st: "sess_inv env (H(ss_next s0 := 1)) s" "ss_streams s = ss_streams s0" "ss_heap s = (ss_heap s0)(ss_next s0 \<mapsto> st)"
    "ss_heap s (ss_next s0) = Some st" "st_id st = sid" "0 < sid" "stream_options options type st = st" "part_ok env upper st"
    using b by (rule buildingD)
  have r: "st_refs st = 1" using sess_invD(3) [OF st(1,4)] st(2) f(2) by simp
  let ?st = "st\<lparr> st_refs := 2 \<rparr>"
  let ?s = "s\<lparr> ss_streams := ss_streams s @ [ss_next s0], ss_heap := (ss_heap s)(ss_next s0 \<mapsto> ?st) \<rparr>"
  have "upper @ [ice_handler] = handler_order st"
    using u options_wanted [OF st(7)] by (simp add: handler_order_def)
  moreover have "(st_mux st \<noteq> None) = st_multiplexing st"
    using st(8) u options_wanted(1) [OF st(7)] by (auto simp: part_ok_def handler_names split: if_splits)
  ultimately have ok: "stream_ok env st" using st(8) by (auto simp: stream_ok_def part_ok_def)
  have "sess_inv env (H(ss_next s0 := 1)) ?s"
    using put_stream_inv [OF st(1,4)] st(2,5,6) f(2) ok r by (simp add: numeral_2_eq_2)
  then show ?thesis
    using st ok r by (auto simp: str_ref_def mod_str_def get_str_def numeral_2_eq_2 intro!: exI [of _ ?st])
qed

text \<open>Taking a stream out of the list: its reference becomes that of the caller.\<close>

lemma take_stream_inv:
  assumes i: "sess_inv env H s" and h: "ss_heap s a = Some st" "a \<in> set (ss_streams s)"
  shows "sess_inv env (H(a := H a + 1)) (s\<lparr> ss_streams := list_remove_entry (ss_streams s) a \<rparr>)" (is "sess_inv _ _ ?s")
proof -
  note d = sess_invD [OF i]
  have "set (ss_streams ?s) = set (ss_streams s) - {a}" "distinct (ss_streams ?s)"
    using d(2) by (simp_all add: list_remove_entry_def)
  moreover from this have "listed_ok env ?s" using d(1) unfolding sess_defs by auto
  moreover have "str_refs_ok (H(a := H a + 1)) ?s"
    using d(3,4,5) sess_pos [OF i] h calculation(1) unfolding sess_defs by auto
  moreover have "stream_ids_ok env ?s" using d(6,7) unfolding sess_defs by auto
  ultimately show ?thesis by (simp add: sess_inv_def)
qed

lemma untouched_ids:
  assumes "sess_inv env H s" "sess_inv env H' s'" "ss_streams s' = ss_streams s" "ss_heap s' = ss_heap s"
  shows "untouched env s s'"
  using sess_invD(7) [OF assms(1)] sess_invD(7) [OF assms(2)] assms(3,4) by (simp add: untouched_def)

lemma add_tail_inv:
  assumes b: "building env H s0 type options sid upper s" and i: "sess_inv env H s0"
    and u: "upper @ [ice_handler] = root_handler # (if wants_mux options then [mux_handler] else []) @
      (if wants_reliable options then [reliable_handler] else []) @ (if wants_plain options then [] else [crypto_handler]) @ [ice_handler]"
    and n: "sid \<le> MAX_STREAM_ID" "sid \<notin> ids_in_use (se_ids env) (ss_ids s0)"
  shows "total (\<lambda>(rc, s'). sess_inv env H s' \<and> (rc = -1 \<and> untouched env s0 s' \<or> added env s0 type options rc s'))
    (bindr (str_ref (s\<lparr> ss_streams := ss_streams s @ [ss_next s0] \<rparr>) (ss_next s0)) (\<lambda>s.
       let rc = se_init env s in
       if rc < 0 then
         bindr (str_deref env (s\<lparr> ss_streams := list_remove_entry (ss_streams s) (ss_next s0) \<rparr>) (ss_next s0)) (\<lambda>s.
         bindr (str_deref env s (ss_next s0)) (\<lambda>s. Inr (-1, set_err_rc s rc)))
       else
         bindr (str_deref env s (ss_next s0)) (\<lambda>s.
         bindr (get_str s (ss_next s0)) (\<lambda>st. Inr (st_id st, s)))))"
  unfolding total_simps(3)
proof (rule total_mono [OF list_add_inv [OF b i u]], elim conjE exE)
  note f = sess_fresh [OF i]
  let ?a = "ss_next s0"
  fix s' st
  assume s': "sess_inv env (H(?a := 1)) s'" "ss_streams s' = ss_streams s0 @ [?a]" "ss_heap s' = (ss_heap s0)(?a \<mapsto> st)"
    and st: "st_id st = sid" "st_refs st = 2" "stream_options options type st = st" "stream_ok env st"
  have "0 < sid" using b by (auto simp: building_def)
  have H: "H(?a := 0) = H" using f(3) by (simp add: fun_upd_idem)
  have h: "ss_heap s' ?a = Some st" using s'(3) by simp
  have r: "list_remove_entry (ss_streams s0 @ [?a]) ?a = ss_streams s0" using f(2) by (simp add: list_remove_entry_def remove1_append)
  let ?t = "s'\<lparr> ss_heap := (ss_heap s0)(?a \<mapsto> st\<lparr> st_refs := 1 \<rparr>) \<rparr>"
  have t: "str_deref env s' ?a = Inr ?t" using h st(2) s'(3) by (simp add: str_deref_def get_str_def)
  have "safely False (sess_inv env ((H(?a := 1))(?a := (H(?a := 1)) ?a - 1))) (str_deref env s' ?a)"
    by (rule str_deref_inv [OF s'(1)]) simp_all
  then have ti: "sess_inv env H ?t" using H by (simp add: t)
  have "added env s0 type options sid ?t"
    using s' st n \<open>0 < sid\<close> by (auto simp: added_def intro!: exI [of _ "st\<lparr> st_refs := 1 \<rparr>"])
  note ok = this
  let ?u = "s'\<lparr> ss_streams := ss_streams s0 \<rparr>"
  have "sess_inv env ((H(?a := 1))(?a := (H(?a := 1)) ?a + 1)) ?u"
    using take_stream_inv [OF s'(1) h] s'(2) r by simp
  then have ui: "sess_inv env (H(?a := 2)) ?u" by (simp add: numeral_2_eq_2)
  have u: "str_deref env ?u ?a = Inr (?t\<lparr> ss_streams := ss_streams s0 \<rparr>)" (is "_ = Inr ?v")
    using h st(2) s'(3) by (simp add: str_deref_def get_str_def)
  have "safely False (sess_inv env ((H(?a := 2))(?a := (H(?a := 2)) ?a - 1))) (str_deref env ?u ?a)"
    by (rule str_deref_inv [OF ui]) simp_all
  then have vi: "sess_inv env (H(?a := 1)) ?v" by (simp add: u)
  have "safely False (\<lambda>s. sess_inv env H s \<and> untouched env s0 s) (str_deref env ?v ?a)"
  proof (rule str_deref_inv [OF vi])
    fix w
    assume w: "sess_inv env ((H(?a := 1))(?a := (H(?a := 1)) ?a - 1)) w" "ss_streams w = ss_streams ?v"
      "\<forall>b. b \<noteq> ?a \<longrightarrow> ss_heap w b = ss_heap ?v b"
    then have "sess_inv env H w" using H by simp
    moreover from this have "ss_heap w ?a = None" using sess_invD(3) [of env H w ?a] w(2) f(2,3) by (cases "ss_heap w ?a") auto
    then have "ss_heap w = ss_heap s0" using w(3) f(1) by (simp add: fun_eq_iff) metis
    ultimately show "sess_inv env H w \<and> untouched env s0 w" using w(2) untouched_ids [OF i] by simp
  qed simp
  then have "total (\<lambda>s. sess_inv env H s \<and> untouched env s0 s) (str_deref env ?v ?a)" by (simp add: safely_total)
  note failed = total_mono [OF this [unfolded One_nat_def]]
  show "total (\<lambda>(rc, s'). sess_inv env H s' \<and> (rc = -1 \<and> untouched env s0 s' \<or> added env s0 type options rc s'))
    (let rc = se_init env s' in
       if rc < 0 then
         bindr (str_deref env (s'\<lparr> ss_streams := list_remove_entry (ss_streams s') ?a \<rparr>) ?a) (\<lambda>s.
         bindr (str_deref env s ?a) (\<lambda>s. Inr (-1, set_err_rc s rc)))
       else
         bindr (str_deref env s' ?a) (\<lambda>s. bindr (get_str s ?a) (\<lambda>st. Inr (st_id st, s))))"
    using ok ti st(1) r s'(2) by (auto simp: Let_def t u get_str_def intro!: failed)
qed

text \<open>No number is left.\<close>

lemma no_id_inv:
  assumes i: "sess_inv env H s" and s': "sess_inv env (H(ss_next s := 1)) s'" "ss_ids s' = ss_ids s" "ss_streams s' = ss_streams s"
    "ss_heap s' = (ss_heap s)(ss_next s \<mapsto> st)" and al: "ids_heap_alloc (se_ids env) (ss_ids s) = (sid, ids)" "sid < 0"
  shows "total (\<lambda>w. sess_inv env H w \<and> untouched env s w)
    (str_deref env (s'\<lparr> ss_ids := ids, ss_heap := (ss_heap s')(ss_next s \<mapsto> st\<lparr> st_id := sid \<rparr>) \<rparr>) (ss_next s))"
proof -
  note f = sess_fresh [OF i] and d = sess_invD [OF i]
  have ids: "ids_in_use (se_ids env) ids = ids_in_use (se_ids env) (ss_ids s)" by (rule ids_alloc_none [OF stream_ids al])
  have "ss_heap s' (ss_next s) = Some st" using s'(4) by simp
  from sess_invD(3) [OF s'(1) this] have r: "st_refs st = 1" using f(2) s'(3) by simp
  let ?w = "s'\<lparr> ss_ids := ids, ss_heap := ss_heap s \<rparr>"
  have e: "str_deref env (s'\<lparr> ss_ids := ids, ss_heap := (ss_heap s')(ss_next s \<mapsto> st\<lparr> st_id := sid \<rparr>) \<rparr>) (ss_next s) = Inr ?w"
    using r f(1) s'(4) al(2) by (simp add: str_deref_def get_str_def stream_base_destroy_def fun_upd_idem)
  have "listed_ok env ?w" using d(1,2) s'(3) unfolding sess_defs by auto
  moreover have "ss_heap s a = None" if "ss_next s' \<le> a" for a
    using sess_invD(5) [OF s'(1) that] s'(4) by (auto split: if_splits)
  then have "str_refs_ok H ?w" using d(3,4) sess_pos [OF i] s'(3) unfolding sess_defs by auto
  moreover have "stream_ids_ok env ?w" using d(6,7) ids unfolding sess_defs by auto
  ultimately have "sess_inv env H ?w" by (simp add: sess_inv_def)
  then show ?thesis using e s'(3) ids by (simp add: untouched_def)
qed

lemma add_handlers_inv:
  assumes b: "building env H s0 type options sid [root_handler] s" and i: "sess_inv env H s0"
    and F: "\<And>s'. sess_inv env H s' \<Longrightarrow> untouched env s0 s' \<Longrightarrow> R (-1, s')"
    and K: "\<And>s upper. building env H s0 type options sid upper s \<Longrightarrow>
      upper @ [ice_handler] = root_handler # (if wants_mux options then [mux_handler] else []) @
      (if wants_reliable options then [reliable_handler] else []) @ (if wants_plain options then [] else [crypto_handler]) @ [ice_handler] \<Longrightarrow>
      total R (k s)"
  shows "total R (add_mux env s (ss_next s0) root_handler (\<lambda>s prev. add_reliable env s (ss_next s0) prev (\<lambda>s prev.
      add_crypto env s (ss_next s0) prev k))) \<or>
    lacking env options (add_mux env s (ss_next s0) root_handler (\<lambda>s prev. add_reliable env s (ss_next s0) prev (\<lambda>s prev.
      add_crypto env s (ss_next s0) prev k)))"
proof (rule add_mux_step [OF b i])
  fix s
  assume m: "building env H s0 type options sid (root_handler # (if wants_mux options then [mux_handler] else [])) s"
  let ?p = "if wants_mux options then mux_handler else root_handler"
  let ?xs = "if wants_mux options then [root_handler] else []"
  have "building env H s0 type options sid (?xs @ [?p]) s" using m by (cases "wants_mux options") simp_all
  then show "total R (add_reliable env s (ss_next s0) ?p (\<lambda>s prev. add_crypto env s (ss_next s0) prev k))"
  proof (rule add_reliable_step [where R = R, OF _ i _ F])
    fix s
    assume r: "building env H s0 type options sid (?xs @ [?p] @ (if wants_reliable options then [reliable_handler] else [])) s"
    let ?q = "if wants_reliable options then reliable_handler else ?p"
    let ?ys = "if wants_reliable options then ?xs @ [?p] else ?xs"
    have "building env H s0 type options sid (?ys @ [?q]) s" using r by (simp split: if_splits)
    then show "total R (add_crypto env s (ss_next s0) ?q k)"
    proof (rule add_crypto_step [where R = R, OF _ i _ F])
      fix s
      assume "building env H s0 type options sid (?ys @ [?q] @ (if wants_plain options then [] else [crypto_handler])) s"
      then show "total R (k s)" by (rule K) simp
    qed auto
  qed auto
qed

lemma add_stream_inv:
  assumes i: "sess_inv env H s"
  shows "total (\<lambda>(rc, s'). sess_inv env H s' \<and> (rc = -1 \<and> untouched env s s' \<or> added env s type options rc s'))
    (ela_session_add_stream env s type options) \<or> lacking env options (ela_session_add_stream env s type options)" (is "total ?R _ \<or> _")
proof (cases "type = ElaStreamType_audio \<or> type = ElaStreamType_video")
  case True
  then show ?thesis using i untouched_ids [OF i i] by (simp add: ela_session_add_stream_def)
next
  case False
  have F: "?R (-1, s')" if "sess_inv env H s'" "untouched env s s'" for s' using that by simp
  obtain sid ids where al: "ids_heap_alloc (se_ids env) (ss_ids s) = (sid, ids)" by fastforce
  let ?k = "\<lambda>rc a s. if rc \<noteq> 0 then Inr (-1, set_err_rc s rc)
        else
          (let (sid, ids) = ids_heap_alloc (se_ids env) (ss_ids s); s = s\<lparr> ss_ids := ids \<rparr> in
           bindr (mod_str s a (\<lambda>st. st\<lparr> st_id := sid \<rparr>)) (\<lambda>s.
           if sid \<le> 0 then
             bindr (str_deref env s a) (\<lambda>s. Inr (-1, set_err s (ELA_GENERAL_ERROR ELAERR_OUT_OF_MEMORY)))
           else
             bindr (mod_str s a (stream_options options type)) (\<lambda>s.
             add_mux env s a root_handler (\<lambda>s prev.
             add_reliable env s a prev (\<lambda>s prev.
             add_crypto env s a prev (\<lambda>s.
             bindr (str_ref (s\<lparr> ss_streams := ss_streams s @ [a] \<rparr>) a) (\<lambda>s.
             let rc = se_init env s in
             if rc < 0 then
               bindr (str_deref env (s\<lparr> ss_streams := list_remove_entry (ss_streams s) a \<rparr>) a) (\<lambda>s.
               bindr (str_deref env s a) (\<lambda>s. Inr (-1, set_err_rc s rc)))
             else
               bindr (str_deref env s a) (\<lambda>s.
               bindr (get_str s a) (\<lambda>st. Inr (st_id st, s))))))))))"
  have "total (\<lambda>(rc, a, s). total ?R (?k rc a s) \<or> lacking env options (?k rc a s))
    (ice_session_create_stream env s)"
  proof (rule create_stream_inv [OF i], goal_cases)
    case (1 rc a s')
    then show ?case by simp
  next
    case (2 s' st)
    note s' = 2
    have h: "ss_heap s' (ss_next s) = Some st" using s'(4) by simp
    have al': "ids_heap_alloc (se_ids env) (ss_ids s') = (sid, ids)" using al s'(2) by simp
    show ?case
    proof (cases "sid \<le> 0")
      case True
      have "sid < 0" using True ids_alloc_fresh(1) [OF stream_ids al] by fastforce
      with no_id_inv [OF i s'(1-4) al] show ?thesis
        using True h by (auto simp: al' mod_str_def get_str_def total_def)
    next
      case False
      note al_ok = ids_alloc_fresh [OF stream_ids al]
      have b: "building env H s type options sid [root_handler]
          (s'\<lparr> ss_ids := ids, ss_heap := (ss_heap s')(ss_next s \<mapsto> stream_options options type (st\<lparr> st_id := sid \<rparr>)) \<rparr>)"
        using False s' al by (intro set_id_building [OF s'(1) i]) auto
      let ?m = "add_mux env (s'\<lparr> ss_ids := ids, ss_heap := (ss_heap s')(ss_next s \<mapsto> stream_options options type (st\<lparr> st_id := sid \<rparr>)) \<rparr>)
          (ss_next s) root_handler (\<lambda>s1 prev. add_reliable env s1 (ss_next s) prev (\<lambda>s1 prev. add_crypto env s1 (ss_next s) prev (\<lambda>s1.
           bindr (str_ref (s1\<lparr> ss_streams := ss_streams s1 @ [ss_next s] \<rparr>) (ss_next s)) (\<lambda>s1.
             let rc = se_init env s1 in
             if rc < 0 then
               bindr (str_deref env (s1\<lparr> ss_streams := list_remove_entry (ss_streams s1) (ss_next s) \<rparr>) (ss_next s)) (\<lambda>s1.
               bindr (str_deref env s1 (ss_next s)) (\<lambda>s1. Inr (-1, set_err_rc s1 rc)))
             else
               bindr (str_deref env s1 (ss_next s)) (\<lambda>s1.
               bindr (get_str s1 (ss_next s)) (\<lambda>st. Inr (st_id st, s1)))))))"
      have "total ?R ?m \<or> lacking env options ?m"
        by (rule add_handlers_inv [OF b i], simp, erule add_tail_inv [OF _ i]) (use False al_ok(2,3) in auto)
      with False h show ?thesis by (simp add: al' mod_str_def get_str_def)
    qed
  qed
  then show ?thesis using False by (auto simp: ela_session_add_stream_def total_def lacking_def split_def)
qed

end

section \<open>What adding a stream leaves alone\<close>

text \<open>
  The services of the session, and the flag for encryption if it is set. A call that fails after the flag was set does not reset it.
\<close>

definition flags_kept :: "('h, 'i, 'j, 'v) session \<Rightarrow> ('h, 'i, 'j, 'v) session \<Rightarrow> bool" where
  "flags_kept s s' \<longleftrightarrow> ss_services s' = ss_services s \<and> (ss_crypto_enabled s \<longrightarrow> ss_crypto_enabled s')"

lemma flags_simps [simp]:
  "flags_kept s s" "flags_kept s (x\<lparr> ss_heap := h \<rparr>) = flags_kept s x" "flags_kept s (x\<lparr> ss_next := n \<rparr>) = flags_kept s x"
  "flags_kept s (x\<lparr> ss_heap := h, ss_next := n \<rparr>) = flags_kept s x"
  "flags_kept s (x\<lparr> ss_ids := i \<rparr>) = flags_kept s x" "flags_kept s (x\<lparr> ss_streams := l \<rparr>) = flags_kept s x"
  "flags_kept s (set_err x e) = flags_kept s x" "flags_kept s (set_err_rc x rc) = flags_kept s x"
  "flags_kept s x \<Longrightarrow> flags_kept s (x\<lparr> ss_crypto_enabled := True \<rparr>)"
  by (simp_all add: flags_kept_def set_err_def set_err_rc_def)

lemma mod_str_flags: "flags_kept s x \<Longrightarrow> (\<And>x. flags_kept s x \<Longrightarrow> R x) \<Longrightarrow> post R (mod_str x a f)"
  by (auto simp: mod_str_def get_str_def split: option.split)

lemma str_deref_flags: "flags_kept s x \<Longrightarrow> (\<And>x. flags_kept s x \<Longrightarrow> R x) \<Longrightarrow> post R (str_deref env x a)"
  by (auto simp: str_deref_def get_str_def stream_base_destroy_def split: option.split)

lemma any_str_flags: "(\<And>st. R st) \<Longrightarrow> post R (get_str x a)" "(\<And>g. Q g) \<Longrightarrow> post Q (handler_connect h prev n)"
  by (simp_all add: post_def)

lemma connect_in_flags: "flags_kept s x \<Longrightarrow> (\<And>x. flags_kept s x \<Longrightarrow> R x) \<Longrightarrow> post R (connect_in x a prev h)"
  unfolding connect_in_def post_simps by (intro any_str_flags mod_str_flags) auto

lemma add_failed_flags: "flags_kept s x \<Longrightarrow> (\<And>x. flags_kept s x \<Longrightarrow> R (-1, x)) \<Longrightarrow> post R (add_failed env x a rc)"
  unfolding add_failed_def post_simps by (rule str_deref_flags) auto

lemma add_handler_flags:
  assumes "flags_kept s x" and F: "\<And>x. flags_kept s x \<Longrightarrow> R (-1, x)"
  shows "(\<And>x prev. flags_kept s x \<Longrightarrow> post R (k x prev)) \<Longrightarrow> post R (add_mux env x a prev k)"
    "(\<And>x prev. flags_kept s x \<Longrightarrow> post R (k x prev)) \<Longrightarrow> post R (add_reliable env x a prev k)"
    "(\<And>x. flags_kept s x \<Longrightarrow> post R (c x)) \<Longrightarrow> post R (add_crypto env x a prev c)"
proof -
  have m: "post Q (multiplex_handler_create e al tb i w)" if "\<And>y. Q y" for Q e al tb i w using that by (simp add: post_def)
  note rules = any_str_flags connect_in_flags [where s = s] mod_str_flags [where s = s] add_failed_flags [where s = s] F m
  show "post R (add_mux env x a prev k)" if "\<And>x prev. flags_kept s x \<Longrightarrow> post R (k x prev)"
    unfolding add_mux_def using assms(1) by (auto split: prod.split intro!: rules that)
  show "post R (add_reliable env x a prev k)" if "\<And>x prev. flags_kept s x \<Longrightarrow> post R (k x prev)"
    unfolding add_reliable_def Let_def using assms(1) by (auto intro!: rules that)
  show "post R (add_crypto env x a prev c)" if "\<And>x. flags_kept s x \<Longrightarrow> post R (c x)"
    unfolding add_crypto_def Let_def using assms(1) by (auto intro!: rules that)
qed

lemma add_stream_flags: "post (\<lambda>(rc, s'). flags_kept s s') (ela_session_add_stream env s type options)"
proof -
  have create: "post R (ice_session_create_stream env s)" if "\<And>rc a x. flags_kept s x \<Longrightarrow> R (rc, a, x)" for R
    unfolding ice_session_create_stream_def Let_def
    by (auto intro!: that connect_in_flags [where s = s] str_deref_flags [where s = s])
  show ?thesis
    unfolding ela_session_add_stream_def Let_def split_def str_ref_def
    by (auto intro!: create mod_str_flags [where s = s] str_deref_flags [where s = s] add_handler_flags [where s = s] any_str_flags)
qed

end
