(* ===== verification/Session_Run.thy ===== *)
theory Session_Run
  imports Session_Add
begin

text \<open>
  Runs of a session: the functions of its user, in any order and with any arguments, and the events of its streams.
  The invariant of theory \<open>Session_Inv\<close> holds in every run; streams are added completely or not at all, and found
  by their numbers. The last section has defects of the code.
\<close>

section \<open>Runs\<close>

datatype session_input =
    AddStream ElaStreamType u32 | RemoveStream int | StreamWrite int "byte list" | GetType int | GetState int | GetInfo int
  | OpenChannel int "byte list option" | CloseChannel int int | WriteChannel int int "byte list" | PendChannel int int
  | ResumeChannel int int | AddService string int string string | RemoveService string
  | StateChanged addr ElaStreamState | MuxInput addr mux_input

definition no_result :: "('a \<times> 'b) res \<Rightarrow> 'b res" where
  "no_result m = bindr m (\<lambda>(_, s). Inr s)"

definition session_exec ::
    "('h, 'i, 'j, 'v) session_env \<Rightarrow> ('h, 'i, 'j, 'v) session \<Rightarrow> session_input \<Rightarrow> ('h, 'i, 'j, 'v) session res" where
  "session_exec env s i = (case i of
     AddStream type options \<Rightarrow> no_result (ela_session_add_stream env s type options)
   | RemoveStream stream \<Rightarrow> no_result (ela_session_remove_stream env s stream)
   | StreamWrite stream data \<Rightarrow> no_result (ela_stream_write env s stream data)
   | GetType stream \<Rightarrow> no_result (ela_stream_get_type env s stream)
   | GetState stream \<Rightarrow> no_result (ela_stream_get_state env s stream)
   | GetInfo stream \<Rightarrow> no_result (ela_stream_get_transport_info env s stream)
   | OpenChannel stream cookie \<Rightarrow> no_result (ela_stream_open_channel env s stream cookie)
   | CloseChannel stream channel \<Rightarrow> no_result (ela_stream_close_channel env s stream channel)
   | WriteChannel stream channel data \<Rightarrow> no_result (ela_stream_write_channel env s stream channel data)
   | PendChannel stream channel \<Rightarrow> no_result (ela_stream_pend_channel env s stream channel)
   | ResumeChannel stream channel \<Rightarrow> no_result (ela_stream_resume_channel env s stream channel)
   | AddService service protocol host port \<Rightarrow> Inr (snd (ela_session_add_service env s service protocol host port))
   | RemoveService service \<Rightarrow> Inr (ela_session_remove_service env s service)
   | StateChanged a state \<Rightarrow> stream_on_state_changed env s a state
   | MuxInput a i \<Rightarrow> no_result (call_mux env s a () (\<lambda>menv m. bindr (mux_exec menv m i) (\<lambda>m. Inr ((), m)))))"

text \<open>
  What the functions expect: the number of a channel to close is positive (\<open>ela_stream_close_channel\<close> does not
  check it), a cookie is shorter than 4 GB, and events come for streams of the session.
\<close>

definition session_input_ok :: "('h, 'i, 'j, 'v) session_env \<Rightarrow> ('h, 'i, 'j, 'v) session \<Rightarrow> session_input \<Rightarrow> bool" where
  "session_input_ok env s i = (case i of
     CloseChannel stream channel \<Rightarrow> channel > 0
   | OpenChannel stream (Some str) \<Rightarrow> length str < 2 ^ 32
   | StateChanged a state \<Rightarrow> a \<in> set (ss_streams s)
   | MuxInput a i \<Rightarrow> a \<in> set (ss_streams s) \<and> (\<forall>r p. input_ok (se_muxenv env r p) i)
   | _ \<Rightarrow> True)"

definition session_loops :: "session_input \<Rightarrow> bool" where
  "session_loops i = (case i of RemoveStream stream \<Rightarrow> True | MuxInput a i \<Rightarrow> True
     | StateChanged a st \<Rightarrow> st = ElaStreamState_closed \<or> st = ElaStreamState_failed | _ \<Rightarrow> False)"

text \<open>The one input that may end in undefined behaviour: a stream with a multiplexer, when creating the multiplexer fails.\<close>

definition no_mux_memory :: "('h, 'i, 'j, 'v) session_env \<Rightarrow> session_input \<Rightarrow> 'a res \<Rightarrow> bool" where
  "no_mux_memory env i m = (case i of AddStream type options \<Rightarrow> lacking env options m | _ \<Rightarrow> False)"

definition new_session :: "'j \<Rightarrow> ('h, 'i, 'j, 'v) session" where
  "new_session ids = \<lparr> ss_streams = [], ss_heap = Map.empty, ss_next = 0, ss_ids = ids, ss_error = 0,
     ss_crypto_enabled = False, ss_services = None \<rparr>"

inductive session_run :: "('h, 'i, 'j, 'v) session_env \<Rightarrow> ('h, 'i, 'j, 'v) session \<Rightarrow> bool"
  for env :: "('h, 'i, 'j, 'v) session_env" where
  new: "ids_in_use (se_ids env) ids = {} \<Longrightarrow> session_run env (new_session ids)"
| step: "session_run env s \<Longrightarrow> session_input_ok env s i \<Longrightarrow> session_exec env s i = Inr s' \<Longrightarrow> session_run env s'"

lemma user_buffer:
  assumes "length data \<le> unat ELA_MAX_USER_DATA_LEN"
  shows "total (\<lambda>buf. buf_ready (Some buf)) (flex_buffer_from junk FLEX_PADDING_LEN data (of_nat (length data)))"
proof -
  have "unat (of_nat (length data) :: u64) = length data"
    using assms by (intro unat_of_nat_small) (simp add: ELA_MAX_USER_DATA_LEN_def)
  then have "total (\<lambda>b. flex_ok b \<and> flex_data b = data \<and> fb_offset b = FLEX_PADDING_LEN \<and>
      fb_size b = of_nat (length data)) (flex_buffer_from junk FLEX_PADDING_LEN data (of_nat (length data)))"
    using assms by (intro flex_from_spec) (simp_all add: FLEX_PADDING_LEN_def ELA_MAX_USER_DATA_LEN_def)
  then show ?thesis
    by (rule total_mono) (simp add: buf_ready_def FLEX_PADDING_LEN_def PROTOCOL_HEAD_LEN_def)
qed

context session_services
begin

lemma listed_get:
  assumes "sess_inv env H s" "a \<in> set (ss_streams s)" "\<And>st. ss_heap s a = Some st \<Longrightarrow> R st"
  shows "safely D' R (get_str s a)"
  using sess_invD(1) [OF assms(1,2)] assms(3) by (auto simp: get_str_def)

lemma queries_inv:
  assumes i: "sess_inv env H s"
  shows "safely D (sess_inv env H) (no_result (ela_stream_get_type env s stream))"
    "safely D (sess_inv env H) (no_result (ela_stream_get_state env s stream))"
    "safely D (sess_inv env H) (no_result (ela_stream_get_transport_info env s stream))"
  unfolding no_result_def ela_stream_get_type_def ela_stream_get_state_def ela_stream_get_transport_info_def safely_simps
  by (rule with_stream_inv [OF i]; auto simp: status_result_def intro!: listed_get)+

lemma channels_inv:
  assumes i: "sess_inv env H s"
  shows "(\<And>str. cookie = Some str \<Longrightarrow> length str < 2 ^ 32) \<Longrightarrow>
      safely D (sess_inv env H) (no_result (ela_stream_open_channel env s stream cookie))"
    "0 < channel \<Longrightarrow> safely D (sess_inv env H) (no_result (ela_stream_close_channel env s stream channel))"
    "safely D (sess_inv env H) (no_result (ela_stream_pend_channel env s stream channel))"
    "safely D (sess_inv env H) (no_result (ela_stream_resume_channel env s stream channel))"
  unfolding no_result_def ela_stream_open_channel_def ela_stream_close_channel_def ela_stream_pend_channel_def
    ela_stream_resume_channel_def safely_simps
  by (rule with_stream_inv [OF i]; auto simp: status_result_def split: if_splits intro!: listed_get call_mux_inv
      mux_callbacks.open_channel_inv [OF muxes] mux_callbacks.channel_calls_inv [OF muxes])+

lemma written_inv: "sess_inv env H s \<Longrightarrow> (case status_result (\<lambda>rc. rc) (rc, s) of (rc, x) \<Rightarrow> sess_inv env H x)"
  by (simp add: status_result_def)

lemma write_mux_inv:
  assumes "mux_inv (se_muxenv env r p) H B m" "buf_ready (Some buf)" "\<And>rc m'. mux_inv (se_muxenv env r p) H B m' \<Longrightarrow> R (rc, m')"
  shows "safely D R (multiplex_handler_write (se_muxenv env r p) m buf)"
  unfolding multiplex_handler_write_def
  using assms by (auto intro!: mux_callbacks.channel_calls_inv [OF muxes])

lemma writes_inv:
  assumes i: "sess_inv env H s"
  shows "safely D (sess_inv env H) (no_result (ela_stream_write env s stream data))"
    "safely D (sess_inv env H) (no_result (ela_stream_write_channel env s stream channel data))"
proof -
  note buf = total_safely [OF user_buffer]
  show "safely D (sess_inv env H) (no_result (ela_stream_write env s stream data))"
    unfolding no_result_def ela_stream_write_def safely_simps
    by (rule with_stream_inv [OF i])
      (auto simp: status_result_def split: if_splits intro!: listed_get buf call_mux_inv write_mux_inv)
  show "safely D (sess_inv env H) (no_result (ela_stream_write_channel env s stream channel data))"
    unfolding no_result_def ela_stream_write_channel_def safely_simps
    by (rule with_stream_inv [OF i])
      (auto split: if_splits intro!: listed_get buf call_mux_inv mux_callbacks.channel_calls_inv [OF muxes])
qed

lemma events_inv:
  assumes i: "sess_inv env H s" and a: "a \<in> set (ss_streams s)"
  shows "(st = ElaStreamState_closed \<or> st = ElaStreamState_failed \<Longrightarrow> D) \<Longrightarrow> safely D (sess_inv env H) (stream_on_state_changed env s a st)"
    "D \<Longrightarrow> (\<And>r p. input_ok (se_muxenv env r p) mi \<and> \<not> mx_log_args (se_muxenv env r p)) \<Longrightarrow>
      safely D (sess_inv env H) (no_result (call_mux env s a () (\<lambda>menv m. bindr (mux_exec menv m mi) (\<lambda>m. Inr ((), m)))))"
proof -
  assume d: "st = ElaStreamState_closed \<or> st = ElaStreamState_failed \<Longrightarrow> D"
  have set_state: "safely D (sess_inv env H) (stream_base_on_state_chagned s' a st)" if s': "sess_inv env H s'" "ss_streams s' = ss_streams s" for s'
  proof -
    obtain x where x: "ss_heap s' a = Some x" using sess_invD(1) [OF s'(1)] s'(2) a by auto
    have e: "handler_order (x\<lparr> st_state := y \<rparr>) = handler_order x" "mux_env_of env (x\<lparr> st_state := y \<rparr>) = mux_env_of env x" for y
      by (simp_all add: handler_order_def mux_env_of_def)
    have "sess_inv env H (s'\<lparr> ss_heap := (ss_heap s')(a \<mapsto> x\<lparr> st_state := Some st \<rparr>) \<rparr>)"
      using sess_invD(3) [OF s'(1) x, THEN conjunct1] by (intro upd_stream_inv [OF s'(1) x]) (simp_all add: stream_ok_def e)
    then show ?thesis using x by (simp add: stream_base_on_state_chagned_def mod_str_def get_str_def)
  qed
  have "safely D (mux_inv (se_muxenv env r p) (\<lambda>_. 0) {}) (multiplex_handler_on_state_changed (se_muxenv env r p) m st)"
    if "mux_inv (se_muxenv env r p) (\<lambda>_. 0) {} m" for r p m
    using mux_callbacks.state_changed_inv [OF muxes d that] by simp
  then show "safely D (sess_inv env H) (stream_on_state_changed env s a st)"
    unfolding stream_on_state_changed_def safely_simps
    by (intro call_mux_inv [OF i a]) (auto intro: set_state)
next
  assume *: D "\<And>r p. input_ok (se_muxenv env r p) mi \<and> \<not> mx_log_args (se_muxenv env r p)"
  have "safely D (mux_inv (se_muxenv env r p) (\<lambda>_. 0) {}) (mux_exec (se_muxenv env r p) m mi)"
    if "mux_inv (se_muxenv env r p) (\<lambda>_. 0) {} m" for r p m
    by (rule mux_callbacks.mux_exec_inv [OF muxes]) (use * that in simp_all)
  then show "safely D (sess_inv env H) (no_result (call_mux env s a () (\<lambda>menv m. bindr (mux_exec menv m mi) (\<lambda>m. Inr ((), m)))))"
    unfolding no_result_def safely_simps by (intro call_mux_inv [OF i a]) auto
qed

lemma pipeline_stop_inv:
  assumes s: "sess_inv env H s" "a \<in> set (ss_streams s)" and D
  shows "safely D (sess_inv env H) (pipeline_stop env s a)"
proof -
  obtain st where st: "ss_heap s a = Some st" "stream_ok env st" using sess_invD(1) [OF s] by blast
  have "safely D (\<lambda>s. sess_inv env H s \<and> a \<in> set (ss_streams s)) (case st_mux st of None \<Rightarrow> Inr s
      | Some m \<Rightarrow> bindr (multiplex_handler_stop (mux_env_of env st) m 0) (\<lambda>m'. mod_str s a (\<lambda>st. st\<lparr> st_mux := Some m' \<rparr>)))"
  proof (cases "st_mux st")
    case (Some m)
    have "safely D (mux_inv (mux_env_of env st) (\<lambda>_. 0) {}) (multiplex_handler_stop (mux_env_of env st) m 0)"
      unfolding mux_env_of_def
      by (rule mux_callbacks.handler_calls_inv [OF muxes \<open>D\<close>]) (use st(2) Some in \<open>auto simp: stream_ok_def mux_env_of_def\<close>)
    then have "safely D (\<lambda>m'. safely D (\<lambda>s. sess_inv env H s \<and> a \<in> set (ss_streams s)) (mod_str s a (\<lambda>st. st\<lparr> st_mux := Some m' \<rparr>)))
        (multiplex_handler_stop (mux_env_of env st) m 0)"
      by (rule safely_mono) (use s set_mux_inv [OF s(1) st(1) Some] in \<open>auto simp: mod_str_eq [OF st(1)]\<close>)
    then show ?thesis by (simp add: Some)
  qed (use s in simp)
  moreover have "safely D (sess_inv env H) (if stream_live st then stream_on_state_changed env s' a ElaStreamState_closed else Inr s')"
    if "sess_inv env H s' \<and> a \<in> set (ss_streams s')" for s'
    using that events_inv(1) [of H s' a ElaStreamState_closed] \<open>D\<close> by simp
  ultimately show ?thesis
    unfolding pipeline_stop_def using st(1) by (simp add: get_str_def) (erule safely_mono, simp)
qed

lemma remove_inv:
  assumes i: "sess_inv env H s" and D
  shows "safely D (sess_inv env H) (no_result (ela_session_remove_stream env s stream))"
  unfolding no_result_def ela_session_remove_stream_def safely_simps
proof (rule with_stream_inv [OF i])
  fix s a
  let ?H = "H(a := H a + 1)"
  assume s: "sess_inv env ?H s" "a \<in> set (ss_streams s)"
  have "safely D (\<lambda>s'. sess_inv env ?H s')
      (if a \<in> set (ss_streams s') then str_deref env (s'\<lparr> ss_streams := list_remove_entry (ss_streams s') a \<rparr>) a else Inr s')"
    if s': "sess_inv env ?H s'" for s'
  proof (cases "a \<in> set (ss_streams s')")
    case True
    then obtain st where "ss_heap s' a = Some st" using sess_invD(1) s' by blast
    then have t: "sess_inv env (?H(a := ?H a + 1)) (s'\<lparr> ss_streams := list_remove_entry (ss_streams s') a \<rparr>)"
      using take_stream_inv s' True by blast
    have "safely D (sess_inv env ?H) (str_deref env (s'\<lparr> ss_streams := list_remove_entry (ss_streams s') a \<rparr>) a)"
      by (rule str_deref_inv [OF t]) simp_all
    then show ?thesis using True by simp
  qed (use s' in simp)
  then show "safely D (\<lambda>(rc, s'). sess_inv env ?H s') (bindr (pipeline_stop env s a) (\<lambda>s.
       bindr (if a \<in> set (ss_streams s)
              then str_deref env (s\<lparr> ss_streams := list_remove_entry (ss_streams s) a \<rparr>) a else Inr s) (\<lambda>s.
       Inr (0 :: int, s))))"
    using safely_mono [OF pipeline_stop_inv [OF s \<open>D\<close>]] by simp
qed simp

lemma services_inv:
  assumes "sess_inv env H s"
  shows "sess_inv env H (snd (ela_session_add_service env s service protocol host port))"
    "sess_inv env H (ela_session_remove_service env s service)"
  using assms by (auto simp: ela_session_add_service_def ela_session_remove_service_def Let_def split: option.splits)

lemma session_exec_inv:
  assumes "sess_inv env H s" "session_input_ok env s i" "session_loops i \<Longrightarrow> D" "\<And>r p. \<not> mx_log_args (se_muxenv env r p)"
  shows "safely D (sess_inv env H) (session_exec env s i) \<or> no_mux_memory env i (session_exec env s i)"
proof (cases i)
  case (AddStream type options)
  then show ?thesis
    using add_stream_inv [OF assms(1), of type options] by (auto simp: session_exec_def no_result_def total_def lacking_def no_mux_memory_def)
next
  case (OpenChannel stream cookie)
  then show ?thesis
    using assms(2) channels_inv(1) [OF assms(1), of cookie stream] by (cases cookie) (auto simp: session_exec_def session_input_ok_def)
qed (use assms queries_inv channels_inv(2-) writes_inv remove_inv events_inv services_inv in
  \<open>auto simp: session_exec_def session_input_ok_def session_loops_def\<close>)

end

lemma new_session_inv: "ids_in_use (se_ids env) ids = {} \<Longrightarrow> sess_inv env (\<lambda>_. 0) (new_session ids)"
  by (simp add: sess_inv_def sess_defs new_session_def)

section \<open>The environment\<close>

text \<open>
  What is asked of the environment: the containers keep their contracts, also that containers are empty when they are created, and
  the neighbours of the multiplexer leave it alone, except for the user, who may call back to any depth. The arguments of log lines
  are not evaluated. Every allocation may fail.
\<close>

definition session_env_ok :: "('h, 'i, 'j, 'v) session_env \<Rightarrow> bool" where
  "session_env_ok env \<longleftrightarrow> ids_heap_ok (se_ids env) MAX_STREAM_ID \<and>
     (\<forall>r p. \<exists>n base u. se_muxenv env r p = nested_env n base u \<and> hashtable_ok (mx_table base) \<and>
        ids_heap_ok (mx_idops base) MAX_CHANNEL_ID \<and> quiet base \<and> \<not> mx_log_args base) \<and>
     (\<forall>s r p al tb rc j w. se_mux_alloc env s = (al, tb, (rc, j), w) \<longrightarrow>
        (\<forall>t. tb = Some t \<longrightarrow> t = hashtable_empty (mx_table (se_muxenv env r p))) \<and>
        (rc = 0 \<longrightarrow> ids_in_use (mx_idops (se_muxenv env r p)) j = {}))"

lemma session_env_services:
  assumes "session_env_ok env"
  shows "session_services env D"
proof (rule session_services.intro)
  show "mux_callbacks (se_muxenv env r p) D" for r p
  proof -
    obtain n base u where "se_muxenv env r p = nested_env n base u" "hashtable_ok (mx_table base)"
      "ids_heap_ok (mx_idops base) MAX_CHANNEL_ID" "quiet base"
      using assms unfolding session_env_ok_def by blast
    then show ?thesis using nested_callbacks [of base n u D] by simp
  qed
  show "(\<forall>t. tb = Some t \<longrightarrow> t = hashtable_empty (mx_table (se_muxenv env r p))) \<and>
      (rc = 0 \<longrightarrow> ids_in_use (mx_idops (se_muxenv env r p)) j = {})"
    if "se_mux_alloc env s = (al, tb, (rc, j), w)" for s r p al tb rc j w
    using assms that unfolding session_env_ok_def by blast
qed (use assms in \<open>simp_all add: session_env_ok_def\<close>)

lemma session_env_log: "session_env_ok env \<Longrightarrow> \<not> mx_log_args (se_muxenv env r p)"
  unfolding session_env_ok_def by (metis nested_env_fields(3))

lemma session_run_inv:
  assumes "session_env_ok env" "session_run env s"
  shows "sess_inv env (\<lambda>_. 0) s"
  using assms(2)
proof induction
  case (step s i s')
  then show ?case
    using session_services.session_exec_inv [OF session_env_services [OF assms(1)] step.IH step.hyps(2), of True]
      session_env_log [OF assms(1)] by (auto simp: no_mux_memory_def lacking_def split: session_input.splits)
qed (rule new_session_inv)

text \<open>An environment with the containers of theory \<open>Crystal\<close>.\<close>

definition model_session where
  "model_session alloc ice menv n u rel cry init wr info junk = \<lparr>
     se_ids = list_ids MAX_STREAM_ID, se_svctab = alist_table, se_alloc = alloc, se_ice_handler_create = ice,
     se_muxenv = (\<lambda>r p. nested_env n (menv r p) u), se_mux_alloc = (\<lambda>s. (True, Some (0, []), (0, []), 0)),
     se_reliable_create = rel, se_crypto_create = cry, se_init = init, se_write = wr, se_get_info = info, se_junk = junk \<rparr>"

lemma fresh_containers: "hashtable_empty alist_table = (0, [])" "ids_in_use (list_ids mx) [] = {}"
  by (simp_all add: alist_table_def list_ids_def)

lemma model_session_ok:
  "session_env_ok (model_session alloc ice (\<lambda>r p. model_env malloc now junk r p fuel w) n u rel cry init wr info junk')"
proof -
  let ?env = "model_session alloc ice (\<lambda>r p. model_env malloc now junk r p fuel w) n u rel cry init wr info junk'"
  have "\<exists>n' base u'. se_muxenv ?env r p = nested_env n' base u' \<and> hashtable_ok (mx_table base) \<and>
      ids_heap_ok (mx_idops base) MAX_CHANNEL_ID \<and> quiet base \<and> \<not> mx_log_args base" for r p
    by (intro exI [of _ n] exI [of _ u] exI [of _ "model_env malloc now junk r p fuel w"])
      (simp add: model_session_def alist_table_ok list_ids_ok)
  then show ?thesis
    unfolding session_env_ok_def by (simp add: model_session_def list_ids_ok fresh_containers)
qed

interpretation model_session: session_services
  "model_session alloc ice (\<lambda>r p. model_env malloc now junk r p fuel w) n u rel cry init wr info junk'" D
  for alloc ice malloc now junk fuel w n u rel cry init wr info junk' D
  by (rule session_env_services [OF model_session_ok])

section \<open>Examples\<close>

text \<open>A session with the containers of theory \<open>Crystal\<close>, where every call below succeeds; its user makes no calls of its own.\<close>

definition demo_session where
  "demo_session = model_session (\<lambda>_. True) (\<lambda>_. 0)
     (\<lambda>r p. model_env (\<lambda>_. True) (\<lambda>_. \<lparr> tv_sec = 5, tv_usec = 0 \<rparr>) (\<lambda>_. 0) r p 10 (\<lambda>_ bs. int (length bs))) 1 (\<lambda>e s. (True, []))
     (\<lambda>_. 0) (\<lambda>_. 0) (\<lambda>_. 0) (\<lambda>_ _ _. 0) (\<lambda>_ _. 0) (\<lambda>_. 0)"

lemma demo_session_ok: "session_env_ok demo_session"
  unfolding demo_session_def by (rule model_session_ok)

lemma demo_session_fields [simp]:
  "se_ids demo_session = list_ids MAX_STREAM_ID" "se_alloc demo_session s" "se_ice_handler_create demo_session s = 0"
  "se_mux_alloc demo_session s = (True, Some (0, []), (0, []), 0)" "se_reliable_create demo_session s = 0"
  "se_crypto_create demo_session s = 0" "se_init demo_session s = 0"
  by (simp_all add: demo_session_def model_session_def)

lemma demo_start: "session_run demo_session (new_session [])"
  by (rule session_run.new) (simp add: list_ids_def)

lemmas add_stream_defs = ela_session_add_stream_def new_session_def ice_session_create_stream_def Let_def connect_in_def
  get_str_def mod_str_def zero_stream_def handler_connect_def get_handler_def upd_handler_def handler_names no_links_def
  list_ids_def MAX_STREAM_ID_def stream_options_def ELA_STREAM_COMPRESS_def ELA_STREAM_PLAIN_def ELA_STREAM_RELIABLE_def
  ELA_STREAM_MULTIPLEXING_def ELA_STREAM_PORT_FORWARDING_def
  add_mux_def add_reliable_def add_crypto_def multiplex_handler_create_def str_ref_def str_deref_def

lemma demo_add:
  "\<exists>s st. ela_session_add_stream demo_session (new_session []) ElaStreamType_text 0x08 = Inr (1, s) \<and> ss_streams s = [0] \<and>
     ss_heap s 0 = Some st \<and> st_mux st \<noteq> None \<and> st_id st = 1"
  "\<exists>s st. ela_session_add_stream demo_session (new_session []) ElaStreamType_text 0x02 = Inr (1, s) \<and> ss_streams s = [0] \<and>
     ss_heap s 0 = Some st \<and> st_mux st = None \<and> st_id st = 1"
  by (simp_all add: add_stream_defs)

lemma demo_added:
  assumes "ela_session_add_stream demo_session (new_session []) type options = Inr (rc, s)"
  shows "session_run demo_session s"
  by (rule session_run.step [OF demo_start, of "AddStream type options"])
    (simp_all add: assms session_input_ok_def session_exec_def no_result_def)

lemma demo_mux_stream:
  "\<exists>s st. session_run demo_session s \<and> ss_streams s = [0] \<and> ss_heap s 0 = Some st \<and> st_mux st \<noteq> None \<and> st_id st = 1"
  using demo_add(1) demo_added by blast

lemma demo_plain_stream:
  "\<exists>s st. session_run demo_session s \<and> ss_streams s = [0] \<and> ss_heap s 0 = Some st \<and> st_mux st = None \<and> st_id st = 1 \<and>
     st_state st = Some ElaStreamState_connected"
proof -
  obtain s st where s: "session_run demo_session s" "ss_streams s = [0]" "ss_heap s 0 = Some st" "st_mux st = None" "st_id st = 1"
    using demo_add(2) demo_added by blast
  let ?st = "st\<lparr> st_state := Some ElaStreamState_connected \<rparr>"
  let ?s = "s\<lparr> ss_heap := (ss_heap s)(0 \<mapsto> ?st) \<rparr>"
  have "session_run demo_session ?s"
    by (rule session_run.step [OF s(1), of "StateChanged 0 ElaStreamState_connected"])
      (use s in \<open>simp_all add: session_input_ok_def session_exec_def stream_on_state_changed_def call_mux_def get_str_def
        stream_base_on_state_chagned_def mod_str_def\<close>)
  with s show ?thesis by (intro exI [of _ ?s] exI [of _ ?st]) simp
qed

section \<open>Properties\<close>

lemma get_stream_iter_eq:
  assumes "\<And>a. a \<in> set it \<Longrightarrow> \<exists>st. ss_heap s a = Some st \<and> 0 < st_refs st"
  shows "get_stream_iter env s it n = (case find (\<lambda>a. st_id (the (ss_heap s a)) = n) it of None \<Rightarrow> Inr (None, s)
    | Some a \<Rightarrow> Inr (Some a, s\<lparr> ss_heap := (ss_heap s)(a \<mapsto> (the (ss_heap s a))\<lparr> st_refs := st_refs (the (ss_heap s a)) + 1 \<rparr>) \<rparr>))"
  using assms
proof (induction it)
  case (Cons a it)
  then obtain st where st: "ss_heap s a = Some st" "0 < st_refs st" by auto
  then have "s\<lparr> ss_heap := (ss_heap s)(a \<mapsto> st) \<rparr> = s" by (simp add: fun_upd_idem)
  with Cons st show ?case by (simp add: str_ref_def mod_str_def get_str_def str_deref_def)
qed simp

lemma get_stream_cases:
  assumes "session_env_ok env" "session_run env s" "0 < n"
  obtains (found) a st where "a \<in> set (ss_streams s)" "ss_heap s a = Some st" "st_id st = n" "0 < st_refs st"
      "get_stream env s n = Inr (Some a, s\<lparr> ss_heap := (ss_heap s)(a \<mapsto> st\<lparr> st_refs := st_refs st + 1 \<rparr>) \<rparr>)"
    | (missing) "\<forall>a \<in> set (ss_streams s). st_id (the (ss_heap s a)) \<noteq> n" "get_stream env s n = Inr (None, s)"
proof -
  note i = session_run_inv [OF assms(1,2)]
  have l: "\<exists>st. ss_heap s a = Some st \<and> 0 < st_refs st" if "a \<in> set (ss_streams s)" for a
    using sess_invD(1) [OF i that] sess_invD(3) [OF i] by blast
  note e = get_stream_iter_eq [of "ss_streams s" s env n, OF l]
  show ?thesis
  proof (cases "find (\<lambda>a. st_id (the (ss_heap s a)) = n) (ss_streams s)")
    case None
    then have "\<forall>a \<in> set (ss_streams s). st_id (the (ss_heap s a)) \<noteq> n" by (simp add: find_None_iff)
    then show ?thesis using e None assms(3) by (intro missing) (simp_all add: get_stream_def)
  next
    case (Some a)
    then have a: "a \<in> set (ss_streams s)" "st_id (the (ss_heap s a)) = n" by (auto simp: find_Some_iff)
    obtain st where "ss_heap s a = Some st" "0 < st_refs st" using l [OF a(1)] by blast
    then show ?thesis using e Some a assms(3) by (intro found [of a st]) (simp_all add: get_stream_def)
  qed
qed

lemma get_listed_stream:
  assumes "session_env_ok env" "session_run env s" "a \<in> set (ss_streams s)" "ss_heap s a = Some st"
  shows "0 < st_id st \<and> 0 < st_refs st \<and>
    get_stream env s (st_id st) = Inr (Some a, s\<lparr> ss_heap := (ss_heap s)(a \<mapsto> st\<lparr> st_refs := st_refs st + 1 \<rparr>) \<rparr>)"
proof -
  note i = session_run_inv [OF assms(1,2)]
  have n: "0 < st_id st" using sess_invD(1) [OF i assms(3)] assms(4) by auto
  from assms(1,2) n show ?thesis
  proof (cases rule: get_stream_cases)
    case (found b st')
    moreover have "b = a" using sess_invD(6) [OF i found(2) assms(4)] found(3) n by simp
    ultimately show ?thesis using assms(4) n by simp
  next
    case missing
    then show ?thesis using assms(3,4) by auto
  qed
qed

text \<open>
  C5. Safety of every run of a session that starts without streams, with an environment in which the containers keep their contracts, the
  neighbours of the multiplexers leave them alone (the users of channels may call back to any depth) and arguments of log lines are not
  evaluated. Its inputs are the functions of its user, with any arguments except that a channel that is closed has a positive number
  (\<open>ela_stream_close_channel\<close> does not check it) and a cookie is shorter than 4 GB, and the events of its listed streams, where datagrams
  for a multiplexer are at least a header long. Then no function follows a dangling pointer, fails an assertion or releases a reference that
  it does not hold, and afterwards every stream of the list is alive, has a number of its own and the pipeline of handlers that its options
  ask for, and the only references to streams are those of the list; with one exception: a stream with a multiplexer is added and creating the
  multiplexer fails. Functions without a loop over channels return; the others may not return when the user's callbacks go on for ever.
\<close>

theorem session_run_safe:
  assumes "session_env_ok env" "session_run env s" "session_input_ok env s i"
  shows "(if session_loops i then safely True (sess_inv env (\<lambda>_. 0)) (session_exec env s i)
      else (\<exists>s'. session_exec env s i = Inr s' \<and> sess_inv env (\<lambda>_. 0) s')) \<or>
    no_mux_memory env i (session_exec env s i)"
  using session_services.session_exec_inv [OF session_env_services [OF assms(1)] session_run_inv [OF assms(1,2)] assms(3), of "session_loops i"]
    session_env_log [OF assms(1)]
  by (auto simp: safely_total total_def)

lemma session_run_safe_witness:
  "\<exists>s'. session_exec demo_session (new_session []) (AddStream ElaStreamType_text 0x0C) = Inr s' \<and> sess_inv demo_session (\<lambda>_. 0) s'"
  using session_run_safe [OF demo_session_ok demo_start, of "AddStream ElaStreamType_text 0x0C"]
  by (auto simp: session_input_ok_def session_loops_def no_mux_memory_def lacking_def mux_fails_def)

text \<open>
  C26. Adding a stream is atomic, in every state of a run of a session. Either the call reports -1 and the list, the streams and the numbers in
  use are as before; or it returns a number that was not in use, and the list has one stream more: with this number, the type and the options of
  the call, and the handlers from top to bottom that the options ask for. In both cases the services are as before, and the flag for encryption
  of the session stays set if it was set; a call that fails after it has set the flag does not reset it. The one exception is a call that asks
  for a multiplexer while creating one fails: the error paths of \<open>multiplex_handler_create\<close> release a wrong pointer.
\<close>

theorem add_stream_complete:
  assumes "session_env_ok env" "session_run env s"
  shows "(\<exists>rc s'. ela_session_add_stream env s type options = Inr (rc, s') \<and> flags_kept s s' \<and>
      (rc = -1 \<and> untouched env s s' \<or> added env s type options rc s')) \<or>
    lacking env options (ela_session_add_stream env s type options)"
  using session_services.add_stream_inv [OF session_env_services [OF assms(1)] session_run_inv [OF assms], of type options]
    add_stream_flags [of s env type options]
  by (auto simp: total_def)

lemma add_stream_complete_witness:
  "\<exists>s'. ela_session_add_stream demo_session (new_session []) ElaStreamType_text 0x08 = Inr (1, s') \<and>
     flags_kept (new_session []) s' \<and> added demo_session (new_session []) ElaStreamType_text 0x08 1 s'"
  using add_stream_complete [OF demo_session_ok demo_start, of ElaStreamType_text "0x08"] demo_add(1) by (auto simp: lacking_def)

text \<open>
  \<open>get_stream\<close> finds the stream with the given number if the session has it, and takes one reference to it; otherwise it
  returns NULL, and the references it took on the way are given back.
\<close>

theorem get_stream_finds:
  assumes "session_env_ok env" "session_run env s" "0 < n"
  shows "(\<exists>a st. a \<in> set (ss_streams s) \<and> ss_heap s a = Some st \<and> st_id st = n \<and>
      get_stream env s n = Inr (Some a, s\<lparr> ss_heap := (ss_heap s)(a \<mapsto> st\<lparr> st_refs := st_refs st + 1 \<rparr>) \<rparr>)) \<or>
    (\<forall>a \<in> set (ss_streams s). st_id (the (ss_heap s a)) \<noteq> n) \<and> get_stream env s n = Inr (None, s)"
  using get_stream_cases [OF assms] by metis

lemma get_stream_finds_witness:
  "\<exists>s s'. ss_streams s = [0] \<and> get_stream demo_session s 1 = Inr (Some 0, s')"
proof -
  obtain s st where s: "session_run demo_session s" "ss_streams s = [0]" "ss_heap s 0 = Some st" "st_id st = 1"
    using demo_mux_stream by blast
  have "\<exists>s'. get_stream demo_session s 1 = Inr (Some 0, s')"
    using get_stream_finds [OF demo_session_ok s(1), of 1] s by auto
  with s(2) show ?thesis by blast
qed

section \<open>Defects\<close>

text \<open>
  \<open>ela_stream_close_channel\<close> does not check the number of the channel, as its siblings do; for a number that is
  not positive the multiplexer fails an assertion.
\<close>

theorem close_channel_aborts:
  assumes "session_env_ok env" "session_run env s" "a \<in> set (ss_streams s)" "ss_heap s a = Some st" "st_mux st \<noteq> None"
    and "channel \<le> 0"
  shows "ela_stream_close_channel env s (st_id st) channel = Inl AssertFail"
  using get_listed_stream [OF assms(1-4)] assms(5,6)
  by (auto simp: ela_stream_close_channel_def with_stream_def call_mux_def get_str_def multiplex_handler_close_channel_def)

lemma close_channel_aborts_witness:
  "\<exists>s. session_run demo_session s \<and> ela_stream_close_channel demo_session s 1 0 = Inl AssertFail"
proof -
  obtain s st where s: "session_run demo_session s" "ss_streams s = [0]" "ss_heap s 0 = Some st" "st_mux st \<noteq> None" "st_id st = 1"
    using demo_mux_stream by blast
  then show ?thesis using close_channel_aborts [OF demo_session_ok s(1), of 0 st 0] by auto
qed

text \<open>
  On a stream without a multiplexer, \<open>ela_stream_write_channel\<close> returns a positive number, as if that many
  bytes had been written, and does not set the error: the error code is converted to \<open>ssize_t\<close> without a sign.
\<close>

theorem write_channel_no_mux:
  assumes "session_env_ok env" "session_run env s" "a \<in> set (ss_streams s)" "ss_heap s a = Some st" "st_mux st = None"
    and "st_state st = Some ElaStreamState_connected" "0 \<le> channel" "length data \<le> unat ELA_MAX_USER_DATA_LEN"
  shows "ela_stream_write_channel env s (st_id st) channel data = Inr (0x8100000F, s)"
proof -
  have "s\<lparr> ss_heap := (ss_heap s)(a \<mapsto> st) \<rparr> = s" using assms(4) by (simp add: fun_upd_idem)
  moreover have "ssize_of_unsigned (ELA_GENERAL_ERROR ELAERR_WRONG_STATE) = 0x8100000F"
    by (simp add: ssize_of_unsigned_def ELA_GENERAL_ERROR_def ELA_MK_ERROR_def ela_codes)
  ultimately show ?thesis
    using get_listed_stream [OF assms(1-4)] assms(5-)
    by (simp add: ela_stream_write_channel_def with_stream_def call_mux_def get_str_def str_deref_def)
qed

lemma write_channel_no_mux_witness:
  "\<exists>s. session_run demo_session s \<and> ela_stream_write_channel demo_session s 1 3 [1, 2] = Inr (0x8100000F, s)"
proof -
  obtain s st where s: "session_run demo_session s" "ss_streams s = [0]" "ss_heap s 0 = Some st" "st_mux st = None" "st_id st = 1"
    "st_state st = Some ElaStreamState_connected"
    using demo_plain_stream by blast
  then show ?thesis
    using write_channel_no_mux [OF demo_session_ok s(1), of 0 st 3 "[1, 2]"] by (auto simp: ELA_MAX_USER_DATA_LEN_def)
qed

end
