(* ===== verification/ElaCP.thy ===== *)
theory ElaCP
  imports Ela
begin

text \<open>
  The packets of the carrier protocol: \<open>src/carrier/elacp.c\<close>, with the schema \<open>elacp.fbs\<close>. A packet in memory is an
  \<open>ElaCP\<close>: a C structure for each type of packet, with pointers that may be NULL. On the wire it is a FlatBuffers table.

  The FlatBuffers library is the parameter \<open>flatcc_lib\<close>: it turns the tables of the schema into bytes and back. Where the
  schema has an optional field, the table has an option. A pointer and a length are one field here, of type
  \<open>byte list option\<close>.
\<close>

section \<open>Packets\<close>

definition ELACP_TYPE_USERINFO :: u8 where "ELACP_TYPE_USERINFO = 3"
definition ELACP_TYPE_FRIEND_REQUEST :: u8 where "ELACP_TYPE_FRIEND_REQUEST = 6"
definition ELACP_TYPE_MESSAGE :: u8 where "ELACP_TYPE_MESSAGE = 33"
definition ELACP_TYPE_INVITE_REQUEST :: u8 where "ELACP_TYPE_INVITE_REQUEST = 34"
definition ELACP_TYPE_INVITE_RESPONSE :: u8 where "ELACP_TYPE_INVITE_RESPONSE = 35"

lemmas elacp_types = ELACP_TYPE_USERINFO_def ELACP_TYPE_FRIEND_REQUEST_def ELACP_TYPE_MESSAGE_def
  ELACP_TYPE_INVITE_REQUEST_def ELACP_TYPE_INVITE_RESPONSE_def

type_synonym tid = "64 word"

record ElaCPUserInfo =
  ui_has_avatar :: bool
  ui_name :: "string option"
  ui_descr :: "string option"
  ui_phone :: "string option"
  ui_gender :: "string option"
  ui_email :: "string option"
  ui_region :: "string option"

record ElaCPFriendReq =
  fr_name :: "string option"
  fr_descr :: "string option"
  fr_hello :: "string option"

record ElaCPFriendMsg =
  fm_msg :: "byte list option"

record ElaCPInviteReq =
  iq_tid :: tid
  iq_bundle :: "string option"
  iq_totalsz :: u64
  iq_data :: "byte list option"

record ElaCPInviteRsp =
  ip_tid :: tid
  ip_bundle :: "string option"
  ip_totalsz :: u64
  ip_status :: u32
  ip_reason :: "string option"
  ip_data :: "byte list option"

datatype elacp_packet =
    PktInfo ElaCPUserInfo | PktFreq ElaCPFriendReq | PktFmsg ElaCPFriendMsg | PktIreq ElaCPInviteReq | PktIrsp ElaCPInviteRsp

text \<open>The header has the type, which says which member of the union is meant, and the name of the extension.\<close>

record ElaCP =
  cp_ext :: "string option"
  cp_packet :: elacp_packet

definition elacp_get_type :: "ElaCP \<Rightarrow> u8" where
  "elacp_get_type cp = (case cp_packet cp of
     PktInfo _ \<Rightarrow> ELACP_TYPE_USERINFO | PktFreq _ \<Rightarrow> ELACP_TYPE_FRIEND_REQUEST | PktFmsg _ \<Rightarrow> ELACP_TYPE_MESSAGE
   | PktIreq _ \<Rightarrow> ELACP_TYPE_INVITE_REQUEST | PktIrsp _ \<Rightarrow> ELACP_TYPE_INVITE_RESPONSE)"

text \<open>\<open>elacp_create\<close>: a packet of zeros; \<open>allocated\<close> is the outcome of \<open>calloc\<close>.\<close>

definition elacp_create :: "bool \<Rightarrow> u8 \<Rightarrow> string option \<Rightarrow> ElaCP option res" where
  "elacp_create allocated type ext_name =
     bindr
       (if type = ELACP_TYPE_USERINFO then
          Inr (PktInfo \<lparr> ui_has_avatar = False, ui_name = None, ui_descr = None, ui_phone = None, ui_gender = None,
            ui_email = None, ui_region = None \<rparr>)
        else if type = ELACP_TYPE_FRIEND_REQUEST then Inr (PktFreq \<lparr> fr_name = None, fr_descr = None, fr_hello = None \<rparr>)
        else if type = ELACP_TYPE_MESSAGE then Inr (PktFmsg \<lparr> fm_msg = None \<rparr>)
        else if type = ELACP_TYPE_INVITE_REQUEST then
          Inr (PktIreq \<lparr> iq_tid = 0, iq_bundle = None, iq_totalsz = 0, iq_data = None \<rparr>)
        else if type = ELACP_TYPE_INVITE_RESPONSE then
          Inr (PktIrsp \<lparr> ip_tid = 0, ip_bundle = None, ip_totalsz = 0, ip_status = 0, ip_reason = None, ip_data = None \<rparr>)
        else Inl AssertFail)
       (\<lambda>p. Inr (if allocated then Some \<lparr> cp_ext = ext_name, cp_packet = p \<rparr> else None))"

section \<open>Reading fields\<close>

definition elacp_get_extension :: "ElaCP \<Rightarrow> string option" where
  "elacp_get_extension cp = cp_ext cp"

definition elacp_get_name :: "ElaCP \<Rightarrow> string option res" where
  "elacp_get_name cp = (case cp_packet cp of PktInfo p \<Rightarrow> Inr (ui_name p) | PktFreq p \<Rightarrow> Inr (fr_name p) | _ \<Rightarrow> Inl AssertFail)"

definition elacp_get_descr :: "ElaCP \<Rightarrow> string option res" where
  "elacp_get_descr cp = (case cp_packet cp of PktInfo p \<Rightarrow> Inr (ui_descr p) | PktFreq p \<Rightarrow> Inr (fr_descr p) | _ \<Rightarrow> Inl AssertFail)"

definition elacp_get_gender :: "ElaCP \<Rightarrow> string option res" where
  "elacp_get_gender cp = (case cp_packet cp of PktInfo p \<Rightarrow> Inr (ui_gender p) | _ \<Rightarrow> Inl AssertFail)"

definition elacp_get_phone :: "ElaCP \<Rightarrow> string option res" where
  "elacp_get_phone cp = (case cp_packet cp of PktInfo p \<Rightarrow> Inr (ui_phone p) | _ \<Rightarrow> Inl AssertFail)"

definition elacp_get_email :: "ElaCP \<Rightarrow> string option res" where
  "elacp_get_email cp = (case cp_packet cp of PktInfo p \<Rightarrow> Inr (ui_email p) | _ \<Rightarrow> Inl AssertFail)"

definition elacp_get_region :: "ElaCP \<Rightarrow> string option res" where
  "elacp_get_region cp = (case cp_packet cp of PktInfo p \<Rightarrow> Inr (ui_region p) | _ \<Rightarrow> Inl AssertFail)"

definition elacp_get_has_avatar :: "ElaCP \<Rightarrow> bool res" where
  "elacp_get_has_avatar cp = (case cp_packet cp of PktInfo p \<Rightarrow> Inr (ui_has_avatar p) | _ \<Rightarrow> Inl AssertFail)"

definition elacp_get_hello :: "ElaCP \<Rightarrow> string option res" where
  "elacp_get_hello cp = (case cp_packet cp of PktFreq p \<Rightarrow> Inr (fr_hello p) | _ \<Rightarrow> Inl AssertFail)"

definition elacp_get_tid :: "ElaCP \<Rightarrow> tid res" where
  "elacp_get_tid cp = (case cp_packet cp of PktIreq p \<Rightarrow> Inr (iq_tid p) | PktIrsp p \<Rightarrow> Inr (ip_tid p) | _ \<Rightarrow> Inl AssertFail)"

definition elacp_get_totalsz :: "ElaCP \<Rightarrow> u64 res" where
  "elacp_get_totalsz cp = (case cp_packet cp of PktIreq p \<Rightarrow> Inr (iq_totalsz p) | PktIrsp p \<Rightarrow> Inr (ip_totalsz p) | _ \<Rightarrow> Inl AssertFail)"

definition elacp_get_status :: "ElaCP \<Rightarrow> u32 res" where
  "elacp_get_status cp = (case cp_packet cp of PktIrsp p \<Rightarrow> Inr (ip_status p) | _ \<Rightarrow> Inl AssertFail)"

definition elacp_get_raw_data :: "ElaCP \<Rightarrow> byte list option res" where
  "elacp_get_raw_data cp = (case cp_packet cp of PktFmsg p \<Rightarrow> Inr (fm_msg p) | PktIreq p \<Rightarrow> Inr (iq_data p)
     | PktIrsp p \<Rightarrow> Inr (ip_data p) | _ \<Rightarrow> Inl AssertFail)"

text \<open>The length that belongs to a pointer.\<close>

definition data_len :: "byte list option \<Rightarrow> u64" where
  "data_len d = (case d of None \<Rightarrow> 0 | Some bs \<Rightarrow> of_nat (length bs))"

definition elacp_get_raw_data_length :: "ElaCP \<Rightarrow> u64 res" where
  "elacp_get_raw_data_length cp = bindr (elacp_get_raw_data cp) (\<lambda>d. Inr (data_len d))"

definition elacp_get_bundle :: "ElaCP \<Rightarrow> string option res" where
  "elacp_get_bundle cp = (case cp_packet cp of PktIreq p \<Rightarrow> Inr (iq_bundle p) | PktIrsp p \<Rightarrow> Inr (ip_bundle p) | _ \<Rightarrow> Inl AssertFail)"

definition elacp_get_reason :: "ElaCP \<Rightarrow> string option res" where
  "elacp_get_reason cp = (case cp_packet cp of PktIrsp p \<Rightarrow> Inr (ip_reason p) | _ \<Rightarrow> Inl AssertFail)"

section \<open>Writing fields\<close>

definition set_packet :: "ElaCP \<Rightarrow> elacp_packet \<Rightarrow> ElaCP res" where
  "set_packet cp p = Inr (cp\<lparr> cp_packet := p \<rparr>)"

text \<open>Arguments that are pointers may be NULL, which is an assertion failure where the code says so.\<close>

definition not_null :: "'a option \<Rightarrow> 'a res" where
  "not_null x = (case x of None \<Rightarrow> Inl AssertFail | Some y \<Rightarrow> Inr y)"

definition elacp_set_name :: "ElaCP \<Rightarrow> string option \<Rightarrow> ElaCP res" where
  "elacp_set_name cp name = bindr (not_null name) (\<lambda>_. case cp_packet cp of
     PktInfo p \<Rightarrow> set_packet cp (PktInfo (p\<lparr> ui_name := name \<rparr>)) | PktFreq p \<Rightarrow> set_packet cp (PktFreq (p\<lparr> fr_name := name \<rparr>))
   | _ \<Rightarrow> Inl AssertFail)"

definition elacp_set_descr :: "ElaCP \<Rightarrow> string option \<Rightarrow> ElaCP res" where
  "elacp_set_descr cp descr = bindr (not_null descr) (\<lambda>_. case cp_packet cp of
     PktInfo p \<Rightarrow> set_packet cp (PktInfo (p\<lparr> ui_descr := descr \<rparr>)) | PktFreq p \<Rightarrow> set_packet cp (PktFreq (p\<lparr> fr_descr := descr \<rparr>))
   | _ \<Rightarrow> Inl AssertFail)"

definition elacp_set_gender :: "ElaCP \<Rightarrow> string option \<Rightarrow> ElaCP res" where
  "elacp_set_gender cp gender = bindr (not_null gender) (\<lambda>_. case cp_packet cp of
     PktInfo p \<Rightarrow> set_packet cp (PktInfo (p\<lparr> ui_gender := gender \<rparr>)) | _ \<Rightarrow> Inl AssertFail)"

definition elacp_set_phone :: "ElaCP \<Rightarrow> string option \<Rightarrow> ElaCP res" where
  "elacp_set_phone cp phone = bindr (not_null phone) (\<lambda>_. case cp_packet cp of
     PktInfo p \<Rightarrow> set_packet cp (PktInfo (p\<lparr> ui_phone := phone \<rparr>)) | _ \<Rightarrow> Inl AssertFail)"

definition elacp_set_email :: "ElaCP \<Rightarrow> string option \<Rightarrow> ElaCP res" where
  "elacp_set_email cp email = bindr (not_null email) (\<lambda>_. case cp_packet cp of
     PktInfo p \<Rightarrow> set_packet cp (PktInfo (p\<lparr> ui_email := email \<rparr>)) | _ \<Rightarrow> Inl AssertFail)"

definition elacp_set_region :: "ElaCP \<Rightarrow> string option \<Rightarrow> ElaCP res" where
  "elacp_set_region cp region = bindr (not_null region) (\<lambda>_. case cp_packet cp of
     PktInfo p \<Rightarrow> set_packet cp (PktInfo (p\<lparr> ui_region := region \<rparr>)) | _ \<Rightarrow> Inl AssertFail)"

definition elacp_set_has_avatar :: "ElaCP \<Rightarrow> int \<Rightarrow> ElaCP res" where
  "elacp_set_has_avatar cp has_avatar = (case cp_packet cp of
     PktInfo p \<Rightarrow> set_packet cp (PktInfo (p\<lparr> ui_has_avatar := (has_avatar \<noteq> 0) \<rparr>)) | _ \<Rightarrow> Inl AssertFail)"

definition elacp_set_hello :: "ElaCP \<Rightarrow> string option \<Rightarrow> ElaCP res" where
  "elacp_set_hello cp hello = bindr (not_null hello) (\<lambda>_. case cp_packet cp of
     PktFreq p \<Rightarrow> set_packet cp (PktFreq (p\<lparr> fr_hello := hello \<rparr>)) | _ \<Rightarrow> Inl AssertFail)"

definition elacp_set_tid :: "ElaCP \<Rightarrow> tid \<Rightarrow> ElaCP res" where
  "elacp_set_tid cp t = (case cp_packet cp of
     PktIreq p \<Rightarrow> set_packet cp (PktIreq (p\<lparr> iq_tid := t \<rparr>)) | PktIrsp p \<Rightarrow> set_packet cp (PktIrsp (p\<lparr> ip_tid := t \<rparr>))
   | _ \<Rightarrow> Inl AssertFail)"

definition elacp_set_totalsz :: "ElaCP \<Rightarrow> u64 \<Rightarrow> ElaCP res" where
  "elacp_set_totalsz cp totalsz = (case cp_packet cp of
     PktIreq p \<Rightarrow> set_packet cp (PktIreq (p\<lparr> iq_totalsz := totalsz \<rparr>))
   | PktIrsp p \<Rightarrow> set_packet cp (PktIrsp (p\<lparr> ip_totalsz := totalsz \<rparr>)) | _ \<Rightarrow> Inl AssertFail)"

definition elacp_set_status :: "ElaCP \<Rightarrow> u32 \<Rightarrow> ElaCP res" where
  "elacp_set_status cp status = (case cp_packet cp of
     PktIrsp p \<Rightarrow> set_packet cp (PktIrsp (p\<lparr> ip_status := status \<rparr>)) | _ \<Rightarrow> Inl AssertFail)"

definition elacp_set_raw_data :: "ElaCP \<Rightarrow> byte list option \<Rightarrow> ElaCP res" where
  "elacp_set_raw_data cp data = bindr (not_null data) (\<lambda>_. bindr (g_assert (data_len data > 0)) (\<lambda>_. case cp_packet cp of
     PktFmsg p \<Rightarrow> set_packet cp (PktFmsg (p\<lparr> fm_msg := data \<rparr>)) | PktIreq p \<Rightarrow> set_packet cp (PktIreq (p\<lparr> iq_data := data \<rparr>))
   | PktIrsp p \<Rightarrow> set_packet cp (PktIrsp (p\<lparr> ip_data := data \<rparr>)) | _ \<Rightarrow> Inl AssertFail))"

definition elacp_set_bundle :: "ElaCP \<Rightarrow> string option \<Rightarrow> ElaCP res" where
  "elacp_set_bundle cp bdl = (case cp_packet cp of
     PktIreq p \<Rightarrow> set_packet cp (PktIreq (p\<lparr> iq_bundle := bdl \<rparr>)) | PktIrsp p \<Rightarrow> set_packet cp (PktIrsp (p\<lparr> ip_bundle := bdl \<rparr>))
   | _ \<Rightarrow> Inl AssertFail)"

definition elacp_set_reason :: "ElaCP \<Rightarrow> string option \<Rightarrow> ElaCP res" where
  "elacp_set_reason cp reason = bindr (not_null reason) (\<lambda>_. case cp_packet cp of
     PktIrsp p \<Rightarrow> set_packet cp (PktIrsp (p\<lparr> ip_reason := reason \<rparr>)) | _ \<Rightarrow> Inl AssertFail)"

section \<open>The wire\<close>

text \<open>The tables of the schema.\<close>

record userinfo_table =
  t_avatar :: bool
  t_name :: "string option"
  t_descr :: "string option"
  t_phone :: "string option"
  t_gender :: "string option"
  t_email :: "string option"
  t_region :: "string option"

record friendreq_table =
  q_name :: "string option"
  q_descr :: "string option"
  q_hello :: "string option"

record friendmsg_table =
  m_ext :: "string option"
  m_msg :: "byte list option"

record invitereq_table =
  q_ext :: "string option"
  q_tid :: tid
  q_bundle :: "string option"
  q_totalsz :: u32
  q_data :: "byte list option"

record invitersp_table =
  p_ext :: "string option"
  p_tid :: tid
  p_bundle :: "string option"
  p_totalsz :: u32
  p_status :: u32
  p_reason :: "string option"
  p_data :: "byte list option"

datatype anybody =
    As_userinfo userinfo_table | As_friendreq friendreq_table | As_friendmsg friendmsg_table
  | As_invitereq invitereq_table | As_invitersp invitersp_table

record packet_table =
  packet_type :: u8
  packet_body :: "anybody option"

text \<open>
  The library: \<open>flatcc_finalize\<close> serialises a packet (\<open>None\<close>: out of memory), \<open>flatcc_root\<close> reads one (\<open>None\<close>: NULL).
  \<open>flatcc_ok\<close> is what it promises: what was written is read back.
\<close>

record flatcc_lib =
  flatcc_finalize :: "packet_table \<Rightarrow> byte list option"
  flatcc_root :: "byte list \<Rightarrow> packet_table option"

definition flatcc_ok :: "flatcc_lib \<Rightarrow> bool" where
  "flatcc_ok lib \<longleftrightarrow> (\<forall>p bs. flatcc_finalize lib p = Some bs \<longrightarrow> flatcc_root lib bs = Some p)"

text \<open>\<open>flatcc_builder_create_string_str\<close> reads a C string; \<open>flatbuffers_uint8_vec_create\<close> of no bytes is an empty vector.\<close>

definition fb_string :: "string option \<Rightarrow> string option res" where
  "fb_string s = (case s of None \<Rightarrow> Inl BadPointer | Some x \<Rightarrow> Inr (Some x))"

definition fb_vec :: "byte list option \<Rightarrow> byte list option" where
  "fb_vec d = Some (case d of None \<Rightarrow> [] | Some bs \<Rightarrow> bs)"

definition elacp_encode :: "flatcc_lib \<Rightarrow> ElaCP \<Rightarrow> byte list option res" where
  "elacp_encode lib cp =
     bindr
       (case cp_packet cp of
          PktInfo p \<Rightarrow>
            bindr (fb_string (ui_descr p)) (\<lambda>descr.
            bindr (fb_string (ui_gender p)) (\<lambda>gender.
            bindr (fb_string (ui_phone p)) (\<lambda>phone.
            bindr (fb_string (ui_email p)) (\<lambda>email.
            bindr (fb_string (ui_region p)) (\<lambda>region.
            Inr (As_userinfo \<lparr> t_avatar = ui_has_avatar p, t_name = ui_name p, t_descr = descr, t_phone = phone,
              t_gender = gender, t_email = email, t_region = region \<rparr>))))))
        | PktFreq p \<Rightarrow>
            bindr (fb_string (fr_name p)) (\<lambda>name.
            bindr (fb_string (fr_descr p)) (\<lambda>descr.
            bindr (fb_string (fr_hello p)) (\<lambda>hello.
            Inr (As_friendreq \<lparr> q_name = name, q_descr = descr, q_hello = hello \<rparr>))))
        | PktFmsg p \<Rightarrow> Inr (As_friendmsg \<lparr> m_ext = cp_ext cp, m_msg = fb_vec (fm_msg p) \<rparr>)
        | PktIreq p \<Rightarrow>
            Inr (As_invitereq \<lparr> q_ext = cp_ext cp, q_tid = iq_tid p, q_bundle = iq_bundle p, q_totalsz = ucast (iq_totalsz p),
              q_data = fb_vec (iq_data p) \<rparr>)
        | PktIrsp p \<Rightarrow>
            Inr (As_invitersp \<lparr> p_ext = cp_ext cp, p_tid = ip_tid p, p_bundle = ip_bundle p, p_totalsz = ucast (ip_totalsz p),
              p_status = ip_status p,
              p_reason = (if ip_status p \<noteq> 0 \<and> ip_reason p \<noteq> None then ip_reason p else None),
              p_data = (if ip_status p \<noteq> 0 \<and> ip_reason p \<noteq> None then None else fb_vec (ip_data p)) \<rparr>))
       (\<lambda>body. Inr (flatcc_finalize lib \<lparr> packet_type = elacp_get_type cp, packet_body = Some body \<rparr>))"

text \<open>
  The tables that \<open>elacp_decode\<close> reads are those of the type of the packet; the union has a type of its own, which is not
  compared. Where they differ, the fields of another table are read.
\<close>

definition elacp_decode :: "flatcc_lib \<Rightarrow> bool \<Rightarrow> byte list \<Rightarrow> ElaCP option res" where
  "elacp_decode lib allocated data =
     (case flatcc_root lib data of
        None \<Rightarrow> Inr None
      | Some packet \<Rightarrow>
          let type = packet_type packet in
          if type \<notin> {ELACP_TYPE_USERINFO, ELACP_TYPE_FRIEND_REQUEST, ELACP_TYPE_MESSAGE, ELACP_TYPE_INVITE_REQUEST,
               ELACP_TYPE_INVITE_RESPONSE} then Inr None
          else
            bindr (elacp_create allocated type None) (\<lambda>cpo.
            case cpo of
              None \<Rightarrow> Inr None
            | Some cp \<Rightarrow>
                (case packet_body packet of
                   None \<Rightarrow> Inr None
                 | Some body \<Rightarrow>
                     (case (cp_packet cp, body) of
                        (PktInfo p, As_userinfo t) \<Rightarrow>
                          Inr (Some (cp\<lparr> cp_packet := PktInfo (p\<lparr> ui_has_avatar := t_avatar t, ui_name := t_name t, ui_descr := t_descr t,
                            ui_phone := t_phone t, ui_gender := t_gender t, ui_email := t_email t, ui_region := t_region t \<rparr>) \<rparr>))
                      | (PktFreq p, As_friendreq t) \<Rightarrow>
                          Inr (Some (cp\<lparr> cp_packet := PktFreq (p\<lparr> fr_name := q_name t, fr_descr := q_descr t, fr_hello := q_hello t \<rparr>) \<rparr>))
                      | (PktFmsg p, As_friendmsg t) \<Rightarrow>
                          Inr (Some (cp\<lparr> cp_ext := m_ext t, cp_packet := PktFmsg (p\<lparr> fm_msg := m_msg t \<rparr>) \<rparr>))
                      | (PktIreq p, As_invitereq t) \<Rightarrow>
                          Inr (Some (cp\<lparr> cp_ext := q_ext t, cp_packet := PktIreq (p\<lparr> iq_tid := q_tid t, iq_totalsz := ucast (q_totalsz t),
                            iq_bundle := q_bundle t, iq_data := q_data t \<rparr>) \<rparr>))
                      | (PktIrsp p, As_invitersp t) \<Rightarrow>
                          Inr (Some (cp\<lparr> cp_ext := p_ext t, cp_packet := PktIrsp (p\<lparr> ip_tid := p_tid t, ip_totalsz := ucast (p_totalsz t),
                            ip_bundle := p_bundle t, ip_status := p_status t,
                            ip_reason := (if p_status t \<noteq> 0 then p_reason t else None),
                            ip_data := (if p_status t \<noteq> 0 then None else p_data t) \<rparr>) \<rparr>))
                      | _ \<Rightarrow> Inl OutOfBounds))))"

section \<open>Round trip\<close>

text \<open>
  Packets as the carrier makes them: the strings that are always sent are there, sizes fit into 32 bits, and an
  answer has either a reason or data.
\<close>

definition cp_ok :: "ElaCP \<Rightarrow> bool" where
  "cp_ok cp \<longleftrightarrow> (case cp_packet cp of
     PktInfo p \<Rightarrow> cp_ext cp = None \<and> ui_descr p \<noteq> None \<and> ui_phone p \<noteq> None \<and> ui_gender p \<noteq> None \<and> ui_email p \<noteq> None \<and> ui_region p \<noteq> None
   | PktFreq p \<Rightarrow> cp_ext cp = None \<and> fr_name p \<noteq> None \<and> fr_descr p \<noteq> None \<and> fr_hello p \<noteq> None
   | PktFmsg p \<Rightarrow> fm_msg p \<noteq> None
   | PktIreq p \<Rightarrow> iq_totalsz p < 2 ^ 32 \<and> iq_data p \<noteq> None
   | PktIrsp p \<Rightarrow> ip_totalsz p < 2 ^ 32 \<and> (if ip_status p = 0 then ip_reason p = None \<and> ip_data p \<noteq> None
       else ip_reason p \<noteq> None \<and> ip_data p = None))"

lemma ucast_u32: "(x :: u64) < 2 ^ 32 \<Longrightarrow> ucast (ucast x :: u32) = x"
  by (simp add: word_uint_eq_iff unsigned_ucast_eq word_less_def unsigned_take_bit_eq take_bit_int_eq_self)

lemma fb_string_ok [simp]: "s \<noteq> None \<Longrightarrow> fb_string s = Inr s"
  by (auto simp: fb_string_def)

lemma elacp_codec:
  assumes "flatcc_ok lib" "cp_ok cp"
  shows "\<exists>r. elacp_encode lib cp = Inr r \<and> (\<forall>bs. r = Some bs \<longrightarrow> elacp_decode lib True bs = Inr (Some cp))"
proof -
  obtain ext p where cp: "cp = \<lparr> cp_ext = ext, cp_packet = p \<rparr>" by (cases cp)
  note d = elacp_encode_def elacp_decode_def elacp_create_def elacp_get_type_def cp_ok_def fb_vec_def elacp_types
  show ?thesis
    using assms unfolding cp
    by (cases p) (auto simp: d flatcc_ok_def ucast_u32 simp del: not_None_eq split: if_splits)
qed

text \<open>
  Every packet that the carrier makes comes through the wire unchanged: it is encoded without an error of its own,
  and decoding the bytes gives the packet with all its fields.
\<close>

theorem elacp_roundtrip:
  assumes "flatcc_ok lib" "cp_ok cp"
  shows "\<exists>r. elacp_encode lib cp = Inr r \<and> (\<forall>bs. r = Some bs \<longrightarrow> elacp_decode lib True bs = Inr (Some cp))"
  by (rule elacp_codec [OF assms])

text \<open>A library for examples: it knows the packets of a list, and writes a packet as its index.\<close>

fun packet_index :: "packet_table \<Rightarrow> packet_table list \<Rightarrow> nat option" where
  "packet_index p [] = None"
| "packet_index p (q # qs) = (if p = q then Some 0 else map_option Suc (packet_index p qs))"

definition list_flatcc :: "packet_table list \<Rightarrow> flatcc_lib" where
  "list_flatcc ps = \<lparr> flatcc_finalize = (\<lambda>p. map_option (\<lambda>i. [of_nat i]) (packet_index p ps)),
     flatcc_root = (\<lambda>bs. case bs of [b] \<Rightarrow> if unat b < length ps then Some (ps ! unat b) else None | _ \<Rightarrow> None) \<rparr>"

lemma packet_index_nth: "packet_index p ps = Some i \<Longrightarrow> i < length ps \<and> ps ! i = p"
  by (induction ps arbitrary: i) (auto split: if_splits)

lemma list_flatcc_ok: "length ps \<le> 256 \<Longrightarrow> flatcc_ok (list_flatcc ps)"
  using packet_index_nth [of _ ps] by (fastforce simp: flatcc_ok_def list_flatcc_def unat_of_nat)

definition demo_reply :: ElaCP where
  "demo_reply = \<lparr> cp_ext = Some ''session'', cp_packet = PktIrsp \<lparr> ip_tid = 7, ip_bundle = None, ip_totalsz = 2, ip_status = 0,
     ip_reason = None, ip_data = Some [1, 2] \<rparr> \<rparr>"

lemma elacp_roundtrip_witness:
  "\<exists>lib bs. elacp_encode lib demo_reply = Inr (Some bs) \<and> elacp_decode lib True bs = Inr (Some demo_reply)"
proof -
  let ?lib = "list_flatcc [\<lparr> packet_type = ELACP_TYPE_INVITE_RESPONSE, packet_body = Some (As_invitersp \<lparr> p_ext = Some ''session'',
    p_tid = 7, p_bundle = None, p_totalsz = 2, p_status = 0, p_reason = None, p_data = Some [1, 2] \<rparr>) \<rparr>]"
  have "elacp_encode ?lib demo_reply = Inr (Some [0])"
    by (simp add: elacp_encode_def demo_reply_def list_flatcc_def elacp_get_type_def fb_vec_def)
  moreover have "cp_ok demo_reply" by (simp add: cp_ok_def demo_reply_def)
  moreover have "flatcc_ok ?lib" by (rule list_flatcc_ok) simp
  ultimately show ?thesis using elacp_roundtrip [of ?lib demo_reply] by auto
qed

end
