(* ===== verification/Invite.thy ===== *)
theory Invite
  imports ElaCP Crystal Requests
begin

text \<open>
  Invitations of \<open>src/carrier/ela_carrier.c\<close>, with the tables of \<open>tassemblies.h\<close>, \<open>tcallbacks.h\<close> and \<open>thistory.h\<close>. A request or
  an answer may be larger than a packet: the sender cuts it into fragments, the receiver collects them in an assembly, found by
  the number of the transaction. The history has the transaction of the last request of a friend, for the answer; the
  table of callbacks has the function that waits for an answer.

  The tables are maps from keys to records; an entry that the code changes in place is updated in the map. Strings in arrays of
  a fixed size are checked against it. Calls of the user's functions and packets that are sent are logged.

  Parameters (\<open>carrier_env\<close>): base 58 decoding, the tox network, FlatBuffers, memory, time and random numbers.
\<close>

section \<open>Constants and data\<close>

definition ELA_MAX_ID_LEN :: nat where "ELA_MAX_ID_LEN = 45"
definition ELA_MAX_USER_NAME_LEN :: nat where "ELA_MAX_USER_NAME_LEN = 63"
definition ELA_MAX_APP_MESSAGE_LEN :: nat where "ELA_MAX_APP_MESSAGE_LEN = 1024"
definition ELA_STATUS_TIMEOUT :: u32 where "ELA_STATUS_TIMEOUT = 1"
definition ELA_MAX_INVITE_DATA_LEN :: nat where "ELA_MAX_INVITE_DATA_LEN = 8192"
definition ELA_MAX_INVITE_REPLY_REASON_LEN :: nat where "ELA_MAX_INVITE_REPLY_REASON_LEN = 255"
definition ELA_MAX_EXTENSION_NAME_LEN :: nat where "ELA_MAX_EXTENSION_NAME_LEN = 31"
definition DHT_PUBLIC_KEY_SIZE :: nat where "DHT_PUBLIC_KEY_SIZE = 32"
definition TASSEMBLY_TIMEOUT :: int where "TASSEMBLY_TIMEOUT = 60"
definition INVITE_DATA_UNIT :: nat where "INVITE_DATA_UNIT = 1280"
definition TRANSACTION_EXPIRE_INTERVAL :: int where "TRANSACTION_EXPIRE_INTERVAL = 5 * 60"

lemmas invite_consts = ELA_MAX_ID_LEN_def ELA_MAX_USER_NAME_LEN_def ELA_MAX_APP_MESSAGE_LEN_def ELA_STATUS_TIMEOUT_def
  ELA_MAX_INVITE_DATA_LEN_def ELA_MAX_INVITE_REPLY_REASON_LEN_def ELA_MAX_EXTENSION_NAME_LEN_def DHT_PUBLIC_KEY_SIZE_def
  TASSEMBLY_TIMEOUT_def INVITE_DATA_UNIT_def TRANSACTION_EXPIRE_INTERVAL_def ELA_MAX_BUNDLE_LEN_def

text \<open>\<open>ta_data\<close> is the block of \<open>ta_data_len\<close> bytes behind the structure.\<close>

record TransactedAssembly =
  ta_ext :: string
  ta_friendid :: string
  ta_tid :: tid
  ta_bundle :: "string option"
  ta_reason :: "string option"
  ta_data :: "byte list"
  ta_data_len :: u64
  ta_data_off :: u64
  ta_expire_time :: timeval

record TransactedCallback =
  tcb_friend_number :: u32
  tcb_callback_func :: nat
  tcb_bundle :: "string option"
  tcb_expire_time :: timeval

datatype carrier_event =
    EvFriendMessage string "byte list option"
  | EvFriendInvite string "string option" "byte list"
  | EvSessionInvite string "string option" "byte list"
  | EvInviteResponse nat string "string option" u32 "string option" "byte list option"
  | EvSent u32 "byte list"

text \<open>\<open>c_friends\<close> has the user ids of the friends. The flags tell whether a callback is set.\<close>

record carrier =
  c_userid :: string
  c_is_ready :: bool
  c_friends :: "u32 \<rightharpoonup> string"
  c_friend_message :: bool
  c_friend_invite :: bool
  c_session :: bool
  c_tcallbacks :: "(tid \<times> TransactedCallback) list"
  c_thistory :: "string \<rightharpoonup> tid"
  c_ireqs :: "tid \<rightharpoonup> TransactedAssembly"
  c_irsps :: "tid \<rightharpoonup> TransactedAssembly"
  c_error :: u32
  c_events :: "carrier_event list"

text \<open>The places where memory is taken; each of them may fail on its own.\<close>

datatype alloc_site = AllocPacket | AllocAssembly | AllocHistory | AllocCallback

record carrier_env =
  ce_base58_decode :: "string \<Rightarrow> byte list option"
  ce_friend_by_key :: "carrier \<Rightarrow> byte list \<Rightarrow> u32 option"
  ce_friend_message :: "carrier \<Rightarrow> u32 \<Rightarrow> byte list \<Rightarrow> int"
  ce_flatcc :: flatcc_lib
  ce_alloc :: "carrier \<Rightarrow> alloc_site \<Rightarrow> bool"
  ce_now :: "carrier \<Rightarrow> timeval"
  ce_randoms :: "carrier \<Rightarrow> tid list"
  ce_junk :: "carrier \<Rightarrow> u32"

definition set_error :: "carrier \<Rightarrow> u32 \<Rightarrow> int \<times> carrier" where
  "set_error w e = (-1, w\<lparr> c_error := e \<rparr>)"

definition c_log :: "carrier \<Rightarrow> carrier_event \<Rightarrow> carrier" where
  "c_log w e = w\<lparr> c_events := c_events w @ [e] \<rparr>"

text \<open>Copying a C string into an array of \<open>sz\<close> bytes, and bytes into a block.\<close>

definition copy_str :: "nat \<Rightarrow> string \<Rightarrow> string res" where
  "copy_str sz s = (if length s < sz then Inr s else Inl OutOfBounds)"

definition copy_bytes :: "byte list \<Rightarrow> nat \<Rightarrow> byte list \<Rightarrow> byte list res" where
  "copy_bytes block pos bs =
     (if pos + length bs \<le> length block then Inr (take pos block @ bs @ drop (pos + length bs) block) else Inl OutOfBounds)"

section \<open>Tables\<close>

text \<open>The history; its keys are arrays of \<open>ELA_MAX_ID_LEN + ELA_MAX_EXTENSION_NAME_LEN + 4\<close> bytes.\<close>

definition history_key :: "string \<Rightarrow> string res" where
  "history_key userid = copy_str (ELA_MAX_ID_LEN + ELA_MAX_EXTENSION_NAME_LEN + 4) (''ir_'' @ userid)"

definition transaction_history_put_invite :: "bool \<Rightarrow> (string \<rightharpoonup> tid) \<Rightarrow> string \<Rightarrow> tid \<Rightarrow> (string \<rightharpoonup> tid) res" where
  "transaction_history_put_invite allocated h userid t =
     bindr (g_assert (t \<noteq> 0)) (\<lambda>_.
     if \<not> allocated then Inl BadPointer
     else bindr (history_key userid) (\<lambda>key. Inr (h(key \<mapsto> t))))"

definition transaction_history_get_invite :: "(string \<rightharpoonup> tid) \<Rightarrow> string \<Rightarrow> tid res" where
  "transaction_history_get_invite h userid =
     bindr (history_key userid) (\<lambda>key. Inr (case h key of None \<Rightarrow> 0 | Some t \<Rightarrow> t))"

definition transaction_history_remove_invite :: "(string \<rightharpoonup> tid) \<Rightarrow> string \<Rightarrow> (string \<rightharpoonup> tid) res" where
  "transaction_history_remove_invite h userid = bindr (history_key userid) (\<lambda>key. Inr (h(key := None)))"

definition transacted_callbacks_put :: "timeval \<Rightarrow> carrier \<Rightarrow> tid \<Rightarrow> TransactedCallback \<Rightarrow> carrier" where
  "transacted_callbacks_put now w t tcb =
     w\<lparr> c_tcallbacks := AList.update t
       (tcb\<lparr> tcb_expire_time := timeradd now \<lparr> tv_sec = TRANSACTION_EXPIRE_INTERVAL, tv_usec = 0 \<rparr> \<rparr>) (c_tcallbacks w) \<rparr>"

definition transacted_callbacks_get :: "carrier \<Rightarrow> tid \<Rightarrow> TransactedCallback option" where
  "transacted_callbacks_get w t = map_of (c_tcallbacks w) t"

definition transacted_callbacks_remove :: "carrier \<Rightarrow> tid \<Rightarrow> carrier" where
  "transacted_callbacks_remove w t = w\<lparr> c_tcallbacks := AList.delete t (c_tcallbacks w) \<rparr>"

definition friends_get :: "carrier \<Rightarrow> u32 \<Rightarrow> string option res" where
  "friends_get w friend_number = bindr (g_assert (friend_number \<noteq> -1)) (\<lambda>_. Inr (c_friends w friend_number))"

section \<open>Receiving\<close>

text \<open>
  A new assembly for \<open>totalsz\<close> bytes, as both handlers make it. Zeroed memory holds the data and then the strings.
\<close>

definition new_assembly ::
    "carrier_env \<Rightarrow> carrier \<Rightarrow> string option \<Rightarrow> string \<Rightarrow> tid \<Rightarrow> u64 \<Rightarrow> string option \<Rightarrow> string option \<Rightarrow> TransactedAssembly res" where
  "new_assembly env w name friendid t totalsz bdl reason =
     bindr (copy_str (ELA_MAX_EXTENSION_NAME_LEN + 1) (case name of None \<Rightarrow> [] | Some n \<Rightarrow> n)) (\<lambda>ext.
     bindr (copy_str (ELA_MAX_ID_LEN + 1) friendid) (\<lambda>friendid.
     Inr \<lparr> ta_ext = ext, ta_friendid = friendid, ta_tid = t, ta_bundle = bdl, ta_reason = reason,
       ta_data = replicate (unat totalsz) 0, ta_data_len = totalsz, ta_data_off = 0,
       ta_expire_time = timeradd (ce_now env w) \<lparr> tv_sec = TASSEMBLY_TIMEOUT, tv_usec = 0 \<rparr> \<rparr>))"

text \<open>The checks of a fragment against its assembly.\<close>

definition invalid_fragment :: "TransactedAssembly \<Rightarrow> string option \<Rightarrow> string \<Rightarrow> u64 \<Rightarrow> bool" where
  "invalid_fragment a name friendid len \<longleftrightarrow>
     (case name of None \<Rightarrow> False | Some n \<Rightarrow> ta_ext a \<noteq> n) \<or> ta_friendid a \<noteq> friendid \<or> len > of_nat INVITE_DATA_UNIT \<or>
     ta_data_off a + len < len \<or> ta_data_off a + len > ta_data_len a"

definition append_fragment :: "TransactedAssembly \<Rightarrow> byte list option \<Rightarrow> TransactedAssembly res" where
  "append_fragment a data = (case data of None \<Rightarrow> Inr a
     | Some bs \<Rightarrow> bindr (copy_bytes (ta_data a) (unat (ta_data_off a)) bs) (\<lambda>block.
         Inr (a\<lparr> ta_data := block, ta_data_off := ta_data_off a + data_len data \<rparr>)))"

text \<open>Who is told of a complete request: the extension that the last fragment names, or the user.\<close>

definition notify_invite :: "carrier \<Rightarrow> string \<Rightarrow> string option \<Rightarrow> TransactedAssembly \<Rightarrow> carrier" where
  "notify_invite w friendid name a = (case name of
     Some n \<Rightarrow> if n = ''session'' \<and> c_session w then c_log w (EvSessionInvite friendid (ta_bundle a) (ta_data a)) else w
   | None \<Rightarrow> if c_friend_invite w then c_log w (EvFriendInvite friendid (ta_bundle a) (ta_data a)) else w)"

text \<open>The assembly of a request, and whether it is new; \<open>None\<close> when the fragment is dropped.\<close>

definition find_ireq ::
    "carrier_env \<Rightarrow> carrier \<Rightarrow> string option \<Rightarrow> string \<Rightarrow> tid \<Rightarrow> u64 \<Rightarrow> string option \<Rightarrow> (bool \<times> TransactedAssembly) option res" where
  "find_ireq env w name friendid t totalsz bdl = (case c_ireqs w t of
     Some ireq \<Rightarrow> Inr (Some (False, ireq))
   | None \<Rightarrow>
       if totalsz = 0 \<or> totalsz > of_nat ELA_MAX_INVITE_DATA_LEN then Inr None
       else if \<not> ce_alloc env w AllocAssembly then Inr None
       else bindr (new_assembly env w name friendid t totalsz bdl None) (\<lambda>ireq. Inr (Some (True, ireq))))"

definition complete_ireq :: "carrier_env \<Rightarrow> carrier \<Rightarrow> bool \<Rightarrow> TransactedAssembly \<Rightarrow> string option \<Rightarrow> string \<Rightarrow> tid \<Rightarrow> carrier res" where
  "complete_ireq env w need_add ireq name friendid t =
     bindr (copy_str (ELA_MAX_ID_LEN + ELA_MAX_EXTENSION_NAME_LEN + 4)
              (friendid @ (case name of None \<Rightarrow> [] | Some n \<Rightarrow> '':'' @ n))) (\<lambda>from.
     bindr (transaction_history_put_invite (ce_alloc env w AllocHistory) (c_thistory w) from t) (\<lambda>h.
     let w = notify_invite (w\<lparr> c_thistory := h \<rparr>) friendid name ireq in
     Inr (if need_add then w else w\<lparr> c_ireqs := (c_ireqs w)(t := None) \<rparr>)))"

definition handle_invite_request :: "carrier_env \<Rightarrow> carrier \<Rightarrow> u32 \<Rightarrow> ElaCP \<Rightarrow> carrier res" where
  "handle_invite_request env w friend_number cp =
     bindr (g_assert (friend_number \<noteq> -1 \<and> elacp_get_type cp = ELACP_TYPE_INVITE_REQUEST)) (\<lambda>_.
     bindr (friends_get w friend_number) (\<lambda>fi.
     case fi of None \<Rightarrow> Inr w
     | Some userid \<Rightarrow>
         bindr (copy_str (ELA_MAX_ID_LEN + 1) userid) (\<lambda>friendid.
         bindr (elacp_get_bundle cp) (\<lambda>bdl.
         bindr (elacp_get_raw_data cp) (\<lambda>data.
         bindr (elacp_get_raw_data_length cp) (\<lambda>len.
         bindr (elacp_get_tid cp) (\<lambda>t.
         bindr (elacp_get_totalsz cp) (\<lambda>totalsz.
         let name = elacp_get_extension cp in
         bindr (find_ireq env w name friendid t totalsz bdl) (\<lambda>found.
         case found of None \<Rightarrow> Inr w
         | Some (need_add, ireq) \<Rightarrow>
             if len = 0 \<or> invalid_fragment ireq name friendid len then Inr w
             else
               bindr (append_fragment ireq data) (\<lambda>ireq.
               if ta_data_off ireq = ta_data_len ireq then complete_ireq env w need_add ireq name friendid t
               else Inr (w\<lparr> c_ireqs := (c_ireqs w)(t \<mapsto> ireq) \<rparr>)))))))))))"

definition find_irsp ::
    "carrier_env \<Rightarrow> carrier \<Rightarrow> string option \<Rightarrow> string \<Rightarrow> tid \<Rightarrow> u64 \<Rightarrow> string option \<Rightarrow> string option \<Rightarrow>
      (bool \<times> TransactedAssembly) option res" where
  "find_irsp env w name friendid t totalsz bdl reason = (case c_irsps w t of
     Some irsp \<Rightarrow> Inr (Some (False, irsp))
   | None \<Rightarrow>
       if totalsz > of_nat ELA_MAX_INVITE_DATA_LEN then Inr None
       else if \<not> ce_alloc env w AllocAssembly then Inr None
       else bindr (new_assembly env w name friendid t totalsz bdl reason) (\<lambda>irsp. Inr (Some (True, irsp))))"

definition complete_irsp ::
    "carrier \<Rightarrow> bool \<Rightarrow> TransactedAssembly \<Rightarrow> TransactedCallback \<Rightarrow> string \<Rightarrow> tid \<Rightarrow> u32 \<Rightarrow> string option \<Rightarrow> carrier" where
  "complete_irsp w need_add irsp tcb friendid t status reason =
     (let w = transacted_callbacks_remove w t;
          w = c_log w (EvInviteResponse (tcb_callback_func tcb) friendid (ta_bundle irsp) status reason
                (if ta_data_len irsp = 0 then None else Some (ta_data irsp))) in
      if need_add then w else w\<lparr> c_irsps := (c_irsps w)(t := None) \<rparr>)"

text \<open>The reason of a refusal, or the data of an answer.\<close>

definition response_parts :: "ElaCP \<Rightarrow> u32 \<Rightarrow> (string option \<times> byte list option) res" where
  "response_parts cp status =
     (if status \<noteq> 0 then
        bindr (elacp_get_reason cp) (\<lambda>reason. case reason of None \<Rightarrow> Inl BadPointer | Some r \<Rightarrow> Inr (Some r, None))
      else bindr (elacp_get_raw_data cp) (\<lambda>data. Inr (None, data)))"

definition handle_invite_response :: "carrier_env \<Rightarrow> carrier \<Rightarrow> u32 \<Rightarrow> ElaCP \<Rightarrow> carrier res" where
  "handle_invite_response env w friend_number cp =
     bindr (g_assert (friend_number \<noteq> -1 \<and> elacp_get_type cp = ELACP_TYPE_INVITE_RESPONSE)) (\<lambda>_.
     bindr (friends_get w friend_number) (\<lambda>fi.
     case fi of None \<Rightarrow> Inr w
     | Some userid \<Rightarrow>
         bindr (copy_str (ELA_MAX_ID_LEN + 1) userid) (\<lambda>friendid.
         bindr (elacp_get_tid cp) (\<lambda>t.
         case transacted_callbacks_get w t of None \<Rightarrow> Inr w
         | Some tcb \<Rightarrow>
             bindr (elacp_get_bundle cp) (\<lambda>bdl.
             bindr (elacp_get_totalsz cp) (\<lambda>totalsz.
             bindr (elacp_get_status cp) (\<lambda>status.
             let name = elacp_get_extension cp in
             bindr (response_parts cp status) (\<lambda>(reason, data).
             bindr (find_irsp env w name friendid t totalsz bdl reason) (\<lambda>found.
             case found of None \<Rightarrow> Inr w
             | Some (need_add, irsp) \<Rightarrow>
                 if invalid_fragment irsp name friendid (data_len data) then Inr w
                 else
                   bindr (append_fragment irsp data) (\<lambda>irsp.
                   Inr (if ta_data_off irsp = ta_data_len irsp then complete_irsp w need_add irsp tcb friendid t status reason
                        else w\<lparr> c_irsps := (c_irsps w)(t \<mapsto> irsp) \<rparr>)))))))))))"

definition handle_friend_message :: "carrier \<Rightarrow> u32 \<Rightarrow> ElaCP \<Rightarrow> carrier res" where
  "handle_friend_message w friend_number cp =
     bindr (g_assert (friend_number \<noteq> -1 \<and> elacp_get_type cp = ELACP_TYPE_MESSAGE)) (\<lambda>_.
     bindr (friends_get w friend_number) (\<lambda>fi.
     case fi of None \<Rightarrow> Inr w
     | Some userid \<Rightarrow>
         bindr (copy_str (ELA_MAX_ID_LEN + 1) userid) (\<lambda>friendid.
         bindr (elacp_get_raw_data cp) (\<lambda>msg.
         Inr (if c_friend_message w \<and> elacp_get_extension cp = None then c_log w (EvFriendMessage friendid msg) else w)))))"

text \<open>A message of the network, for the three handlers.\<close>

definition notify_friend_message_cb :: "carrier_env \<Rightarrow> carrier \<Rightarrow> u32 \<Rightarrow> byte list \<Rightarrow> carrier res" where
  "notify_friend_message_cb env w friend_number message =
     bindr (elacp_decode (ce_flatcc env) (ce_alloc env w AllocPacket) message) (\<lambda>cpo.
     case cpo of None \<Rightarrow> Inr w
     | Some cp \<Rightarrow>
         if elacp_get_type cp = ELACP_TYPE_MESSAGE then handle_friend_message w friend_number cp
         else if elacp_get_type cp = ELACP_TYPE_INVITE_REQUEST then handle_invite_request env w friend_number cp
         else if elacp_get_type cp = ELACP_TYPE_INVITE_RESPONSE then handle_invite_response env w friend_number cp
         else Inr w)"

section \<open>Expiry\<close>

definition do_tassemblies_expire :: "timeval \<Rightarrow> (tid \<rightharpoonup> TransactedAssembly) \<Rightarrow> (tid \<rightharpoonup> TransactedAssembly)" where
  "do_tassemblies_expire now m =
     (\<lambda>t. case m t of None \<Rightarrow> None | Some a \<Rightarrow> if time_after now (ta_expire_time a) then None else Some a)"

definition transacted_callback_expire :: "carrier \<Rightarrow> TransactedCallback \<Rightarrow> carrier res" where
  "transacted_callback_expire w tcb =
     bindr (friends_get w (tcb_friend_number tcb)) (\<lambda>fi.
     case fi of None \<Rightarrow> Inr w
     | Some userid \<Rightarrow>
         bindr (copy_str (ELA_MAX_ID_LEN + 1) userid) (\<lambda>friendid.
         Inr (c_log w (EvInviteResponse (tcb_callback_func tcb) friendid (tcb_bundle tcb) ELA_STATUS_TIMEOUT (Some ''timeout'') None))))"

text \<open>The entries in the order in which the iterator visits them.\<close>

fun callbacks_check :: "timeval \<Rightarrow> carrier \<Rightarrow> (tid \<times> TransactedCallback) list \<Rightarrow> carrier res" where
  "callbacks_check now w [] = Inr w"
| "callbacks_check now w ((t, tcb) # it) =
     bindr (if time_after now (tcb_expire_time tcb) then transacted_callback_expire (transacted_callbacks_remove w t) tcb else Inr w)
       (\<lambda>w. callbacks_check now w it)"

definition do_transacted_callabcks_check :: "carrier_env \<Rightarrow> carrier \<Rightarrow> carrier res" where
  "do_transacted_callabcks_check env w = callbacks_check (ce_now env w) w (c_tcallbacks w)"

section \<open>Sending\<close>

text \<open>\<open>userid:extension\<close>, split at the first colon.\<close>

definition parse_address :: "string \<Rightarrow> string \<times> string option" where
  "parse_address addr =
     (takeWhile (\<lambda>c. c \<noteq> CHR '':'') addr,
      case dropWhile (\<lambda>c. c \<noteq> CHR '':'') addr of [] \<Rightarrow> None | _ # ext \<Rightarrow> Some ext)"

definition is_valid_key :: "carrier_env \<Rightarrow> string \<Rightarrow> bool" where
  "is_valid_key env key \<longleftrightarrow> (case ce_base58_decode env key of None \<Rightarrow> False | Some bs \<Rightarrow> length bs = DHT_PUBLIC_KEY_SIZE)"

definition get_friend_number :: "carrier_env \<Rightarrow> carrier \<Rightarrow> string \<Rightarrow> u32 option" where
  "get_friend_number env w friendid = (case ce_base58_decode env friendid of None \<Rightarrow> None
     | Some key \<Rightarrow> if length key \<noteq> DHT_PUBLIC_KEY_SIZE then None else ce_friend_by_key env w key)"

text \<open>\<open>friends_exist\<close>, for a number that \<open>get_friend_number\<close> returned.\<close>

definition friend_known :: "carrier_env \<Rightarrow> carrier \<Rightarrow> string \<Rightarrow> u32 option res" where
  "friend_known env w userid = (case get_friend_number env w userid of None \<Rightarrow> Inr None
     | Some n \<Rightarrow> bindr (g_assert (n \<noteq> -1)) (\<lambda>_. Inr (if c_friends w n \<noteq> None then Some n else None)))"

definition ela_send_friend_message :: "carrier_env \<Rightarrow> carrier \<Rightarrow> string \<Rightarrow> byte list \<Rightarrow> (int \<times> carrier) res" where
  "ela_send_friend_message env w to_id msg =
     (if msg = [] \<or> length msg > ELA_MAX_APP_MESSAGE_LEN then Inr (set_error w (ELA_GENERAL_ERROR ELAERR_INVALID_ARGS))
      else
        (let (userid, ext_name) = parse_address to_id in
         if \<not> is_valid_key env userid then Inr (set_error w (ELA_GENERAL_ERROR ELAERR_INVALID_ARGS))
         else if (case ext_name of None \<Rightarrow> False | Some e \<Rightarrow> length e > ELA_MAX_USER_NAME_LEN) then
           Inr (set_error w (ELA_GENERAL_ERROR ELAERR_INVALID_ARGS))
         else if userid = c_userid w then Inr (set_error w (ELA_GENERAL_ERROR ELAERR_INVALID_ARGS))
         else if \<not> c_is_ready w then Inr (set_error w (ELA_GENERAL_ERROR ELAERR_NOT_READY))
         else
           bindr (friend_known env w userid) (\<lambda>fno.
           case fno of None \<Rightarrow> Inr (set_error w (ELA_GENERAL_ERROR ELAERR_NOT_EXIST))
           | Some n \<Rightarrow>
               bindr (elacp_create (ce_alloc env w AllocPacket) ELACP_TYPE_MESSAGE ext_name) (\<lambda>cpo.
               case cpo of None \<Rightarrow> Inr (set_error w (ELA_GENERAL_ERROR ELAERR_OUT_OF_MEMORY))
               | Some cp \<Rightarrow>
                   bindr (elacp_set_raw_data cp (Some msg)) (\<lambda>cp.
                   bindr (elacp_encode (ce_flatcc env) cp) (\<lambda>data.
                   case data of None \<Rightarrow> Inr (set_error w (ELA_GENERAL_ERROR ELAERR_OUT_OF_MEMORY))
                   | Some bs \<Rightarrow>
                       let rc = ce_friend_message env w n bs; w = c_log w (EvSent n bs) in
                       Inr (if rc < 0 then set_error w (of_int rc) else (0, w))))))))"

text \<open>\<open>generate_tid\<close> draws a number until it is not 0.\<close>

definition generate_tid :: "tid list \<Rightarrow> tid res" where
  "generate_tid draws = (case filter (\<lambda>t. t \<noteq> 0) draws of [] \<Rightarrow> Inl Diverges | t # _ \<Rightarrow> Inr t)"

text \<open>The checks that \<open>ela_invite_friend\<close> and \<open>ela_reply_friend_invite\<close> share: an error code, or the address and the friend.\<close>

definition resolve_peer :: "carrier_env \<Rightarrow> carrier \<Rightarrow> string \<Rightarrow> (u32 + string option \<times> u32) res" where
  "resolve_peer env w to_id =
     (if to_id = [] \<or> length to_id > ELA_MAX_ID_LEN + 4 + ELA_MAX_EXTENSION_NAME_LEN then
        Inr (Inl (ELA_GENERAL_ERROR ELAERR_INVALID_ARGS))
      else
        (let (userid, ext_name) = parse_address to_id in
         if \<not> is_valid_key env userid then Inr (Inl (ELA_GENERAL_ERROR ELAERR_INVALID_ARGS))
         else if (case ext_name of None \<Rightarrow> False | Some e \<Rightarrow> e = [] \<or> length e > ELA_MAX_EXTENSION_NAME_LEN) then
           Inr (Inl (ELA_GENERAL_ERROR ELAERR_INVALID_ARGS))
         else if \<not> c_is_ready w then Inr (Inl (ELA_GENERAL_ERROR ELAERR_NOT_READY))
         else
           bindr (friend_known env w userid) (\<lambda>fno.
           Inr (case fno of None \<Rightarrow> Inl (ELA_GENERAL_ERROR ELAERR_NOT_EXIST) | Some n \<Rightarrow> Inr (ext_name, n)))))"

text \<open>How many bytes of \<open>len\<close> the next fragment of a request has, while \<open>bundle_len\<close> bytes of it are for the bundle.\<close>

definition invite_send_len :: "string option \<Rightarrow> nat \<Rightarrow> nat \<Rightarrow> nat" where
  "invite_send_len bdl bundle_len len =
     (if bdl \<noteq> None then if len + bundle_len \<le> INVITE_DATA_UNIT then len else INVITE_DATA_UNIT - bundle_len
      else if len > INVITE_DATA_UNIT then INVITE_DATA_UNIT else len)"

lemma set_raw_data_pos: "elacp_set_raw_data cp (Some bs) = Inr cp' \<Longrightarrow> bs \<noteq> []"
  by (auto simp: elacp_set_raw_data_def not_null_def data_len_def)

function invite_loop ::
    "carrier_env \<Rightarrow> carrier \<Rightarrow> u32 \<Rightarrow> string option \<Rightarrow> string option \<Rightarrow> nat \<Rightarrow> tid \<Rightarrow> nat \<Rightarrow> nat \<Rightarrow> byte list \<Rightarrow> (int \<times> carrier) res" where
  "invite_loop env w n ext_name bdl callback t index bundle_len data =
     bindr (elacp_create (ce_alloc env w AllocPacket) ELACP_TYPE_INVITE_REQUEST ext_name) (\<lambda>cpo.
     case cpo of None \<Rightarrow> Inr (set_error w (ELA_GENERAL_ERROR ELAERR_OUT_OF_MEMORY))
     | Some cp \<Rightarrow>
         bindr (elacp_set_tid cp t) (\<lambda>cp.
         let index = index + 1; send_len = invite_send_len bdl bundle_len (length data) in
         bindr (if bdl \<noteq> None \<and> index = 1 then elacp_set_bundle cp bdl else Inr cp) (\<lambda>cp.
         bindr (elacp_set_totalsz cp (if index = 1 then of_nat (length data) else 0)) (\<lambda>cp.
         bindr (elacp_set_raw_data cp (Some (take send_len data))) (\<lambda>cp.
         let rest = drop send_len data; bundle_len = (if bdl \<noteq> None \<and> index = 1 then 0 else bundle_len) in
         bindr (elacp_encode (ce_flatcc env) cp) (\<lambda>bso.
         case bso of None \<Rightarrow> Inr (set_error w (ELA_GENERAL_ERROR ELAERR_OUT_OF_MEMORY))
         | Some bs \<Rightarrow>
             if rest = [] \<and> \<not> ce_alloc env w AllocCallback then Inr (set_error w (ELA_GENERAL_ERROR ELAERR_OUT_OF_MEMORY))
             else
               (let w = (if rest = [] then transacted_callbacks_put (ce_now env w) w t
                          \<lparr> tcb_friend_number = ce_junk env w, tcb_callback_func = callback, tcb_bundle = bdl,
                            tcb_expire_time = time_zero \<rparr> else w);
                    rc = ce_friend_message env w n bs; w = c_log w (EvSent n bs) in
                if rc < 0 then Inr (set_error (if rest = [] then transacted_callbacks_remove w t else w) (of_int rc))
                else if rest = [] then Inr (0, w)
                else invite_loop env w n ext_name bdl callback t index bundle_len rest)))))))"
  by pat_completeness auto

termination
proof (relation "measure (\<lambda>(_, _, _, _, _, _, _, _, _, data). length data)", goal_cases)
  case (2 env w n ext_name bdl callback t index bundle_len data)
  then show ?case using set_raw_data_pos by fastforce
qed simp

definition ela_invite_friend ::
    "carrier_env \<Rightarrow> carrier \<Rightarrow> string \<Rightarrow> string option \<Rightarrow> byte list \<Rightarrow> nat \<Rightarrow> (int \<times> carrier) res" where
  "ela_invite_friend env w to_id bdl data callback =
     (if (case bdl of None \<Rightarrow> False | Some b \<Rightarrow> b = [] \<or> length b > ELA_MAX_BUNDLE_LEN) \<or> data = [] \<or>
         length data > ELA_MAX_INVITE_DATA_LEN then Inr (set_error w (ELA_GENERAL_ERROR ELAERR_INVALID_ARGS))
      else
        bindr (resolve_peer env w to_id) (\<lambda>peer.
        case peer of Inl e \<Rightarrow> Inr (set_error w e)
        | Inr (ext_name, n) \<Rightarrow>
            bindr (generate_tid (ce_randoms env w)) (\<lambda>t.
            invite_loop env w n ext_name bdl callback t 0 (case bdl of None \<Rightarrow> 0 | Some b \<Rightarrow> length b) data)))"

text \<open>An answer: a status with a reason, or status 0 and data.\<close>

definition reply_send_len :: "nat \<Rightarrow> nat \<Rightarrow> nat" where
  "reply_send_len bundle_len len = (if bundle_len + len \<le> INVITE_DATA_UNIT then len else INVITE_DATA_UNIT - bundle_len)"

lemma drop_shorter: "drop k xs \<noteq> xs \<Longrightarrow> length xs - k < length xs"
  by (cases k; cases xs) auto

function reply_loop ::
    "carrier_env \<Rightarrow> carrier \<Rightarrow> u32 \<Rightarrow> string option \<Rightarrow> string option \<Rightarrow> u32 \<Rightarrow> string option \<Rightarrow> tid \<Rightarrow> nat \<Rightarrow> nat \<Rightarrow> byte list \<Rightarrow>
      (int \<times> carrier) res" where
  "reply_loop env w n ext_name bdl status reason t index bundle_len data =
     bindr (elacp_create (ce_alloc env w AllocPacket) ELACP_TYPE_INVITE_RESPONSE ext_name) (\<lambda>cpo.
     case cpo of None \<Rightarrow> Inr (set_error w (ELA_GENERAL_ERROR ELAERR_OUT_OF_MEMORY))
     | Some cp \<Rightarrow>
         bindr (elacp_set_tid cp t) (\<lambda>cp.
         bindr (elacp_set_status cp status) (\<lambda>cp.
         let index = index + 1 in
         bindr (if index = 1 \<and> bdl \<noteq> None then elacp_set_bundle cp bdl else Inr cp) (\<lambda>cp.
         bindr (if index = 1 \<and> status \<noteq> 0 then elacp_set_reason cp reason else Inr cp) (\<lambda>cp.
         let send_len = (if status = 0 \<and> data \<noteq> [] then reply_send_len bundle_len (length data) else 0) in
         bindr (if status = 0 \<and> data \<noteq> [] then
                  bindr (elacp_set_totalsz cp (if index = 1 then of_nat (length data) else 0)) (\<lambda>cp.
                  elacp_set_raw_data cp (Some (take send_len data)))
                else Inr cp) (\<lambda>cp.
         let rest = drop send_len data;
             bundle_len = (if status = 0 \<and> data \<noteq> [] \<and> bundle_len + length data > INVITE_DATA_UNIT then 0 else bundle_len) in
         bindr (elacp_encode (ce_flatcc env) cp) (\<lambda>bso.
         case bso of None \<Rightarrow> Inr (set_error w (ELA_GENERAL_ERROR ELAERR_OUT_OF_MEMORY))
         | Some bs \<Rightarrow>
             (let rc = ce_friend_message env w n bs; w = c_log w (EvSent n bs) in
              if rc < 0 then Inr (set_error w (of_int rc))
              else if rest = [] then Inr (0, w)
              else if rest = data then Inl Diverges
              else reply_loop env w n ext_name bdl status reason t index bundle_len rest))))))))"
  by pat_completeness auto

termination
proof (relation "measure (\<lambda>(_, _, _, _, _, _, _, _, _, _, data). length data)", goal_cases)
  case (2 env w n ext_name bdl status reason t index bundle_len data)
  then show ?case using drop_shorter by (simp del: drop_eq_Nil split del: if_split)
qed simp

text \<open>\<open>reason\<close> and \<open>data\<close> may be NULL.\<close>

definition ela_reply_friend_invite ::
    "carrier_env \<Rightarrow> carrier \<Rightarrow> string \<Rightarrow> string option \<Rightarrow> u32 \<Rightarrow> string option \<Rightarrow> byte list option \<Rightarrow> (int \<times> carrier) res" where
  "ela_reply_friend_invite env w to_id bdl status reason data =
     (let len = (case data of None \<Rightarrow> 0 | Some d \<Rightarrow> length d) in
      if (case bdl of None \<Rightarrow> False | Some b \<Rightarrow> b = [] \<or> length b > ELA_MAX_BUNDLE_LEN) then
        Inr (set_error w (ELA_GENERAL_ERROR ELAERR_INVALID_ARGS))
      else if status \<noteq> 0 \<and> ((case reason of None \<Rightarrow> True | Some r \<Rightarrow> length r > ELA_MAX_INVITE_REPLY_REASON_LEN) \<or> data \<noteq> None) then
        Inr (set_error w (ELA_GENERAL_ERROR ELAERR_INVALID_ARGS))
      else if status = 0 \<and> (reason \<noteq> None \<or> data = None \<or> len = 0 \<or> len > ELA_MAX_INVITE_DATA_LEN) then
        Inr (set_error w (ELA_GENERAL_ERROR ELAERR_INVALID_ARGS))
      else
        bindr (resolve_peer env w to_id) (\<lambda>peer.
        case peer of Inl e \<Rightarrow> Inr (set_error w e)
        | Inr (ext_name, n) \<Rightarrow>
            bindr (transaction_history_get_invite (c_thistory w) to_id) (\<lambda>t.
            if t = 0 then Inr (set_error w (ELA_GENERAL_ERROR ELAERR_NO_MATCHED_REQUEST))
            else
              bindr (reply_loop env w n ext_name bdl status reason t 0 (case bdl of None \<Rightarrow> 0 | Some b \<Rightarrow> length b)
                       (case data of None \<Rightarrow> [] | Some d \<Rightarrow> d)) (\<lambda>(rc, w).
              if rc < 0 then Inr (rc, w)
              else
                bindr (transaction_history_remove_invite (c_thistory w) to_id) (\<lambda>h.
                Inr (0, w\<lparr> c_thistory := h \<rparr>))))))"

end
