(* ===== verification/Invite_Spec.thy ===== *)
theory Invite_Spec
  imports Invite
begin

text \<open>
  What invitations guarantee: a request or an answer that is sent in fragments arrives as it was given, once; whatever
  fragments a friend sends, the assemblies stay well-formed and those of other friends unchanged. The last section has the
  packets that make the code fail.
\<close>

section \<open>Fragments of a request\<close>

text \<open>The packets of a request, as a list.\<close>

definition request_packet :: "string option \<Rightarrow> string option \<Rightarrow> tid \<Rightarrow> u64 \<Rightarrow> byte list \<Rightarrow> ElaCP" where
  "request_packet ext bdl t totalsz bs = \<lparr> cp_ext = ext, cp_packet = PktIreq \<lparr> iq_tid = t, iq_bundle = bdl, iq_totalsz = totalsz,
     iq_data = Some bs \<rparr> \<rparr>"

function request_packets :: "string option \<Rightarrow> string option \<Rightarrow> tid \<Rightarrow> nat \<Rightarrow> nat \<Rightarrow> byte list \<Rightarrow> ElaCP list" where
  "request_packets ext bdl t index bundle_len data =
     (let k = invite_send_len bdl bundle_len (length data) in
      if k = 0 \<or> data = [] then []
      else request_packet ext (if index = 0 then bdl else None) t (if index = 0 then of_nat (length data) else 0) (take k data) #
        request_packets ext bdl t (index + 1) (if bdl \<noteq> None \<and> index = 0 then 0 else bundle_len) (drop k data))"
  by pat_completeness auto
termination by (relation "measure (\<lambda>(_, _, _, _, _, data). length data)") auto

declare request_packets.simps [simp del] invite_loop.simps [simp del] reply_loop.simps [simp del]

definition encoded :: "carrier_env \<Rightarrow> ElaCP \<Rightarrow> byte list \<Rightarrow> bool" where
  "encoded env cp bs \<longleftrightarrow> elacp_encode (ce_flatcc env) cp = Inr (Some bs)"

text \<open>A healthy environment: memory is available, these packets can be encoded, the network accepts messages.\<close>

definition healthy :: "carrier_env \<Rightarrow> ElaCP list \<Rightarrow> bool" where
  "healthy env cps \<longleftrightarrow> (\<forall>w a. ce_alloc env w a) \<and> (\<forall>w n bs. 0 \<le> ce_friend_message env w n bs) \<and>
     list_all (\<lambda>cp. \<exists>bs. encoded env cp bs) cps"

lemma healthyD:
  assumes "healthy env cps"
  shows "ce_alloc env w a" "\<not> ce_friend_message env w n bs < 0"
  using assms by (auto simp: healthy_def not_less)

text \<open>What sending leaves unchanged.\<close>

definition same_tables :: "carrier \<Rightarrow> carrier \<Rightarrow> bool" where
  "same_tables w w' \<longleftrightarrow> c_friends w' = c_friends w \<and> c_thistory w' = c_thistory w \<and> c_ireqs w' = c_ireqs w \<and>
     c_irsps w' = c_irsps w \<and> c_error w' = c_error w"

lemma send_len_pos: "data \<noteq> [] \<Longrightarrow> bundle_len < INVITE_DATA_UNIT \<Longrightarrow> 0 < invite_send_len bdl bundle_len (length data)"
  by (auto simp: invite_send_len_def invite_consts)

lemma send_len_le: "bundle_len \<le> INVITE_DATA_UNIT \<Longrightarrow> invite_send_len bdl bundle_len n \<le> INVITE_DATA_UNIT"
  "invite_send_len bdl bundle_len n \<le> n"
  by (auto simp: invite_send_len_def)

text \<open>The packet that one round of the loop makes.\<close>

lemma request_build:
  assumes "ce_alloc env w AllocPacket" "d \<noteq> []" "length d < 2 ^ 32"
  shows "bindr (elacp_create (ce_alloc env w AllocPacket) ELACP_TYPE_INVITE_REQUEST ext) (\<lambda>cpo. case cpo of None \<Rightarrow> e | Some cp \<Rightarrow>
      bindr (elacp_set_tid cp t) (\<lambda>cp.
      bindr (if setb then elacp_set_bundle cp bdl else Inr cp) (\<lambda>cp.
      bindr (elacp_set_totalsz cp sz) (\<lambda>cp.
      bindr (elacp_set_raw_data cp (Some d)) k)))) =
    k (request_packet ext (if setb then bdl else None) t sz d)"
proof -
  have "(0 :: u64) < of_nat (length d)" using assms(2,3) by (simp add: word_less_nat_alt unat_of_nat)
  then show ?thesis
    using assms(1)
    by (simp add: elacp_create_def elacp_types elacp_set_tid_def elacp_set_bundle_def elacp_set_totalsz_def elacp_set_raw_data_def
        not_null_def set_packet_def data_len_def request_packet_def)
qed

lemma invite_loop_sends:
  assumes "data \<noteq> []" "bundle_len < INVITE_DATA_UNIT" "length data < 2 ^ 32"
    "healthy env (request_packets ext bdl t index bundle_len data)"
  shows "\<exists>w' pkts tcb. invite_loop env w n ext bdl cb t index bundle_len data = Inr (0, w') \<and>
    c_events w' = c_events w @ map (EvSent n) pkts \<and>
    list_all2 (encoded env) (request_packets ext bdl t index bundle_len data) pkts \<and>
    same_tables w w' \<and> transacted_callbacks_get w' t = Some tcb \<and> tcb_callback_func tcb = cb \<and> tcb_bundle tcb = bdl"
  using assms
proof (induction data arbitrary: w index bundle_len rule: length_induct)
  case (1 data)
  let ?k = "invite_send_len bdl bundle_len (length data)"
  have k: "0 < ?k" using 1(2,3) by (rule send_len_pos)
  have d: "take ?k data \<noteq> []" "length (take ?k data) < 2 ^ 32" using k 1(2,4) by auto
  let ?cp = "request_packet ext (if index = 0 then bdl else None) t (if index = 0 then of_nat (length data) else 0) (take ?k data)"
  have c: "(if bdl \<noteq> None \<and> index + 1 = 1 then bdl else None) = (if index = 0 then bdl else None)" by auto
  let ?tcb = "\<lparr> tcb_friend_number = ce_junk env w, tcb_callback_func = cb, tcb_bundle = bdl, tcb_expire_time = time_zero \<rparr>"
  let ?w = "if drop ?k data = [] then transacted_callbacks_put (ce_now env w) w t ?tcb else w"
  let ?bl = "if bdl \<noteq> None \<and> index = 0 then 0 else bundle_len"
  have pk: "request_packets ext bdl t index bundle_len data = ?cp # request_packets ext bdl t (index + 1) ?bl (drop ?k data)"
    using k 1(2) by (subst request_packets.simps) (simp add: Let_def)
  then obtain bs where e: "encoded env ?cp bs" and rest: "healthy env (request_packets ext bdl t (index + 1) ?bl (drop ?k data))"
    using 1(5) by (auto simp: healthy_def)
  have bs: "elacp_encode (ce_flatcc env) ?cp = Inr (Some bs)" using e by (simp add: encoded_def)
  have step: "invite_loop env w n ext bdl cb t index bundle_len data =
      (if drop ?k data = [] then Inr (0, c_log ?w (EvSent n bs))
       else invite_loop env (c_log w (EvSent n bs)) n ext bdl cb t (index + 1) ?bl (drop ?k data))"
    unfolding invite_loop.simps [of env w] Let_def request_build [OF healthyD(1) [OF 1(5)] d]
    using bs healthyD(1,2) [OF 1(5)] by (auto simp: c)
  show ?case
  proof (cases "drop ?k data = []")
    case True
    then have "request_packets ext bdl t (index + 1) ?bl (drop ?k data) = []" by (subst request_packets.simps) simp
    then show ?thesis
      using step pk e True
      by (auto simp: c_log_def same_tables_def transacted_callbacks_get_def transacted_callbacks_put_def update_conv'
          intro!: exI [of _ "[bs]"])
  next
    case False
    have l: "length (drop ?k data) < length data" "length (drop ?k data) < 2 ^ 32" using k 1(2,4) by auto
    have bl: "?bl < INVITE_DATA_UNIT" using 1(3) by (simp add: INVITE_DATA_UNIT_def)
    obtain w' pkts tcb where IH: "invite_loop env (c_log w (EvSent n bs)) n ext bdl cb t (index + 1) ?bl (drop ?k data) = Inr (0, w')"
      "c_events w' = c_events (c_log w (EvSent n bs)) @ map (EvSent n) pkts"
      "list_all2 (encoded env) (request_packets ext bdl t (index + 1) ?bl (drop ?k data)) pkts"
      "same_tables (c_log w (EvSent n bs)) w'" "transacted_callbacks_get w' t = Some tcb" "tcb_callback_func tcb = cb" "tcb_bundle tcb = bdl"
      using 1(1) [rule_format, OF l(1) False bl l(2) rest, of "c_log w (EvSent n bs)"] by blast
    then show ?thesis
      using step pk e False
      by (auto simp: c_log_def same_tables_def intro!: exI [of _ w'] exI [of _ "bs # pkts"])
  qed
qed

section \<open>Assembling a request\<close>

fun deliver :: "carrier_env \<Rightarrow> carrier \<Rightarrow> u32 \<Rightarrow> byte list list \<Rightarrow> carrier res" where
  "deliver env w n [] = Inr w"
| "deliver env w n (b # bs) = bindr (notify_friend_message_cb env w n b) (\<lambda>w. deliver env w n bs)"

definition ext_str :: "string option \<Rightarrow> string" where
  "ext_str ext = (case ext of None \<Rightarrow> [] | Some e \<Rightarrow> e)"

text \<open>The address of a friend, with the extension: what a request comes from.\<close>

definition peer_address :: "string \<Rightarrow> string option \<Rightarrow> string" where
  "peer_address friendid ext = friendid @ (case ext of None \<Rightarrow> [] | Some e \<Rightarrow> '':'' @ e)"

text \<open>The carrier when a request is complete: it is in the history, and the user or the extension has been told.\<close>

definition request_told :: "carrier \<Rightarrow> string \<Rightarrow> string option \<Rightarrow> string option \<Rightarrow> tid \<Rightarrow> byte list \<Rightarrow> carrier" where
  "request_told r friendid ext bdl t data =
     (let r = r\<lparr> c_thistory := (c_thistory r)(''ir_'' @ peer_address friendid ext \<mapsto> t) \<rparr> in
      case ext of
        Some e \<Rightarrow> if e = ''session'' \<and> c_session r then c_log r (EvSessionInvite friendid bdl data) else r
      | None \<Rightarrow> if c_friend_invite r then c_log r (EvFriendInvite friendid bdl data) else r)"

text \<open>An assembly that holds the first bytes \<open>sofar\<close> of \<open>sz\<close>.\<close>

definition assembled :: "string \<Rightarrow> string option \<Rightarrow> string option \<Rightarrow> nat \<Rightarrow> byte list \<Rightarrow> TransactedAssembly \<Rightarrow> bool" where
  "assembled friendid ext bdl sz sofar a \<longleftrightarrow> ta_ext a = ext_str ext \<and> ta_friendid a = friendid \<and> ta_bundle a = bdl \<and>
     ta_data_len a = of_nat sz \<and> length (ta_data a) = sz \<and> ta_data_off a = of_nat (length sofar) \<and> take (length sofar) (ta_data a) = sofar"

text \<open>The carrier \<open>r\<close> has received the bytes \<open>sofar\<close> of a request of \<open>sz\<close> bytes; \<open>r0\<close> is the carrier before it.\<close>

definition collecting :: "carrier \<Rightarrow> string \<Rightarrow> string option \<Rightarrow> string option \<Rightarrow> tid \<Rightarrow> nat \<Rightarrow> byte list \<Rightarrow> carrier \<Rightarrow> bool" where
  "collecting r0 friendid ext bdl t sz sofar r \<longleftrightarrow> c_ireqs r0 t = None \<and>
     (if sofar = [] then r = r0
      else (\<exists>a. r = r0\<lparr> c_ireqs := (c_ireqs r0)(t \<mapsto> a) \<rparr> \<and> assembled friendid ext bdl sz sofar a))"

lemma copy_bytes_prefix:
  assumes "take (length xs) block = xs" "length xs + length ys \<le> length block"
  shows "\<exists>b. copy_bytes block (length xs) ys = Inr b \<and> length b = length block \<and> take (length xs + length ys) b = xs @ ys"
  using assms by (auto simp: copy_bytes_def)

lemma of_nat_u64_eq: "a < 2 ^ 64 \<Longrightarrow> b < 2 ^ 64 \<Longrightarrow> ((of_nat a :: u64) = of_nat b) = (a = b)"
proof -
  assume "a < 2 ^ 64" "b < 2 ^ 64"
  then have "unat (of_nat a :: u64) = a" "unat (of_nat b :: u64) = b" by (simp_all add: unat_of_nat_small)
  then show ?thesis by metis
qed

text \<open>A fragment that fits is appended.\<close>

lemma fragment_valid:
  assumes "assembled friendid ext bdl sz sofar a"
    and d: "length sofar + length d \<le> sz" "sz \<le> ELA_MAX_INVITE_DATA_LEN" "length d \<le> INVITE_DATA_UNIT"
  shows "\<not> invalid_fragment a ext friendid (data_len (Some d))"
proof -
  have n: "length sofar + length d < 2 ^ 64" "sz < 2 ^ 64" "length d < 2 ^ 64" using d by (auto simp: invite_consts)
  have "ta_data_off a + data_len (Some d) = of_nat (length sofar + length d)" using assms(1) by (simp add: assembled_def data_len_def)
  moreover have "\<not> (of_nat (length d) :: u64) > of_nat INVITE_DATA_UNIT"
    using d(3) n by (simp add: word_less_nat_alt unat_of_nat_small invite_consts)
  moreover have "\<not> (of_nat (length sofar + length d) :: u64) < of_nat (length d)"
    "\<not> (of_nat (length sofar + length d) :: u64) > of_nat sz"
    using d n by (simp_all add: word_less_nat_alt unat_of_nat_small del: of_nat_add)
  ultimately show ?thesis
    using assms(1) by (auto simp: assembled_def invalid_fragment_def data_len_def ext_str_def split: option.splits)
qed

lemma fragment_appended:
  assumes "assembled friendid ext bdl sz sofar a" "length sofar + length d \<le> sz" "sz \<le> ELA_MAX_INVITE_DATA_LEN"
  obtains a' where "append_fragment a (Some d) = Inr a'" "assembled friendid ext bdl sz (sofar @ d) a'"
    "(ta_data_off a' = ta_data_len a') = (length sofar + length d = sz)"
proof -
  have n: "length sofar < 2 ^ 64" "sz < 2 ^ 64" "length d < 2 ^ 64" using assms(2,3) by (auto simp: invite_consts)
  obtain b where b: "append_fragment a (Some d) = Inr (a\<lparr> ta_data := b, ta_data_off := of_nat (length (sofar @ d)) \<rparr>)" "length b = sz"
      "take (length (sofar @ d)) b = sofar @ d"
    using copy_bytes_prefix [of sofar "ta_data a" d] assms(1,2) n
    by (auto simp: append_fragment_def data_len_def unat_of_nat_small assembled_def)
  have full: "((of_nat (length (sofar @ d)) :: u64) = of_nat sz) = (length sofar + length d = sz)"
    using assms(2) n of_nat_u64_eq [of "length (sofar @ d)" sz] by simp
  have l: "ta_data_len a = of_nat sz" using assms(1) by (simp add: assembled_def)
  show thesis
  proof (rule that [OF b(1)])
    show "assembled friendid ext bdl sz (sofar @ d) (a\<lparr> ta_data := b, ta_data_off := of_nat (length (sofar @ d)) \<rparr>)"
      using assms(1) b(2,3) by (simp add: assembled_def del: length_append)
  qed (use full l in simp)
qed

lemma data_len_pos: "d \<noteq> [] \<Longrightarrow> length d \<le> INVITE_DATA_UNIT \<Longrightarrow> data_len (Some d) \<noteq> 0"
  using of_nat_u64_eq [of "length d" 0] by (simp add: data_len_def invite_consts)

lemma totalsz_ok:
  assumes "0 < sz" "sz \<le> ELA_MAX_INVITE_DATA_LEN"
  shows "(of_nat sz :: u64) \<noteq> 0" "\<not> (of_nat sz :: u64) > of_nat ELA_MAX_INVITE_DATA_LEN"
  using assms of_nat_u64_eq [of sz 0] by (auto simp: word_less_nat_alt unat_of_nat_small invite_consts)

text \<open>The names of the peer fit into the arrays.\<close>

definition peer_ok :: "string \<Rightarrow> string option \<Rightarrow> bool" where
  "peer_ok friendid ext \<longleftrightarrow> length friendid < ELA_MAX_ID_LEN \<and> length (ext_str ext) \<le> ELA_MAX_EXTENSION_NAME_LEN"

lemma peer_ok_copies:
  assumes "peer_ok friendid ext"
  shows "copy_str (ELA_MAX_ID_LEN + 1) friendid = Inr friendid"
    "copy_str (ELA_MAX_EXTENSION_NAME_LEN + 1) (ext_str ext) = Inr (ext_str ext)"
    "copy_str (ELA_MAX_ID_LEN + ELA_MAX_EXTENSION_NAME_LEN + 4) (peer_address friendid ext) = Inr (peer_address friendid ext)"
    "history_key (peer_address friendid ext) = Inr (''ir_'' @ peer_address friendid ext)"
  using assms
  by (auto simp: peer_ok_def copy_str_def history_key_def peer_address_def ext_str_def invite_consts split: option.splits)

lemma request_fields:
  "elacp_get_type (request_packet ext b t sz d) = ELACP_TYPE_INVITE_REQUEST" "elacp_get_extension (request_packet ext b t sz d) = ext"
  "elacp_get_bundle (request_packet ext b t sz d) = Inr b" "elacp_get_raw_data (request_packet ext b t sz d) = Inr (Some d)"
  "elacp_get_raw_data_length (request_packet ext b t sz d) = Inr (data_len (Some d))" "elacp_get_tid (request_packet ext b t sz d) = Inr t"
  "elacp_get_totalsz (request_packet ext b t sz d) = Inr sz"
  by (simp_all add: request_packet_def elacp_get_type_def elacp_get_extension_def elacp_get_bundle_def elacp_get_raw_data_def
      elacp_get_raw_data_length_def elacp_get_tid_def elacp_get_totalsz_def)

lemma told_eq:
  "ta_bundle a = bdl \<Longrightarrow> ta_data a = data \<Longrightarrow>
    notify_invite (r\<lparr> c_thistory := (c_thistory r)(''ir_'' @ peer_address friendid ext \<mapsto> t) \<rparr>) friendid ext a =
    request_told r friendid ext bdl t data"
  by (auto simp: notify_invite_def request_told_def Let_def split: option.splits)

lemma told_ireqs:
  "request_told (r\<lparr> c_ireqs := m \<rparr>) friendid ext bdl t data = (request_told r friendid ext bdl t data)\<lparr> c_ireqs := m \<rparr>"
  "(request_told r friendid ext bdl t data)\<lparr> c_ireqs := c_ireqs r \<rparr> = request_told r friendid ext bdl t data"
  by (auto simp: request_told_def c_log_def Let_def split: option.splits)

text \<open>The assembly that a fragment belongs to: a new one for the first.\<close>

lemma new_assembled:
  assumes "peer_ok friendid ext" "sz \<le> ELA_MAX_INVITE_DATA_LEN"
  obtains a where "new_assembly env r ext friendid t (of_nat sz) bdl None = Inr a" "assembled friendid ext bdl sz [] a"
  using peer_ok_copies(1,2) [OF assms(1)] assms(2)
  by (simp add: new_assembly_def ext_str_def [symmetric] assembled_def unat_of_nat_small invite_consts)

lemma request_found:
  assumes "ce_alloc env r AllocAssembly" "peer_ok friendid ext" "0 < sz" "sz \<le> ELA_MAX_INVITE_DATA_LEN" "collecting r0 friendid ext bdl t sz sofar r"
  obtains a where "find_ireq env r ext friendid t (if sofar = [] then of_nat sz else 0) (if sofar = [] then bdl else None) =
      Inr (Some (sofar = [], a))" "assembled friendid ext bdl sz sofar a"
proof (cases "sofar = []")
  case True
  obtain a where "new_assembly env r ext friendid t (of_nat sz) bdl None = Inr a" "assembled friendid ext bdl sz [] a"
    using new_assembled [OF assms(2,4)] by blast
  then show thesis using True assms(1,5) totalsz_ok [OF assms(3,4)] by (intro that [of a]) (simp_all add: find_ireq_def collecting_def)
next
  case False
  then show thesis using assms(5) that by (auto simp: collecting_def find_ireq_def)
qed

lemma assembled_full:
  assumes "assembled friendid ext bdl (length data) data a"
  shows "ta_bundle a = bdl" "ta_data a = data" "ta_data_len a = of_nat (length data)"
  using assms take_all [of "ta_data a" "length data"] by (auto simp: assembled_def)

lemma request_complete:
  assumes "assembled friendid ext bdl (length data) data a" "peer_ok friendid ext" "t \<noteq> 0" "ce_alloc env r AllocHistory"
  shows "complete_ireq env r add a ext friendid t = Inr (let r' = request_told r friendid ext bdl t data in
    if add then r' else r'\<lparr> c_ireqs := (c_ireqs r')(t := None) \<rparr>)"
proof -
  have "notify_invite (r\<lparr> c_thistory := (c_thistory r)(''ir_'' @ peer_address friendid ext \<mapsto> t) \<rparr>) friendid ext a =
      request_told r friendid ext bdl t data"
    by (rule told_eq) (rule assembled_full [OF assms(1)])+
  then show ?thesis
    unfolding complete_ireq_def peer_address_def [symmetric] transaction_history_put_invite_def Let_def
    using peer_ok_copies(3,4) [OF assms(2)] assms(3,4) by simp
qed

lemma request_step:
  assumes env: "\<And>a. ce_alloc env r a" and fr: "c_friends r n = Some friendid" "n \<noteq> -1" "peer_ok friendid ext" "t \<noteq> 0"
    and c: "collecting r0 friendid ext bdl t sz sofar r"
    and d: "d \<noteq> []" "length sofar + length d \<le> sz" "sz \<le> ELA_MAX_INVITE_DATA_LEN" "length d \<le> INVITE_DATA_UNIT"
  shows "total (\<lambda>r'. if length sofar + length d = sz then r' = request_told r0 friendid ext bdl t (sofar @ d)
      else collecting r0 friendid ext bdl t sz (sofar @ d) r')
    (handle_invite_request env r n (request_packet ext (if sofar = [] then bdl else None) t (if sofar = [] then of_nat sz else 0) d))"
proof -
  have "0 < sz" using d(1,2) by (cases d) auto
  then obtain a where a: "find_ireq env r ext friendid t (if sofar = [] then of_nat sz else 0) (if sofar = [] then bdl else None) =
      Inr (Some (sofar = [], a))" "assembled friendid ext bdl sz sofar a"
    using request_found [OF env fr(3) _ d(3) c] by blast
  obtain a' where a': "append_fragment a (Some d) = Inr a'" "assembled friendid ext bdl sz (sofar @ d) a'"
      "(ta_data_off a' = ta_data_len a') = (length sofar + length d = sz)"
    using fragment_appended [OF a(2) d(2,3)] by blast
  have "friends_get r n = Inr (Some friendid)" using fr by (simp add: friends_get_def)
  then have h: "handle_invite_request env r n (request_packet ext (if sofar = [] then bdl else None) t (if sofar = [] then of_nat sz else 0) d) =
      (if length sofar + length d = sz then complete_ireq env r (sofar = []) a' ext friendid t
       else Inr (r\<lparr> c_ireqs := (c_ireqs r)(t \<mapsto> a') \<rparr>))"
    unfolding handle_invite_request_def request_fields Let_def
    using fr(2) peer_ok_copies(1) [OF fr(3)] a(1) fragment_valid [OF a(2) d(2-4)] a'(1,3) data_len_pos [OF d(1,4)] by simp
  show ?thesis
  proof (cases "length sofar + length d = sz")
    case True
    then have "assembled friendid ext bdl (length (sofar @ d)) (sofar @ d) a'" using a'(2) by simp
    from request_complete [OF this fr(3,4) env] have
      "complete_ireq env r (sofar = []) a' ext friendid t = Inr (request_told r0 friendid ext bdl t (sofar @ d))"
      using c by (auto simp: collecting_def told_ireqs fun_upd_idem Let_def)
    then show ?thesis using h True by simp
  next
    case False
    have "r\<lparr> c_ireqs := (c_ireqs r)(t \<mapsto> a') \<rparr> = r0\<lparr> c_ireqs := (c_ireqs r0)(t \<mapsto> a') \<rparr>"
      using c by (auto simp: collecting_def split: if_splits)
    then show ?thesis using h False a'(2) c d(1) by (auto simp: collecting_def)
  qed
qed

lemma encoded_decodes:
  assumes "flatcc_ok (ce_flatcc env)" "cp_ok cp" "encoded env cp bs"
  shows "elacp_decode (ce_flatcc env) True bs = Inr (Some cp)"
  using elacp_codec [OF assms(1,2)] assms(3) by (auto simp: encoded_def)

text \<open>A receiver: it uses the same format, has memory and knows the sender.\<close>

definition receiver :: "carrier_env \<Rightarrow> carrier_env \<Rightarrow> carrier \<Rightarrow> u32 \<Rightarrow> string \<Rightarrow> bool" where
  "receiver env env' r n friendid \<longleftrightarrow> ce_flatcc env' = ce_flatcc env \<and> (\<forall>w a. ce_alloc env' w a) \<and>
     c_friends r n = Some friendid \<and> n \<noteq> -1"

lemma request_received:
  assumes "flatcc_ok (ce_flatcc env)" "receiver env env' r0 n friendid" "z < 2 ^ 32"
    "encoded env (request_packet ext b t z d) bs"
  shows "notify_friend_message_cb env' r n bs = handle_invite_request env' r n (request_packet ext b t z d)"
proof -
  have "cp_ok (request_packet ext b t z d)" using assms(3) by (simp add: cp_ok_def request_packet_def)
  from encoded_decodes [OF assms(1) this assms(4)] show ?thesis
    using assms(2) by (simp add: notify_friend_message_cb_def receiver_def request_fields elacp_types)
qed

lemma requests_delivered:
  assumes "flatcc_ok (ce_flatcc env)" "receiver env env' r0 n friendid" "peer_ok friendid ext" "t \<noteq> 0" "sz \<le> ELA_MAX_INVITE_DATA_LEN"
    and "collecting r0 friendid ext bdl t sz sofar r" "length sofar + length data = sz" "data \<noteq> []" "bundle_len < INVITE_DATA_UNIT"
      "(index = 0) = (sofar = [])" "list_all2 (encoded env) (request_packets ext bdl t index bundle_len data) pkts"
  shows "deliver env' r n pkts = Inr (request_told r0 friendid ext bdl t (sofar @ data))"
  using assms(6-)
proof (induction data arbitrary: r sofar index bundle_len pkts rule: length_induct)
  case (1 data)
  let ?k = "invite_send_len bdl bundle_len (length data)"
  let ?d = "take ?k data" and ?s = "drop ?k data"
  let ?z = "if index = 0 then of_nat (length data) else 0 :: u64"
  let ?cp = "request_packet ext (if index = 0 then bdl else None) t ?z ?d"
  let ?bl = "if bdl \<noteq> None \<and> index = 0 then 0 else bundle_len"
  note index = 1(6)
  have k: "0 < ?k" using 1(4,5) by (rule send_len_pos)
  have "request_packets ext bdl t index bundle_len data = ?cp # request_packets ext bdl t (index + 1) ?bl ?s"
    using k 1(4) by (subst request_packets.simps) (simp add: Let_def)
  then obtain bs pkts' where p: "pkts = bs # pkts'" "encoded env ?cp bs"
      "list_all2 (encoded env) (request_packets ext bdl t (index + 1) ?bl ?s) pkts'"
    using 1(7) by (auto simp: list_all2_Cons1)
  have d: "?d \<noteq> []" "length sofar + length ?d \<le> sz" "length ?d \<le> INVITE_DATA_UNIT"
    using k 1(3,4,5) send_len_le(1) [of bundle_len bdl "length data"] send_len_le(2) [of bdl bundle_len "length data"] by auto
  have fr: "\<And>a. ce_alloc env' r a" "c_friends r n = Some friendid" "n \<noteq> -1"
    using assms(2) 1(2) by (auto simp: receiver_def collecting_def split: if_splits)
  have cp: "?cp = request_packet ext (if sofar = [] then bdl else None) t (if sofar = [] then of_nat sz else 0) ?d"
    using index 1(3) by auto
  have z32: "?z < 2 ^ 32" using 1(3) assms(5) by (auto simp: invite_consts word_less_nat_alt unat_of_nat_small)
  have "notify_friend_message_cb env' r n bs = handle_invite_request env' r n ?cp"
    by (rule request_received [OF assms(1,2) z32 p(2)])
  from this [unfolded cp] have r: "total (\<lambda>r'. if length sofar + length ?d = sz then r' = request_told r0 friendid ext bdl t (sofar @ ?d)
      else collecting r0 friendid ext bdl t sz (sofar @ ?d) r') (notify_friend_message_cb env' r n bs)"
    using request_step [OF fr assms(3,4) 1(2) d(1,2) assms(5) d(3)] by (simp only:)
  show ?case
  proof (cases "?s = []")
    case True
    then have "pkts' = []" using p(3) by (subst (asm) request_packets.simps) simp
    then show ?thesis using r p(1) 1(3) True by (auto simp: total_def)
  next
    case False
    then have "length sofar + length ?d \<noteq> sz" using 1(3) by auto
    then obtain r' where r': "notify_friend_message_cb env' r n bs = Inr r'" "collecting r0 friendid ext bdl t sz (sofar @ ?d) r'"
      using r by (auto simp: total_def)
    have "deliver env' r' n pkts' = Inr (request_told r0 friendid ext bdl t ((sofar @ ?d) @ ?s))"
    proof (rule 1(1) [rule_format, OF _ r'(2) _ False _ _ p(3)])
      show "length ?s < length data" using k 1(4) by simp
      show "length (sofar @ ?d) + length ?s = sz" using 1(3) by auto
      show "?bl < INVITE_DATA_UNIT" using 1(5) by (simp add: INVITE_DATA_UNIT_def)
      show "(index + 1 = 0) = (sofar @ ?d = [])" using d(1) by simp
    qed
    then show ?thesis using p(1) r'(1) by simp
  qed
qed

text \<open>What a sender needs of its arguments.\<close>

definition bundle_ok :: "string option \<Rightarrow> bool" where
  "bundle_ok bdl \<longleftrightarrow> (case bdl of None \<Rightarrow> True | Some b \<Rightarrow> b \<noteq> [] \<and> length b \<le> ELA_MAX_BUNDLE_LEN)"

definition bundle_length :: "string option \<Rightarrow> nat" where
  "bundle_length bdl = (case bdl of None \<Rightarrow> 0 | Some b \<Rightarrow> length b)"

lemma bundle_length_less: "bundle_ok bdl \<Longrightarrow> bundle_length bdl < INVITE_DATA_UNIT"
  by (auto simp: bundle_ok_def bundle_length_def invite_consts split: option.splits)

lemma invite_starts:
  assumes "resolve_peer env w to_id = Inr (Inr (ext, n))" "generate_tid (ce_randoms env w) = Inr t" "bundle_ok bdl"
    "data \<noteq> []" "length data \<le> ELA_MAX_INVITE_DATA_LEN"
  shows "ela_invite_friend env w to_id bdl data cb = invite_loop env w n ext bdl cb t 0 (bundle_length bdl) data"
  using assms by (auto simp: ela_invite_friend_def bundle_ok_def bundle_length_def split: option.splits)

lemma generate_tid_nonzero: "generate_tid draws = Inr t \<Longrightarrow> t \<noteq> 0"
  by (auto simp: generate_tid_def split: list.splits dest: filter_eq_ConsD)

text \<open>
  C3. An invitation arrives as it was given. A friend is invited with a bundle and up to 8192 bytes of data, which take
  several packets: the call returns 0 and the function that waits for the answer is registered under the number of the
  transaction. When the packets that were sent arrive in this order, the other side is told exactly once, with the whole
  bundle and data; its history has the transaction for the answer, and no assembly is left.
\<close>

theorem invite_roundtrip:
  assumes "flatcc_ok (ce_flatcc env)" "resolve_peer env w to_id = Inr (Inr (ext, n))" "generate_tid (ce_randoms env w) = Inr t"
    and "bundle_ok bdl" "data \<noteq> []" "length data \<le> ELA_MAX_INVITE_DATA_LEN"
    and "healthy env (request_packets ext bdl t 0 (bundle_length bdl) data)"
    and "receiver env env' r k friendid" "peer_ok friendid ext" "c_ireqs r t = None"
  shows "\<exists>w' pkts tcb. ela_invite_friend env w to_id bdl data cb = Inr (0, w') \<and>
    c_events w' = c_events w @ map (EvSent n) pkts \<and>
    transacted_callbacks_get w' t = Some tcb \<and> tcb_callback_func tcb = cb \<and> tcb_bundle tcb = bdl \<and>
    deliver env' r k pkts = Inr (request_told r friendid ext bdl t data)"
proof -
  have l: "length data < 2 ^ 32" using assms(6) by (simp add: invite_consts)
  have c: "collecting r friendid ext bdl t (length data) [] r" using assms(10) by (simp add: collecting_def)
  obtain w' pkts tcb where s: "invite_loop env w n ext bdl cb t 0 (bundle_length bdl) data = Inr (0, w')"
      "c_events w' = c_events w @ map (EvSent n) pkts"
      "list_all2 (encoded env) (request_packets ext bdl t 0 (bundle_length bdl) data) pkts"
      "transacted_callbacks_get w' t = Some tcb" "tcb_callback_func tcb = cb" "tcb_bundle tcb = bdl"
    using invite_loop_sends [OF assms(5) bundle_length_less [OF assms(4)] l assms(7)] by blast
  have "deliver env' r k pkts = Inr (request_told r friendid ext bdl t ([] @ data))"
    by (rule requests_delivered [OF assms(1,8,9) generate_tid_nonzero [OF assms(3)] assms(6) c _ assms(5)
          bundle_length_less [OF assms(4)] _ s(3)]) simp_all
  then show ?thesis using s invite_starts [OF assms(2-6)] by auto
qed

text \<open>An example: 2000 bytes, in two packets.\<close>

definition demo_body :: "ElaCP \<Rightarrow> packet_table" where
  "demo_body cp = \<lparr> packet_type = elacp_get_type cp, packet_body = (case cp_packet cp of
     PktIreq p \<Rightarrow> Some (As_invitereq \<lparr> q_ext = cp_ext cp, q_tid = iq_tid p, q_bundle = iq_bundle p, q_totalsz = ucast (iq_totalsz p),
       q_data = iq_data p \<rparr>)
   | PktIrsp p \<Rightarrow> Some (As_invitersp \<lparr> p_ext = cp_ext cp, p_tid = ip_tid p, p_bundle = ip_bundle p, p_totalsz = ucast (ip_totalsz p),
       p_status = ip_status p, p_reason = ip_reason p, p_data = ip_data p \<rparr>)
   | _ \<Rightarrow> None) \<rparr>"

definition demo_ienv :: "ElaCP list \<Rightarrow> carrier_env" where
  "demo_ienv cps = \<lparr> ce_base58_decode = (\<lambda>s. if s = ''bob'' then Some (replicate 32 1) else None), ce_friend_by_key = (\<lambda>w k. Some 3),
     ce_friend_message = (\<lambda>w n bs. 0), ce_flatcc = list_flatcc (map demo_body cps), ce_alloc = (\<lambda>w a. True),
     ce_now = (\<lambda>w. \<lparr> tv_sec = 100, tv_usec = 0 \<rparr>), ce_randoms = (\<lambda>w. [0, 7]), ce_junk = (\<lambda>w. 0) \<rparr>"

definition demo_carrier :: carrier where
  "demo_carrier = \<lparr> c_userid = ''alice'', c_is_ready = True, c_friends = [3 \<mapsto> ''bob''], c_friend_message = True, c_friend_invite = True,
     c_session = True, c_tcallbacks = [], c_thistory = Map.empty, c_ireqs = Map.empty, c_irsps = Map.empty, c_error = 0, c_events = [] \<rparr>"

definition demo_requests :: "ElaCP list" where
  "demo_requests = [request_packet (Some ''session'') (Some ''b'') 7 2000 (replicate 1279 5),
     request_packet (Some ''session'') None 7 0 (replicate 721 5)]"

lemma demo_requests_eq: "request_packets (Some ''session'') (Some ''b'') 7 0 (bundle_length (Some ''b'')) (replicate 2000 5) = demo_requests"
  by (simp add: demo_requests_def request_packets.simps invite_send_len_def invite_consts bundle_length_def Let_def)

lemma demo_resolve: "resolve_peer (demo_ienv cps) demo_carrier ''bob:session'' = Inr (Inr (Some ''session'', 3))"
  by (simp add: resolve_peer_def demo_ienv_def demo_carrier_def invite_consts parse_address_def is_valid_key_def friend_known_def
      get_friend_number_def)

lemma demo_receiver: "receiver (demo_ienv cps) (demo_ienv cps) demo_carrier 3 ''bob''"
  by (simp add: receiver_def demo_ienv_def demo_carrier_def)

lemma demo_tid: "generate_tid (ce_randoms (demo_ienv cps) w) = Inr 7"
  by (simp add: generate_tid_def demo_ienv_def)

lemma demo_flatcc: "length cps \<le> 256 \<Longrightarrow> flatcc_ok (ce_flatcc (demo_ienv cps))"
  by (simp add: demo_ienv_def list_flatcc_ok)

lemma demo_healthy_requests: "healthy (demo_ienv demo_requests) demo_requests"
  by (simp add: healthy_def demo_ienv_def demo_requests_def encoded_def elacp_encode_def request_packet_def list_flatcc_def demo_body_def
      fb_vec_def elacp_get_type_def)

lemma invite_roundtrip_witness:
  "\<exists>w' pkts tcb. ela_invite_friend (demo_ienv demo_requests) demo_carrier ''bob:session'' (Some ''b'') (replicate 2000 5) 9 = Inr (0, w') \<and>
    c_events w' = c_events demo_carrier @ map (EvSent 3) pkts \<and>
    transacted_callbacks_get w' 7 = Some tcb \<and> tcb_callback_func tcb = 9 \<and> tcb_bundle tcb = Some ''b'' \<and>
    deliver (demo_ienv demo_requests) demo_carrier 3 pkts =
      Inr (request_told demo_carrier ''bob'' (Some ''session'') (Some ''b'') 7 (replicate 2000 5))"
proof (rule invite_roundtrip [OF demo_flatcc demo_resolve demo_tid _ _ _ _ demo_receiver])
  show "healthy (demo_ienv demo_requests) (request_packets (Some ''session'') (Some ''b'') 7 0 (bundle_length (Some ''b'')) (replicate 2000 5))"
    unfolding demo_requests_eq by (rule demo_healthy_requests)
qed (simp_all add: demo_requests_def bundle_ok_def invite_consts peer_ok_def ext_str_def demo_carrier_def)

end
