(* ===== verification/Reply_Spec.thy ===== *)
theory Reply_Spec
  imports Invite_Spec
begin

text \<open>
  Answers to invitations: a refusal is one packet with the reason, an acceptance has data in fragments. Either reaches the
  function that waits for it, once.
\<close>

section \<open>The packets of an answer\<close>

definition response_packet ::
    "string option \<Rightarrow> string option \<Rightarrow> tid \<Rightarrow> u64 \<Rightarrow> u32 \<Rightarrow> string option \<Rightarrow> byte list option \<Rightarrow> ElaCP" where
  "response_packet ext bdl t totalsz status reason data = \<lparr> cp_ext = ext, cp_packet = PktIrsp \<lparr> ip_tid = t, ip_bundle = bdl,
     ip_totalsz = totalsz, ip_status = status, ip_reason = reason, ip_data = data \<rparr> \<rparr>"

function accept_packets :: "string option \<Rightarrow> string option \<Rightarrow> tid \<Rightarrow> nat \<Rightarrow> nat \<Rightarrow> byte list \<Rightarrow> ElaCP list" where
  "accept_packets ext bdl t index bundle_len data =
     (let k = reply_send_len bundle_len (length data) in
      if k = 0 \<or> data = [] then []
      else response_packet ext (if index = 0 then bdl else None) t (if index = 0 then of_nat (length data) else 0) 0 None
          (Some (take k data)) #
        accept_packets ext bdl t (index + 1) (if bundle_len + length data > INVITE_DATA_UNIT then 0 else bundle_len) (drop k data))"
  by pat_completeness auto
termination by (relation "measure (\<lambda>(_, _, _, _, _, data). length data)") auto

declare accept_packets.simps [simp del]

definition reply_packets ::
    "string option \<Rightarrow> string option \<Rightarrow> tid \<Rightarrow> u32 \<Rightarrow> string option \<Rightarrow> byte list option \<Rightarrow> ElaCP list" where
  "reply_packets ext bdl t status reason data = (case data of
     None \<Rightarrow> [response_packet ext bdl t 0 status reason None]
   | Some d \<Rightarrow> accept_packets ext bdl t 0 (bundle_length bdl) d)"

lemma reply_len_pos: "data \<noteq> [] \<Longrightarrow> bundle_len < INVITE_DATA_UNIT \<Longrightarrow> 0 < reply_send_len bundle_len (length data)"
  by (auto simp: reply_send_len_def)

lemma reply_len_le: "reply_send_len bundle_len n \<le> INVITE_DATA_UNIT" "reply_send_len bundle_len n \<le> n"
  by (auto simp: reply_send_len_def)

lemma accept_unfold:
  assumes "data \<noteq> []" "bundle_len < INVITE_DATA_UNIT"
  shows "accept_packets ext bdl t index bundle_len data =
      response_packet ext (if index = 0 then bdl else None) t (if index = 0 then of_nat (length data) else 0) 0 None
        (Some (take (reply_send_len bundle_len (length data)) data)) #
      accept_packets ext bdl t (index + 1) (if bundle_len + length data > INVITE_DATA_UNIT then 0 else bundle_len)
        (drop (reply_send_len bundle_len (length data)) data)"
  using reply_len_pos [OF assms] assms(1) by (subst accept_packets.simps) (simp add: Let_def)

lemma accept_Nil [simp]: "accept_packets ext bdl t index bundle_len [] = []"
  by (subst accept_packets.simps) (simp add: Let_def)

section \<open>Sending\<close>

lemma accept_build:
  assumes "ce_alloc env w AllocPacket" "d \<noteq> []" "length d < 2 ^ 32"
  shows "bindr (elacp_create (ce_alloc env w AllocPacket) ELACP_TYPE_INVITE_RESPONSE ext) (\<lambda>cpo. case cpo of None \<Rightarrow> e | Some cp \<Rightarrow>
      bindr (elacp_set_tid cp t) (\<lambda>cp.
      bindr (elacp_set_status cp 0) (\<lambda>cp.
      bindr (if setb then elacp_set_bundle cp bdl else Inr cp) (\<lambda>cp.
      bindr (bindr (elacp_set_totalsz cp sz) (\<lambda>cp. elacp_set_raw_data cp (Some d))) k)))) =
    k (response_packet ext (if setb then bdl else None) t sz 0 None (Some d))"
proof -
  have "(0 :: u64) < of_nat (length d)" using assms(2,3) by (simp add: word_less_nat_alt unat_of_nat)
  then show ?thesis
    using assms(1)
    by (simp add: elacp_create_def elacp_types elacp_set_tid_def elacp_set_status_def elacp_set_bundle_def elacp_set_totalsz_def
        elacp_set_raw_data_def not_null_def set_packet_def data_len_def response_packet_def)
qed

lemma refuse_build:
  assumes "ce_alloc env w AllocPacket"
  shows "bindr (elacp_create (ce_alloc env w AllocPacket) ELACP_TYPE_INVITE_RESPONSE ext) (\<lambda>cpo. case cpo of None \<Rightarrow> e | Some cp \<Rightarrow>
      bindr (elacp_set_tid cp t) (\<lambda>cp.
      bindr (elacp_set_status cp status) (\<lambda>cp.
      bindr (if setb then elacp_set_bundle cp bdl else Inr cp) (\<lambda>cp.
      bindr (elacp_set_reason cp (Some r)) k)))) =
    k (response_packet ext (if setb then bdl else None) t 0 status (Some r) None)"
  using assms
  by (simp add: elacp_create_def elacp_types elacp_set_tid_def elacp_set_status_def elacp_set_bundle_def elacp_set_reason_def
      not_null_def set_packet_def response_packet_def)

lemma accept_loop_sends:
  assumes "data \<noteq> []" "bundle_len < INVITE_DATA_UNIT" "length data < 2 ^ 32"
    "healthy env (accept_packets ext bdl t index bundle_len data)"
  shows "\<exists>w' pkts. reply_loop env w n ext bdl 0 None t index bundle_len data = Inr (0, w') \<and>
    c_events w' = c_events w @ map (EvSent n) pkts \<and>
    list_all2 (encoded env) (accept_packets ext bdl t index bundle_len data) pkts \<and> same_tables w w'"
  using assms
proof (induction data arbitrary: w index bundle_len rule: length_induct)
  case (1 data)
  let ?k = "reply_send_len bundle_len (length data)"
  let ?bl = "if bundle_len + length data > INVITE_DATA_UNIT then 0 else bundle_len"
  let ?cp = "response_packet ext (if index = 0 then bdl else None) t (if index = 0 then of_nat (length data) else 0) 0 None
    (Some (take ?k data))"
  have k: "0 < ?k" using 1(2,3) by (rule reply_len_pos)
  have d: "take ?k data \<noteq> []" "length (take ?k data) < 2 ^ 32" using k 1(2,4) by auto
  note pk = accept_unfold [OF 1(2,3), of ext bdl t index]
  obtain bs where e: "encoded env ?cp bs" and rest: "healthy env (accept_packets ext bdl t (index + 1) ?bl (drop ?k data))"
    using 1(5) unfolding pk by (auto simp: healthy_def)
  have bs: "elacp_encode (ce_flatcc env) ?cp = Inr (Some bs)" using e by (simp add: encoded_def)
  have c: "(if index + 1 = 1 \<and> bdl \<noteq> None then bdl else None) = (if index = 0 then bdl else None)" by auto
  have nd: "drop ?k data \<noteq> data" using k 1(2) by (metis drop_eq_Nil length_drop length_0_conv diff_is_0_eq diff_less length_greater_0_conv less_irrefl)
  have nonempty: "(data \<noteq> []) = True" using 1(2) by simp
  have step: "reply_loop env w n ext bdl 0 None t index bundle_len data =
      (if drop ?k data = [] then Inr (0, c_log w (EvSent n bs))
       else reply_loop env (c_log w (EvSent n bs)) n ext bdl 0 None t (index + 1) ?bl (drop ?k data))"
    unfolding reply_loop.simps [of env w] Let_def
    apply (simp only: nonempty simp_thms if_True if_False bindr_Inr accept_build [OF healthyD(1) [OF 1(5)] d] c)
    using bs healthyD(1,2) [OF 1(5)] nd by simp
  show ?case
  proof (cases "drop ?k data = []")
    case True
    then show ?thesis using step pk e by (auto simp: c_log_def same_tables_def intro!: exI [of _ "[bs]"])
  next
    case False
    have l: "length (drop ?k data) < length data" "length (drop ?k data) < 2 ^ 32" "?bl < INVITE_DATA_UNIT"
      using k 1(2,3,4) by (auto simp: INVITE_DATA_UNIT_def)
    obtain w' pkts where IH: "reply_loop env (c_log w (EvSent n bs)) n ext bdl 0 None t (index + 1) ?bl (drop ?k data) = Inr (0, w')"
      "c_events w' = c_events (c_log w (EvSent n bs)) @ map (EvSent n) pkts"
      "list_all2 (encoded env) (accept_packets ext bdl t (index + 1) ?bl (drop ?k data)) pkts" "same_tables (c_log w (EvSent n bs)) w'"
      using 1(1) [rule_format, OF l(1) False l(3,2) rest, of "c_log w (EvSent n bs)"] by blast
    then show ?thesis
      using step pk e False by (auto simp: c_log_def same_tables_def intro!: exI [of _ w'] exI [of _ "bs # pkts"])
  qed
qed

lemma refuse_sends:
  assumes "status \<noteq> 0" "healthy env [response_packet ext bdl t 0 status (Some reason) None]"
  shows "\<exists>w' bs. reply_loop env w n ext bdl status (Some reason) t 0 bundle_len [] = Inr (0, w') \<and>
    c_events w' = c_events w @ map (EvSent n) [bs] \<and>
    encoded env (response_packet ext bdl t 0 status (Some reason) None) bs \<and> same_tables w w'"
proof -
  obtain bs where e: "encoded env (response_packet ext bdl t 0 status (Some reason) None) bs" using assms(2) by (auto simp: healthy_def)
  have c: "(if (0 :: nat) + 1 = 1 \<and> bdl \<noteq> None then bdl else None) = bdl" by auto
  have z: "(0 :: nat) + 1 = 1" "(status = 0) = False" "([] \<noteq> ([] :: byte list)) = False" using assms(1) by simp_all
  have "reply_loop env w n ext bdl status (Some reason) t 0 bundle_len [] = Inr (0, c_log w (EvSent n bs))"
    unfolding reply_loop.simps [of env w] Let_def
    apply (simp only: z simp_thms if_True if_False bindr_Inr refuse_build [OF healthyD(1) [OF assms(2)]])
    using e healthyD(2) [OF assms(2)] by (auto simp: encoded_def)
  then show ?thesis using e by (auto simp: c_log_def same_tables_def)
qed

section \<open>Receiving\<close>

text \<open>The carrier when an answer is complete: the function that waited has been called, and no longer waits.\<close>

definition response_told ::
    "carrier \<Rightarrow> string \<Rightarrow> TransactedCallback \<Rightarrow> string option \<Rightarrow> tid \<Rightarrow> u32 \<Rightarrow> string option \<Rightarrow> byte list option \<Rightarrow> carrier" where
  "response_told r friendid tcb bdl t status reason data =
     c_log (transacted_callbacks_remove r t) (EvInviteResponse (tcb_callback_func tcb) friendid bdl status reason data)"

definition collecting_rsp :: "carrier \<Rightarrow> string \<Rightarrow> string option \<Rightarrow> string option \<Rightarrow> tid \<Rightarrow> nat \<Rightarrow> byte list \<Rightarrow> carrier \<Rightarrow> bool" where
  "collecting_rsp r0 friendid ext bdl t sz sofar r \<longleftrightarrow> c_irsps r0 t = None \<and>
     (if sofar = [] then r = r0
      else (\<exists>a. r = r0\<lparr> c_irsps := (c_irsps r0)(t \<mapsto> a) \<rparr> \<and> assembled friendid ext bdl sz sofar a))"

lemma response_fields:
  "elacp_get_type (response_packet ext b t sz status reason d) = ELACP_TYPE_INVITE_RESPONSE"
  "elacp_get_extension (response_packet ext b t sz status reason d) = ext"
  "elacp_get_bundle (response_packet ext b t sz status reason d) = Inr b"
  "elacp_get_raw_data (response_packet ext b t sz status reason d) = Inr d"
  "elacp_get_tid (response_packet ext b t sz status reason d) = Inr t"
  "elacp_get_totalsz (response_packet ext b t sz status reason d) = Inr sz"
  "elacp_get_status (response_packet ext b t sz status reason d) = Inr status"
  "elacp_get_reason (response_packet ext b t sz status reason d) = Inr reason"
  by (simp_all add: response_packet_def elacp_get_type_def elacp_get_extension_def elacp_get_bundle_def elacp_get_raw_data_def
      elacp_get_tid_def elacp_get_totalsz_def elacp_get_status_def elacp_get_reason_def)

lemma told_irsps:
  "response_told (r\<lparr> c_irsps := m \<rparr>) friendid tcb bdl t status reason data = (response_told r friendid tcb bdl t status reason data)\<lparr> c_irsps := m \<rparr>"
  "c_irsps (response_told r friendid tcb bdl t status reason data) = c_irsps r"
  by (simp_all add: response_told_def c_log_def transacted_callbacks_remove_def)

lemma told_irsps_idem: "(response_told r friendid tcb bdl t status reason data)\<lparr> c_irsps := c_irsps r \<rparr> = response_told r friendid tcb bdl t status reason data"
  by (simp add: response_told_def c_log_def transacted_callbacks_remove_def)

lemma response_found:
  assumes "ce_alloc env r AllocAssembly" "peer_ok friendid ext" "sz \<le> ELA_MAX_INVITE_DATA_LEN" "collecting_rsp r0 friendid ext bdl t sz sofar r"
  obtains a where "find_irsp env r ext friendid t (if sofar = [] then of_nat sz else 0) (if sofar = [] then bdl else None) None =
      Inr (Some (sofar = [], a))" "assembled friendid ext bdl sz sofar a"
proof (cases "sofar = []")
  case True
  have "\<not> (of_nat sz :: u64) > of_nat ELA_MAX_INVITE_DATA_LEN"
    using assms(3) by (simp add: word_less_nat_alt unat_of_nat_small invite_consts)
  moreover obtain a where "new_assembly env r ext friendid t (of_nat sz) bdl None = Inr a" "assembled friendid ext bdl sz [] a"
    using new_assembled [OF assms(2,3)] by blast
  ultimately show thesis using True assms(1,4) by (intro that [of a]) (simp_all add: find_irsp_def collecting_rsp_def)
next
  case False
  then show thesis using assms(4) that by (auto simp: collecting_rsp_def find_irsp_def)
qed

lemma response_complete:
  assumes "assembled friendid ext bdl (length data) data a" "data \<noteq> []" "length data \<le> ELA_MAX_INVITE_DATA_LEN"
  shows "complete_irsp r add a tcb friendid t 0 None = (let r' = response_told r friendid tcb bdl t 0 None (Some data) in
    if add then r' else r'\<lparr> c_irsps := (c_irsps r')(t := None) \<rparr>)"
  using assms(2,3) totalsz_ok(1) [of "length data"] assembled_full [OF assms(1)] by (simp add: complete_irsp_def response_told_def Let_def)

lemma response_step:
  assumes env: "ce_alloc env r AllocAssembly" and fr: "c_friends r n = Some friendid" "n \<noteq> -1" "peer_ok friendid ext"
    and tcb: "transacted_callbacks_get r t = Some tcb"
    and c: "collecting_rsp r0 friendid ext bdl t sz sofar r"
    and d: "d \<noteq> []" "length sofar + length d \<le> sz" "sz \<le> ELA_MAX_INVITE_DATA_LEN" "length d \<le> INVITE_DATA_UNIT"
  shows "total (\<lambda>r'. if length sofar + length d = sz then r' = response_told r0 friendid tcb bdl t 0 None (Some (sofar @ d))
      else collecting_rsp r0 friendid ext bdl t sz (sofar @ d) r')
    (handle_invite_response env r n (response_packet ext (if sofar = [] then bdl else None) t (if sofar = [] then of_nat sz else 0) 0
       None (Some d)))"
proof -
  obtain a where a: "find_irsp env r ext friendid t (if sofar = [] then of_nat sz else 0) (if sofar = [] then bdl else None) None =
      Inr (Some (sofar = [], a))" "assembled friendid ext bdl sz sofar a"
    using response_found [OF env fr(3) d(3) c] by blast
  obtain a' where a': "append_fragment a (Some d) = Inr a'" "assembled friendid ext bdl sz (sofar @ d) a'"
      "(ta_data_off a' = ta_data_len a') = (length sofar + length d = sz)"
    using fragment_appended [OF a(2) d(2,3)] by blast
  have "friends_get r n = Inr (Some friendid)" using fr by (simp add: friends_get_def)
  then have h: "handle_invite_response env r n (response_packet ext (if sofar = [] then bdl else None) t
        (if sofar = [] then of_nat sz else 0) 0 None (Some d)) =
      Inr (if length sofar + length d = sz then complete_irsp r (sofar = []) a' tcb friendid t 0 None
       else r\<lparr> c_irsps := (c_irsps r)(t \<mapsto> a') \<rparr>)"
    unfolding handle_invite_response_def response_parts_def response_fields Let_def
    using fr(2) tcb peer_ok_copies(1) [OF fr(3)] a(1) fragment_valid [OF a(2) d(2-4)] a'(1,3) by simp
  show ?thesis
  proof (cases "length sofar + length d = sz")
    case True
    then have "assembled friendid ext bdl (length (sofar @ d)) (sofar @ d) a'" "sofar @ d \<noteq> []" "length (sofar @ d) \<le> ELA_MAX_INVITE_DATA_LEN"
      using a'(2) d(1,3) by simp_all
    from response_complete [OF this]
    have "complete_irsp r (sofar = []) a' tcb friendid t 0 None = response_told r0 friendid tcb bdl t 0 None (Some (sofar @ d))"
      using c by (auto simp: collecting_rsp_def told_irsps fun_upd_idem told_irsps_idem Let_def)
    then show ?thesis using h True by simp
  next
    case False
    have "r\<lparr> c_irsps := (c_irsps r)(t \<mapsto> a') \<rparr> = r0\<lparr> c_irsps := (c_irsps r0)(t \<mapsto> a') \<rparr>"
      using c by (auto simp: collecting_rsp_def split: if_splits)
    then show ?thesis using h False a'(2) c d(1) by (auto simp: collecting_rsp_def)
  qed
qed

text \<open>A refusal is complete at once.\<close>

lemma refusal_step:
  assumes "ce_alloc env r AllocAssembly" "c_friends r n = Some friendid" "n \<noteq> -1" "peer_ok friendid ext" "transacted_callbacks_get r t = Some tcb"
    "c_irsps r t = None" "status \<noteq> 0"
  shows "handle_invite_response env r n (response_packet ext bdl t 0 status (Some reason) None) =
    Inr (response_told r friendid tcb bdl t status (Some reason) None)"
proof -
  have "friends_get r n = Inr (Some friendid)" using assms(2,3) by (simp add: friends_get_def)
  then show ?thesis
    unfolding handle_invite_response_def response_parts_def response_fields Let_def
    using assms peer_ok_copies(1,2) [OF assms(4)]
    by (cases ext) (simp_all add: find_irsp_def new_assembly_def ext_str_def invalid_fragment_def append_fragment_def data_len_def
        complete_irsp_def response_told_def Let_def)
qed

lemma response_received:
  assumes "flatcc_ok (ce_flatcc env)" "receiver env env' r0 n friendid" "z < 2 ^ 32"
    "(status = 0) = (reason = None)" "(status = 0) = (d \<noteq> None)"
    "encoded env (response_packet ext b t z status reason d) bs"
  shows "notify_friend_message_cb env' r n bs = handle_invite_response env' r n (response_packet ext b t z status reason d)"
proof -
  have "cp_ok (response_packet ext b t z status reason d)" using assms(3-5) by (auto simp: cp_ok_def response_packet_def)
  from encoded_decodes [OF assms(1) this assms(6)] show ?thesis
    using assms(2) by (simp add: notify_friend_message_cb_def receiver_def response_fields elacp_types)
qed

lemma accepts_delivered:
  assumes "flatcc_ok (ce_flatcc env)" "receiver env env' r0 n friendid" "peer_ok friendid ext" "sz \<le> ELA_MAX_INVITE_DATA_LEN"
    "transacted_callbacks_get r0 t = Some tcb"
    and "collecting_rsp r0 friendid ext bdl t sz sofar r" "length sofar + length data = sz" "data \<noteq> []" "bundle_len < INVITE_DATA_UNIT"
      "(index = 0) = (sofar = [])" "list_all2 (encoded env) (accept_packets ext bdl t index bundle_len data) pkts"
  shows "deliver env' r n pkts = Inr (response_told r0 friendid tcb bdl t 0 None (Some (sofar @ data)))"
  using assms(6-)
proof (induction data arbitrary: r sofar index bundle_len pkts rule: length_induct)
  case (1 data)
  let ?k = "reply_send_len bundle_len (length data)"
  let ?d = "take ?k data" and ?s = "drop ?k data"
  let ?z = "if index = 0 then of_nat (length data) else 0 :: u64"
  let ?cp = "response_packet ext (if index = 0 then bdl else None) t ?z 0 None (Some ?d)"
  let ?bl = "if bundle_len + length data > INVITE_DATA_UNIT then 0 else bundle_len"
  note index = 1(6)
  have k: "0 < ?k" using 1(4,5) by (rule reply_len_pos)
  obtain bs pkts' where p: "pkts = bs # pkts'" "encoded env ?cp bs"
      "list_all2 (encoded env) (accept_packets ext bdl t (index + 1) ?bl ?s) pkts'"
    using 1(7) unfolding accept_unfold [OF 1(4,5), of ext bdl t index] by (auto simp: list_all2_Cons1)
  have d: "?d \<noteq> []" "length sofar + length ?d \<le> sz" "length ?d \<le> INVITE_DATA_UNIT"
    using k 1(3,4) reply_len_le [of bundle_len "length data"] by auto
  have fr: "ce_alloc env' r AllocAssembly" "c_friends r n = Some friendid" "n \<noteq> -1"
    using assms(2) 1(2) by (auto simp: receiver_def collecting_rsp_def split: if_splits)
  have tcb: "transacted_callbacks_get r t = Some tcb"
    using assms(5) 1(2) by (auto simp: transacted_callbacks_get_def collecting_rsp_def split: if_splits)
  have cp: "?cp = response_packet ext (if sofar = [] then bdl else None) t (if sofar = [] then of_nat sz else 0) 0 None (Some ?d)"
    using index 1(3) by auto
  have z32: "?z < 2 ^ 32" using 1(3) assms(4) by (auto simp: invite_consts word_less_nat_alt unat_of_nat_small)
  have "notify_friend_message_cb env' r n bs = handle_invite_response env' r n ?cp"
    by (rule response_received [OF assms(1,2) z32 _ _ p(2)]) simp_all
  from this [unfolded cp] have r: "total (\<lambda>r'. if length sofar + length ?d = sz
      then r' = response_told r0 friendid tcb bdl t 0 None (Some (sofar @ ?d))
      else collecting_rsp r0 friendid ext bdl t sz (sofar @ ?d) r') (notify_friend_message_cb env' r n bs)"
    using response_step [OF fr assms(3) tcb 1(2) d(1,2) assms(4) d(3)] by (simp only:)
  show ?case
  proof (cases "?s = []")
    case True
    then have "pkts' = []" using p(3) by simp
    then show ?thesis using r p(1) 1(3) True by (auto simp: total_def)
  next
    case False
    then have "length sofar + length ?d \<noteq> sz" using 1(3) by auto
    then obtain r' where r': "notify_friend_message_cb env' r n bs = Inr r'" "collecting_rsp r0 friendid ext bdl t sz (sofar @ ?d) r'"
      using r by (auto simp: total_def)
    have "deliver env' r' n pkts' = Inr (response_told r0 friendid tcb bdl t 0 None (Some ((sofar @ ?d) @ ?s)))"
    proof (rule 1(1) [rule_format, OF _ r'(2) _ False _ _ p(3)])
      show "length ?s < length data" using k 1(4) by simp
      show "length (sofar @ ?d) + length ?s = sz" using 1(3) by auto
      show "?bl < INVITE_DATA_UNIT" using 1(5) by (simp add: INVITE_DATA_UNIT_def)
      show "(index + 1 = 0) = (sofar @ ?d = [])" using d(1) by simp
    qed
    then show ?thesis using p(1) r'(1) by simp
  qed
qed

section \<open>Answers arrive\<close>

text \<open>An answer is a refusal, with a status and a reason, or an acceptance with data.\<close>

definition answer_ok :: "u32 \<Rightarrow> string option \<Rightarrow> byte list option \<Rightarrow> bool" where
  "answer_ok status reason data \<longleftrightarrow>
     (if status = 0 then reason = None \<and> (case data of None \<Rightarrow> False | Some d \<Rightarrow> d \<noteq> [] \<and> length d \<le> ELA_MAX_INVITE_DATA_LEN)
      else data = None \<and> (case reason of None \<Rightarrow> False | Some r \<Rightarrow> length r \<le> ELA_MAX_INVITE_REPLY_REASON_LEN))"

lemma answer_cases:
  assumes "answer_ok status reason data"
  obtains (accept) d where "status = 0" "reason = None" "data = Some d" "d \<noteq> []" "length d \<le> ELA_MAX_INVITE_DATA_LEN"
  | (refuse) r where "status \<noteq> 0" "data = None" "reason = Some r"
  using assms by (auto simp: answer_ok_def split: if_splits option.splits)

lemma answer_sends:
  assumes "answer_ok status reason data" "bundle_ok bdl" "healthy env (reply_packets ext bdl t status reason data)"
  obtains w' pkts where "reply_loop env w n ext bdl status reason t 0 (bundle_length bdl) (case data of None \<Rightarrow> [] | Some d \<Rightarrow> d) = Inr (0, w')"
    "c_events w' = c_events w @ map (EvSent n) pkts" "same_tables w w'"
    "list_all2 (encoded env) (reply_packets ext bdl t status reason data) pkts"
  using assms(1)
proof (cases rule: answer_cases)
  case (accept d)
  have l: "length d < 2 ^ 32" using accept(5) by (simp add: invite_consts)
  have "healthy env (accept_packets ext bdl t 0 (bundle_length bdl) d)" using assms(3) accept by (simp add: reply_packets_def)
  from accept_loop_sends [OF accept(4) bundle_length_less [OF assms(2)] l this]
  show thesis using accept that by (auto simp: reply_packets_def)
next
  case (refuse r)
  have "healthy env [response_packet ext bdl t 0 status (Some r) None]" using assms(3) refuse by (simp add: reply_packets_def)
  from refuse_sends [OF refuse(1) this] obtain w' bs where
    "reply_loop env w n ext bdl status (Some r) t 0 (bundle_length bdl) [] = Inr (0, w')" "c_events w' = c_events w @ map (EvSent n) [bs]"
    "encoded env (response_packet ext bdl t 0 status (Some r) None) bs" "same_tables w w'" by blast
  then show thesis using refuse by (intro that [of w' "[bs]"]) (simp_all add: reply_packets_def)
qed

lemma answer_delivered:
  assumes "flatcc_ok (ce_flatcc env)" "receiver env env' r k friendid" "peer_ok friendid ext" "transacted_callbacks_get r t = Some tcb"
    "c_irsps r t = None" "answer_ok status reason data" "bundle_ok bdl"
    "list_all2 (encoded env) (reply_packets ext bdl t status reason data) pkts"
  shows "deliver env' r k pkts = Inr (response_told r friendid tcb bdl t status reason data)"
  using assms(6)
proof (cases rule: answer_cases)
  case (accept d)
  have c: "collecting_rsp r friendid ext bdl t (length d) [] r" using assms(5) by (simp add: collecting_rsp_def)
  have "deliver env' r k pkts = Inr (response_told r friendid tcb bdl t 0 None (Some ([] @ d)))"
    by (rule accepts_delivered [OF assms(1-3) accept(5) assms(4) c _ accept(4) bundle_length_less [OF assms(7)]])
      (use assms(8) accept in \<open>simp_all add: reply_packets_def\<close>)
  then show ?thesis using accept by simp
next
  case (refuse x)
  then obtain bs where bs: "pkts = [bs]" "encoded env (response_packet ext bdl t 0 status (Some x) None) bs"
    using assms(8) by (auto simp: reply_packets_def list_all2_Cons1)
  have fr: "ce_alloc env' r AllocAssembly" "c_friends r k = Some friendid" "k \<noteq> -1" using assms(2) by (auto simp: receiver_def)
  have "notify_friend_message_cb env' r k bs = handle_invite_response env' r k (response_packet ext bdl t 0 status (Some x) None)"
    by (rule response_received [OF assms(1,2) _ _ _ bs(2)]) (use refuse in simp_all)
  then show ?thesis using bs(1) refuse refusal_step [OF fr assms(3,4,5) refuse(1), of bdl x] by simp
qed

lemma reply_starts:
  assumes "resolve_peer env w to_id = Inr (Inr (ext, n))" "transaction_history_get_invite (c_thistory w) to_id = Inr t" "t \<noteq> 0"
    "bundle_ok bdl" "answer_ok status reason data"
  shows "ela_reply_friend_invite env w to_id bdl status reason data =
    bindr (reply_loop env w n ext bdl status reason t 0 (bundle_length bdl) (case data of None \<Rightarrow> [] | Some d \<Rightarrow> d)) (\<lambda>(rc, w).
      if rc < 0 then Inr (rc, w)
      else bindr (transaction_history_remove_invite (c_thistory w) to_id) (\<lambda>h. Inr (0, w\<lparr> c_thistory := h \<rparr>)))"
  by (rule answer_cases [OF assms(5)])
    (use assms in \<open>auto simp: ela_reply_friend_invite_def bundle_ok_def bundle_length_def answer_ok_def Let_def split: option.splits\<close>)

text \<open>
  C14. An answer arrives as it was given. The friend whose request is in the history is answered, with a refusal or with up
  to 8192 bytes of data: the call returns 0 and the request leaves the history, so that it is answered once. When the
  packets that were sent arrive in this order, the function that waits for the answer is called exactly once, with the status, the
  reason or the data and the bundle; then it no longer waits, and no assembly is left.
\<close>

theorem reply_roundtrip:
  assumes "flatcc_ok (ce_flatcc env)" "resolve_peer env w to_id = Inr (Inr (ext, n))"
    "transaction_history_get_invite (c_thistory w) to_id = Inr t" "t \<noteq> 0"
    and "bundle_ok bdl" "answer_ok status reason data" "healthy env (reply_packets ext bdl t status reason data)"
    and "receiver env env' r k friendid" "peer_ok friendid ext" "transacted_callbacks_get r t = Some tcb" "c_irsps r t = None"
  shows "\<exists>w' pkts. ela_reply_friend_invite env w to_id bdl status reason data = Inr (0, w') \<and>
    c_events w' = c_events w @ map (EvSent n) pkts \<and> transaction_history_get_invite (c_thistory w') to_id = Inr 0 \<and>
    deliver env' r k pkts = Inr (response_told r friendid tcb bdl t status reason data)"
proof -
  obtain w' pkts where s:
      "reply_loop env w n ext bdl status reason t 0 (bundle_length bdl) (case data of None \<Rightarrow> [] | Some d \<Rightarrow> d) = Inr (0, w')"
      "c_events w' = c_events w @ map (EvSent n) pkts" "same_tables w w'"
      "list_all2 (encoded env) (reply_packets ext bdl t status reason data) pkts"
    using answer_sends [OF assms(6,5,7)] by blast
  obtain key where key: "history_key to_id = Inr key" using assms(3) by (auto simp: transaction_history_get_invite_def)
  have "ela_reply_friend_invite env w to_id bdl status reason data = Inr (0, w'\<lparr> c_thistory := (c_thistory w')(key := None) \<rparr>)"
    using reply_starts [OF assms(2-6)] s(1) key by (simp add: transaction_history_remove_invite_def)
  moreover have "deliver env' r k pkts = Inr (response_told r friendid tcb bdl t status reason data)"
    by (rule answer_delivered [OF assms(1,8-11,6,5) s(4)])
  ultimately show ?thesis using s(2) key by (auto simp: transaction_history_get_invite_def)
qed

text \<open>An example: a refusal.\<close>

lemma demo_healthy_refusal:
  "healthy (demo_ienv [response_packet (Some ''session'') None 7 0 5 (Some ''busy'') None])
     (reply_packets (Some ''session'') None 7 5 (Some ''busy'') None)"
  by (simp add: healthy_def demo_ienv_def reply_packets_def encoded_def elacp_encode_def response_packet_def list_flatcc_def demo_body_def
      fb_vec_def elacp_get_type_def)

lemma reply_roundtrip_witness:
  defines "env \<equiv> demo_ienv [response_packet (Some ''session'') None 7 0 5 (Some ''busy'') None]"
    and "tcb \<equiv> \<lparr> tcb_friend_number = 3, tcb_callback_func = 9, tcb_bundle = None, tcb_expire_time = time_zero \<rparr>"
  shows "\<exists>w' pkts. ela_reply_friend_invite env (demo_carrier\<lparr> c_thistory := [''ir_bob:session'' \<mapsto> 7] \<rparr>) ''bob:session'' None 5
      (Some ''busy'') None = Inr (0, w') \<and>
    c_events w' = map (EvSent 3) pkts \<and> transaction_history_get_invite (c_thistory w') ''bob:session'' = Inr 0 \<and>
    deliver env (demo_carrier\<lparr> c_tcallbacks := [(7, tcb)] \<rparr>) 3 pkts =
      Inr (response_told (demo_carrier\<lparr> c_tcallbacks := [(7, tcb)] \<rparr>) ''bob'' tcb None 7 5 (Some ''busy'') None)"
proof -
  let ?w = "demo_carrier\<lparr> c_thistory := [''ir_bob:session'' \<mapsto> 7] \<rparr>" and ?r = "demo_carrier\<lparr> c_tcallbacks := [(7, tcb)] \<rparr>"
  have "resolve_peer env ?w ''bob:session'' = Inr (Inr (Some ''session'', 3))"
    by (simp add: env_def resolve_peer_def demo_ienv_def demo_carrier_def invite_consts parse_address_def is_valid_key_def
        friend_known_def get_friend_number_def)
  moreover have "transaction_history_get_invite (c_thistory ?w) ''bob:session'' = Inr 7"
    by (simp add: transaction_history_get_invite_def history_key_def copy_str_def invite_consts)
  moreover have "receiver env env ?r 3 ''bob''" by (simp add: receiver_def env_def demo_ienv_def demo_carrier_def)
  moreover have "flatcc_ok (ce_flatcc env)" unfolding env_def by (rule demo_flatcc) simp
  moreover have "transacted_callbacks_get ?r 7 = Some tcb" "c_irsps ?r 7 = None" by (simp_all add: transacted_callbacks_get_def demo_carrier_def)
  moreover have "peer_ok ''bob'' (Some ''session'')" "answer_ok 5 (Some ''busy'') None" "bundle_ok None" "(7 :: tid) \<noteq> 0"
    by (simp_all add: peer_ok_def ext_str_def answer_ok_def bundle_ok_def invite_consts)
  moreover have "c_events ?w = []" by (simp add: demo_carrier_def)
  ultimately show ?thesis
    using reply_roundtrip [of env ?w "''bob:session''" "Some ''session''" 3 7 None 5 "Some ''busy''" None env ?r 3 "''bob''" tcb]
      demo_healthy_refusal by (simp add: env_def)
qed

end
