(* ===== verification/Invite_Safe.thy ===== *)
theory Invite_Safe
  imports Reply_Spec
begin

text \<open>
  What friends can do to a carrier with the packets they send. As long as names fit, numbers of transactions are not 0 and
  refusals have a reason, the assemblies stay well-formed and those of other friends are left alone; the last section has the
  packets that break these conditions, which nothing on the way checks.
\<close>

section \<open>Well-formed assemblies\<close>

definition assembly_ok :: "TransactedAssembly \<Rightarrow> bool" where
  "assembly_ok a \<longleftrightarrow> length (ta_data a) = unat (ta_data_len a) \<and> ta_data_len a \<le> of_nat ELA_MAX_INVITE_DATA_LEN \<and>
     ta_data_off a < ta_data_len a \<and> length (ta_ext a) \<le> ELA_MAX_EXTENSION_NAME_LEN \<and> length (ta_friendid a) < ELA_MAX_ID_LEN"

definition table_ok :: "(tid \<rightharpoonup> TransactedAssembly) \<Rightarrow> bool" where
  "table_ok m \<longleftrightarrow> (\<forall>t a. m t = Some a \<longrightarrow> assembly_ok a)"

definition carrier_ok :: "carrier \<Rightarrow> bool" where
  "carrier_ok w \<longleftrightarrow> (\<forall>n friendid. c_friends w n = Some friendid \<longrightarrow> length friendid < ELA_MAX_ID_LEN) \<and>
     table_ok (c_ireqs w) \<and> table_ok (c_irsps w)"

text \<open>The assemblies of other friends are unchanged.\<close>

definition others_kept :: "string \<Rightarrow> (tid \<rightharpoonup> TransactedAssembly) \<Rightarrow> (tid \<rightharpoonup> TransactedAssembly) \<Rightarrow> bool" where
  "others_kept friendid m m' \<longleftrightarrow> (\<forall>t a. ta_friendid a \<noteq> friendid \<longrightarrow> (m' t = Some a) = (m t = Some a))"

lemma table_ok_upd: "table_ok m \<Longrightarrow> assembly_ok a \<Longrightarrow> table_ok (m(t \<mapsto> a))" "table_ok m \<Longrightarrow> table_ok (m(t := None))"
  by (auto simp: table_ok_def)

lemma others_kept_simps [simp]: "others_kept friendid m m"
  "ta_friendid a = friendid \<Longrightarrow> (\<forall>b. m t = Some b \<longrightarrow> ta_friendid b = friendid) \<Longrightarrow> others_kept friendid m (m(t \<mapsto> a))"
  "(\<forall>b. m t = Some b \<longrightarrow> ta_friendid b = friendid) \<Longrightarrow> others_kept friendid m (m(t := None))"
  by (auto simp: others_kept_def)

text \<open>A new assembly may be empty or full: these are not stored.\<close>

definition fresh_ok :: "TransactedAssembly \<Rightarrow> bool" where
  "fresh_ok a \<longleftrightarrow> length (ta_data a) = unat (ta_data_len a) \<and> ta_data_len a \<le> of_nat ELA_MAX_INVITE_DATA_LEN \<and>
     ta_data_off a \<le> ta_data_len a \<and> length (ta_ext a) \<le> ELA_MAX_EXTENSION_NAME_LEN \<and> length (ta_friendid a) < ELA_MAX_ID_LEN"

lemma assembly_ok_fresh: "assembly_ok a \<longleftrightarrow> fresh_ok a \<and> ta_data_off a \<noteq> ta_data_len a"
  by (auto simp: assembly_ok_def fresh_ok_def)

lemma new_fresh:
  assumes "length friendid < ELA_MAX_ID_LEN" "length (ext_str ext) \<le> ELA_MAX_EXTENSION_NAME_LEN" "z \<le> of_nat ELA_MAX_INVITE_DATA_LEN"
  shows "total (\<lambda>a. fresh_ok a \<and> ta_friendid a = friendid) (new_assembly env w ext friendid t z bdl reason)"
  using assms by (simp add: new_assembly_def fresh_ok_def copy_str_def ext_str_def [symmetric])

text \<open>Blocks of memory are shorter than the address space.\<close>

definition short :: "byte list option \<Rightarrow> bool" where
  "short data \<longleftrightarrow> (case data of None \<Rightarrow> True | Some d \<Rightarrow> length d < 2 ^ 64)"

lemma append_fresh:
  assumes "fresh_ok a" "\<not> invalid_fragment a ext friendid (data_len data)" "short data"
  shows "total (\<lambda>a'. fresh_ok a' \<and> ta_friendid a' = friendid) (append_fragment a data)"
proof (cases data)
  case None
  then show ?thesis using assms(1,2) by (simp add: append_fragment_def invalid_fragment_def)
next
  case (Some d)
  let ?n = "of_nat (length d) :: u64"
  have v: "\<not> ta_data_off a + ?n < ?n" "ta_data_off a + ?n \<le> ta_data_len a" "ta_friendid a = friendid"
    using assms(2) Some by (auto simp: invalid_fragment_def data_len_def not_less)
  have n: "unat ?n = length d" using assms(3) Some by (simp add: short_def unat_of_nat_small)
  have "unat (ta_data_off a + ?n) = unat (ta_data_off a) + length d"
    using v(1) n by (metis add.commute no_olen_add_nat not_less plus_minus_no_overflow_ab unat_plus_simple word_le_def)
  then have "unat (ta_data_off a) + length d \<le> length (ta_data a)" using v(2) assms(1) by (simp add: word_le_nat_alt fresh_ok_def)
  then show ?thesis using Some assms(1) v by (simp add: append_fragment_def copy_bytes_def data_len_def fresh_ok_def)
qed

section \<open>Packets of friends\<close>

text \<open>What the code relies on but does not check.\<close>

definition polite :: "ElaCP \<Rightarrow> bool" where
  "polite cp \<longleftrightarrow> length (ext_str (cp_ext cp)) \<le> ELA_MAX_EXTENSION_NAME_LEN \<and> (case cp_packet cp of
     PktIreq p \<Rightarrow> iq_tid p \<noteq> 0 \<and> short (iq_data p)
   | PktIrsp p \<Rightarrow> (ip_status p \<noteq> 0 \<longrightarrow> ip_reason p \<noteq> None) \<and> short (ip_data p)
   | _ \<Rightarrow> True)"

text \<open>What a handler keeps, for a packet of the friend \<open>friendid\<close>.\<close>

definition step_ok :: "string \<Rightarrow> carrier \<Rightarrow> carrier \<Rightarrow> bool" where
  "step_ok friendid w w' \<longleftrightarrow> carrier_ok w' \<and> others_kept friendid (c_ireqs w) (c_ireqs w') \<and> others_kept friendid (c_irsps w) (c_irsps w') \<and>
     c_friends w' = c_friends w"

lemma step_ok_refl: "carrier_ok w \<Longrightarrow> step_ok friendid w w"
  by (simp add: step_ok_def)

lemma find_ireq_fresh:
  assumes "carrier_ok w" "length friendid < ELA_MAX_ID_LEN" "length (ext_str ext) \<le> ELA_MAX_EXTENSION_NAME_LEN"
  shows "total (\<lambda>f. \<forall>add a. f = Some (add, a) \<longrightarrow> fresh_ok a \<and> (c_ireqs w t = Some a \<or> c_ireqs w t = None))
    (find_ireq env w ext friendid t z bdl)"
proof (cases "c_ireqs w t")
  case None
  have "z \<le> of_nat ELA_MAX_INVITE_DATA_LEN \<Longrightarrow> total (\<lambda>a. fresh_ok a) (new_assembly env w ext friendid t z bdl None)"
    by (rule total_mono [OF new_fresh [OF assms(2,3)]]) simp_all
  then show ?thesis using None by (auto simp: find_ireq_def not_less total_def)
next
  case (Some a)
  then have "fresh_ok a" using assms(1) by (simp add: carrier_ok_def table_ok_def assembly_ok_fresh)
  then show ?thesis using Some by (simp add: find_ireq_def)
qed

lemma find_irsp_fresh:
  assumes "carrier_ok w" "length friendid < ELA_MAX_ID_LEN" "length (ext_str ext) \<le> ELA_MAX_EXTENSION_NAME_LEN"
  shows "total (\<lambda>f. \<forall>add a. f = Some (add, a) \<longrightarrow> fresh_ok a \<and> (c_irsps w t = Some a \<or> c_irsps w t = None))
    (find_irsp env w ext friendid t z bdl reason)"
proof (cases "c_irsps w t")
  case None
  have "z \<le> of_nat ELA_MAX_INVITE_DATA_LEN \<Longrightarrow> total (\<lambda>a. fresh_ok a) (new_assembly env w ext friendid t z bdl reason)"
    by (rule total_mono [OF new_fresh [OF assms(2,3)]]) simp_all
  then show ?thesis using None by (auto simp: find_irsp_def not_less total_def)
next
  case (Some a)
  then have "fresh_ok a" using assms(1) by (simp add: carrier_ok_def table_ok_def assembly_ok_fresh)
  then show ?thesis using Some by (simp add: find_irsp_def)
qed

lemma notify_invite_frame [simp]:
  "c_ireqs (notify_invite w friendid ext a) = c_ireqs w" "c_irsps (notify_invite w friendid ext a) = c_irsps w"
  "c_friends (notify_invite w friendid ext a) = c_friends w"
  by (auto simp: notify_invite_def c_log_def split: option.splits)

lemma complete_ireq_ok:
  assumes "carrier_ok w" "ce_alloc env w AllocHistory" "t \<noteq> 0" "peer_ok friendid ext" "\<forall>b. c_ireqs w t = Some b \<longrightarrow> ta_friendid b = friendid"
  shows "total (step_ok friendid w) (complete_ireq env w add a ext friendid t)"
proof -
  have "carrier_ok (w\<lparr> c_thistory := h \<rparr>)" for h using assms(1) by (simp add: carrier_ok_def)
  then show ?thesis
    unfolding complete_ireq_def peer_address_def [symmetric] transaction_history_put_invite_def Let_def
    using assms peer_ok_copies(3,4) [OF assms(4)] by (auto simp: step_ok_def carrier_ok_def table_ok_upd)
qed

lemma complete_irsp_ok:
  assumes "carrier_ok w" "\<forall>b. c_irsps w t = Some b \<longrightarrow> ta_friendid b = friendid"
  shows "step_ok friendid w (complete_irsp w add a tcb friendid t status reason)"
  using assms by (auto simp: complete_irsp_def step_ok_def carrier_ok_def c_log_def transacted_callbacks_remove_def Let_def table_ok_upd)

lemma store_ok:
  assumes "carrier_ok w" "fresh_ok a" "ta_data_off a \<noteq> ta_data_len a" "ta_friendid a = friendid"
  shows "\<forall>b. c_ireqs w t = Some b \<longrightarrow> ta_friendid b = friendid \<Longrightarrow> step_ok friendid w (w\<lparr> c_ireqs := (c_ireqs w)(t \<mapsto> a) \<rparr>)"
    "\<forall>b. c_irsps w t = Some b \<longrightarrow> ta_friendid b = friendid \<Longrightarrow> step_ok friendid w (w\<lparr> c_irsps := (c_irsps w)(t \<mapsto> a) \<rparr>)"
  using assms by (auto simp: step_ok_def carrier_ok_def table_ok_upd assembly_ok_fresh)

lemma ireq_fields:
  assumes "cp = \<lparr> cp_ext = ext, cp_packet = PktIreq p \<rparr>"
  shows "elacp_get_type cp = ELACP_TYPE_INVITE_REQUEST" "elacp_get_extension cp = ext" "elacp_get_bundle cp = Inr (iq_bundle p)"
    "elacp_get_raw_data cp = Inr (iq_data p)" "elacp_get_raw_data_length cp = Inr (data_len (iq_data p))" "elacp_get_tid cp = Inr (iq_tid p)"
    "elacp_get_totalsz cp = Inr (iq_totalsz p)"
  by (simp_all add: assms elacp_get_type_def elacp_get_extension_def elacp_get_bundle_def elacp_get_raw_data_def
      elacp_get_raw_data_length_def elacp_get_tid_def elacp_get_totalsz_def)

lemma irsp_fields:
  assumes "cp = \<lparr> cp_ext = ext, cp_packet = PktIrsp p \<rparr>"
  shows "elacp_get_type cp = ELACP_TYPE_INVITE_RESPONSE" "elacp_get_extension cp = ext" "elacp_get_bundle cp = Inr (ip_bundle p)"
    "elacp_get_raw_data cp = Inr (ip_data p)" "elacp_get_tid cp = Inr (ip_tid p)" "elacp_get_totalsz cp = Inr (ip_totalsz p)"
    "elacp_get_status cp = Inr (ip_status p)" "elacp_get_reason cp = Inr (ip_reason p)"
  by (simp_all add: assms elacp_get_type_def elacp_get_extension_def elacp_get_bundle_def elacp_get_raw_data_def
      elacp_get_tid_def elacp_get_totalsz_def elacp_get_status_def elacp_get_reason_def)

lemma handle_invite_request_ok:
  assumes w: "carrier_ok w" "ce_alloc env w AllocHistory" "n \<noteq> -1" "c_friends w n = Some friendid"
    and cp: "cp = \<lparr> cp_ext = ext, cp_packet = PktIreq p \<rparr>" "polite cp"
  shows "total (step_ok friendid w) (handle_invite_request env w n cp)"
proof -
  have f: "length friendid < ELA_MAX_ID_LEN" "length (ext_str ext) \<le> ELA_MAX_EXTENSION_NAME_LEN" "iq_tid p \<noteq> 0"
      "short (iq_data p)" using w(1,4) cp by (auto simp: carrier_ok_def polite_def)
  then have peer: "peer_ok friendid ext" by (simp add: peer_ok_def)
  have g: "friends_get w n = Inr (Some friendid)" using w(3,4) by (simp add: friends_get_def)
  obtain fnd where fnd: "find_ireq env w ext friendid (iq_tid p) (iq_totalsz p) (iq_bundle p) = Inr fnd"
      "\<And>add a. fnd = Some (add, a) \<Longrightarrow> fresh_ok a \<and> (c_ireqs w (iq_tid p) = Some a \<or> c_ireqs w (iq_tid p) = None)"
    using find_ireq_fresh [OF w(1) f(1,2), of "iq_tid p" env] by (fastforce simp: total_def)
  have step: "total (step_ok friendid w) (bindr (append_fragment a (iq_data p)) (\<lambda>ireq.
      if ta_data_off ireq = ta_data_len ireq then complete_ireq env w add ireq ext friendid (iq_tid p)
      else Inr (w\<lparr> c_ireqs := (c_ireqs w)(iq_tid p \<mapsto> ireq) \<rparr>)))"
    if a: "fnd = Some (add, a)" "\<not> invalid_fragment a ext friendid (data_len (iq_data p))" for add a
  proof -
    have own: "\<forall>b. c_ireqs w (iq_tid p) = Some b \<longrightarrow> ta_friendid b = friendid" using fnd(2) [OF a(1)] a(2) by (auto simp: invalid_fragment_def)
    show ?thesis
      using append_fresh [OF _ a(2) f(4)] fnd(2) [OF a(1)] complete_ireq_ok [OF w(1,2) f(3) peer own] store_ok(1) [OF w(1) _ _ _ own]
      by (auto simp: total_def)
  qed
  show ?thesis
    unfolding handle_invite_request_def ireq_fields [OF cp(1)] Let_def
    using w(1,3) g fnd(1) step peer_ok_copies(1) [OF peer] by (auto simp: step_ok_refl simp del: total_simps(3) split: option.split)
qed

lemma response_parts_ok:
  assumes "cp = \<lparr> cp_ext = ext, cp_packet = PktIrsp p \<rparr>" "polite cp"
  obtains reason data where "response_parts cp (ip_status p) = Inr (reason, data)" "short data"
proof (cases "ip_status p = 0")
  case True
  then have "response_parts cp (ip_status p) = Inr (None, ip_data p)" by (simp add: response_parts_def irsp_fields [OF assms(1)])
  then show thesis using that assms by (simp add: polite_def)
next
  case False
  then obtain r where "ip_reason p = Some r" using assms by (auto simp: polite_def)
  then show thesis using that [of "Some r" None] False by (simp add: response_parts_def irsp_fields [OF assms(1)] short_def)
qed

lemma handle_invite_response_ok:
  assumes w: "carrier_ok w" "n \<noteq> -1" "c_friends w n = Some friendid"
    and cp: "cp = \<lparr> cp_ext = ext, cp_packet = PktIrsp p \<rparr>" "polite cp"
  shows "total (step_ok friendid w) (handle_invite_response env w n cp)"
proof -
  have f: "length friendid < ELA_MAX_ID_LEN" "length (ext_str ext) \<le> ELA_MAX_EXTENSION_NAME_LEN"
    using w(1,3) cp by (auto simp: carrier_ok_def polite_def)
  then have peer: "peer_ok friendid ext" by (simp add: peer_ok_def)
  have g: "friends_get w n = Inr (Some friendid)" using w(2,3) by (simp add: friends_get_def)
  obtain reason data where parts: "response_parts cp (ip_status p) = Inr (reason, data)" "short data" using response_parts_ok [OF cp] .
  obtain fnd where fnd: "find_irsp env w ext friendid (ip_tid p) (ip_totalsz p) (ip_bundle p) reason = Inr fnd"
      "\<And>add a. fnd = Some (add, a) \<Longrightarrow> fresh_ok a \<and> (c_irsps w (ip_tid p) = Some a \<or> c_irsps w (ip_tid p) = None)"
    using find_irsp_fresh [OF w(1) f(1,2), of "ip_tid p" env] by (fastforce simp: total_def)
  have step: "total (step_ok friendid w) (bindr (append_fragment a data) (\<lambda>irsp.
      Inr (if ta_data_off irsp = ta_data_len irsp then complete_irsp w add irsp tcb friendid (ip_tid p) (ip_status p) reason
      else w\<lparr> c_irsps := (c_irsps w)(ip_tid p \<mapsto> irsp) \<rparr>)))"
    if a: "fnd = Some (add, a)" "\<not> invalid_fragment a ext friendid (data_len data)" for add a tcb
  proof -
    have own: "\<forall>b. c_irsps w (ip_tid p) = Some b \<longrightarrow> ta_friendid b = friendid" using fnd(2) [OF a(1)] a(2) by (auto simp: invalid_fragment_def)
    show ?thesis
      using append_fresh [OF _ a(2) parts(2)] fnd(2) [OF a(1)] complete_irsp_ok [OF w(1) own] store_ok(2) [OF w(1) _ _ _ own]
      by (auto simp: total_def)
  qed
  show ?thesis
    unfolding handle_invite_response_def irsp_fields [OF cp(1)] Let_def
    using w(1,2) g parts(1) fnd(1) step peer_ok_copies(1) [OF peer]
    by (auto simp: step_ok_refl simp del: total_simps(3) split: option.split)
qed

lemma packet_received_ok:
  assumes "carrier_ok w" "ce_alloc env w AllocHistory" "n \<noteq> -1" "elacp_decode (ce_flatcc env) (ce_alloc env w AllocPacket) bs = Inr cpo"
    "\<forall>cp. cpo = Some cp \<longrightarrow> polite cp"
  shows "total (\<lambda>w'. carrier_ok w' \<and> c_friends w' = c_friends w \<and> (\<forall>friendid. c_friends w n = Some friendid \<longrightarrow> step_ok friendid w w'))
    (notify_friend_message_cb env w n bs)"
proof (cases cpo)
  case None
  then show ?thesis using assms(1,2,4) by (simp add: notify_friend_message_cb_def step_ok_refl)
next
  case (Some cp)
  obtain ext p where cp: "cp = \<lparr> cp_ext = ext, cp_packet = p \<rparr>" by (cases cp)
  have pol: "polite cp" using Some assms(5) by simp
  note d = notify_friend_message_cb_def assms(2,4) Some elacp_types
  show ?thesis
  proof (cases "c_friends w n")
    case None
    then show ?thesis using assms(1,3)
      by (cases p) (simp_all add: d cp elacp_get_type_def handle_friend_message_def handle_invite_request_def handle_invite_response_def friends_get_def)
  next
    case (Some friendid)
    then have l: "length friendid < Suc ELA_MAX_ID_LEN" using assms(1) by (auto simp: carrier_ok_def intro: less_SucI)
    have "total (step_ok friendid w) (notify_friend_message_cb env w n bs)"
    proof (cases p)
      case (PktIreq q)
      then show ?thesis using handle_invite_request_ok [OF assms(1-3) Some _ pol] cp
        by (simp add: d elacp_get_type_def)
    next
      case (PktIrsp q)
      then show ?thesis using handle_invite_response_ok [OF assms(1,3) Some _ pol] cp
        by (simp add: d elacp_get_type_def)
    qed (use assms(1,3) Some l in \<open>simp_all add: d cp elacp_get_type_def handle_friend_message_def friends_get_def copy_str_def step_ok_refl
      elacp_get_raw_data_def elacp_get_extension_def step_ok_def c_log_def carrier_ok_def\<close>)
    then show ?thesis by (rule total_mono) (use Some in \<open>auto simp: step_ok_def\<close>)
  qed
qed

section \<open>Runs\<close>

text \<open>
  A carrier that receives packets of friends and drops assemblies that have waited too long, in any order. A packet that cannot
  be read is dropped; of the others the code relies on being polite.
\<close>

definition acceptable :: "carrier_env \<Rightarrow> byte list \<Rightarrow> bool" where
  "acceptable env bs \<longleftrightarrow> (case elacp_decode (ce_flatcc env) True bs of Inl e \<Rightarrow> False | Inr None \<Rightarrow> True | Inr (Some cp) \<Rightarrow> polite cp)"

lemma decode_no_memory: "elacp_decode lib False bs = Inr None"
  by (auto simp: elacp_decode_def elacp_create_def Let_def elacp_types split: option.split)

definition assemblies_expire :: "carrier_env \<Rightarrow> carrier \<Rightarrow> carrier" where
  "assemblies_expire env w = w\<lparr> c_ireqs := do_tassemblies_expire (ce_now env w) (c_ireqs w),
     c_irsps := do_tassemblies_expire (ce_now env w) (c_irsps w) \<rparr>"

inductive carrier_run :: "carrier_env \<Rightarrow> carrier \<Rightarrow> carrier \<Rightarrow> bool" for env :: carrier_env and w0 :: carrier where
  run_start: "carrier_run env w0 w0"
| run_receive: "carrier_run env w0 w \<Longrightarrow> n \<noteq> -1 \<Longrightarrow> acceptable env bs \<Longrightarrow> notify_friend_message_cb env w n bs = Inr w' \<Longrightarrow>
    carrier_run env w0 w'"
| run_expire: "carrier_run env w0 w \<Longrightarrow> carrier_run env w0 (assemblies_expire env w)"

lemma receive_ok:
  assumes "carrier_ok w" "ce_alloc env w AllocHistory" "n \<noteq> -1" "acceptable env bs"
  shows "total (\<lambda>w'. carrier_ok w' \<and> (\<forall>friendid. c_friends w n = Some friendid \<longrightarrow> step_ok friendid w w')) (notify_friend_message_cb env w n bs)"
proof -
  obtain cpo where "elacp_decode (ce_flatcc env) True bs = Inr cpo" "\<forall>cp. cpo = Some cp \<longrightarrow> polite cp"
    using assms(4) by (auto simp: acceptable_def split: sum.splits option.splits)
  then obtain cpo where "elacp_decode (ce_flatcc env) (ce_alloc env w AllocPacket) bs = Inr cpo" "\<forall>cp. cpo = Some cp \<longrightarrow> polite cp"
    using decode_no_memory [of "ce_flatcc env" bs] by (cases "ce_alloc env w AllocPacket") auto
  from packet_received_ok [OF assms(1-3) this] show ?thesis by (rule total_mono) simp
qed

lemma expire_table_ok: "table_ok m \<Longrightarrow> table_ok (do_tassemblies_expire now m)"
  by (auto simp: table_ok_def do_tassemblies_expire_def split: option.splits if_splits)

lemma run_ok: "carrier_run env w0 w \<Longrightarrow> carrier_ok w0 \<Longrightarrow> \<forall>w. ce_alloc env w AllocHistory \<Longrightarrow> carrier_ok w"
proof (induction rule: carrier_run.induct)
  case (run_receive w n bs w')
  then show ?case using receive_ok [of w env n bs] by simp
next
  case (run_expire w)
  then show ?case using expire_table_ok by (simp add: assemblies_expire_def carrier_ok_def)
qed simp

text \<open>
  C6. Whatever fragments friends send, in whatever order, with whatever sizes and with assemblies expiring in between, as long as
  each packet is acceptable: it cannot be read, or its extension has at most 31 characters, its transaction is not 0 if it is a request, its data
  has less than 2^64 bytes, and a refusal has a reason (\<open>acceptable\<close>; the last theorem of this theory shows what other packets do). The start is a carrier
  whose tables are well formed and whose friends have ids of less than 45 characters, and the allocation of a history entry, which the code does not check, never fails; the packet and the
  assembly may run out of memory. Then each packet is handled without an error, every assembly keeps to its block of at most 8192
  bytes and is not yet full, and a packet leaves the assemblies of other friends alone.
\<close>

theorem receive_safe:
  assumes "carrier_ok w0" "\<forall>w. ce_alloc env w AllocHistory" "carrier_run env w0 w" "n \<noteq> -1" "acceptable env bs"
  shows "carrier_ok w \<and> (\<exists>w'. notify_friend_message_cb env w n bs = Inr w' \<and> carrier_ok w' \<and>
    (\<forall>friendid. c_friends w n = Some friendid \<longrightarrow>
      others_kept friendid (c_ireqs w) (c_ireqs w') \<and> others_kept friendid (c_irsps w) (c_irsps w')))"
proof -
  have w: "carrier_ok w" using run_ok [OF assms(3,1,2)] .
  then show ?thesis using receive_ok [OF w spec [OF assms(2)] assms(4,5)] by (auto simp: total_def step_ok_def)
qed

lemma demo_receive: "elacp_decode (ce_flatcc (demo_ienv demo_requests)) True [0] = Inr (Some (hd demo_requests))"
  by (simp add: demo_ienv_def demo_requests_def list_flatcc_def demo_body_def elacp_decode_def elacp_create_def elacp_types request_packet_def
      elacp_get_type_def)

lemma receive_safe_witness:
  "\<exists>w'. notify_friend_message_cb (demo_ienv demo_requests) (assemblies_expire (demo_ienv demo_requests) demo_carrier) 3 [0] = Inr w' \<and> carrier_ok w'"
proof -
  have "carrier_ok demo_carrier" by (simp add: carrier_ok_def demo_carrier_def table_ok_def invite_consts)
  moreover have "\<forall>w. ce_alloc (demo_ienv demo_requests) w AllocHistory" by (simp add: demo_ienv_def)
  moreover have "carrier_run (demo_ienv demo_requests) demo_carrier (assemblies_expire (demo_ienv demo_requests) demo_carrier)"
    by (intro run_expire run_start)
  moreover have "acceptable (demo_ienv demo_requests) [0]"
    unfolding acceptable_def demo_receive by (simp add: polite_def demo_requests_def request_packet_def ext_str_def short_def invite_consts)
  ultimately show ?thesis using receive_safe [of demo_carrier "demo_ienv demo_requests" "assemblies_expire (demo_ienv demo_requests) demo_carrier" 3 "[0]"] by auto
qed

section \<open>Packets that are not polite\<close>

lemma long_extension_request:
  assumes "c_friends w n = Some friendid" "length friendid < ELA_MAX_ID_LEN" "n \<noteq> -1" "ce_alloc env w AllocAssembly" "c_ireqs w t = None"
    "length ext > ELA_MAX_EXTENSION_NAME_LEN" "0 < z" "z \<le> of_nat ELA_MAX_INVITE_DATA_LEN"
  shows "handle_invite_request env w n (request_packet (Some ext) bdl t z d) = Inl OutOfBounds"
proof -
  have "friends_get w n = Inr (Some friendid)" "copy_str (ELA_MAX_ID_LEN + 1) friendid = Inr friendid"
    using assms(1-3) by (simp_all add: friends_get_def copy_str_def)
  then show ?thesis
    unfolding handle_invite_request_def request_fields Let_def
    using assms(3-8) by (auto simp: find_ireq_def new_assembly_def copy_str_def not_less)
qed

lemma zero_tid_request:
  assumes "c_friends w n = Some friendid" "n \<noteq> -1" "peer_ok friendid ext" "ce_alloc env w AllocAssembly" "c_ireqs w 0 = None"
    "d \<noteq> []" "length d \<le> INVITE_DATA_UNIT"
  shows "handle_invite_request env w n (request_packet ext bdl 0 (of_nat (length d)) d) = Inl AssertFail"
proof -
  have sz: "0 < length d" "length d \<le> ELA_MAX_INVITE_DATA_LEN" using assms(6,7) by (auto simp: invite_consts)
  have "collecting w friendid ext bdl 0 (length d) [] w" using assms(5) by (simp add: collecting_def)
  then obtain a where a: "find_ireq env w ext friendid 0 (of_nat (length d)) bdl = Inr (Some (True, a))" "assembled friendid ext bdl (length d) [] a"
    using request_found [OF assms(4,3) sz, of w bdl 0 "[]"] by auto
  obtain a' where a': "append_fragment a (Some d) = Inr a'" "(ta_data_off a' = ta_data_len a') = (length [] + length d = length d)"
    using fragment_appended [OF a(2) _ sz(2), of d] by auto
  have "friends_get w n = Inr (Some friendid)" using assms(1,2) by (simp add: friends_get_def)
  then show ?thesis
    unfolding handle_invite_request_def request_fields Let_def
    using a(1) a' peer_ok_copies(1,3) [OF assms(3)] fragment_valid [OF a(2) _ sz(2) assms(7)] data_len_pos [OF assms(6,7)] assms(2)
    by (simp add: complete_ireq_def peer_address_def transaction_history_put_invite_def)
qed

text \<open>The allocation of a history entry is not checked: a complete request then writes through a null pointer.\<close>

lemma history_out_of_memory:
  assumes "assembled friendid ext bdl (length data) data a" "peer_ok friendid ext" "t \<noteq> 0" "\<not> ce_alloc env r AllocHistory"
  shows "complete_ireq env r add a ext friendid t = Inl BadPointer"
  unfolding complete_ireq_def peer_address_def [symmetric] transaction_history_put_invite_def
  using peer_ok_copies(3) [OF assms(2)] assms(3,4) by simp

lemma bare_refusal:
  assumes "c_friends w n = Some friendid" "length friendid < ELA_MAX_ID_LEN" "n \<noteq> -1" "transacted_callbacks_get w t = Some tcb" "status \<noteq> 0"
  shows "handle_invite_response env w n (response_packet ext bdl t z status None d) = Inl BadPointer"
proof -
  have "friends_get w n = Inr (Some friendid)" "copy_str (ELA_MAX_ID_LEN + 1) friendid = Inr friendid"
    using assms(1-3) by (simp_all add: friends_get_def copy_str_def)
  then show ?thesis
    unfolding handle_invite_response_def response_parts_def response_fields Let_def using assms(3-5) by simp
qed

text \<open>
  C34. Four packets of a friend that the code does not expect. A request whose extension is longer than 31 characters is
  copied past its array. A request for transaction 0 that is complete stops the process at an assertion. A refusal without
  a reason of a request that waits for an answer reads a null pointer. And a refusal is accepted from any friend: the function
  that waits for the answer of one friend is called for another.
\<close>

theorem hostile_packets:
  assumes "c_friends w n = Some friendid" "n \<noteq> -1" "ce_alloc env w AllocAssembly" "length friendid < ELA_MAX_ID_LEN"
    and "c_ireqs w t = None" "c_ireqs w 0 = None" "c_irsps w t = None" "transacted_callbacks_get w t = Some tcb"
    and "length ext > ELA_MAX_EXTENSION_NAME_LEN" "d \<noteq> []" "length d \<le> INVITE_DATA_UNIT" "status \<noteq> 0"
  shows "handle_invite_request env w n (request_packet (Some ext) None t (of_nat (length d)) d) = Inl OutOfBounds \<and>
    handle_invite_request env w n (request_packet None None 0 (of_nat (length d)) d) = Inl AssertFail \<and>
    handle_invite_response env w n (response_packet None None t 0 status None None) = Inl BadPointer \<and>
    handle_invite_response env w n (response_packet None None t 0 status (Some reason) None) =
      Inr (response_told w friendid tcb None t status (Some reason) None)"
proof -
  have p: "peer_ok friendid None" using assms(4) by (simp add: peer_ok_def ext_str_def)
  have z: "0 < (of_nat (length d) :: u64)" "(of_nat (length d) :: u64) \<le> of_nat ELA_MAX_INVITE_DATA_LEN"
    using assms(10,11) by (simp_all add: word_less_nat_alt word_le_nat_alt unat_of_nat_small invite_consts)
  show ?thesis
    using long_extension_request [OF assms(1,4,2,3,5,9) z] zero_tid_request [OF assms(1,2) p assms(3,6,10,11)]
      bare_refusal [OF assms(1,4,2,8,12)] refusal_step [OF assms(3,1,2) p assms(8,7,12)] by simp
qed

definition demo_waiting :: carrier where
  "demo_waiting = demo_carrier\<lparr> c_tcallbacks :=
     [(7, \<lparr> tcb_friend_number = 4, tcb_callback_func = 9, tcb_bundle = None, tcb_expire_time = time_zero \<rparr>)] \<rparr>"

lemma hostile_packets_witness:
  "handle_invite_request (demo_ienv []) demo_waiting 3 (request_packet (Some (replicate 32 CHR ''x'')) None 7 1 [5]) = Inl OutOfBounds \<and>
   handle_invite_request (demo_ienv []) demo_waiting 3 (request_packet None None 0 1 [5]) = Inl AssertFail \<and>
   handle_invite_response (demo_ienv []) demo_waiting 3 (response_packet None None 7 0 1 None None) = Inl BadPointer"
  using hostile_packets [of demo_waiting 3 "''bob''" "demo_ienv []" 7 _ "replicate 32 CHR ''x''" "[5]" 1 "''no''"]
  by (simp add: demo_waiting_def demo_carrier_def demo_ienv_def invite_consts transacted_callbacks_get_def)

end
