(* ===== verification/FileTransfer.thy ===== *)
theory FileTransfer
  imports Invite
begin

text \<open>
  File transfers, \<open>src/filetransfer/filetransfer.c\<close> with \<open>filetransfer.h\<close>, \<open>filerequests.h\<close> and \<open>message.h\<close>. A transfer is a
  session with one stream; each of up to five files has a channel. The sender opens a channel with a cookie that names the file,
  the receiver pulls it from an offset, and either side acts on the events of its channel.

  The session below is the environment \<open>ft_env\<close>: the results of its functions may depend on everything that happened,
  which \<open>ft_log\<close> records. Removing a live stream calls \<open>stream_state_changed\<close>, as \<open>ice_handler_stop\<close> does. The user's
  callbacks may change the transfer in any way, for instance by calling its functions.
\<close>

section \<open>Data\<close>

definition ELA_MAX_FILE_NAME_LEN :: nat where "ELA_MAX_FILE_NAME_LEN = 255"
definition ELA_MAX_FILE_ID_LEN :: nat where "ELA_MAX_FILE_ID_LEN = ELA_MAX_ID_LEN"
definition ELA_MAX_TRANSFERFILE_COUNT :: nat where "ELA_MAX_TRANSFERFILE_COUNT = 5"
definition FILE_TRANSFER_REQUEST_EXPIRE_INTERVAL :: int where "FILE_TRANSFER_REQUEST_EXPIRE_INTERVAL = 5 * 60"
definition PACKET_PULL :: u16 where "PACKET_PULL = 2"
definition PACKET_CANCEL :: u16 where "PACKET_CANCEL = 3"
definition bundle_prefix :: string where "bundle_prefix = ''filetransfer''"

lemmas ft_consts = ELA_MAX_FILE_NAME_LEN_def ELA_MAX_FILE_ID_LEN_def ELA_MAX_TRANSFERFILE_COUNT_def
  FILE_TRANSFER_REQUEST_EXPIRE_INTERVAL_def PACKET_PULL_def PACKET_CANCEL_def

datatype FileTransferConnection =
    FileTransferConnection_initialized | FileTransferConnection_connecting | FileTransferConnection_connected
  | FileTransferConnection_closed | FileTransferConnection_failed

datatype FileTransferState = FileTransferState_none | FileTransferState_standby | FileTransferState_transfering | FileTransferState_finished

datatype ft_side = NOBODY | SENDER | RECEIVER

record FileTransferItem =
  fi_fileid :: string
  fi_filename :: "string option"
  fi_filesz :: u64
  fi_userdata :: nat
  fi_state :: FileTransferState
  fi_channel :: int

text \<open>The argument of \<open>ela_filetransfer_new\<close> and \<open>ela_filetransfer_add\<close>.\<close>

record ElaFileTransferInfo =
  ft_info_filename :: string
  ft_info_fileid :: string
  ft_info_size :: u64
  ft_info_userdata :: nat

record FileRequest =
  freq_expire_time :: timeval
  freq_sdp :: "byte list"

text \<open>Calls of the user's functions, and calls of the session.\<close>

datatype ft_call =
    CallState FileTransferConnection
  | CallFile string "string option" u64
  | CallPull string u64
  | CallData string "byte list option"
  | CallPending string
  | CallResume string
  | CallCancel string u32 string

datatype ft_event =
    EvCall ft_call
  | EvConnect string "(string \<times> string \<times> u64) option"
  | EvRequest string
  | EvReply string int "string option"
  | EvStart "byte list option"
  | EvAddStream
  | EvRemoveStream int
  | EvOpenChannel string
  | EvWriteChannel int "byte list"
  | EvPendChannel int
  | EvResumeChannel int
  | EvCloseSession

text \<open>
  \<open>ft_session\<close>: the session is not NULL. \<open>ft_filereqs\<close> is the table of the extension, \<open>ft_errno\<close> the last error.
\<close>

record ElaFileTransfer =
  ft_address :: string
  ft_files :: "FileTransferItem list"
  ft_session :: bool
  ft_stream :: int
  ft_error :: int
  ft_state :: FileTransferConnection
  ft_sdp :: "byte list option"
  ft_sender_receiver :: ft_side
  ft_ready_to_connect :: bool
  ft_filereqs :: "string \<rightharpoonup> FileRequest"
  ft_errno :: u32
  ft_log :: "ft_event list"

record ft_env =
  fe_user :: "ft_call \<Rightarrow> (ElaFileTransfer \<Rightarrow> (bool \<times> ElaFileTransfer) res) option"
  fe_connect_callback :: bool
  fe_session_request :: "ElaFileTransfer \<Rightarrow> int"
  fe_session_reply :: "ElaFileTransfer \<Rightarrow> int"
  fe_session_start :: "ElaFileTransfer \<Rightarrow> int"
  fe_session_new :: "u32 option"
  fe_add_stream :: "ElaFileTransfer \<Rightarrow> int"
  fe_stream_live :: "ElaFileTransfer \<Rightarrow> bool"
  fe_open_channel :: "ElaFileTransfer \<Rightarrow> int"
  fe_write_channel :: "ElaFileTransfer \<Rightarrow> int"
  fe_pend_channel :: "ElaFileTransfer \<Rightarrow> int"
  fe_resume_channel :: "ElaFileTransfer \<Rightarrow> int"
  fe_id_is_valid :: "string \<Rightarrow> bool"
  fe_new_fileid :: string
  fe_alloc :: "ElaFileTransfer \<Rightarrow> bool"
  fe_now :: timeval
  fe_junk :: byte

definition ft_say :: "ElaFileTransfer \<Rightarrow> ft_event \<Rightarrow> ElaFileTransfer" where
  "ft_say ft e = ft\<lparr> ft_log := ft_log ft @ [e] \<rparr>"

definition ft_fail :: "ElaFileTransfer \<Rightarrow> u32 \<Rightarrow> int \<times> ElaFileTransfer" where
  "ft_fail ft code = (-1, ft\<lparr> ft_errno := ELA_GENERAL_ERROR code \<rparr>)"

definition upd_item :: "ElaFileTransfer \<Rightarrow> nat \<Rightarrow> (FileTransferItem \<Rightarrow> FileTransferItem) \<Rightarrow> ElaFileTransfer" where
  "upd_item ft i f = ft\<lparr> ft_files := (ft_files ft)[i := f (ft_files ft ! i)] \<rparr>"

definition filename_safe_free :: "FileTransferItem \<Rightarrow> FileTransferItem" where
  "filename_safe_free item = item\<lparr> fi_filename := None \<rparr>"

text \<open>The index of the first file that satisfies a test.\<close>

fun find_item :: "('a \<Rightarrow> bool) \<Rightarrow> 'a list \<Rightarrow> nat \<Rightarrow> nat option" where
  "find_item p [] i = None"
| "find_item p (x # xs) i = (if p x then Some i else find_item p xs (i + 1))"

definition get_fileinfo_free :: "ElaFileTransfer \<Rightarrow> nat option" where
  "get_fileinfo_free ft = find_item (\<lambda>item. fi_state item = FileTransferState_none) (ft_files ft) 0"

definition get_fileinfo_channel :: "ElaFileTransfer \<Rightarrow> int \<Rightarrow> nat option" where
  "get_fileinfo_channel ft channel = find_item (\<lambda>item. channel = fi_channel item) (ft_files ft) 0"

definition get_fileinfo_fileid :: "ElaFileTransfer \<Rightarrow> string \<Rightarrow> nat option" where
  "get_fileinfo_fileid ft fileid = find_item (\<lambda>item. fileid = fi_fileid item) (ft_files ft) 0"

text \<open>By name: \<open>strcmp\<close> of each name up to the one that is found.\<close>

fun name_loop :: "string \<Rightarrow> FileTransferItem list \<Rightarrow> nat \<Rightarrow> nat option res" where
  "name_loop filename [] i = Inr None"
| "name_loop filename (item # items) i = (case fi_filename item of
     None \<Rightarrow> Inl BadPointer
   | Some n \<Rightarrow> if filename = n then Inr (Some i) else name_loop filename items (i + 1))"

definition get_fileinfo_name :: "ElaFileTransfer \<Rightarrow> string \<Rightarrow> nat option res" where
  "get_fileinfo_name ft filename = name_loop filename (ft_files ft) 0"

section \<open>Cookies\<close>

text \<open>Decimal numbers, as \<open>printf\<close> writes and \<open>scanf\<close> reads them.\<close>

definition digit :: "nat \<Rightarrow> char" where
  "digit d = char_of (48 + d)"

fun decimal :: "nat \<Rightarrow> string" where
  "decimal n = (if n < 10 then [digit n] else decimal (n div 10) @ [digit (n mod 10)])"

declare decimal.simps [simp del]

definition is_digit :: "char \<Rightarrow> bool" where
  "is_digit c \<longleftrightarrow> 48 \<le> (of_char c :: nat) \<and> (of_char c :: nat) \<le> 57"

definition digits_value :: "string \<Rightarrow> nat" where
  "digits_value s = foldl (\<lambda>v c. 10 * v + (of_char c - 48)) 0 s"

definition is_space :: "char \<Rightarrow> bool" where
  "is_space c \<longleftrightarrow> c = CHR '' '' \<or> (9 \<le> (of_char c :: nat) \<and> (of_char c :: nat) \<le> 13)"

text \<open>\<open>%<width>s\<close> and \<open>%llu\<close> of \<open>sscanf\<close>: the item and what is left of the input.\<close>

definition scan_word :: "nat \<Rightarrow> string \<Rightarrow> (string \<times> string) option" where
  "scan_word width s = (let s = dropWhile is_space s; w = take width (takeWhile (\<lambda>c. \<not> is_space c) s) in
     if w = [] then None else Some (w, drop (length w) s))"

definition scan_llu :: "string \<Rightarrow> u64 option" where
  "scan_llu s = (let s = dropWhile is_space s;
      neg = (s \<noteq> [] \<and> hd s = CHR ''-'');
      s = (if s \<noteq> [] \<and> (hd s = CHR ''-'' \<or> hd s = CHR ''+'') then tl s else s);
      ds = takeWhile is_digit s in
    if ds = [] then None
    else if digits_value ds \<ge> 2 ^ 64 then Some (-1)
    else Some (if neg then - of_nat (digits_value ds) else of_nat (digits_value ds)))"

text \<open>\<open>"%s %s %s %llu"\<close>, into an array of \<open>sizeof(ElaFileTransferInfo) + 64\<close> bytes.\<close>

definition file_cookie :: "string option \<Rightarrow> string \<Rightarrow> u64 \<Rightarrow> string res" where
  "file_cookie filename fileid filesz = (case filename of None \<Rightarrow> Inl BadPointer
     | Some n \<Rightarrow> copy_str (320 + 64) (bundle_prefix @ '' '' @ n @ '' '' @ fileid @ '' '' @ decimal (unat filesz)))"

text \<open>\<open>"%31s %255s %45s %llu"\<close>.\<close>

definition scan_cookie :: "string \<Rightarrow> (string \<times> string \<times> string \<times> u64) option" where
  "scan_cookie cookie = (case scan_word 31 cookie of None \<Rightarrow> None
     | Some (prefix, s) \<Rightarrow> (case scan_word 255 s of None \<Rightarrow> None
       | Some (filename, s) \<Rightarrow> (case scan_word 45 s of None \<Rightarrow> None
         | Some (fileid, s) \<Rightarrow> (case scan_llu s of None \<Rightarrow> None
           | Some sz \<Rightarrow> Some (prefix, filename, fileid, sz)))))"

section \<open>Connection\<close>

definition ft_user :: "ft_env \<Rightarrow> ElaFileTransfer \<Rightarrow> ft_call \<Rightarrow> (bool \<times> ElaFileTransfer) res" where
  "ft_user env ft c = (case fe_user env c of None \<Rightarrow> Inr (True, ft) | Some f \<Rightarrow> f (ft_say ft (EvCall c)))"

definition ft_tell :: "ft_env \<Rightarrow> ElaFileTransfer \<Rightarrow> ft_call \<Rightarrow> ElaFileTransfer res" where
  "ft_tell env ft c = bindr (ft_user env ft c) (\<lambda>(_, ft). Inr ft)"

definition notify_state_changed :: "ft_env \<Rightarrow> ElaFileTransfer \<Rightarrow> FileTransferConnection \<Rightarrow> ElaFileTransfer res" where
  "notify_state_changed env ft state =
     (if ft_state ft = state then Inr ft else ft_tell env (ft\<lparr> ft_state := state \<rparr>) (CallState state))"

definition ft_ended :: "ElaFileTransfer \<Rightarrow> bool" where
  "ft_ended ft \<longleftrightarrow> ft_state ft = FileTransferConnection_closed \<or> ft_state ft = FileTransferConnection_failed"

text \<open>\<open>files[0]\<close>, the file that a transfer may start with.\<close>

definition file0 :: "ElaFileTransfer \<Rightarrow> FileTransferItem" where
  "file0 ft = ft_files ft ! 0"

definition sender_state_changed :: "ft_env \<Rightarrow> ElaFileTransfer \<Rightarrow> ElaStreamState \<Rightarrow> ElaFileTransfer res" where
  "sender_state_changed env ft state =
     bindr (g_assert (ft_session ft)) (\<lambda>_.
     bindr (g_assert (ft_sender_receiver ft = SENDER)) (\<lambda>_.
     case state of
       ElaStreamState_initialized \<Rightarrow>
         bindr (notify_state_changed env ft FileTransferConnection_connecting) (\<lambda>ft.
         if ft_ended ft then Inr ft
         else
           bindr (if fi_state (file0 ft) = FileTransferState_standby
                  then file_cookie (fi_filename (file0 ft)) (fi_fileid (file0 ft)) (fi_filesz (file0 ft))
                  else Inr bundle_prefix) (\<lambda>bundle.
           let rc = fe_session_request env ft; ft = ft_say ft (EvRequest bundle) in
           if rc < 0 then notify_state_changed env ft FileTransferConnection_failed else Inr ft))
     | ElaStreamState_transport_ready \<Rightarrow> Inr (ft\<lparr> ft_ready_to_connect := True \<rparr>)
     | ElaStreamState_connecting \<Rightarrow> Inr ft
     | ElaStreamState_connected \<Rightarrow>
         bindr (notify_state_changed env ft FileTransferConnection_connected) (\<lambda>ft.
         if ft_ended ft then Inr ft
         else if fi_state (file0 ft) \<noteq> FileTransferState_standby then Inr ft
         else
           bindr (file_cookie (fi_filename (file0 ft)) (fi_fileid (file0 ft)) (fi_filesz (file0 ft))) (\<lambda>bundle.
           let channel = fe_open_channel env ft; ft = ft_say ft (EvOpenChannel bundle);
               ft = upd_item ft 0 (\<lambda>item. item\<lparr> fi_channel := channel \<rparr>) in
           Inr (if channel < 0
                then upd_item ft 0 (\<lambda>item. (filename_safe_free item)\<lparr> fi_state := FileTransferState_none \<rparr>)
                else ft)))
     | ElaStreamState_failed \<Rightarrow> notify_state_changed env ft FileTransferConnection_failed
     | ElaStreamState_closed \<Rightarrow>
         if ft_error ft \<noteq> 0 then notify_state_changed env ft FileTransferConnection_failed
         else notify_state_changed env ft FileTransferConnection_closed
     | ElaStreamState_deactivated \<Rightarrow> Inl AssertFail))"

text \<open>The receiver's bundle is printed into \<open>ELA_MAX_FILE_ID_LEN + 33\<close> bytes.\<close>

definition receiver_state_changed :: "ft_env \<Rightarrow> ElaFileTransfer \<Rightarrow> ElaStreamState \<Rightarrow> ElaFileTransfer res" where
  "receiver_state_changed env ft state =
     bindr (g_assert (ft_session ft)) (\<lambda>_.
     bindr (g_assert (ft_sender_receiver ft = RECEIVER)) (\<lambda>_.
     case state of
       ElaStreamState_initialized \<Rightarrow>
         bindr (notify_state_changed env ft FileTransferConnection_connecting) (\<lambda>ft.
         if ft_ended ft then Inr ft
         else
           bindr (copy_str (ELA_MAX_FILE_ID_LEN + 33)
                    (if fi_state (file0 ft) = FileTransferState_standby then bundle_prefix @ '' '' @ fi_fileid (file0 ft)
                     else bundle_prefix)) (\<lambda>bundle.
           let rc = fe_session_reply env ft; ft = ft_say ft (EvReply bundle 0 None) in
           if rc < 0 then notify_state_changed env ft FileTransferConnection_failed else Inr ft))
     | ElaStreamState_transport_ready \<Rightarrow>
         (let rc = fe_session_start env ft; ft = ft_say ft (EvStart (ft_sdp ft)) in
          if rc < 0 then notify_state_changed env ft FileTransferConnection_failed else Inr ft)
     | ElaStreamState_connecting \<Rightarrow> Inr ft
     | ElaStreamState_connected \<Rightarrow> notify_state_changed env ft FileTransferConnection_connected
     | ElaStreamState_failed \<Rightarrow> notify_state_changed env ft FileTransferConnection_failed
     | ElaStreamState_closed \<Rightarrow>
         bindr (g_assert (ft_error ft = 0)) (\<lambda>_. notify_state_changed env ft FileTransferConnection_closed)
     | ElaStreamState_deactivated \<Rightarrow> Inl AssertFail))"

definition stream_state_changed :: "ft_env \<Rightarrow> ElaFileTransfer \<Rightarrow> int \<Rightarrow> ElaStreamState \<Rightarrow> ElaFileTransfer res" where
  "stream_state_changed env ft stream state =
     bindr (g_assert (ft_session ft)) (\<lambda>_.
     bindr (g_assert (stream = ft_stream ft)) (\<lambda>_.
     case ft_sender_receiver ft of NOBODY \<Rightarrow> Inl AssertFail
     | SENDER \<Rightarrow> sender_state_changed env ft state
     | RECEIVER \<Rightarrow> receiver_state_changed env ft state))"

text \<open>
  \<open>ela_session_remove_stream\<close>, as the transfer sees it: stopping a stream that has not ended closes it, and the state change
  is reported before the function returns.
\<close>

definition remove_stream :: "ft_env \<Rightarrow> ElaFileTransfer \<Rightarrow> int \<Rightarrow> ElaFileTransfer res" where
  "remove_stream env ft stream =
     (let live = fe_stream_live env ft; ft = ft_say ft (EvRemoveStream stream) in
      if live then stream_state_changed env ft stream ElaStreamState_closed else Inr ft)"

definition remove_stream_secure :: "ft_env \<Rightarrow> ElaFileTransfer \<Rightarrow> int \<Rightarrow> ElaFileTransfer res" where
  "remove_stream_secure env ft error =
     bindr (g_assert (ft_session ft)) (\<lambda>_.
     bindr (g_assert (ft_stream ft > 0)) (\<lambda>_.
     remove_stream env (ft\<lparr> ft_stream := -1, ft_error := error \<rparr>) (ft_stream ft)))"

text \<open>
  The answer to the sender's request. The loop that waits for \<open>ready_to_connect\<close> polls what another thread sets: it does not end
  here when neither flag is set.
\<close>

definition sessionreq_complete_callback ::
    "ft_env \<Rightarrow> ElaFileTransfer \<Rightarrow> string option \<Rightarrow> int \<Rightarrow> byte list option \<Rightarrow> ElaFileTransfer res" where
  "sessionreq_complete_callback env ft bundle status sdp =
     bindr (g_assert (ft_sender_receiver ft = SENDER)) (\<lambda>_.
     case bundle of None \<Rightarrow> Inl AssertFail
     | Some b \<Rightarrow>
         bindr (g_assert (strncmp_eq b bundle_prefix (length bundle_prefix))) (\<lambda>_.
         if \<not> ft_ready_to_connect ft \<and> ft_state ft \<noteq> FileTransferConnection_failed then Inl Diverges
         else if ft_state ft = FileTransferConnection_failed then Inr ft
         else if status \<noteq> 0 then remove_stream_secure env ft 0
         else if CHR '' '' \<in> set b \<and>
           (case scan_word (length b) b of None \<Rightarrow> True
            | Some (_, s) \<Rightarrow> (case scan_word 45 s of None \<Rightarrow> True | Some (fileid, _) \<Rightarrow> fileid \<noteq> fi_fileid (file0 ft)))
         then remove_stream_secure env ft 1
         else
           bindr (g_assert (ft_sdp ft = None)) (\<lambda>_.
           let rc = fe_session_start env ft; ft = ft_say ft (EvStart sdp) in
           if rc < 0 then remove_stream_secure env ft 1 else Inr ft)))"

section \<open>Requests\<close>

definition cleanup_expired_filereqs :: "timeval \<Rightarrow> (string \<rightharpoonup> FileRequest) \<Rightarrow> (string \<rightharpoonup> FileRequest)" where
  "cleanup_expired_filereqs now m =
     (\<lambda>k. case m k of None \<Rightarrow> None | Some fr \<Rightarrow> if time_after now (freq_expire_time fr) then None else Some fr)"

definition filereqs_put :: "timeval \<Rightarrow> (string \<rightharpoonup> FileRequest) \<Rightarrow> string \<Rightarrow> byte list \<Rightarrow> (string \<rightharpoonup> FileRequest)" where
  "filereqs_put now m from sdp = m(from \<mapsto>
     \<lparr> freq_expire_time = timeradd now \<lparr> tv_sec = FILE_TRANSFER_REQUEST_EXPIRE_INTERVAL, tv_usec = 0 \<rparr>, freq_sdp = sdp \<rparr>)"

text \<open>The file that a request names: \<open>"%*s %255s %45s %llu"\<close>.\<close>

definition scan_request :: "string \<Rightarrow> (string \<times> string \<times> u64) option" where
  "scan_request bundle = (case scan_word (length bundle) bundle of None \<Rightarrow> None
     | Some (_, s) \<Rightarrow> (case scan_word 255 s of None \<Rightarrow> None
       | Some (filename, s) \<Rightarrow> (case scan_word 45 s of None \<Rightarrow> None
         | Some (fileid, s) \<Rightarrow> (case scan_llu s of None \<Rightarrow> None | Some sz \<Rightarrow> Some (filename, fileid, sz)))))"

definition sessionreq_callback ::
    "ft_env \<Rightarrow> ElaFileTransfer \<Rightarrow> string \<Rightarrow> string option \<Rightarrow> byte list \<Rightarrow> ElaFileTransfer res" where
  "sessionreq_callback env ft from bundle sdp = (case bundle of None \<Rightarrow> Inl BadPointer
     | Some b \<Rightarrow>
         if \<not> fe_connect_callback env then Inr ft
         else if CHR '' '' \<in> set b \<and> scan_request b = None then Inr ft
         else if \<not> fe_alloc env ft then Inr ft
         else
           bindr (copy_str (ELA_MAX_ID_LEN + 1 + 36) from) (\<lambda>from.
           let ft = ft\<lparr> ft_filereqs := filereqs_put (fe_now env) (ft_filereqs ft) from sdp \<rparr>;
               ft = ft_say ft (EvConnect from (if CHR '' '' \<in> set b then scan_request b else None)) in
           Inr (ft\<lparr> ft_filereqs := cleanup_expired_filereqs (fe_now env) (ft_filereqs ft) \<rparr>)))"

section \<open>Events of channels\<close>

definition channel_asserts :: "ElaFileTransfer \<Rightarrow> int \<Rightarrow> bool" where
  "channel_asserts ft stream \<longleftrightarrow> ft_session ft \<and> ft_stream ft = stream \<and> ft_state ft = FileTransferConnection_connected"

definition stream_channel_open ::
    "ft_env \<Rightarrow> ElaFileTransfer \<Rightarrow> int \<Rightarrow> int \<Rightarrow> string option \<Rightarrow> (bool \<times> ElaFileTransfer) res" where
  "stream_channel_open env ft stream channel cookie =
     bindr (g_assert (channel_asserts ft stream)) (\<lambda>_. Inr (
     if ft_sender_receiver ft \<noteq> RECEIVER then (False, ft)
     else case cookie of None \<Rightarrow> (False, ft)
     | Some c \<Rightarrow> (case scan_cookie c of None \<Rightarrow> (False, ft)
       | Some (prefix, filename, fileid, sz) \<Rightarrow>
           if prefix \<noteq> bundle_prefix then (False, ft)
           else case get_fileinfo_fileid ft fileid of
             None \<Rightarrow> (case get_fileinfo_free ft of None \<Rightarrow> (False, ft)
               | Some i \<Rightarrow> (True, upd_item ft i (\<lambda>item. item\<lparr> fi_fileid := fileid,
                   fi_filename := (if fe_alloc env ft then Some filename else None), fi_filesz := sz, fi_channel := channel,
                   fi_state := FileTransferState_standby \<rparr>)))
           | Some i \<Rightarrow>
               if fi_state (ft_files ft ! i) \<noteq> FileTransferState_standby then (False, ft)
               else if fi_filesz (ft_files ft ! i) \<noteq> sz then (False, ft)
               else (True, upd_item ft i (\<lambda>item. item\<lparr> fi_channel := channel \<rparr>)))))"

definition stream_channel_opened :: "ft_env \<Rightarrow> ElaFileTransfer \<Rightarrow> int \<Rightarrow> ElaFileTransfer res" where
  "stream_channel_opened env ft channel =
     (if ft_sender_receiver ft \<noteq> RECEIVER then Inr ft
      else case get_fileinfo_channel ft channel of None \<Rightarrow> Inr ft
      | Some i \<Rightarrow> let item = ft_files ft ! i in ft_tell env ft (CallFile (fi_fileid item) (fi_filename item) (fi_filesz item)))"

definition stream_channel_close :: "ElaFileTransfer \<Rightarrow> int \<Rightarrow> int \<Rightarrow> ElaFileTransfer res" where
  "stream_channel_close ft stream channel =
     bindr (g_assert (channel_asserts ft stream)) (\<lambda>_.
     Inr (case get_fileinfo_channel ft channel of None \<Rightarrow> ft
       | Some i \<Rightarrow> upd_item ft i (\<lambda>item. filename_safe_free (item\<lparr> fi_state := FileTransferState_none \<rparr>))))"

text \<open>
  The layout of the packets in memory: \<open>packet_pull_t\<close> has the offset at 8 and 16 bytes, \<open>packet_cancel_t\<close> the status at 4, the reason
  at 8 and 12 bytes. The bytes between the fields are not set.
\<close>

definition htonll_bytes :: "u64 \<Rightarrow> byte list" where
  "htonll_bytes w = htonl_bytes (ucast (drop_bit 32 w)) @ htonl_bytes (ucast w)"

definition ntohll_bytes :: "byte list \<Rightarrow> u64" where
  "ntohll_bytes bs = push_bit 32 (ucast (ntohl_bytes (bs ! 0) (bs ! 1) (bs ! 2) (bs ! 3))) OR
     ucast (ntohl_bytes (bs ! 4) (bs ! 5) (bs ! 6) (bs ! 7))"

definition pull_packet :: "byte \<Rightarrow> u64 \<Rightarrow> byte list" where
  "pull_packet junk offset = htons_bytes PACKET_PULL @ replicate 6 junk @ htonll_bytes offset"

definition char_byte :: "char \<Rightarrow> byte" where "char_byte c = of_nat (of_char c)"
definition byte_char :: "byte \<Rightarrow> char" where "byte_char b = char_of (unat b)"

definition cancel_packet :: "byte \<Rightarrow> u32 \<Rightarrow> string \<Rightarrow> byte list" where
  "cancel_packet junk status reason =
     htons_bytes PACKET_CANCEL @ replicate 2 junk @ htonl_bytes status @ map char_byte reason @ [0] @ replicate 3 junk"

text \<open>A C string in a block of bytes: it has to end inside the block.\<close>

definition c_string :: "byte list \<Rightarrow> string res" where
  "c_string bs = (if 0 \<in> set bs then Inr (map byte_char (takeWhile (\<lambda>b. b \<noteq> 0) bs)) else Inl OutOfBounds)"

text \<open>A packet for the sender: its type and its fields are read without a look at the length.\<close>

definition sender_packet :: "ft_env \<Rightarrow> ElaFileTransfer \<Rightarrow> nat \<Rightarrow> byte list \<Rightarrow> (bool \<times> ElaFileTransfer) res" where
  "sender_packet env ft i data =
     (let fileid = fi_fileid (ft_files ft ! i) in
      if length data < 2 then Inl OutOfBounds
      else if ntohs_bytes (data ! 0) (data ! 1) = PACKET_PULL then
        (if fi_state (ft_files ft ! i) \<noteq> FileTransferState_standby then Inr (False, ft)
         else if length data < 16 then Inl OutOfBounds
         else
           (let ft = upd_item ft i (\<lambda>item. item\<lparr> fi_state := FileTransferState_transfering \<rparr>) in
            bindr (ft_tell env ft (CallPull fileid (ntohll_bytes (drop 8 data)))) (\<lambda>ft. Inr (True, ft))))
      else if ntohs_bytes (data ! 0) (data ! 1) = PACKET_CANCEL then
        (if length data < 8 then Inl OutOfBounds
         else
           bindr (c_string (drop 8 data)) (\<lambda>reason.
           let ft = upd_item ft i (\<lambda>item. item\<lparr> fi_state := FileTransferState_none \<rparr>) in
           bindr (ft_tell env ft (CallCancel fileid (ntohl_bytes (data ! 4) (data ! 5) (data ! 6) (data ! 7)) reason))
             (\<lambda>ft. Inr (False, ft))))
      else Inr (False, ft))"

definition stream_channel_data ::
    "ft_env \<Rightarrow> ElaFileTransfer \<Rightarrow> int \<Rightarrow> int \<Rightarrow> byte list \<Rightarrow> (bool \<times> ElaFileTransfer) res" where
  "stream_channel_data env ft stream channel data =
     bindr (g_assert (channel_asserts ft stream)) (\<lambda>_.
     case get_fileinfo_channel ft channel of None \<Rightarrow> Inr (False, ft)
     | Some i \<Rightarrow> (case ft_sender_receiver ft of NOBODY \<Rightarrow> Inl AssertFail
       | SENDER \<Rightarrow> sender_packet env ft i data
       | RECEIVER \<Rightarrow>
           if fi_state (ft_files ft ! i) \<noteq> FileTransferState_transfering then Inr (True, ft)
           else ft_user env ft (CallData (fi_fileid (ft_files ft ! i)) (if data = [] then None else Some data))))"

definition stream_channel_pending :: "ft_env \<Rightarrow> ElaFileTransfer \<Rightarrow> int \<Rightarrow> int \<Rightarrow> ElaFileTransfer res" where
  "stream_channel_pending env ft stream channel =
     bindr (g_assert (channel_asserts ft stream)) (\<lambda>_.
     if ft_sender_receiver ft \<noteq> SENDER then Inr ft
     else case get_fileinfo_channel ft channel of None \<Rightarrow> Inr ft
     | Some i \<Rightarrow>
         if fi_state (ft_files ft ! i) \<noteq> FileTransferState_transfering then Inr ft
         else
           bindr (ft_tell env ft (CallPending (fi_fileid (ft_files ft ! i)))) (\<lambda>ft.
           Inr (upd_item ft i (\<lambda>item. item\<lparr> fi_state := FileTransferState_standby \<rparr>))))"

definition stream_channel_resume :: "ft_env \<Rightarrow> ElaFileTransfer \<Rightarrow> int \<Rightarrow> int \<Rightarrow> ElaFileTransfer res" where
  "stream_channel_resume env ft stream channel =
     bindr (g_assert (channel_asserts ft stream)) (\<lambda>_.
     if ft_sender_receiver ft \<noteq> SENDER then Inr ft
     else case get_fileinfo_channel ft channel of None \<Rightarrow> Inr ft
     | Some i \<Rightarrow>
         if fi_state (ft_files ft ! i) \<noteq> FileTransferState_standby then Inr ft
         else
           bindr (ft_tell env ft (CallResume (fi_fileid (ft_files ft ! i)))) (\<lambda>ft.
           Inr (upd_item ft i (\<lambda>item. item\<lparr> fi_state := FileTransferState_transfering \<rparr>))))"

section \<open>The interface\<close>

text \<open>
  \<open>basename\<close> of the C library: the part after the last slash; trailing slashes are cut off, in the argument too.
\<close>

definition strip_slashes :: "string \<Rightarrow> string" where
  "strip_slashes s = (let t = rev (dropWhile (\<lambda>c. c = CHR ''/'') (rev s)) in if t = [] then s else t)"

definition base_name :: "string \<Rightarrow> string" where
  "base_name s = (if \<forall>c \<in> set s. c = CHR ''/'' then ''/'' else rev (takeWhile (\<lambda>c. c \<noteq> CHR ''/'') (rev (strip_slashes s))))"

definition blank_item :: FileTransferItem where
  "blank_item = \<lparr> fi_fileid = [], fi_filename = None, fi_filesz = 0, fi_userdata = 0, fi_state = FileTransferState_none, fi_channel = 0 \<rparr>"

definition bad_info :: "ft_env \<Rightarrow> ElaFileTransferInfo \<Rightarrow> bool" where
  "bad_info env info \<longleftrightarrow> (ft_info_fileid info \<noteq> [] \<and> \<not> fe_id_is_valid env (ft_info_fileid info)) \<or> ft_info_filename info = [] \<or> ft_info_size info = 0"

definition info_fileid :: "ft_env \<Rightarrow> ElaFileTransferInfo \<Rightarrow> string" where
  "info_fileid env info = (if ft_info_fileid info \<noteq> [] then ft_info_fileid info else fe_new_fileid env)"

text \<open>The result is an error code or the transfer; \<open>reqs\<close> is the table of the extension.\<close>

definition ela_filetransfer_new ::
    "ft_env \<Rightarrow> bool \<Rightarrow> (string \<rightharpoonup> FileRequest) \<Rightarrow> string \<Rightarrow> ElaFileTransferInfo option \<Rightarrow> (u32 + ElaFileTransfer) res" where
  "ela_filetransfer_new env allocated reqs address fileinfo =
     (if address = [] then Inr (Inl (ELA_GENERAL_ERROR ELAERR_INVALID_ARGS))
      else if (case fileinfo of None \<Rightarrow> False | Some info \<Rightarrow> bad_info env info) then Inr (Inl (ELA_GENERAL_ERROR ELAERR_INVALID_ARGS))
      else if \<not> allocated then Inr (Inl (ELA_GENERAL_ERROR ELAERR_OUT_OF_MEMORY))
      else
        (let first = (case fileinfo of None \<Rightarrow> blank_item
               | Some info \<Rightarrow> \<lparr> fi_fileid = info_fileid env info, fi_filename = Some (base_name (ft_info_filename info)),
                   fi_filesz = ft_info_size info, fi_userdata = ft_info_userdata info, fi_state = FileTransferState_standby, fi_channel = -1 \<rparr>) in
         case fe_session_new env of Some e \<Rightarrow> Inr (Inl e)
         | None \<Rightarrow>
             bindr (copy_str (ELA_MAX_EXTENSION_NAME_LEN + ELA_MAX_ID_LEN + 2) address) (\<lambda>address.
             Inr (Inr \<lparr> ft_address = address, ft_files = first # replicate (ELA_MAX_TRANSFERFILE_COUNT - 1) blank_item, ft_session = True,
               ft_stream = -1, ft_error = 0, ft_state = FileTransferConnection_initialized, ft_sdp = None, ft_sender_receiver = NOBODY,
               ft_ready_to_connect = False, ft_filereqs = reqs, ft_errno = 0, ft_log = [] \<rparr>))))"

definition ela_filetransfer_close :: "ft_env \<Rightarrow> ElaFileTransfer \<Rightarrow> ElaFileTransfer res" where
  "ela_filetransfer_close env ft =
     bindr (case ft_filereqs ft (ft_address ft) of None \<Rightarrow> Inr ft
            | Some fr \<Rightarrow>
                bindr (g_assert (ft_stream ft = -1)) (\<lambda>_.
                Inr (ft_say (ft\<lparr> ft_filereqs := (ft_filereqs ft)(ft_address ft := None) \<rparr>)
                  (EvReply bundle_prefix (-1) (Some ''Refuse filetransfer connection''))))) (\<lambda>ft.
     bindr (if ft_stream ft > 0 then bindr (remove_stream env ft (ft_stream ft)) (\<lambda>ft. Inr (ft\<lparr> ft_stream := -1 \<rparr>)) else Inr ft) (\<lambda>ft.
     Inr ((if ft_session ft then (ft_say ft EvCloseSession)\<lparr> ft_session := False \<rparr> else ft)\<lparr> ft_state := FileTransferConnection_closed \<rparr>)))"

definition ela_filetransfer_get_fileid :: "ElaFileTransfer \<Rightarrow> string \<Rightarrow> nat \<Rightarrow> (string option \<times> ElaFileTransfer) res" where
  "ela_filetransfer_get_fileid ft filename len =
     (if filename = [] \<or> len \<le> ELA_MAX_FILE_ID_LEN then Inr (None, snd (ft_fail ft ELAERR_INVALID_ARGS))
      else
        bindr (get_fileinfo_name ft filename) (\<lambda>r.
        case r of None \<Rightarrow> Inr (None, snd (ft_fail ft ELAERR_INVALID_ARGS))
        | Some i \<Rightarrow> bindr (copy_str len (fi_fileid (ft_files ft ! i))) (\<lambda>fileid. Inr (Some fileid, ft))))"

definition ela_filetransfer_get_filename :: "ElaFileTransfer \<Rightarrow> string \<Rightarrow> nat \<Rightarrow> (string option \<times> ElaFileTransfer) res" where
  "ela_filetransfer_get_filename ft fileid len =
     (if fileid = [] \<or> len = 0 then Inr (None, snd (ft_fail ft ELAERR_INVALID_ARGS))
      else case get_fileinfo_fileid ft fileid of None \<Rightarrow> Inr (None, snd (ft_fail ft ELAERR_NOT_EXIST))
      | Some i \<Rightarrow> (case fi_filename (ft_files ft ! i) of None \<Rightarrow> Inl BadPointer
        | Some n \<Rightarrow> if len \<le> length n then Inr (None, snd (ft_fail ft ELAERR_BUFFER_TOO_SMALL))
            else bindr (copy_str len n) (\<lambda>n. Inr (Some n, ft))))"

definition ela_filetransfer_connect :: "ft_env \<Rightarrow> ElaFileTransfer \<Rightarrow> (int \<times> ElaFileTransfer) res" where
  "ela_filetransfer_connect env ft =
     (if ft_state ft \<noteq> FileTransferConnection_initialized then Inr (ft_fail ft ELAERR_WRONG_STATE)
      else
        bindr (g_assert (ft_session ft)) (\<lambda>_.
        bindr (g_assert (ft_stream ft < 0)) (\<lambda>_.
        let ft = ft\<lparr> ft_sender_receiver := SENDER \<rparr>; stream = fe_add_stream env ft;
            ft = (ft_say ft EvAddStream)\<lparr> ft_stream := stream \<rparr> in
        Inr (if stream < 0 then -1 else 0, ft))))"

definition ela_filetransfer_accept_connect :: "ft_env \<Rightarrow> ElaFileTransfer \<Rightarrow> (int \<times> ElaFileTransfer) res" where
  "ela_filetransfer_accept_connect env ft =
     (if ft_state ft \<noteq> FileTransferConnection_initialized then Inr (ft_fail ft ELAERR_WRONG_STATE)
      else
        bindr (g_assert (ft_session ft)) (\<lambda>_.
        bindr (g_assert (ft_stream ft < 0)) (\<lambda>_.
        case ft_filereqs ft (ft_address ft) of None \<Rightarrow> Inr (ft_fail ft ELAERR_NOT_EXIST)
        | Some fr \<Rightarrow>
            let ft = ft\<lparr> ft_filereqs := (ft_filereqs ft)(ft_address ft := None) \<rparr> in
            if \<not> fe_alloc env ft then Inr (ft_fail (ft\<lparr> ft_sdp := None \<rparr>) ELAERR_OUT_OF_MEMORY)
            else
              (let ft = ft\<lparr> ft_sdp := Some (freq_sdp fr), ft_sender_receiver := RECEIVER \<rparr>; stream = fe_add_stream env ft;
                   ft = (ft_say ft EvAddStream)\<lparr> ft_stream := stream \<rparr> in
               Inr (if stream < 0 then -1 else 0, ft)))))"

definition ela_filetransfer_add :: "ft_env \<Rightarrow> ElaFileTransfer \<Rightarrow> ElaFileTransferInfo \<Rightarrow> (int \<times> ElaFileTransfer) res" where
  "ela_filetransfer_add env ft info =
     (if bad_info env info then Inr (ft_fail ft ELAERR_INVALID_ARGS)
      else if ft_sender_receiver ft \<noteq> SENDER then Inr (ft_fail ft ELAERR_WRONG_STATE)
      else if ft_state ft \<noteq> FileTransferConnection_connected then Inr (ft_fail ft ELAERR_WRONG_STATE)
      else
        bindr (g_assert (ft_session ft)) (\<lambda>_.
        bindr (g_assert (ft_stream ft > 0)) (\<lambda>_.
        case get_fileinfo_free ft of None \<Rightarrow> Inr (ft_fail ft ELAERR_LIMIT_EXCEEDED)
        | Some i \<Rightarrow>
            if \<not> fe_alloc env ft then Inr (ft_fail ft ELAERR_OUT_OF_MEMORY)
            else
              (let fileid = info_fileid env info;
                   ft = upd_item ft i (\<lambda>item. item\<lparr> fi_fileid := fileid, fi_filename := Some (base_name (ft_info_filename info)),
                     fi_filesz := ft_info_size info, fi_userdata := ft_info_userdata info \<rparr>) in
               bindr (file_cookie (Some (strip_slashes (ft_info_filename info))) fileid (ft_info_size info)) (\<lambda>cookie.
               let channel = fe_open_channel env ft; ft = ft_say ft (EvOpenChannel cookie);
                   ft = upd_item ft i (\<lambda>item. item\<lparr> fi_channel := channel \<rparr>) in
               Inr (if channel < 0 then (-1, upd_item ft i filename_safe_free)
                    else (0, upd_item ft i (\<lambda>item. item\<lparr> fi_state := FileTransferState_standby \<rparr>))))))))"

text \<open>The assertions before a function uses the channel of a file.\<close>

definition item_asserts :: "ElaFileTransfer \<Rightarrow> nat \<Rightarrow> bool" where
  "item_asserts ft i \<longleftrightarrow> ft_session ft \<and> ft_stream ft > 0 \<and> fi_channel (ft_files ft ! i) > 0"

definition ela_filetransfer_pull :: "ft_env \<Rightarrow> ElaFileTransfer \<Rightarrow> string \<Rightarrow> u64 \<Rightarrow> (int \<times> ElaFileTransfer) res" where
  "ela_filetransfer_pull env ft fileid offset =
     (if fileid = [] then Inr (ft_fail ft ELAERR_INVALID_ARGS)
      else case get_fileinfo_fileid ft fileid of None \<Rightarrow> Inr (ft_fail ft ELAERR_NOT_EXIST)
      | Some i \<Rightarrow>
          if offset \<ge> fi_filesz (ft_files ft ! i) then Inr (ft_fail ft ELAERR_INVALID_ARGS)
          else if ft_sender_receiver ft \<noteq> RECEIVER then Inr (ft_fail ft ELAERR_WRONG_STATE)
          else if ft_state ft \<noteq> FileTransferConnection_connected then Inr (ft_fail ft ELAERR_WRONG_STATE)
          else if fi_state (ft_files ft ! i) \<noteq> FileTransferState_standby then Inr (ft_fail ft ELAERR_WRONG_STATE)
          else
            bindr (g_assert (item_asserts ft i)) (\<lambda>_.
            let rc = fe_write_channel env ft; ft = ft_say ft (EvWriteChannel (fi_channel (ft_files ft ! i)) (pull_packet (fe_junk env) offset)) in
            Inr (if rc < 0 then (-1, ft) else (0, upd_item ft i (\<lambda>item. item\<lparr> fi_state := FileTransferState_transfering \<rparr>)))))"

definition ela_filetransfer_send :: "ft_env \<Rightarrow> ElaFileTransfer \<Rightarrow> string \<Rightarrow> byte list \<Rightarrow> (int \<times> ElaFileTransfer) res" where
  "ela_filetransfer_send env ft fileid data =
     (if fileid = [] then Inr (ft_fail ft ELAERR_INVALID_ARGS)
      else case get_fileinfo_fileid ft fileid of None \<Rightarrow> Inr (ft_fail ft ELAERR_NOT_EXIST)
      | Some i \<Rightarrow>
          if of_nat (length data) > fi_filesz (ft_files ft ! i) then Inr (ft_fail ft ELAERR_INVALID_ARGS)
          else if ft_sender_receiver ft \<noteq> SENDER then Inr (ft_fail ft ELAERR_WRONG_STATE)
          else if ft_state ft \<noteq> FileTransferConnection_connected then Inr (ft_fail ft ELAERR_WRONG_STATE)
          else if fi_state (ft_files ft ! i) \<noteq> FileTransferState_transfering then Inr (ft_fail ft ELAERR_WRONG_STATE)
          else
            bindr (g_assert (item_asserts ft i)) (\<lambda>_.
            let rc = fe_write_channel env ft; ft = ft_say ft (EvWriteChannel (fi_channel (ft_files ft ! i)) data) in
            Inr (if rc < 0 then (-1, ft) else (rc, ft))))"

definition ela_filetransfer_cancel :: "ft_env \<Rightarrow> ElaFileTransfer \<Rightarrow> string \<Rightarrow> u32 \<Rightarrow> string \<Rightarrow> (int \<times> ElaFileTransfer) res" where
  "ela_filetransfer_cancel env ft fileid status reason =
     (if fileid = [] then Inr (ft_fail ft ELAERR_INVALID_ARGS)
      else case get_fileinfo_fileid ft fileid of None \<Rightarrow> Inr (ft_fail ft ELAERR_NOT_EXIST)
      | Some i \<Rightarrow>
          if ft_sender_receiver ft \<noteq> RECEIVER then Inr (ft_fail ft ELAERR_WRONG_STATE)
          else if ft_state ft \<noteq> FileTransferConnection_connected then Inr (ft_fail ft ELAERR_WRONG_STATE)
          else if fi_state (ft_files ft ! i) = FileTransferState_none then Inr (ft_fail ft ELAERR_WRONG_STATE)
          else
            bindr (g_assert (item_asserts ft i)) (\<lambda>_.
            let rc = fe_write_channel env ft;
                ft = ft_say ft (EvWriteChannel (fi_channel (ft_files ft ! i)) (cancel_packet (fe_junk env) status reason)) in
            Inr (if rc < 0 then -1 else 0, ft)))"

definition ela_filetransfer_pend :: "ft_env \<Rightarrow> ElaFileTransfer \<Rightarrow> string \<Rightarrow> (int \<times> ElaFileTransfer) res" where
  "ela_filetransfer_pend env ft fileid =
     (if fileid = [] then Inr (ft_fail ft ELAERR_INVALID_ARGS)
      else case get_fileinfo_fileid ft fileid of None \<Rightarrow> Inr (ft_fail ft ELAERR_NOT_EXIST)
      | Some i \<Rightarrow>
          if ft_sender_receiver ft \<noteq> RECEIVER then Inr (ft_fail ft ELAERR_WRONG_STATE)
          else if ft_state ft \<noteq> FileTransferConnection_connected then Inr (ft_fail ft ELAERR_WRONG_STATE)
          else if fi_state (ft_files ft ! i) \<noteq> FileTransferState_transfering then Inr (ft_fail ft ELAERR_WRONG_STATE)
          else
            bindr (g_assert (item_asserts ft i)) (\<lambda>_.
            let rc = fe_pend_channel env ft; ft = ft_say ft (EvPendChannel (fi_channel (ft_files ft ! i))) in
            Inr (if rc < 0 then (-1, ft) else (0, upd_item ft i (\<lambda>item. item\<lparr> fi_state := FileTransferState_standby \<rparr>)))))"

definition ela_filetransfer_resume :: "ft_env \<Rightarrow> ElaFileTransfer \<Rightarrow> string \<Rightarrow> (int \<times> ElaFileTransfer) res" where
  "ela_filetransfer_resume env ft fileid =
     (if fileid = [] then Inr (ft_fail ft ELAERR_INVALID_ARGS)
      else case get_fileinfo_fileid ft fileid of None \<Rightarrow> Inr (ft_fail ft ELAERR_NOT_EXIST)
      | Some i \<Rightarrow>
          if ft_sender_receiver ft \<noteq> RECEIVER then Inr (ft_fail ft ELAERR_WRONG_STATE)
          else if ft_state ft \<noteq> FileTransferConnection_connected then Inr (ft_fail ft ELAERR_WRONG_STATE)
          else if fi_state (ft_files ft ! i) \<noteq> FileTransferState_standby then Inr (ft_fail ft ELAERR_WRONG_STATE)
          else
            bindr (g_assert (item_asserts ft i)) (\<lambda>_.
            let rc = fe_resume_channel env ft; ft = ft_say ft (EvResumeChannel (fi_channel (ft_files ft ! i))) in
            Inr (if rc < 0 then (-1, ft) else (0, upd_item ft i (\<lambda>item. item\<lparr> fi_state := FileTransferState_transfering \<rparr>)))))"

definition ela_filetransfer_set_userdata :: "ElaFileTransfer \<Rightarrow> string \<Rightarrow> nat \<Rightarrow> int \<times> ElaFileTransfer" where
  "ela_filetransfer_set_userdata ft fileid userdata =
     (if fileid = [] then ft_fail ft ELAERR_INVALID_ARGS
      else case get_fileinfo_fileid ft fileid of None \<Rightarrow> ft_fail ft ELAERR_NOT_EXIST
      | Some i \<Rightarrow>
          if ft_state ft \<noteq> FileTransferConnection_connected then ft_fail ft ELAERR_WRONG_STATE
          else (0, upd_item ft i (\<lambda>item. item\<lparr> fi_userdata := userdata \<rparr>)))"

definition ela_filetransfer_get_userdata :: "ElaFileTransfer \<Rightarrow> string \<Rightarrow> nat option \<times> ElaFileTransfer" where
  "ela_filetransfer_get_userdata ft fileid =
     (if fileid = [] then (None, snd (ft_fail ft ELAERR_INVALID_ARGS))
      else case get_fileinfo_fileid ft fileid of None \<Rightarrow> (None, snd (ft_fail ft ELAERR_NOT_EXIST))
      | Some i \<Rightarrow>
          if ft_state ft \<noteq> FileTransferConnection_connected then (None, snd (ft_fail ft ELAERR_WRONG_STATE))
          else (Some (fi_userdata (ft_files ft ! i)), ft\<lparr> ft_errno := 0 \<rparr>))"

end
