(* ===== verification/FileTransfer_Spec.thy ===== *)
theory FileTransfer_Spec
  imports FileTransfer
begin

text \<open>
  What a file transfer does: the cookie of a channel tells the receiver which file comes, a pull request its offset, and then the
  data arrives. The last section has defects of the code.
\<close>

section \<open>Cookies are read back\<close>

definition plain_word :: "nat \<Rightarrow> string \<Rightarrow> bool" where
  "plain_word width s \<longleftrightarrow> s \<noteq> [] \<and> length s \<le> width \<and> list_all (\<lambda>c. \<not> is_space c) s"

lemma scan_word_plain:
  assumes "plain_word w s"
  shows "scan_word w (s @ '' '' @ rest) = Some (s, '' '' @ rest)" "scan_word w ('' '' @ s @ '' '' @ rest) = Some (s, '' '' @ rest)"
proof -
  have "takeWhile (\<lambda>c. \<not> is_space c) (s @ '' '' @ rest) = s"
    using assms by (subst takeWhile_append2) (auto simp: plain_word_def list_all_iff is_space_def)
  moreover have "dropWhile is_space (s @ '' '' @ rest) = s @ '' '' @ rest"
    using assms by (cases s) (auto simp: plain_word_def)
  moreover have "dropWhile is_space ('' '' @ s @ '' '' @ rest) = s @ '' '' @ rest"
    using calculation(2) by (simp add: is_space_def)
  ultimately show "scan_word w (s @ '' '' @ rest) = Some (s, '' '' @ rest)" "scan_word w ('' '' @ s @ '' '' @ rest) = Some (s, '' '' @ rest)"
    using assms by (cases s; auto simp: scan_word_def plain_word_def Let_def)+
qed

lemma of_char_digit: "d < 10 \<Longrightarrow> (of_char (digit d) :: nat) = 48 + d"
  by (simp add: digit_def)

lemma is_digit_digit: "d < 10 \<Longrightarrow> is_digit (digit d)"
  by (simp add: is_digit_def of_char_digit)

lemma decimal_digits: "list_all is_digit (decimal n)"
  by (induction n rule: decimal.induct) (subst decimal.simps, auto simp: is_digit_digit)

lemma decimal_nonempty: "decimal n \<noteq> []"
  by (subst decimal.simps) simp

lemma digits_value_decimal: "digits_value (decimal n) = n"
proof (induction n rule: decimal.induct)
  case (1 n)
  show ?case
  proof (cases "n < 10")
    case True
    then show ?thesis by (subst decimal.simps) (simp add: digits_value_def of_char_digit)
  next
    case False
    then have "digits_value (decimal (n div 10)) = n div 10" using 1 by simp
    then show ?thesis using False by (subst decimal.simps) (simp add: digits_value_def of_char_digit)
  qed
qed

lemma digit_not_space: "is_digit c \<Longrightarrow> \<not> is_space c \<and> c \<noteq> CHR ''-'' \<and> c \<noteq> CHR ''+''"
  by (auto simp: is_digit_def is_space_def)

lemma unat_u64: "unat (sz :: u64) < 2 ^ 64"
  by (rule order.strict_trans2 [OF unsigned_less]) simp

lemma scan_llu_decimal: "scan_llu ('' '' @ decimal (unat sz)) = Some sz"
proof -
  obtain c cs where d: "decimal (unat sz) = c # cs" using decimal_nonempty by (cases "decimal (unat sz)") auto
  have dig: "is_digit c" "list_all is_digit (c # cs)" using decimal_digits [of "unat sz"] d by auto
  have "dropWhile is_space ('' '' @ c # cs) = c # cs" using digit_not_space [OF dig(1)] by (simp add: is_space_def [of "CHR '' ''"])
  moreover have "takeWhile is_digit (c # cs) = c # cs" using dig(2) by (simp add: list_all_iff takeWhile_eq_all_conv)
  moreover have "digits_value (c # cs) = unat sz" using digits_value_decimal d by metis
  moreover have "unat sz < 2 ^ 64" by (rule unat_u64)
  ultimately show ?thesis using digit_not_space [OF dig(1)] d by (simp add: scan_llu_def Let_def)
qed

lemma length_decimal: "0 < k \<Longrightarrow> n < 10 ^ k \<Longrightarrow> length (decimal n) \<le> k"
proof (induction k arbitrary: n)
  case (Suc k)
  show ?case
  proof (cases "n < 10")
    case True
    then show ?thesis by (subst decimal.simps) simp
  next
    case False
    then have "0 < k" using Suc.prems by (cases k) auto
    moreover have "n div 10 < 10 ^ k" using Suc.prems by (simp add: div_less_iff_less_mult mult.commute)
    ultimately show ?thesis using Suc.IH [of "n div 10"] False by (subst decimal.simps) simp
  qed
qed simp

lemma cookie_read_back:
  assumes "plain_word 255 n" "plain_word 45 fileid"
  obtains c where "file_cookie (Some n) fileid sz = Inr c" "scan_cookie c = Some (bundle_prefix, n, fileid, sz)"
proof -
  let ?c = "bundle_prefix @ '' '' @ n @ '' '' @ fileid @ '' '' @ decimal (unat sz)"
  have "unat sz < 10 ^ 20" by (rule less_trans [OF unat_u64]) simp
  then have "length (decimal (unat sz)) \<le> 20" by (rule length_decimal [rotated]) simp
  then have "file_cookie (Some n) fileid sz = Inr ?c"
    using assms by (simp add: file_cookie_def copy_str_def plain_word_def bundle_prefix_def)
  moreover have "plain_word 31 bundle_prefix" by (simp add: plain_word_def bundle_prefix_def is_space_def)
  then have "scan_cookie ?c = Some (bundle_prefix, n, fileid, sz)"
    using scan_word_plain(1) [of 31 bundle_prefix] scan_word_plain(2) [OF assms(1)] scan_word_plain(2) [OF assms(2)] scan_llu_decimal
    by (simp add: scan_cookie_def del: append_Cons)
  ultimately show thesis using that by blast
qed

section \<open>Slots\<close>

lemma find_item_Some:
  "find_item p xs n = Some j \<longleftrightarrow> (\<exists>k. j = n + k \<and> k < length xs \<and> p (xs ! k) \<and> (\<forall>m<k. \<not> p (xs ! m)))"
proof (induction xs arbitrary: n)
  case (Cons x xs)
  show ?case
  proof (cases "p x")
    case True
    then show ?thesis by (auto intro: exI [of _ 0] dest: spec [of _ 0] gr0I)
  next
    case False
    then have "(\<exists>k. j = Suc n + k \<and> k < length xs \<and> p (xs ! k) \<and> (\<forall>m<k. \<not> p (xs ! m))) \<longleftrightarrow>
      (\<exists>k. j = n + k \<and> k < length (x # xs) \<and> p ((x # xs) ! k) \<and> (\<forall>m<k. \<not> p ((x # xs) ! m)))" (is "?l \<longleftrightarrow> ?r")
    proof (intro iffI)
      assume ?l
      then obtain k where "j = Suc n + k" "k < length xs" "p (xs ! k)" "\<forall>m<k. \<not> p (xs ! m)" by blast
      then show ?r using False by (intro exI [of _ "Suc k"]) (auto simp: less_Suc_eq_0_disj)
    next
      assume ?r
      then obtain k where k: "j = n + k" "k < length (x # xs)" "p ((x # xs) ! k)" "\<forall>m<k. \<not> p ((x # xs) ! m)" by blast
      then obtain k' where "k = Suc k'" using False by (cases k) auto
      then show ?l using k by (intro exI [of _ k']) auto
    qed
    then show ?thesis using False Cons.IH [of "Suc n"] by simp
  qed
qed simp

lemma find_item_None: "find_item p xs n = None \<longleftrightarrow> list_all (\<lambda>x. \<not> p x) xs"
  by (induction xs arbitrary: n) auto

text \<open>File \<open>i\<close> is the one that its id and its channel find.\<close>

definition occupies :: "ElaFileTransfer \<Rightarrow> nat \<Rightarrow> string \<Rightarrow> int \<Rightarrow> bool" where
  "occupies ft i fileid channel \<longleftrightarrow> i < length (ft_files ft) \<and> fi_fileid (ft_files ft ! i) = fileid \<and> fi_channel (ft_files ft ! i) = channel \<and>
     get_fileinfo_fileid ft fileid = Some i \<and> get_fileinfo_channel ft channel = Some i"

text \<open>No file in use has this id or this channel.\<close>

definition unused :: "ElaFileTransfer \<Rightarrow> string \<Rightarrow> int \<Rightarrow> bool" where
  "unused ft fileid channel \<longleftrightarrow>
     list_all (\<lambda>item. fi_state item = FileTransferState_none \<or> (fi_fileid item \<noteq> fileid \<and> fi_channel item \<noteq> channel)) (ft_files ft)"

lemma free_slot:
  assumes "get_fileinfo_free ft = Some i"
  shows "i < length (ft_files ft)" "fi_state (ft_files ft ! i) = FileTransferState_none"
    "\<And>m. m < i \<Longrightarrow> fi_state (ft_files ft ! m) \<noteq> FileTransferState_none"
  using assms by (auto simp: get_fileinfo_free_def find_item_Some)

lemma occupies_free_slot:
  assumes "get_fileinfo_free ft = Some i" "unused ft fileid channel" "fi_fileid item = fileid" "fi_channel item = channel"
    "ft_files ft' = (ft_files ft)[i := item]"
  shows "occupies ft' i fileid channel"
proof -
  have before: "fi_fileid (ft_files ft ! m) \<noteq> fileid \<and> fi_channel (ft_files ft ! m) \<noteq> channel" if "m < i" for m
  proof -
    have "m < length (ft_files ft)" "fi_state (ft_files ft ! m) \<noteq> FileTransferState_none"
      using free_slot [OF assms(1)] that by auto
    then show ?thesis using assms(2) by (auto simp: unused_def list_all_length)
  qed
  then have "\<forall>m<i. fileid \<noteq> fi_fileid (ft_files ft ! m)" "\<forall>m<i. channel \<noteq> fi_channel (ft_files ft ! m)" by metis+
  then show ?thesis
    using free_slot(1) [OF assms(1)] assms(3-5) by (simp add: occupies_def get_fileinfo_fileid_def get_fileinfo_channel_def find_item_Some)
qed

lemma occupies_upd:
  assumes "occupies ft i fileid channel" "ft_files ft' = (ft_files ft)[i := item]" "fi_fileid item = fileid" "fi_channel item = channel"
  shows "occupies ft' i fileid channel"
proof -
  have "find_item p xs n = find_item p (xs[k := item]) n" if "p item = p (xs ! k)" for p :: "FileTransferItem \<Rightarrow> bool" and xs n k
    using that by (induction xs arbitrary: n k) (auto split: nat.splits)
  then show ?thesis
    using assms unfolding occupies_def get_fileinfo_fileid_def get_fileinfo_channel_def by simp metis
qed

lemma occupiesD:
  assumes "occupies ft i fileid channel"
  shows "i < length (ft_files ft)" "fi_fileid (ft_files ft ! i) = fileid" "fi_channel (ft_files ft ! i) = channel"
    "get_fileinfo_fileid ft fileid = Some i" "get_fileinfo_channel ft channel = Some i"
  using assms by (simp_all add: occupies_def)

section \<open>From the offer to the data\<close>

text \<open>A user that only takes notice.\<close>

definition quiet_user :: "ft_env \<Rightarrow> bool" where
  "quiet_user env \<longleftrightarrow> (\<forall>c. fe_user env c = Some (\<lambda>ft. Inr (True, ft)))"

lemma quiet_call:
  assumes "quiet_user env"
  shows "ft_tell env ft c = Inr (ft_say ft (EvCall c))" "ft_user env ft c = Inr (True, ft_say ft (EvCall c))"
  using assms by (simp_all add: quiet_user_def ft_tell_def ft_user_def)

text \<open>A transfer that is connected, in the given role.\<close>

definition linked :: "ElaFileTransfer \<Rightarrow> ft_side \<Rightarrow> bool" where
  "linked ft side \<longleftrightarrow> ft_session ft \<and> ft_stream ft > 0 \<and> ft_state ft = FileTransferConnection_connected \<and> ft_sender_receiver ft = side"

lemma linked_simps [simp]:
  "linked (ft_say ft e) side = linked ft side" "linked (upd_item ft i f) side = linked ft side"
  "ft_files (ft_say ft e) = ft_files ft" "ft_log (upd_item ft i f) = ft_log ft" "ft_stream (ft_say ft e) = ft_stream ft"
  "ft_stream (upd_item ft i f) = ft_stream ft" "ft_log (ft_say ft e) = ft_log ft @ [e]"
  "ft_files (upd_item ft i f) = (ft_files ft)[i := f (ft_files ft ! i)]"
  "get_fileinfo_fileid (ft_say ft e) = get_fileinfo_fileid ft" "get_fileinfo_channel (ft_say ft e) = get_fileinfo_channel ft"
  by (auto simp: linked_def ft_say_def upd_item_def get_fileinfo_fileid_def get_fileinfo_channel_def)

lemma plain_name:
  assumes "CHR ''/'' \<notin> set n" "n \<noteq> []"
  shows "base_name n = n" "strip_slashes n = n"
proof -
  obtain c cs where r: "rev n = c # cs" using assms(2) by (cases "rev n") auto
  then have "c \<noteq> CHR ''/''" using assms(1) by (metis list.set_intros(1) set_rev)
  then show s: "strip_slashes n = n" using r by (simp add: strip_slashes_def Let_def)
  have "\<not> (\<forall>c\<in>set n. c = CHR ''/'')" using assms by (cases n) auto
  moreover have "takeWhile (\<lambda>c. c \<noteq> CHR ''/'') (rev n) = rev n" using assms(1) by (auto simp: takeWhile_eq_all_conv)
  ultimately show "base_name n = n" unfolding base_name_def s by (simp only: if_False rev_rev_ident)
qed

lemma add_opens:
  assumes "linked s SENDER" "\<not> bad_info env info" "fe_alloc env s" "get_fileinfo_free s = Some i"
    "CHR ''/'' \<notin> set (ft_info_filename info)" "plain_word 255 (ft_info_filename info)" "plain_word 45 (info_fileid env info)"
    "\<forall>ft. fe_open_channel env ft = channel" "channel > 0" "unused s (info_fileid env info) channel"
  obtains s1 c where "ela_filetransfer_add env s info = Inr (0, s1)" "ft_log s1 = ft_log s @ [EvOpenChannel c]"
    "scan_cookie c = Some (bundle_prefix, ft_info_filename info, info_fileid env info, ft_info_size info)" "linked s1 SENDER"
    "ft_stream s1 = ft_stream s"
    "occupies s1 i (info_fileid env info) channel" "fi_state (ft_files s1 ! i) = FileTransferState_standby"
    "fi_filesz (ft_files s1 ! i) = ft_info_size info"
proof -
  obtain c where c: "file_cookie (Some (ft_info_filename info)) (info_fileid env info) (ft_info_size info) = Inr c"
      "scan_cookie c = Some (bundle_prefix, ft_info_filename info, info_fileid env info, ft_info_size info)"
    using cookie_read_back [OF assms(6,7)] by blast
  have n: "ft_info_filename info \<noteq> []" using assms(6) by (simp add: plain_word_def)
  let ?item = "(ft_files s ! i)\<lparr> fi_fileid := info_fileid env info, fi_filename := Some (ft_info_filename info),
     fi_filesz := ft_info_size info, fi_userdata := ft_info_userdata info, fi_channel := channel, fi_state := FileTransferState_standby \<rparr>"
  let ?s = "(ft_say s (EvOpenChannel c))\<lparr> ft_files := (ft_files s)[i := ?item] \<rparr>"
  have i: "i < length (ft_files s)" using free_slot(1) [OF assms(4)] .
  have "ela_filetransfer_add env s info = Inr (0, ?s)"
    using assms(1-4,8,9) c(1) plain_name [OF assms(5) n] i
    by (simp add: ela_filetransfer_add_def linked_def Let_def upd_item_def ft_say_def)
  moreover have "occupies ?s i (info_fileid env info) channel"
    by (rule occupies_free_slot [OF assms(4,10), of ?item]) simp_all
  ultimately show thesis using that [of ?s c] c(2) assms(1) i by (simp add: linked_def ft_say_def)
qed

lemma open_accepts:
  assumes "linked r RECEIVER" "fe_alloc env r" "get_fileinfo_free r = Some i" "get_fileinfo_fileid r fileid = None" "unused r fileid channel"
    "scan_cookie c = Some (bundle_prefix, n, fileid, sz)"
  obtains r1 where "stream_channel_open env r (ft_stream r) channel (Some c) = Inr (True, r1)" "linked r1 RECEIVER" "ft_stream r1 = ft_stream r"
    "occupies r1 i fileid channel" "fi_state (ft_files r1 ! i) = FileTransferState_standby" "fi_filesz (ft_files r1 ! i) = sz"
    "fi_filename (ft_files r1 ! i) = Some n" "ft_log r1 = ft_log r"
proof -
  let ?f = "\<lambda>item. item\<lparr> fi_fileid := fileid, fi_filename := Some n, fi_filesz := sz, fi_channel := channel,
     fi_state := FileTransferState_standby \<rparr>"
  let ?r = "upd_item r i ?f"
  have i: "i < length (ft_files r)" using free_slot(1) [OF assms(3)] .
  have "stream_channel_open env r (ft_stream r) channel (Some c) = Inr (True, ?r)"
    using assms by (simp add: stream_channel_open_def channel_asserts_def linked_def)
  moreover have "occupies ?r i fileid channel"
    by (rule occupies_free_slot [OF assms(3,5), of "?f (ft_files r ! i)"]) simp_all
  ultimately show thesis using that [of ?r] assms(1) i by simp
qed

lemma opened_told:
  assumes "quiet_user env" "linked r RECEIVER" "occupies r i fileid channel"
  shows "stream_channel_opened env r channel =
    Inr (ft_say r (EvCall (CallFile fileid (fi_filename (ft_files r ! i)) (fi_filesz (ft_files r ! i)))))"
  using assms(2) occupiesD [OF assms(3)] by (simp add: stream_channel_opened_def linked_def quiet_call [OF assms(1)] Let_def)

lemma ntohll_htonll: "ntohll_bytes (htonll_bytes w) = w"
proof -
  have "(push_bit 32 (ucast (ucast (drop_bit 32 w) :: u32)) OR ucast (ucast w :: u32) :: u64) = w"
  proof (rule bit_word_eqI)
    fix n assume "n < LENGTH(64)"
    then show "bit (push_bit 32 (ucast (ucast (drop_bit 32 w) :: u32)) OR ucast (ucast w :: u32) :: u64) n = bit w n"
      by (auto simp: bit_simps)
  qed
  then show ?thesis by (simp add: ntohll_bytes_def htonll_bytes_def htonl_bytes_def)
qed

lemma pull_packet_read:
  "length (pull_packet junk offset) = 16" "ntohs_bytes (pull_packet junk offset ! 0) (pull_packet junk offset ! 1) = PACKET_PULL"
  "ntohll_bytes (drop 8 (pull_packet junk offset)) = offset"
  using ntohll_htonll [of offset] by (simp_all add: pull_packet_def htonll_bytes_def htons_bytes_def)

text \<open>Setting the state of a file, as the functions below do.\<close>

definition set_item_state :: "ElaFileTransfer \<Rightarrow> nat \<Rightarrow> FileTransferState \<Rightarrow> ElaFileTransfer" where
  "set_item_state ft i st = upd_item ft i (\<lambda>item. item\<lparr> fi_state := st \<rparr>)"

lemma set_item_state_simps [simp]:
  "linked (set_item_state ft i st) side = linked ft side" "ft_log (set_item_state ft i st) = ft_log ft"
  "ft_stream (set_item_state ft i st) = ft_stream ft"
  by (simp_all add: set_item_state_def)

lemma occupies_set_state:
  assumes "occupies ft i fileid channel"
  shows "occupies (set_item_state ft i st) i fileid channel" "fi_state (ft_files (set_item_state ft i st) ! i) = st"
    "fi_filesz (ft_files (set_item_state ft i st) ! i) = fi_filesz (ft_files ft ! i)"
  using occupiesD [OF assms] occupies_upd [OF assms, of "set_item_state ft i st" "(ft_files ft ! i)\<lparr> fi_state := st \<rparr>"]
  by (simp_all add: set_item_state_def)

lemma occupies_say [simp]: "occupies (ft_say ft e) i fileid channel = occupies ft i fileid channel"
  by (simp add: occupies_def)

lemma pull_writes:
  assumes "linked r RECEIVER" "occupies r i fileid channel" "channel > 0" "fileid \<noteq> []" "fi_state (ft_files r ! i) = FileTransferState_standby"
    "offset < fi_filesz (ft_files r ! i)" "\<forall>ft. 0 \<le> fe_write_channel env ft"
  shows "ela_filetransfer_pull env r fileid offset =
    Inr (0, set_item_state (ft_say r (EvWriteChannel channel (pull_packet (fe_junk env) offset))) i FileTransferState_transfering)"
  using assms occupiesD [OF assms(2)] spec [OF assms(7), of r]
  by (simp add: ela_filetransfer_pull_def linked_def item_asserts_def Let_def set_item_state_def not_less [symmetric])

lemma pull_arrives:
  assumes "quiet_user env" "linked s SENDER" "occupies s i fileid channel" "fi_state (ft_files s ! i) = FileTransferState_standby"
  shows "stream_channel_data env s (ft_stream s) channel (pull_packet junk offset) =
    Inr (True, ft_say (set_item_state s i FileTransferState_transfering) (EvCall (CallPull fileid offset)))"
  using assms(2,4) occupiesD [OF assms(3)] pull_packet_read [of junk offset]
  by (simp add: stream_channel_data_def channel_asserts_def linked_def sender_packet_def Let_def quiet_call [OF assms(1)] set_item_state_def)

lemma send_writes:
  assumes "linked s SENDER" "occupies s i fileid channel" "channel > 0" "fileid \<noteq> []" "fi_state (ft_files s ! i) = FileTransferState_transfering"
    "of_nat (length d) \<le> fi_filesz (ft_files s ! i)" "\<forall>ft. fe_write_channel env ft = rc" "0 \<le> rc"
  shows "ela_filetransfer_send env s fileid d = Inr (rc, ft_say s (EvWriteChannel channel d))"
  using assms occupiesD [OF assms(2)] by (auto simp: ela_filetransfer_send_def linked_def item_asserts_def Let_def not_less)

lemma data_arrives:
  assumes "quiet_user env" "linked r RECEIVER" "occupies r i fileid channel" "fi_state (ft_files r ! i) = FileTransferState_transfering" "d \<noteq> []"
  shows "stream_channel_data env r (ft_stream r) channel d = Inr (True, ft_say r (EvCall (CallData fileid (Some d))))"
  using assms(2,4,5) occupiesD [OF assms(3)]
  by (simp add: stream_channel_data_def channel_asserts_def linked_def quiet_call [OF assms(1)])

text \<open>
  C15. A file gets through, between a sender and a receiver that are connected, have a free slot each and a session that
  opens channels and accepts what is written. The name of the file has at most 255 characters, none of them a blank or a
  slash, and its id at most 45, none of them a blank; neither the id nor the number of the channel is in use at either side, and the id
  is in none of the receiver's slots. The functions of the users do not call back. The sender adds the file, which opens a channel; the cookie it writes makes the receiver
  accept the channel and tells its user the id, the name and the size of the file as they were given. The receiver pulls from an offset below the size:
  the sender's user is told the file and the offset. Whatever data, not empty and at most the size of the file, the sender then sends arrives at the receiver's user under the id of
  the file.
\<close>

theorem file_transferred:
  assumes users: "quiet_user se" "quiet_user re" and s: "linked s SENDER" "fe_alloc se s" "get_fileinfo_free s = Some i"
      "\<forall>ft. fe_open_channel se ft = channel" "channel > 0" "unused s fileid channel" "\<forall>ft. fe_write_channel se ft = rc" "0 \<le> rc"
    and info: "\<not> bad_info se info" "CHR ''/'' \<notin> set (ft_info_filename info)" "plain_word 255 (ft_info_filename info)"
      "info_fileid se info = fileid" "plain_word 45 fileid" "offset < ft_info_size info"
    and r: "linked r RECEIVER" "fe_alloc re r" "get_fileinfo_free r = Some j" "get_fileinfo_fileid r fileid = None" "channel' > 0"
      "unused r fileid channel'" "\<forall>ft. 0 \<le> fe_write_channel re ft"
    and d: "d \<noteq> []" "of_nat (length d) \<le> ft_info_size info"
  shows "\<exists>s1 c r1 r2 r3 p s2 s3 r4. ela_filetransfer_add se s info = Inr (0, s1) \<and> ft_log s1 = ft_log s @ [EvOpenChannel c] \<and>
    stream_channel_open re r (ft_stream r) channel' (Some c) = Inr (True, r1) \<and>
    stream_channel_opened re r1 channel' = Inr r2 \<and>
    ft_log r2 = ft_log r @ [EvCall (CallFile fileid (Some (ft_info_filename info)) (ft_info_size info))] \<and>
    ela_filetransfer_pull re r2 fileid offset = Inr (0, r3) \<and> ft_log r3 = ft_log r2 @ [EvWriteChannel channel' p] \<and>
    stream_channel_data se s1 (ft_stream s) channel p = Inr (True, s2) \<and> ft_log s2 = ft_log s1 @ [EvCall (CallPull fileid offset)] \<and>
    ela_filetransfer_send se s2 fileid d = Inr (rc, s3) \<and> ft_log s3 = ft_log s2 @ [EvWriteChannel channel d] \<and>
    stream_channel_data re r3 (ft_stream r) channel' d = Inr (True, r4) \<and> ft_log r4 = ft_log r3 @ [EvCall (CallData fileid (Some d))]"
proof -
  note id = info(4)
  obtain s1 c where a: "ela_filetransfer_add se s info = Inr (0, s1)" "ft_log s1 = ft_log s @ [EvOpenChannel c]"
      "scan_cookie c = Some (bundle_prefix, ft_info_filename info, fileid, ft_info_size info)" "linked s1 SENDER" "ft_stream s1 = ft_stream s"
      "occupies s1 i fileid channel" "fi_state (ft_files s1 ! i) = FileTransferState_standby" "fi_filesz (ft_files s1 ! i) = ft_info_size info"
    using add_opens [OF s(1) info(1) s(2,3) info(2,3), unfolded id, OF info(5) s(4-6)] by blast
  obtain r1 where o: "stream_channel_open re r (ft_stream r) channel' (Some c) = Inr (True, r1)" "linked r1 RECEIVER" "ft_stream r1 = ft_stream r"
      "occupies r1 j fileid channel'" "fi_state (ft_files r1 ! j) = FileTransferState_standby" "fi_filesz (ft_files r1 ! j) = ft_info_size info"
      "fi_filename (ft_files r1 ! j) = Some (ft_info_filename info)" "ft_log r1 = ft_log r"
    using open_accepts [OF r(1-4,6) a(3)] by blast
  have ne: "fileid \<noteq> []" using info(5) by (simp add: plain_word_def)
  define r2 where "r2 = ft_say r1 (EvCall (CallFile fileid (Some (ft_info_filename info)) (ft_info_size info)))"
  have o2: "stream_channel_opened re r1 channel' = Inr r2" using opened_told [OF users(2) o(2,4)] o(6,7) by (simp add: r2_def)
  have k2: "linked r2 RECEIVER" "occupies r2 j fileid channel'" "fi_state (ft_files r2 ! j) = FileTransferState_standby"
      "offset < fi_filesz (ft_files r2 ! j)" using o info(6) by (simp_all add: r2_def)
  let ?p = "pull_packet (fe_junk re) offset"
  define r3 where "r3 = set_item_state (ft_say r2 (EvWriteChannel channel' ?p)) j FileTransferState_transfering"
  have k3: "linked r3 RECEIVER" "occupies r3 j fileid channel'" "fi_state (ft_files r3 ! j) = FileTransferState_transfering" "ft_stream r3 = ft_stream r"
    using k2(1,2) o(3) occupies_set_state [of "ft_say r2 (EvWriteChannel channel' ?p)" j] by (simp_all add: r3_def r2_def)
  define s2 where "s2 = ft_say (set_item_state s1 i FileTransferState_transfering) (EvCall (CallPull fileid offset))"
  have j2: "linked s2 SENDER" "occupies s2 i fileid channel" "fi_state (ft_files s2 ! i) = FileTransferState_transfering"
      "of_nat (length d) \<le> fi_filesz (ft_files s2 ! i)"
    using a(4,8) d(2) occupies_set_state [OF a(6)] by (simp_all add: s2_def)
  have "ela_filetransfer_pull re r2 fileid offset = Inr (0, r3)"
    unfolding r3_def by (rule pull_writes [OF k2(1,2) r(5) ne k2(3,4) r(7)])
  moreover have "stream_channel_data se s1 (ft_stream s) channel ?p = Inr (True, s2)"
    using pull_arrives [OF users(1) a(4,6,7)] a(5) by (simp add: s2_def)
  moreover have "ela_filetransfer_send se s2 fileid d = Inr (rc, ft_say s2 (EvWriteChannel channel d))"
    by (rule send_writes [OF j2(1,2) s(5) ne j2(3,4) s(7,8)])
  moreover have "stream_channel_data re r3 (ft_stream r) channel' d = Inr (True, ft_say r3 (EvCall (CallData fileid (Some d))))"
    using data_arrives [OF users(2) k3(1-3) d(1)] k3(4) by simp
  moreover have "ft_log r2 = ft_log r @ [EvCall (CallFile fileid (Some (ft_info_filename info)) (ft_info_size info))]"
    "ft_log r3 = ft_log r2 @ [EvWriteChannel channel' ?p]" "ft_log s2 = ft_log s1 @ [EvCall (CallPull fileid offset)]"
    using o(8) by (simp_all add: r2_def r3_def s2_def)
  ultimately show ?thesis using a(1,2) o(1) o2 linked_simps(7) by blast
qed

definition demo_ftenv :: "int \<Rightarrow> ft_env" where
  "demo_ftenv channel = \<lparr> fe_user = (\<lambda>c. Some (\<lambda>ft. Inr (True, ft))), fe_connect_callback = True, fe_session_request = (\<lambda>_. 0),
     fe_session_reply = (\<lambda>_. 0), fe_session_start = (\<lambda>_. 0), fe_session_new = None, fe_add_stream = (\<lambda>_. 1), fe_stream_live = (\<lambda>_. True),
     fe_open_channel = (\<lambda>_. channel), fe_write_channel = (\<lambda>_. 0), fe_pend_channel = (\<lambda>_. 0), fe_resume_channel = (\<lambda>_. 0),
     fe_id_is_valid = (\<lambda>_. True), fe_new_fileid = ''id1'', fe_alloc = (\<lambda>_. True), fe_now = time_zero, fe_junk = 0 \<rparr>"

definition demo_ft :: "ft_side \<Rightarrow> ElaFileTransfer" where
  "demo_ft side = \<lparr> ft_address = ''bob'', ft_files = [blank_item, blank_item, blank_item, blank_item, blank_item], ft_session = True, ft_stream = 1, ft_error = 0,
     ft_state = FileTransferConnection_connected, ft_sdp = None, ft_sender_receiver = side, ft_ready_to_connect = True,
     ft_filereqs = Map.empty, ft_errno = 0, ft_log = [] \<rparr>"

definition demo_info :: ElaFileTransferInfo where
  "demo_info = \<lparr> ft_info_filename = ''song.mp3'', ft_info_fileid = [], ft_info_size = 1000, ft_info_userdata = 0 \<rparr>"

lemma demo_ft_ok:
  "quiet_user (demo_ftenv ch)" "linked (demo_ft side) side" "get_fileinfo_free (demo_ft side) = Some 0" "unused (demo_ft side) fileid ch"
  "get_fileinfo_fileid (demo_ft side) ''id1'' = None" "fe_alloc (demo_ftenv ch) ft" "info_fileid (demo_ftenv ch) demo_info = ''id1''"
  "\<not> bad_info (demo_ftenv ch) demo_info" "\<forall>ft. fe_open_channel (demo_ftenv ch) ft = ch" "\<forall>ft. fe_write_channel (demo_ftenv ch) ft = 0"
  by (simp_all add: quiet_user_def demo_ftenv_def linked_def demo_ft_def get_fileinfo_free_def blank_item_def unused_def
      get_fileinfo_fileid_def info_fileid_def demo_info_def bad_info_def)

lemma file_transferred_witness:
  "\<exists>s1 c r1 r2. ela_filetransfer_add (demo_ftenv 4) (demo_ft SENDER) demo_info = Inr (0, s1) \<and> ft_log s1 = [EvOpenChannel c] \<and>
    stream_channel_open (demo_ftenv 9) (demo_ft RECEIVER) 1 9 (Some c) = Inr (True, r1) \<and>
    stream_channel_opened (demo_ftenv 9) r1 9 = Inr r2 \<and> ft_log r2 = [EvCall (CallFile ''id1'' (Some ''song.mp3'') 1000)]"
proof -
  have "ft_log (demo_ft side) = []" "ft_stream (demo_ft side) = 1" "ft_info_filename demo_info = ''song.mp3''" "ft_info_size demo_info = 1000" for side
    by (simp_all add: demo_ft_def demo_info_def)
  moreover have "plain_word 255 ''song.mp3''" "plain_word 45 ''id1''" by (simp_all add: plain_word_def is_space_def)
  ultimately show ?thesis
    using file_transferred [of "demo_ftenv 4" "demo_ftenv 9" "demo_ft SENDER" 0 4 "''id1''" 0 demo_info 7 "demo_ft RECEIVER" 0 9 "[1, 2, 3]"]
      demo_ft_ok(10) [of 9] by (fastforce simp: demo_ft_ok)
qed

section \<open>Defects\<close>

text \<open>
  C36. A refused transfer stops the sender's process. \<open>remove_stream_secure\<close> forgets the number of the stream before it removes it; the
  removal reports that the stream is closed, and \<open>stream_state_changed\<close> asserts that the number is the one it knows.
\<close>

theorem refusal_aborts:
  assumes "ft_sender_receiver ft = SENDER" "ft_session ft" "ft_stream ft > 0" "ft_ready_to_connect ft"
    "ft_state ft \<noteq> FileTransferConnection_failed" "status \<noteq> 0" "\<forall>ft. fe_stream_live env ft"
  shows "sessionreq_complete_callback env ft (Some bundle_prefix) status sdp = Inl AssertFail"
  using assms
  by (auto simp: sessionreq_complete_callback_def strncmp_eq_def remove_stream_secure_def remove_stream_def stream_state_changed_def ft_say_def
      Let_def g_assert_def)

lemma refusal_aborts_witness:
  "sessionreq_complete_callback (demo_ftenv 4) ((demo_ft SENDER)\<lparr> ft_state := FileTransferConnection_connecting \<rparr>) (Some bundle_prefix) 1 None =
    Inl AssertFail"
  by (rule refusal_aborts) (simp_all add: demo_ft_def demo_ftenv_def)

text \<open>
  A file that has been received cannot be received again: its slot keeps the id when the channel is closed, and a channel for a known
  id is refused unless the file is waiting, even if other slots are free.
\<close>

theorem ended_file_refused:
  assumes "linked r RECEIVER" "get_fileinfo_channel r channel = Some i" "get_fileinfo_fileid r (fi_fileid (ft_files r ! i)) = Some i"
    "stream_channel_close r (ft_stream r) channel = Inr r'" "scan_cookie c = Some (bundle_prefix, n, fi_fileid (ft_files r ! i), sz)"
  shows "stream_channel_open env r' (ft_stream r') channel' (Some c) = Inr (False, r')"
proof -
  let ?g = "\<lambda>item. filename_safe_free (item\<lparr> fi_state := FileTransferState_none \<rparr>)"
  have i: "i < length (ft_files r)" using assms(3) by (auto simp: get_fileinfo_fileid_def find_item_Some)
  have "r' = upd_item r i ?g" using assms(1,2,4) by (auto simp: stream_channel_close_def)
  then have r': "linked r' RECEIVER" "ft_files r' = (ft_files r)[i := ?g (ft_files r ! i)]" using assms(1) by simp_all
  have "get_fileinfo_fileid r' (fi_fileid (ft_files r ! i)) = Some i"
    using assms(3) i r'(2) by (auto simp: get_fileinfo_fileid_def find_item_Some filename_safe_free_def)
  then show ?thesis
    using r' assms(5) i by (simp add: stream_channel_open_def channel_asserts_def linked_def filename_safe_free_def)
qed

definition demo_received :: ElaFileTransfer where
  "demo_received = (demo_ft RECEIVER)\<lparr> ft_files := [blank_item\<lparr> fi_fileid := ''id1'', fi_filename := Some ''a'', fi_filesz := 3,
     fi_state := FileTransferState_transfering, fi_channel := 7 \<rparr>, blank_item] \<rparr>"

lemma ended_file_refused_witness:
  "\<exists>r' c. stream_channel_close demo_received 1 7 = Inr r' \<and> get_fileinfo_free r' = Some 0 \<and>
    scan_cookie c = Some (bundle_prefix, ''a'', ''id1'', 3) \<and> stream_channel_open (demo_ftenv 1) r' (ft_stream r') 8 (Some c) = Inr (False, r')"
proof -
  have "plain_word 255 ''a''" "plain_word 45 ''id1''" by (simp_all add: plain_word_def is_space_def)
  then obtain c where c: "scan_cookie c = Some (bundle_prefix, ''a'', ''id1'', 3)" using cookie_read_back by metis
  have d: "linked demo_received RECEIVER" "get_fileinfo_channel demo_received 7 = Some 0" "fi_fileid (ft_files demo_received ! 0) = ''id1''"
      "get_fileinfo_fileid demo_received ''id1'' = Some 0" "ft_stream demo_received = 1"
    by (simp_all add: demo_received_def linked_def demo_ft_def get_fileinfo_channel_def get_fileinfo_fileid_def)
  obtain r' where r': "stream_channel_close demo_received 1 7 = Inr r'" "get_fileinfo_free r' = Some 0"
    by (simp add: stream_channel_close_def channel_asserts_def demo_received_def demo_ft_def get_fileinfo_channel_def upd_item_def
        get_fileinfo_free_def filename_safe_free_def)
  then show ?thesis using ended_file_refused [OF d(1,2), of r' c "''a''" 3 "demo_ftenv 1" 8] d(3-5) c by auto
qed

text \<open>
  Asking for the id of a name follows a null pointer when a slot before the one with this name, or any slot when there is none, holds no file.
\<close>

theorem unknown_name_crashes:
  assumes "filename \<noteq> []" "len > ELA_MAX_FILE_ID_LEN" "item \<in> set (ft_files ft)" "fi_filename item = None"
    "list_all (\<lambda>item. fi_filename item \<noteq> Some filename) (ft_files ft)"
  shows "ela_filetransfer_get_fileid ft filename len = Inl BadPointer"
proof -
  have "name_loop filename items i = Inl BadPointer"
    if "item \<in> set items" "list_all (\<lambda>item. fi_filename item \<noteq> Some filename) items" for items i
    using that assms(4) by (induction items arbitrary: i) (auto split: option.splits)
  then show ?thesis using assms by (simp add: ela_filetransfer_get_fileid_def get_fileinfo_name_def)
qed

text \<open>A receiver that knows its file from the request may not pull it before the channel is open: this stops the process.\<close>

theorem early_pull_aborts:
  assumes "linked r RECEIVER" "fileid \<noteq> []" "get_fileinfo_fileid r fileid = Some i" "fi_state (ft_files r ! i) = FileTransferState_standby"
    "fi_channel (ft_files r ! i) = -1" "offset < fi_filesz (ft_files r ! i)"
  shows "ela_filetransfer_pull env r fileid offset = Inl AssertFail"
  using assms by (simp add: ela_filetransfer_pull_def linked_def item_asserts_def not_less [symmetric] g_assert_def)

end
