(* ===== verification/FileTransfer_Run.thy ===== *)
theory FileTransfer_Run
  imports FileTransfer_Spec
begin

text \<open>
  Runs of a file transfer: calls of its user and events of its stream, in any order. The invariant says that the files in use do not get in
  each other's way: what comes on the channel of a file is handled for this file, and a file that is being transferred has a channel.

  The user's functions may call the functions of the transfer; the locale \<open>ft_users\<close> is what they have to keep.
\<close>

section \<open>The invariant\<close>

definition in_use :: "FileTransferItem \<Rightarrow> bool" where
  "in_use item \<longleftrightarrow> fi_state item \<noteq> FileTransferState_none"

text \<open>
  No slot before the one of a file in use has its channel: slots that are no longer in use keep the number of their channel.
\<close>

definition ft_inv :: "ElaFileTransfer \<Rightarrow> bool" where
  "ft_inv ft \<longleftrightarrow> length (ft_files ft) = ELA_MAX_TRANSFERFILE_COUNT \<and>
     (\<forall>j<length (ft_files ft). in_use (ft_files ft ! j) \<longrightarrow>
        (fi_state (ft_files ft ! j) = FileTransferState_transfering \<longrightarrow> fi_channel (ft_files ft ! j) > 0) \<and>
        (fi_channel (ft_files ft ! j) > 0 \<longrightarrow> (\<forall>m<j. fi_channel (ft_files ft ! m) \<noteq> fi_channel (ft_files ft ! j))))"

text \<open>Files in use stay in use, on the same channel.\<close>

definition ft_keeps :: "ElaFileTransfer \<Rightarrow> ElaFileTransfer \<Rightarrow> bool" where
  "ft_keeps ft ft' \<longleftrightarrow> ft_inv ft' \<and> (\<forall>j<length (ft_files ft). in_use (ft_files ft ! j) \<longrightarrow>
     in_use (ft_files ft' ! j) \<and> fi_channel (ft_files ft' ! j) = fi_channel (ft_files ft ! j))"

text \<open>A channel number that no file in use has.\<close>

definition new_channel :: "ElaFileTransfer \<Rightarrow> int \<Rightarrow> bool" where
  "new_channel ft channel \<longleftrightarrow> channel > 0 \<and> list_all (\<lambda>item. in_use item \<longrightarrow> fi_channel item \<noteq> channel) (ft_files ft)"

lemma ft_inv_cong: "ft_files ft = ft_files ft' \<Longrightarrow> ft_inv ft = ft_inv ft'"
  by (simp add: ft_inv_def)

lemma ft_keeps_cong: "ft_inv ft \<Longrightarrow> ft_files ft' = ft_files ft \<Longrightarrow> ft_keeps ft ft'"
  by (simp add: ft_keeps_def ft_inv_def)

lemma ft_keeps_files: "ft_files x = ft_files y \<Longrightarrow> ft_keeps x = ft_keeps y"
  by (intro ext) (simp add: ft_keeps_def)

lemma ft_keeps_refl: "ft_inv ft \<Longrightarrow> ft_keeps ft ft"
  by (simp add: ft_keeps_def)

lemma ft_keeps_inv: "ft_keeps ft ft' \<Longrightarrow> ft_inv ft'"
  by (simp add: ft_keeps_def)

lemma ft_keeps_trans: "ft_inv ft \<Longrightarrow> ft_keeps ft ft' \<Longrightarrow> ft_keeps ft' ft'' \<Longrightarrow> ft_keeps ft ft''"
  by (auto simp: ft_keeps_def ft_inv_def)

text \<open>A change of the state of a file in use, on its channel.\<close>

lemma set_state_keeps:
  assumes "ft_inv ft" "i < length (ft_files ft)" "in_use (ft_files ft ! i)" "st = FileTransferState_transfering \<longrightarrow> fi_channel (ft_files ft ! i) > 0"
    "st \<noteq> FileTransferState_none"
  shows "ft_keeps ft (set_item_state ft i st)"
  using assms by (auto simp: ft_keeps_def ft_inv_def set_item_state_def in_use_def nth_list_update)

lemma release_inv:
  assumes "ft_inv ft" "i < length (ft_files ft)" "\<And>item. fi_channel (f item) = fi_channel item" "\<And>item. fi_state (f item) = FileTransferState_none"
  shows "ft_inv (upd_item ft i f)"
  using assms by (auto simp: ft_inv_def in_use_def upd_item_def nth_list_update split: if_splits)

text \<open>A file takes a channel: the first free slot, or slot 0.\<close>

lemma occupy_inv:
  assumes "ft_inv ft" "i < length (ft_files ft)" "new_channel ft (fi_channel item)" "fi_channel item > 0"
    "\<forall>m<i. fi_channel (ft_files ft ! m) \<noteq> fi_channel item" "ft_files ft' = (ft_files ft)[i := item]"
  shows "ft_inv ft'"
  using assms by (auto simp: ft_inv_def new_channel_def list_all_length nth_list_update)

lemma before_free:
  assumes "get_fileinfo_free ft = Some i" "new_channel ft channel"
  shows "\<forall>m<i. fi_channel (ft_files ft ! m) \<noteq> channel"
proof (intro allI impI)
  fix m assume "m < i"
  then have "m < length (ft_files ft)" "in_use (ft_files ft ! m)" using free_slot [OF assms(1)] by (auto simp: in_use_def)
  then show "fi_channel (ft_files ft ! m) \<noteq> channel" using assms(2) by (simp add: new_channel_def list_all_length)
qed

lemma take_slot_keeps:
  assumes "ft_inv ft" "get_fileinfo_free ft = Some i" "new_channel ft (fi_channel item)" "fi_state item = FileTransferState_standby"
    "ft_files ft' = (ft_files ft)[i := item]"
  shows "ft_keeps ft ft'"
proof -
  have "ft_inv ft'"
    by (rule occupy_inv [OF assms(1) free_slot(1) [OF assms(2)] assms(3) _ before_free [OF assms(2,3)] assms(5)])
      (use assms(3) in \<open>simp add: new_channel_def\<close>)
  then show ?thesis using free_slot(1,2) [OF assms(2)] assms(5) by (auto simp: ft_keeps_def in_use_def nth_list_update)
qed

text \<open>The file that a channel or an id finds.\<close>

lemma found_bounds:
  "get_fileinfo_channel ft channel = Some i \<Longrightarrow> i < length (ft_files ft) \<and> fi_channel (ft_files ft ! i) = channel"
  "get_fileinfo_fileid ft fileid = Some i \<Longrightarrow> i < length (ft_files ft) \<and> fi_fileid (ft_files ft ! i) = fileid"
  by (auto simp: get_fileinfo_channel_def get_fileinfo_fileid_def find_item_Some)

section \<open>Functions that the user calls\<close>

lemma post_True [simp]: "post (\<lambda>_. True) m"
  by (cases m) simp_all

lemma upd_log_files [simp]: "ft_files (snd (ft_fail ft e)) = ft_files ft"
  by (simp add: ft_fail_def)

lemma fail_keeps: "ft_inv ft \<Longrightarrow> ft_keeps ft (snd (ft_fail ft e))"
  by (rule ft_keeps_cong) simp_all

lemma say_keeps: "ft_inv ft \<Longrightarrow> ft_keeps ft (ft_say ft e)"
  by (rule ft_keeps_cong) simp_all

lemma say_set_keeps:
  assumes "ft_inv ft" "i < length (ft_files ft)" "in_use (ft_files ft ! i)" "st = FileTransferState_transfering \<longrightarrow> fi_channel (ft_files ft ! i) > 0"
    "st \<noteq> FileTransferState_none"
  shows "ft_keeps ft (set_item_state (ft_say ft e) i st)"
proof (rule ft_keeps_trans [OF assms(1) say_keeps [OF assms(1)]], rule set_state_keeps)
  show "ft_inv (ft_say ft e)" using assms(1) ft_inv_cong [of "ft_say ft e" ft] by simp
qed (use assms in simp_all)

lemma pull_keeps: "ft_inv ft \<Longrightarrow> post (\<lambda>(rc, ft'). ft_keeps ft ft') (ela_filetransfer_pull env ft fileid offset)"
  using found_bounds(2) [of ft fileid] say_set_keeps [of ft]
  by (auto simp: ela_filetransfer_pull_def Let_def fail_keeps [of ft, unfolded ft_fail_def snd_conv] ft_fail_def say_keeps in_use_def item_asserts_def
      set_item_state_def [symmetric] split: option.splits)

lemmas keeps_simps = Let_def ft_fail_def fail_keeps [of ft for ft, unfolded ft_fail_def snd_conv] say_keeps in_use_def item_asserts_def
  set_item_state_def [symmetric]

lemma send_keeps: "ft_inv ft \<Longrightarrow> post (\<lambda>(rc, ft'). ft_keeps ft ft') (ela_filetransfer_send env ft fileid data)"
  by (auto simp: ela_filetransfer_send_def keeps_simps split: option.splits)

lemma cancel_keeps: "ft_inv ft \<Longrightarrow> post (\<lambda>(rc, ft'). ft_keeps ft ft') (ela_filetransfer_cancel env ft fileid status reason)"
  by (auto simp: ela_filetransfer_cancel_def keeps_simps split: option.splits)

lemma pend_keeps: "ft_inv ft \<Longrightarrow> post (\<lambda>(rc, ft'). ft_keeps ft ft') (ela_filetransfer_pend env ft fileid)"
  using found_bounds(2) [of ft fileid] say_set_keeps [of ft]
  by (auto simp: ela_filetransfer_pend_def keeps_simps split: option.splits)

lemma resume_keeps: "ft_inv ft \<Longrightarrow> post (\<lambda>(rc, ft'). ft_keeps ft ft') (ela_filetransfer_resume env ft fileid)"
  using found_bounds(2) [of ft fileid] say_set_keeps [of ft]
  by (auto simp: ela_filetransfer_resume_def keeps_simps split: option.splits)

text \<open>The session gives a channel a number that no other channel of the stream has.\<close>

definition fresh_channels :: "ft_env \<Rightarrow> bool" where
  "fresh_channels env \<longleftrightarrow> (\<forall>ft. fe_open_channel env ft < 0 \<or> new_channel ft (fe_open_channel env ft))"

lemma free_slot_keeps:
  assumes "ft_inv ft" "get_fileinfo_free ft = Some i" "fi_state item = FileTransferState_none" "fi_channel item < 0"
    "ft_files ft' = (ft_files ft)[i := item]"
  shows "ft_keeps ft ft'"
  using assms(1,3-5) free_slot(1,2) [OF assms(2)] by (auto simp: ft_keeps_def ft_inv_def in_use_def nth_list_update)

lemma new_channel_free:
  assumes "get_fileinfo_free ft = Some i" "fi_state item = FileTransferState_none"
  shows "new_channel (ft\<lparr> ft_files := (ft_files ft)[i := item] \<rparr>) channel = new_channel ft channel"
  using assms(2) free_slot(1,2) [OF assms(1)] by (auto simp: new_channel_def list_all_length in_use_def nth_list_update)

lemma add_keeps:
  assumes "ft_inv ft" "fresh_channels env"
  shows "post (\<lambda>(rc, ft'). ft_keeps ft ft') (ela_filetransfer_add env ft info)"
proof (cases "get_fileinfo_free ft")
  case None
  then show ?thesis using assms(1) by (auto simp: ela_filetransfer_add_def keeps_simps)
next
  case (Some i)
  let ?it = "(ft_files ft ! i)\<lparr> fi_fileid := info_fileid env info, fi_filename := Some (base_name (ft_info_filename info)),
    fi_filesz := ft_info_size info, fi_userdata := ft_info_userdata info \<rparr>"
  let ?ft = "ft\<lparr> ft_files := (ft_files ft)[i := ?it] \<rparr>"
  let ?ch = "fe_open_channel env ?ft"
  have i: "i < length (ft_files ft)" "fi_state (ft_files ft ! i) = FileTransferState_none" using free_slot [OF Some] by auto
  have ch: "?ch < 0 \<or> new_channel ft ?ch" using assms(2) new_channel_free [OF Some, of ?it] i(2) by (auto simp: fresh_channels_def)
  have bad: "ft_keeps ft (?ft\<lparr> ft_log := l, ft_files := (ft_files ft)[i := filename_safe_free (?it\<lparr> fi_channel := ?ch \<rparr>)] \<rparr>)" if "?ch < 0" for l
    by (rule free_slot_keeps [OF assms(1) Some, of "filename_safe_free (?it\<lparr> fi_channel := ?ch \<rparr>)"])
      (use that i(2) in \<open>simp_all add: filename_safe_free_def\<close>)
  have good: "ft_keeps ft (?ft\<lparr> ft_log := l, ft_files := (ft_files ft)[i := ?it\<lparr> fi_channel := ?ch, fi_state := FileTransferState_standby \<rparr>] \<rparr>)"
    if "\<not> ?ch < 0" for l
    by (rule take_slot_keeps [OF assms(1) Some, of "?it\<lparr> fi_channel := ?ch, fi_state := FileTransferState_standby \<rparr>"])
      (use that ch in simp_all)
  show ?thesis
    using assms(1) Some i(1) good bad
    by (auto simp: ela_filetransfer_add_def Let_def ft_fail_def fail_keeps [OF assms(1), unfolded ft_fail_def snd_conv] upd_item_def ft_say_def)
qed

section \<open>Events\<close>

text \<open>The first file takes a channel, or is given up.\<close>

lemma first_file_inv:
  assumes "ft_inv ft" "new_channel ft channel"
  shows "ft_inv (upd_item (ft_say ft e) 0 (\<lambda>item. item\<lparr> fi_channel := channel \<rparr>))"
proof (rule occupy_inv [OF assms(1)])
  show "0 < length (ft_files ft)" using assms(1) by (simp add: ft_inv_def ft_consts)
  show "ft_files (upd_item (ft_say ft e) 0 (\<lambda>item. item\<lparr> fi_channel := channel \<rparr>)) =
    (ft_files ft)[0 := (ft_files ft ! 0)\<lparr> fi_channel := channel \<rparr>]" by simp
qed (use assms(2) in \<open>simp_all add: new_channel_def\<close>)

lemma first_file_failed:
  assumes "ft_inv ft" "channel < 0"
  shows "ft_inv (upd_item (upd_item (ft_say ft e) 0 (\<lambda>item. item\<lparr> fi_channel := channel \<rparr>)) 0
    (\<lambda>item. (filename_safe_free item)\<lparr> fi_state := FileTransferState_none \<rparr>))"
proof -
  have "0 < length (ft_files ft)" using assms(1) by (simp add: ft_inv_def ft_consts)
  then show ?thesis using assms by (auto simp: ft_inv_def in_use_def nth_list_update filename_safe_free_def)
qed

lemma state_inv [simp]: "ft_inv (ft\<lparr> ft_state := st \<rparr>) = ft_inv ft" "ft_inv (ft_say ft e) = ft_inv ft"
  "ft_inv (ft\<lparr> ft_ready_to_connect := b \<rparr>) = ft_inv ft" "ft_inv (ft\<lparr> ft_stream := n, ft_error := k \<rparr>) = ft_inv ft"
  "ft_inv (ft\<lparr> ft_stream := n \<rparr>) = ft_inv ft" "ft_inv (ft\<lparr> ft_session := b \<rparr>) = ft_inv ft" "ft_inv (ft\<lparr> ft_filereqs := m \<rparr>) = ft_inv ft"
  by (simp_all add: ft_inv_def)

lemma any_string: "(\<And>x. Q x) \<Longrightarrow> post Q (file_cookie n i z)" "(\<And>x. Q x) \<Longrightarrow> post Q (copy_str k s)"
  by (simp_all add: post_def)

text \<open>What the user's functions keep, and the numbers that the session gives.\<close>

locale ft_users =
  fixes env :: ft_env
  assumes user_keeps: "fe_user env c = Some f \<Longrightarrow> ft_inv ft \<Longrightarrow> post (\<lambda>(b, ft'). ft_keeps ft ft') (f ft)"
    and channels: "fresh_channels env"
begin

lemma user_call_keeps:
  assumes "ft_inv ft"
  shows "post (\<lambda>(b, ft'). ft_keeps ft ft') (ft_user env ft c)"
proof (cases "fe_user env c")
  case None
  then show ?thesis using assms by (simp add: ft_user_def ft_keeps_refl)
next
  case (Some f)
  have "post (\<lambda>(b, ft'). ft_keeps (ft_say ft (EvCall c)) ft') (f (ft_say ft (EvCall c)))"
    using user_keeps [OF Some, of "ft_say ft (EvCall c)"] assms by simp
  then show ?thesis using Some ft_keeps_trans [OF assms say_keeps [OF assms]] by (auto simp: ft_user_def elim!: post_mono)
qed

lemma tell_keeps: "ft_inv ft \<Longrightarrow> post (ft_keeps ft) (ft_tell env ft c)"
  using user_call_keeps [of ft c] by (auto simp: ft_tell_def post_def)

lemma call_inv: "ft_inv ft \<Longrightarrow> post ft_inv (ft_tell env ft c)"
  by (rule post_mono [OF tell_keeps]) (auto intro: ft_keeps_inv)

lemma notified_inv: "ft_inv ft \<Longrightarrow> post ft_inv (notify_state_changed env ft st)"
  using call_inv [of "ft\<lparr> ft_state := st \<rparr>"] by (simp add: notify_state_changed_def)

lemma notifies: "ft_inv ft \<Longrightarrow> (\<And>x. ft_inv x \<Longrightarrow> Q x) \<Longrightarrow> post Q (notify_state_changed env ft st)"
  by (rule post_mono [OF notified_inv])

lemma opened_first_inv: "ft_inv ft \<Longrightarrow> \<not> fe_open_channel env ft < 0 \<Longrightarrow>
    ft_inv (upd_item (ft_say ft e) 0 (\<lambda>item. item\<lparr> fi_channel := fe_open_channel env ft \<rparr>))"
  using channels by (intro first_file_inv) (auto simp: fresh_channels_def)

lemma sender_state_inv: "ft_inv ft \<Longrightarrow> post ft_inv (sender_state_changed env ft st)"
  by (cases st) (auto simp: sender_state_changed_def Let_def intro!: notifies any_string opened_first_inv first_file_failed)

lemma receiver_state_inv: "ft_inv ft \<Longrightarrow> post ft_inv (receiver_state_changed env ft st)"
  by (cases st) (auto simp: receiver_state_changed_def Let_def intro!: notifies any_string)

lemma stream_state_inv: "ft_inv ft \<Longrightarrow> post ft_inv (stream_state_changed env ft stream st)"
  using sender_state_inv receiver_state_inv by (auto simp: stream_state_changed_def split: ft_side.split)

lemma remove_stream_inv: "ft_inv ft \<Longrightarrow> post ft_inv (remove_stream env ft stream)"
  using stream_state_inv [of "ft_say ft e" for e] by (auto simp: remove_stream_def Let_def)

lemma remove_secure_inv: "ft_inv ft \<Longrightarrow> post ft_inv (remove_stream_secure env ft error)"
  using remove_stream_inv [of "ft\<lparr> ft_stream := -1, ft_error := error \<rparr>"] by (auto simp: remove_stream_secure_def)

end

text \<open>
  What is assumed of a channel that the peer opens. That no file in use has its number is a guarantee of the multiplexer, whose open channels
  have different numbers. The second part is not: a slot that is no longer in use keeps its number, freed numbers are given again, and when
  the peer offers a known file once more on such a number, the slot may hide the file (theorem \<open>stale_number_hides_file\<close>). So it is assumed that
  a known file is offered only on a number that no slot holds.
\<close>

definition open_ok :: "ElaFileTransfer \<Rightarrow> int \<Rightarrow> string option \<Rightarrow> bool" where
  "open_ok ft channel cookie \<longleftrightarrow> new_channel ft channel \<and>
     (case cookie of None \<Rightarrow> True | Some c \<Rightarrow> (case scan_cookie c of None \<Rightarrow> True
      | Some (_, _, fileid, _) \<Rightarrow> get_fileinfo_fileid ft fileid = None \<or> get_fileinfo_channel ft channel = None))"

lemma open_free_inv:
  assumes "ft_inv ft" "new_channel ft channel" "get_fileinfo_free ft = Some i" "fi_channel (f (ft_files ft ! i)) = channel"
    "fi_state (f (ft_files ft ! i)) = FileTransferState_standby"
  shows "ft_inv (upd_item ft i f)"
  by (rule ft_keeps_inv [OF take_slot_keeps [OF assms(1,3), of "f (ft_files ft ! i)"]]) (use assms in simp_all)

lemma open_known_inv:
  assumes "ft_inv ft" "new_channel ft channel" "get_fileinfo_fileid ft fileid = Some i" "get_fileinfo_channel ft channel = None"
  shows "ft_inv (upd_item ft i (\<lambda>item. item\<lparr> fi_channel := channel \<rparr>))"
proof (rule occupy_inv [OF assms(1)])
  show i: "i < length (ft_files ft)" using found_bounds(2) [OF assms(3)] by simp
  have "\<forall>m<length (ft_files ft). channel \<noteq> fi_channel (ft_files ft ! m)"
    using assms(4) by (simp add: get_fileinfo_channel_def find_item_None list_all_length)
  then show "\<forall>m<i. fi_channel (ft_files ft ! m) \<noteq> fi_channel ((ft_files ft ! i)\<lparr> fi_channel := channel \<rparr>)"
    using i by simp (metis less_trans)
qed (use assms(2) in \<open>simp_all add: new_channel_def\<close>)

lemma open_inv:
  assumes "ft_inv ft" "open_ok ft channel cookie"
  shows "post (\<lambda>(b, ft'). ft_inv ft') (stream_channel_open env ft stream channel cookie)"
proof -
  have new: "new_channel ft channel" using assms(2) by (simp add: open_ok_def)
  show ?thesis
    using assms open_free_inv [OF assms(1) new] open_known_inv [OF assms(1) new]
    by (auto simp: stream_channel_open_def open_ok_def split: option.split)
qed

lemma close_inv:
  assumes "ft_inv ft"
  shows "post ft_inv (stream_channel_close ft stream channel)"
  using assms found_bounds(1) [of ft channel] release_inv [OF assms]
  by (auto simp: stream_channel_close_def filename_safe_free_def split: option.split)

context ft_users
begin

lemma user_call_inv: "ft_inv ft \<Longrightarrow> post (\<lambda>(b, ft'). ft_inv ft') (ft_user env ft c)"
  by (rule post_mono [OF user_call_keeps]) (auto intro: ft_keeps_inv)

lemma opened_inv: "ft_inv ft \<Longrightarrow> post ft_inv (stream_channel_opened env ft channel)"
  by (auto simp: stream_channel_opened_def Let_def intro: call_inv split: option.split)

lemma started_inv:
  "ft_inv ft \<Longrightarrow> get_fileinfo_channel ft channel = Some i \<Longrightarrow> channel > 0 \<Longrightarrow> fi_state (ft_files ft ! i) = FileTransferState_standby \<Longrightarrow>
    ft_inv (set_item_state ft i FileTransferState_transfering)"
  using found_bounds(1) [of ft channel i] by (intro ft_keeps_inv [OF set_state_keeps]) (auto simp: in_use_def)

lemma packet_inv:
  assumes "ft_inv ft" "get_fileinfo_channel ft channel = Some i" "channel > 0"
  shows "post (\<lambda>(b, ft'). ft_inv ft') (sender_packet env ft i data)"
proof -
  have i: "i < length (ft_files ft)" using found_bounds(1) [OF assms(2)] by simp
  have "ft_inv (set_item_state ft i FileTransferState_none)"
    unfolding set_item_state_def by (rule release_inv [OF assms(1) i]) simp_all
  then show ?thesis
    using started_inv [OF assms] assms(1)
    by (auto simp: sender_packet_def Let_def c_string_def set_item_state_def [symmetric] intro!: post_mono [OF call_inv])
qed

lemma data_inv: "ft_inv ft \<Longrightarrow> channel > 0 \<Longrightarrow> post (\<lambda>(b, ft'). ft_inv ft') (stream_channel_data env ft stream channel data)"
  using packet_inv user_call_inv by (auto simp: stream_channel_data_def split: option.split ft_side.split)

text \<open>The user's function runs before the state is set: it keeps the file in use.\<close>

lemma call_then_set_inv:
  assumes "ft_inv ft" "get_fileinfo_channel ft channel = Some i" "channel > 0" "in_use (ft_files ft ! i)" "st \<noteq> FileTransferState_none"
  shows "post (\<lambda>ft. ft_inv (set_item_state ft i st)) (ft_tell env ft c)"
proof (rule post_mono [OF tell_keeps [OF assms(1)]])
  fix ft' assume k: "ft_keeps ft ft'"
  have i: "i < length (ft_files ft)" "fi_channel (ft_files ft ! i) = channel" using found_bounds(1) [OF assms(2)] by auto
  have "in_use (ft_files ft' ! i)" "fi_channel (ft_files ft' ! i) = channel" "i < length (ft_files ft')"
    using k i assms(1,4) by (auto simp: ft_keeps_def ft_inv_def)
  then show "ft_inv (set_item_state ft' i st)"
    using assms(3,5) by (intro ft_keeps_inv [OF set_state_keeps [OF ft_keeps_inv [OF k]]]) auto
qed

lemma pending_inv: "ft_inv ft \<Longrightarrow> channel > 0 \<Longrightarrow> post ft_inv (stream_channel_pending env ft stream channel)"
  using call_then_set_inv [of ft channel _ FileTransferState_standby]
  by (auto simp: stream_channel_pending_def set_item_state_def [symmetric] in_use_def split: option.split)

lemma resumed_inv: "ft_inv ft \<Longrightarrow> channel > 0 \<Longrightarrow> post ft_inv (stream_channel_resume env ft stream channel)"
  using call_then_set_inv [of ft channel _ FileTransferState_transfering]
  by (auto simp: stream_channel_resume_def set_item_state_def [symmetric] in_use_def split: option.split)

lemma complete_inv: "ft_inv ft \<Longrightarrow> post ft_inv (sessionreq_complete_callback env ft bundle status sdp)"
  using remove_secure_inv [of ft] remove_secure_inv [of "ft_say ft e" for e]
  by (auto simp: sessionreq_complete_callback_def Let_def split: option.split)

lemma finish_inv: "ft_inv ft \<Longrightarrow> post ft_inv (ela_filetransfer_close env ft)"
  using remove_stream_inv [of ft]
  by (auto simp: ela_filetransfer_close_def split: option.split intro!: post_mono [OF remove_stream_inv])

end

section \<open>Runs\<close>

datatype ft_api =
    InConnect | InAccept | InAdd ElaFileTransferInfo | InPull string u64 | InSend string "byte list" | InCancel string u32 string | InPend string | InResume string
  | InFinish

datatype ft_input = InCall ft_api
  | InAnswer "string option" int "byte list option" | InState ElaStreamState
  | InOpen int "string option" | InOpened int | InClose int | InData int "byte list" | InPending int | InResumed int

definition drop_result :: "('a \<times> ElaFileTransfer) res \<Rightarrow> ElaFileTransfer res" where
  "drop_result m = bindr m (\<lambda>(_, ft). Inr ft)"

definition api_step :: "ft_env \<Rightarrow> ElaFileTransfer \<Rightarrow> ft_api \<Rightarrow> ElaFileTransfer res" where
  "api_step env ft a = (case a of
     InConnect \<Rightarrow> drop_result (ela_filetransfer_connect env ft)
   | InAccept \<Rightarrow> drop_result (ela_filetransfer_accept_connect env ft)
   | InAdd info \<Rightarrow> drop_result (ela_filetransfer_add env ft info)
   | InPull fileid offset \<Rightarrow> drop_result (ela_filetransfer_pull env ft fileid offset)
   | InSend fileid data \<Rightarrow> drop_result (ela_filetransfer_send env ft fileid data)
   | InCancel fileid status reason \<Rightarrow> drop_result (ela_filetransfer_cancel env ft fileid status reason)
   | InPend fileid \<Rightarrow> drop_result (ela_filetransfer_pend env ft fileid)
   | InResume fileid \<Rightarrow> drop_result (ela_filetransfer_resume env ft fileid)
   | InFinish \<Rightarrow> ela_filetransfer_close env ft)"

definition ft_step :: "ft_env \<Rightarrow> ElaFileTransfer \<Rightarrow> ft_input \<Rightarrow> ElaFileTransfer res" where
  "ft_step env ft inp = (case inp of
     InCall a \<Rightarrow> api_step env ft a
   | InAnswer bundle status sdp \<Rightarrow> sessionreq_complete_callback env ft bundle status sdp
   | InState st \<Rightarrow> stream_state_changed env ft (ft_stream ft) st
   | InOpen channel cookie \<Rightarrow> drop_result (stream_channel_open env ft (ft_stream ft) channel cookie)
   | InOpened channel \<Rightarrow> stream_channel_opened env ft channel
   | InClose channel \<Rightarrow> stream_channel_close ft (ft_stream ft) channel
   | InData channel data \<Rightarrow> drop_result (stream_channel_data env ft (ft_stream ft) channel data)
   | InPending channel \<Rightarrow> stream_channel_pending env ft (ft_stream ft) channel
   | InResumed channel \<Rightarrow> stream_channel_resume env ft (ft_stream ft) channel)"

text \<open>
  What is assumed of the events of the session: channels have positive numbers, and a channel that is opened satisfies \<open>open_ok\<close>.
\<close>

definition ft_input_ok :: "ElaFileTransfer \<Rightarrow> ft_input \<Rightarrow> bool" where
  "ft_input_ok ft inp \<longleftrightarrow> (case inp of InOpen channel cookie \<Rightarrow> open_ok ft channel cookie
     | InData channel _ \<Rightarrow> channel > 0 | InPending channel \<Rightarrow> channel > 0 | InResumed channel \<Rightarrow> channel > 0 | _ \<Rightarrow> True)"

inductive ft_run :: "ft_env \<Rightarrow> ElaFileTransfer \<Rightarrow> ElaFileTransfer \<Rightarrow> bool" for env :: ft_env and ft0 :: ElaFileTransfer where
  ft_start: "ft_run env ft0 ft0"
| ft_next: "ft_run env ft0 ft \<Longrightarrow> ft_input_ok ft inp \<Longrightarrow> ft_step env ft inp = Inr ft' \<Longrightarrow> ft_run env ft0 ft'"

lemma drop_result_post: "post (\<lambda>(b, ft'). P ft') m \<Longrightarrow> post P (drop_result m)"
  by (auto simp: drop_result_def post_def)

lemma keeps_post: "post (\<lambda>(b, ft'). ft_keeps ft ft') m \<Longrightarrow> post (\<lambda>(b, ft'). ft_inv ft') m"
  by (auto simp: post_def ft_keeps_def)

lemma connect_inv: "ft_inv ft \<Longrightarrow> post (\<lambda>(b, ft'). ft_inv ft') (ela_filetransfer_connect env ft)"
  by (auto simp: ela_filetransfer_connect_def ft_fail_def Let_def ft_inv_def)

lemma accept_inv: "ft_inv ft \<Longrightarrow> post (\<lambda>(b, ft'). ft_inv ft') (ela_filetransfer_accept_connect env ft)"
  by (auto simp: ela_filetransfer_accept_connect_def ft_fail_def Let_def ft_inv_def split: option.split)

lemmas api_inv = keeps_post [OF add_keeps] keeps_post [OF pull_keeps] keeps_post [OF send_keeps] keeps_post [OF cancel_keeps]
  keeps_post [OF pend_keeps] keeps_post [OF resume_keeps] connect_inv accept_inv

context ft_users
begin

lemma api_step_inv: "ft_inv ft \<Longrightarrow> post ft_inv (api_step env ft a)"
  using channels by (cases a) (auto simp: api_step_def intro!: drop_result_post finish_inv api_inv)

lemma step_inv:
  assumes "ft_inv ft" "ft_input_ok ft inp"
  shows "post ft_inv (ft_step env ft inp)"
  using assms channels
  by (cases inp) (auto simp: ft_step_def ft_input_ok_def intro!: drop_result_post open_inv data_inv opened_inv close_inv pending_inv resumed_inv
      complete_inv stream_state_inv api_step_inv)

lemma run_inv: "ft_run env ft0 ft \<Longrightarrow> ft_inv ft0 \<Longrightarrow> ft_inv ft"
proof (induction rule: ft_run.induct)
  case (ft_next ft inp ft')
  then show ?case using step_inv [of ft inp] by (simp add: post_def)
qed

end

section \<open>Users that call back\<close>

text \<open>
  A user that, from each of its functions, calls functions of the transfer: \<open>plan\<close> gives the calls. Ending the transfer from the
  function for the state is provided for (the event holds a reference); from another function it releases the transfer while
  the event is being handled, and the model stops there. The calls are made in the environment \<open>env\<close>, which may have such a user again, so
  that users call back to any depth.
\<close>

definition api_call :: "ft_env \<Rightarrow> ft_call \<Rightarrow> ElaFileTransfer \<Rightarrow> ft_api \<Rightarrow> ElaFileTransfer res" where
  "api_call env c ft a = (if a = InFinish \<and> (\<forall>st. c \<noteq> CallState st) then Inl BadPointer else api_step env ft a)"

fun api_calls :: "ft_env \<Rightarrow> ft_call \<Rightarrow> ElaFileTransfer \<Rightarrow> ft_api list \<Rightarrow> ElaFileTransfer res" where
  "api_calls env c ft [] = Inr ft"
| "api_calls env c ft (a # as) = bindr (api_call env c ft a) (\<lambda>ft. api_calls env c ft as)"

definition calling_env :: "ft_env \<Rightarrow> (ft_call \<Rightarrow> ElaFileTransfer \<Rightarrow> bool \<times> ft_api list) \<Rightarrow> ft_env" where
  "calling_env env plan = env\<lparr> fe_user := (\<lambda>c. Some (\<lambda>ft. bindr (api_calls env c ft (snd (plan c ft))) (\<lambda>ft'. Inr (fst (plan c ft), ft')))) \<rparr>"

text \<open>Users that call back to a given depth; the innermost ones do not call.\<close>

fun nested_env :: "ft_env \<Rightarrow> (ft_call \<Rightarrow> ElaFileTransfer \<Rightarrow> bool \<times> ft_api list) list \<Rightarrow> ft_env" where
  "nested_env env [] = calling_env env (\<lambda>c ft. (True, []))"
| "nested_env env (plan # plans) = calling_env (nested_env env plans) plan"

context ft_users
begin

lemma state_closed_keeps: "ft_inv ft \<Longrightarrow> post (ft_keeps ft) (notify_state_changed env ft st)"
  using tell_keeps [of "ft\<lparr> ft_state := st \<rparr>"] ft_keeps_files [of "ft\<lparr> ft_state := st \<rparr>" ft]
  by (auto simp: notify_state_changed_def ft_keeps_refl)

lemma removed_keeps: "ft_inv ft \<Longrightarrow> post (ft_keeps ft) (remove_stream env ft stream)"
  using state_closed_keeps [of "ft_say ft (EvRemoveStream stream)"] ft_keeps_files [of "ft_say ft (EvRemoveStream stream)" ft]
  by (auto simp: remove_stream_def Let_def stream_state_changed_def sender_state_changed_def receiver_state_changed_def say_keeps
      split: ft_side.split)

lemma finish_keeps:
  assumes "ft_inv ft"
  shows "post (ft_keeps ft) (ela_filetransfer_close env ft)"
proof -
  have k [simp]: "ft_keeps ft (y\<lparr> ft_stream := n \<rparr>) = ft_keeps ft y" "ft_keeps ft (y\<lparr> ft_state := st \<rparr>) = ft_keeps ft y"
    "ft_keeps ft (y\<lparr> ft_session := b \<rparr>) = ft_keeps ft y" "ft_keeps ft (ft_say y e) = ft_keeps ft y" for y n st b e
    by (simp_all add: ft_keeps_def ft_inv_def)
  have r: "post (ft_keeps ft) (remove_stream env x stream)" "ft_keeps ft x" if "ft_files x = ft_files ft" for x stream
    using removed_keeps [of x stream] assms that ft_inv_cong [OF that] ft_keeps_files [OF that] ft_keeps_cong [OF assms that] by simp_all
  have fin: "post (ft_keeps ft) (bindr (if ft_stream x > 0 then bindr (remove_stream env x (ft_stream x)) (\<lambda>ft. Inr (ft\<lparr> ft_stream := -1 \<rparr>)) else Inr x) (\<lambda>ft.
     Inr ((if ft_session ft then (ft_say ft EvCloseSession)\<lparr> ft_session := False \<rparr> else ft)\<lparr> ft_state := FileTransferConnection_closed \<rparr>)))"
    if "ft_files x = ft_files ft" for x
    using r [OF that] post_mono [OF r(1) [OF that]] by auto
  show ?thesis
    using fin [OF refl] fin [of "ft_say (ft\<lparr> ft_filereqs := (ft_filereqs ft)(ft_address ft := None) \<rparr>)
        (EvReply bundle_prefix (-1) (Some ''Refuse filetransfer connection''))"]
    by (cases "ft_filereqs ft (ft_address ft)"; cases "ft_stream ft = -1") (simp_all add: ela_filetransfer_close_def)
qed

lemma api_step_keeps:
  assumes "ft_inv ft"
  shows "post (ft_keeps ft) (api_step env ft a)"
proof -
  have connect: "post (\<lambda>(b, ft'). ft_keeps ft ft') (ela_filetransfer_connect env ft)"
    "post (\<lambda>(b, ft'). ft_keeps ft ft') (ela_filetransfer_accept_connect env ft)"
    using assms by (auto simp: ela_filetransfer_connect_def ela_filetransfer_accept_connect_def ft_fail_def Let_def
        intro: ft_keeps_cong split: option.split)
  then show ?thesis
    using assms channels finish_keeps [OF assms]
    by (cases a) (auto simp: api_step_def intro!: drop_result_post add_keeps pull_keeps send_keeps cancel_keeps pend_keeps resume_keeps)
qed

lemma api_calls_keep: "ft_inv ft \<Longrightarrow> post (ft_keeps ft) (api_calls env c ft as)"
proof (induction "as" arbitrary: ft)
  case (Cons a as)
  have "post (ft_keeps ft) (api_calls env c ft' as)" if "ft_keeps ft ft'" for ft'
    by (rule post_mono [OF Cons.IH]) (use that Cons.prems in \<open>auto intro: ft_keeps_inv ft_keeps_trans\<close>)
  then show ?case using post_mono [OF api_step_keeps [OF Cons.prems]] by (simp add: api_call_def)
qed (simp add: ft_keeps_refl)

lemma calling_users: "ft_users (calling_env env plan)"
proof
  fix c f ft assume "fe_user (calling_env env plan) c = Some f" "ft_inv ft"
  then show "post (\<lambda>(b, ft'). ft_keeps ft ft') (f ft)"
    using post_mono [OF api_calls_keep] by (auto simp: calling_env_def)
next
  show "fresh_channels (calling_env env plan)" using channels by (simp add: fresh_channels_def calling_env_def)
qed

end

lemma silent_users: "fresh_channels env \<Longrightarrow> ft_users (calling_env env (\<lambda>c ft. (True, [])))"
  by unfold_locales (auto simp: calling_env_def fresh_channels_def ft_keeps_refl)

lemma nested_users: "fresh_channels env \<Longrightarrow> ft_users (nested_env env plans)"
  by (induction plans) (auto intro: silent_users ft_users.calling_users)

text \<open>A session that numbers its channels upwards.\<close>

definition next_channel :: "ElaFileTransfer \<Rightarrow> int" where
  "next_channel ft = 1 + foldr (\<lambda>item m. max m (fi_channel item)) (ft_files ft) 0"

lemma next_channel_new: "new_channel ft (next_channel ft)"
proof -
  have "list_all (\<lambda>item. fi_channel item \<le> foldr (\<lambda>item m. max m (fi_channel item)) items 0) items \<and>
      0 \<le> foldr (\<lambda>item m. max m (fi_channel item)) items 0" for items
    by (induction items) (auto simp: list_all_iff)
  from this [of "ft_files ft"] show ?thesis by (auto simp: new_channel_def next_channel_def list_all_iff)
qed

interpretation model_ft: ft_users "nested_env (env\<lparr> fe_open_channel := next_channel \<rparr>) plans"
  for env :: ft_env and plans :: "(ft_call \<Rightarrow> ElaFileTransfer \<Rightarrow> bool \<times> ft_api list) list"
  by (rule nested_users) (simp add: fresh_channels_def next_channel_new)

lemma new_inv: "ela_filetransfer_new env allocated reqs address info = Inr (Inr ft) \<Longrightarrow> ft_inv ft"
  by (auto simp: ela_filetransfer_new_def ft_inv_def in_use_def blank_item_def ft_consts less_Suc_eq_0_disj nth_Cons' Let_def
      split: if_splits option.splits)

lemma transfering_found:
  assumes "ft_inv ft" "j < length (ft_files ft)" "fi_state (ft_files ft ! j) = FileTransferState_transfering"
  shows "fi_channel (ft_files ft ! j) > 0" "get_fileinfo_channel ft (fi_channel (ft_files ft ! j)) = Some j"
proof -
  have "in_use (ft_files ft ! j)" using assms(3) by (simp add: in_use_def)
  then have "fi_channel (ft_files ft ! j) > 0 \<and> (\<forall>m<j. fi_channel (ft_files ft ! m) \<noteq> fi_channel (ft_files ft ! j))"
    using assms unfolding ft_inv_def by blast
  then show "fi_channel (ft_files ft ! j) > 0" "get_fileinfo_channel ft (fi_channel (ft_files ft ! j)) = Some j"
    using assms(2) by (simp_all add: get_fileinfo_channel_def find_item_Some) metis
qed

text \<open>
  C16. Files do not get in each other's way, as long as no channel is opened for a known file on a number that a slot still holds. Take a
  transfer that \<open>ela_filetransfer_new\<close> made, with a session that gives new channels numbers that no file in use has, and users that, from
  their functions, call back into the transfer to any depth (ending the transfer from the function for the state only). Consider any run of calls
  and events in which channels have positive numbers and each channel that the peer opens satisfies \<open>open_ok\<close>, and in which every step returns. Then
  a file that is being transferred has a channel, and the channel finds this file, whatever files have come and gone in other slots; data
  that arrives on the channel is given to the user under the id of this file; and sending does not fail an assertion.
\<close>

theorem ft_files_separate:
  assumes "fresh_channels env" "ela_filetransfer_new env0 allocated reqs address info = Inr (Inr ft0)"
    "ft_run (nested_env env plans) ft0 ft" "j < length (ft_files ft)" "fi_state (ft_files ft ! j) = FileTransferState_transfering"
  shows "fi_channel (ft_files ft ! j) > 0 \<and> get_fileinfo_channel ft (fi_channel (ft_files ft ! j)) = Some j \<and>
    (linked ft RECEIVER \<longrightarrow> stream_channel_data (nested_env env plans) ft (ft_stream ft) (fi_channel (ft_files ft ! j)) data =
       ft_user (nested_env env plans) ft (CallData (fi_fileid (ft_files ft ! j)) (if data = [] then None else Some data))) \<and>
    (linked ft SENDER \<longrightarrow> (\<exists>rc ft'. ela_filetransfer_send env ft (fi_fileid (ft_files ft ! j)) data = Inr (rc, ft')))"
proof -
  have inv: "ft_inv ft" by (rule ft_users.run_inv [OF nested_users [OF assms(1)] assms(3) new_inv [OF assms(2)]])
  note f = transfering_found [OF inv assms(4,5)]
  have "\<exists>rc ft'. ela_filetransfer_send env ft (fi_fileid (ft_files ft ! j)) data = Inr (rc, ft')" if "linked ft SENDER"
    using that found_bounds(2) [of ft] transfering_found(1) [OF inv]
    by (auto simp: ela_filetransfer_send_def ft_fail_def item_asserts_def linked_def Let_def split: option.split)
  then show ?thesis using f assms(5) by (auto simp: stream_channel_data_def channel_asserts_def linked_def)
qed

text \<open>
  C35. Why the run above needs its assumption: a released slot hides a file. A connected receiver, whose session accepts what is written, has a file in slot \<open>i\<close> on a channel, and a file that is
  waiting in a later slot \<open>j\<close>. The first channel is closed, and the peer offers the second file once more, on a channel with the freed number, which
  the multiplexer may give. The receiver accepts the channel and the user can pull the file from any offset below its size, but all data that arrives is dropped without a word: the
  number is found in slot \<open>i\<close>, which is not in use and still holds it (\<open>stream_channel_close\<close> does not reset it).
\<close>

theorem stale_number_hides_file:
  assumes "linked r RECEIVER" "get_fileinfo_channel r channel = Some i" "channel > 0"
    "get_fileinfo_fileid r fileid = Some j" "i < j" "fi_state (ft_files r ! j) = FileTransferState_standby" "fileid \<noteq> []"
    "scan_cookie c = Some (bundle_prefix, n, fileid, fi_filesz (ft_files r ! j))" "offset < fi_filesz (ft_files r ! j)"
    "\<And>ft. fe_write_channel env ft \<ge> 0"
  shows "\<exists>r1 r2 r3. stream_channel_close r (ft_stream r) channel = Inr r1 \<and>
    stream_channel_open env r1 (ft_stream r1) channel (Some c) = Inr (True, r2) \<and>
    ela_filetransfer_pull env r2 fileid offset = Inr (0, r3) \<and>
    fi_state (ft_files r3 ! j) = FileTransferState_transfering \<and> fi_channel (ft_files r3 ! j) = channel \<and>
    (\<forall>data. stream_channel_data env r3 (ft_stream r3) channel data = Inr (True, r3))"
proof -
  let ?g = "\<lambda>item. filename_safe_free (item\<lparr> fi_state := FileTransferState_none \<rparr>)"
  let ?i = "ft_files r ! i" and ?j = "ft_files r ! j"
  have i: "i < length (ft_files r)" "channel = fi_channel ?i" "\<forall>m<i. channel \<noteq> fi_channel (ft_files r ! m)"
    and j: "j < length (ft_files r)" "fileid = fi_fileid ?j" "\<forall>m<j. fileid \<noteq> fi_fileid (ft_files r ! m)"
    using assms(2,4) by (auto simp: get_fileinfo_channel_def get_fileinfo_fileid_def find_item_Some)
  let ?r1 = "upd_item r i ?g"
  let ?r2 = "upd_item ?r1 j (\<lambda>item. item\<lparr> fi_channel := channel \<rparr>)"
  have u [simp]: "ft_session (upd_item x m f) = ft_session x" "ft_state (upd_item x m f) = ft_state x"
    "ft_sender_receiver (upd_item x m f) = ft_sender_receiver x" for x m f
    by (simp_all add: upd_item_def)
  have close: "stream_channel_close r (ft_stream r) channel = Inr ?r1"
    using assms(1,2) by (simp add: stream_channel_close_def channel_asserts_def linked_def)
  have byid: "get_fileinfo_fileid ?r1 fileid = Some j" "get_fileinfo_fileid ?r2 fileid = Some j"
    using i j assms(5) by (auto simp: get_fileinfo_fileid_def find_item_Some nth_list_update filename_safe_free_def)
  have off: "\<not> fi_filesz ?j \<le> offset" using assms(9) by (simp add: not_le)
  have st: "ft_files ?r1 ! j = ?j" using assms(5) by simp
  have "stream_channel_open env ?r1 (ft_stream ?r1) channel (Some c) = Inr (True, ?r2)"
    using assms(1,6,8) byid(1) st by (simp add: stream_channel_open_def channel_asserts_def linked_def)
  note opened = this
  define r3 where "r3 = upd_item (ft_say ?r2 (EvWriteChannel channel (pull_packet (fe_junk env) offset))) j
     (\<lambda>item. item\<lparr> fi_state := FileTransferState_transfering \<rparr>)"
  have pull: "ela_filetransfer_pull env ?r2 fileid offset = Inr (0, r3)"
    using assms(1,3,6,7) assms(10) [of ?r2] byid(2) j(1) st off
    by (simp add: ela_filetransfer_pull_def linked_def item_asserts_def Let_def r3_def)
  have item: "ft_files r3 ! j = ?j\<lparr> fi_channel := channel, fi_state := FileTransferState_transfering \<rparr>"
    "ft_files r3 ! i = ?g ?i" "length (ft_files r3) = length (ft_files r)"
    "\<And>m. m < i \<Longrightarrow> ft_files r3 ! m = ft_files r ! m"
    using i(1) j(1) assms(5) by (auto simp: r3_def)
  have "get_fileinfo_channel r3 channel = Some i"
    using i item by (auto simp: get_fileinfo_channel_def find_item_Some filename_safe_free_def)
  moreover have "linked r3 RECEIVER" using assms(1) by (simp add: r3_def)
  ultimately have "stream_channel_data env r3 (ft_stream r3) channel data = Inr (True, r3)" for data
    using item(2) by (simp add: stream_channel_data_def channel_asserts_def linked_def filename_safe_free_def)
  with close opened pull item(1) show ?thesis by auto
qed

definition demo_two_files :: ElaFileTransfer where
  "demo_two_files = (demo_ft RECEIVER)\<lparr> ft_files := [
     blank_item\<lparr> fi_fileid := ''id1'', fi_filename := Some ''a'', fi_filesz := 3, fi_state := FileTransferState_transfering, fi_channel := 1 \<rparr>,
     blank_item\<lparr> fi_fileid := ''id2'', fi_filename := Some ''b'', fi_filesz := 5, fi_state := FileTransferState_standby, fi_channel := 2 \<rparr>,
     blank_item, blank_item, blank_item] \<rparr>"

theorem stale_number_hides_file_witness:
  "\<exists>c r1 r2 r3. stream_channel_close demo_two_files 1 1 = Inr r1 \<and>
    stream_channel_open (demo_ftenv 1) r1 (ft_stream r1) 1 (Some c) = Inr (True, r2) \<and>
    ela_filetransfer_pull (demo_ftenv 1) r2 ''id2'' 0 = Inr (0, r3) \<and>
    fi_state (ft_files r3 ! 1) = FileTransferState_transfering \<and> fi_channel (ft_files r3 ! 1) = 1 \<and>
    (\<forall>data. stream_channel_data (demo_ftenv 1) r3 (ft_stream r3) 1 data = Inr (True, r3))"
proof -
  have "plain_word 255 ''b''" "plain_word 45 ''id2''" by (simp_all add: plain_word_def is_space_def)
  then obtain c where c: "scan_cookie c = Some (bundle_prefix, ''b'', ''id2'', 5)" using cookie_read_back by metis
  have d: "linked demo_two_files RECEIVER" "get_fileinfo_channel demo_two_files 1 = Some 0" "get_fileinfo_fileid demo_two_files ''id2'' = Some 1"
      "ft_stream demo_two_files = 1" "fi_state (ft_files demo_two_files ! 1) = FileTransferState_standby"
      "fi_filesz (ft_files demo_two_files ! 1) = 5"
    by (simp_all add: demo_two_files_def linked_def demo_ft_def get_fileinfo_channel_def get_fileinfo_fileid_def)
  show ?thesis
    using stale_number_hides_file [OF d(1,2) _ d(3), of c "''b''" 0 "demo_ftenv 1"] c d by (simp add: demo_ftenv_def) blast
qed

text \<open>An example: a sender whose file is pulled.\<close>

fun ft_steps :: "ft_env \<Rightarrow> ElaFileTransfer \<Rightarrow> ft_input list \<Rightarrow> ElaFileTransfer res" where
  "ft_steps env ft [] = Inr ft"
| "ft_steps env ft (inp # inps) = bindr (g_assert (ft_input_ok ft inp)) (\<lambda>_. bindr (ft_step env ft inp) (\<lambda>ft. ft_steps env ft inps))"

lemma ft_steps_run: "ft_steps env ft inps = Inr ft' \<Longrightarrow> ft_run env ft0 ft \<Longrightarrow> ft_run env ft0 ft'"
proof (induction inps arbitrary: ft)
  case (Cons inp inps)
  then obtain ft1 where "ft_input_ok ft inp" "ft_step env ft inp = Inr ft1" "ft_steps env ft1 inps = Inr ft'" by auto
  then show ?case using Cons.IH [of ft1] ft_next [OF Cons.prems(2)] by blast
qed simp

definition demo_session_env :: ft_env where
  "demo_session_env = (demo_ftenv 1)\<lparr> fe_open_channel := next_channel \<rparr>"

definition demo_new :: ElaFileTransfer where
  "demo_new = (demo_ft NOBODY)\<lparr> ft_files := \<lparr> fi_fileid = ''id1'', fi_filename = Some ''song.mp3'', fi_filesz = 9, fi_userdata = 0,
     fi_state = FileTransferState_standby, fi_channel = -1 \<rparr> # [blank_item, blank_item, blank_item, blank_item], ft_stream := -1,
     ft_state := FileTransferConnection_initialized, ft_ready_to_connect := False \<rparr>"

lemma replicate_4: "replicate 4 x = [x, x, x, x]"
  by (simp add: numeral_nat)

lemma demo_new_eq:
  "ela_filetransfer_new demo_session_env True Map.empty ''bob''
     (Some \<lparr> ft_info_filename = ''song.mp3'', ft_info_fileid = ''id1'', ft_info_size = 9, ft_info_userdata = 0 \<rparr>) = Inr (Inr demo_new)"
  by (simp add: replicate_4 ela_filetransfer_new_def demo_session_env_def demo_ftenv_def bad_info_def info_fileid_def base_name_def strip_slashes_def
      copy_str_def invite_consts ft_consts demo_new_def demo_ft_def)

lemma demo_cookie: "file_cookie (Some ''song.mp3'') ''id1'' 9 = Inr (''filetransfer song.mp3 id1 '' @ decimal 9)"
  by (simp add: file_cookie_def copy_str_def bundle_prefix_def decimal.simps)

lemmas demo_defs = ft_step_def ft_input_ok_def drop_result_def ela_filetransfer_connect_def stream_state_changed_def sender_state_changed_def
  notify_state_changed_def ft_tell_def ft_user_def nested_env.simps api_step_def calling_env_def ft_ended_def file0_def upd_item_def ft_say_def demo_session_env_def demo_ftenv_def
  Let_def demo_new_def demo_ft_def next_channel_def blank_item_def stream_channel_data_def channel_asserts_def get_fileinfo_channel_def
  sender_packet_def demo_cookie filename_safe_free_def

lemma demo_ft_steps:
  "\<exists>ft. ft_steps (nested_env demo_session_env []) demo_new
     [InCall InConnect, InState ElaStreamState_initialized, InState ElaStreamState_connected, InData 1 (pull_packet 0 3)] = Inr ft \<and>
     0 < length (ft_files ft) \<and> fi_state (ft_files ft ! 0) = FileTransferState_transfering"
  using pull_packet_read [of 0 3] by (simp add: demo_defs)

lemma ft_files_separate_witness:
  "\<exists>ft. fi_state (ft_files ft ! 0) = FileTransferState_transfering \<and> fi_channel (ft_files ft ! 0) > 0 \<and>
     get_fileinfo_channel ft (fi_channel (ft_files ft ! 0)) = Some 0"
proof -
  obtain ft where ft: "ft_steps (nested_env demo_session_env []) demo_new
      [InCall InConnect, InState ElaStreamState_initialized, InState ElaStreamState_connected, InData 1 (pull_packet 0 3)] = Inr ft"
      "0 < length (ft_files ft)" "fi_state (ft_files ft ! 0) = FileTransferState_transfering"
    using demo_ft_steps by blast
  have "fresh_channels demo_session_env" by (simp add: fresh_channels_def demo_session_env_def next_channel_new)
  then show ?thesis
    using ft_files_separate [OF _ demo_new_eq ft_steps_run [OF ft(1) ft_start] ft(2,3)] ft(3) by blast
qed

end
