(* ===== verification/Persist.thy ===== *)
theory Persist
  imports Invite
begin

text \<open>
  The files of a node, from \<open>src/carrier/ela_carrier.c\<close>: \<open>store_persistence_data\<close> writes the data of the tox library and the labels of
  the friends to a journal, which then replaces the data file; \<open>load_persistence_data\<close> reads the journal if it is complete and the data
  file otherwise; files of an older version are converted. Also the check of an address.

  Parameters (\<open>os_lib\<close>): the system calls and the hash function of libcrystal. Each call may fail. A path is the name as it is written.
  A \<open>disk\<close> remembers all the states that the files went through, since the program may be stopped in each of them; a write leaves any
  prefix of its bytes. Numbers of the old format have the byte order of the host, little endian here.
\<close>

section \<open>Friends\<close>

definition ELA_MAX_ADDRESS_LEN :: nat where "ELA_MAX_ADDRESS_LEN = 52"
definition DHT_ADDRESS_SIZE :: nat where "DHT_ADDRESS_SIZE = 32 + 4 + 2"

datatype ElaConnectionStatus = ElaConnectionStatus_Connected | ElaConnectionStatus_Disconnected

datatype ElaPresenceStatus = ElaPresenceStatus_None | ElaPresenceStatus_Away | ElaPresenceStatus_Busy

record ElaUserInfo =
  eu_userid :: string
  eu_name :: string
  eu_description :: string
  eu_has_avatar :: bool
  eu_gender :: string
  eu_phone :: string
  eu_email :: string
  eu_region :: string

record ElaFriendInfo =
  ef_user_info :: ElaUserInfo
  ef_label :: string
  ef_status :: ElaConnectionStatus
  ef_presence :: ElaPresenceStatus

text \<open>\<open>fi_refs\<close> counts the references besides that of the table.\<close>

record FriendInfo =
  fi_friend_number :: u32
  fi_info :: ElaFriendInfo
  fi_refs :: nat

text \<open>The table of friends, in the order in which an iterator visits it.\<close>

type_synonym friends = "(u32 \<times> FriendInfo) list"

definition set_label :: "FriendInfo \<Rightarrow> string \<Rightarrow> FriendInfo" where
  "set_label fi l = fi\<lparr> fi_info := (fi_info fi)\<lparr> ef_label := l \<rparr> \<rparr>"

section \<open>Addresses\<close>

text \<open>The two bytes of the checksum; they are compared in the order of memory.\<close>

fun checksum_loop :: "nat \<Rightarrow> byte list \<Rightarrow> byte \<times> byte \<Rightarrow> byte \<times> byte" where
  "checksum_loop i [] c = c"
| "checksum_loop i (b # bs) (c0, c1) = checksum_loop (i + 1) bs (if i mod 2 = 0 then (c0 XOR b, c1) else (c0, c1 XOR b))"

definition address_checksum :: "byte list \<Rightarrow> byte \<times> byte" where
  "address_checksum address = checksum_loop 0 address (0, 0)"

text \<open>The check of a decoded address.\<close>

definition address_ok :: "byte list option \<Rightarrow> bool" where
  "address_ok decoded = (case decoded of None \<Rightarrow> False
     | Some addr \<Rightarrow>
         if length addr \<noteq> DHT_ADDRESS_SIZE then False
         else address_checksum (take (DHT_ADDRESS_SIZE - 2) addr) =
           (addr ! (DHT_PUBLIC_KEY_SIZE + 4), addr ! (DHT_PUBLIC_KEY_SIZE + 5)))"

definition is_valid_address :: "carrier_env \<Rightarrow> string \<Rightarrow> bool" where
  "is_valid_address env address = address_ok (ce_base58_decode env address)"

text \<open>The functions on ids and addresses set an error for an empty argument; their result goes with the error, if any.\<close>

definition ela_id_is_valid :: "carrier_env \<Rightarrow> string \<Rightarrow> bool \<times> u32 option" where
  "ela_id_is_valid env userid =
     (if userid = [] then (False, Some (ELA_GENERAL_ERROR ELAERR_INVALID_ARGS)) else (is_valid_key env userid, None))"

definition ela_address_is_valid :: "carrier_env \<Rightarrow> string \<Rightarrow> bool \<times> u32 option" where
  "ela_address_is_valid env address =
     (if address = [] then (False, Some (ELA_GENERAL_ERROR ELAERR_INVALID_ARGS)) else (is_valid_address env address, None))"

text \<open>\<open>encode\<close> is \<open>base58_encode\<close> with the size of the buffer; \<open>len\<close> is the size of the buffer of the caller.\<close>

definition ela_get_id_by_address ::
    "carrier_env \<Rightarrow> (byte list \<Rightarrow> nat \<Rightarrow> string option) \<Rightarrow> string \<Rightarrow> nat \<Rightarrow> string option \<times> u32 option" where
  "ela_get_id_by_address env encode address len =
     (if len \<le> ELA_MAX_ID_LEN then (None, Some (ELA_GENERAL_ERROR ELAERR_INVALID_ARGS))
      else case ce_base58_decode env address of None \<Rightarrow> (None, Some (ELA_GENERAL_ERROR ELAERR_INVALID_ARGS))
      | Some addr \<Rightarrow>
          if length addr \<noteq> DHT_ADDRESS_SIZE then (None, Some (ELA_GENERAL_ERROR ELAERR_INVALID_ARGS))
          else (case encode (take DHT_PUBLIC_KEY_SIZE addr) (ELA_MAX_ID_LEN + 1) of
              None \<Rightarrow> (None, Some (ELA_GENERAL_ERROR ELAERR_INVALID_ARGS))
            | Some userid \<Rightarrow> (Some userid, None)))"

section \<open>Files\<close>

datatype fnode = Dir | File "byte list"

type_synonym fs = "string \<rightharpoonup> fnode"

record os_lib =
  os_mkdir :: "fs \<Rightarrow> string \<Rightarrow> u32"
  os_create :: "fs \<Rightarrow> string \<Rightarrow> bool"
  os_open :: "fs \<Rightarrow> string \<Rightarrow> bool"
  os_read :: "fs \<Rightarrow> string \<Rightarrow> nat \<Rightarrow> nat \<Rightarrow> bool"
  os_write :: "fs \<Rightarrow> string \<Rightarrow> byte list \<Rightarrow> nat"
  os_fsync :: "fs \<Rightarrow> string \<Rightarrow> bool"
  os_remove :: "fs \<Rightarrow> string \<Rightarrow> bool"
  os_rename :: "fs \<Rightarrow> string \<Rightarrow> string \<Rightarrow> bool"
  os_errno :: "fs \<Rightarrow> u32"
  os_alloc :: "fs \<Rightarrow> bool"
  os_sha256 :: "byte list \<Rightarrow> byte list"

record disk =
  d_fs :: fs
  d_past :: "fs list"

definition disk_of :: "fs \<Rightarrow> disk" where "disk_of f = \<lparr> d_fs = f, d_past = [] \<rparr>"

definition disk_states :: "disk \<Rightarrow> fs list" where "disk_states d = d_past d @ [d_fs d]"

definition disk_step :: "disk \<Rightarrow> fs \<Rightarrow> disk" where
  "disk_step d f = \<lparr> d_fs = f, d_past = d_past d @ [d_fs d] \<rparr>"

definition disk_write :: "disk \<Rightarrow> string \<Rightarrow> byte list \<Rightarrow> nat \<Rightarrow> disk" where
  "disk_write d path bs n =
     \<lparr> d_fs = (d_fs d)(path \<mapsto> File (take n bs)),
       d_past = disk_states d @ map (\<lambda>k. (d_fs d)(path \<mapsto> File (take k bs))) [0..<n] \<rparr>"

definition disk_remove :: "os_lib \<Rightarrow> string \<Rightarrow> disk \<Rightarrow> disk" where
  "disk_remove os path d = (if os_remove os (d_fs d) path then disk_step d ((d_fs d)(path := None)) else d)"

definition disk_rename :: "os_lib \<Rightarrow> string \<Rightarrow> string \<Rightarrow> disk \<Rightarrow> disk" where
  "disk_rename os old new d = (case d_fs d old of None \<Rightarrow> d
     | Some n \<Rightarrow> if os_rename os (d_fs d) old new then disk_step d ((d_fs d)(old := None, new \<mapsto> n)) else d)"

text \<open>\<open>access\<close> for reading, and \<open>read\<close> of \<open>n\<close> bytes at a position; \<open>None\<close> when there are not as many.\<close>

definition accessible :: "os_lib \<Rightarrow> fs \<Rightarrow> string \<Rightarrow> bool" where
  "accessible os f path \<longleftrightarrow> f path \<noteq> None \<and> os_open os f path"

definition file_read :: "os_lib \<Rightarrow> fs \<Rightarrow> string \<Rightarrow> nat \<Rightarrow> nat \<Rightarrow> byte list option" where
  "file_read os f path pos n = (case f path of
     Some (File c) \<Rightarrow> if os_read os f path pos n \<and> pos + n \<le> length c then Some (take n (drop pos c)) else None
   | _ \<Rightarrow> None)"

definition bytes_u32 :: "byte list \<Rightarrow> u32" where
  "bytes_u32 bs = ntohl_bytes (bs ! 0) (bs ! 1) (bs ! 2) (bs ! 3)"

definition read_u32 :: "os_lib \<Rightarrow> fs \<Rightarrow> string \<Rightarrow> nat \<Rightarrow> u32 option" where
  "read_u32 os f path pos = map_option bytes_u32 (file_read os f path pos 4)"

text \<open>\<open>strlen\<close> and the string at a position of a block.\<close>

definition read_c_string :: "byte list \<Rightarrow> nat \<Rightarrow> byte list res" where
  "read_c_string block pos =
     (if 0 \<in> set (drop pos block) then Inr (takeWhile (\<lambda>b. b \<noteq> 0) (drop pos block)) else Inl OutOfBounds)"

definition string_of :: "byte list \<Rightarrow> string" where
  "string_of bs = map (\<lambda>b. char_of (unat b)) bs"

section \<open>Directories\<close>

definition PATH_MAX :: nat where "PATH_MAX = 4096"
definition EEXIST :: u32 where "EEXIST = 17"

definition mkdir_internal :: "os_lib \<Rightarrow> string \<Rightarrow> disk \<Rightarrow> bool \<times> disk" where
  "mkdir_internal os path d = (case d_fs d path of
     None \<Rightarrow>
       (let err = os_mkdir os (d_fs d) path in
        if err = 0 then (True, disk_step d ((d_fs d)(path \<mapsto> Dir))) else (err = EEXIST, d))
   | Some Dir \<Rightarrow> (True, d)
   | Some (File _) \<Rightarrow> (False, d))"

text \<open>\<open>pre\<close> is \<open>copypath\<close> up to \<open>pp\<close>, and \<open>rest\<close> what follows.\<close>

function mkdirs_loop :: "os_lib \<Rightarrow> string \<Rightarrow> string \<Rightarrow> disk \<Rightarrow> bool \<times> disk" where
  "mkdirs_loop os pre rest d = (case dropWhile (\<lambda>c. c \<noteq> CHR ''/'') rest of
     [] \<Rightarrow> (True, d)
   | _ # rest' \<Rightarrow>
       (let seg = takeWhile (\<lambda>c. c \<noteq> CHR ''/'') rest;
            (ok, d) = (if seg \<noteq> [] then mkdir_internal os (pre @ seg) d else (True, d)) in
        if ok then mkdirs_loop os (pre @ seg @ ''/'') rest' d else (False, d)))"
  by pat_completeness auto

termination
proof (relation "measure (\<lambda>(_, _, rest, _). length rest)", goal_cases)
  case (2 os pre rest d c rest')
  then show ?case using length_dropWhile_le [of "\<lambda>c. c \<noteq> CHR ''/''" rest] by simp
qed simp

declare mkdirs_loop.simps [simp del]

definition mkdirs :: "os_lib \<Rightarrow> string \<Rightarrow> disk \<Rightarrow> bool \<times> disk" where
  "mkdirs os path d =
     (let (ok, d) = mkdirs_loop os [] (take (PATH_MAX - 1) path) d in
      if ok then mkdir_internal os path d else (False, d))"

section \<open>Labels\<close>

fun extra_size_loop :: "friends \<Rightarrow> nat \<Rightarrow> nat" where
  "extra_size_loop [] total_len = total_len"
| "extra_size_loop ((_, fi) # it) total_len =
     (let label_len = length (ef_label (fi_info fi)) in
      extra_size_loop it (if label_len \<noteq> 0 then total_len + (4 + label_len + 1) else total_len))"

definition get_extra_savedata_size :: "friends \<Rightarrow> nat" where
  "get_extra_savedata_size fr = extra_size_loop fr 0"

fun extra_savedata_loop :: "friends \<Rightarrow> byte list \<Rightarrow> nat \<Rightarrow> nat \<Rightarrow> byte list res" where
  "extra_savedata_loop [] block pos len = Inr block"
| "extra_savedata_loop ((_, fi) # it) block pos len =
     (if len = 0 then Inr block
      else
        (let label = ef_label (fi_info fi); label_len = length label in
         if label_len \<noteq> 0 then
           if len < 4 + label_len + 1 then Inr block
           else
             bindr (copy_bytes block pos (htonl_bytes (fi_friend_number fi))) (\<lambda>block.
             bindr (copy_bytes block (pos + 4) (cstring label)) (\<lambda>block.
             extra_savedata_loop it block (pos + 4 + (label_len + 1)) (len - (4 + label_len + 1))))
         else extra_savedata_loop it block pos len))"

text \<open>The block that the code writes to is the one of the file, from \<open>pos\<close> on.\<close>

definition get_extra_savedata :: "friends \<Rightarrow> byte list \<Rightarrow> nat \<Rightarrow> nat \<Rightarrow> byte list res" where
  "get_extra_savedata fr block pos len = extra_savedata_loop fr block pos len"

text \<open>
  The loop ends at an empty label or when the length, which is unsigned, gets to 0. A label of a friend that is not
  in the table is skipped.
\<close>

function apply_extra_loop :: "friends \<Rightarrow> byte list \<Rightarrow> nat \<Rightarrow> u64 \<Rightarrow> friends res" where
  "apply_extra_loop fr block pos len =
     (if len = 0 then Inr fr
      else
        bindr (src_read block pos 4) (\<lambda>nb.
        bindr (read_c_string block (pos + 4)) (\<lambda>label.
        let friend_number = bytes_u32 nb; label_len = length label in
        if label_len = 0 then Inr fr
        else
          bindr (g_assert (friend_number \<noteq> -1)) (\<lambda>_.
          bindr (case map_of fr friend_number of None \<Rightarrow> Inr fr
            | Some fi \<Rightarrow> bindr (copy_str (ELA_MAX_USER_NAME_LEN + 1) (string_of label)) (\<lambda>l.
                Inr (AList.update friend_number (set_label fi l) fr))) (\<lambda>fr.
          apply_extra_loop fr block (pos + 4 + (label_len + 1)) (len - of_nat (4 + label_len + 1)))))))"
  by pat_completeness auto

termination
  by (relation "measure (\<lambda>(_, block, pos, _). length block - pos)") (auto simp: src_read_def split: if_splits)

declare apply_extra_loop.simps [simp del]

definition apply_extra_data :: "friends \<Rightarrow> byte list \<Rightarrow> u64 \<Rightarrow> friends res" where
  "apply_extra_data fr extra_savedata extra_savedata_len = apply_extra_loop fr extra_savedata 0 extra_savedata_len"

section \<open>Storing\<close>

definition PERSISTENCE_MAGIC :: u32 where "PERSISTENCE_MAGIC = 0x0E0C0D0A"
definition PERSISTENCE_REVISION :: u32 where "PERSISTENCE_REVISION = 2"
definition MAX_PERSISTENCE_SECTION_SIZE :: nat where "MAX_PERSISTENCE_SECTION_SIZE = 16 * 1024 * 1024"
definition PUBLIC_KEY_BYTES :: nat where "PUBLIC_KEY_BYTES = 32"
definition SHA256_BYTES :: nat where "SHA256_BYTES = 32"

definition ROUND256 :: "nat \<Rightarrow> nat" where "ROUND256 s = ((s + 64) div 256 + 1) * 256"

definition data_path :: "string \<Rightarrow> string" where "data_path loc = loc @ ''/'' @ ''carrier.data''"
definition journal_path :: "string \<Rightarrow> string" where "journal_path loc = loc @ ''/'' @ ''carrier.data'' @ ''.journal''"
definition old_dhtdata_path :: "string \<Rightarrow> string" where "old_dhtdata_path loc = loc @ ''/'' @ ''dhtdata''"
definition old_eladata_path :: "string \<Rightarrow> string" where "old_eladata_path loc = loc @ ''/'' @ ''eladata''"

text \<open>The first 16 bytes of the file, and the checksum of what follows the first 256.\<close>

definition persist_header :: "nat \<Rightarrow> nat \<Rightarrow> byte list" where
  "persist_header dht_data_len extra_data_len =
     htonl_bytes PERSISTENCE_MAGIC @ htonl_bytes PERSISTENCE_REVISION @
     htonl_bytes (of_nat dht_data_len) @ htonl_bytes (of_nat extra_data_len)"

definition put_checksum :: "os_lib \<Rightarrow> byte list \<Rightarrow> nat \<Rightarrow> byte list res" where
  "put_checksum os buf total_len = copy_bytes buf 16 (os_sha256 os (take (total_len - 256) (drop 256 buf)))"

text \<open>The journal is written and synchronised, or removed again. The result is an error code, or 0.\<close>

definition write_journal :: "os_lib \<Rightarrow> string \<Rightarrow> byte list \<Rightarrow> disk \<Rightarrow> u32 \<times> disk" where
  "write_journal os loc buf d =
     (let j = journal_path loc in
      if \<not> os_create os (d_fs d) j then (ELA_SYS_ERROR (os_errno os (d_fs d)), d)
      else
        (let d = disk_step d ((d_fs d)(j \<mapsto> File []));
             n = min (os_write os (d_fs d) j buf) (length buf);
             d = disk_write d j buf n in
         if n \<noteq> length buf then (ELA_SYS_ERROR (os_errno os (d_fs d)), disk_remove os j d)
         else if \<not> os_fsync os (d_fs d) j then (ELA_SYS_ERROR (os_errno os (d_fs d)), disk_remove os j d)
         else (0, d)))"

definition persist_buffer :: "os_lib \<Rightarrow> byte list \<Rightarrow> friends \<Rightarrow> byte list res" where
  "persist_buffer os dht_data fr =
     (let dht_data_len = length dht_data; extra_data_len = get_extra_savedata_size fr;
          total_len = 256 + ROUND256 dht_data_len + ROUND256 extra_data_len in
      bindr (copy_bytes (replicate total_len 0) 0 (persist_header dht_data_len extra_data_len)) (\<lambda>buf.
      bindr (copy_bytes buf 256 dht_data) (\<lambda>buf.
      bindr (get_extra_savedata fr buf (256 + ROUND256 dht_data_len) (ROUND256 extra_data_len)) (\<lambda>buf.
      put_checksum os buf total_len))))"

definition store_persistence_data :: "os_lib \<Rightarrow> string \<Rightarrow> byte list \<Rightarrow> friends \<Rightarrow> disk \<Rightarrow> (u32 \<times> disk) res" where
  "store_persistence_data os loc dht_data fr d =
     (if \<not> os_alloc os (d_fs d) then Inr (ELA_GENERAL_ERROR ELAERR_OUT_OF_MEMORY, d)
      else
        bindr (persist_buffer os dht_data fr) (\<lambda>buf.
        let (ok, d) = mkdirs os loc d in
        if \<not> ok then Inr (ELA_SYS_ERROR (os_errno os (d_fs d)), d)
        else
          (let (rc, d) = write_journal os loc buf d in
           if rc \<noteq> 0 then Inr (rc, d)
           else Inr (0, disk_rename os (journal_path loc) (data_path loc) (disk_remove os (data_path loc) d)))))"

section \<open>Files of the old version\<close>

text \<open>
  The labels are moved to the front of the block in place, without the empty ones; \<open>r\<close> and \<open>w\<close> are the pointers for reading and writing.
  \<open>htonl\<close> reverses the bytes of a number.
\<close>

fun convert_loop :: "nat \<Rightarrow> byte list \<Rightarrow> nat \<Rightarrow> nat \<Rightarrow> (byte list \<times> nat \<times> nat) res" where
  "convert_loop 0 block r w = Inr (block, r, w)"
| "convert_loop (Suc i) block r w =
     bindr (src_read block r 4) (\<lambda>idb.
     bindr (read_c_string block (r + 4)) (\<lambda>label.
     let label_len = length label in
     if label_len = 0 then convert_loop i block (r + 4 + 1) w
     else
       bindr (copy_bytes block w (rev idb)) (\<lambda>block.
       bindr (src_read block (r + 4) (label_len + 1)) (\<lambda>lb.
       bindr (copy_bytes block (w + 4) lb) (\<lambda>block.
       convert_loop i block (r + 4 + (label_len + 1)) (w + 4 + (label_len + 1)))))))"

declare convert_loop.simps [simp del]

text \<open>The labels of \<open>eladata\<close> in the block \<open>buf\<close>, from \<open>pos\<close> on, and their length; nothing when a call fails.\<close>

definition convert_extra :: "os_lib \<Rightarrow> fs \<Rightarrow> string \<Rightarrow> byte list \<Rightarrow> nat \<Rightarrow> nat \<Rightarrow> (byte list \<times> nat) res" where
  "convert_extra os f path buf pos extra_data_len =
     (if \<not> os_open os f path then Inr (buf, 0)
      else case file_read os f path PUBLIC_KEY_BYTES 4 of None \<Rightarrow> Inr (buf, 0)
      | Some vb \<Rightarrow>
          let val = bytes_u32 (rev vb) in
          if val = 0 then Inr (buf, extra_data_len)
          else case file_read os f path (PUBLIC_KEY_BYTES + 4) extra_data_len of None \<Rightarrow> Inr (buf, 0)
          | Some eb \<Rightarrow>
              bindr (copy_bytes buf pos eb) (\<lambda>buf.
              bindr (convert_loop (unat val) buf pos pos) (\<lambda>(buf, r, w).
              bindr (copy_bytes buf w (replicate (r - w) 0)) (\<lambda>buf. Inr (buf, w - pos)))))"

definition old_sizes :: "fs \<Rightarrow> string \<Rightarrow> (nat \<times> nat) option" where
  "old_sizes f loc = (case f (old_dhtdata_path loc) of
     Some (File c) \<Rightarrow>
       Some (length c, case f (old_eladata_path loc) of
         Some (File e) \<Rightarrow> if length e < PUBLIC_KEY_BYTES + 4 then 0 else length e - PUBLIC_KEY_BYTES - 4
       | _ \<Rightarrow> 0)
   | _ \<Rightarrow> None)"

definition convert_old_dhtdata :: "os_lib \<Rightarrow> string \<Rightarrow> disk \<Rightarrow> (u32 \<times> disk) res" where
  "convert_old_dhtdata os loc d = (case old_sizes (d_fs d) loc of
     None \<Rightarrow> Inr (ELA_SYS_ERROR (os_errno os (d_fs d)), d)
   | Some (dht_data_len, extra_data_len) \<Rightarrow>
       if \<not> os_alloc os (d_fs d) then Inr (ELA_GENERAL_ERROR ELAERR_OUT_OF_MEMORY, d)
       else if \<not> os_open os (d_fs d) (old_dhtdata_path loc) then Inr (ELA_SYS_ERROR (os_errno os (d_fs d)), d)
       else case file_read os (d_fs d) (old_dhtdata_path loc) 0 dht_data_len of
         None \<Rightarrow> Inr (ELA_SYS_ERROR (os_errno os (d_fs d)), d)
       | Some db \<Rightarrow>
           bindr (copy_bytes (replicate (256 + ROUND256 dht_data_len + ROUND256 extra_data_len) 0) 256 db) (\<lambda>buf.
           bindr (if extra_data_len \<noteq> 0
             then convert_extra os (d_fs d) (old_eladata_path loc) buf (256 + ROUND256 dht_data_len) extra_data_len
             else Inr (buf, 0)) (\<lambda>(buf, extra_data_len).
           let total_len = 256 + ROUND256 dht_data_len + ROUND256 extra_data_len in
           bindr (copy_bytes buf 0 (persist_header dht_data_len extra_data_len)) (\<lambda>buf.
           bindr (put_checksum os buf total_len) (\<lambda>buf.
           let (rc, d) = write_journal os loc (take total_len buf) d in
           if rc \<noteq> 0 then Inr (rc, d)
           else
             Inr (0, disk_rename os (journal_path loc) (data_path loc) (disk_remove os (data_path loc)
               (disk_remove os (old_eladata_path loc) (disk_remove os (old_dhtdata_path loc) d)))))))))"

section \<open>Loading\<close>

text \<open>\<open>pd_buf\<close> is the allocated block: the data of tox is its first bytes, the labels begin at \<open>pd_extra_off\<close>.\<close>

record persistence_data =
  pd_buf :: "byte list"
  pd_dht_len :: nat
  pd_extra_off :: nat
  pd_extra_len :: nat

definition load_persistence_data_i :: "os_lib \<Rightarrow> fs \<Rightarrow> string \<Rightarrow> persistence_data option" where
  "load_persistence_data_i os f path = (case f path of
     Some (File c) \<Rightarrow>
       let st_size = length c in
       if st_size < 256 then None
       else if read_u32 os f path 0 \<noteq> Some PERSISTENCE_MAGIC then None
       else if read_u32 os f path 4 \<noteq> Some PERSISTENCE_REVISION then None
       else (case (read_u32 os f path 8, read_u32 os f path 12) of
         (Some dlen, Some elen) \<Rightarrow>
           let dht_data_len = unat dlen; extra_data_len = unat elen in
           if dht_data_len > MAX_PERSISTENCE_SECTION_SIZE \<or> extra_data_len > MAX_PERSISTENCE_SECTION_SIZE then None
           else if st_size \<noteq> 256 + ROUND256 dht_data_len + ROUND256 extra_data_len then None
           else (case file_read os f path 16 SHA256_BYTES of None \<Rightarrow> None
             | Some p_sum \<Rightarrow>
                 if \<not> os_alloc os f then None
                 else (case file_read os f path 256 (st_size - 256) of None \<Rightarrow> None
                   | Some buf \<Rightarrow>
                       if p_sum \<noteq> os_sha256 os buf then None
                       else Some \<lparr> pd_buf = buf, pd_dht_len = dht_data_len, pd_extra_off = ROUND256 dht_data_len,
                         pd_extra_len = extra_data_len \<rparr>))
       | _ \<Rightarrow> None)
   | _ \<Rightarrow> None)"

definition load_file :: "os_lib \<Rightarrow> fs \<Rightarrow> string \<Rightarrow> persistence_data option" where
  "load_file os f path = (if os_open os f path then load_persistence_data_i os f path else None)"

text \<open>
  The part after the journal: the data file, or else the files of the old version, which are converted first. If the conversion succeeds and
  yet leaves the old files and no new one, the code tries again for ever; \<open>fuel\<close> bounds the conversions.
\<close>

fun load_data :: "nat \<Rightarrow> os_lib \<Rightarrow> string \<Rightarrow> disk \<Rightarrow> (persistence_data option \<times> disk) res" where
  "load_data fuel os loc d =
     (if accessible os (d_fs d) (data_path loc) then Inr (load_file os (d_fs d) (data_path loc), d)
      else if \<not> accessible os (d_fs d) (old_dhtdata_path loc) then Inr (None, d)
      else case fuel of 0 \<Rightarrow> Inl Diverges
      | Suc n \<Rightarrow> bindr (convert_old_dhtdata os loc d) (\<lambda>(rc, d). if sint rc < 0 then Inr (None, d) else load_data n os loc d))"

declare load_data.simps [simp del]

definition load_persistence_data :: "nat \<Rightarrow> os_lib \<Rightarrow> string \<Rightarrow> disk \<Rightarrow> (persistence_data option \<times> disk) res" where
  "load_persistence_data fuel os loc d =
     (if accessible os (d_fs d) (journal_path loc) then
        (case load_file os (d_fs d) (journal_path loc) of
           None \<Rightarrow> load_data fuel os loc d
         | Some pd \<Rightarrow> Inr (Some pd, disk_rename os (journal_path loc) (data_path loc) (disk_remove os (data_path loc) d)))
      else load_data fuel os loc d)"

end
