(* ===== verification/Dht.thy ===== *)
theory Dht
  imports Persist
begin

text \<open>
  \<open>src/carrier/dht/dht.c\<close>, the layer between the carrier and the tox library: its functions for the own profile and for friends, with the
  translation of error codes. The tox library is a parameter: \<open>'t\<close> is its state and \<open>'t tox_lib\<close> has the functions that are called. The codes
  of the library are datatypes with the values that the code names; the last constructor stands for all others.

  A function that may fail returns 0 or an error code of the facility DHT.
\<close>

section \<open>Error codes\<close>

datatype TOX_ERR_NEW = TOX_ERR_NEW_OK | TOX_ERR_NEW_NULL | TOX_ERR_NEW_MALLOC | TOX_ERR_NEW_PORT_ALLOC
  | TOX_ERR_NEW_PROXY_BAD_TYPE | TOX_ERR_NEW_PROXY_BAD_HOST | TOX_ERR_NEW_PROXY_BAD_PORT | TOX_ERR_NEW_PROXY_NOT_FOUND
  | TOX_ERR_NEW_LOAD_ENCRYPTED | TOX_ERR_NEW_LOAD_BAD_FORMAT | TOX_ERR_NEW_other

datatype TOX_ERR_BOOTSTRAP = TOX_ERR_BOOTSTRAP_OK | TOX_ERR_BOOTSTRAP_NULL | TOX_ERR_BOOTSTRAP_BAD_HOST
  | TOX_ERR_BOOTSTRAP_BAD_PORT | TOX_ERR_BOOTSTRAP_other

datatype TOX_ERR_FRIEND_QUERY = TOX_ERR_FRIEND_QUERY_OK | TOX_ERR_FRIEND_QUERY_NULL | TOX_ERR_FRIEND_QUERY_FRIEND_NOT_FOUND
  | TOX_ERR_FRIEND_QUERY_other

datatype TOX_ERR_FRIEND_GET_PUBLIC_KEY = TOX_ERR_FRIEND_GET_PUBLIC_KEY_OK | TOX_ERR_FRIEND_GET_PUBLIC_KEY_FRIEND_NOT_FOUND
  | TOX_ERR_FRIEND_GET_PUBLIC_KEY_other

datatype TOX_ERR_SET_INFO = TOX_ERR_SET_INFO_OK | TOX_ERR_SET_INFO_NULL | TOX_ERR_SET_INFO_TOO_LONG | TOX_ERR_SET_INFO_other

datatype TOX_ERR_FRIEND_BY_PUBLIC_KEY = TOX_ERR_FRIEND_BY_PUBLIC_KEY_OK | TOX_ERR_FRIEND_BY_PUBLIC_KEY_NULL
  | TOX_ERR_FRIEND_BY_PUBLIC_KEY_NOT_FOUND | TOX_ERR_FRIEND_BY_PUBLIC_KEY_other

datatype TOX_ERR_FRIEND_ADD = TOX_ERR_FRIEND_ADD_OK | TOX_ERR_FRIEND_ADD_NULL | TOX_ERR_FRIEND_ADD_TOO_LONG
  | TOX_ERR_FRIEND_ADD_NO_MESSAGE | TOX_ERR_FRIEND_ADD_OWN_KEY | TOX_ERR_FRIEND_ADD_ALREADY_SENT | TOX_ERR_FRIEND_ADD_BAD_CHECKSUM
  | TOX_ERR_FRIEND_ADD_SET_NEW_NOSPAM | TOX_ERR_FRIEND_ADD_MALLOC | TOX_ERR_FRIEND_ADD_other

datatype TOX_ERR_FRIEND_SEND_MESSAGE = TOX_ERR_FRIEND_SEND_MESSAGE_OK | TOX_ERR_FRIEND_SEND_MESSAGE_NULL
  | TOX_ERR_FRIEND_SEND_MESSAGE_FRIEND_NOT_FOUND | TOX_ERR_FRIEND_SEND_MESSAGE_FRIEND_NOT_CONNECTED
  | TOX_ERR_FRIEND_SEND_MESSAGE_SENDQ | TOX_ERR_FRIEND_SEND_MESSAGE_TOO_LONG | TOX_ERR_FRIEND_SEND_MESSAGE_EMPTY
  | TOX_ERR_FRIEND_SEND_MESSAGE_other

datatype TOX_ERR_FRIEND_DELETE = TOX_ERR_FRIEND_DELETE_OK | TOX_ERR_FRIEND_DELETE_FRIEND_NOT_FOUND | TOX_ERR_FRIEND_DELETE_other

fun dht_new_error :: "TOX_ERR_NEW \<Rightarrow> u32" where
  "dht_new_error TOX_ERR_NEW_OK = 0"
| "dht_new_error TOX_ERR_NEW_NULL = ELA_DHT_ERROR ELAERR_INVALID_ARGS"
| "dht_new_error TOX_ERR_NEW_MALLOC = ELA_DHT_ERROR ELAERR_OUT_OF_MEMORY"
| "dht_new_error TOX_ERR_NEW_PORT_ALLOC = ELA_DHT_ERROR ELAERR_PORT_ALLOC"
| "dht_new_error TOX_ERR_NEW_PROXY_BAD_TYPE = ELA_DHT_ERROR ELAERR_BAD_PROXY_TYPE"
| "dht_new_error TOX_ERR_NEW_PROXY_BAD_HOST = ELA_DHT_ERROR ELAERR_BAD_PROXY_HOST"
| "dht_new_error TOX_ERR_NEW_PROXY_BAD_PORT = ELA_DHT_ERROR ELAERR_BAD_PROXY_PORT"
| "dht_new_error TOX_ERR_NEW_PROXY_NOT_FOUND = ELA_DHT_ERROR ELAERR_PROXY_NOT_AVAILABLE"
| "dht_new_error TOX_ERR_NEW_LOAD_ENCRYPTED = ELA_DHT_ERROR ELAERR_ENCRYPTED_PERSISTENT_DATA"
| "dht_new_error TOX_ERR_NEW_LOAD_BAD_FORMAT = ELA_DHT_ERROR ELAERR_BAD_PERSISTENT_DATA"
| "dht_new_error TOX_ERR_NEW_other = ELA_DHT_ERROR ELAERR_UNKNOWN"

fun dht_bootstrap_error :: "TOX_ERR_BOOTSTRAP \<Rightarrow> u32" where
  "dht_bootstrap_error TOX_ERR_BOOTSTRAP_OK = 0"
| "dht_bootstrap_error TOX_ERR_BOOTSTRAP_NULL = ELA_DHT_ERROR ELAERR_INVALID_ARGS"
| "dht_bootstrap_error TOX_ERR_BOOTSTRAP_BAD_HOST = ELA_DHT_ERROR ELAERR_BAD_BOOTSTRAP_HOST"
| "dht_bootstrap_error TOX_ERR_BOOTSTRAP_BAD_PORT = ELA_DHT_ERROR ELAERR_BAD_BOOTSTRAP_PORT"
| "dht_bootstrap_error TOX_ERR_BOOTSTRAP_other = ELA_DHT_ERROR ELAERR_UNKNOWN"

fun dht_friend_query_error :: "TOX_ERR_FRIEND_QUERY \<Rightarrow> u32" where
  "dht_friend_query_error TOX_ERR_FRIEND_QUERY_OK = 0"
| "dht_friend_query_error TOX_ERR_FRIEND_QUERY_NULL = ELA_DHT_ERROR ELAERR_INVALID_ARGS"
| "dht_friend_query_error TOX_ERR_FRIEND_QUERY_FRIEND_NOT_FOUND = ELA_DHT_ERROR ELAERR_NOT_EXIST"
| "dht_friend_query_error TOX_ERR_FRIEND_QUERY_other = ELA_DHT_ERROR ELAERR_UNKNOWN"

fun dht_friend_get_pk_error :: "TOX_ERR_FRIEND_GET_PUBLIC_KEY \<Rightarrow> u32" where
  "dht_friend_get_pk_error TOX_ERR_FRIEND_GET_PUBLIC_KEY_OK = 0"
| "dht_friend_get_pk_error TOX_ERR_FRIEND_GET_PUBLIC_KEY_FRIEND_NOT_FOUND = ELA_DHT_ERROR ELAERR_NOT_EXIST"
| "dht_friend_get_pk_error TOX_ERR_FRIEND_GET_PUBLIC_KEY_other = ELA_DHT_ERROR ELAERR_UNKNOWN"

fun dht_set_info_error :: "TOX_ERR_SET_INFO \<Rightarrow> u32" where
  "dht_set_info_error TOX_ERR_SET_INFO_OK = 0"
| "dht_set_info_error TOX_ERR_SET_INFO_NULL = ELA_DHT_ERROR ELAERR_INVALID_ARGS"
| "dht_set_info_error TOX_ERR_SET_INFO_TOO_LONG = ELA_DHT_ERROR ELAERR_TOO_LONG"
| "dht_set_info_error TOX_ERR_SET_INFO_other = ELA_DHT_ERROR ELAERR_UNKNOWN"

fun dht_friend_by_pk_error :: "TOX_ERR_FRIEND_BY_PUBLIC_KEY \<Rightarrow> u32" where
  "dht_friend_by_pk_error TOX_ERR_FRIEND_BY_PUBLIC_KEY_OK = 0"
| "dht_friend_by_pk_error TOX_ERR_FRIEND_BY_PUBLIC_KEY_NULL = ELA_DHT_ERROR ELAERR_INVALID_ARGS"
| "dht_friend_by_pk_error TOX_ERR_FRIEND_BY_PUBLIC_KEY_NOT_FOUND = ELA_DHT_ERROR ELAERR_NOT_EXIST"
| "dht_friend_by_pk_error TOX_ERR_FRIEND_BY_PUBLIC_KEY_other = ELA_DHT_ERROR ELAERR_UNKNOWN"

fun dht_friend_add_error :: "TOX_ERR_FRIEND_ADD \<Rightarrow> u32" where
  "dht_friend_add_error TOX_ERR_FRIEND_ADD_OK = 0"
| "dht_friend_add_error TOX_ERR_FRIEND_ADD_NULL = ELA_DHT_ERROR ELAERR_INVALID_ARGS"
| "dht_friend_add_error TOX_ERR_FRIEND_ADD_TOO_LONG = ELA_DHT_ERROR ELAERR_TOO_LONG"
| "dht_friend_add_error TOX_ERR_FRIEND_ADD_NO_MESSAGE = ELA_DHT_ERROR ELAERR_INVALID_ARGS"
| "dht_friend_add_error TOX_ERR_FRIEND_ADD_OWN_KEY = ELA_DHT_ERROR ELAERR_ADD_SELF"
| "dht_friend_add_error TOX_ERR_FRIEND_ADD_ALREADY_SENT = ELA_DHT_ERROR ELAERR_ALREADY_EXIST"
| "dht_friend_add_error TOX_ERR_FRIEND_ADD_BAD_CHECKSUM = ELA_DHT_ERROR ELAERR_BAD_ADDRESS"
| "dht_friend_add_error TOX_ERR_FRIEND_ADD_SET_NEW_NOSPAM = ELA_DHT_ERROR ELAERR_BAD_ADDRESS"
| "dht_friend_add_error TOX_ERR_FRIEND_ADD_MALLOC = ELA_DHT_ERROR ELAERR_OUT_OF_MEMORY"
| "dht_friend_add_error TOX_ERR_FRIEND_ADD_other = ELA_DHT_ERROR ELAERR_UNKNOWN"

fun dht_friend_send_msg_error :: "TOX_ERR_FRIEND_SEND_MESSAGE \<Rightarrow> u32" where
  "dht_friend_send_msg_error TOX_ERR_FRIEND_SEND_MESSAGE_OK = 0"
| "dht_friend_send_msg_error TOX_ERR_FRIEND_SEND_MESSAGE_NULL = ELA_DHT_ERROR ELAERR_INVALID_ARGS"
| "dht_friend_send_msg_error TOX_ERR_FRIEND_SEND_MESSAGE_FRIEND_NOT_FOUND = ELA_DHT_ERROR ELAERR_NOT_EXIST"
| "dht_friend_send_msg_error TOX_ERR_FRIEND_SEND_MESSAGE_FRIEND_NOT_CONNECTED = ELA_DHT_ERROR ELAERR_FRIEND_OFFLINE"
| "dht_friend_send_msg_error TOX_ERR_FRIEND_SEND_MESSAGE_SENDQ = ELA_DHT_ERROR ELAERR_OUT_OF_MEMORY"
| "dht_friend_send_msg_error TOX_ERR_FRIEND_SEND_MESSAGE_TOO_LONG = ELA_DHT_ERROR ELAERR_TOO_LONG"
| "dht_friend_send_msg_error TOX_ERR_FRIEND_SEND_MESSAGE_EMPTY = ELA_DHT_ERROR ELAERR_INVALID_ARGS"
| "dht_friend_send_msg_error TOX_ERR_FRIEND_SEND_MESSAGE_other = ELA_DHT_ERROR ELAERR_UNKNOWN"

fun dht_friend_delete_error :: "TOX_ERR_FRIEND_DELETE \<Rightarrow> u32" where
  "dht_friend_delete_error TOX_ERR_FRIEND_DELETE_OK = 0"
| "dht_friend_delete_error TOX_ERR_FRIEND_DELETE_FRIEND_NOT_FOUND = ELA_DHT_ERROR ELAERR_NOT_EXIST"
| "dht_friend_delete_error TOX_ERR_FRIEND_DELETE_other = ELA_DHT_ERROR ELAERR_UNKNOWN"

section \<open>The library\<close>

datatype TOX_CONNECTION = TOX_CONNECTION_NONE | TOX_CONNECTION_TCP | TOX_CONNECTION_UDP | TOX_CONNECTION_other

text \<open>A number of a friend that is \<open>UINT32_MAX\<close> (-1) means that there is none.\<close>

record 't tox_lib =
  tox_new :: "byte list option \<Rightarrow> bool \<Rightarrow> TOX_ERR_NEW \<times> 't option"
  tox_bootstrap :: "'t \<Rightarrow> string \<Rightarrow> u16 \<Rightarrow> byte list \<Rightarrow> TOX_ERR_BOOTSTRAP \<times> 't"
  tox_add_tcp_relay :: "'t \<Rightarrow> string \<Rightarrow> u16 \<Rightarrow> byte list \<Rightarrow> TOX_ERR_BOOTSTRAP \<times> 't"
  tox_self_get_address :: "'t \<Rightarrow> byte list"
  tox_self_get_public_key :: "'t \<Rightarrow> byte list"
  tox_self_get_nospam :: "'t \<Rightarrow> u32"
  tox_self_set_nospam :: "'t \<Rightarrow> u32 \<Rightarrow> 't"
  tox_self_get_status :: "'t \<Rightarrow> int"
  tox_self_set_status :: "'t \<Rightarrow> int \<Rightarrow> 't"
  tox_self_get_name :: "'t \<Rightarrow> byte list"
  tox_self_set_name :: "'t \<Rightarrow> byte list \<Rightarrow> TOX_ERR_SET_INFO \<times> 't"
  tox_self_get_status_message :: "'t \<Rightarrow> byte list"
  tox_self_set_status_message :: "'t \<Rightarrow> byte list \<Rightarrow> TOX_ERR_SET_INFO \<times> 't"
  tox_self_get_friend_list :: "'t \<Rightarrow> u32 list"
  tox_friend_get_status_message :: "'t \<Rightarrow> u32 \<Rightarrow> TOX_ERR_FRIEND_QUERY \<times> byte list"
  tox_friend_get_status :: "'t \<Rightarrow> u32 \<Rightarrow> TOX_ERR_FRIEND_QUERY \<times> int"
  tox_friend_get_public_key :: "'t \<Rightarrow> u32 \<Rightarrow> TOX_ERR_FRIEND_GET_PUBLIC_KEY \<times> byte list"
  tox_friend_by_public_key :: "'t \<Rightarrow> byte list \<Rightarrow> TOX_ERR_FRIEND_BY_PUBLIC_KEY \<times> u32"
  tox_friend_add :: "'t \<Rightarrow> byte list \<Rightarrow> byte list \<Rightarrow> TOX_ERR_FRIEND_ADD \<times> u32 \<times> 't"
  tox_friend_add_norequest :: "'t \<Rightarrow> byte list \<Rightarrow> TOX_ERR_FRIEND_ADD \<times> u32 \<times> 't"
  tox_friend_send_message :: "'t \<Rightarrow> u32 \<Rightarrow> byte list \<Rightarrow> TOX_ERR_FRIEND_SEND_MESSAGE \<times> 't"
  tox_friend_delete :: "'t \<Rightarrow> u32 \<Rightarrow> TOX_ERR_FRIEND_DELETE \<times> 't"
  tox_get_savedata :: "'t \<Rightarrow> byte list"

section \<open>Functions\<close>

definition is_connected :: "TOX_CONNECTION \<Rightarrow> bool" where
  "is_connected connection \<longleftrightarrow> (case connection of TOX_CONNECTION_TCP \<Rightarrow> True | TOX_CONNECTION_UDP \<Rightarrow> True | _ \<Rightarrow> False)"

definition dht_new :: "'t tox_lib \<Rightarrow> byte list option \<Rightarrow> bool \<Rightarrow> u32 \<times> 't option" where
  "dht_new T savedata udp_enabled =
     (case tox_new T (case savedata of None \<Rightarrow> None | Some bs \<Rightarrow> if bs = [] then None else Some bs) udp_enabled of
        (err, None) \<Rightarrow> (dht_new_error err, None)
      | (err, Some t) \<Rightarrow> (0, Some t))"

text \<open>An address of one kind: bootstrap, then the relay. The code does it for each of the two addresses that is not empty.\<close>

definition bootstrap_one :: "'t tox_lib \<Rightarrow> 't \<Rightarrow> string \<Rightarrow> int \<Rightarrow> byte list \<Rightarrow> u32 \<times> 't" where
  "bootstrap_one T t host port address =
     (case tox_bootstrap T t host (of_int port) address of (err, t) \<Rightarrow>
        if err \<noteq> TOX_ERR_BOOTSTRAP_OK then (dht_bootstrap_error err, t)
        else (case tox_add_tcp_relay T t host (of_int port) address of (err, t) \<Rightarrow>
          if err \<noteq> TOX_ERR_BOOTSTRAP_OK then (dht_bootstrap_error err, t) else (0, t)))"

definition dht_bootstrap :: "'t tox_lib \<Rightarrow> 't \<Rightarrow> string \<Rightarrow> string \<Rightarrow> int \<Rightarrow> byte list \<Rightarrow> (u32 \<times> 't) res" where
  "dht_bootstrap T t ipv4 ipv6 port address =
     bindr (g_assert ((ipv4 \<noteq> [] \<or> ipv6 \<noteq> []) \<and> port > 0)) (\<lambda>_.
     let (rc, t) = (if ipv4 \<noteq> [] then bootstrap_one T t ipv4 port address else (0, t)) in
     if rc \<noteq> 0 then Inr (rc, t)
     else Inr (if ipv6 \<noteq> [] then bootstrap_one T t ipv6 port address else (0, t)))"

definition dht_self_set_nospam :: "'t tox_lib \<Rightarrow> 't \<Rightarrow> u32 \<Rightarrow> 't" where
  "dht_self_set_nospam T t nospam = tox_self_set_nospam T t nospam"

definition dht_self_get_nospam :: "'t tox_lib \<Rightarrow> 't \<Rightarrow> u32" where
  "dht_self_get_nospam T t = tox_self_get_nospam T t"

definition dht_self_set_status :: "'t tox_lib \<Rightarrow> 't \<Rightarrow> int \<Rightarrow> 't" where
  "dht_self_set_status T t status = tox_self_set_status T t status"

definition dht_self_get_status :: "'t tox_lib \<Rightarrow> 't \<Rightarrow> int" where
  "dht_self_get_status T t = tox_self_get_status T t"

text \<open>\<open>cb\<close> gets the address, the key, the status and the description.\<close>

definition dht_get_self_info ::
    "'t tox_lib \<Rightarrow> 't \<Rightarrow> (byte list \<Rightarrow> byte list \<Rightarrow> int \<Rightarrow> byte list \<Rightarrow> 's res) \<Rightarrow> 's res" where
  "dht_get_self_info T t cb =
     cb (tox_self_get_address T t) (tox_self_get_public_key T t) (tox_self_get_status T t) (tox_self_get_status_message T t)"

text \<open>The loop of \<open>dht_get_friends\<close>; \<open>cb\<close> changes the state of the caller, and ends the loop when it returns false.\<close>

fun get_friends_loop ::
    "'t tox_lib \<Rightarrow> 't \<Rightarrow> (u32 \<Rightarrow> byte list \<Rightarrow> int \<Rightarrow> byte list \<Rightarrow> 's \<Rightarrow> (bool \<times> 's) res) \<Rightarrow> u32 list \<Rightarrow> 's \<Rightarrow> (u32 \<times> 's) res" where
  "get_friends_loop T t cb [] s = Inr (0, s)"
| "get_friends_loop T t cb (n # ns) s =
     (case tox_friend_get_status_message T t n of (error, desc) \<Rightarrow>
        if error \<noteq> TOX_ERR_FRIEND_QUERY_OK then Inr (dht_friend_query_error error, s)
        else (case tox_friend_get_status T t n of (error, user_status) \<Rightarrow>
          if error \<noteq> TOX_ERR_FRIEND_QUERY_OK then Inr (dht_friend_query_error error, s)
          else (case tox_friend_get_public_key T t n of (error, public_key) \<Rightarrow>
            if error \<noteq> TOX_ERR_FRIEND_GET_PUBLIC_KEY_OK then Inr (dht_friend_get_pk_error error, s)
            else
              bindr (cb n public_key user_status desc s) (\<lambda>(rc, s).
              if \<not> rc then Inr (0, s) else get_friends_loop T t cb ns s))))"

definition dht_get_friends ::
    "'t tox_lib \<Rightarrow> 't \<Rightarrow> (u32 \<Rightarrow> byte list \<Rightarrow> int \<Rightarrow> byte list \<Rightarrow> 's \<Rightarrow> (bool \<times> 's) res) \<Rightarrow> 's \<Rightarrow> (u32 \<times> 's) res" where
  "dht_get_friends T t cb s = get_friends_loop T t cb (tox_self_get_friend_list T t) s"

definition dht_get_savedata :: "'t tox_lib \<Rightarrow> 't \<Rightarrow> byte list" where
  "dht_get_savedata T t = tox_get_savedata T t"

definition dht_self_get_name :: "'t tox_lib \<Rightarrow> 't \<Rightarrow> nat \<Rightarrow> byte list res" where
  "dht_self_get_name T t len =
     bindr (g_assert (len > 0)) (\<lambda>_. bindr (g_assert (length (tox_self_get_name T t) \<le> len)) (\<lambda>_. Inr (tox_self_get_name T t)))"

definition dht_self_set_name :: "'t tox_lib \<Rightarrow> 't \<Rightarrow> byte list \<Rightarrow> u32 \<times> 't" where
  "dht_self_set_name T t name = (case tox_self_set_name T t name of (error, t) \<Rightarrow>
     if error \<noteq> TOX_ERR_SET_INFO_OK then (dht_set_info_error error, t) else (0, t))"

definition dht_self_set_desc :: "'t tox_lib \<Rightarrow> 't \<Rightarrow> byte list \<Rightarrow> u32 \<times> 't" where
  "dht_self_set_desc T t desc = (case tox_self_set_status_message T t desc of (error, t) \<Rightarrow>
     if error \<noteq> TOX_ERR_SET_INFO_OK then (dht_set_info_error error, t) else (0, t))"

definition dht_get_friend_number :: "'t tox_lib \<Rightarrow> 't \<Rightarrow> byte list \<Rightarrow> u32 \<times> u32" where
  "dht_get_friend_number T t public_key = (case tox_friend_by_public_key T t public_key of (error, n) \<Rightarrow>
     if n = -1 then (dht_friend_by_pk_error error, n) else (0, n))"

text \<open>The number is the one of the caller if there is an error.\<close>

definition dht_friend_add :: "'t tox_lib \<Rightarrow> 't \<Rightarrow> byte list \<Rightarrow> byte list \<Rightarrow> u32 \<Rightarrow> (u32 \<times> u32 \<times> 't) res" where
  "dht_friend_add T t address msg friend_number =
     bindr (g_assert (msg \<noteq> [])) (\<lambda>_.
     case tox_friend_add T t address msg of (error, fid, t) \<Rightarrow>
       Inr (if fid = -1 then (dht_friend_add_error error, friend_number, t) else (0, fid, t)))"

definition dht_friend_add_norequest :: "'t tox_lib \<Rightarrow> 't \<Rightarrow> byte list \<Rightarrow> u32 \<Rightarrow> u32 \<times> u32 \<times> 't" where
  "dht_friend_add_norequest T t public_key friend_number =
     (case tox_friend_add_norequest T t public_key of (error, fid, t) \<Rightarrow>
       if fid = -1 then (dht_friend_add_error error, friend_number, t) else (0, fid, t))"

definition dht_friend_message :: "'t tox_lib \<Rightarrow> 't \<Rightarrow> u32 \<Rightarrow> byte list \<Rightarrow> (u32 \<times> 't) res" where
  "dht_friend_message T t friend_number data =
     bindr (g_assert (friend_number \<noteq> -1 \<and> data \<noteq> [])) (\<lambda>_.
     case tox_friend_send_message T t friend_number data of (error, t) \<Rightarrow>
       Inr (if error \<noteq> TOX_ERR_FRIEND_SEND_MESSAGE_OK then (dht_friend_send_msg_error error, t) else (0, t)))"

definition dht_friend_delete :: "'t tox_lib \<Rightarrow> 't \<Rightarrow> u32 \<Rightarrow> (u32 \<times> 't) res" where
  "dht_friend_delete T t friend_number =
     bindr (g_assert (friend_number \<noteq> -1)) (\<lambda>_.
     case tox_friend_delete T t friend_number of (error, t) \<Rightarrow>
       Inr (if error \<noteq> TOX_ERR_FRIEND_DELETE_OK then (dht_friend_delete_error error, t) else (0, t)))"

section \<open>What the library promises\<close>

text \<open>
  \<open>fr\<close> is the friends of a state of the library, with their keys: keys are found, at most one friend has a key, an added friend has a new
  number, or no friend is added, and the other functions leave the friends alone. The codes agree with the results.
\<close>

definition tox_friends_ok :: "'t tox_lib \<Rightarrow> ('t \<Rightarrow> u32 \<rightharpoonup> byte list) \<Rightarrow> bool" where
  "tox_friends_ok T fr \<longleftrightarrow>
     (\<forall>t k e n. tox_friend_by_public_key T t k = (e, n) \<longrightarrow>
        (if n = -1 then k \<notin> ran (fr t) \<and> e \<noteq> TOX_ERR_FRIEND_BY_PUBLIC_KEY_OK else fr t n = Some k)) \<and>
     (\<forall>t n k m. fr t n = Some k \<and> fr t m = Some k \<longrightarrow> n = m) \<and>
     (\<forall>t n k. fr t n = Some k \<longrightarrow> n \<noteq> -1 \<and> length k = DHT_PUBLIC_KEY_SIZE) \<and>
     (\<forall>t a msg e n t'. tox_friend_add T t a msg = (e, n, t') \<longrightarrow>
        (if n = -1 then e \<noteq> TOX_ERR_FRIEND_ADD_OK \<and> fr t' = fr t
         else fr t n = None \<and> fr t' = (fr t)(n \<mapsto> take DHT_PUBLIC_KEY_SIZE a))) \<and>
     (\<forall>t k e n t'. tox_friend_add_norequest T t k = (e, n, t') \<longrightarrow>
        (if n = -1 then e \<noteq> TOX_ERR_FRIEND_ADD_OK \<and> fr t' = fr t else fr t n = None \<and> fr t' = (fr t)(n \<mapsto> k))) \<and>
     (\<forall>t n e t'. tox_friend_delete T t n = (e, t') \<longrightarrow> fr t' = (fr t)(n := None)) \<and>
     (\<forall>t x. fr (tox_self_set_nospam T t x) = fr t) \<and> (\<forall>t x. fr (tox_self_set_status T t x) = fr t) \<and>
     (\<forall>t x. fr (snd (tox_self_set_name T t x)) = fr t) \<and> (\<forall>t x. fr (snd (tox_self_set_status_message T t x)) = fr t)"

end
