(* ===== verification/Friends.thy ===== *)
theory Friends
  imports Dht
begin

text \<open>
  Friends and the own profile, from \<open>src/carrier/ela_carrier.c\<close> and \<open>friends.h\<close>: the table of friends, adding, accepting and removing friends,
  labels, what the network tells about friends, and the start of a node. The profile is a packet that the tox library keeps as status message.

  A \<open>node\<close> has the part of \<open>ElaCarrier\<close> that this code works on, the state \<open>'t\<close> of the tox library and the files. Calls of the user's functions are
  recorded in \<open>n_calls\<close>, in order; they do not call back. Most functions of the user are the last thing an event does, but for giving back its reference to the friend, so that their calls are the same as calls
  after the event; this does not hold for the iteration over the friend list, the report that the node is ready, and the report that a friend is
  disconnected just before the report of its removal. Parameters (\<open>node_env\<close>): tox, the system, base 58, FlatBuffers, memory.
  Copies of strings are checked against the size of the array.
\<close>

section \<open>Data\<close>

definition ELA_MAX_USER_DESCRIPTION_LEN :: nat where "ELA_MAX_USER_DESCRIPTION_LEN = 127"
definition ELA_MAX_PHONE_LEN :: nat where "ELA_MAX_PHONE_LEN = 31"
definition ELA_MAX_EMAIL_LEN :: nat where "ELA_MAX_EMAIL_LEN = 127"
definition ELA_MAX_REGION_LEN :: nat where "ELA_MAX_REGION_LEN = 127"
definition ELA_MAX_GENDER_LEN :: nat where "ELA_MAX_GENDER_LEN = 31"

lemmas info_lens = ELA_MAX_USER_NAME_LEN_def ELA_MAX_USER_DESCRIPTION_LEN_def ELA_MAX_PHONE_LEN_def ELA_MAX_EMAIL_LEN_def
  ELA_MAX_REGION_LEN_def ELA_MAX_GENDER_LEN_def ELA_MAX_ID_LEN_def

datatype FriendEvent = FriendEventType_Added ElaFriendInfo | FriendEventType_Removed ElaFriendInfo

datatype node_cb = CbIdle | CbConnectionStatus | CbReady | CbFriendList | CbFriendConnection | CbFriendInfo | CbFriendPresence
  | CbFriendRequest | CbFriendAdded | CbFriendRemoved | CbGroupInvite | CbGroupConnected | CbGroupMessage | CbGroupTitle | CbGroupPeerName
  | CbGroupPeerListChanged

datatype node_call =
    CallConnectionStatus ElaConnectionStatus
  | CallReady
  | CallFriendList "ElaFriendInfo option"
  | CallFriendConnection string ElaConnectionStatus
  | CallFriendInfo string ElaFriendInfo
  | CallFriendPresence string ElaPresenceStatus
  | CallFriendRequest string ElaUserInfo string
  | CallFriendAdded ElaFriendInfo
  | CallFriendRemoved string
  | CallGroupInvite string "byte list"
  | CallGroupConnected string
  | CallGroupMessage string string "byte list"
  | CallGroupTitle string string "byte list"
  | CallGroupPeerName string string "byte list"
  | CallGroupPeerListChanged string

record 't node =
  n_tox :: 't
  n_public_key :: "byte list"
  n_address :: "byte list"
  n_base58_addr :: string
  n_me :: ElaUserInfo
  n_presence_status :: ElaPresenceStatus
  n_connection_status :: ElaConnectionStatus
  n_is_ready :: bool
  n_friend_events :: "FriendEvent list"
  n_friends :: friends
  n_disk :: disk
  n_error :: u32
  n_calls :: "node_call list"

text \<open>\<open>ne_callback\<close> tells which callbacks the user has set.\<close>

record 't node_env =
  ne_tox :: "'t tox_lib"
  ne_os :: os_lib
  ne_location :: string
  ne_base58_encode :: "byte list \<Rightarrow> nat \<Rightarrow> string option"
  ne_base58_decode :: "string \<Rightarrow> byte list option"
  ne_flatcc :: flatcc_lib
  ne_alloc :: "'t node \<Rightarrow> bool"
  ne_callback :: "node_cb \<Rightarrow> bool"

definition n_fail :: "'t node \<Rightarrow> u32 \<Rightarrow> int \<times> 't node" where
  "n_fail w e = (-1, w\<lparr> n_error := e \<rparr>)"

definition n_call :: "'t node_env \<Rightarrow> node_cb \<Rightarrow> node_call \<Rightarrow> 't node \<Rightarrow> 't node" where
  "n_call env cb c w = (if ne_callback env cb then w\<lparr> n_calls := n_calls w @ [c] \<rparr> else w)"

text \<open>The text of a key; a buffer that is too small is left empty.\<close>

definition key_text :: "'t node_env \<Rightarrow> byte list \<Rightarrow> nat \<Rightarrow> string" where
  "key_text env key sz = (case ne_base58_encode env key sz of None \<Rightarrow> [] | Some s \<Rightarrow> s)"

definition blank_user :: "string \<Rightarrow> ElaUserInfo" where
  "blank_user userid = \<lparr> eu_userid = userid, eu_name = [], eu_description = [], eu_has_avatar = False, eu_gender = [], eu_phone = [],
     eu_email = [], eu_region = [] \<rparr>"

definition new_friend :: "u32 \<Rightarrow> ElaUserInfo \<Rightarrow> ElaPresenceStatus \<Rightarrow> FriendInfo" where
  "new_friend n ui p = \<lparr> fi_friend_number = n, fi_info = \<lparr> ef_user_info = ui, ef_label = [],
     ef_status = ElaConnectionStatus_Disconnected, ef_presence = p \<rparr>, fi_refs = 0 \<rparr>"

section \<open>The table\<close>

text \<open>\<open>friends_get\<close> takes a reference and \<open>deref\<close> gives it back.\<close>

definition node_friends_exist :: "'t node \<Rightarrow> u32 \<Rightarrow> bool res" where
  "node_friends_exist w n = bindr (g_assert (n \<noteq> -1)) (\<lambda>_. Inr (map_of (n_friends w) n \<noteq> None))"

definition node_friends_put :: "'t node \<Rightarrow> FriendInfo \<Rightarrow> 't node" where
  "node_friends_put w fi = w\<lparr> n_friends := AList.update (fi_friend_number fi) fi (n_friends w) \<rparr>"

definition node_friends_get :: "'t node \<Rightarrow> u32 \<Rightarrow> (FriendInfo option \<times> 't node) res" where
  "node_friends_get w n =
     bindr (g_assert (n \<noteq> -1)) (\<lambda>_. case map_of (n_friends w) n of None \<Rightarrow> Inr (None, w)
     | Some fi \<Rightarrow>
         let fi = fi\<lparr> fi_refs := fi_refs fi + 1 \<rparr> in Inr (Some fi, w\<lparr> n_friends := AList.update n fi (n_friends w) \<rparr>))"

definition node_friends_remove :: "'t node \<Rightarrow> u32 \<Rightarrow> (FriendInfo option \<times> 't node) res" where
  "node_friends_remove w n =
     bindr (g_assert (n \<noteq> -1)) (\<lambda>_. Inr (map_of (n_friends w) n, w\<lparr> n_friends := AList.delete n (n_friends w) \<rparr>))"

text \<open>An entry that is changed, and the reference that is given back.\<close>

definition friend_update :: "'t node \<Rightarrow> u32 \<Rightarrow> (FriendInfo \<Rightarrow> FriendInfo) \<Rightarrow> 't node" where
  "friend_update w n f = (case map_of (n_friends w) n of None \<Rightarrow> w
     | Some fi \<Rightarrow> w\<lparr> n_friends := AList.update n (f fi) (n_friends w) \<rparr>)"

definition friend_deref :: "'t node \<Rightarrow> u32 \<Rightarrow> 't node" where
  "friend_deref w n = friend_update w n (\<lambda>fi. fi\<lparr> fi_refs := fi_refs fi - 1 \<rparr>)"

definition node_store :: "'t node_env \<Rightarrow> 't node \<Rightarrow> 't node res" where
  "node_store env w =
     bindr (store_persistence_data (ne_os env) (ne_location env) (dht_get_savedata (ne_tox env) (n_tox w)) (n_friends w) (n_disk w))
       (\<lambda>(rc, d). Inr (w\<lparr> n_disk := d \<rparr>))"

section \<open>Profiles\<close>

definition get_presence_status :: "int \<Rightarrow> ElaPresenceStatus" where
  "get_presence_status user_status =
     (if user_status < 0 then ElaPresenceStatus_None else if user_status > 2 then ElaPresenceStatus_Busy
      else if user_status = 0 then ElaPresenceStatus_None else if user_status = 1 then ElaPresenceStatus_Away
      else ElaPresenceStatus_Busy)"

text \<open>The packet of a profile.\<close>

definition info_packet :: "'t node_env \<Rightarrow> bool \<Rightarrow> ElaUserInfo \<Rightarrow> byte list option option res" where
  "info_packet env allocated info =
     bindr (elacp_create allocated ELACP_TYPE_USERINFO None) (\<lambda>cpo.
     case cpo of None \<Rightarrow> Inr None
     | Some cp \<Rightarrow>
         bindr (elacp_set_has_avatar cp (if eu_has_avatar info then 1 else 0)) (\<lambda>cp.
         bindr (elacp_set_name cp (Some (eu_name info))) (\<lambda>cp.
         bindr (elacp_set_descr cp (Some (eu_description info))) (\<lambda>cp.
         bindr (elacp_set_gender cp (Some (eu_gender info))) (\<lambda>cp.
         bindr (elacp_set_phone cp (Some (eu_phone info))) (\<lambda>cp.
         bindr (elacp_set_email cp (Some (eu_email info))) (\<lambda>cp.
         bindr (elacp_set_region cp (Some (eu_region info))) (\<lambda>cp.
         bindr (elacp_encode (ne_flatcc env) cp) (\<lambda>data. Inr (Some data))))))))))"

definition fill_empty_user_desc :: "'t node_env \<Rightarrow> 't node \<Rightarrow> 't node res" where
  "fill_empty_user_desc env w =
     bindr (info_packet env (ne_alloc env w) (blank_user [])) (\<lambda>data.
     Inr (case data of Some (Some bs) \<Rightarrow> w\<lparr> n_tox := snd (dht_self_set_desc (ne_tox env) (n_tox w) bs) \<rparr> | _ \<Rightarrow> w))"

text \<open>\<open>strcmp\<close> and \<open>strcpy\<close> of one field, and whether it changed; a missing string is empty.\<close>

definition unpack_field :: "nat \<Rightarrow> string \<Rightarrow> string option \<Rightarrow> (string \<times> bool) res" where
  "unpack_field max_len cur new =
     (let s = (case new of None \<Rightarrow> [] | Some s \<Rightarrow> s) in
      if cur \<noteq> s then bindr (copy_str (max_len + 1) s) (\<lambda>s. Inr (s, True)) else Inr (cur, False))"

text \<open>The new profile and whether it is changed, or \<open>None\<close> for -1.\<close>

definition unpack_user_desc :: "flatcc_lib \<Rightarrow> bool \<Rightarrow> byte list \<Rightarrow> ElaUserInfo \<Rightarrow> (ElaUserInfo \<times> bool) option res" where
  "unpack_user_desc lib allocated desc info =
     bindr (g_assert (desc \<noteq> [])) (\<lambda>_.
     bindr (elacp_decode lib allocated desc) (\<lambda>cpo.
     case cpo of None \<Rightarrow> Inr None
     | Some cp \<Rightarrow>
         if elacp_get_type cp \<noteq> ELACP_TYPE_USERINFO then Inr None
         else
           bindr (elacp_get_has_avatar cp) (\<lambda>has_avatar.
           bindr (elacp_get_name cp) (\<lambda>name.
           bindr (elacp_get_descr cp) (\<lambda>descr.
           bindr (elacp_get_gender cp) (\<lambda>gender.
           bindr (elacp_get_phone cp) (\<lambda>phone.
           bindr (elacp_get_email cp) (\<lambda>email.
           bindr (elacp_get_region cp) (\<lambda>region.
           bindr (unpack_field ELA_MAX_USER_NAME_LEN (eu_name info) name) (\<lambda>(name, c1).
           bindr (unpack_field ELA_MAX_USER_DESCRIPTION_LEN (eu_description info) descr) (\<lambda>(descr, c2).
           bindr (unpack_field ELA_MAX_GENDER_LEN (eu_gender info) gender) (\<lambda>(gender, c3).
           bindr (unpack_field ELA_MAX_PHONE_LEN (eu_phone info) phone) (\<lambda>(phone, c4).
           bindr (unpack_field ELA_MAX_EMAIL_LEN (eu_email info) email) (\<lambda>(email, c5).
           bindr (unpack_field ELA_MAX_REGION_LEN (eu_region info) region) (\<lambda>(region, c6).
           Inr (Some (info\<lparr> eu_name := name, eu_description := descr, eu_gender := gender, eu_phone := phone, eu_email := email,
               eu_region := region, eu_has_avatar := has_avatar \<rparr>,
             c1 \<or> c2 \<or> c3 \<or> c4 \<or> c5 \<or> c6 \<or> eu_has_avatar info \<noteq> has_avatar)))))))))))))))))"

text \<open>The name that tox keeps is set to the name of the profile where they differ.\<close>

definition sync_name :: "'t node_env \<Rightarrow> 't node \<Rightarrow> 't node res" where
  "sync_name env w =
     bindr (dht_self_get_name (ne_tox env) (n_tox w) (ELA_MAX_USER_NAME_LEN + 1)) (\<lambda>dht_name.
     let set_name = w\<lparr> n_tox := snd (dht_self_set_name (ne_tox env) (n_tox w) (cstring (eu_name (n_me w)))) \<rparr> in
     if length dht_name \<le> 1 then Inr (if eu_name (n_me w) = [] then w else set_name)
     else bindr (read_c_string dht_name 0) (\<lambda>s. Inr (if string_of s = eu_name (n_me w) then w else set_name)))"

definition get_self_info_cb :: "'t node_env \<Rightarrow> 't node \<Rightarrow> byte list \<Rightarrow> byte list \<Rightarrow> int \<Rightarrow> byte list \<Rightarrow> 't node res" where
  "get_self_info_cb env w address public_key user_status desc =
     (let w = w\<lparr> n_address := address, n_public_key := public_key,
            n_base58_addr := key_text env address (ELA_MAX_ADDRESS_LEN + 1),
            n_me := (n_me w)\<lparr> eu_userid := key_text env public_key (ELA_MAX_ID_LEN + 1) \<rparr>,
            n_presence_status := get_presence_status user_status \<rparr> in
      bindr (if desc \<noteq> [] then
          bindr (unpack_user_desc (ne_flatcc env) (ne_alloc env w) desc (n_me w)) (\<lambda>u.
          Inr (case u of None \<Rightarrow> w | Some (ui, _) \<Rightarrow> w\<lparr> n_me := ui \<rparr>))
        else fill_empty_user_desc env w) (\<lambda>w. sync_name env w))"

definition friends_iterate_cb :: "'t node_env \<Rightarrow> u32 \<Rightarrow> byte list \<Rightarrow> int \<Rightarrow> byte list \<Rightarrow> 't node \<Rightarrow> (bool \<times> 't node) res" where
  "friends_iterate_cb env friend_number public_key user_status desc w =
     bindr (g_assert (friend_number \<noteq> -1)) (\<lambda>_.
     if \<not> ne_alloc env w then Inr (False, w)
     else
       (let ui = blank_user (key_text env public_key (ELA_MAX_ID_LEN + 1)) in
        bindr (if desc \<noteq> [] then unpack_user_desc (ne_flatcc env) (ne_alloc env w) desc ui else Inr (Some (ui, False))) (\<lambda>u.
        Inr (case u of None \<Rightarrow> (False, w)
          | Some (ui, _) \<Rightarrow> (True, node_friends_put w (new_friend friend_number ui (get_presence_status user_status)))))))"

section \<open>What the network tells\<close>

definition notify_friends :: "'t node_env \<Rightarrow> 't node \<Rightarrow> 't node" where
  "notify_friends env w =
     n_call env CbFriendList (CallFriendList None)
       (foldl (\<lambda>w (n, fi). n_call env CbFriendList (CallFriendList (Some (fi_info fi))) w) w (n_friends w))"

definition notify_connection_cb :: "'t node_env \<Rightarrow> 't node \<Rightarrow> bool \<Rightarrow> 't node" where
  "notify_connection_cb env w connected =
     (let w = (if \<not> n_is_ready w \<and> connected then n_call env CbReady CallReady (w\<lparr> n_is_ready := True \<rparr>) else w);
          w = w\<lparr> n_connection_status := (if connected then ElaConnectionStatus_Connected else ElaConnectionStatus_Disconnected) \<rparr> in
      n_call env CbConnectionStatus (CallConnectionStatus (n_connection_status w)) w)"

definition notify_friend_info :: "'t node_env \<Rightarrow> 't node \<Rightarrow> u32 \<Rightarrow> ElaFriendInfo \<Rightarrow> 't node res" where
  "notify_friend_info env w friend_number info =
     bindr (g_assert (friend_number \<noteq> -1)) (\<lambda>_.
     bindr (node_friends_exist w friend_number) (\<lambda>e.
     Inr (if e then n_call env CbFriendInfo (CallFriendInfo (eu_userid (ef_user_info info)) info) w else w)))"

definition notify_friend_description_cb :: "'t node_env \<Rightarrow> 't node \<Rightarrow> u32 \<Rightarrow> byte list \<Rightarrow> 't node res" where
  "notify_friend_description_cb env w friend_number desc =
     bindr (g_assert (friend_number \<noteq> -1)) (\<lambda>_.
     bindr (node_friends_get w friend_number) (\<lambda>(fio, w).
     case fio of None \<Rightarrow> Inr w
     | Some fi \<Rightarrow>
         if desc = [] then Inr (friend_deref w friend_number)
         else
           bindr (unpack_user_desc (ne_flatcc env) (ne_alloc env w) desc (ef_user_info (fi_info fi))) (\<lambda>u.
           case u of None \<Rightarrow> Inr (friend_deref w friend_number)
           | Some (ui, changed) \<Rightarrow>
               let info = (fi_info fi)\<lparr> ef_user_info := ui \<rparr>; w = friend_update w friend_number (\<lambda>fi. fi\<lparr> fi_info := info \<rparr>) in
               bindr (if changed then notify_friend_info env w friend_number info else Inr w) (\<lambda>w.
               Inr (friend_deref w friend_number)))))"

definition notify_friend_connection :: "'t node_env \<Rightarrow> 't node \<Rightarrow> string \<Rightarrow> ElaConnectionStatus \<Rightarrow> 't node" where
  "notify_friend_connection env w friendid status = n_call env CbFriendConnection (CallFriendConnection friendid status) w"

definition notify_friend_connection_cb :: "'t node_env \<Rightarrow> 't node \<Rightarrow> u32 \<Rightarrow> bool \<Rightarrow> 't node res" where
  "notify_friend_connection_cb env w friend_number connected =
     bindr (g_assert (friend_number \<noteq> -1)) (\<lambda>_.
     bindr (node_friends_get w friend_number) (\<lambda>(fio, w).
     case fio of None \<Rightarrow> Inr w
     | Some fi \<Rightarrow>
         let status = (if connected then ElaConnectionStatus_Connected else ElaConnectionStatus_Disconnected) in
         bindr (if status \<noteq> ef_status (fi_info fi) then
             bindr (copy_str (ELA_MAX_ID_LEN + 1) (eu_userid (ef_user_info (fi_info fi)))) (\<lambda>tmpid.
             Inr (notify_friend_connection env
               (friend_update w friend_number (\<lambda>fi. fi\<lparr> fi_info := (fi_info fi)\<lparr> ef_status := status \<rparr> \<rparr>)) tmpid status))
           else Inr w) (\<lambda>w. Inr (friend_deref w friend_number))))"

definition notify_friend_presence :: "'t node_env \<Rightarrow> 't node \<Rightarrow> string \<Rightarrow> ElaPresenceStatus \<Rightarrow> 't node" where
  "notify_friend_presence env w friendid presence = n_call env CbFriendPresence (CallFriendPresence friendid presence) w"

text \<open>The branch for an invalid status does not give the reference back.\<close>

definition notify_friend_status_cb :: "'t node_env \<Rightarrow> 't node \<Rightarrow> u32 \<Rightarrow> int \<Rightarrow> 't node res" where
  "notify_friend_status_cb env w friend_number status =
     bindr (g_assert (friend_number \<noteq> -1)) (\<lambda>_.
     bindr (node_friends_get w friend_number) (\<lambda>(fio, w).
     case fio of None \<Rightarrow> Inr w
     | Some fi \<Rightarrow>
         if status < 0 \<or> status > 2 then Inr w
         else
           (let presence = get_presence_status status in
            bindr (if presence \<noteq> ef_presence (fi_info fi) then
                bindr (copy_str (ELA_MAX_ID_LEN + 1) (eu_userid (ef_user_info (fi_info fi)))) (\<lambda>tmpid.
                Inr (notify_friend_presence env
                  (friend_update w friend_number (\<lambda>fi. fi\<lparr> fi_info := (fi_info fi)\<lparr> ef_presence := presence \<rparr> \<rparr>)) tmpid presence))
              else Inr w) (\<lambda>w. Inr (friend_deref w friend_number)))))"

definition notify_friend_request_cb :: "'t node_env \<Rightarrow> 't node \<Rightarrow> byte list \<Rightarrow> byte list \<Rightarrow> 't node res" where
  "notify_friend_request_cb env w public_key gretting =
     bindr (g_assert (gretting \<noteq> [])) (\<lambda>_.
     let (rc, friend_number) = dht_get_friend_number (ne_tox env) (n_tox w) public_key in
     if rc = 0 \<and> friend_number \<noteq> -1 then Inr w
     else
       bindr (elacp_decode (ne_flatcc env) (ne_alloc env w) gretting) (\<lambda>cpo.
       case cpo of None \<Rightarrow> Inr w
       | Some cp \<Rightarrow>
           if elacp_get_type cp \<noteq> ELACP_TYPE_FRIEND_REQUEST then Inr w
           else
             (let ui = blank_user (key_text env public_key (ELA_MAX_ID_LEN + 1)) in
              bindr (elacp_get_name cp) (\<lambda>name.
              bindr (elacp_get_descr cp) (\<lambda>descr.
              bindr (elacp_get_hello cp) (\<lambda>hello.
              bindr (copy_str (ELA_MAX_USER_NAME_LEN + 1) (case name of None \<Rightarrow> [] | Some s \<Rightarrow> s)) (\<lambda>name.
              bindr (copy_str (ELA_MAX_USER_DESCRIPTION_LEN + 1) (case descr of None \<Rightarrow> [] | Some s \<Rightarrow> s)) (\<lambda>descr.
              let ui = ui\<lparr> eu_name := name, eu_description := descr \<rparr> in
              Inr (n_call env CbFriendRequest
                (CallFriendRequest (eu_userid ui) ui (case hello of None \<Rightarrow> [] | Some s \<Rightarrow> s)) w)))))))))"

section \<open>Events for the user\<close>

definition notify_friend_added :: "'t node_env \<Rightarrow> 't node \<Rightarrow> ElaFriendInfo \<Rightarrow> 't node res" where
  "notify_friend_added env w fi =
     bindr (node_store env w) (\<lambda>w.
     Inr (if ne_alloc env w then w\<lparr> n_friend_events := n_friend_events w @ [FriendEventType_Added fi] \<rparr> else w))"

definition notify_friend_removed :: "'t node_env \<Rightarrow> 't node \<Rightarrow> ElaFriendInfo \<Rightarrow> 't node res" where
  "notify_friend_removed env w fi =
     bindr (node_store env w) (\<lambda>w.
     Inr (if ne_alloc env w then w\<lparr> n_friend_events := n_friend_events w @ [FriendEventType_Removed fi] \<rparr> else w))"

definition do_friend_event :: "'t node_env \<Rightarrow> 't node \<Rightarrow> FriendEvent \<Rightarrow> 't node" where
  "do_friend_event env w event = (case event of
     FriendEventType_Added fi \<Rightarrow> n_call env CbFriendAdded (CallFriendAdded fi) w
   | FriendEventType_Removed fi \<Rightarrow>
       let userid = eu_userid (ef_user_info fi);
           w = (if ef_status fi = ElaConnectionStatus_Connected
                then n_call env CbFriendConnection (CallFriendConnection userid ElaConnectionStatus_Disconnected) w else w) in
       n_call env CbFriendRemoved (CallFriendRemoved userid) w)"

definition do_friend_events :: "'t node_env \<Rightarrow> 't node \<Rightarrow> 't node" where
  "do_friend_events env w = (foldl (do_friend_event env) w (n_friend_events w))\<lparr> n_friend_events := [] \<rparr>"

section \<open>The own profile\<close>

text \<open>\<open>length\<close> is the size of the buffer of the caller.\<close>

definition ela_get_address :: "'t node \<Rightarrow> nat \<Rightarrow> string option \<times> 't node" where
  "ela_get_address w len =
     (if len = 0 then (None, snd (n_fail w (ELA_GENERAL_ERROR ELAERR_INVALID_ARGS)))
      else if length (n_base58_addr w) \<ge> len then (None, snd (n_fail w (ELA_GENERAL_ERROR ELAERR_BUFFER_TOO_SMALL)))
      else (Some (n_base58_addr w), w))"

definition ela_get_nodeid :: "'t node \<Rightarrow> nat \<Rightarrow> string option \<times> 't node" where
  "ela_get_nodeid w len =
     (if len = 0 then (None, snd (n_fail w (ELA_GENERAL_ERROR ELAERR_INVALID_ARGS)))
      else if length (eu_userid (n_me w)) \<ge> len then (None, snd (n_fail w (ELA_GENERAL_ERROR ELAERR_BUFFER_TOO_SMALL)))
      else (Some (eu_userid (n_me w)), w))"

definition ela_get_userid :: "'t node \<Rightarrow> nat \<Rightarrow> string option \<times> 't node" where
  "ela_get_userid w len = ela_get_nodeid w len"

definition node_self_info :: "'t node_env \<Rightarrow> 't node \<Rightarrow> 't node res" where
  "node_self_info env w = dht_get_self_info (ne_tox env) (n_tox w) (get_self_info_cb env w)"

definition ela_set_self_nospam :: "'t node_env \<Rightarrow> 't node \<Rightarrow> u32 \<Rightarrow> (int \<times> 't node) res" where
  "ela_set_self_nospam env w nospam =
     (let w = w\<lparr> n_tox := dht_self_set_nospam (ne_tox env) (n_tox w) nospam \<rparr> in
      bindr (node_self_info env w) (\<lambda>w. bindr (node_store env w) (\<lambda>w. Inr (0, w))))"

definition ela_get_self_nospam :: "'t node_env \<Rightarrow> 't node \<Rightarrow> int \<times> u32" where
  "ela_get_self_nospam env w = (0, dht_self_get_nospam (ne_tox env) (n_tox w))"

text \<open>The fields of a profile without the id.\<close>

definition info_changed :: "ElaUserInfo \<Rightarrow> ElaUserInfo \<Rightarrow> bool" where
  "info_changed a b \<longleftrightarrow> eu_has_avatar a \<noteq> eu_has_avatar b \<or> eu_name a \<noteq> eu_name b \<or> eu_description a \<noteq> eu_description b \<or>
     eu_gender a \<noteq> eu_gender b \<or> eu_phone a \<noteq> eu_phone b \<or> eu_email a \<noteq> eu_email b \<or> eu_region a \<noteq> eu_region b"

definition ela_set_self_info :: "'t node_env \<Rightarrow> 't node \<Rightarrow> ElaUserInfo \<Rightarrow> (int \<times> 't node) res" where
  "ela_set_self_info env w info =
     (if eu_userid info \<noteq> eu_userid (n_me w) then Inr (n_fail w (ELA_GENERAL_ERROR ELAERR_INVALID_ARGS))
      else if \<not> ne_alloc env w then Inr (n_fail w (ELA_GENERAL_ERROR ELAERR_OUT_OF_MEMORY))
      else if \<not> info_changed info (n_me w) then Inr (0, w)
      else
        (let (rc, t) = (if eu_name info \<noteq> eu_name (n_me w)
               then dht_self_set_name (ne_tox env) (n_tox w) (cstring (eu_name info)) else (0, n_tox w));
             w = w\<lparr> n_tox := t \<rparr> in
         if rc \<noteq> 0 then Inr (n_fail w rc)
         else
           bindr (info_packet env True info) (\<lambda>data.
           case data of
             Some (Some bs) \<Rightarrow>
               let w = w\<lparr> n_me := info, n_tox := snd (dht_self_set_desc (ne_tox env) (n_tox w) bs) \<rparr> in
               bindr (node_store env w) (\<lambda>w. Inr (0, w))
           | _ \<Rightarrow> Inr (n_fail w (ELA_GENERAL_ERROR ELAERR_OUT_OF_MEMORY)))))"

definition ela_get_self_info :: "'t node \<Rightarrow> int \<times> ElaUserInfo" where
  "ela_get_self_info w = (0, n_me w)"

text \<open>The status is the number of the enumeration.\<close>

definition ela_set_self_presence :: "'t node_env \<Rightarrow> 't node \<Rightarrow> int \<Rightarrow> int \<times> 't node" where
  "ela_set_self_presence env w status =
     (if status < 0 \<or> status > 2 then n_fail w (ELA_GENERAL_ERROR ELAERR_INVALID_ARGS)
      else (0, w\<lparr> n_tox := dht_self_set_status (ne_tox env) (n_tox w) status \<rparr>))"

definition ela_get_self_presence :: "'t node_env \<Rightarrow> 't node \<Rightarrow> int \<times> ElaPresenceStatus" where
  "ela_get_self_presence env w =
     (let s = dht_self_get_status (ne_tox env) (n_tox w) in
      (0, if s < 0 then ElaPresenceStatus_None else if s > 2 then ElaPresenceStatus_None else get_presence_status s))"

definition ela_is_ready :: "'t node \<Rightarrow> bool \<times> 't node" where
  "ela_is_ready w = (n_is_ready w, w\<lparr> n_error := 0 \<rparr>)"

section \<open>Friends\<close>

text \<open>An error code, or 0 and the number.\<close>

definition node_get_friend_number :: "'t node_env \<Rightarrow> 't node \<Rightarrow> string \<Rightarrow> u32 \<times> u32" where
  "node_get_friend_number env w friendid = (case ne_base58_decode env friendid of
     None \<Rightarrow> (ELA_GENERAL_ERROR ELAERR_INVALID_ARGS, -1)
   | Some public_key \<Rightarrow>
       if length public_key \<noteq> DHT_PUBLIC_KEY_SIZE then (ELA_GENERAL_ERROR ELAERR_INVALID_ARGS, -1)
       else (case dht_get_friend_number (ne_tox env) (n_tox w) public_key of (rc, n) \<Rightarrow>
         if sint rc < 0 then (ELA_GENERAL_ERROR ELAERR_NOT_EXIST, n) else (rc, n)))"

text \<open>The callback of the user gets each friend, until it returns false, and then the end of the list; the infos it gets are returned.\<close>

fun get_friends_iter :: "(ElaFriendInfo option \<Rightarrow> bool) \<Rightarrow> friends \<Rightarrow> ElaFriendInfo option list" where
  "get_friends_iter callback [] = [None]"
| "get_friends_iter callback ((n, fi) # it) =
     Some (fi_info fi) # (if callback (Some (fi_info fi)) then get_friends_iter callback it else [])"

definition ela_get_friends :: "'t node \<Rightarrow> (ElaFriendInfo option \<Rightarrow> bool) \<Rightarrow> int \<times> ElaFriendInfo option list" where
  "ela_get_friends w callback = (0, get_friends_iter callback (n_friends w))"

definition ela_get_friend_info :: "'t node_env \<Rightarrow> 't node \<Rightarrow> string \<Rightarrow> (int \<times> ElaFriendInfo option \<times> 't node) res" where
  "ela_get_friend_info env w friendid =
     (let fail = (\<lambda>w e. Inr (-1, None, snd (n_fail w e))) in
      if friendid = [] then fail w (ELA_GENERAL_ERROR ELAERR_INVALID_ARGS)
      else (case node_get_friend_number env w friendid of (rc, friend_number) \<Rightarrow>
        if sint rc < 0 then fail w rc
        else
          bindr (node_friends_get w friend_number) (\<lambda>(fio, w).
          case fio of None \<Rightarrow> fail w (ELA_GENERAL_ERROR ELAERR_NOT_EXIST)
          | Some fi \<Rightarrow>
              bindr (g_assert (friendid = eu_userid (ef_user_info (fi_info fi)))) (\<lambda>_.
              Inr (0, Some (fi_info fi), friend_deref w friend_number)))))"

definition ela_set_friend_label :: "'t node_env \<Rightarrow> 't node \<Rightarrow> string \<Rightarrow> string option \<Rightarrow> (int \<times> 't node) res" where
  "ela_set_friend_label env w friendid label =
     (if friendid = [] then Inr (n_fail w (ELA_GENERAL_ERROR ELAERR_INVALID_ARGS))
      else if (case label of None \<Rightarrow> False | Some l \<Rightarrow> length l > ELA_MAX_USER_NAME_LEN) then
        Inr (n_fail w (ELA_GENERAL_ERROR ELAERR_INVALID_ARGS))
      else (case node_get_friend_number env w friendid of (rc, friend_number) \<Rightarrow>
        if sint rc < 0 then Inr (n_fail w rc)
        else
          bindr (node_friends_get w friend_number) (\<lambda>(fio, w).
          case fio of None \<Rightarrow> Inr (n_fail w (ELA_GENERAL_ERROR ELAERR_NOT_EXIST))
          | Some fi \<Rightarrow>
              bindr (g_assert (friendid = eu_userid (ef_user_info (fi_info fi)))) (\<lambda>_.
              bindr (copy_str (ELA_MAX_USER_NAME_LEN + 1) (case label of None \<Rightarrow> [] | Some l \<Rightarrow> l)) (\<lambda>l.
              let w = friend_deref (friend_update w friend_number (\<lambda>fi. set_label fi l)) friend_number in
              bindr (node_store env w) (\<lambda>w. Inr (0, w)))))))"

definition ela_is_friend :: "'t node_env \<Rightarrow> 't node \<Rightarrow> string \<Rightarrow> (bool \<times> 't node) res" where
  "ela_is_friend env w userid =
     (if userid = [] then Inr (False, snd (n_fail w (ELA_GENERAL_ERROR ELAERR_INVALID_ARGS)))
      else (case node_get_friend_number env w userid of (rc, friend_number) \<Rightarrow>
        if sint rc < 0 \<or> friend_number = -1 then Inr (False, snd (n_fail w rc))
        else bindr (node_friends_exist w friend_number) (\<lambda>e. Inr (e, w\<lparr> n_error := 0 \<rparr>))))"

definition key_valid :: "'t node_env \<Rightarrow> string \<Rightarrow> bool" where
  "key_valid env key \<longleftrightarrow> (case ne_base58_decode env key of None \<Rightarrow> False | Some bs \<Rightarrow> length bs = DHT_PUBLIC_KEY_SIZE)"

definition address_valid :: "'t node_env \<Rightarrow> string \<Rightarrow> bool" where
  "address_valid env address = address_ok (ne_base58_decode env address)"

text \<open>The greeting of a friend request.\<close>

definition friend_request_packet :: "'t node_env \<Rightarrow> bool \<Rightarrow> ElaUserInfo \<Rightarrow> string \<Rightarrow> byte list option option res" where
  "friend_request_packet env allocated me hello =
     bindr (elacp_create allocated ELACP_TYPE_FRIEND_REQUEST None) (\<lambda>cpo.
     case cpo of None \<Rightarrow> Inr None
     | Some cp \<Rightarrow>
         bindr (elacp_set_name cp (Some (eu_name me))) (\<lambda>cp.
         bindr (elacp_set_descr cp (Some (eu_description me))) (\<lambda>cp.
         bindr (elacp_set_hello cp (Some hello)) (\<lambda>cp.
         bindr (elacp_encode (ne_flatcc env) cp) (\<lambda>data. Inr (Some data))))))"

definition ela_add_friend :: "'t node_env \<Rightarrow> 't node \<Rightarrow> string \<Rightarrow> string \<Rightarrow> (int \<times> 't node) res" where
  "ela_add_friend env w address hello =
     (if hello = [] \<or> address = [] then Inr (n_fail w (ELA_GENERAL_ERROR ELAERR_INVALID_ARGS))
      else if \<not> address_valid env address then Inr (n_fail w (ELA_GENERAL_ERROR ELAERR_INVALID_ARGS))
      else if address = n_base58_addr w then Inr (n_fail w (ELA_GENERAL_ERROR ELAERR_INVALID_ARGS))
      else if \<not> n_is_ready w then Inr (n_fail w (ELA_GENERAL_ERROR ELAERR_NOT_READY))
      else case ne_base58_decode env address of None \<Rightarrow> Inl BadPointer
      | Some addr \<Rightarrow>
          (case dht_get_friend_number (ne_tox env) (n_tox w) (take DHT_PUBLIC_KEY_SIZE addr) of (rc, friend_number) \<Rightarrow>
             if rc = 0 \<and> friend_number \<noteq> -1 then Inr (n_fail w (ELA_GENERAL_ERROR ELAERR_ALREADY_EXIST))
             else if \<not> ne_alloc env w then Inr (n_fail w (ELA_GENERAL_ERROR ELAERR_OUT_OF_MEMORY))
             else
               bindr (friend_request_packet env (ne_alloc env w) (n_me w) hello) (\<lambda>data.
               case data of
                 Some (Some bs) \<Rightarrow>
                   bindr (dht_friend_add (ne_tox env) (n_tox w) addr bs friend_number) (\<lambda>(rc, friend_number, t).
                   let w = w\<lparr> n_tox := t \<rparr> in
                   if sint rc < 0 then Inr (n_fail w rc)
                   else
                     (let fi = new_friend friend_number (blank_user (key_text env (take DHT_PUBLIC_KEY_SIZE addr) (ELA_MAX_ID_LEN + 1)))
                            ElaPresenceStatus_None in
                      bindr (notify_friend_added env (node_friends_put w fi) (fi_info fi)) (\<lambda>w. Inr (0, w))))
               | _ \<Rightarrow> Inr (n_fail w (ELA_GENERAL_ERROR ELAERR_OUT_OF_MEMORY)))))"

definition ela_accept_friend :: "'t node_env \<Rightarrow> 't node \<Rightarrow> string \<Rightarrow> (int \<times> 't node) res" where
  "ela_accept_friend env w userid =
     (if userid = [] then Inr (n_fail w (ELA_GENERAL_ERROR ELAERR_INVALID_ARGS))
      else if \<not> key_valid env userid then Inr (n_fail w (ELA_GENERAL_ERROR ELAERR_INVALID_ARGS))
      else if userid = eu_userid (n_me w) then Inr (n_fail w (ELA_GENERAL_ERROR ELAERR_INVALID_ARGS))
      else if \<not> n_is_ready w then Inr (n_fail w (ELA_GENERAL_ERROR ELAERR_NOT_READY))
      else (case node_get_friend_number env w userid of (rc, friend_number) \<Rightarrow>
        if rc = 0 \<and> friend_number \<noteq> -1 then Inr (n_fail w (ELA_GENERAL_ERROR ELAERR_ALREADY_EXIST))
        else if \<not> ne_alloc env w then Inr (n_fail w (ELA_GENERAL_ERROR ELAERR_OUT_OF_MEMORY))
        else case ne_base58_decode env userid of None \<Rightarrow> Inl BadPointer
        | Some public_key \<Rightarrow>
            (case dht_friend_add_norequest (ne_tox env) (n_tox w) public_key friend_number of (rc, friend_number, t) \<Rightarrow>
               let w = w\<lparr> n_tox := t \<rparr> in
               if sint rc < 0 then Inr (n_fail w rc)
               else
                 bindr (copy_str (ELA_MAX_ID_LEN + 1) userid) (\<lambda>userid.
                 let fi = new_friend friend_number (blank_user userid) ElaPresenceStatus_None in
                 bindr (notify_friend_added env (node_friends_put w fi) (fi_info fi)) (\<lambda>w. Inr (0, w))))))"

definition ela_remove_friend :: "'t node_env \<Rightarrow> 't node \<Rightarrow> string \<Rightarrow> (int \<times> 't node) res" where
  "ela_remove_friend env w friendid =
     (if friendid = [] then Inr (n_fail w (ELA_GENERAL_ERROR ELAERR_INVALID_ARGS))
      else if \<not> key_valid env friendid then Inr (n_fail w (ELA_GENERAL_ERROR ELAERR_INVALID_ARGS))
      else if \<not> n_is_ready w then Inr (n_fail w (ELA_GENERAL_ERROR ELAERR_NOT_READY))
      else (case node_get_friend_number env w friendid of (rc, friend_number) \<Rightarrow>
        if sint rc < 0 then Inr (n_fail w (ELA_GENERAL_ERROR ELAERR_NOT_EXIST))
        else
          bindr (node_friends_exist w friend_number) (\<lambda>e.
          if \<not> e then Inr (n_fail w (ELA_GENERAL_ERROR ELAERR_NOT_EXIST))
          else
            bindr (dht_friend_delete (ne_tox env) (n_tox w) friend_number) (\<lambda>(rc, t).
            bindr (node_friends_remove (w\<lparr> n_tox := t \<rparr>) friend_number) (\<lambda>(fio, w).
            case fio of None \<Rightarrow> Inl AssertFail
            | Some fi \<Rightarrow> bindr (notify_friend_removed env w (fi_info fi)) (\<lambda>w. Inr (0, w)))))))"

section \<open>Starting a node\<close>

text \<open>
  The part of \<open>ela_new\<close> from loading the files on, for a state in which all tables could be made. \<open>w\<close> is the zeroed node with its files. The result
  is an error code, or the node.
\<close>

definition ela_new_load :: "nat \<Rightarrow> 't node_env \<Rightarrow> 't node \<Rightarrow> bool \<Rightarrow> (u32 \<times> 't node) res" where
  "ela_new_load fuel env w udp_enabled =
     bindr (load_persistence_data fuel (ne_os env) (ne_location env) (n_disk w)) (\<lambda>(pdo, d).
     let w = w\<lparr> n_disk := d \<rparr> in
     case dht_new (ne_tox env) (map_option (\<lambda>pd. take (pd_dht_len pd) (pd_buf pd)) pdo) udp_enabled of
       (rc, None) \<Rightarrow> Inr (rc, w)
     | (rc, Some t) \<Rightarrow>
         bindr (node_self_info env (w\<lparr> n_tox := t, n_friends := [], n_friend_events := [] \<rparr>)) (\<lambda>w.
         bindr (dht_get_friends (ne_tox env) (n_tox w) (friends_iterate_cb env) w) (\<lambda>(rc, w).
         if sint rc < 0 then Inr (rc, w)
         else
           bindr (case pdo of None \<Rightarrow> Inr (n_friends w)
             | Some pd \<Rightarrow> apply_extra_data (n_friends w) (drop (pd_extra_off pd) (pd_buf pd)) (of_nat (pd_extra_len pd))) (\<lambda>fr.
           bindr (node_store env (w\<lparr> n_friends := fr \<rparr>)) (\<lambda>w. Inr (0, w))))))"

end
