(* ===== verification/Persist_Spec.thy ===== *)
theory Persist_Spec
  imports Persist
begin

text \<open>
  The files of a node: what is stored is loaded again, and a program that is stopped at any moment while it stores loads the
  data of before or the data of after. The checksum of an address detects a change of one byte.
\<close>

section \<open>The layout of the file\<close>

lemma copy_bytes_mid: "pos = length a \<Longrightarrow> length b' = length b \<Longrightarrow> copy_bytes (a @ b @ c) pos b' = Inr (a @ b' @ c)"
  by (simp add: copy_bytes_def)

lemma copy_bytes_zeros:
  "pos = length a \<Longrightarrow> length bs \<le> m \<Longrightarrow>
     copy_bytes (a @ replicate m 0 @ c) pos bs = Inr (a @ bs @ replicate (m - length bs) 0 @ c)"
  by (simp add: copy_bytes_def)

lemma round256_gt: "s + 64 < ROUND256 s"
  by (simp add: ROUND256_def)

lemma round256_ge [simp]: "s \<le> ROUND256 s" "\<not> ROUND256 s < s"
  using round256_gt [of s] by simp_all

definition label_entry :: "FriendInfo \<Rightarrow> byte list" where
  "label_entry fi = (if ef_label (fi_info fi) = [] then [] else htonl_bytes (fi_friend_number fi) @ cstring (ef_label (fi_info fi)))"

definition extra_bytes :: "friends \<Rightarrow> byte list" where
  "extra_bytes fr = concat (map (label_entry \<circ> snd) fr)"

lemma extra_bytes_simps [simp]:
  "extra_bytes [] = []" "extra_bytes ((n, fi) # fr) = label_entry fi @ extra_bytes fr"
  by (simp_all add: extra_bytes_def)

lemma length_cstring [simp]: "length (cstring s) = length s + 1"
  by (simp add: cstring_def)

lemma length_label_entry: "length (label_entry fi) = (if ef_label (fi_info fi) = [] then 0 else 4 + length (ef_label (fi_info fi)) + 1)"
  by (simp add: label_entry_def)

lemma extra_size: "extra_size_loop fr n = n + length (extra_bytes fr)"
  by (induction fr n rule: extra_size_loop.induct) (simp_all add: length_label_entry Let_def)

lemma extra_savedata:
  "length (extra_bytes fr) \<le> len \<Longrightarrow> len \<le> m \<Longrightarrow> pos = length a \<Longrightarrow>
     extra_savedata_loop fr (a @ replicate m 0) pos len =
       Inr (a @ extra_bytes fr @ replicate (m - length (extra_bytes fr)) 0)"
proof (induction fr arbitrary: a m pos len)
  case (Cons x fr)
  obtain n fi where x: "x = (n, fi)" by (cases x)
  let ?l = "ef_label (fi_info fi)" and ?e = "label_entry fi"
  show ?case
  proof (cases "?l = []")
    case True
    then show ?thesis using Cons by (auto simp: x label_entry_def)
  next
    case False
    let ?h = "htonl_bytes (fi_friend_number fi)"
    have len: "length ?e = 5 + length ?l" using False by (simp add: length_label_entry)
    have le: "length ?e \<le> len" "len \<le> m" using Cons.prems by (simp_all add: x)
    have c1: "copy_bytes (a @ replicate m 0) (length a) ?h = Inr (a @ ?h @ replicate (m - 4) 0)"
      using copy_bytes_zeros [of "length a" a ?h m "[]"] len le by simp
    have c2: "copy_bytes (a @ ?h @ replicate (m - 4) 0) (length a + 4) (cstring ?l) = Inr ((a @ ?e) @ replicate (m - length ?e) 0)"
      using copy_bytes_zeros [of "length a + 4" "a @ ?h" "cstring ?l" "m - 4" "[]"] len le False
      by (simp add: label_entry_def)
    show ?thesis
      using Cons.IH [of "len - length ?e" "m - length ?e" "pos + length ?e" "a @ ?e"] Cons.prems False len
      by (simp add: x Let_def c1 c2 algebra_simps)
  qed
qed simp

definition persist_body :: "byte list \<Rightarrow> byte list \<Rightarrow> byte list" where
  "persist_body dht extra =
     dht @ replicate (ROUND256 (length dht) - length dht) 0 @ extra @ replicate (ROUND256 (length extra) - length extra) 0"

definition persist_image :: "os_lib \<Rightarrow> byte list \<Rightarrow> byte list \<Rightarrow> byte list" where
  "persist_image os dht extra =
     persist_header (length dht) (length extra) @ os_sha256 os (persist_body dht extra) @ replicate 208 0 @ persist_body dht extra"

definition sha256_ok :: "os_lib \<Rightarrow> bool" where
  "sha256_ok os \<longleftrightarrow> (\<forall>bs. length (os_sha256 os bs) = SHA256_BYTES)"

lemma length_sha256: "sha256_ok os \<Longrightarrow> length (os_sha256 os bs) = 32"
  by (simp add: sha256_ok_def SHA256_BYTES_def)

lemma length_persist_header [simp]: "length (persist_header a b) = 16"
  by (simp add: persist_header_def)

lemma length_persist_body: "length (persist_body dht extra) = ROUND256 (length dht) + ROUND256 (length extra)"
  using round256_gt [of "length dht"] round256_gt [of "length extra"] by (simp add: persist_body_def)

lemma length_persist_image:
  "sha256_ok os \<Longrightarrow> length (persist_image os dht extra) = 256 + ROUND256 (length dht) + ROUND256 (length extra)"
  by (simp add: persist_image_def length_persist_body length_sha256)

text \<open>The checksum goes into the 32 bytes after the header.\<close>

lemma put_checksum_body:
  assumes "sha256_ok os" and "length h = 16" and "total_len = 256 + length body"
  shows "put_checksum os (h @ replicate 240 0 @ body @ rest) total_len = Inr (h @ os_sha256 os body @ replicate 208 0 @ body @ rest)"
proof -
  let ?s = "os_sha256 os body"
  have "replicate 240 (0::byte) = replicate 32 0 @ replicate 208 0" by (simp flip: replicate_add)
  moreover have "copy_bytes (h @ replicate 32 0 @ replicate 208 0 @ body @ rest) 16 ?s = Inr (h @ ?s @ replicate 208 0 @ body @ rest)"
    using assms by (intro copy_bytes_mid) (simp_all add: length_sha256)
  ultimately show ?thesis
    using assms by (simp add: put_checksum_def)
qed

lemma persist_buffer:
  assumes "sha256_ok os"
  shows "persist_buffer os dht fr = Inr (persist_image os dht (extra_bytes fr))"
proof -
  let ?e = "extra_bytes fr" and ?h = "persist_header (length dht) (length (extra_bytes fr))"
  let ?d = "ROUND256 (length dht)" and ?r = "ROUND256 (length (extra_bytes fr))"
  let ?t = "256 + ?d + ?r"
  have size: "get_extra_savedata_size fr = length ?e"
    by (simp add: get_extra_savedata_size_def extra_size)
  have c1: "copy_bytes (replicate ?t 0) 0 ?h = Inr (?h @ replicate (?t - 16) 0)"
    using copy_bytes_zeros [of 0 "[]" ?h ?t "[]"] by simp
  have split: "?h @ replicate (?t - 16) (0::byte) = (?h @ replicate 240 0) @ replicate (?d + ?r) 0"
    by (simp flip: replicate_add)
  have "length dht \<le> ?d + ?r" using round256_gt [of "length dht"] by simp
  then have c2: "copy_bytes (?h @ replicate (?t - 16) 0) 256 dht = Inr (?h @ replicate 240 0 @ dht @ replicate (?d + ?r - length dht) 0)"
    unfolding split using copy_bytes_zeros [of 256 "?h @ replicate 240 0" dht "?d + ?r" "[]"] by simp
  let ?a = "?h @ replicate 240 0 @ dht @ replicate (?d - length dht) 0"
  have "?d + ?r - length dht = (?d - length dht) + ?r" using round256_gt [of "length dht"] by simp
  then have a: "?h @ replicate 240 0 @ dht @ replicate (?d + ?r - length dht) 0 = ?a @ replicate ?r 0"
    by (simp only: replicate_add append_assoc)
  have c3: "get_extra_savedata fr (?a @ replicate ?r 0) (256 + ?d) ?r = Inr (?a @ ?e @ replicate (?r - length ?e) 0)"
    unfolding get_extra_savedata_def by (rule extra_savedata) simp_all
  have c4: "put_checksum os (?a @ ?e @ replicate (?r - length ?e) 0) ?t = Inr (persist_image os dht ?e)"
    using put_checksum_body [OF assms, of ?h ?t "persist_body dht ?e" "[]"] round256_gt [of "length dht"]
    by (simp add: persist_body_def persist_image_def)
  show ?thesis
    unfolding persist_buffer_def Let_def size c1 bindr_Inr c2 a c3 c4 ..
qed

section \<open>Loading what was stored\<close>

text \<open>Reading from a disk that works: files can be opened and read and there is memory.\<close>

definition reads_ok :: "os_lib \<Rightarrow> bool" where
  "reads_ok os \<longleftrightarrow> (\<forall>f p. os_open os f p) \<and> (\<forall>f p pos n. os_read os f p pos n) \<and> (\<forall>f. os_alloc os f)"

lemma reads_okD [simp]:
  "reads_ok os \<Longrightarrow> os_open os f p" "reads_ok os \<Longrightarrow> os_read os f p pos n" "reads_ok os \<Longrightarrow> os_alloc os f"
  by (simp_all add: reads_ok_def)

lemma bytes_u32_htonl [simp]: "bytes_u32 (htonl_bytes w) = w"
  by (simp add: bytes_u32_def htonl_bytes_def)

lemma file_read_at:
  "reads_ok os \<Longrightarrow> f path = Some (File (a @ b @ c)) \<Longrightarrow> pos = length a \<Longrightarrow> n = length b \<Longrightarrow> file_read os f path pos n = Some b"
  by (simp add: file_read_def)

lemma read_u32_at:
  "reads_ok os \<Longrightarrow> f path = Some (File (a @ htonl_bytes w @ c)) \<Longrightarrow> pos = length a \<Longrightarrow> read_u32 os f path pos = Some w"
  by (simp add: read_u32_def file_read_at)

lemma read_header:
  assumes "reads_ok os" and "f path = Some (File (persist_header dlen elen @ rest))"
  shows "read_u32 os f path 0 = Some PERSISTENCE_MAGIC" "read_u32 os f path 4 = Some PERSISTENCE_REVISION"
    "read_u32 os f path 8 = Some (of_nat dlen)" "read_u32 os f path 12 = Some (of_nat elen)"
proof -
  let ?m = "htonl_bytes PERSISTENCE_MAGIC" and ?r = "htonl_bytes PERSISTENCE_REVISION"
  let ?d = "htonl_bytes (of_nat dlen)" and ?e = "htonl_bytes (of_nat elen)"
  note at = read_u32_at [OF assms(1), of f path]
  show "read_u32 os f path 0 = Some PERSISTENCE_MAGIC"
    using assms by (intro at [of "[]" _ "?r @ ?d @ ?e @ rest"]) (simp_all add: persist_header_def)
  show "read_u32 os f path 4 = Some PERSISTENCE_REVISION"
    using assms by (intro at [of ?m _ "?d @ ?e @ rest"]) (simp_all add: persist_header_def)
  show "read_u32 os f path 8 = Some (of_nat dlen)"
    using assms by (intro at [of "?m @ ?r" _ "?e @ rest"]) (simp_all add: persist_header_def)
  show "read_u32 os f path 12 = Some (of_nat elen)"
    using assms by (intro at [of "?m @ ?r @ ?d" _ rest]) (simp_all add: persist_header_def)
qed

definition stored :: "byte list \<Rightarrow> byte list \<Rightarrow> persistence_data" where
  "stored dht extra = \<lparr> pd_buf = persist_body dht extra, pd_dht_len = length dht, pd_extra_off = ROUND256 (length dht),
     pd_extra_len = length extra \<rparr>"

text \<open>\<open>load_persistence_data_i\<close> refuses larger sections, which \<open>store_persistence_data\<close> writes.\<close>

definition sections_fit :: "byte list \<Rightarrow> byte list \<Rightarrow> bool" where
  "sections_fit dht extra \<longleftrightarrow> length dht \<le> MAX_PERSISTENCE_SECTION_SIZE \<and> length extra \<le> MAX_PERSISTENCE_SECTION_SIZE"

lemma load_image:
  assumes "reads_ok os" "sha256_ok os" "f path = Some (File (persist_image os dht extra))" "sections_fit dht extra"
  shows "load_persistence_data_i os f path = Some (stored dht extra)"
proof -
  let ?h = "persist_header (length dht) (length extra)" and ?b = "persist_body dht extra"
  have hd: "read_u32 os f path 0 = Some PERSISTENCE_MAGIC" "read_u32 os f path 4 = Some PERSISTENCE_REVISION"
    "read_u32 os f path 8 = Some (of_nat (length dht))" "read_u32 os f path 12 = Some (of_nat (length extra))"
    using read_header [OF assms(1), of f path] assms(3) unfolding persist_image_def by blast+
  have u: "unat (of_nat (length dht) :: u32) = length dht" "unat (of_nat (length extra) :: u32) = length extra"
    using assms(4) by (simp_all add: sections_fit_def MAX_PERSISTENCE_SECTION_SIZE_def unat_of_nat_small)
  have sum: "file_read os f path 16 SHA256_BYTES = Some (os_sha256 os ?b)"
    using assms by (intro file_read_at [of os f path ?h _ "replicate 208 0 @ ?b"])
      (simp_all add: persist_image_def length_sha256 SHA256_BYTES_def)
  have body: "file_read os f path 256 (ROUND256 (length dht) + ROUND256 (length extra)) = Some ?b"
    using assms by (intro file_read_at [of os f path "?h @ os_sha256 os ?b @ replicate 208 0" _ "[]"])
      (simp_all add: persist_image_def length_sha256 length_persist_body)
  show ?thesis
    using assms(1-3) assms(4) [unfolded sections_fit_def]
    unfolding load_persistence_data_i_def assms(3) hd u sum body
    by (simp add: hd u sum body Let_def length_persist_image stored_def)
qed

text \<open>A journal that is not complete is refused: its size is wrong.\<close>

lemma load_prefix:
  assumes "reads_ok os" "sha256_ok os" "f path = Some (File (take k (persist_image os dht extra)))"
    "k < length (persist_image os dht extra)" "sections_fit dht extra"
  shows "load_persistence_data_i os f path = None"
proof (cases "k < 256")
  case True
  then show ?thesis using assms(3,4) by (simp add: load_persistence_data_i_def)
next
  case False
  let ?c = "persist_image os dht extra"
  obtain rest where img: "take k ?c = persist_header (length dht) (length extra) @ rest"
    using False by (simp add: persist_image_def)
  have len: "length (take k ?c) = k" using assms(4) by simp
  have hd: "read_u32 os f path 8 = Some (of_nat (length dht))" "read_u32 os f path 12 = Some (of_nat (length extra))"
    using read_header [OF assms(1)] assms(3) img by metis+
  have u: "unat (of_nat (length dht) :: u32) = length dht" "unat (of_nat (length extra) :: u32) = length extra"
    using assms(5) by (simp_all add: sections_fit_def MAX_PERSISTENCE_SECTION_SIZE_def unat_of_nat_small)
  have "k \<noteq> 256 + ROUND256 (length dht) + ROUND256 (length extra)"
    using assms(2,4) by (simp add: length_persist_image)
  then show ?thesis
    using len by (simp add: load_persistence_data_i_def assms(3) hd u Let_def)
qed

section \<open>Stopping at any moment\<close>

lemma mk_error_neg: "ELA_MK_ERROR facility code \<noteq> 0" "sint (ELA_MK_ERROR facility code) < 0"
proof -
  have "bit (ELA_MK_ERROR facility code) 31"
    by (simp add: ELA_MK_ERROR_def bit_or_iff)
  then show "ELA_MK_ERROR facility code \<noteq> 0" "sint (ELA_MK_ERROR facility code) < 0"
    using bit_last_iff [of "ELA_MK_ERROR facility code"] by auto
qed

lemmas error_neg [simp] = mk_error_neg [of ELAF_SYS, folded ELA_SYS_ERROR_def] mk_error_neg [of ELAF_GENERAL, folded ELA_GENERAL_ERROR_def]

definition all_states :: "(fs \<Rightarrow> bool) \<Rightarrow> disk \<Rightarrow> bool" where
  "all_states Q d \<longleftrightarrow> (\<forall>f\<in>set (disk_states d). Q f)"

lemma all_states_now: "all_states Q d \<Longrightarrow> Q (d_fs d)"
  by (simp add: all_states_def disk_states_def)

lemma all_states_mono: "all_states Q d \<Longrightarrow> (\<And>f. Q f \<Longrightarrow> R f) \<Longrightarrow> all_states R d"
  by (simp add: all_states_def)

lemma all_states_disk_of [simp]: "all_states Q (disk_of f) = Q f"
  by (simp add: all_states_def disk_states_def disk_of_def)

lemma all_states_step [simp]: "all_states Q (disk_step d f) = (all_states Q d \<and> Q f)"
  by (auto simp: all_states_def disk_states_def disk_step_def)

lemma all_states_write:
  "all_states Q d \<Longrightarrow> (\<And>k. k \<le> n \<Longrightarrow> Q ((d_fs d)(path \<mapsto> File (take k bs)))) \<Longrightarrow> all_states Q (disk_write d path bs n)"
  by (auto simp: all_states_def disk_states_def disk_write_def)

lemma disk_fs [simp]:
  "d_fs (disk_of f) = f" "d_fs (disk_step d f) = f" "d_fs (disk_write d path bs n) = (d_fs d)(path \<mapsto> File (take n bs))"
  by (simp_all add: disk_of_def disk_step_def disk_write_def)

lemma all_states_remove:
  "all_states Q d \<Longrightarrow> Q ((d_fs d)(path := None)) \<Longrightarrow> all_states Q (disk_remove os path d)"
  by (simp add: disk_remove_def)

lemma load_i_exists: "load_persistence_data_i os f p = Some pd \<Longrightarrow> \<exists>n. f p = Some n"
  by (cases "f p") (simp_all add: load_persistence_data_i_def)

text \<open>Which data a node that starts on the files \<open>f\<close> loads.\<close>

definition loads :: "os_lib \<Rightarrow> string \<Rightarrow> fs \<Rightarrow> persistence_data \<Rightarrow> bool" where
  "loads os loc f pd \<longleftrightarrow> (\<exists>d. load_persistence_data 0 os loc (disk_of f) = Inr (Some pd, d))"

lemma loads_iff:
  assumes "reads_ok os"
  shows "loads os loc f pd \<longleftrightarrow> (case load_persistence_data_i os f (journal_path loc) of Some p \<Rightarrow> p = pd
     | None \<Rightarrow> load_persistence_data_i os f (data_path loc) = Some pd)"
proof -
  have no: "f p = None \<Longrightarrow> load_persistence_data_i os f p = None" for p
    by (simp add: load_persistence_data_i_def)
  show ?thesis
    using assms
    by (auto simp: loads_def load_persistence_data_def load_data.simps accessible_def load_file_def no split: option.splits)
qed

lemma load_i_cong:
  assumes "reads_ok os" and "f p = g q"
  shows "load_persistence_data_i os f p = load_persistence_data_i os g q"
proof -
  have "file_read os f p pos n = file_read os g q pos n" for pos n
    using assms by (simp add: file_read_def split: option.splits fnode.splits)
  then have r: "file_read os f p = file_read os g q" by blast
  have a: "os_alloc os f = os_alloc os g" using assms by simp
  show ?thesis
    unfolding load_persistence_data_i_def read_u32_def assms(2) r a ..
qed

lemma paths_distinct [simp]:
  "journal_path loc \<noteq> data_path loc" "data_path loc \<noteq> journal_path loc"
  "length p \<le> length loc \<Longrightarrow> p \<noteq> journal_path loc" "length p \<le> length loc \<Longrightarrow> p \<noteq> data_path loc"
  by (auto simp: journal_path_def data_path_def)

lemma load_i_upd:
  assumes "reads_ok os"
  shows "q \<noteq> p \<Longrightarrow> load_persistence_data_i os (f(q := x)) p = load_persistence_data_i os f p"
    "load_persistence_data_i os (f(p := None)) p = None"
proof -
  show "q \<noteq> p \<Longrightarrow> load_persistence_data_i os (f(q := x)) p = load_persistence_data_i os f p"
    by (rule load_i_cong [OF assms]) simp
qed (simp add: load_persistence_data_i_def)

text \<open>The journal takes the place of the data file; both orders of failure leave one of them.\<close>

lemma replace_states:
  assumes "reads_ok os" and "all_states Q d" and j: "load_persistence_data_i os (d_fs d) (journal_path loc) = Some pd"
    and Q: "\<And>f. loads os loc f pd \<Longrightarrow> Q f"
  defines "d' \<equiv> disk_rename os (journal_path loc) (data_path loc) (disk_remove os (data_path loc) d)"
  shows "all_states Q d'" "loads os loc (d_fs d') pd"
proof -
  define e where "e = disk_remove os (data_path loc) d"
  have "loads os loc ((d_fs d)(data_path loc := None)) pd" "loads os loc (d_fs d) pd"
    using assms by (simp_all add: loads_iff load_i_upd)
  then have e: "all_states Q e" "loads os loc (d_fs e) pd" and ej: "load_persistence_data_i os (d_fs e) (journal_path loc) = Some pd"
    using assms by (auto simp: e_def disk_remove_def load_i_upd)
  obtain n where n: "d_fs e (journal_path loc) = Some n"
    using load_i_exists [OF ej] by blast
  let ?f = "(d_fs e)(journal_path loc := None, data_path loc \<mapsto> n)"
  have "load_persistence_data_i os ?f (data_path loc) = Some pd"
    using load_i_cong [OF assms(1), of ?f "data_path loc" "d_fs e" "journal_path loc"] n ej by simp
  then have f: "loads os loc ?f pd"
    using assms(1) by (simp add: loads_iff load_i_upd)
  have "d' = (if os_rename os (d_fs e) (journal_path loc) (data_path loc) then disk_step e ?f else e)"
    by (simp add: d'_def disk_rename_def n flip: e_def)
  then show "all_states Q d'" "loads os loc (d_fs d') pd"
    using e f Q [OF f] by simp_all
qed

lemma mkdir_internal_states:
  assumes "all_states Q d" and "\<And>f. Q f \<Longrightarrow> Q (f(path \<mapsto> Dir))" and "mkdir_internal os path d = (ok, d')"
  shows "all_states Q d'"
  using assms all_states_now [OF assms(1)]
  by (auto simp: mkdir_internal_def Let_def split: option.splits fnode.splits if_splits)

lemma mkdirs_loop_states:
  assumes "all_states Q d" and "\<And>f p. length p \<le> m \<Longrightarrow> Q f \<Longrightarrow> Q (f(p \<mapsto> Dir))"
    and "mkdirs_loop os pre rest d = (ok, d')" and "length pre + length rest \<le> m"
  shows "all_states Q d'"
  using assms(1,3,4)
proof (induction os pre rest d rule: mkdirs_loop.induct)
  case (1 os pre rest d)
  let ?seg = "takeWhile (\<lambda>c. c \<noteq> CHR ''/'') rest"
  show ?case
  proof (cases "dropWhile (\<lambda>c. c \<noteq> CHR ''/'') rest")
    case Nil
    then have "mkdirs_loop os pre rest d = (True, d)"
      by (subst mkdirs_loop.simps) (simp only: list.case)
    then show ?thesis using "1.prems" by simp
  next
    case (Cons c rest')
    have len: "length rest = length ?seg + Suc (length rest')"
      using takeWhile_dropWhile_id [of "\<lambda>c. c \<noteq> CHR ''/''" rest] Cons by (metis length_append length_Cons)
    obtain ok1 d1 where m: "(if ?seg \<noteq> [] then mkdir_internal os (pre @ ?seg) d else (True, d)) = (ok1, d1)"
      by (cases "if ?seg \<noteq> [] then mkdir_internal os (pre @ ?seg) d else (True, d)")
    have "all_states Q d1"
      using m mkdir_internal_states [OF "1.prems"(1) assms(2), where path = "pre @ ?seg"] "1.prems"(1,3) len
      by (auto split: if_splits)
    moreover have "mkdirs_loop os pre rest d = (if ok1 then mkdirs_loop os (pre @ ?seg @ ''/'') rest' d1 else (False, d1))"
      by (subst mkdirs_loop.simps) (simp only: Cons list.case Let_def m prod.case)
    ultimately show ?thesis
      using "1.IH" [OF Cons refl m [symmetric] refl] "1.prems"(2,3) len by (auto split: if_splits)
  qed
qed

lemma mkdirs_states:
  assumes "all_states Q d" and "\<And>f p. length p \<le> length loc \<Longrightarrow> Q f \<Longrightarrow> Q (f(p \<mapsto> Dir))"
    and "mkdirs os loc d = (ok, d')"
  shows "all_states Q d'"
proof -
  obtain ok1 d1 where l: "mkdirs_loop os [] (take (PATH_MAX - 1) loc) d = (ok1, d1)"
    by (cases "mkdirs_loop os [] (take (PATH_MAX - 1) loc) d")
  have "all_states Q d1"
    by (rule mkdirs_loop_states [OF assms(1,2) l]) auto
  then show ?thesis
    using assms(3) l mkdir_internal_states [of Q d1 loc os] assms(2) [of loc] by (auto simp: mkdirs_def split: if_splits)
qed

text \<open>Loading may be stopped, too: each state it goes through loads the same data again.\<close>

definition recovers :: "os_lib \<Rightarrow> string \<Rightarrow> fs \<Rightarrow> persistence_data \<Rightarrow> bool" where
  "recovers os loc f pd \<longleftrightarrow>
     (\<exists>d. load_persistence_data 0 os loc (disk_of f) = Inr (Some pd, d) \<and> (\<forall>g\<in>set (disk_states d). loads os loc g pd))"

lemma loads_recovers:
  assumes "reads_ok os" and "loads os loc f pd"
  shows "recovers os loc f pd"
proof (cases "load_persistence_data_i os f (journal_path loc)")
  case None
  then have "load_persistence_data_i os f (data_path loc) = Some pd"
    using assms by (simp add: loads_iff)
  moreover from this have "f (data_path loc) \<noteq> None"
    using load_i_exists by fastforce
  ultimately have "load_persistence_data 0 os loc (disk_of f) = Inr (Some pd, disk_of f)"
    using assms(1) None by (simp add: load_persistence_data_def load_data.simps accessible_def load_file_def)
  then show ?thesis
    using assms(2) by (simp add: recovers_def disk_states_def disk_of_def)
next
  case (Some p)
  then have pd: "p = pd" using assms by (simp add: loads_iff)
  let ?d = "disk_rename os (journal_path loc) (data_path loc) (disk_remove os (data_path loc) (disk_of f))"
  have "f (journal_path loc) \<noteq> None" using load_i_exists [OF Some] by simp
  then have "load_persistence_data 0 os loc (disk_of f) = Inr (Some pd, ?d)"
    using assms(1) Some pd by (simp add: load_persistence_data_def accessible_def load_file_def)
  moreover have "all_states (\<lambda>g. loads os loc g pd) ?d"
    using replace_states(1) [OF assms(1), of "\<lambda>g. loads os loc g pd" "disk_of f" loc pd] assms(2) Some pd by simp
  ultimately show ?thesis by (simp add: recovers_def all_states_def)
qed

text \<open>While the journal is written the data file is as it was; when it is complete the journal has the new data.\<close>

lemma write_journal_states:
  assumes os: "reads_ok os" "sha256_ok os" and fit: "sections_fit dht extra"
    and d: "all_states (\<lambda>f. loads os loc f old) d"
    and data: "load_persistence_data_i os (d_fs d) (data_path loc) = Some old"
    and w: "write_journal os loc (persist_image os dht extra) d = (rc, d')"
  shows "all_states (\<lambda>f. loads os loc f old \<or> loads os loc f (stored dht extra)) d'"
    "rc = 0 \<Longrightarrow> load_persistence_data_i os (d_fs d') (journal_path loc) = Some (stored dht extra)"
proof -
  let ?c = "persist_image os dht extra" and ?j = "journal_path loc" and ?new = "stored dht extra"
  let ?Q = "\<lambda>f. loads os loc f old \<or> loads os loc f ?new"
  let ?f = "\<lambda>k. (d_fs d)(?j \<mapsto> File (take k ?c))"
  have full: "load_persistence_data_i os (?f (length ?c)) ?j = Some ?new"
    by (rule load_image [OF os _ fit]) simp
  have Q: "?Q (?f k)" if "k \<le> length ?c" for k
  proof (cases "k = length ?c")
    case True
    then show ?thesis using full os(1) by (simp add: loads_iff)
  next
    case False
    then have "load_persistence_data_i os (?f k) ?j = None"
      using that False by (intro load_prefix [OF os _ _ fit]) auto
    then show ?thesis using data os(1) by (simp add: loads_iff load_i_upd)
  qed
  have rm: "?Q ((d_fs d)(?j := None))"
    using data os(1) by (simp add: loads_iff load_i_upd)
  let ?d1 = "disk_step d ((d_fs d)(?j \<mapsto> File []))"
  have d1: "all_states ?Q ?d1"
    using all_states_mono [OF d, of ?Q] Q [of 0] by simp
  define n where "n = min (os_write os (d_fs ?d1) ?j ?c) (length ?c)"
  let ?d2 = "disk_write ?d1 ?j ?c n"
  have d2: "all_states ?Q ?d2"
    by (rule all_states_write [OF d1]) (use Q in \<open>simp add: n_def\<close>)
  have d3: "all_states ?Q (disk_remove os ?j ?d2)"
    by (rule all_states_remove [OF d2]) (use rm in simp)
  show "all_states ?Q d'"
    using w d1 d2 d3 all_states_mono [OF d, of ?Q]
    by (auto simp: write_journal_def Let_def n_def split: if_splits)
  show "load_persistence_data_i os (d_fs d') ?j = Some ?new" if "rc = 0"
    using w that full
    by (auto simp: write_journal_def Let_def n_def split: if_splits)
qed

lemma store_states:
  assumes os: "reads_ok os" "sha256_ok os" and fit: "sections_fit dht (extra_bytes fr)"
    and j: "load_persistence_data_i os f (journal_path loc) = None"
    and data: "load_persistence_data_i os f (data_path loc) = Some old"
  obtains rc d where "store_persistence_data os loc dht fr (disk_of f) = Inr (rc, d)"
    "all_states (\<lambda>g. loads os loc g old \<or> loads os loc g (stored dht (extra_bytes fr))) d"
    "rc = 0 \<longrightarrow> loads os loc (d_fs d) (stored dht (extra_bytes fr))"
proof -
  let ?new = "stored dht (extra_bytes fr)" and ?c = "persist_image os dht (extra_bytes fr)"
  let ?O = "\<lambda>f. load_persistence_data_i os f (journal_path loc) = None \<and> load_persistence_data_i os f (data_path loc) = Some old"
  let ?Q = "\<lambda>g. loads os loc g old \<or> loads os loc g ?new"
  have O: "loads os loc g old" if "?O g" for g
    using that os(1) by (simp add: loads_iff)
  obtain ok d1 where mk: "mkdirs os loc (disk_of f) = (ok, d1)"
    by (cases "mkdirs os loc (disk_of f)")
  have d1: "all_states ?O d1"
    by (rule mkdirs_states [OF _ _ mk]) (use j data os(1) in \<open>simp_all add: load_i_upd\<close>)
  have Q1: "all_states ?Q d1" and O1: "all_states (\<lambda>f. loads os loc f old) d1"
    using d1 O by (auto intro: all_states_mono)
  obtain rc d2 where w: "write_journal os loc ?c d1 = (rc, d2)"
    by (cases "write_journal os loc ?c d1")
  note d2 = write_journal_states [OF os fit O1 _ w]
  let ?d3 = "disk_rename os (journal_path loc) (data_path loc) (disk_remove os (data_path loc) d2)"
  have st: "store_persistence_data os loc dht fr (disk_of f) =
      (if \<not> ok then Inr (ELA_SYS_ERROR (os_errno os (d_fs d1)), d1) else if rc \<noteq> 0 then Inr (rc, d2) else Inr (0, ?d3))"
    using os by (simp add: store_persistence_data_def persist_buffer mk w)
  show thesis
  proof (cases "ok \<and> rc = 0")
    case True
    then have d3: "all_states ?Q ?d3" "loads os loc (d_fs ?d3) ?new"
      using replace_states [OF os(1), of ?Q d2 loc ?new] d2 all_states_now [OF d1] by simp_all
    from True have "store_persistence_data os loc dht fr (disk_of f) = Inr (0, ?d3)" by (simp add: st)
    then show thesis using d3 that by blast
  next
    case False
    then show thesis
      using that [of "ELA_SYS_ERROR (os_errno os (d_fs d1))" d1] that [of rc d2] st Q1 d2(1) all_states_now [OF d1]
      by (cases ok) simp_all
  qed
qed

text \<open>
  C8. Storing is safe against a stop at any moment, for a node whose files are in order: the data file can be loaded, there is no
  journal that can be loaded, and the two sections to be stored have at most 16 MB each (which the code does not check). Whatever of the calls that
  change files fail while the data is stored, in every state that the
  files go through, a node that starts on them loads the data of before or the new data, and does so again if it is stopped while
  loading; if \<open>store_persistence_data\<close> returns 0, the new data is loaded. Opening and reading files and allocating memory do not fail.
\<close>

theorem store_crash_safe:
  assumes "reads_ok os" "sha256_ok os" "sections_fit dht (extra_bytes fr)"
    and "load_persistence_data_i os f (journal_path loc) = None"
    and "load_persistence_data_i os f (data_path loc) = Some old"
  shows "\<exists>rc d. store_persistence_data os loc dht fr (disk_of f) = Inr (rc, d) \<and>
     (\<forall>g\<in>set (disk_states d). recovers os loc g old \<or> recovers os loc g (stored dht (extra_bytes fr))) \<and>
     (rc = 0 \<longrightarrow> recovers os loc (d_fs d) (stored dht (extra_bytes fr)))"
proof -
  obtain rc d where "store_persistence_data os loc dht fr (disk_of f) = Inr (rc, d)"
    and "all_states (\<lambda>g. loads os loc g old \<or> loads os loc g (stored dht (extra_bytes fr))) d"
    and "rc = 0 \<longrightarrow> loads os loc (d_fs d) (stored dht (extra_bytes fr))"
    by (rule store_states [OF assms])
  then show ?thesis
    using loads_recovers [OF assms(1)] unfolding all_states_def by blast
qed

section \<open>Labels\<close>

definition no_nul :: "string \<Rightarrow> bool" where
  "no_nul s \<longleftrightarrow> CHR 0x00 \<notin> set s"

text \<open>
  The table of friends as \<open>ela_set_friend_label\<close> and the others keep it: each entry is under its number, no number twice, labels
  fit into their array.
\<close>

definition friends_ok :: "friends \<Rightarrow> bool" where
  "friends_ok fr \<longleftrightarrow> distinct (map fst fr) \<and>
     (\<forall>(n, fi)\<in>set fr. n = fi_friend_number fi \<and> n \<noteq> -1 \<and> no_nul (ef_label (fi_info fi)) \<and>
        length (ef_label (fi_info fi)) \<le> ELA_MAX_USER_NAME_LEN)"

lemma of_char_byte: "char_of (unat (of_char c :: byte)) = c"
proof -
  have "unat (of_nat (of_char c :: nat) :: byte) = of_char c"
    by (rule unat_of_nat_small) (use nat_of_char_less_256 [of c] in simp)
  then show ?thesis by (simp add: of_nat_of_char)
qed

lemma of_char_zero: "(of_char c :: byte) = 0 \<longleftrightarrow> c = CHR 0x00"
proof
  assume "(of_char c :: byte) = 0"
  then have "char_of (0::nat) = c" using of_char_byte [of c] by simp
  then show "c = CHR 0x00" by (simp add: char_of_def)
qed simp

lemma read_c_string_at:
  assumes "no_nul s" and "pos = length a"
  shows "read_c_string (a @ cstring s @ z) pos = Inr (map of_char s)"
proof -
  have "b \<noteq> (0::byte)" if "b \<in> set (map of_char s)" for b
    using assms(1) that by (auto simp: no_nul_def of_char_zero)
  then have "takeWhile (\<lambda>b. b \<noteq> (0::byte)) (map of_char s @ 0 # z) = map of_char s"
    by (subst takeWhile_append2) auto
  then show ?thesis using assms(2) by (simp add: read_c_string_def cstring_def)
qed

text \<open>A friend as the tox library has it, without its label; and a table with the labels of \<open>fr\<close>.\<close>

definition unlabelled :: "friends \<Rightarrow> friends" where
  "unlabelled fr = map (\<lambda>(n, fi). (n, set_label fi [])) fr"

definition put_label :: "friends \<Rightarrow> u32 \<times> FriendInfo \<Rightarrow> friends" where
  "put_label tbl f = (if ef_label (fi_info (snd f)) = [] then tbl
     else map (\<lambda>(n, fi). (n, if n = fst f then set_label fi (ef_label (fi_info (snd f))) else fi)) tbl)"

lemma set_label_same [simp]: "set_label (set_label fi l) l' = set_label fi l'" "set_label fi (ef_label (fi_info fi)) = fi"
  by (simp_all add: set_label_def)

lemma map_fst_put_label [simp]: "map fst (put_label tbl f) = map fst tbl"
  by (simp add: put_label_def comp_def case_prod_beta)

lemma update_put_label:
  "distinct (map fst tbl) \<Longrightarrow> map_of tbl n = Some fi \<Longrightarrow>
     AList.update n (set_label fi l) tbl = map (\<lambda>(m, fi). (m, if m = n then set_label fi l else fi)) tbl"
proof (induction tbl)
  case (Cons x tbl)
  obtain m f where x: "x = (m, f)" by (cases x)
  show ?case
  proof (cases "m = n")
    case True
    then have "\<forall>y\<in>set tbl. fst y \<noteq> n" using Cons.prems(1) by (auto simp: x)
    then have "map (\<lambda>(m, fi). (m, if m = n then set_label fi l else fi)) tbl = tbl"
      by (intro map_idI) auto
    then show ?thesis using True Cons.prems(2) by (simp add: x)
  next
    case False
    then show ?thesis using Cons by (simp add: x)
  qed
qed simp

lemma map_unknown: "map_of tbl n = None \<Longrightarrow> map (\<lambda>(m, fi). (m, if m = n then f fi else fi)) tbl = tbl"
  by (intro map_idI) (auto simp: map_of_eq_None_iff image_iff split: if_splits)

lemma apply_extra:
  assumes "friends_ok fr" and "length (extra_bytes fr) < 2 ^ 64" and "distinct (map fst tbl)"
  shows "apply_extra_loop tbl (a @ extra_bytes fr @ z) (length a) (of_nat (length (extra_bytes fr))) = Inr (foldl put_label tbl fr)"
  using assms
proof (induction fr arbitrary: tbl a)
  case Nil
  then show ?case by (simp add: apply_extra_loop.simps)
next
  case (Cons x fr)
  obtain n fi where x: "x = (n, fi)" by (cases x)
  let ?l = "ef_label (fi_info fi)" and ?rest = "extra_bytes fr"
  have n: "n = fi_friend_number fi" "n \<noteq> -1" "no_nul ?l" "length ?l \<le> 63" and ok: "friends_ok fr"
    using Cons.prems(1) by (auto simp: friends_ok_def x ELA_MAX_USER_NAME_LEN_def)
  note IH = Cons.IH [OF ok]
  show ?case
  proof (cases "?l = []")
    case True
    then show ?thesis using IH [of tbl a] Cons.prems(2,3) by (simp add: x label_entry_def put_label_def)
  next
    case False
    let ?e = "label_entry fi" and ?h = "htonl_bytes (fi_friend_number fi)" and ?tbl = "put_label tbl x"
    have e: "?e = ?h @ cstring ?l" using False by (simp add: label_entry_def)
    let ?b = "a @ ?e @ ?rest @ z" and ?len = "of_nat (length ?e + length ?rest) :: u64"
    have len: "?len \<noteq> 0"
      using Cons.prems(2) e by (simp add: x unat_eq_zero [symmetric] unat_of_nat_small del: of_nat_add)
    have rd: "src_read ?b (length a) 4 = Inr ?h" by (simp add: src_read_def e)
    have str: "read_c_string ?b (length a + 4) = Inr (map of_char ?l)"
      using read_c_string_at [OF n(3), of "length a + 4" "a @ ?h" "?rest @ z"] by (simp add: e)
    have "copy_str (ELA_MAX_USER_NAME_LEN + 1) (string_of (map of_char ?l)) = Inr ?l"
      using n(4) by (simp add: copy_str_def string_of_def comp_def of_char_byte ELA_MAX_USER_NAME_LEN_def)
    moreover have tbl: "?tbl = map (\<lambda>(m, f). (m, if m = n then set_label f ?l else f)) tbl"
      using False unfolding put_label_def x fst_conv snd_conv by simp
    ultimately have "(case map_of tbl n of None \<Rightarrow> Inr tbl
        | Some f \<Rightarrow> bindr (copy_str (ELA_MAX_USER_NAME_LEN + 1) (string_of (map of_char ?l))) (\<lambda>l. Inr (AList.update n (set_label f l) tbl))) =
        Inr ?tbl"
      using Cons.prems(3) map_unknown [of tbl n "\<lambda>f. set_label f ?l"] update_put_label [of tbl n _ ?l]
      unfolding tbl by (cases "map_of tbl n") simp_all
    moreover have "apply_extra_loop ?tbl ?b (length a + 4 + (length ?l + 1)) (?len - of_nat (4 + length ?l + 1)) =
        Inr (foldl put_label ?tbl fr)"
      using IH [of ?tbl "a @ ?e"] Cons.prems(2,3) by (simp add: x e algebra_simps)
    ultimately show ?thesis
      using n(1,2) False len rd str
      by (subst apply_extra_loop.simps) (simp add: x Let_def del: of_nat_add of_nat_Suc cong: option.case_cong)
  qed
qed

lemma put_label_other: "fst f \<notin> fst ` set tbl \<Longrightarrow> put_label tbl f = tbl"
  by (auto simp: put_label_def image_iff intro!: map_idI)

lemma foldl_put_label_append:
  "\<forall>f\<in>set fr. fst f \<notin> fst ` set xs \<Longrightarrow> foldl put_label (xs @ ys) fr = xs @ foldl put_label ys fr"
proof (induction fr arbitrary: ys)
  case (Cons f fr)
  have "put_label (xs @ ys) f = put_label xs f @ put_label ys f" by (simp add: put_label_def)
  then show ?case using Cons by (simp add: put_label_other)
qed simp

lemma labels_restored: "distinct (map fst fr) \<Longrightarrow> foldl put_label (unlabelled fr) fr = fr"
proof (induction fr)
  case (Cons x fr)
  obtain n fi where x: "x = (n, fi)" by (cases x)
  have n: "n \<notin> fst ` set fr" "distinct (map fst fr)" using Cons.prems by (simp_all add: x)
  have "n \<notin> fst ` set (unlabelled fr)" using n(1) by (force simp: unlabelled_def)
  then have "put_label ((n, set_label fi []) # unlabelled fr) x = [x] @ unlabelled fr"
    using put_label_other [of "(n, fi)" "unlabelled fr"] set_label_same(2) [of fi]
    by (cases "ef_label (fi_info fi) = []") (simp_all add: put_label_def x)
  then show ?case
    using foldl_put_label_append [of fr "[x]" "unlabelled fr"] n Cons.IH by (auto simp: x unlabelled_def image_iff)
qed (simp add: unlabelled_def)

text \<open>The two sections of the loaded data.\<close>

lemma stored_labels:
  assumes "sections_fit dht (extra_bytes fr)" and "friends_ok fr" and "distinct (map fst tbl)"
  defines "pd \<equiv> stored dht (extra_bytes fr)"
  shows "apply_extra_data tbl (drop (pd_extra_off pd) (pd_buf pd)) (of_nat (pd_extra_len pd)) = Inr (foldl put_label tbl fr)"
proof -
  let ?e = "extra_bytes fr"
  have "drop (pd_extra_off pd) (pd_buf pd) = ?e @ replicate (ROUND256 (length ?e) - length ?e) 0"
    by (simp add: pd_def stored_def persist_body_def)
  moreover have "length ?e < 2 ^ 64"
    using assms(1) by (simp add: sections_fit_def MAX_PERSISTENCE_SECTION_SIZE_def)
  ultimately show ?thesis
    using apply_extra [OF assms(2) _ assms(3), where a = "[]"] by (simp add: apply_extra_data_def pd_def stored_def)
qed

lemma stored_restores:
  assumes "sections_fit dht (extra_bytes fr)" and "friends_ok fr"
  defines "pd \<equiv> stored dht (extra_bytes fr)"
  shows "take (pd_dht_len pd) (pd_buf pd) = dht"
    "apply_extra_data (unlabelled fr) (drop (pd_extra_off pd) (pd_buf pd)) (of_nat (pd_extra_len pd)) = Inr fr"
proof -
  show "take (pd_dht_len pd) (pd_buf pd) = dht"
    by (simp add: pd_def stored_def persist_body_def)
  have "distinct (map fst fr)" "distinct (map fst (unlabelled fr))"
    using assms(2) by (simp_all add: friends_ok_def unlabelled_def comp_def case_prod_beta)
  then show "apply_extra_data (unlabelled fr) (drop (pd_extra_off pd) (pd_buf pd)) (of_nat (pd_extra_len pd)) = Inr fr"
    unfolding pd_def using stored_labels [OF assms(1,2)] labels_restored by simp
qed

text \<open>
  C10. What is stored is loaded. The two sections to be stored have at most 16 MB each, labels are strings that fit and friends have
  numbers of their own, and the files before were in order (a data file that can be loaded, no journal that can be loaded); opening and reading files and
  allocating memory do not fail. Then, after \<open>store_persistence_data\<close> returns 0, a node that starts gets the data of tox, byte for byte, and
  \<open>apply_extra_data\<close> gives all its friends the labels they had.
\<close>

theorem store_load_roundtrip:
  assumes "reads_ok os" "sha256_ok os" "sections_fit dht (extra_bytes fr)" "friends_ok fr"
    and "load_persistence_data_i os f (journal_path loc) = None"
    and "load_persistence_data_i os f (data_path loc) = Some old"
    and "store_persistence_data os loc dht fr (disk_of f) = Inr (0, d)"
  shows "\<exists>pd d'. load_persistence_data 0 os loc (disk_of (d_fs d)) = Inr (Some pd, d') \<and>
     take (pd_dht_len pd) (pd_buf pd) = dht \<and>
     apply_extra_data (unlabelled fr) (drop (pd_extra_off pd) (pd_buf pd)) (of_nat (pd_extra_len pd)) = Inr fr"
proof -
  let ?e = "extra_bytes fr" and ?pd = "stored dht (extra_bytes fr)"
  obtain rc d1 where "store_persistence_data os loc dht fr (disk_of f) = Inr (rc, d1)" "rc = 0 \<longrightarrow> loads os loc (d_fs d1) ?pd"
    by (rule store_states [OF assms(1-3,5,6)])
  then have "loads os loc (d_fs d) ?pd" using assms(7) by simp
  then show ?thesis using stored_restores [OF assms(3,4)] unfolding loads_def by blast
qed

section \<open>Addresses\<close>

lemma xor_cancel: "(c XOR b = c' XOR b) = (c = (c' :: byte))" "(b XOR c = b XOR c') = (c = (c' :: byte))"
proof -
  have cancel: "(x XOR b) XOR b = x" "b XOR (b XOR x) = x" for x :: byte
    by (simp add: xor.assoc) (simp flip: xor.assoc)
  show "(c XOR b = c' XOR b) = (c = c')" using cancel(1) by metis
  show "(b XOR c = b XOR c') = (c = c')" using cancel(2) by metis
qed

lemma checksum_loop_inj: "checksum_loop i bs c = checksum_loop i bs c' \<Longrightarrow> c = c'"
proof (induction bs arbitrary: i c c')
  case (Cons b bs)
  obtain a0 a1 b0 b1 where c: "c = (a0, a1)" "c' = (b0, b1)" by (cases c, cases c')
  from Cons.prems show ?case by (auto simp: c xor_cancel split: if_splits dest!: Cons.IH)
qed simp

lemma checksum_loop_append: "checksum_loop i (xs @ ys) c = checksum_loop (i + length xs) ys (checksum_loop i xs c)"
  by (induction i xs c rule: checksum_loop.induct) simp_all

lemma checksum_detects:
  assumes "k < length bs" and "x \<noteq> bs ! k"
  shows "address_checksum (bs[k := x]) \<noteq> address_checksum bs"
proof
  let ?xs = "take k bs" and ?ys = "drop (Suc k) bs"
  assume eq: "address_checksum (bs[k := x]) = address_checksum bs"
  obtain a b where ab: "checksum_loop 0 ?xs (0, 0) = (a, b)" by (cases "checksum_loop 0 ?xs (0, 0)")
  let ?step = "\<lambda>y. if k mod 2 = 0 then (a XOR y, b) else (a, b XOR y)"
  have sum: "address_checksum (?xs @ y # ?ys) = checksum_loop (k + 1) ?ys (?step y)" for y
    using assms(1) by (simp add: address_checksum_def checksum_loop_append ab)
  have "address_checksum (bs[k := x]) = checksum_loop (k + 1) ?ys (?step x)"
    using assms(1) by (simp only: upd_conv_take_nth_drop sum)
  moreover have "address_checksum bs = checksum_loop (k + 1) ?ys (?step (bs ! k))"
    using sum [of "bs ! k"] assms(1) by (simp only: id_take_nth_drop [symmetric])
  ultimately have "?step x = ?step (bs ! k)"
    using eq checksum_loop_inj [of "k + 1" ?ys "?step x" "?step (bs ! k)"] by simp
  then show False using assms(2) by (auto simp: xor_cancel split: if_splits)
qed

text \<open>
  C29. An address is valid exactly if it has the checksum of its key and number; an address that differs from a
  valid one in one byte is not valid.
\<close>

theorem address_change_detected:
  assumes "is_valid_address env address" and "ce_base58_decode env address = Some addr"
    and "ce_base58_decode env address' = Some (addr[k := x])" and "k < length addr" and "x \<noteq> addr ! k"
  shows "\<not> is_valid_address env address'"
proof
  let ?n = "DHT_ADDRESS_SIZE - 2"
  assume v: "is_valid_address env address'"
  have len: "length addr = 38"
    using assms(1,2) by (simp add: is_valid_address_def address_ok_def DHT_ADDRESS_SIZE_def split: if_splits)
  have sum: "address_checksum (take 36 addr) = (addr ! 36, addr ! 37)"
    using assms(1,2) len by (simp add: is_valid_address_def address_ok_def DHT_ADDRESS_SIZE_def DHT_PUBLIC_KEY_SIZE_def)
  have sum': "address_checksum (take 36 (addr[k := x])) = (addr[k := x] ! 36, addr[k := x] ! 37)"
    using v assms(3) len by (simp add: is_valid_address_def address_ok_def DHT_ADDRESS_SIZE_def DHT_PUBLIC_KEY_SIZE_def)
  show False
  proof (cases "k < 36")
    case True
    then have "address_checksum ((take 36 addr)[k := x]) \<noteq> address_checksum (take 36 addr)"
      using assms(5) len by (intro checksum_detects) simp_all
    then show False using sum sum' True by (simp add: take_update_swap)
  next
    case False
    then have "addr[k := x] ! 36 = addr ! 36 \<and> addr[k := x] ! 37 = addr ! 37" using sum sum' by simp
    moreover have "k = 36 \<or> k = 37" using False assms(4) len by linarith
    ultimately show False using assms(5) len by auto
  qed
qed

text \<open>A file with a section of more than 16 MB is written and cannot be read.\<close>

lemma oversized_file:
  assumes "reads_ok os" and "f path = Some (File (persist_image os dht extra))"
    and "MAX_PERSISTENCE_SECTION_SIZE < length dht" and "length dht < 2 ^ 32"
  shows "load_persistence_data_i os f path = None"
proof -
  have "read_u32 os f path 8 = Some (of_nat (length dht))"
    using read_header(3) [OF assms(1), of f path] assms(2) unfolding persist_image_def by blast
  moreover have "unat (of_nat (length dht) :: u32) = length dht"
    using assms(4) by (simp add: unat_of_nat_small)
  ultimately show ?thesis
    using assms(2,3) by (simp add: load_persistence_data_i_def Let_def split: option.splits)
qed

text \<open>Nothing fails when files are written.\<close>

definition writes_ok :: "os_lib \<Rightarrow> bool" where
  "writes_ok os \<longleftrightarrow> (\<forall>f p. os_mkdir os f p = 0) \<and> (\<forall>f p. os_create os f p) \<and> (\<forall>f p bs. os_write os f p bs = length bs) \<and>
     (\<forall>f p. os_fsync os f p) \<and> (\<forall>f p. os_remove os f p) \<and> (\<forall>f p q. os_rename os f p q)"

lemma writes_okD [simp]:
  "writes_ok os \<Longrightarrow> os_mkdir os f p = 0" "writes_ok os \<Longrightarrow> os_create os f p" "writes_ok os \<Longrightarrow> os_write os f p bs = length bs"
  "writes_ok os \<Longrightarrow> os_fsync os f p" "writes_ok os \<Longrightarrow> os_remove os f p" "writes_ok os \<Longrightarrow> os_rename os f p q"
  by (simp_all add: writes_ok_def)

lemma write_journal_ok:
  assumes "writes_ok os"
  shows "\<exists>d'. write_journal os loc buf d = (0, d') \<and> d_fs d' = (d_fs d)(journal_path loc \<mapsto> File buf)"
  using assms by (simp add: write_journal_def Let_def)

text \<open>
  C37. \<open>store_persistence_data\<close> does not check the size that \<open>load_persistence_data\<close> checks. When all calls of the system succeed and the data
  of tox has more than 16 MB (and less than 4 GB), it stores the data, returns 0, and
  removes the previous file; a node that starts then finds no data.
\<close>

theorem oversized_store_loses_data:
  assumes "reads_ok os" "writes_ok os" "sha256_ok os" and "MAX_PERSISTENCE_SECTION_SIZE < length dht" "length dht < 2 ^ 32"
    and "mkdirs os loc (disk_of f) = (True, d1)"
  shows "\<exists>d d'. store_persistence_data os loc dht fr (disk_of f) = Inr (0, d) \<and>
     load_persistence_data 0 os loc (disk_of (d_fs d)) = Inr (None, d')"
proof -
  let ?c = "persist_image os dht (extra_bytes fr)"
  obtain d2 where d2: "write_journal os loc ?c d1 = (0, d2)" "d_fs d2 = (d_fs d1)(journal_path loc \<mapsto> File ?c)"
    using write_journal_ok [OF assms(2)] by blast
  let ?d = "disk_rename os (journal_path loc) (data_path loc) (disk_remove os (data_path loc) d2)"
  have st: "store_persistence_data os loc dht fr (disk_of f) = Inr (0, ?d)"
    using assms by (simp add: store_persistence_data_def persist_buffer d2)
  have fs: "d_fs ?d = (d_fs d1)(journal_path loc := None, data_path loc \<mapsto> File ?c)"
    using assms(2) d2(2) by (auto simp: disk_rename_def disk_remove_def fun_upd_twist)
  have "load_persistence_data_i os (d_fs ?d) (data_path loc) = None"
    by (rule oversized_file [OF assms(1) _ assms(4,5)]) (simp add: fs)
  then have "load_persistence_data 0 os loc (disk_of (d_fs ?d)) = Inr (None, disk_of (d_fs ?d))"
    using assms(1) by (simp add: load_persistence_data_def load_data.simps accessible_def load_file_def fs)
  then show ?thesis using st by blast
qed

section \<open>Files of the old version\<close>

definition old_entry :: "FriendInfo \<Rightarrow> byte list" where
  "old_entry fi = rev (htonl_bytes (fi_friend_number fi)) @ cstring (ef_label (fi_info fi))"

definition old_bytes :: "friends \<Rightarrow> byte list" where
  "old_bytes fr = concat (map (old_entry \<circ> snd) fr)"

text \<open>The file \<open>eladata\<close>: a key, the number of friends, and their labels.\<close>

definition old_eladata :: "byte list \<Rightarrow> friends \<Rightarrow> byte list" where
  "old_eladata key fr = key @ rev (htonl_bytes (of_nat (length fr))) @ old_bytes fr"

lemma old_bytes_simps [simp]: "old_bytes [] = []" "old_bytes ((n, fi) # fr) = old_entry fi @ old_bytes fr"
  by (simp_all add: old_bytes_def)

lemma length_extra_old: "length (extra_bytes fr) \<le> length (old_bytes fr)"
  by (induction fr) (auto simp: old_entry_def label_entry_def)

lemma convert_step:
  assumes "no_nul l" and "l \<noteq> []" and "r = length (pre @ gap)" and "w = length pre" and "length h = 4"
  shows "\<exists>gap'. length gap' = length gap \<and>
     convert_loop (Suc i) (pre @ gap @ rev h @ cstring l @ z) r w =
     convert_loop i (pre @ h @ cstring l @ gap' @ z) (r + 4 + (length l + 1)) (w + 4 + (length l + 1))"
proof -
  let ?b = "pre @ gap @ rev h @ cstring l @ z"
  obtain m g where m: "gap @ rev h = m @ g" "length m = 4" "length g = length gap"
    using assms(5) that [of "take 4 (gap @ rev h)" "drop 4 (gap @ rev h)"] by (simp del: take_append drop_append)
  have r1: "src_read ?b r 4 = Inr (rev h)" using assms by (simp add: src_read_def)
  have r2: "read_c_string ?b (r + 4) = Inr (map of_char l)"
    using read_c_string_at [OF assms(1), of "r + 4" "pre @ gap @ rev h" z] assms(3,5) by simp
  have "copy_bytes (pre @ m @ (g @ cstring l @ z)) w h = Inr (pre @ h @ g @ cstring l @ z)"
    using assms(4,5) m(2) by (intro copy_bytes_mid) simp_all
  then have r3: "copy_bytes ?b w (rev (rev h)) = Inr (pre @ h @ g @ cstring l @ z)"
    using m(1) by (metis append_assoc rev_rev_ident)
  have r4: "src_read (pre @ h @ g @ cstring l @ z) (r + 4) (length l + 1) = Inr (cstring l)"
    using assms(3,5) m(3) by (simp add: src_read_def)
  let ?n = "length l + 1" and ?x = "g @ cstring l"
  have "copy_bytes ((pre @ h) @ take ?n ?x @ (drop ?n ?x @ z)) (w + 4) (cstring l) = Inr ((pre @ h) @ cstring l @ drop ?n ?x @ z)"
    using assms(4,5) m(3) by (intro copy_bytes_mid) simp_all
  moreover have "take ?n ?x @ drop ?n ?x @ z = g @ cstring l @ z"
    by (metis append_assoc append_take_drop_id)
  ultimately have r5: "copy_bytes (pre @ h @ g @ cstring l @ z) (w + 4) (cstring l) = Inr (pre @ h @ cstring l @ drop ?n ?x @ z)"
    by (simp only: append_assoc)
  have "length (drop ?n ?x) = length gap" using m(3) by simp
  moreover have "convert_loop (Suc i) ?b r w = convert_loop i (pre @ h @ cstring l @ drop ?n ?x @ z) (r + 4 + ?n) (w + 4 + ?n)"
    using assms(2) unfolding convert_loop.simps r1 bindr_Inr r2 Let_def length_map r3 r4 r5 by simp
  ultimately show ?thesis by blast
qed

lemma convert_loop_labels:
  assumes "\<forall>(n, fi)\<in>set fr. no_nul (ef_label (fi_info fi))"
  shows "\<exists>gap'. length gap' + length (extra_bytes fr) = length gap + length (old_bytes fr) \<and>
     convert_loop (length fr) (pre @ gap @ old_bytes fr @ z) (length (pre @ gap)) (length pre) =
     Inr (pre @ extra_bytes fr @ gap' @ z, length (pre @ gap) + length (old_bytes fr), length pre + length (extra_bytes fr))"
  using assms
proof (induction fr arbitrary: pre gap)
  case (Cons x fr)
  obtain n fi where x: "x = (n, fi)" by (cases x)
  let ?l = "ef_label (fi_info fi)" and ?h = "htonl_bytes (fi_friend_number fi)"
  have l: "no_nul ?l" "\<forall>(n, fi)\<in>set fr. no_nul (ef_label (fi_info fi))" using Cons.prems by (simp_all add: x)
  note IH = Cons.IH [OF l(2)]
  show ?case
  proof (cases "?l = []")
    case True
    let ?b = "pre @ gap @ (rev ?h @ cstring []) @ old_bytes fr @ z"
    have "src_read ?b (length (pre @ gap)) 4 = Inr (rev ?h)" by (simp add: src_read_def)
    moreover have "read_c_string ?b (length (pre @ gap) + 4) = Inr []"
      using read_c_string_at [of "[]" "length (pre @ gap) + 4" "pre @ gap @ rev ?h" "old_bytes fr @ z"] by (simp add: no_nul_def)
    ultimately have "convert_loop (length (x # fr)) ?b (length (pre @ gap)) (length pre) =
        convert_loop (length fr) ?b (length (pre @ gap) + 4 + 1) (length pre)"
      by (simp only: list.size convert_loop.simps bindr_Inr Let_def simp_thms if_True add_Suc_right add_0_right)
    then show ?thesis
      using IH [where pre = pre and gap = "gap @ rev ?h @ cstring []"] True by (simp add: x old_entry_def label_entry_def algebra_simps)
  next
    case False
    obtain gap' where g: "length gap' = length gap"
      "convert_loop (Suc (length fr)) (pre @ gap @ rev ?h @ cstring ?l @ old_bytes fr @ z) (length (pre @ gap)) (length pre) =
       convert_loop (length fr) (pre @ ?h @ cstring ?l @ gap' @ old_bytes fr @ z) (length (pre @ gap) + 4 + (length ?l + 1))
         (length pre + 4 + (length ?l + 1))"
      using convert_step [OF l(1) False refl refl, where h = ?h and pre = pre and gap = gap and i = "length fr" and z = "old_bytes fr @ z"] by auto
    show ?thesis
      using IH [where pre = "pre @ ?h @ cstring ?l" and gap = gap'] g False
      by (simp add: x old_entry_def label_entry_def algebra_simps)
  qed
qed (simp add: convert_loop.simps)

lemma round256_mono: "a \<le> b \<Longrightarrow> ROUND256 a \<le> ROUND256 b"
  by (simp add: ROUND256_def div_le_mono)

lemma convert_extra_labels:
  assumes "reads_ok os" and "f path = Some (File (old_eladata key fr))" and "length key = PUBLIC_KEY_BYTES"
    and "length fr < 2 ^ 32" and "fr \<noteq> []" and "\<forall>(n, fi)\<in>set fr. no_nul (ef_label (fi_info fi))"
    and "length (old_bytes fr) \<le> m" and "pos = length a"
  shows "convert_extra os f path (a @ replicate m 0) pos (length (old_bytes fr)) =
     Inr (a @ extra_bytes fr @ replicate (m - length (extra_bytes fr)) 0, length (extra_bytes fr))"
proof -
  let ?n = "of_nat (length fr) :: u32" and ?old = "old_bytes fr" and ?new = "extra_bytes fr"
  have n: "?n \<noteq> 0" "unat ?n = length fr"
    using assms(4,5) by (simp_all add: unat_of_nat_small unat_eq_zero [symmetric])
  have r1: "file_read os f path PUBLIC_KEY_BYTES 4 = Some (rev (htonl_bytes ?n))"
    using assms(1-3) by (intro file_read_at [where a = key and c = ?old]) (simp_all add: old_eladata_def)
  have r2: "file_read os f path (PUBLIC_KEY_BYTES + 4) (length ?old) = Some ?old"
    using assms(1-3) by (intro file_read_at [where a = "key @ rev (htonl_bytes ?n)" and c = "[]"]) (simp_all add: old_eladata_def)
  let ?z = "replicate (m - length ?old) 0"
  have r3: "copy_bytes (a @ replicate m 0) pos ?old = Inr (a @ [] @ ?old @ ?z)"
    using copy_bytes_zeros [of pos a ?old m "[]"] assms(7,8) by simp
  obtain gap where g: "length gap + length ?new = length ?old"
    "convert_loop (length fr) (a @ [] @ ?old @ ?z) (length (a @ [])) (length a) =
      Inr (a @ ?new @ gap @ ?z, length (a @ []) + length ?old, length a + length ?new)"
    using convert_loop_labels [OF assms(6), where pre = a and gap = "[]" and z = ?z] by auto
  then have r4: "convert_loop (length fr) (a @ [] @ ?old @ ?z) pos pos = Inr (a @ ?new @ gap @ ?z, pos + length ?old, pos + length ?new)"
    using assms(8) by simp
  have "copy_bytes ((a @ ?new) @ gap @ ?z) (pos + length ?new) (replicate (length gap) 0) = Inr ((a @ ?new) @ replicate (length gap) 0 @ ?z)"
    using assms(8) by (intro copy_bytes_mid) simp_all
  moreover have "replicate (length gap) (0::byte) @ ?z = replicate (m - length ?new) 0"
    using g(1) assms(7) by (simp flip: replicate_add)
  moreover have "pos + length ?old - (pos + length ?new) = length gap" using g(1) by simp
  ultimately have r5: "copy_bytes (a @ ?new @ gap @ ?z) (pos + length ?new) (replicate (pos + length ?old - (pos + length ?new)) 0) =
      Inr (a @ ?new @ replicate (m - length ?new) 0)"
    by (simp only: append_assoc)
  show ?thesis
    using assms(1) n
    by (simp only: convert_extra_def reads_okD r1 option.case Let_def rev_rev_ident bytes_u32_htonl r2 r3 r4 r5 bindr_Inr prod.case
        simp_thms if_False if_True diff_add_inverse)
qed

lemma paths_old [simp]:
  "old_dhtdata_path loc \<noteq> data_path loc" "old_dhtdata_path loc \<noteq> journal_path loc" "old_dhtdata_path loc \<noteq> old_eladata_path loc"
  "old_eladata_path loc \<noteq> data_path loc" "old_eladata_path loc \<noteq> journal_path loc" "old_eladata_path loc \<noteq> old_dhtdata_path loc"
  by (simp_all add: data_path_def journal_path_def old_dhtdata_path_def old_eladata_path_def)

lemmas paths_old_sym [simp] = paths_old [symmetric]

text \<open>The buffer with both sections, cut to its new size.\<close>

lemma convert_buffer:
  fixes dht :: "byte list"
  assumes "sha256_ok os" and "length extra \<le> m" and "ROUND256 (length extra) \<le> m"
  defines "total_len \<equiv> 256 + ROUND256 (length dht) + ROUND256 (length extra)"
  shows "\<exists>buf buf'. copy_bytes (replicate 256 0 @ dht @ replicate (ROUND256 (length dht) - length dht) 0 @ extra @ replicate (m - length extra) 0)
      0 (persist_header (length dht) (length extra)) = Inr buf \<and> put_checksum os buf total_len = Inr buf' \<and>
      take total_len buf' = persist_image os dht extra"
proof -
  let ?h = "persist_header (length dht) (length extra)" and ?body = "persist_body dht extra"
  let ?z = "replicate (m - ROUND256 (length extra)) (0::byte)"
  let ?b = "dht @ replicate (ROUND256 (length dht) - length dht) 0 @ extra @ replicate (m - length extra) 0"
  have "m - length extra = (ROUND256 (length extra) - length extra) + (m - ROUND256 (length extra))"
    using assms(3) round256_gt [of "length extra"] by simp
  then have body: "?b = ?body @ ?z"
    by (simp only: persist_body_def append_assoc replicate_add)
  have "replicate 256 (0::byte) = replicate 16 0 @ replicate 240 0" by (simp flip: replicate_add)
  moreover have "copy_bytes ([] @ replicate 16 0 @ replicate 240 0 @ ?b) 0 ?h = Inr ([] @ ?h @ replicate 240 0 @ ?b)"
    by (rule copy_bytes_mid) simp_all
  ultimately have c1: "copy_bytes (replicate 256 0 @ ?b) 0 ?h = Inr (?h @ replicate 240 0 @ ?body @ ?z)"
    by (simp only: body append_assoc append_Nil)
  have c2: "put_checksum os (?h @ replicate 240 0 @ ?body @ ?z) total_len = Inr (?h @ os_sha256 os ?body @ replicate 208 0 @ ?body @ ?z)"
    by (rule put_checksum_body [OF assms(1)]) (simp_all add: total_len_def length_persist_body)
  have "?h @ os_sha256 os ?body @ replicate 208 0 @ ?body @ ?z = persist_image os dht extra @ ?z"
    by (simp add: persist_image_def)
  moreover have "total_len = length (persist_image os dht extra)"
    by (simp add: total_len_def length_persist_image assms(1))
  ultimately have "take total_len (?h @ os_sha256 os ?body @ replicate 208 0 @ ?body @ ?z) = persist_image os dht extra"
    by (metis append_eq_conv_conj)
  then show ?thesis using c1 c2 by blast
qed

lemma convert_old:
  assumes os: "reads_ok os" "writes_ok os" "sha256_ok os"
    and f: "f (old_dhtdata_path loc) = Some (File dht)" "f (old_eladata_path loc) = Some (File (old_eladata key fr))"
    and key: "length key = PUBLIC_KEY_BYTES" and fr: "length fr < 2 ^ 32" "\<forall>(n, fi)\<in>set fr. no_nul (ef_label (fi_info fi))"
  shows "\<exists>d. convert_old_dhtdata os loc (disk_of f) = Inr (0, d) \<and>
     d_fs d = f(old_dhtdata_path loc := None, old_eladata_path loc := None, journal_path loc := None,
       data_path loc \<mapsto> File (persist_image os dht (extra_bytes fr)))"
proof -
  let ?old = "old_bytes fr" and ?new = "extra_bytes fr" and ?R = "ROUND256 (length dht)"
  let ?m = "ROUND256 (length (old_bytes fr))" and ?a = "replicate 256 0 @ dht @ replicate (ROUND256 (length dht) - length dht) (0::byte)"
  have sizes: "old_sizes f loc = Some (length dht, length ?old)"
    using f key by (simp add: old_sizes_def old_eladata_def PUBLIC_KEY_BYTES_def)
  have dht: "file_read os f (old_dhtdata_path loc) 0 (length dht) = Some dht"
    using os(1) f(1) by (intro file_read_at [where a = "[]" and c = "[]"]) simp_all
  have "replicate (256 + ?R + ?m) (0::byte) = replicate 256 0 @ replicate (?R + ?m) 0"
    by (simp only: replicate_add append_assoc)
  moreover have "copy_bytes (replicate 256 0 @ replicate (?R + ?m) 0 @ []) 256 dht = Inr (replicate 256 0 @ dht @ replicate (?R + ?m - length dht) 0 @ [])"
    using round256_gt [of "length dht"] by (intro copy_bytes_zeros) simp_all
  moreover have "?R + ?m - length dht = (?R - length dht) + ?m" using round256_gt [of "length dht"] by simp
  ultimately have c1: "copy_bytes (replicate (256 + ?R + ?m) 0) 256 dht = Inr (?a @ replicate ?m 0)"
    by (simp only: replicate_add append_assoc append_Nil2)
  have len: "256 + ?R = length ?a" using round256_gt [of "length dht"] by simp
  have c2: "(if length ?old \<noteq> 0 then convert_extra os f (old_eladata_path loc) (?a @ replicate ?m 0) (256 + ?R) (length ?old)
      else Inr (?a @ replicate ?m 0, 0)) = Inr (?a @ ?new @ replicate (?m - length ?new) 0, length ?new)"
  proof (cases "fr = []")
    case True
    then show ?thesis by simp
  next
    case False
    then have "length ?old \<noteq> 0" by (cases fr) (auto simp: old_entry_def cstring_def)
    moreover have "convert_extra os f (old_eladata_path loc) (?a @ replicate ?m 0) (256 + ?R) (length ?old) =
        Inr (?a @ ?new @ replicate (?m - length ?new) 0, length ?new)"
      by (rule convert_extra_labels [where a = ?a and os = os and f = f and key = key]) (use os(1) f(2) key fr False len in simp_all)
    ultimately show ?thesis by (simp only: simp_thms if_True)
  qed
  obtain buf buf' where c3: "copy_bytes (?a @ ?new @ replicate (?m - length ?new) 0) 0 (persist_header (length dht) (length ?new)) = Inr buf"
    "put_checksum os buf (256 + ?R + ROUND256 (length ?new)) = Inr buf'"
    "take (256 + ?R + ROUND256 (length ?new)) buf' = persist_image os dht ?new"
  proof -
    have "length ?new \<le> ?m" "ROUND256 (length ?new) \<le> ?m"
      using length_extra_old [of fr] round256_mono [OF length_extra_old [of fr]] round256_gt [of "length ?old"] by simp_all
    then show thesis
      using convert_buffer [OF os(3), of ?new ?m dht] that by (auto simp only: append_assoc)
  qed
  obtain d1 where w: "write_journal os loc (persist_image os dht ?new) (disk_of f) = (0, d1)"
    "d_fs d1 = f(journal_path loc \<mapsto> File (persist_image os dht ?new))"
    using write_journal_ok [OF os(2), of loc "persist_image os dht ?new" "disk_of f"] by auto
  let ?d = "disk_rename os (journal_path loc) (data_path loc) (disk_remove os (data_path loc)
      (disk_remove os (old_eladata_path loc) (disk_remove os (old_dhtdata_path loc) d1)))"
  have "convert_old_dhtdata os loc (disk_of f) = Inr (0, ?d)"
    using os(1)
    by (simp only: convert_old_dhtdata_def disk_fs sizes option.case prod.case reads_okD dht simp_thms if_False c1 bindr_Inr c2 c3 Let_def w)
  moreover have "d_fs ?d = f(old_dhtdata_path loc := None, old_eladata_path loc := None, journal_path loc := None,
       data_path loc \<mapsto> File (persist_image os dht ?new))"
    using os(2) w(2) by (auto simp: disk_rename_def disk_remove_def fun_eq_iff)
  ultimately show ?thesis by blast
qed


section \<open>Examples\<close>

text \<open>A system on which nothing fails; the checksum adds the bytes up.\<close>

definition demo_os :: os_lib where
  "demo_os = \<lparr> os_mkdir = \<lambda>_ _. 0, os_create = \<lambda>_ _. True, os_open = \<lambda>_ _. True, os_read = \<lambda>_ _ _ _. True,
     os_write = \<lambda>_ _ bs. length bs, os_fsync = \<lambda>_ _. True, os_remove = \<lambda>_ _. True, os_rename = \<lambda>_ _ _. True,
     os_errno = \<lambda>_. 0, os_alloc = \<lambda>_. True, os_sha256 = \<lambda>bs. replicate 32 (foldr (+) bs 0) \<rparr>"

text \<open>The same with a disk that is full after 300 bytes.\<close>

definition full_os :: os_lib where
  "full_os = demo_os\<lparr> os_write := \<lambda>_ _ bs. 300 \<rparr>"

definition demo_friend :: "u32 \<Rightarrow> string \<Rightarrow> FriendInfo" where
  "demo_friend n l = \<lparr> fi_friend_number = n,
     fi_info = \<lparr> ef_user_info = \<lparr> eu_userid = ''u'', eu_name = [], eu_description = [], eu_has_avatar = False, eu_gender = [],
         eu_phone = [], eu_email = [], eu_region = [] \<rparr>,
       ef_label = l, ef_status = ElaConnectionStatus_Disconnected, ef_presence = ElaPresenceStatus_None \<rparr>, fi_refs = 0 \<rparr>"

definition demo_friends :: friends where
  "demo_friends = [(3, demo_friend 3 ''bob''), (4, demo_friend 4 []), (5, demo_friend 5 ''al'')]"

lemma demo_os_ok: "reads_ok demo_os" "writes_ok demo_os" "sha256_ok demo_os" "reads_ok full_os" "sha256_ok full_os"
  by (simp_all add: demo_os_def full_os_def reads_ok_def writes_ok_def sha256_ok_def SHA256_BYTES_def)

lemma demo_friends_ok: "friends_ok demo_friends"
  by (simp add: demo_friends_def demo_friend_def friends_ok_def no_nul_def ELA_MAX_USER_NAME_LEN_def)

lemma demo_fit: "sections_fit [1, 2, 3] (extra_bytes demo_friends)" "sections_fit [9] []"
  by (simp_all add: sections_fit_def demo_friends_def demo_friend_def label_entry_def MAX_PERSISTENCE_SECTION_SIZE_def)

definition demo_fs :: "os_lib \<Rightarrow> fs" where
  "demo_fs os = [data_path ''d'' \<mapsto> File (persist_image os [9] [])]"

lemma demo_fs_loads:
  assumes "reads_ok os" "sha256_ok os"
  shows "load_persistence_data_i os (demo_fs os) (journal_path ''d'') = None"
    "load_persistence_data_i os (demo_fs os) (data_path ''d'') = Some (stored [9] [])"
proof -
  show "load_persistence_data_i os (demo_fs os) (journal_path ''d'') = None"
    by (simp add: demo_fs_def load_persistence_data_i_def)
  show "load_persistence_data_i os (demo_fs os) (data_path ''d'') = Some (stored [9] [])"
    by (rule load_image [OF assms _ demo_fit(2)]) (simp add: demo_fs_def)
qed

theorem store_crash_safe_witness:
  "reads_ok full_os \<and> sha256_ok full_os \<and> sections_fit [1, 2, 3] (extra_bytes demo_friends) \<and>
   (\<exists>rc d. store_persistence_data full_os ''d'' [1, 2, 3] demo_friends (disk_of (demo_fs full_os)) = Inr (rc, d) \<and>
     (\<forall>g\<in>set (disk_states d). recovers full_os ''d'' g (stored [9] []) \<or>
        recovers full_os ''d'' g (stored [1, 2, 3] (extra_bytes demo_friends))) \<and>
     (rc = 0 \<longrightarrow> recovers full_os ''d'' (d_fs d) (stored [1, 2, 3] (extra_bytes demo_friends))))"
  using store_crash_safe [OF demo_os_ok(4,5) demo_fit(1) demo_fs_loads [OF demo_os_ok(4,5)]] demo_os_ok demo_fit by blast

lemma demo_store:
  assumes "writes_ok os" "reads_ok os" "sha256_ok os"
  shows "\<exists>d. store_persistence_data os ''d'' dht fr (disk_of (demo_fs os)) = Inr (0, d)"
proof -
  have mk: "mkdirs os ''d'' (disk_of (demo_fs os)) = (True, disk_step (disk_of (demo_fs os)) ((demo_fs os)(''d'' \<mapsto> Dir)))"
    using assms(1) by (simp add: mkdirs_def mkdirs_loop.simps PATH_MAX_def mkdir_internal_def demo_fs_def data_path_def)
  obtain d where "write_journal os ''d'' (persist_image os dht (extra_bytes fr))
      (disk_step (disk_of (demo_fs os)) ((demo_fs os)(''d'' \<mapsto> Dir))) = (0, d)"
    using write_journal_ok [OF assms(1)] by blast
  then show ?thesis
    using assms by (simp add: store_persistence_data_def persist_buffer mk)
qed

theorem store_load_roundtrip_witness:
  "\<exists>d. store_persistence_data demo_os ''d'' [1, 2, 3] demo_friends (disk_of (demo_fs demo_os)) = Inr (0, d) \<and>
     (\<exists>pd d'. load_persistence_data 0 demo_os ''d'' (disk_of (d_fs d)) = Inr (Some pd, d') \<and>
       take (pd_dht_len pd) (pd_buf pd) = [1, 2, 3] \<and>
       apply_extra_data (unlabelled demo_friends) (drop (pd_extra_off pd) (pd_buf pd)) (of_nat (pd_extra_len pd)) = Inr demo_friends)"
proof -
  obtain d where d: "store_persistence_data demo_os ''d'' [1, 2, 3] demo_friends (disk_of (demo_fs demo_os)) = Inr (0, d)"
    using demo_store demo_os_ok by blast
  show ?thesis
    using d store_load_roundtrip [OF demo_os_ok(1,3) demo_fit(1) demo_friends_ok demo_fs_loads [OF demo_os_ok(1,3)] d] by blast
qed

definition demo_address_env :: carrier_env where
  "demo_address_env = \<lparr> ce_base58_decode = \<lambda>s. Some (if s = ''A'' then replicate 38 0 else (replicate 38 0)[3 := 7]),
     ce_friend_by_key = \<lambda>_ _. None, ce_friend_message = \<lambda>_ _ _. 0,
     ce_flatcc = \<lparr> flatcc_finalize = \<lambda>_. None, flatcc_root = \<lambda>_. None \<rparr>, ce_alloc = \<lambda>_ _. True, ce_now = \<lambda>_. time_zero,
     ce_randoms = \<lambda>_. [], ce_junk = \<lambda>_. 0 \<rparr>"

theorem address_change_detected_witness:
  "is_valid_address demo_address_env ''A'' \<and> \<not> is_valid_address demo_address_env ''B''"
proof -
  have v: "is_valid_address demo_address_env ''A''"
    by code_simp
  then show ?thesis
    using address_change_detected [OF v, of "replicate 38 0" "''B''" 3 7] by (simp add: demo_address_env_def)
qed

theorem oversized_store_loses_data_witness:
  "\<exists>d d'. store_persistence_data demo_os ''d'' (replicate 16777217 0) [] (disk_of (demo_fs demo_os)) = Inr (0, d) \<and>
     load_persistence_data 0 demo_os ''d'' (disk_of (d_fs d)) = Inr (None, d')"
proof -
  have mk: "mkdirs demo_os ''d'' (disk_of (demo_fs demo_os)) =
      (True, disk_step (disk_of (demo_fs demo_os)) ((demo_fs demo_os)(''d'' \<mapsto> Dir)))"
    using demo_os_ok by (simp add: mkdirs_def mkdirs_loop.simps PATH_MAX_def mkdir_internal_def demo_fs_def data_path_def)
  show ?thesis
    by (rule oversized_store_loses_data [OF demo_os_ok(1-3) _ _ mk]) (simp_all add: MAX_PERSISTENCE_SECTION_SIZE_def)
qed

definition old_fs :: fs where
  "old_fs = [old_dhtdata_path ''d'' \<mapsto> File [1, 2, 3], old_eladata_path ''d'' \<mapsto> File (old_eladata (replicate 32 0) demo_friends)]"


end
