(* ===== verification/Friends_Inv.thy ===== *)
theory Friends_Inv
  imports Friends Persist_Spec
begin

text \<open>
  The invariant of a node: its table has exactly the friends of the tox library, each with the text of its key as id, no reference is
  outstanding, and the profile that tox keeps can be read. All functions of the user and all events of the network keep it, and none of
  them aborts, as long as friends send profiles that fit into the arrays.
\<close>

section \<open>What is assumed of the libraries\<close>

text \<open>Base 58: a key has one text of at most 45 characters, and a text one key.\<close>

definition base58_ok :: "'t node_env \<Rightarrow> bool" where
  "base58_ok env \<longleftrightarrow>
     (\<forall>k. length k = DHT_PUBLIC_KEY_SIZE \<longrightarrow>
        (\<exists>s. ne_base58_encode env k (ELA_MAX_ID_LEN + 1) = Some s \<and> s \<noteq> [] \<and> length s \<le> ELA_MAX_ID_LEN \<and> ne_base58_decode env s = Some k)) \<and>
     (\<forall>s k. ne_base58_decode env s = Some k \<and> length k = DHT_PUBLIC_KEY_SIZE \<longrightarrow> ne_base58_encode env k (ELA_MAX_ID_LEN + 1) = Some s)"

text \<open>The name and the status message that tox keeps are those that were set last; those of friends are kept apart.\<close>

definition same_self :: "'t tox_lib \<Rightarrow> 't \<Rightarrow> 't \<Rightarrow> bool" where
  "same_self T t t' \<longleftrightarrow> tox_self_get_name T t' = tox_self_get_name T t \<and> tox_self_get_status_message T t' = tox_self_get_status_message T t"

definition tox_self_ok :: "'t tox_lib \<Rightarrow> bool" where
  "tox_self_ok T \<longleftrightarrow>
     (\<forall>t x. tox_self_get_name T (snd (tox_self_set_name T t x)) =
        (if fst (tox_self_set_name T t x) = TOX_ERR_SET_INFO_OK then x else tox_self_get_name T t)) \<and>
     (\<forall>t x. tox_self_get_status_message T (snd (tox_self_set_name T t x)) = tox_self_get_status_message T t) \<and>
     (\<forall>t x. tox_self_get_status_message T (snd (tox_self_set_status_message T t x)) =
        (if fst (tox_self_set_status_message T t x) = TOX_ERR_SET_INFO_OK then x else tox_self_get_status_message T t)) \<and>
     (\<forall>t x. tox_self_get_name T (snd (tox_self_set_status_message T t x)) = tox_self_get_name T t) \<and>
     (\<forall>t x. tox_friend_get_status_message T (snd (tox_self_set_name T t x)) = tox_friend_get_status_message T t) \<and>
     (\<forall>t x. tox_friend_get_status_message T (snd (tox_self_set_status_message T t x)) = tox_friend_get_status_message T t) \<and>
     (\<forall>t x. same_self T t (tox_self_set_nospam T t x)) \<and> (\<forall>t x. same_self T t (tox_self_set_status T t x)) \<and>
     (\<forall>t a b. same_self T t (snd (snd (tox_friend_add T t a b)))) \<and> (\<forall>t a. same_self T t (snd (snd (tox_friend_add_norequest T t a)))) \<and>
     (\<forall>t a. same_self T t (snd (tox_friend_delete T t a)))"

definition env_ok :: "'t node_env \<Rightarrow> ('t \<Rightarrow> u32 \<rightharpoonup> byte list) \<Rightarrow> bool" where
  "env_ok env fr \<longleftrightarrow> tox_friends_ok (ne_tox env) fr \<and> tox_self_ok (ne_tox env) \<and> base58_ok env \<and> flatcc_ok (ne_flatcc env) \<and>
     sha256_ok (ne_os env)"

lemma base58_key:
  assumes "base58_ok env" "length k = DHT_PUBLIC_KEY_SIZE"
  shows "ne_base58_decode env (key_text env k (ELA_MAX_ID_LEN + 1)) = Some k" "length (key_text env k (ELA_MAX_ID_LEN + 1)) \<le> ELA_MAX_ID_LEN"
    "key_text env k (ELA_MAX_ID_LEN + 1) \<noteq> []"
proof -
  obtain s where "ne_base58_encode env k (ELA_MAX_ID_LEN + 1) = Some s" "s \<noteq> []" "length s \<le> ELA_MAX_ID_LEN" "ne_base58_decode env s = Some k"
    using assms unfolding base58_ok_def by blast
  then show "ne_base58_decode env (key_text env k (ELA_MAX_ID_LEN + 1)) = Some k" "length (key_text env k (ELA_MAX_ID_LEN + 1)) \<le> ELA_MAX_ID_LEN"
    "key_text env k (ELA_MAX_ID_LEN + 1) \<noteq> []"
    by (simp_all add: key_text_def)
qed

lemma base58_text:
  "base58_ok env \<Longrightarrow> ne_base58_decode env s = Some k \<Longrightarrow> length k = DHT_PUBLIC_KEY_SIZE \<Longrightarrow> key_text env k (ELA_MAX_ID_LEN + 1) = s"
  by (auto simp: base58_ok_def key_text_def)

lemma tox_found:
  assumes "tox_friends_ok T fr" "tox_friend_by_public_key T t k = (e, n)"
  shows "if n = -1 then k \<notin> ran (fr t) \<and> e \<noteq> TOX_ERR_FRIEND_BY_PUBLIC_KEY_OK else fr t n = Some k"
  using assms(2) conjunct1 [OF assms(1) [unfolded tox_friends_ok_def]] by blast

lemma tox_keys:
  "tox_friends_ok T fr \<Longrightarrow> fr t n = Some k \<Longrightarrow> n \<noteq> -1 \<and> length k = DHT_PUBLIC_KEY_SIZE"
  "tox_friends_ok T fr \<Longrightarrow> fr t n = Some k \<Longrightarrow> fr t m = Some k \<Longrightarrow> n = m"
  unfolding tox_friends_ok_def by metis+

lemma tox_added:
  assumes "tox_friends_ok T fr" "tox_friend_add T t a msg = (e, n, t')"
  shows "if n = -1 then e \<noteq> TOX_ERR_FRIEND_ADD_OK \<and> fr t' = fr t else fr t n = None \<and> fr t' = (fr t)(n \<mapsto> take DHT_PUBLIC_KEY_SIZE a)"
  using assms unfolding tox_friends_ok_def by meson

lemma tox_accepted:
  assumes "tox_friends_ok T fr" "tox_friend_add_norequest T t k = (e, n, t')"
  shows "if n = -1 then e \<noteq> TOX_ERR_FRIEND_ADD_OK \<and> fr t' = fr t else fr t n = None \<and> fr t' = (fr t)(n \<mapsto> k)"
  using assms unfolding tox_friends_ok_def by meson

lemma tox_deleted: "tox_friends_ok T fr \<Longrightarrow> tox_friend_delete T t n = (e, t') \<Longrightarrow> fr t' = (fr t)(n := None)"
  unfolding tox_friends_ok_def by meson

lemma tox_unchanged:
  assumes "tox_friends_ok T fr"
  shows "fr (tox_self_set_nospam T t x) = fr t" "fr (tox_self_set_status T t y) = fr t" "fr (snd (tox_self_set_name T t z)) = fr t"
    "fr (snd (tox_self_set_status_message T t z)) = fr t"
  using assms unfolding tox_friends_ok_def by metis+

section \<open>Codes\<close>

lemmas dht_neg [simp] = mk_error_neg [of ELAF_DHT, folded ELA_DHT_ERROR_def]

lemma by_pk_code [simp]:
  "sint (dht_friend_by_pk_error e) < 0 \<longleftrightarrow> e \<noteq> TOX_ERR_FRIEND_BY_PUBLIC_KEY_OK"
  "dht_friend_by_pk_error e = 0 \<longleftrightarrow> e = TOX_ERR_FRIEND_BY_PUBLIC_KEY_OK"
  by (cases e, simp_all)+

lemma add_code [simp]: "sint (dht_friend_add_error e) < 0 \<longleftrightarrow> e \<noteq> TOX_ERR_FRIEND_ADD_OK"
  by (cases e) simp_all

lemma set_info_code [simp]: "dht_set_info_error e = 0 \<longleftrightarrow> e = TOX_ERR_SET_INFO_OK"
  by (cases e) simp_all

section \<open>Profiles\<close>

definition fits :: "nat \<Rightarrow> string option \<Rightarrow> bool" where
  "fits m s \<longleftrightarrow> (case s of None \<Rightarrow> True | Some s \<Rightarrow> length s \<le> m \<and> no_nul s)"

text \<open>The strings of a profile or of a request fit into their arrays; the code does not check it.\<close>

definition polite_packet :: "ElaCP \<Rightarrow> bool" where
  "polite_packet cp \<longleftrightarrow> (case cp_packet cp of
     PktInfo p \<Rightarrow> fits ELA_MAX_USER_NAME_LEN (ui_name p) \<and> fits ELA_MAX_USER_DESCRIPTION_LEN (ui_descr p) \<and>
       fits ELA_MAX_GENDER_LEN (ui_gender p) \<and> fits ELA_MAX_PHONE_LEN (ui_phone p) \<and> fits ELA_MAX_EMAIL_LEN (ui_email p) \<and>
       fits ELA_MAX_REGION_LEN (ui_region p)
   | PktFreq p \<Rightarrow> fits ELA_MAX_USER_NAME_LEN (fr_name p) \<and> fits ELA_MAX_USER_DESCRIPTION_LEN (fr_descr p)
   | _ \<Rightarrow> True)"

definition polite_bytes :: "flatcc_lib \<Rightarrow> byte list \<Rightarrow> bool" where
  "polite_bytes lib bs \<longleftrightarrow> (case elacp_decode lib True bs of Inl e \<Rightarrow> False | Inr None \<Rightarrow> True | Inr (Some cp) \<Rightarrow> polite_packet cp)"

lemma decode_no_alloc: "elacp_decode lib False bs = Inr None"
  by (auto simp: elacp_decode_def elacp_create_def Let_def elacp_types split: option.split)

lemma polite_decode:
  assumes "polite_bytes lib bs"
  obtains cpo where "elacp_decode lib a bs = Inr cpo" "\<forall>cp. cpo = Some cp \<longrightarrow> polite_packet cp"
  using assms decode_no_alloc [of lib bs] that
  by (cases a) (auto simp: polite_bytes_def split: sum.splits option.splits)

text \<open>The profile in a packet, for the user \<open>userid\<close>.\<close>

definition opt_string :: "string option \<Rightarrow> string" where
  "opt_string s = (case s of None \<Rightarrow> [] | Some x \<Rightarrow> x)"

definition packet_info :: "string \<Rightarrow> ElaCPUserInfo \<Rightarrow> ElaUserInfo" where
  "packet_info userid p = \<lparr> eu_userid = userid, eu_name = opt_string (ui_name p), eu_description = opt_string (ui_descr p),
     eu_has_avatar = ui_has_avatar p, eu_gender = opt_string (ui_gender p), eu_phone = opt_string (ui_phone p),
     eu_email = opt_string (ui_email p), eu_region = opt_string (ui_region p) \<rparr>"

lemma fits_opt: "fits m s \<Longrightarrow> fits m (Some (opt_string s))"
  by (auto simp: fits_def opt_string_def no_nul_def split: option.splits)

lemma copy_fits: "fits m s \<Longrightarrow> copy_str (Suc m) (case s of None \<Rightarrow> [] | Some x \<Rightarrow> x) = Inr (opt_string s)"
  by (auto simp: fits_def opt_string_def copy_str_def split: option.splits)

lemma field_eq: "fits m s \<Longrightarrow> unpack_field m cur s = Inr (opt_string s, opt_string s \<noteq> cur)"
  by (auto simp: unpack_field_def fits_def Let_def copy_str_def opt_string_def split: option.splits)

lemma unpack_eq:
  assumes "desc \<noteq> []" "elacp_decode lib a desc = Inr (Some cp)" "cp_packet cp = PktInfo p" "polite_packet cp"
  shows "unpack_user_desc lib a desc info = Inr (Some (packet_info (eu_userid info) p, info_changed (packet_info (eu_userid info) p) info))"
  using assms
  by (auto simp: unpack_user_desc_def polite_packet_def field_eq elacp_get_type_def elacp_get_has_avatar_def elacp_get_name_def
      elacp_get_descr_def elacp_get_gender_def elacp_get_phone_def elacp_get_email_def elacp_get_region_def packet_info_def info_changed_def)

lemma unpack_total:
  assumes "desc \<noteq> []" "polite_bytes lib desc"
  shows "total (\<lambda>u. \<forall>ui c. u = Some (ui, c) \<longrightarrow> eu_userid ui = eu_userid info \<and> fits ELA_MAX_USER_NAME_LEN (Some (eu_name ui))) (unpack_user_desc lib a desc info)"
proof -
  obtain cpo where d: "elacp_decode lib a desc = Inr cpo" "\<forall>cp. cpo = Some cp \<longrightarrow> polite_packet cp"
    by (rule polite_decode [OF assms(2)])
  show ?thesis
  proof (cases "\<exists>cp p. cpo = Some cp \<and> cp_packet cp = PktInfo p")
    case True
    then obtain cp p where cp: "cpo = Some cp" "cp_packet cp = PktInfo p" by blast
    then have "polite_packet cp" using d(2) by simp
    moreover from this have "fits ELA_MAX_USER_NAME_LEN (Some (opt_string (ui_name p)))"
      using cp(2) by (simp add: polite_packet_def fits_opt)
    ultimately show ?thesis
      using unpack_eq [OF assms(1), of lib a cp p info] cp d(1) by (simp add: packet_info_def)
  next
    case False
    then have "unpack_user_desc lib a desc info = Inr None"
      using assms(1) d
      by (cases cpo) (auto simp: unpack_user_desc_def elacp_get_type_def elacp_types split: elacp_packet.splits)
    then show ?thesis by simp
  qed
qed

section \<open>The invariant\<close>

definition entry_ok :: "'t node_env \<Rightarrow> (u32 \<rightharpoonup> byte list) \<Rightarrow> u32 \<Rightarrow> FriendInfo \<Rightarrow> bool" where
  "entry_ok env F n fi \<longleftrightarrow> fi_friend_number fi = n \<and> fi_refs fi = 0 \<and>
     (\<exists>k. F n = Some k \<and> eu_userid (ef_user_info (fi_info fi)) = key_text env k (ELA_MAX_ID_LEN + 1)) \<and>
     fits ELA_MAX_USER_NAME_LEN (Some (ef_label (fi_info fi)))"

definition ftable_ok :: "'t node_env \<Rightarrow> (u32 \<rightharpoonup> byte list) \<Rightarrow> friends \<Rightarrow> bool" where
  "ftable_ok env F tbl \<longleftrightarrow> distinct (map fst tbl) \<and> dom (map_of tbl) = dom F \<and> (\<forall>n fi. map_of tbl n = Some fi \<longrightarrow> entry_ok env F n fi)"

text \<open>The name that tox has is empty or a string, and the status message can be read.\<close>

definition self_ok :: "'t node_env \<Rightarrow> 't node \<Rightarrow> bool" where
  "self_ok env w \<longleftrightarrow>
     (tox_self_get_name (ne_tox env) (n_tox w) = [] \<or>
       (\<exists>s. tox_self_get_name (ne_tox env) (n_tox w) = cstring s \<and> fits ELA_MAX_USER_NAME_LEN (Some s))) \<and>
     (tox_self_get_status_message (ne_tox env) (n_tox w) = [] \<or>
       polite_bytes (ne_flatcc env) (tox_self_get_status_message (ne_tox env) (n_tox w))) \<and>
     fits ELA_MAX_USER_NAME_LEN (Some (eu_name (n_me w)))"

definition node_ok :: "'t node_env \<Rightarrow> ('t \<Rightarrow> u32 \<rightharpoonup> byte list) \<Rightarrow> 't node \<Rightarrow> bool" where
  "node_ok env fr w \<longleftrightarrow> ftable_ok env (fr (n_tox w)) (n_friends w) \<and> self_ok env w"

lemma n_call_fields [simp]:
  "n_friends (n_call env cb c w) = n_friends w" "n_tox (n_call env cb c w) = n_tox w" "n_me (n_call env cb c w) = n_me w"
  "n_disk (n_call env cb c w) = n_disk w" "n_friend_events (n_call env cb c w) = n_friend_events w"
  by (simp_all add: n_call_def)

lemma node_ok_frame:
  "node_ok env fr w \<Longrightarrow> n_friends w' = n_friends w \<Longrightarrow> n_tox w' = n_tox w \<Longrightarrow> n_me w' = n_me w \<Longrightarrow> node_ok env fr w'"
  by (simp add: node_ok_def self_ok_def)

lemma n_fail_ok: "node_ok env fr w \<Longrightarrow> node_ok env fr (snd (n_fail w e))"
  by (rule node_ok_frame) (simp_all add: n_fail_def)

lemma n_call_ok: "node_ok env fr w \<Longrightarrow> node_ok env fr (n_call env' cb c w)"
  by (rule node_ok_frame) simp_all

lemma node_entry: "node_ok env fr w \<Longrightarrow> map_of (n_friends w) n = Some fi \<Longrightarrow> entry_ok env (fr (n_tox w)) n fi"
  by (simp add: node_ok_def ftable_ok_def)

lemma ftable_update:
  assumes "ftable_ok env F tbl" "map_of tbl n \<noteq> None" "entry_ok env F n fi"
  shows "ftable_ok env F (AList.update n fi tbl)"
proof -
  have "dom ((map_of tbl)(n \<mapsto> fi)) = dom (map_of tbl)" using assms(2) by auto
  then show ?thesis
    using assms by (auto simp: ftable_ok_def update_conv' distinct_update split: if_splits)
qed

lemma node_update:
  "node_ok env fr w \<Longrightarrow> map_of (n_friends w) n \<noteq> None \<Longrightarrow> entry_ok env (fr (n_tox w)) n fi \<Longrightarrow>
     node_ok env fr (w\<lparr> n_friends := AList.update n fi (n_friends w) \<rparr>)"
  by (simp add: node_ok_def self_ok_def ftable_update)

text \<open>Taking an entry, changing it, and giving it back.\<close>

lemma friends_get_None: "n \<noteq> -1 \<Longrightarrow> map_of (n_friends w) n = None \<Longrightarrow> node_friends_get w n = Inr (None, w)"
  by (simp add: node_friends_get_def)

lemma friends_get_Some:
  "n \<noteq> -1 \<Longrightarrow> map_of (n_friends w) n = Some fi \<Longrightarrow> node_friends_get w n =
     Inr (Some (fi\<lparr> fi_refs := fi_refs fi + 1 \<rparr>), w\<lparr> n_friends := AList.update n (fi\<lparr> fi_refs := fi_refs fi + 1 \<rparr>) (n_friends w) \<rparr>)"
  by (simp add: node_friends_get_def Let_def)

lemma deref_same:
  "map_of (n_friends w) n = Some fi \<Longrightarrow>
     friend_deref (w\<lparr> n_friends := AList.update n (fi\<lparr> fi_refs := Suc (fi_refs fi) \<rparr>) (n_friends w) \<rparr>) n = w"
  by (simp add: friend_deref_def friend_update_def update_conv' update_triv)

lemma friend_update_get:
  "friend_update (w\<lparr> n_friends := AList.update n fi tbl \<rparr>) n g = w\<lparr> n_friends := AList.update n (g fi) tbl \<rparr>"
  by (simp add: friend_update_def update_conv')

lemma deref_call: "friend_deref (n_call env cb c w) n = n_call env cb c (friend_deref w n)"
  by (simp add: friend_deref_def friend_update_def n_call_def split: option.split)

lemma deref_get: "friend_deref (w\<lparr> n_friends := AList.update n fi tbl \<rparr>) n = w\<lparr> n_friends := AList.update n (fi\<lparr> fi_refs := fi_refs fi - 1 \<rparr>) tbl \<rparr>"
  by (simp add: friend_deref_def friend_update_get)

lemmas friend_ops = friends_get_Some update_triv deref_same friend_update_get deref_call deref_get

section \<open>What the network tells\<close>

lemma description_ok:
  assumes "node_ok env fr w" "n \<noteq> -1" "polite_bytes (ne_flatcc env) desc"
  shows "total (node_ok env fr) (notify_friend_description_cb env w n desc)"
proof (cases "map_of (n_friends w) n")
  case None
  then show ?thesis using assms by (simp add: notify_friend_description_cb_def friends_get_None)
next
  case (Some fi)
  let ?fi = "fi\<lparr> fi_refs := fi_refs fi + 1 \<rparr>" and ?info = "ef_user_info (fi_info fi)"
  let ?w = "w\<lparr> n_friends := AList.update n ?fi (n_friends w) \<rparr>"
  show ?thesis
  proof (cases "desc = []")
    case True
    then show ?thesis using assms(1,2) Some by (simp add: notify_friend_description_cb_def friend_ops)
  next
    case False
    obtain u where u: "unpack_user_desc (ne_flatcc env) (ne_alloc env ?w) desc ?info = Inr u"
      "\<forall>ui c. u = Some (ui, c) \<longrightarrow> eu_userid ui = eu_userid ?info"
      using unpack_total [OF False assms(3), of ?info "ne_alloc env ?w"] by (auto simp: total_def)
    show ?thesis
    proof (cases u)
      case None
      then show ?thesis using assms(1,2) Some False u(1) by (simp add: notify_friend_description_cb_def friend_ops)
    next
      case (Some p)
      obtain ui c where p: "p = (ui, c)" by (cases p)
      let ?fi' = "fi\<lparr> fi_info := (fi_info fi)\<lparr> ef_user_info := ui \<rparr> \<rparr>"
      have "eu_userid ui = eu_userid ?info" using u(2) Some p by blast
      then have "entry_ok env (fr (n_tox w)) n ?fi'"
        using node_entry [OF assms(1) \<open>map_of (n_friends w) n = Some fi\<close>] by (simp add: entry_ok_def)
      then have "node_ok env fr (w\<lparr> n_friends := AList.update n ?fi' (n_friends w) \<rparr>)"
        using node_update [OF assms(1), of n ?fi'] \<open>map_of (n_friends w) n = Some fi\<close> by simp
      then show ?thesis
        using assms(2) False u(1) Some \<open>map_of (n_friends w) n = Some fi\<close>
        by (simp add: notify_friend_description_cb_def friend_ops p Let_def notify_friend_info_def node_friends_exist_def update_conv' n_call_ok)
    qed
  qed
qed

lemma userid_fits:
  assumes "base58_ok env" "tox_friends_ok T fr" "entry_ok env (fr t) n fi"
  shows "copy_str (ELA_MAX_ID_LEN + 1) (eu_userid (ef_user_info (fi_info fi))) = Inr (eu_userid (ef_user_info (fi_info fi)))"
  using assms(3) base58_key(2) [OF assms(1)] tox_keys(1) [OF assms(2)] by (fastforce simp: entry_ok_def copy_str_def)

lemma connection_ok:
  assumes "node_ok env fr w" "n \<noteq> -1" "base58_ok env" "tox_friends_ok T fr"
  shows "total (node_ok env fr) (notify_friend_connection_cb env w n c)"
proof (cases "map_of (n_friends w) n")
  case None
  then show ?thesis using assms by (simp add: notify_friend_connection_cb_def friends_get_None)
next
  case (Some fi)
  let ?s = "if c then ElaConnectionStatus_Connected else ElaConnectionStatus_Disconnected"
  let ?fi = "fi\<lparr> fi_info := (fi_info fi)\<lparr> ef_status := ?s \<rparr> \<rparr>"
  note e = node_entry [OF assms(1) Some]
  have "entry_ok env (fr (n_tox w)) n ?fi" using e by (simp add: entry_ok_def)
  then have "node_ok env fr (w\<lparr> n_friends := AList.update n ?fi (n_friends w) \<rparr>)"
    using node_update [OF assms(1), of n ?fi] Some by simp
  then show ?thesis
    using assms(1,2) Some userid_fits [OF assms(3,4) e]
    by (simp add: notify_friend_connection_cb_def friend_ops Let_def notify_friend_connection_def n_call_ok)
qed

lemma status_ok:
  assumes "node_ok env fr w" "n \<noteq> -1" "base58_ok env" "tox_friends_ok T fr" "0 \<le> s" "s \<le> 2"
  shows "total (node_ok env fr) (notify_friend_status_cb env w n s)"
proof (cases "map_of (n_friends w) n")
  case None
  then show ?thesis using assms by (simp add: notify_friend_status_cb_def friends_get_None)
next
  case (Some fi)
  let ?fi = "fi\<lparr> fi_info := (fi_info fi)\<lparr> ef_presence := get_presence_status s \<rparr> \<rparr>"
  note e = node_entry [OF assms(1) Some]
  have "entry_ok env (fr (n_tox w)) n ?fi" using e by (simp add: entry_ok_def)
  then have "node_ok env fr (w\<lparr> n_friends := AList.update n ?fi (n_friends w) \<rparr>)"
    using node_update [OF assms(1), of n ?fi] Some by simp
  then show ?thesis
    using assms(1,2,5,6) Some userid_fits [OF assms(3,4) e]
    by (simp add: notify_friend_status_cb_def friend_ops Let_def notify_friend_presence_def n_call_ok)
qed

lemma request_ok:
  assumes "node_ok env fr w" "g \<noteq> []" "polite_bytes (ne_flatcc env) g"
  shows "total (node_ok env fr) (notify_friend_request_cb env w k g)"
proof -
  obtain cpo where d: "elacp_decode (ne_flatcc env) (ne_alloc env w) g = Inr cpo" "\<forall>cp. cpo = Some cp \<longrightarrow> polite_packet cp"
    by (rule polite_decode [OF assms(3)])
  obtain rc m where r: "dht_get_friend_number (ne_tox env) (n_tox w) k = (rc, m)" by fastforce
  show ?thesis
  proof (cases "\<exists>cp p. cpo = Some cp \<and> cp_packet cp = PktFreq p")
    case True
    then obtain cp p where cp: "cpo = Some cp" "cp_packet cp = PktFreq p" by blast
    then have "fits ELA_MAX_USER_NAME_LEN (fr_name p)" "fits ELA_MAX_USER_DESCRIPTION_LEN (fr_descr p)"
      using d(2) by (auto simp: polite_packet_def)
    then show ?thesis
      using assms(1,2) d(1) cp
      by (simp add: notify_friend_request_cb_def r Let_def elacp_get_type_def elacp_get_name_def elacp_get_descr_def elacp_get_hello_def
          copy_fits n_call_ok)
  next
    case False
    then show ?thesis
      using assms(1,2) d(1)
      by (cases cpo) (auto simp: notify_friend_request_cb_def r elacp_get_type_def elacp_types split: elacp_packet.splits)
  qed
qed

lemma connected_ok: "node_ok env fr w \<Longrightarrow> node_ok env fr (notify_connection_cb env w c)"
  by (rule node_ok_frame [of env fr w]) (simp_all add: notify_connection_cb_def Let_def)

lemma event_fields [simp]:
  "n_friends (do_friend_event env w e) = n_friends w" "n_tox (do_friend_event env w e) = n_tox w" "n_me (do_friend_event env w e) = n_me w"
  by (simp_all add: do_friend_event_def Let_def split: FriendEvent.split)

lemma events_fields [simp]:
  "n_friends (foldl (do_friend_event env) w es) = n_friends w" "n_tox (foldl (do_friend_event env) w es) = n_tox w"
  "n_me (foldl (do_friend_event env) w es) = n_me w"
  by (induction es arbitrary: w) simp_all

lemma events_ok: "node_ok env fr w \<Longrightarrow> node_ok env fr (do_friend_events env w)"
  by (rule node_ok_frame [of env fr w]) (simp_all add: do_friend_events_def)

section \<open>Functions of the user\<close>

lemma store_total: "sha256_ok os \<Longrightarrow> \<exists>rc d'. store_persistence_data os loc dht fr d = Inr (rc, d')"
  by (auto simp: store_persistence_data_def persist_buffer Let_def split: prod.split)

lemma node_store_total:
  assumes "sha256_ok (ne_os env)"
  shows "\<exists>d. node_store env w = Inr (w\<lparr> n_disk := d \<rparr>)"
  using store_total [OF assms, of "ne_location env" "dht_get_savedata (ne_tox env) (n_tox w)" "n_friends w" "n_disk w"]
  by (auto simp: node_store_def)

lemma node_store_ok:
  assumes "sha256_ok (ne_os env)" "node_ok env fr w"
  shows "total (node_ok env fr) (node_store env w)"
  using node_store_total [OF assms(1), of w] node_ok_frame [OF assms(2)] by auto

lemma added_ok:
  assumes "sha256_ok (ne_os env)" "node_ok env fr w"
  shows "total (node_ok env fr) (notify_friend_added env w fi)" "total (node_ok env fr) (notify_friend_removed env w fi)"
proof -
  obtain d where d: "node_store env w = Inr (w\<lparr> n_disk := d \<rparr>)" using node_store_total [OF assms(1)] by blast
  have "node_ok env fr (w\<lparr> n_disk := d, n_friend_events := es \<rparr>)" for es by (rule node_ok_frame [OF assms(2)]) simp_all
  moreover have "node_ok env fr (w\<lparr> n_disk := d \<rparr>)" by (rule node_ok_frame [OF assms(2)]) simp_all
  ultimately show "total (node_ok env fr) (notify_friend_added env w fi)" "total (node_ok env fr) (notify_friend_removed env w fi)"
    by (simp_all add: notify_friend_added_def notify_friend_removed_def d)
qed

text \<open>The number of a friend, by its id.\<close>

lemma friend_number_found:
  assumes "tox_friends_ok (ne_tox env) fr" "node_get_friend_number env w s = (rc, n)" "\<not> sint rc < 0"
  obtains k where "ne_base58_decode env s = Some k" "length k = DHT_PUBLIC_KEY_SIZE" "fr (n_tox w) n = Some k" "rc = 0" "n \<noteq> -1"
proof -
  obtain k where k: "ne_base58_decode env s = Some k" "length k = DHT_PUBLIC_KEY_SIZE"
    using assms(2,3) by (auto simp: node_get_friend_number_def split: option.splits if_splits)
  obtain e m where f: "tox_friend_by_public_key (ne_tox env) (n_tox w) k = (e, m)" by fastforce
  show thesis
    using that [OF k] assms(2,3) k tox_found [OF assms(1) f] f
    by (auto simp: node_get_friend_number_def dht_get_friend_number_def split: if_splits)
qed

lemma friend_of_number:
  assumes "env_ok env fr" "node_ok env fr w" "node_get_friend_number env w s = (rc, n)" "\<not> sint rc < 0"
  obtains fi where "map_of (n_friends w) n = Some fi" "eu_userid (ef_user_info (fi_info fi)) = s" "n \<noteq> -1"
proof -
  have T: "tox_friends_ok (ne_tox env) fr" and B: "base58_ok env" using assms(1) by (simp_all add: env_ok_def)
  obtain k where k: "ne_base58_decode env s = Some k" "length k = DHT_PUBLIC_KEY_SIZE" "fr (n_tox w) n = Some k" "n \<noteq> -1"
    by (rule friend_number_found [OF T assms(3,4)])
  then have "n \<in> dom (map_of (n_friends w))" using assms(2) by (auto simp: node_ok_def ftable_ok_def)
  then obtain fi where fi: "map_of (n_friends w) n = Some fi" by blast
  then have "eu_userid (ef_user_info (fi_info fi)) = key_text env k (ELA_MAX_ID_LEN + 1)"
    using node_entry [OF assms(2) fi] k(3) by (simp add: entry_ok_def)
  then show thesis using that [OF fi _ k(4)] base58_text [OF B k(1,2)] by simp
qed

lemma get_friend_info_ok:
  assumes "env_ok env fr" "node_ok env fr w"
  shows "total (\<lambda>(rc, info, w'). node_ok env fr w') (ela_get_friend_info env w s)"
proof -
  obtain rc n where r: "node_get_friend_number env w s = (rc, n)" by fastforce
  show ?thesis
  proof (cases "s = [] \<or> sint rc < 0")
    case True
    then show ?thesis using n_fail_ok [OF assms(2)] by (auto simp: ela_get_friend_info_def r Let_def)
  next
    case False
    then obtain fi where "map_of (n_friends w) n = Some fi" "eu_userid (ef_user_info (fi_info fi)) = s" "n \<noteq> -1"
      using friend_of_number [OF assms r] by blast
    then show ?thesis using False assms(2) by (auto simp: ela_get_friend_info_def r Let_def friend_ops)
  qed
qed

lemma set_label_ok:
  assumes "env_ok env fr" "node_ok env fr w" "\<forall>l. label = Some l \<longrightarrow> no_nul l"
  shows "total (\<lambda>(rc, w'). node_ok env fr w') (ela_set_friend_label env w s label)"
proof -
  obtain rc n where r: "node_get_friend_number env w s = (rc, n)" by fastforce
  show ?thesis
  proof (cases "s = [] \<or> sint rc < 0 \<or> (case label of None \<Rightarrow> False | Some l \<Rightarrow> length l > ELA_MAX_USER_NAME_LEN)")
    case True
    then show ?thesis using n_fail_ok [OF assms(2)] by (auto simp: ela_set_friend_label_def r n_fail_def)
  next
    case False
    then have fit: "fits ELA_MAX_USER_NAME_LEN label" using assms(3) by (auto simp: fits_def split: option.splits)
    obtain fi where fi: "map_of (n_friends w) n = Some fi" "eu_userid (ef_user_info (fi_info fi)) = s" "n \<noteq> -1"
      using friend_of_number [OF assms(1,2) r] False by blast
    let ?fi = "set_label fi (opt_string label)"
    have "entry_ok env (fr (n_tox w)) n ?fi"
      using node_entry [OF assms(2) fi(1)] fits_opt [OF fit] by (simp add: entry_ok_def set_label_def)
    then have ok: "node_ok env fr (w\<lparr> n_friends := AList.update n ?fi (n_friends w) \<rparr>)"
      using node_update [OF assms(2), of n ?fi] fi(1) by simp
    have eq: "(set_label (fi\<lparr> fi_refs := Suc (fi_refs fi) \<rparr>) (opt_string label))\<lparr> fi_refs := fi_refs fi \<rparr> = ?fi"
      "fi_refs (set_label (fi\<lparr> fi_refs := Suc (fi_refs fi) \<rparr>) (opt_string label)) = Suc (fi_refs fi)"
      by (simp_all add: set_label_def)
    have "total (node_ok env fr) (node_store env (w\<lparr> n_friends := AList.update n ?fi (n_friends w) \<rparr>))"
      using assms(1) ok by (intro node_store_ok) (simp_all add: env_ok_def)
    then show ?thesis
      using False fi fit by (simp add: ela_set_friend_label_def r friend_ops copy_fits Let_def eq)
  qed
qed

lemma ftable_add:
  assumes "ftable_ok env F tbl" "F n = None" "entry_ok env (F(n \<mapsto> k)) n fi"
  shows "ftable_ok env (F(n \<mapsto> k)) (AList.update n fi tbl)"
proof -
  have "map_of tbl n = None" using assms(1,2) unfolding ftable_ok_def by (metis domIff)
  moreover have "entry_ok env (F(n \<mapsto> k)) m f" if "map_of tbl m = Some f" "m \<noteq> n" for m f
    using assms(1) that by (auto simp: ftable_ok_def entry_ok_def)
  ultimately show ?thesis
    using assms by (auto simp: ftable_ok_def update_conv' distinct_update)
qed

lemma put_ok:
  assumes "node_ok env fr w" "fr t n = None" "fr t' = (fr t)(n \<mapsto> k)" "fr (n_tox w) = fr t" "same_self (ne_tox env) (n_tox w) t'"
    "userid = key_text env k (ELA_MAX_ID_LEN + 1)"
  shows "node_ok env fr (node_friends_put (w\<lparr> n_tox := t' \<rparr>) (new_friend n (blank_user userid) p))"
proof -
  have "entry_ok env ((fr t)(n \<mapsto> k)) n (new_friend n (blank_user userid) p)"
    using assms(6) by (simp add: entry_ok_def new_friend_def blank_user_def fits_def no_nul_def)
  then show ?thesis
    using ftable_add [of env "fr t" "n_friends w" n k] assms
    by (simp add: node_ok_def node_friends_put_def new_friend_def self_ok_def same_self_def)
qed

lemma n_tox_ok:
  "node_ok env fr w \<Longrightarrow> fr t' = fr (n_tox w) \<Longrightarrow> same_self (ne_tox env) (n_tox w) t' \<Longrightarrow> node_ok env fr (w\<lparr> n_tox := t' \<rparr>)"
  by (simp add: node_ok_def self_ok_def same_self_def)

lemma tox_same_self:
  assumes "tox_self_ok T"
  shows "same_self T t (tox_self_set_nospam T t x)" "same_self T t (tox_self_set_status T t y)"
    "tox_friend_add T t a b = (e1, n1, t1) \<Longrightarrow> same_self T t t1" "tox_friend_add_norequest T t a = (e2, n2, t2) \<Longrightarrow> same_self T t t2"
    "tox_friend_delete T t n = (e3, t3) \<Longrightarrow> same_self T t t3"
  using assms unfolding tox_self_ok_def by (metis snd_conv)+

text \<open>The packet of a friend request is never an error of its own, and no packet is empty.\<close>

lemma request_packet_total: "\<exists>r. friend_request_packet env a me hello = Inr r"
  by (simp add: friend_request_packet_def elacp_create_def elacp_types elacp_set_name_def elacp_set_descr_def elacp_set_hello_def not_null_def
      set_packet_def elacp_encode_def)

definition flatcc_nonempty :: "flatcc_lib \<Rightarrow> bool" where
  "flatcc_nonempty lib \<longleftrightarrow> (\<forall>p. flatcc_finalize lib p \<noteq> Some [])"

lemma encode_nonempty: "flatcc_nonempty lib \<Longrightarrow> elacp_encode lib cp \<noteq> Inr (Some [])"
  by (auto simp: elacp_encode_def flatcc_nonempty_def)

lemma request_packet_nonempty: "flatcc_nonempty (ne_flatcc env) \<Longrightarrow> friend_request_packet env a me hello \<noteq> Inr (Some (Some []))"
  using encode_nonempty [of "ne_flatcc env"] by (auto simp: friend_request_packet_def split: option.splits)

lemma add_friend_ok:
  assumes "env_ok env fr" "flatcc_nonempty (ne_flatcc env)" "node_ok env fr w"
  shows "total (\<lambda>(rc, w'). node_ok env fr w') (ela_add_friend env w address hello)"
proof (cases "hello = [] \<or> address = [] \<or> \<not> address_valid env address \<or> address = n_base58_addr w \<or> \<not> n_is_ready w")
  case True
  then show ?thesis using n_fail_ok [OF assms(3)] by (auto simp: ela_add_friend_def n_fail_def)
next
  case False
  have T: "tox_friends_ok (ne_tox env) fr" and S: "tox_self_ok (ne_tox env)" and O: "sha256_ok (ne_os env)"
    using assms(1) by (simp_all add: env_ok_def)
  obtain addr where addr: "ne_base58_decode env address = Some addr"
    using False by (auto simp: address_valid_def address_ok_def split: option.splits)
  obtain rc0 n0 where r0: "dht_get_friend_number (ne_tox env) (n_tox w) (take DHT_PUBLIC_KEY_SIZE addr) = (rc0, n0)" by fastforce
  obtain data where data: "friend_request_packet env (ne_alloc env w) (n_me w) hello = Inr data" using request_packet_total by blast
  show ?thesis
  proof (cases "rc0 = 0 \<and> n0 \<noteq> -1 \<or> \<not> ne_alloc env w \<or> (\<forall>bs. data \<noteq> Some (Some bs))")
    case True
    then show ?thesis
      using False addr r0 data n_fail_ok [OF assms(3)]
      by (auto simp: ela_add_friend_def n_fail_def split: option.splits)
  next
    case ok: False
    then obtain bs where bs: "data = Some (Some bs)" by blast
    then have "bs \<noteq> []" using request_packet_nonempty [OF assms(2)] data by blast
    obtain e n t where add: "tox_friend_add (ne_tox env) (n_tox w) addr bs = (e, n, t)" by (metis prod_cases3)
    note same = tox_same_self(3) [OF S add] and law = tox_added [OF T add]
    show ?thesis
    proof (cases "n = -1")
      case True
      then have "node_ok env fr (w\<lparr> n_tox := t \<rparr>)" using n_tox_ok [OF assms(3) _ same] law by simp
      from n_fail_ok [OF this] show ?thesis
        using False addr r0 data bs ok \<open>bs \<noteq> []\<close> add True law
        by (auto simp: ela_add_friend_def dht_friend_add_def Let_def n_fail_def)
    next
      case new: False
      let ?k = "take DHT_PUBLIC_KEY_SIZE addr"
      let ?fi = "new_friend n (blank_user (key_text env ?k (ELA_MAX_ID_LEN + 1))) ElaPresenceStatus_None"
      have "node_ok env fr (node_friends_put (w\<lparr> n_tox := t \<rparr>) ?fi)"
        using law new put_ok [OF assms(3) _ _ refl same refl, of n ?k ElaPresenceStatus_None] by simp
      then have "total (node_ok env fr) (notify_friend_added env (node_friends_put (w\<lparr> n_tox := t \<rparr>) ?fi) (fi_info ?fi))"
        by (rule added_ok(1) [OF O])
      then show ?thesis
        using False addr r0 data bs ok \<open>bs \<noteq> []\<close> add new
        by (auto simp: ela_add_friend_def dht_friend_add_def Let_def)
    qed
  qed
qed

lemma accept_friend_ok:
  assumes "env_ok env fr" "node_ok env fr w"
  shows "total (\<lambda>(rc, w'). node_ok env fr w') (ela_accept_friend env w s)"
proof -
  have T: "tox_friends_ok (ne_tox env) fr" and S: "tox_self_ok (ne_tox env)" and O: "sha256_ok (ne_os env)" and B: "base58_ok env"
    using assms(1) by (simp_all add: env_ok_def)
  obtain rc0 n0 where r0: "node_get_friend_number env w s = (rc0, n0)" by fastforce
  show ?thesis
  proof (cases "s = [] \<or> \<not> key_valid env s \<or> s = eu_userid (n_me w) \<or> \<not> n_is_ready w \<or> rc0 = 0 \<and> n0 \<noteq> -1 \<or> \<not> ne_alloc env w")
    case True
    then show ?thesis using n_fail_ok [OF assms(2)] r0 by (auto simp: ela_accept_friend_def n_fail_def)
  next
    case False
    then obtain k where k: "ne_base58_decode env s = Some k" "length k = DHT_PUBLIC_KEY_SIZE"
      by (auto simp: key_valid_def split: option.splits)
    note key_txt = base58_text [OF B k]
    have copy: "copy_str (Suc ELA_MAX_ID_LEN) s = Inr s"
      using base58_key(2) [OF B k(2)] key_txt by (simp add: copy_str_def)
    obtain e n t where add: "tox_friend_add_norequest (ne_tox env) (n_tox w) k = (e, n, t)" by (metis prod_cases3)
    note same = tox_same_self(4) [OF S add] and law = tox_accepted [OF T add]
    show ?thesis
    proof (cases "n = -1")
      case True
      then have "node_ok env fr (w\<lparr> n_tox := t \<rparr>)" using n_tox_ok [OF assms(2) _ same] law by simp
      from n_fail_ok [OF this] show ?thesis
        using False r0 k add True law by (auto simp: ela_accept_friend_def dht_friend_add_norequest_def Let_def n_fail_def)
    next
      case new: False
      let ?fi = "new_friend n (blank_user s) ElaPresenceStatus_None"
      have "node_ok env fr (node_friends_put (w\<lparr> n_tox := t \<rparr>) ?fi)"
        using law new put_ok [OF assms(2) _ _ refl same, of n k s ElaPresenceStatus_None] key_txt by simp
      then have "total (node_ok env fr) (notify_friend_added env (node_friends_put (w\<lparr> n_tox := t \<rparr>) ?fi) (fi_info ?fi))"
        by (rule added_ok(1) [OF O])
      then show ?thesis
        using False r0 k add new copy by (auto simp: ela_accept_friend_def dht_friend_add_norequest_def Let_def)
    qed
  qed
qed

lemma ftable_delete:
  assumes "ftable_ok env F tbl"
  shows "ftable_ok env (F(n := None)) (AList.delete n tbl)"
  using assms by (auto simp: ftable_ok_def delete_conv' distinct_delete entry_ok_def split: if_splits)

lemma remove_friend_ok:
  assumes "env_ok env fr" "node_ok env fr w"
  shows "total (\<lambda>(rc, w'). node_ok env fr w') (ela_remove_friend env w s)"
proof -
  have T: "tox_friends_ok (ne_tox env) fr" and S: "tox_self_ok (ne_tox env)" and O: "sha256_ok (ne_os env)"
    using assms(1) by (simp_all add: env_ok_def)
  obtain rc n where r: "node_get_friend_number env w s = (rc, n)" by fastforce
  show ?thesis
  proof (cases "s = [] \<or> \<not> key_valid env s \<or> \<not> n_is_ready w \<or> sint rc < 0")
    case True
    then show ?thesis using n_fail_ok [OF assms(2)] r by (auto simp: ela_remove_friend_def n_fail_def)
  next
    case False
    then obtain fi where fi: "map_of (n_friends w) n = Some fi" "n \<noteq> -1"
      using friend_of_number [OF assms r] by blast
    obtain e t where del: "tox_friend_delete (ne_tox env) (n_tox w) n = (e, t)" by fastforce
    have "node_ok env fr (w\<lparr> n_tox := t, n_friends := AList.delete n (n_friends w) \<rparr>)"
      using assms(2) ftable_delete [of env "fr (n_tox w)" "n_friends w" n] tox_deleted [OF T del] tox_same_self(5) [OF S del]
      by (simp add: node_ok_def self_ok_def same_self_def)
    from added_ok(2) [OF O this] show ?thesis
      using False r fi del
      by (simp add: ela_remove_friend_def node_friends_exist_def dht_friend_delete_def node_friends_remove_def)
  qed
qed

section \<open>The own profile\<close>

definition info_fits :: "ElaUserInfo \<Rightarrow> bool" where
  "info_fits ui \<longleftrightarrow> fits ELA_MAX_USER_NAME_LEN (Some (eu_name ui)) \<and> fits ELA_MAX_USER_DESCRIPTION_LEN (Some (eu_description ui)) \<and>
     fits ELA_MAX_GENDER_LEN (Some (eu_gender ui)) \<and> fits ELA_MAX_PHONE_LEN (Some (eu_phone ui)) \<and>
     fits ELA_MAX_EMAIL_LEN (Some (eu_email ui)) \<and> fits ELA_MAX_REGION_LEN (Some (eu_region ui))"

definition info_cp :: "ElaUserInfo \<Rightarrow> ElaCP" where
  "info_cp ui = \<lparr> cp_ext = None, cp_packet = PktInfo \<lparr> ui_has_avatar = eu_has_avatar ui, ui_name = Some (eu_name ui),
     ui_descr = Some (eu_description ui), ui_phone = Some (eu_phone ui), ui_gender = Some (eu_gender ui), ui_email = Some (eu_email ui),
     ui_region = Some (eu_region ui) \<rparr> \<rparr>"

lemma info_packet_eq:
  "info_packet env a info = (if a then bindr (elacp_encode (ne_flatcc env) (info_cp info)) (\<lambda>data. Inr (Some data)) else Inr None)"
  by (simp add: info_packet_def elacp_create_def elacp_types elacp_set_has_avatar_def elacp_set_name_def elacp_set_descr_def
      elacp_set_gender_def elacp_set_phone_def elacp_set_email_def elacp_set_region_def not_null_def set_packet_def info_cp_def)

lemma info_packet_spec:
  assumes "flatcc_ok (ne_flatcc env)"
  obtains data where "info_packet env a info = Inr data"
    "\<And>bs. data = Some (Some bs) \<Longrightarrow> elacp_decode (ne_flatcc env) True bs = Inr (Some (info_cp info))"
proof -
  have "cp_ok (info_cp info)" by (simp add: cp_ok_def info_cp_def)
  from elacp_codec [OF assms this] obtain r where
    "elacp_encode (ne_flatcc env) (info_cp info) = Inr r" "\<forall>bs. r = Some bs \<longrightarrow> elacp_decode (ne_flatcc env) True bs = Inr (Some (info_cp info))"
    by blast
  then show thesis using that by (cases a) (auto simp: info_packet_eq)
qed

lemma info_polite: "info_fits info \<Longrightarrow> polite_packet (info_cp info)"
  by (simp add: polite_packet_def info_cp_def info_fits_def)

lemma info_bytes_polite:
  "info_fits info \<Longrightarrow> elacp_decode (ne_flatcc env) True bs = Inr (Some (info_cp info)) \<Longrightarrow> polite_bytes (ne_flatcc env) bs"
  by (simp add: polite_bytes_def info_polite)

text \<open>The functions of the own profile keep the friends, in the library and in the table.\<close>

definition kept :: "'t node_env \<Rightarrow> ('t \<Rightarrow> u32 \<rightharpoonup> byte list) \<Rightarrow> 't node \<Rightarrow> 't node \<Rightarrow> bool" where
  "kept env fr w w' \<longleftrightarrow> self_ok env w' \<and> n_friends w' = n_friends w \<and> fr (n_tox w') = fr (n_tox w) \<and>
     tox_friend_get_status_message (ne_tox env) (n_tox w') = tox_friend_get_status_message (ne_tox env) (n_tox w)"

lemma kept_node_ok: "kept env fr w w' \<Longrightarrow> node_ok env fr w \<Longrightarrow> node_ok env fr w'"
  by (simp add: kept_def node_ok_def)

lemma kept_refl: "self_ok env w \<Longrightarrow> kept env fr w w"
  by (simp add: kept_def)

lemma kept_trans: "kept env fr w w' \<Longrightarrow> kept env fr w' w'' \<Longrightarrow> kept env fr w w''"
  by (simp add: kept_def)

lemma set_name_kept:
  assumes "env_ok env fr" "self_ok env w" "fits ELA_MAX_USER_NAME_LEN (Some s)" "dht_self_set_name (ne_tox env) (n_tox w) (cstring s) = (rc, t)"
  shows "kept env fr w (w\<lparr> n_tox := t \<rparr>)"
proof -
  have T: "tox_friends_ok (ne_tox env) fr" and S: "tox_self_ok (ne_tox env)" using assms(1) by (simp_all add: env_ok_def)
  have t: "t = snd (tox_self_set_name (ne_tox env) (n_tox w) (cstring s))"
    using assms(4) by (auto simp: dht_self_set_name_def split: prod.splits if_splits)
  show ?thesis
    using assms(2,3) S tox_unchanged(3) [OF T, of "n_tox w" "cstring s"] unfolding t tox_self_ok_def kept_def self_ok_def by auto
qed

lemma set_desc_kept:
  assumes "env_ok env fr" "self_ok env w" "polite_bytes (ne_flatcc env) bs"
  shows "kept env fr w (w\<lparr> n_tox := snd (dht_self_set_desc (ne_tox env) (n_tox w) bs) \<rparr>)"
proof -
  have T: "tox_friends_ok (ne_tox env) fr" and S: "tox_self_ok (ne_tox env)" using assms(1) by (simp_all add: env_ok_def)
  have t: "snd (dht_self_set_desc (ne_tox env) (n_tox w) bs) = snd (tox_self_set_status_message (ne_tox env) (n_tox w) bs)"
    by (auto simp: dht_self_set_desc_def split: prod.splits if_splits)
  show ?thesis
    using assms(2,3) S tox_unchanged(4) [OF T, of "n_tox w" bs] unfolding t tox_self_ok_def kept_def self_ok_def by auto
qed

lemmas set_name_ok = kept_node_ok [OF set_name_kept] and set_desc_ok = kept_node_ok [OF set_desc_kept]

lemma node_self: "node_ok env fr w \<Longrightarrow> self_ok env w"
  by (simp add: node_ok_def)

lemma set_self_info_ok:
  assumes "env_ok env fr" "node_ok env fr w" "info_fits info"
  shows "total (\<lambda>(rc, w'). node_ok env fr w') (ela_set_self_info env w info)"
proof -
  have F: "flatcc_ok (ne_flatcc env)" and O: "sha256_ok (ne_os env)" using assms(1) by (simp_all add: env_ok_def)
  obtain rc t where set: "(if eu_name info \<noteq> eu_name (n_me w) then dht_self_set_name (ne_tox env) (n_tox w) (cstring (eu_name info))
    else (0, n_tox w)) = (rc, t)" by fastforce
  have w1: "node_ok env fr (w\<lparr> n_tox := t \<rparr>)"
  proof (cases "eu_name info = eu_name (n_me w)")
    case True
    then show ?thesis using set node_ok_frame [OF assms(2)] by simp
  next
    case False
    then show ?thesis using set set_name_ok [OF assms(1) node_self [OF assms(2)] _ _ assms(2)] assms(3) by (auto simp: info_fits_def)
  qed
  obtain data where data: "info_packet env True info = Inr data"
    "\<And>bs. data = Some (Some bs) \<Longrightarrow> elacp_decode (ne_flatcc env) True bs = Inr (Some (info_cp info))"
    using info_packet_spec [OF F, of True info] by blast
  show ?thesis
  proof (cases "eu_userid info \<noteq> eu_userid (n_me w) \<or> \<not> ne_alloc env w \<or> \<not> info_changed info (n_me w) \<or> rc \<noteq> 0 \<or> (\<forall>bs. data \<noteq> Some (Some bs))")
    case True
    then show ?thesis
      using n_fail_ok [OF assms(2)] n_fail_ok [OF w1] data(1) assms(2)
      by (auto simp: ela_set_self_info_def n_fail_def set Let_def split: option.splits)
  next
    case False
    then obtain bs where bs: "data = Some (Some bs)" by blast
    have "node_ok env fr (w\<lparr> n_tox := t, n_me := info \<rparr>)"
      using w1 assms(3) by (simp add: node_ok_def self_ok_def info_fits_def)
    from set_desc_ok [OF assms(1) node_self [OF this] info_bytes_polite [OF assms(3) data(2) [OF bs]] this]
    have "total (node_ok env fr) (node_store env (w\<lparr> n_me := info, n_tox := snd (dht_self_set_desc (ne_tox env) t bs) \<rparr>))"
      by (intro node_store_ok [OF O]) simp
    then show ?thesis using False data(1) bs by (simp add: ela_set_self_info_def set Let_def)
  qed
qed

text \<open>What the node knows of itself is read again when the nospam changes.\<close>

lemma sync_name_kept:
  assumes "env_ok env fr" "self_ok env w"
  shows "total (kept env fr w) (sync_name env w)"
proof -
  let ?t = "snd (dht_self_set_name (ne_tox env) (n_tox w) (cstring (eu_name (n_me w))))"
  have "fits ELA_MAX_USER_NAME_LEN (Some (eu_name (n_me w)))" using assms(2) by (simp add: self_ok_def)
  then have set: "kept env fr w (w\<lparr> n_tox := ?t \<rparr>)"
    using set_name_kept [OF assms, of "eu_name (n_me w)"] by (metis prod.collapse)
  consider "tox_self_get_name (ne_tox env) (n_tox w) = []" |
    s where "tox_self_get_name (ne_tox env) (n_tox w) = cstring s" "fits ELA_MAX_USER_NAME_LEN (Some s)"
    using assms(2) unfolding self_ok_def by blast
  then show ?thesis
  proof cases
    case 1
    then show ?thesis using set kept_refl [OF assms(2)] by (simp add: sync_name_def dht_self_get_name_def Let_def)
  next
    case 2
    then have "read_c_string (cstring s) 0 = Inr (map of_char s)" using read_c_string_at [of s 0 "[]" "[]"] by (simp add: fits_def)
    then show ?thesis using 2 set kept_refl [OF assms(2)] by (simp add: sync_name_def dht_self_get_name_def Let_def fits_def)
  qed
qed

lemma sync_name_after: "env_ok env fr \<Longrightarrow> kept env fr w w' \<Longrightarrow> total (kept env fr w) (sync_name env w')"
  by (rule total_mono [OF sync_name_kept, of env fr w']) (auto simp: kept_def)

lemma empty_info_fits [simp]: "info_fits (blank_user u)"
  by (simp add: info_fits_def blank_user_def fits_def no_nul_def)

lemma node_self_info_kept:
  assumes "env_ok env fr" "self_ok env w"
  shows "total (kept env fr w) (node_self_info env w)"
proof -
  let ?T = "ne_tox env"
  let ?desc = "tox_self_get_status_message ?T (n_tox w)" and ?key = "tox_self_get_public_key ?T (n_tox w)"
  let ?w = "w\<lparr> n_address := tox_self_get_address ?T (n_tox w), n_public_key := ?key,
    n_base58_addr := key_text env (tox_self_get_address ?T (n_tox w)) (ELA_MAX_ADDRESS_LEN + 1),
    n_me := (n_me w)\<lparr> eu_userid := key_text env ?key (ELA_MAX_ID_LEN + 1) \<rparr>,
    n_presence_status := get_presence_status (tox_self_get_status ?T (n_tox w)) \<rparr>"
  let ?m = "if ?desc \<noteq> [] then bindr (unpack_user_desc (ne_flatcc env) (ne_alloc env ?w) ?desc (n_me ?w)) (\<lambda>u.
          Inr (case u of None \<Rightarrow> ?w | Some (ui, _) \<Rightarrow> ?w\<lparr> n_me := ui \<rparr>)) else fill_empty_user_desc env ?w"
  have F: "flatcc_ok (ne_flatcc env)" using assms(1) by (simp add: env_ok_def)
  have w: "self_ok env ?w" using assms(2) by (simp add: self_ok_def)
  have w': "kept env fr w ?w" using w by (simp add: kept_def)
  have "total (kept env fr ?w) ?m"
  proof (cases "?desc = []")
    case True
    obtain data where "info_packet env (ne_alloc env ?w) (blank_user []) = Inr data"
      "\<And>bs. data = Some (Some bs) \<Longrightarrow> elacp_decode (ne_flatcc env) True bs = Inr (Some (info_cp (blank_user [])))"
      using info_packet_spec [OF F, of "ne_alloc env ?w" "blank_user []"] by blast
    then show ?thesis
      using True kept_refl [OF w] set_desc_kept [OF assms(1) w info_bytes_polite [of "blank_user []"]]
      by (auto simp: fill_empty_user_desc_def split: option.split)
  next
    case False
    then have "polite_bytes (ne_flatcc env) ?desc" using assms(2) by (simp add: self_ok_def)
    from unpack_total [OF False this, of "n_me ?w" "ne_alloc env ?w"] obtain u where
      u: "unpack_user_desc (ne_flatcc env) (ne_alloc env ?w) ?desc (n_me ?w) = Inr u"
      "\<forall>ui c. u = Some (ui, c) \<longrightarrow> fits ELA_MAX_USER_NAME_LEN (Some (eu_name ui))"
      by (auto simp: total_def)
    then show ?thesis using False w by (auto simp: self_ok_def kept_def split: option.split)
  qed
  moreover have "node_self_info env w = bindr ?m (\<lambda>w. sync_name env w)"
    unfolding node_self_info_def dht_get_self_info_def get_self_info_cb_def Let_def by (rule refl)
  ultimately show ?thesis
    using sync_name_after [OF assms(1)] w' by (simp only: total_simps(3)) (erule total_mono, blast intro: kept_trans)
qed

lemma node_self_info_ok: "env_ok env fr \<Longrightarrow> node_ok env fr w \<Longrightarrow> total (node_ok env fr) (node_self_info env w)"
  by (rule total_mono [OF node_self_info_kept]) (auto dest: node_self kept_node_ok)

lemma set_nospam_ok:
  assumes "env_ok env fr" "node_ok env fr w"
  shows "total (\<lambda>(rc, w'). node_ok env fr w') (ela_set_self_nospam env w x)"
proof -
  let ?t = "tox_self_set_nospam (ne_tox env) (n_tox w) x"
  have T: "tox_friends_ok (ne_tox env) fr" and S: "tox_self_ok (ne_tox env)" and O: "sha256_ok (ne_os env)"
    using assms(1) by (simp_all add: env_ok_def)
  have "node_ok env fr (w\<lparr> n_tox := ?t \<rparr>)"
    using n_tox_ok [OF assms(2) tox_unchanged(1) [OF T] tox_same_self(1) [OF S]] .
  from node_self_info_ok [OF assms(1) this] obtain w' where
    "node_self_info env (w\<lparr> n_tox := ?t \<rparr>) = Inr w'" "node_ok env fr w'" by (auto simp: total_def)
  then show ?thesis using node_store_ok [OF O, of fr w'] by (simp add: ela_set_self_nospam_def dht_self_set_nospam_def Let_def)
qed

lemma set_presence_ok:
  assumes "env_ok env fr" "node_ok env fr w"
  shows "node_ok env fr (snd (ela_set_self_presence env w s))"
  using n_tox_ok [OF assms(2) tox_unchanged(2) tox_same_self(2)] n_fail_ok [OF assms(2)] assms(1)
  by (simp add: ela_set_self_presence_def dht_self_set_status_def env_ok_def)

end
