(* ===== verification/Friends_Demo.thy ===== *)
theory Friends_Demo
  imports Friends_Inv
begin

text \<open>
  A small library for examples: tox with at most one friend and one group, with number 0, where the status message of the friend is \<open>desc\<close>;
  a text of a key that has a character for each byte; and a system on which everything succeeds. It has all that is assumed of the libraries.
\<close>

record demo_state =
  dt_key :: "byte list option"
  dt_name :: "byte list"
  dt_msg :: "byte list"
  dt_nospam :: u32
  dt_status :: int
  dt_group :: "byte list option"
  dt_title :: "byte list"

definition demo_init :: demo_state where
  "demo_init = \<lparr> dt_key = None, dt_name = [], dt_msg = [], dt_nospam = 0, dt_status = 0, dt_group = None, dt_title = [] \<rparr>"

definition demo_fr :: "demo_state \<Rightarrow> u32 \<rightharpoonup> byte list" where
  "demo_fr t n = (if n = 0 then (case dt_key t of None \<Rightarrow> None | Some k \<Rightarrow> if length k = DHT_PUBLIC_KEY_SIZE then Some k else None) else None)"

definition demo_add :: "demo_state \<Rightarrow> byte list \<Rightarrow> TOX_ERR_FRIEND_ADD \<times> u32 \<times> demo_state" where
  "demo_add t k = (if demo_fr t 0 = None \<and> length k = DHT_PUBLIC_KEY_SIZE then (TOX_ERR_FRIEND_ADD_OK, 0, t\<lparr> dt_key := Some k \<rparr>)
     else (TOX_ERR_FRIEND_ADD_ALREADY_SENT, -1, t))"

definition demo_tox :: "byte list \<Rightarrow> demo_state tox_lib" where
  "demo_tox desc = \<lparr>
     tox_new = \<lambda>saved udp. (TOX_ERR_NEW_OK, Some (case saved of Some (b # k) \<Rightarrow> demo_init\<lparr> dt_key := Some k \<rparr> | _ \<Rightarrow> demo_init)),
     tox_bootstrap = \<lambda>t host port key. (TOX_ERR_BOOTSTRAP_OK, t), tox_add_tcp_relay = \<lambda>t host port key. (TOX_ERR_BOOTSTRAP_OK, t),
     tox_self_get_address = \<lambda>t. replicate 38 9, tox_self_get_public_key = \<lambda>t. replicate 32 9,
     tox_self_get_nospam = dt_nospam, tox_self_set_nospam = \<lambda>t x. t\<lparr> dt_nospam := x \<rparr>,
     tox_self_get_status = dt_status, tox_self_set_status = \<lambda>t x. t\<lparr> dt_status := x \<rparr>,
     tox_self_get_name = dt_name, tox_self_set_name = \<lambda>t x. (TOX_ERR_SET_INFO_OK, t\<lparr> dt_name := x \<rparr>),
     tox_self_get_status_message = dt_msg, tox_self_set_status_message = \<lambda>t x. (TOX_ERR_SET_INFO_OK, t\<lparr> dt_msg := x \<rparr>),
     tox_self_get_friend_list = \<lambda>t. if demo_fr t 0 = None then [] else [0],
     tox_friend_get_status_message = \<lambda>t n. (TOX_ERR_FRIEND_QUERY_OK, desc),
     tox_friend_get_status = \<lambda>t n. (TOX_ERR_FRIEND_QUERY_OK, 0),
     tox_friend_get_public_key = \<lambda>t n. (TOX_ERR_FRIEND_GET_PUBLIC_KEY_OK, case demo_fr t n of None \<Rightarrow> [] | Some k \<Rightarrow> k),
     tox_friend_by_public_key = \<lambda>t k. if demo_fr t 0 = Some k then (TOX_ERR_FRIEND_BY_PUBLIC_KEY_OK, 0)
       else (TOX_ERR_FRIEND_BY_PUBLIC_KEY_NOT_FOUND, -1),
     tox_friend_add = \<lambda>t a msg. demo_add t (take DHT_PUBLIC_KEY_SIZE a), tox_friend_add_norequest = demo_add,
     tox_friend_send_message = \<lambda>t n msg. (TOX_ERR_FRIEND_SEND_MESSAGE_OK, t),
     tox_friend_delete = \<lambda>t n. (TOX_ERR_FRIEND_DELETE_OK, if n = 0 then t\<lparr> dt_key := None \<rparr> else t),
     tox_get_savedata = \<lambda>t. 1 # (case dt_key t of None \<Rightarrow> [] | Some k \<Rightarrow> k) \<rparr>"

definition demo_nenv :: "byte list \<Rightarrow> packet_table list \<Rightarrow> demo_state node_env" where
  "demo_nenv desc ps = \<lparr> ne_tox = demo_tox desc, ne_os = demo_os, ne_location = ''d'', ne_base58_encode = \<lambda>bs sz. Some (string_of bs),
     ne_base58_decode = \<lambda>s. Some (map of_char s), ne_flatcc = list_flatcc ps, ne_alloc = \<lambda>w. True, ne_callback = \<lambda>cb. True \<rparr>"

definition demo_node :: "demo_state \<Rightarrow> demo_state node" where
  "demo_node t = \<lparr> n_tox = t, n_public_key = [], n_address = [], n_base58_addr = [], n_me = blank_user ''me'',
     n_presence_status = ElaPresenceStatus_None, n_connection_status = ElaConnectionStatus_Connected, n_is_ready = True, n_friend_events = [],
     n_friends = [], n_disk = disk_of (demo_fs demo_os), n_error = 0, n_calls = [] \<rparr>"

lemma demo_friends_laws: "tox_friends_ok (demo_tox desc) demo_fr"
  unfolding tox_friends_ok_def
  by (intro conjI allI impI)
    (auto simp: demo_tox_def demo_fr_def demo_add_def ran_def fun_eq_iff split: if_splits option.splits)

lemma demo_self_laws: "tox_self_ok (demo_tox desc)"
  by (simp add: tox_self_ok_def demo_tox_def same_self_def demo_add_def)

lemma byte_char: "of_char (char_of (unat b)) = (b :: byte)"
proof -
  have "(of_char (char_of (unat b)) :: byte) = of_nat (of_char (char_of (unat b)))" by (rule of_nat_of_char [symmetric])
  also have "(of_char (char_of (unat b)) :: nat) = unat b"
    using unsigned_less [where 'a = nat, of b] by simp
  finally show ?thesis by simp
qed

lemma string_of_bytes: "map of_char (string_of bs) = bs"
  by (simp add: string_of_def comp_def byte_char)

lemma demo_base58: "base58_ok (demo_nenv desc ps)"
  by (auto simp: base58_ok_def demo_nenv_def string_of_bytes DHT_PUBLIC_KEY_SIZE_def info_lens) (auto simp: string_of_def comp_def of_char_byte)

lemma demo_nenv_ok: "length ps \<le> 256 \<Longrightarrow> env_ok (demo_nenv desc ps) demo_fr"
  using demo_base58 [of desc ps] demo_friends_laws [of desc] demo_self_laws [of desc] demo_os_ok(3) list_flatcc_ok [of ps]
  by (simp add: env_ok_def demo_nenv_def)

lemma demo_nonempty: "flatcc_nonempty (ne_flatcc (demo_nenv desc ps))"
  by (auto simp: flatcc_nonempty_def demo_nenv_def list_flatcc_def)

lemma demo_node_ok: "node_ok (demo_nenv desc ps) demo_fr (demo_node demo_init)"
  by (auto simp: node_ok_def ftable_ok_def self_ok_def demo_node_def demo_init_def demo_nenv_def demo_tox_def demo_fr_def blank_user_def fits_def
      no_nul_def split: if_splits)

lemma demo_alloc [simp]: "ne_alloc (demo_nenv desc ps) w"
  by (simp add: demo_nenv_def)

text \<open>A profile, and its packet.\<close>

definition bob :: ElaUserInfo where
  "bob = (blank_user ''me'')\<lparr> eu_name := ''Bob'' \<rparr>"

definition bob_table :: packet_table where
  "bob_table = \<lparr> packet_type = ELACP_TYPE_USERINFO, packet_body = Some (As_userinfo \<lparr> t_avatar = False, t_name = Some ''Bob'', t_descr = Some [],
     t_phone = Some [], t_gender = Some [], t_email = Some [], t_region = Some [] \<rparr>) \<rparr>"

lemma bob_encode: "elacp_encode (list_flatcc [bob_table]) (info_cp bob) = Inr (Some [0])"
  by (simp add: elacp_encode_def info_cp_def bob_def blank_user_def list_flatcc_def bob_table_def elacp_get_type_def)

lemma bob_decode: "elacp_decode (list_flatcc [bob_table]) True [0] = Inr (Some (info_cp bob))"
  by (simp add: elacp_decode_def info_cp_def bob_def blank_user_def list_flatcc_def bob_table_def elacp_create_def elacp_types)

lemma bob_fits: "info_fits bob"
  by (simp add: info_fits_def bob_def blank_user_def fits_def no_nul_def info_lens)

definition demo_key :: string where
  "demo_key = string_of (replicate 32 7)"

end
