(* ===== verification/Friends_Spec.thy ===== *)
theory Friends_Spec
  imports Friends_Demo
begin

text \<open>
  Properties of a node: a run of any inputs keeps the invariant, friends come and go, a profile reaches the friends, and what a packet of a
  stranger can do.
\<close>

section \<open>Runs\<close>

text \<open>What a node is asked to do: by the network, by the main loop and by the user.\<close>

datatype node_input =
    NetConnection bool
  | NetFriendDescription u32 "byte list"
  | NetFriendConnection u32 bool
  | NetFriendStatus u32 int
  | NetFriendRequest "byte list" "byte list"
  | DoFriendEvents
  | SetSelfNospam u32
  | SetSelfInfo ElaUserInfo
  | SetSelfPresence int
  | GetFriendInfo string
  | SetFriendLabel string "string option"
  | AddFriend string string
  | AcceptFriend string
  | RemoveFriend string

fun node_step :: "'t node_env \<Rightarrow> 't node \<Rightarrow> node_input \<Rightarrow> 't node res" where
  "node_step env w (NetConnection c) = Inr (notify_connection_cb env w c)"
| "node_step env w (NetFriendDescription n desc) = notify_friend_description_cb env w n desc"
| "node_step env w (NetFriendConnection n c) = notify_friend_connection_cb env w n c"
| "node_step env w (NetFriendStatus n s) = notify_friend_status_cb env w n s"
| "node_step env w (NetFriendRequest key g) = notify_friend_request_cb env w key g"
| "node_step env w DoFriendEvents = Inr (do_friend_events env w)"
| "node_step env w (SetSelfNospam x) = bindr (ela_set_self_nospam env w x) (\<lambda>(rc, w). Inr w)"
| "node_step env w (SetSelfInfo info) = bindr (ela_set_self_info env w info) (\<lambda>(rc, w). Inr w)"
| "node_step env w (SetSelfPresence s) = Inr (snd (ela_set_self_presence env w s))"
| "node_step env w (GetFriendInfo s) = bindr (ela_get_friend_info env w s) (\<lambda>(rc, info, w). Inr w)"
| "node_step env w (SetFriendLabel s label) = bindr (ela_set_friend_label env w s label) (\<lambda>(rc, w). Inr w)"
| "node_step env w (AddFriend address hello) = bindr (ela_add_friend env w address hello) (\<lambda>(rc, w). Inr w)"
| "node_step env w (AcceptFriend s) = bindr (ela_accept_friend env w s) (\<lambda>(rc, w). Inr w)"
| "node_step env w (RemoveFriend s) = bindr (ela_remove_friend env w s) (\<lambda>(rc, w). Inr w)"

fun node_run :: "'t node_env \<Rightarrow> 't node \<Rightarrow> node_input list \<Rightarrow> 't node res" where
  "node_run env w [] = Inr w"
| "node_run env w (i # is) = bindr (node_step env w i) (\<lambda>w. node_run env w is)"

text \<open>
  Strings of the user are C strings that fit into their arrays. The network gives numbers of friends, a valid status, and packets with
  strings that fit.
\<close>

fun node_input_ok :: "'t node_env \<Rightarrow> node_input \<Rightarrow> bool" where
  "node_input_ok env (NetFriendDescription n desc) \<longleftrightarrow> n \<noteq> -1 \<and> polite_bytes (ne_flatcc env) desc"
| "node_input_ok env (NetFriendConnection n c) \<longleftrightarrow> n \<noteq> -1"
| "node_input_ok env (NetFriendStatus n s) \<longleftrightarrow> n \<noteq> -1 \<and> 0 \<le> s \<and> s \<le> 2"
| "node_input_ok env (NetFriendRequest key g) \<longleftrightarrow> g \<noteq> [] \<and> polite_bytes (ne_flatcc env) g"
| "node_input_ok env (SetSelfInfo info) \<longleftrightarrow> info_fits info"
| "node_input_ok env (SetFriendLabel s label) \<longleftrightarrow> (case label of None \<Rightarrow> True | Some l \<Rightarrow> no_nul l)"
| "node_input_ok env _ \<longleftrightarrow> True"

lemma total_snd: "total (\<lambda>(x, w). Q w) m \<Longrightarrow> total Q (bindr m (\<lambda>(x, w). Inr w))"
  by (simp add: total_def split_beta bindr_eq_Inr) blast

lemma total_snd2: "total (\<lambda>(x, y, w). Q w) m \<Longrightarrow> total Q (bindr m (\<lambda>(x, y, w). Inr w))"
  by (simp add: total_def split_beta bindr_eq_Inr) blast

lemma node_step_ok:
  assumes "env_ok env fr" "flatcc_nonempty (ne_flatcc env)" "node_ok env fr w" "node_input_ok env i"
  shows "total (node_ok env fr) (node_step env w i)"
proof -
  have T: "tox_friends_ok (ne_tox env) fr" and B: "base58_ok env" using assms(1) by (simp_all add: env_ok_def)
  note laws = assms(1,3)
  show ?thesis
  proof (cases i)
    case (NetFriendDescription n desc)
    then show ?thesis using assms(3,4) description_ok by auto
  next
    case (NetFriendConnection n c)
    then show ?thesis using assms(3,4) connection_ok [OF _ _ B T] by auto
  next
    case (NetFriendStatus n s)
    then show ?thesis using assms(3,4) status_ok [OF _ _ B T] by auto
  next
    case (NetFriendRequest key g)
    then show ?thesis using assms(3,4) request_ok by auto
  next
    case (SetSelfNospam x)
    then show ?thesis by (simp only: node_step.simps) (rule total_snd [OF set_nospam_ok [OF laws]])
  next
    case (SetSelfInfo info)
    then have "info_fits info" using assms(4) by simp
    from total_snd [OF set_self_info_ok [OF laws this]] show ?thesis using SetSelfInfo by simp
  next
    case (GetFriendInfo s)
    then show ?thesis by (simp only: node_step.simps) (rule total_snd2 [OF get_friend_info_ok [OF laws]])
  next
    case (SetFriendLabel s label)
    then have "\<forall>l. label = Some l \<longrightarrow> no_nul l" using assms(4) by (auto split: option.splits)
    from total_snd [OF set_label_ok [OF laws this]] show ?thesis using SetFriendLabel by simp
  next
    case (AddFriend address hello)
    then show ?thesis by (simp only: node_step.simps) (rule total_snd [OF add_friend_ok [OF assms(1-3)]])
  next
    case (AcceptFriend s)
    then show ?thesis by (simp only: node_step.simps) (rule total_snd [OF accept_friend_ok [OF laws]])
  next
    case (RemoveFriend s)
    then show ?thesis by (simp only: node_step.simps) (rule total_snd [OF remove_friend_ok [OF laws]])
  qed (simp_all add: connected_ok [OF assms(3)] events_ok [OF assms(3)] set_presence_ok [OF laws])
qed

text \<open>
  C7. A node keeps its invariant and never aborts in every run of acceptable inputs, in any order. An input is
  acceptable if: strings in received profiles and friend requests fit the arrays they are copied to, a received status is one of
  the three valid ones, the number of a friend is not the reserved -1, a friend request is not empty, and a profile or label that the user sets is a
  proper string that fits. The functions of the user are recorded and do not call the node: a call by the last function of an
  event is a later input of the run, but calls in between are not covered. The tox library, base 58 and FlatBuffers keep their contracts. Then the table of the node
  has exactly the friends of the tox library, each with the text of its key as id, every reference is given back, and the own profile can be
  read.
\<close>

theorem node_run_safe:
  assumes "env_ok env fr" "flatcc_nonempty (ne_flatcc env)" "node_ok env fr w" "\<forall>i\<in>set is. node_input_ok env i"
  shows "\<exists>w'. node_run env w is = Inr w' \<and> node_ok env fr w'"
  using assms(3,4)
proof (induction "is" arbitrary: w)
  case (Cons i "is")
  then have "total (node_ok env fr) (node_step env w i)" by (intro node_step_ok [OF assms(1,2)]) simp_all
  then obtain w' where "node_step env w i = Inr w'" "node_ok env fr w'" by (auto simp: total_def)
  then show ?case using Cons by simp
qed simp

section \<open>Friends come and go\<close>

lemma number_known:
  assumes "tox_friends_ok (ne_tox env) fr" "ne_base58_decode env s = Some k" "length k = DHT_PUBLIC_KEY_SIZE" "fr (n_tox w) n = Some k"
  shows "node_get_friend_number env w s = (0, n)"
proof -
  obtain e m where f: "tox_friend_by_public_key (ne_tox env) (n_tox w) k = (e, m)" by fastforce
  have "k \<in> ran (fr (n_tox w))" using assms(4) by (auto simp: ran_def)
  then have "m \<noteq> -1" "fr (n_tox w) m = Some k" using tox_found [OF assms(1) f] by (auto split: if_splits)
  moreover from this have "m = n" using tox_keys(2) [OF assms(1) _ assms(4)] by blast
  ultimately show ?thesis using assms(2,3) f by (simp add: node_get_friend_number_def dht_get_friend_number_def)
qed

lemma number_unknown:
  assumes "tox_friends_ok (ne_tox env) fr" "ne_base58_decode env s = Some k" "length k = DHT_PUBLIC_KEY_SIZE" "k \<notin> ran (fr (n_tox w))"
  shows "node_get_friend_number env w s = (ELA_GENERAL_ERROR ELAERR_NOT_EXIST, -1)"
proof -
  obtain e m where f: "tox_friend_by_public_key (ne_tox env) (n_tox w) k = (e, m)" by fastforce
  then have "m = -1 \<and> e \<noteq> TOX_ERR_FRIEND_BY_PUBLIC_KEY_OK"
    using tox_found [OF assms(1) f] assms(4) by (auto simp: ran_def split: if_splits)
  then show ?thesis using assms(2,3) f by (simp add: node_get_friend_number_def dht_get_friend_number_def)
qed

lemma added_total:
  assumes "sha256_ok (ne_os env)"
  shows "\<exists>d es. notify_friend_added env w fi = Inr (w\<lparr> n_disk := d, n_friend_events := es \<rparr>)"
    "\<exists>d es. notify_friend_removed env w fi = Inr (w\<lparr> n_disk := d, n_friend_events := es \<rparr>)"
proof -
  obtain d where d: "node_store env w = Inr (w\<lparr> n_disk := d \<rparr>)" using node_store_total [OF assms] by blast
  let ?es = "\<lambda>x. if ne_alloc env (w\<lparr> n_disk := d \<rparr>) then n_friend_events w @ [x] else n_friend_events w"
  show "\<exists>d es. notify_friend_added env w fi = Inr (w\<lparr> n_disk := d, n_friend_events := es \<rparr>)"
    by (rule exI [of _ d], rule exI [of _ "?es (FriendEventType_Added fi)"]) (simp add: notify_friend_added_def d)
  show "\<exists>d es. notify_friend_removed env w fi = Inr (w\<lparr> n_disk := d, n_friend_events := es \<rparr>)"
    by (rule exI [of _ d], rule exI [of _ "?es (FriendEventType_Removed fi)"]) (simp add: notify_friend_removed_def d)
qed

lemma node_accept_inv:
  assumes "env_ok env fr" "node_ok env fr w" "ela_accept_friend env w s = Inr (0, w1)"
  obtains k n t d es where "s \<noteq> []" "key_valid env s" "n_is_ready w" "ne_base58_decode env s = Some k" "length k = DHT_PUBLIC_KEY_SIZE"
    "fr (n_tox w) n = None" "k \<notin> ran (fr (n_tox w))" "n \<noteq> -1" "fr t = (fr (n_tox w))(n \<mapsto> k)"
    "w1 = w\<lparr> n_tox := t, n_friends := AList.update n (new_friend n (blank_user s) ElaPresenceStatus_None) (n_friends w), n_disk := d,
      n_friend_events := es \<rparr>"
proof -
  have T: "tox_friends_ok (ne_tox env) fr" and B: "base58_ok env" and O: "sha256_ok (ne_os env)"
    using assms(1) by (simp_all add: env_ok_def)
  obtain rc0 n0 where r0: "node_get_friend_number env w s = (rc0, n0)" by fastforce
  have g: "s \<noteq> []" "key_valid env s" "s \<noteq> eu_userid (n_me w)" "n_is_ready w" "\<not> (rc0 = 0 \<and> n0 \<noteq> -1)" "ne_alloc env w"
    using assms(3) by (auto simp: ela_accept_friend_def n_fail_def r0 split: if_splits)
  then obtain k where k: "ne_base58_decode env s = Some k" "length k = DHT_PUBLIC_KEY_SIZE"
    by (auto simp: key_valid_def split: option.splits)
  have copy: "copy_str (Suc ELA_MAX_ID_LEN) s = Inr s"
    using base58_key(2) [OF B k(2)] base58_text [OF B k] by (simp add: copy_str_def)
  have new: "k \<notin> ran (fr (n_tox w))"
  proof
    assume "k \<in> ran (fr (n_tox w))"
    then obtain m where m: "fr (n_tox w) m = Some k" by (auto simp: ran_def)
    then show False using number_known [OF T k m] tox_keys(1) [OF T m] r0 g(5) by simp
  qed
  obtain e n t where add: "tox_friend_add_norequest (ne_tox env) (n_tox w) k = (e, n, t)" by (metis prod_cases3)
  note law = tox_accepted [OF T add]
  have n: "n \<noteq> -1"
    using assms(3) g k r0 add law
    by (auto simp: ela_accept_friend_def dht_friend_add_norequest_def Let_def n_fail_def split: if_splits)
  let ?fi = "new_friend n (blank_user s) ElaPresenceStatus_None"
  obtain d es where "notify_friend_added env (node_friends_put (w\<lparr> n_tox := t \<rparr>) ?fi) (fi_info ?fi) =
      Inr ((node_friends_put (w\<lparr> n_tox := t \<rparr>) ?fi)\<lparr> n_disk := d, n_friend_events := es \<rparr>)"
    using added_total(1) [OF O] by blast
  then have "w1 = (node_friends_put (w\<lparr> n_tox := t \<rparr>) ?fi)\<lparr> n_disk := d, n_friend_events := es \<rparr>"
    using assms(3) g k r0 add n copy
    by (auto simp: ela_accept_friend_def dht_friend_add_norequest_def Let_def split: if_splits)
  then have "w1 = w\<lparr> n_tox := t, n_friends := AList.update n ?fi (n_friends w), n_disk := d, n_friend_events := es \<rparr>"
    by (simp add: node_friends_put_def new_friend_def)
  moreover have "fr (n_tox w) n = None" "fr t = (fr (n_tox w))(n \<mapsto> k)" using law n by simp_all
  ultimately show thesis using that g k new n by blast
qed

text \<open>
  C30. Accepting and removing a friend: a key that was accepted is a friend, removing it succeeds and it is no friend any more, and the table is
  what it was before.
\<close>

theorem friend_accept_remove:
  assumes "env_ok env fr" "node_ok env fr w" "ela_accept_friend env w s = Inr (0, w1)"
  shows "(\<exists>w'. ela_is_friend env w1 s = Inr (True, w')) \<and>
    (\<exists>w2 w'. ela_remove_friend env w1 s = Inr (0, w2) \<and> ela_is_friend env w2 s = Inr (False, w') \<and>
      map_of (n_friends w2) = map_of (n_friends w))"
proof -
  have T: "tox_friends_ok (ne_tox env) fr" and O: "sha256_ok (ne_os env)" using assms(1) by (simp_all add: env_ok_def)
  obtain k n t d es where a: "s \<noteq> []" "key_valid env s" "n_is_ready w" "ne_base58_decode env s = Some k" "length k = DHT_PUBLIC_KEY_SIZE"
    "fr (n_tox w) n = None" "k \<notin> ran (fr (n_tox w))" "n \<noteq> -1" "fr t = (fr (n_tox w))(n \<mapsto> k)"
    "w1 = w\<lparr> n_tox := t, n_friends := AList.update n (new_friend n (blank_user s) ElaPresenceStatus_None) (n_friends w), n_disk := d,
      n_friend_events := es \<rparr>"
    by (rule node_accept_inv [OF assms])
  have old: "map_of (n_friends w) n = None" using assms(2) a(6) unfolding node_ok_def ftable_ok_def by (metis domIff)
  have num: "node_get_friend_number env w1 s = (0, n)" by (rule number_known [OF T a(4,5)]) (simp add: a(9,10))
  have 1: "\<exists>w'. ela_is_friend env w1 s = Inr (True, w')"
    using a(1,8) num by (simp add: ela_is_friend_def node_friends_exist_def a(10) update_conv')
  obtain e t2 where del: "tox_friend_delete (ne_tox env) t n = (e, t2)" by fastforce
  let ?w = "w1\<lparr> n_tox := t2, n_friends := AList.delete n (n_friends w1) \<rparr>"
  let ?fi = "new_friend n (blank_user s) ElaPresenceStatus_None"
  obtain d2 es2 where rem: "notify_friend_removed env ?w (fi_info ?fi) = Inr (?w\<lparr> n_disk := d2, n_friend_events := es2 \<rparr>)"
    using added_total(2) [OF O] by blast
  then have 2: "ela_remove_friend env w1 s = Inr (0, ?w\<lparr> n_disk := d2, n_friend_events := es2 \<rparr>)"
    using a(1-3,8) num del rem
    by (simp add: ela_remove_friend_def node_friends_exist_def dht_friend_delete_def node_friends_remove_def a(10) update_conv')
  have "fr t2 = fr (n_tox w)" using tox_deleted [OF T del] a(6,9) by (auto simp: fun_eq_iff)
  then have "node_get_friend_number env (?w\<lparr> n_disk := d2, n_friend_events := es2 \<rparr>) s = (ELA_GENERAL_ERROR ELAERR_NOT_EXIST, -1)"
    by (intro number_unknown [OF T a(4,5)]) (simp add: a(7))
  then have 3: "\<exists>w'. ela_is_friend env (?w\<lparr> n_disk := d2, n_friend_events := es2 \<rparr>) s = Inr (False, w')"
    using a(1) by (simp add: ela_is_friend_def)
  have 4: "map_of (n_friends (?w\<lparr> n_disk := d2, n_friend_events := es2 \<rparr>)) = map_of (n_friends w)"
    using old by (auto simp: a(10) delete_conv' update_conv' fun_eq_iff)
  show ?thesis using 1 2 3 4 by blast
qed

section \<open>Profiles reach the friends\<close>

lemma packet_info_cp: "cp_packet (info_cp info) = PktInfo p \<Longrightarrow> packet_info u p = info\<lparr> eu_userid := u \<rparr>"
  by (auto simp: info_cp_def packet_info_def opt_string_def)

lemma info_changed_iff: "eu_userid a = eu_userid b \<Longrightarrow> info_changed a b \<longleftrightarrow> a \<noteq> b"
  by (cases a, cases b) (auto simp: info_changed_def)

lemma set_self_info_inv:
  assumes "env_ok env fr" "ela_set_self_info env w info = Inr (0, w')" "info_changed info (n_me w)"
    "\<forall>t x. fst (tox_self_set_status_message (ne_tox env) t x) = TOX_ERR_SET_INFO_OK"
  shows "elacp_decode (ne_flatcc env) True (tox_self_get_status_message (ne_tox env) (n_tox w')) = Inr (Some (info_cp info))"
    "n_me w' = info"
    "flatcc_nonempty (ne_flatcc env) \<Longrightarrow> tox_self_get_status_message (ne_tox env) (n_tox w') \<noteq> []"
proof -
  have S: "tox_self_ok (ne_tox env)" and O: "sha256_ok (ne_os env)" and F: "flatcc_ok (ne_flatcc env)"
    using assms(1) by (simp_all add: env_ok_def)
  obtain rc t where set: "(if eu_name info \<noteq> eu_name (n_me w) then dht_self_set_name (ne_tox env) (n_tox w) (cstring (eu_name info))
    else (0, n_tox w)) = (rc, t)" by fastforce
  obtain data where data: "info_packet env True info = Inr data"
    "\<And>bs. data = Some (Some bs) \<Longrightarrow> elacp_decode (ne_flatcc env) True bs = Inr (Some (info_cp info))"
    using info_packet_spec [OF F, of True info] by blast
  have g: "eu_userid info = eu_userid (n_me w)" "ne_alloc env w" "rc = 0"
    using assms(2,3) by (auto simp: ela_set_self_info_def n_fail_def set Let_def split: if_splits)
  then obtain bs where bs: "data = Some (Some bs)"
    using assms(2,3) data(1) by (auto simp: ela_set_self_info_def n_fail_def set Let_def split: option.splits)
  let ?t = "snd (dht_self_set_desc (ne_tox env) t bs)"
  obtain d where "node_store env (w\<lparr> n_tox := t, n_me := info, n_tox := ?t \<rparr>) =
      Inr (w\<lparr> n_tox := t, n_me := info, n_tox := ?t, n_disk := d \<rparr>)"
    using node_store_total [OF O] by metis
  then have w': "n_tox w' = ?t" "n_me w' = info"
    using assms(2,3) g data(1) bs by (auto simp: ela_set_self_info_def set Let_def)
  have "tox_self_get_status_message (ne_tox env) ?t = bs"
    using S assms(4) by (auto simp: tox_self_ok_def dht_self_set_desc_def split: prod.split) (metis fst_conv snd_conv)+
  then show "elacp_decode (ne_flatcc env) True (tox_self_get_status_message (ne_tox env) (n_tox w')) = Inr (Some (info_cp info))"
    "n_me w' = info" "flatcc_nonempty (ne_flatcc env) \<Longrightarrow> tox_self_get_status_message (ne_tox env) (n_tox w') \<noteq> []"
    using data bs w' encode_nonempty [of "ne_flatcc env" "info_cp info"] by (auto simp: info_packet_eq bindr_eq_Inr)
qed

text \<open>
  C11. A profile reaches the friends: when the status message that tox has after \<open>ela_set_self_info\<close> comes to a node that has the user as
  friend, this node has the new profile, under the id it knows the friend by, and tells its user of it exactly if the profile is another one.
\<close>

theorem profile_roundtrip:
  assumes "env_ok env fr" "flatcc_nonempty (ne_flatcc env)" "info_fits info" "info_changed info (n_me w)"
    and "\<forall>t x. fst (tox_self_set_status_message (ne_tox env) t x) = TOX_ERR_SET_INFO_OK"
    and "ela_set_self_info env w info = Inr (0, w')"
    and "ne_flatcc env' = ne_flatcc env" "\<forall>b. ne_alloc env' b"
    and "n \<noteq> -1" "map_of (n_friends b) n = Some fi"
  defines "ui \<equiv> info\<lparr> eu_userid := eu_userid (ef_user_info (fi_info fi)) \<rparr>"
  defines "fi' \<equiv> fi\<lparr> fi_info := (fi_info fi)\<lparr> ef_user_info := ui \<rparr> \<rparr>"
  shows "\<exists>b'. notify_friend_description_cb env' b n (tox_self_get_status_message (ne_tox env) (n_tox w')) = Inr b' \<and>
    map_of (n_friends b') = (map_of (n_friends b))(n \<mapsto> fi') \<and>
    n_calls b' = n_calls b @ (if ui \<noteq> ef_user_info (fi_info fi) \<and> ne_callback env' CbFriendInfo
      then [CallFriendInfo (eu_userid ui) (fi_info fi')] else [])"
proof -
  let ?desc = "tox_self_get_status_message (ne_tox env) (n_tox w')" and ?old = "ef_user_info (fi_info fi)"
  note inv = set_self_info_inv [OF assms(1,6,4,5)]
  have d: "?desc \<noteq> []" "elacp_decode (ne_flatcc env') True ?desc = Inr (Some (info_cp info))"
    using inv assms(2,7) by simp_all
  obtain p where p: "cp_packet (info_cp info) = PktInfo p" by (simp add: info_cp_def)
  have "packet_info (eu_userid ?old) p = ui" unfolding ui_def by (rule packet_info_cp [OF p])
  then have u: "unpack_user_desc (ne_flatcc env') True ?desc ?old = Inr (Some (ui, info_changed ui ?old))"
    using unpack_eq [OF d p info_polite [OF assms(3)], of ?old] by simp
  have "info_changed ui ?old \<longleftrightarrow> ui \<noteq> ?old" by (rule info_changed_iff) (simp add: ui_def)
  then show ?thesis
    using assms(8-10) d(1) u
    by (simp add: notify_friend_description_cb_def friend_ops Let_def notify_friend_info_def node_friends_exist_def update_conv' fi'_def)
      (simp add: n_call_def update_conv' map_upd_triv)
qed

section \<open>What a packet of the network can do\<close>

lemma copy_long: "length s > m \<Longrightarrow> copy_str (Suc m) s = Inl OutOfBounds"
  by (simp add: copy_str_def)

text \<open>
  C38. A name in a packet that is longer than the array for it is copied nevertheless: a friend request of anybody who knows the address, and a
  profile of a friend, write past the end of an \<open>ElaUserInfo\<close>. The invariant of a node holds only as long as nobody sends such a packet.
\<close>

theorem long_name_overflows:
  assumes "elacp_decode (ne_flatcc env) True bs = Inr (Some cp)" "bs \<noteq> []" "\<forall>w. ne_alloc env w" "length s > ELA_MAX_USER_NAME_LEN"
  shows "(case cp_packet cp of
      PktFreq p \<Rightarrow> fr_name p = Some s \<and> snd (dht_get_friend_number (ne_tox env) (n_tox w) key) = -1 \<longrightarrow>
        notify_friend_request_cb env w key bs = Inl OutOfBounds
    | PktInfo p \<Rightarrow> ui_name p = Some s \<and> n \<noteq> -1 \<and> map_of (n_friends w) n = Some fi \<and> eu_name (ef_user_info (fi_info fi)) \<noteq> s \<longrightarrow>
        notify_friend_description_cb env w n bs = Inl OutOfBounds
    | _ \<Rightarrow> True)"
proof (cases "cp_packet cp")
  case (PktFreq p)
  then show ?thesis
    using assms
    by (auto simp: notify_friend_request_cb_def Let_def elacp_get_type_def elacp_get_name_def elacp_get_descr_def elacp_get_hello_def
        copy_long split: prod.splits)
next
  case (PktInfo p)
  then show ?thesis
    using assms
    by (auto simp: notify_friend_description_cb_def friend_ops unpack_user_desc_def elacp_get_type_def elacp_get_has_avatar_def
        elacp_get_name_def elacp_get_descr_def elacp_get_gender_def elacp_get_phone_def elacp_get_email_def elacp_get_region_def
        unpack_field_def Let_def copy_long)
qed simp_all

section \<open>Examples\<close>

theorem node_run_safe_witness:
  "\<exists>w'. node_run (demo_nenv [] [bob_table]) (demo_node demo_init) [AcceptFriend demo_key, NetFriendDescription 0 [0], NetFriendConnection 0 True,
      SetFriendLabel demo_key (Some ''Rob''), NetFriendStatus 0 2, DoFriendEvents, SetSelfInfo bob, RemoveFriend demo_key] = Inr w' \<and>
    node_ok (demo_nenv [] [bob_table]) demo_fr w'"
proof -
  have "polite_bytes (ne_flatcc (demo_nenv [] [bob_table])) [0]"
    using info_polite [OF bob_fits] by (simp add: polite_bytes_def demo_nenv_def bob_decode)
  then show ?thesis
    using bob_fits by (intro node_run_safe [OF demo_nenv_ok demo_nonempty demo_node_ok]) (simp_all add: no_nul_def)
qed

lemma demo_accept: "\<exists>w1. ela_accept_friend (demo_nenv [] []) (demo_node demo_init) demo_key = Inr (0, w1)"
proof -
  let ?env = "demo_nenv [] []" and ?w = "demo_node demo_init"
  have k: "ne_base58_decode ?env demo_key = Some (replicate 32 7)" "length demo_key = 32" "demo_key \<noteq> []" "key_valid ?env demo_key"
    by (simp_all add: demo_key_def key_valid_def DHT_PUBLIC_KEY_SIZE_def demo_nenv_def string_of_bytes) (simp_all add: string_of_def)
  have "length demo_key \<noteq> length ''me''" using k(2) by simp
  then have "demo_key \<noteq> ''me''" by metis
  then have me: "demo_key \<noteq> eu_userid (n_me ?w)" by (simp add: demo_node_def blank_user_def)
  have num: "node_get_friend_number ?env ?w demo_key = (ELA_GENERAL_ERROR ELAERR_NOT_EXIST, -1)"
    by (simp add: node_get_friend_number_def k dht_get_friend_number_def DHT_PUBLIC_KEY_SIZE_def)
      (simp add: demo_nenv_def demo_tox_def demo_fr_def demo_node_def demo_init_def)
  have add: "tox_friend_add_norequest (ne_tox ?env) (n_tox ?w) (replicate 32 7) =
      (TOX_ERR_FRIEND_ADD_OK, 0, demo_init\<lparr> dt_key := Some (replicate 32 7) \<rparr>)"
    by (simp add: demo_nenv_def demo_tox_def demo_add_def demo_fr_def demo_node_def demo_init_def DHT_PUBLIC_KEY_SIZE_def)
  have "\<exists>w'. notify_friend_added ?env w fi = Inr w'" for w fi
    using added_total(1) [of ?env w fi] demo_os_ok(3) by (auto simp: demo_nenv_def)
  moreover have "n_is_ready ?w" by (simp add: demo_node_def)
  ultimately show ?thesis
    using k me num add
    by (simp add: ela_accept_friend_def dht_friend_add_norequest_def copy_str_def ELA_MAX_ID_LEN_def Let_def bindr_eq_Inr)
qed

theorem friend_accept_remove_witness:
  "\<exists>w1. ela_accept_friend (demo_nenv [] []) (demo_node demo_init) demo_key = Inr (0, w1) \<and>
    (\<exists>w'. ela_is_friend (demo_nenv [] []) w1 demo_key = Inr (True, w')) \<and>
    (\<exists>w2 w'. ela_remove_friend (demo_nenv [] []) w1 demo_key = Inr (0, w2) \<and> ela_is_friend (demo_nenv [] []) w2 demo_key = Inr (False, w') \<and>
      map_of (n_friends w2) = map_of [])"
proof -
  obtain w1 where w1: "ela_accept_friend (demo_nenv [] []) (demo_node demo_init) demo_key = Inr (0, w1)" using demo_accept by blast
  have "env_ok (demo_nenv [] []) demo_fr" by (rule demo_nenv_ok) simp
  moreover have "n_friends (demo_node demo_init) = []" by (simp add: demo_node_def)
  ultimately show ?thesis using w1 friend_accept_remove [OF _ demo_node_ok w1] by metis
qed

definition demo_b :: "demo_state node" where
  "demo_b = (demo_node demo_init)\<lparr> n_friends := [(0, demo_friend 0 ''Rob'')] \<rparr>"

lemma demo_set_info:
  "\<exists>w'. ela_set_self_info (demo_nenv [] [bob_table]) (demo_node demo_init) bob = Inr (0, w')"
proof -
  have p: "info_packet (demo_nenv [] [bob_table]) True bob = Inr (Some (Some [0]))"
    by (simp add: info_packet_eq demo_nenv_def bob_encode)
  have "\<exists>w'. node_store (demo_nenv [] [bob_table]) w = Inr w'" for w
    using node_store_total [of "demo_nenv [] [bob_table]" w] demo_os_ok(3) by (auto simp: demo_nenv_def)
  moreover have "fst (dht_self_set_name (ne_tox (demo_nenv [] [bob_table])) t x) = 0" for t x
    by (simp add: dht_self_set_name_def demo_nenv_def demo_tox_def)
  ultimately show ?thesis
    using p by (simp add: ela_set_self_info_def bob_def demo_node_def blank_user_def info_changed_def Let_def split_beta bindr_eq_Inr)
qed

theorem profile_roundtrip_witness:
  "\<exists>w' b'. ela_set_self_info (demo_nenv [] [bob_table]) (demo_node demo_init) bob = Inr (0, w') \<and>
    notify_friend_description_cb (demo_nenv [] [bob_table]) demo_b 0
      (tox_self_get_status_message (ne_tox (demo_nenv [] [bob_table])) (n_tox w')) = Inr b' \<and>
    n_calls b' = [CallFriendInfo ''u'' ((fi_info (demo_friend 0 ''Rob''))\<lparr> ef_user_info := bob\<lparr> eu_userid := ''u'' \<rparr> \<rparr>)]"
proof -
  let ?env = "demo_nenv [] [bob_table]" and ?fi = "demo_friend 0 ''Rob''"
  obtain w' where w': "ela_set_self_info ?env (demo_node demo_init) bob = Inr (0, w')" using demo_set_info by blast
  have ok: "env_ok ?env demo_fr" by (rule demo_nenv_ok) simp
  have ch: "info_changed bob (n_me (demo_node demo_init))" by (simp add: info_changed_def bob_def demo_node_def blank_user_def)
  have msg: "\<forall>t x. fst (tox_self_set_status_message (ne_tox ?env) t x) = TOX_ERR_SET_INFO_OK" by (simp add: demo_nenv_def demo_tox_def)
  have fi: "map_of (n_friends demo_b) 0 = Some ?fi" by (simp add: demo_b_def)
  have u: "ef_user_info (fi_info ?fi) = blank_user ''u''" "n_calls demo_b = []" "ne_callback ?env CbFriendInfo"
    "bob\<lparr> eu_userid := ''u'' \<rparr> \<noteq> blank_user ''u''" "eu_userid (blank_user ''u'') = ''u''"
    by (simp_all add: demo_friend_def blank_user_def demo_b_def demo_node_def demo_nenv_def bob_def)
  show ?thesis
    using w' profile_roundtrip [OF ok demo_nonempty bob_fits ch msg w' refl _ _ fi] u by auto
qed

definition rude_table :: packet_table where
  "rude_table = \<lparr> packet_type = ELACP_TYPE_FRIEND_REQUEST, packet_body = Some (As_friendreq \<lparr> q_name = Some (replicate 64 CHR ''x''),
     q_descr = None, q_hello = Some ''hi'' \<rparr>) \<rparr>"

theorem long_name_overflows_witness:
  "notify_friend_request_cb (demo_nenv [] [rude_table]) (demo_node demo_init) (replicate 32 7) [0] = Inl OutOfBounds"
proof -
  let ?cp = "\<lparr> cp_ext = None, cp_packet = PktFreq \<lparr> fr_name = Some (replicate 64 CHR ''x''), fr_descr = None, fr_hello = Some ''hi'' \<rparr> \<rparr>"
  have d: "elacp_decode (ne_flatcc (demo_nenv [] [rude_table])) True [0] = Inr (Some ?cp)"
    by (simp add: elacp_decode_def demo_nenv_def list_flatcc_def rude_table_def elacp_create_def elacp_types)
  have "snd (dht_get_friend_number (ne_tox (demo_nenv [] [rude_table])) (n_tox (demo_node demo_init)) (replicate 32 7)) = -1"
    by (simp add: dht_get_friend_number_def demo_nenv_def demo_tox_def demo_fr_def demo_node_def demo_init_def)
  then show ?thesis
    using long_name_overflows [OF d, where s = "replicate 64 CHR ''x''" and w = "demo_node demo_init" and key = "replicate 32 7"]
    by (simp add: ELA_MAX_USER_NAME_LEN_def)
qed

end
