(* ===== verification/Friends_Start.thy ===== *)
theory Friends_Start
  imports Friends_Demo
begin

text \<open>
  The start of a node, \<open>ela_new\<close>: the friends of the tox library are read, and the labels of the file are put on them. A node that is
  started again is the node that was stored, unless the description of a friend cannot be read.
\<close>

section \<open>Starting a node\<close>

text \<open>The library lists its friends, and has the key, the status and the description of each.\<close>

definition tox_list_ok :: "'t tox_lib \<Rightarrow> ('t \<Rightarrow> u32 \<rightharpoonup> byte list) \<Rightarrow> bool" where
  "tox_list_ok T fr \<longleftrightarrow>
     (\<forall>t. set (tox_self_get_friend_list T t) = dom (fr t) \<and> distinct (tox_self_get_friend_list T t)) \<and>
     (\<forall>t n k. fr t n = Some k \<longrightarrow> tox_friend_get_public_key T t n = (TOX_ERR_FRIEND_GET_PUBLIC_KEY_OK, k) \<and>
        fst (tox_friend_get_status T t n) = TOX_ERR_FRIEND_QUERY_OK \<and> fst (tox_friend_get_status_message T t n) = TOX_ERR_FRIEND_QUERY_OK)"

text \<open>A description that a node can read: none, or a profile that fits.\<close>

definition readable :: "flatcc_lib \<Rightarrow> byte list \<Rightarrow> bool" where
  "readable lib desc \<longleftrightarrow> desc = [] \<or>
     (case elacp_decode lib True desc of Inr (Some cp) \<Rightarrow> (case cp_packet cp of PktInfo _ \<Rightarrow> polite_packet cp | _ \<Rightarrow> False) | _ \<Rightarrow> False)"

lemma readable_unpack:
  assumes "readable lib desc" "desc \<noteq> []"
  shows "\<exists>ui c. unpack_user_desc lib True desc info = Inr (Some (ui, c)) \<and> eu_userid ui = eu_userid info"
proof -
  obtain cp p where "elacp_decode lib True desc = Inr (Some cp)" "cp_packet cp = PktInfo p" "polite_packet cp"
    using assms by (auto simp: readable_def split: sum.splits option.splits elacp_packet.splits)
  from unpack_eq [OF assms(2) this, of info] show ?thesis by (simp add: packet_info_def)
qed

lemma iterate_step:
  assumes "readable (ne_flatcc env) desc" "n \<noteq> -1" "\<forall>w. ne_alloc env w"
  shows "\<exists>ui. eu_userid ui = key_text env k (ELA_MAX_ID_LEN + 1) \<and>
    friends_iterate_cb env n k s desc w = Inr (True, node_friends_put w (new_friend n ui (get_presence_status s)))"
proof (cases "desc = []")
  case True
  then show ?thesis
    using assms(2,3) by (intro exI [of _ "blank_user (key_text env k (ELA_MAX_ID_LEN + 1))"]) (simp add: friends_iterate_cb_def blank_user_def)
next
  case False
  obtain ui c where "unpack_user_desc (ne_flatcc env) True desc (blank_user (key_text env k (ELA_MAX_ID_LEN + 1))) = Inr (Some (ui, c))"
    "eu_userid ui = key_text env k (ELA_MAX_ID_LEN + 1)"
    using readable_unpack [OF assms(1) False] by (metis ElaUserInfo.select_convs(1) blank_user_def)
  then show ?thesis using assms(2,3) False by (intro exI [of _ ui]) (simp add: friends_iterate_cb_def)
qed

text \<open>The loop over the friends of the library builds a table without labels.\<close>

definition fresh_table :: "'t node_env \<Rightarrow> (u32 \<rightharpoonup> byte list) \<Rightarrow> friends \<Rightarrow> bool" where
  "fresh_table env F tbl \<longleftrightarrow> ftable_ok env F tbl \<and> (\<forall>n fi. map_of tbl n = Some fi \<longrightarrow> ef_label (fi_info fi) = [])"

lemma fresh_add:
  assumes "fresh_table env F tbl" "F n = None" "eu_userid ui = key_text env k (ELA_MAX_ID_LEN + 1)"
  shows "fresh_table env (F(n \<mapsto> k)) (AList.update n (new_friend n ui p) tbl)"
proof -
  have "entry_ok env (F(n \<mapsto> k)) n (new_friend n ui p)"
    using assms(3) by (simp add: entry_ok_def new_friend_def fits_def no_nul_def)
  then show ?thesis
    using assms ftable_add [of env F tbl n k] by (auto simp: fresh_table_def update_conv' new_friend_def split: if_splits)
qed

lemma friends_loop:
  assumes laws: "tox_list_ok T fr" "tox_friends_ok T fr" "\<forall>w. ne_alloc env w"
    and "set ns \<subseteq> dom (fr t)" "distinct ns" "\<forall>n\<in>set ns. readable (ne_flatcc env) (snd (tox_friend_get_status_message T t n))"
    and "fresh_table env F (n_friends w)" "F = fr t |` D" "D \<inter> set ns = {}"
  shows "\<exists>tbl. get_friends_loop T t (friends_iterate_cb env) ns w = Inr (0, w\<lparr> n_friends := tbl \<rparr>) \<and>
    fresh_table env (fr t |` (D \<union> set ns)) tbl"
  using assms(4-9)
proof (induction ns arbitrary: w F D)
  case Nil
  have "w = w\<lparr> n_friends := n_friends w \<rparr>" by simp
  then show ?case using Nil by (metis Un_empty_right get_friends_loop.simps(1) list.set(1))
next
  case (Cons n ns)
  obtain k where k: "fr t n = Some k" using Cons.prems(1) by auto
  obtain desc s where q: "tox_friend_get_status_message T t n = (TOX_ERR_FRIEND_QUERY_OK, desc)"
    "tox_friend_get_status T t n = (TOX_ERR_FRIEND_QUERY_OK, s)" "tox_friend_get_public_key T t n = (TOX_ERR_FRIEND_GET_PUBLIC_KEY_OK, k)"
    using laws(1) k unfolding tox_list_ok_def by (metis prod.collapse)
  obtain ui where ui: "eu_userid ui = key_text env k (ELA_MAX_ID_LEN + 1)"
    "friends_iterate_cb env n k s desc w = Inr (True, node_friends_put w (new_friend n ui (get_presence_status s)))"
    using iterate_step [of env desc n k s w] laws(3) Cons.prems(3) q(1) tox_keys(1) [OF laws(2) k] by auto
  let ?tbl = "AList.update n (new_friend n ui (get_presence_status s)) (n_friends w)"
  have F: "F(n \<mapsto> k) = fr t |` insert n D" using Cons.prems(5) k by (auto simp: restrict_map_def fun_eq_iff)
  have "fresh_table env (F(n \<mapsto> k)) ?tbl"
    using Cons.prems(4-6) by (intro fresh_add ui(1)) (auto simp: restrict_map_def)
  moreover have "insert n D \<inter> set ns = {}" using Cons.prems(2,6) by auto
  ultimately obtain tbl where
    "get_friends_loop T t (friends_iterate_cb env) ns (w\<lparr> n_friends := ?tbl \<rparr>) = Inr (0, w\<lparr> n_friends := tbl \<rparr>)"
    "fresh_table env (fr t |` (insert n D \<union> set ns)) tbl"
    using Cons.IH [where w = "w\<lparr> n_friends := ?tbl \<rparr>" and F = "F(n \<mapsto> k)" and D = "insert n D"] Cons.prems(1-3) F by auto
  then show ?case using q ui(2) by (auto simp: node_friends_put_def new_friend_def)
qed

lemma get_friends_fresh:
  assumes "tox_list_ok T fr" "tox_friends_ok T fr" "\<forall>w. ne_alloc env w" "n_friends w = []"
    and "\<forall>n\<in>dom (fr t). readable (ne_flatcc env) (snd (tox_friend_get_status_message T t n))"
  shows "\<exists>tbl. dht_get_friends T t (friends_iterate_cb env) w = Inr (0, w\<lparr> n_friends := tbl \<rparr>) \<and> fresh_table env (fr t) tbl"
proof -
  have l: "set (tox_self_get_friend_list T t) = dom (fr t)" "distinct (tox_self_get_friend_list T t)"
    using assms(1) by (simp_all add: tox_list_ok_def)
  have "fresh_table env (fr t |` {}) []" by (simp add: fresh_table_def ftable_ok_def)
  moreover have "fr t |` dom (fr t) = fr t" by (auto simp: restrict_map_def fun_eq_iff domIff)
  ultimately show ?thesis
    using friends_loop [OF assms(1-3), where ns = "tox_self_get_friend_list T t" and t = t and w = w and D = "{}"] l assms(4,5)
    by (simp add: dht_get_friends_def)
qed

text \<open>The labels of the file are put on the friends of the table.\<close>

definition label_of :: "friends \<Rightarrow> u32 \<Rightarrow> string" where
  "label_of tbl n = (case map_of tbl n of None \<Rightarrow> [] | Some fi \<Rightarrow> ef_label (fi_info fi))"

definition put_opt :: "friends \<Rightarrow> u32 \<Rightarrow> FriendInfo \<Rightarrow> FriendInfo" where
  "put_opt old n fi = (if label_of old n = [] then fi else set_label fi (label_of old n))"

lemma map_of_put_label:
  "map_of (put_label tbl f) n = map_option (\<lambda>fi. if n = fst f \<and> ef_label (fi_info (snd f)) \<noteq> [] then set_label fi (ef_label (fi_info (snd f))) else fi)
     (map_of tbl n)"
  by (induction tbl) (auto simp: put_label_def)

lemma map_of_labels:
  "distinct (map fst old) \<Longrightarrow> map_of (foldl put_label tbl old) n = map_option (put_opt old n) (map_of tbl n)"
proof (induction old arbitrary: tbl)
  case Nil
  then show ?case by (simp add: put_opt_def label_of_def option.map_ident)
next
  case (Cons f old)
  then have "n = fst f \<longrightarrow> map_of old n = None" by (auto simp: map_of_eq_None_iff)
  then show ?case
    using Cons by (cases f) (auto simp: map_of_put_label put_opt_def label_of_def option.map_comp comp_def intro!: option.map_cong)
qed

lemma map_fst_labels [simp]: "map fst (foldl put_label tbl old) = map fst tbl"
  by (induction old arbitrary: tbl) simp_all

lemma labels_ok:
  assumes "fresh_table env F tbl" "ftable_ok env' F' old"
  shows "ftable_ok env F (foldl put_label tbl old)" "n \<in> dom F \<Longrightarrow> label_of (foldl put_label tbl old) n = label_of old n"
proof -
  have d: "distinct (map fst old)" using assms(2) by (simp add: ftable_ok_def)
  have lab: "fits ELA_MAX_USER_NAME_LEN (Some (label_of old m))" for m
    using assms(2) by (auto simp: label_of_def ftable_ok_def entry_ok_def fits_def no_nul_def split: option.splits)
  have t: "distinct (map fst tbl)" "dom (map_of tbl) = dom F" "\<And>m fi. map_of tbl m = Some fi \<Longrightarrow> entry_ok env F m fi"
    "\<And>m fi. map_of tbl m = Some fi \<Longrightarrow> ef_label (fi_info fi) = []"
    using assms(1) by (auto simp: fresh_table_def ftable_ok_def)
  have "entry_ok env F m (put_opt old m fi)" if "map_of tbl m = Some fi" for m fi
    using t(3) [OF that] lab [of m] by (simp add: put_opt_def entry_ok_def set_label_def)
  then show "ftable_ok env F (foldl put_label tbl old)"
    using t(1,2) map_of_labels [OF d, of tbl] by (auto simp: ftable_ok_def dom_def)
  assume "n \<in> dom F"
  then obtain fi where "map_of tbl n = Some fi" using t(2) by blast
  then show "label_of (foldl put_label tbl old) n = label_of old n"
    using t(4) map_of_labels [OF d, of tbl n] by (simp add: label_of_def [of "foldl put_label tbl old"] put_opt_def set_label_def)
qed

lemma table_friends_ok:
  assumes "ftable_ok env (fr t) tbl" "tox_friends_ok T fr"
  shows "friends_ok tbl"
proof -
  have "fi_friend_number fi = n \<and> n \<noteq> -1 \<and> no_nul (ef_label (fi_info fi)) \<and> length (ef_label (fi_info fi)) \<le> ELA_MAX_USER_NAME_LEN"
    if "(n, fi) \<in> set tbl" for n fi
  proof -
    have "map_of tbl n = Some fi" using that assms(1) by (simp add: ftable_ok_def)
    then have "entry_ok env (fr t) n fi" using assms(1) by (simp add: ftable_ok_def)
    then show ?thesis using tox_keys(1) [OF assms(2)] by (auto simp: entry_ok_def fits_def)
  qed
  then show ?thesis using assms(1) by (auto simp: friends_ok_def ftable_ok_def)
qed

text \<open>A node was stored, and tox makes its friends from the stored data, in the state \<open>t\<close>.\<close>

definition was_stored :: "'t node_env \<Rightarrow> ('t \<Rightarrow> u32 \<rightharpoonup> byte list) \<Rightarrow> 't node \<Rightarrow> bool \<Rightarrow> 't \<Rightarrow> disk \<Rightarrow> bool" where
  "was_stored env fr w udp t d \<longleftrightarrow>
     (let dht = tox_get_savedata (ne_tox env) (n_tox w) in
      dht \<noteq> [] \<and> sections_fit dht (extra_bytes (n_friends w)) \<and>
      (\<exists>f old. load_persistence_data_i (ne_os env) f (journal_path (ne_location env)) = None \<and>
        load_persistence_data_i (ne_os env) f (data_path (ne_location env)) = Some old \<and>
        store_persistence_data (ne_os env) (ne_location env) dht (n_friends w) (disk_of f) = Inr (0, d)) \<and>
      (\<exists>e. tox_new (ne_tox env) (Some dht) udp = (e, Some t)) \<and> fr t = fr (n_tox w))"

text \<open>What \<open>ela_new\<close> does with the table that it gets from the library.\<close>

lemma restart:
  assumes "env_ok env fr" "reads_ok (ne_os env)" "node_ok env fr w" "was_stored env fr w udp t d"
    and "self_ok env (w0\<lparr> n_tox := t \<rparr>)" "n_disk w0 = disk_of (d_fs d)"
    and get: "\<forall>w1 w2. n_tox w1 = t \<and> n_friends w1 = [] \<and> kept env fr w1 w2 \<longrightarrow>
      (\<exists>tbl. dht_get_friends (ne_tox env) (n_tox w2) (friends_iterate_cb env) w2 = Inr (0, w2\<lparr> n_friends := tbl \<rparr>) \<and>
        distinct (map fst tbl) \<and> P tbl)"
  shows "\<exists>w' tbl. ela_new_load 0 env w0 udp = Inr (0, w') \<and> self_ok env w' \<and> fr (n_tox w') = fr (n_tox w) \<and> P tbl \<and>
    n_friends w' = foldl put_label tbl (n_friends w)"
proof -
  let ?T = "ne_tox env" and ?os = "ne_os env" and ?loc = "ne_location env"
  let ?dht = "tox_get_savedata ?T (n_tox w)" and ?e = "extra_bytes (n_friends w)"
  let ?pd = "stored ?dht ?e"
  have T: "tox_friends_ok ?T fr" and O: "sha256_ok ?os" using assms(1) by (simp_all add: env_ok_def)
  obtain f old e where s: "?dht \<noteq> []" "sections_fit ?dht ?e" "load_persistence_data_i ?os f (journal_path ?loc) = None"
    "load_persistence_data_i ?os f (data_path ?loc) = Some old" "store_persistence_data ?os ?loc ?dht (n_friends w) (disk_of f) = Inr (0, d)"
    "tox_new ?T (Some ?dht) udp = (e, Some t)" "fr t = fr (n_tox w)"
    using assms(4) unfolding was_stored_def Let_def by blast
  obtain rc d1 where "store_persistence_data ?os ?loc ?dht (n_friends w) (disk_of f) = Inr (rc, d1)" "rc = 0 \<longrightarrow> loads ?os ?loc (d_fs d1) ?pd"
    by (rule store_states [OF assms(2) O s(2-4)])
  then have "loads ?os ?loc (d_fs d) ?pd" using s(5) by simp
  then obtain d' where ld: "load_persistence_data 0 ?os ?loc (disk_of (d_fs d)) = Inr (Some ?pd, d')" unfolding loads_def by blast
  have fok: "friends_ok (n_friends w)" using assms(3) table_friends_ok [OF _ T] by (auto simp: node_ok_def)
  let ?w1 = "w0\<lparr> n_disk := d', n_tox := t, n_friends := [], n_friend_events := [] \<rparr>"
  have "self_ok env ?w1" using assms(5) by (simp add: self_ok_def)
  from node_self_info_kept [OF assms(1) this] obtain w2 where
    w2: "node_self_info env ?w1 = Inr w2" "kept env fr ?w1 w2" by (auto simp: total_def)
  obtain tbl where tbl: "dht_get_friends ?T (n_tox w2) (friends_iterate_cb env) w2 = Inr (0, w2\<lparr> n_friends := tbl \<rparr>)"
    "distinct (map fst tbl)" "P tbl"
    using spec [OF spec [OF get], of ?w1 w2] w2(2) by auto
  note ex = stored_labels [OF s(2) fok tbl(2)]
  let ?w3 = "w2\<lparr> n_friends := foldl put_label tbl (n_friends w) \<rparr>"
  obtain d3 where "node_store env ?w3 = Inr (?w3\<lparr> n_disk := d3 \<rparr>)" using node_store_total [OF O] by blast
  then have "ela_new_load 0 env w0 udp = Inr (0, ?w3\<lparr> n_disk := d3 \<rparr>)"
    using s(1,6) assms(6) ld stored_restores(1) [OF s(2) fok] w2(1) tbl(1) ex by (simp add: ela_new_load_def dht_new_def)
  moreover have "self_ok env (?w3\<lparr> n_disk := d3 \<rparr>)" "fr (n_tox (?w3\<lparr> n_disk := d3 \<rparr>)) = fr (n_tox w)"
    using w2(2) s(7) by (simp_all add: kept_def self_ok_def)
  ultimately show ?thesis using tbl(3) by auto
qed

text \<open>
  C9. A node that is started again is the node that was stored. The node was stored with return value 0 over files that were in order, with
  sections of at most 16 MB; the tox library makes a state with the same friends from the stored data; the description of every friend can be read as a
  profile (or is empty), and the stored own profile too; opening and reading files and allocating memory do not fail. Then \<open>ela_new\<close> succeeds, the node has
  exactly these friends, each with the label the user gave it, and its invariant holds. (A friend whose description cannot be read hides those after it: the last
  theorem of this theory.)
\<close>

theorem node_restart:
  assumes "env_ok env fr" "tox_list_ok (ne_tox env) fr" "reads_ok (ne_os env)" "\<forall>w. ne_alloc env w"
    and "node_ok env fr w" "was_stored env fr w udp t d"
    and "\<forall>n\<in>dom (fr t). readable (ne_flatcc env) (snd (tox_friend_get_status_message (ne_tox env) t n))"
    and "self_ok env (w0\<lparr> n_tox := t \<rparr>)" "n_disk w0 = disk_of (d_fs d)"
  shows "\<exists>w'. ela_new_load 0 env w0 udp = Inr (0, w') \<and> node_ok env fr w' \<and> fr (n_tox w') = fr (n_tox w) \<and>
    (\<forall>n\<in>dom (fr (n_tox w)). label_of (n_friends w') n = label_of (n_friends w) n)"
proof -
  let ?F = "fr (n_tox w)"
  have T: "tox_friends_ok (ne_tox env) fr" using assms(1) by (simp add: env_ok_def)
  have t: "fr t = ?F" using assms(6) unfolding was_stored_def Let_def by blast
  have get: "\<exists>tbl. dht_get_friends (ne_tox env) (n_tox w2) (friends_iterate_cb env) w2 = Inr (0, w2\<lparr> n_friends := tbl \<rparr>) \<and>
      distinct (map fst tbl) \<and> fresh_table env ?F tbl" if "n_tox w1 = t" "n_friends w1 = []" "kept env fr w1 w2" for w1 w2
  proof -
    have "\<forall>n\<in>dom (fr (n_tox w2)). readable (ne_flatcc env) (snd (tox_friend_get_status_message (ne_tox env) (n_tox w2) n))"
      "n_friends w2 = []" "fr (n_tox w2) = ?F"
      using that assms(7) t by (auto simp: kept_def)
    then show ?thesis using get_friends_fresh [OF assms(2) T assms(4), of w2 "n_tox w2"] by (auto simp: fresh_table_def ftable_ok_def)
  qed
  obtain w' tbl where w': "ela_new_load 0 env w0 udp = Inr (0, w')" "self_ok env w'" "fr (n_tox w') = ?F" "fresh_table env ?F tbl"
    "n_friends w' = foldl put_label tbl (n_friends w)"
    using restart [OF assms(1,3,5,6,8,9), of "fresh_table env ?F"] get by blast
  have old: "ftable_ok env ?F (n_friends w)" using assms(5) by (simp add: node_ok_def)
  show ?thesis using w' labels_ok(1) [OF w'(4) old] labels_ok(2) [OF w'(4) old] by (auto simp: node_ok_def)
qed

lemma put_label_empty: "foldl put_label [] fr = []"
  by (induction fr) (simp_all add: put_label_def)

text \<open>
  C39. One description that cannot be read hides all friends: \<open>friends_iterate_cb\<close> ends the loop over the friends, and \<open>dht_get_friends\<close> returns 0. If it
  is the description of the friend that the library lists first, the node starts without an error and with an empty table, although the library
  still has all friends; the labels are gone from the file when it is stored again at the end of \<open>ela_new\<close>.
\<close>

theorem unreadable_description_hides_friends:
  assumes "env_ok env fr" "tox_list_ok (ne_tox env) fr" "reads_ok (ne_os env)" "\<forall>w. ne_alloc env w"
    and "node_ok env fr w" "was_stored env fr w udp t d"
    and "\<forall>t'. fr t' = fr t \<longrightarrow> (\<exists>ns. tox_self_get_friend_list (ne_tox env) t' = n # ns)"
    and "desc = snd (tox_friend_get_status_message (ne_tox env) t n)" "desc \<noteq> []" "elacp_decode (ne_flatcc env) True desc = Inr None"
    and "self_ok env (w0\<lparr> n_tox := t \<rparr>)" "n_disk w0 = disk_of (d_fs d)"
  shows "n \<in> dom (fr (n_tox w)) \<and> (\<exists>w'. ela_new_load 0 env w0 udp = Inr (0, w') \<and> fr (n_tox w') = fr (n_tox w) \<and> n_friends w' = [])"
proof -
  have T: "tox_friends_ok (ne_tox env) fr" using assms(1) by (simp add: env_ok_def)
  have t: "fr t = fr (n_tox w)" using assms(6) unfolding was_stored_def Let_def by blast
  have n: "\<exists>k. fr t' n = Some k" if "fr t' = fr t" for t'
  proof -
    have "n \<in> set (tox_self_get_friend_list (ne_tox env) t')" using assms(7) that by force
    then show ?thesis using assms(2) by (auto simp: tox_list_ok_def)
  qed
  have get: "\<exists>tbl. dht_get_friends (ne_tox env) (n_tox w2) (friends_iterate_cb env) w2 = Inr (0, w2\<lparr> n_friends := tbl \<rparr>) \<and>
      distinct (map fst tbl) \<and> tbl = []" if "n_tox w1 = t" "n_friends w1 = []" "kept env fr w1 w2" for w1 w2
  proof -
    have k: "fr (n_tox w2) = fr t" "n_friends w2 = []" "snd (tox_friend_get_status_message (ne_tox env) (n_tox w2) n) = desc"
      using that assms(8) by (auto simp: kept_def)
    obtain key ns where key: "fr (n_tox w2) n = Some key" "tox_self_get_friend_list (ne_tox env) (n_tox w2) = n # ns"
      using n [OF k(1)] assms(7) k(1) by blast
    obtain s where q: "tox_friend_get_status_message (ne_tox env) (n_tox w2) n = (TOX_ERR_FRIEND_QUERY_OK, desc)"
      "tox_friend_get_status (ne_tox env) (n_tox w2) n = (TOX_ERR_FRIEND_QUERY_OK, s)"
      "tox_friend_get_public_key (ne_tox env) (n_tox w2) n = (TOX_ERR_FRIEND_GET_PUBLIC_KEY_OK, key)"
      using assms(2) key(1) k(3) unfolding tox_list_ok_def by (metis prod.collapse)
    have "friends_iterate_cb env n key s desc w2 = Inr (False, w2)"
      using tox_keys(1) [OF T key(1)] assms(4,9,10) by (simp add: friends_iterate_cb_def unpack_user_desc_def Let_def)
    moreover have "w2\<lparr> n_friends := [] \<rparr> = w2" using k(2) by (cases w2) simp
    ultimately show ?thesis using q key(2) by (simp add: dht_get_friends_def)
  qed
  show ?thesis
    using restart [OF assms(1,3,5,6,11,12), of "\<lambda>tbl. tbl = []"] get n [OF refl] t by (auto simp: put_label_empty)
qed

section \<open>Examples\<close>

definition demo_stored :: "demo_state node" where
  "demo_stored = (demo_node (demo_init\<lparr> dt_key := Some (replicate 32 7) \<rparr>))\<lparr>
     n_friends := [(0, set_label (new_friend 0 (blank_user demo_key) ElaPresenceStatus_None) ''Rob'')] \<rparr>"

lemma demo_list: "tox_list_ok (demo_tox desc) demo_fr"
  by (auto simp: tox_list_ok_def demo_tox_def demo_fr_def split: if_splits option.splits)

lemma demo_stored_ok: "node_ok (demo_nenv desc ps) demo_fr demo_stored"
proof -
  have "self_ok (demo_nenv desc ps) demo_stored"
    by (simp add: self_ok_def demo_stored_def demo_node_def demo_init_def demo_nenv_def demo_tox_def blank_user_def fits_def no_nul_def)
  moreover have "demo_fr (n_tox demo_stored) = [0 \<mapsto> replicate 32 7]"
    by (auto simp: demo_stored_def demo_node_def demo_fr_def DHT_PUBLIC_KEY_SIZE_def fun_eq_iff)
  ultimately show ?thesis
    by (auto simp: node_ok_def ftable_ok_def demo_stored_def entry_ok_def new_friend_def set_label_def blank_user_def fits_def no_nul_def demo_key_def
        key_text_def demo_nenv_def ELA_MAX_USER_NAME_LEN_def)
qed

lemma demo_was_stored: "\<exists>d. was_stored (demo_nenv desc ps) demo_fr demo_stored True (demo_init\<lparr> dt_key := Some (replicate 32 7) \<rparr>) d"
proof -
  let ?dht = "1 # replicate 32 7 :: byte list"
  have s: "tox_get_savedata (ne_tox (demo_nenv desc ps)) (n_tox demo_stored) = ?dht"
    by (simp add: demo_nenv_def demo_tox_def demo_stored_def demo_node_def)
  have fit: "sections_fit ?dht (extra_bytes (n_friends demo_stored))"
    by (simp add: sections_fit_def MAX_PERSISTENCE_SECTION_SIZE_def demo_stored_def length_label_entry set_label_def new_friend_def)
  obtain d where d: "store_persistence_data demo_os ''d'' ?dht (n_friends demo_stored) (disk_of (demo_fs demo_os)) = Inr (0, d)"
    using demo_store demo_os_ok by blast
  have "tox_new (ne_tox (demo_nenv desc ps)) (Some ?dht) True = (TOX_ERR_NEW_OK, Some (demo_init\<lparr> dt_key := Some (replicate 32 7) \<rparr>))"
    by (simp add: demo_nenv_def demo_tox_def)
  moreover have "demo_fr (n_tox demo_stored) = demo_fr (demo_init\<lparr> dt_key := Some (replicate 32 7) \<rparr>)"
    by (simp add: demo_stored_def demo_node_def)
  moreover have "ne_os (demo_nenv desc ps) = demo_os" "ne_location (demo_nenv desc ps) = ''d''" by (simp_all add: demo_nenv_def)
  ultimately show ?thesis
    using fit d demo_fs_loads [OF demo_os_ok(1,3)] unfolding was_stored_def Let_def s by auto
qed

lemma demo_self:
  "n_tox w = demo_init\<lparr> dt_key := k \<rparr> \<Longrightarrow> n_me w = blank_user u \<Longrightarrow> self_ok (demo_nenv desc ps) w"
  by (simp add: self_ok_def demo_init_def demo_nenv_def demo_tox_def blank_user_def fits_def no_nul_def)

theorem node_restart_witness:
  "\<exists>w0 w'. ela_new_load 0 (demo_nenv [0] [bob_table]) w0 True = Inr (0, w') \<and> label_of (n_friends w') 0 = ''Rob''"
proof -
  let ?env = "demo_nenv [0] [bob_table]" and ?t = "demo_init\<lparr> dt_key := Some (replicate 32 7) \<rparr>"
  obtain d where d: "was_stored ?env demo_fr demo_stored True ?t d" using demo_was_stored by blast
  let ?w0 = "(demo_node demo_init)\<lparr> n_me := blank_user [], n_disk := disk_of (d_fs d) \<rparr>"
  have ok: "env_ok ?env demo_fr" by (rule demo_nenv_ok) simp
  have laws: "tox_list_ok (ne_tox ?env) demo_fr" "reads_ok (ne_os ?env)" "\<forall>w. ne_alloc ?env w"
    using demo_list demo_os_ok(1) by (simp_all add: demo_nenv_def)
  have r: "\<forall>n\<in>dom (demo_fr ?t). readable (ne_flatcc ?env) (snd (tox_friend_get_status_message (ne_tox ?env) ?t n))"
    using info_polite [OF bob_fits] by (simp add: readable_def demo_nenv_def demo_tox_def bob_decode) (simp add: info_cp_def)
  have "self_ok ?env (?w0\<lparr> n_tox := ?t \<rparr>)" by (rule demo_self [of _ "Some (replicate 32 7)" "[]"]) simp_all
  from node_restart [OF ok laws demo_stored_ok d r this]
  obtain w' where w': "ela_new_load 0 ?env ?w0 True = Inr (0, w')"
    "\<forall>n\<in>dom (demo_fr (n_tox demo_stored)). label_of (n_friends w') n = label_of (n_friends demo_stored) n"
    by auto
  have "label_of (n_friends demo_stored) 0 = ''Rob''" "0 \<in> dom (demo_fr (n_tox demo_stored))"
    by (simp_all add: label_of_def demo_stored_def set_label_def demo_fr_def demo_node_def DHT_PUBLIC_KEY_SIZE_def domIff)
  then have "label_of (n_friends w') 0 = ''Rob''" using w'(2) by (metis (no_types))
  then show ?thesis using w'(1) by blast
qed

theorem unreadable_description_hides_friends_witness:
  "\<exists>w0 w'. ela_new_load 0 (demo_nenv [5] []) w0 True = Inr (0, w') \<and> demo_fr (n_tox w') 0 = Some (replicate 32 7) \<and> n_friends w' = []"
proof -
  let ?env = "demo_nenv [5] []" and ?t = "demo_init\<lparr> dt_key := Some (replicate 32 7) \<rparr>"
  obtain d where d: "was_stored ?env demo_fr demo_stored True ?t d" using demo_was_stored by blast
  let ?w0 = "(demo_node demo_init)\<lparr> n_me := blank_user [], n_disk := disk_of (d_fs d) \<rparr>"
  have ok: "env_ok ?env demo_fr" by (rule demo_nenv_ok) simp
  have laws: "tox_list_ok (ne_tox ?env) demo_fr" "reads_ok (ne_os ?env)" "\<forall>w. ne_alloc ?env w"
    using demo_list demo_os_ok(1) by (simp_all add: demo_nenv_def)
  have key: "demo_fr ?t 0 = Some (replicate 32 7)" "demo_fr (n_tox demo_stored) 0 = Some (replicate 32 7)"
    by (simp_all add: demo_fr_def demo_stored_def demo_node_def DHT_PUBLIC_KEY_SIZE_def)
  have l: "\<forall>t'. demo_fr t' = demo_fr ?t \<longrightarrow> (\<exists>ns. tox_self_get_friend_list (ne_tox ?env) t' = 0 # ns)"
    using key(1) by (simp add: demo_nenv_def demo_tox_def)
  have j: "elacp_decode (ne_flatcc ?env) True [5] = Inr None" by (simp add: elacp_decode_def demo_nenv_def list_flatcc_def)
  have "self_ok ?env (?w0\<lparr> n_tox := ?t \<rparr>)" by (rule demo_self [of _ "Some (replicate 32 7)" "[]"]) simp_all
  moreover have "[5] = snd (tox_friend_get_status_message (ne_tox ?env) ?t 0)" by (simp add: demo_nenv_def demo_tox_def)
  ultimately obtain w' where "ela_new_load 0 ?env ?w0 True = Inr (0, w')" "demo_fr (n_tox w') = demo_fr (n_tox demo_stored)" "n_friends w' = []"
    using unreadable_description_hides_friends [OF ok laws demo_stored_ok d l _ _ j, of ?w0] by auto
  then show ?thesis using key(2) by (intro exI [of _ ?w0] exI [of _ w']) simp
qed

end
