(* ===== verification/Conference.thy ===== *)
theory Conference
  imports Friends
begin

text \<open>
  Groups, from \<open>src/carrier/ela_carrier.c\<close> over \<open>dht.c\<close>. A group is a conference of the tox library, which is a parameter (\<open>conf_lib\<close>) on the same
  state as the rest of the library. A group has a number and a key of 32 bytes; users see the text of the key.
\<close>

section \<open>The library and its errors\<close>

datatype TOX_ERR_CONFERENCE_BY_ID =
  TOX_ERR_CONFERENCE_BY_ID_OK | TOX_ERR_CONFERENCE_BY_ID_NULL | TOX_ERR_CONFERENCE_BY_ID_NOT_FOUND | TOX_ERR_CONFERENCE_BY_ID_other

datatype TOX_ERR_CONFERENCE_NEW = TOX_ERR_CONFERENCE_NEW_OK | TOX_ERR_CONFERENCE_NEW_INIT | TOX_ERR_CONFERENCE_NEW_other

datatype TOX_ERR_CONFERENCE_DELETE =
  TOX_ERR_CONFERENCE_DELETE_OK | TOX_ERR_CONFERENCE_DELETE_CONFERENCE_NOT_FOUND | TOX_ERR_CONFERENCE_DELETE_other

datatype TOX_ERR_CONFERENCE_INVITE =
  TOX_ERR_CONFERENCE_INVITE_OK | TOX_ERR_CONFERENCE_INVITE_CONFERENCE_NOT_FOUND | TOX_ERR_CONFERENCE_INVITE_FAIL_SEND
  | TOX_ERR_CONFERENCE_INVITE_other

datatype TOX_ERR_CONFERENCE_JOIN =
  TOX_ERR_CONFERENCE_JOIN_OK | TOX_ERR_CONFERENCE_JOIN_INVALID_LENGTH | TOX_ERR_CONFERENCE_JOIN_WRONG_TYPE
  | TOX_ERR_CONFERENCE_JOIN_FRIEND_NOT_FOUND | TOX_ERR_CONFERENCE_JOIN_DUPLICATE | TOX_ERR_CONFERENCE_JOIN_INIT_FAIL
  | TOX_ERR_CONFERENCE_JOIN_FAIL_SEND | TOX_ERR_CONFERENCE_JOIN_other

datatype TOX_ERR_CONFERENCE_SEND_MESSAGE =
  TOX_ERR_CONFERENCE_SEND_MESSAGE_OK | TOX_ERR_CONFERENCE_SEND_MESSAGE_CONFERENCE_NOT_FOUND | TOX_ERR_CONFERENCE_SEND_MESSAGE_TOO_LONG
  | TOX_ERR_CONFERENCE_SEND_MESSAGE_NO_CONNECTION | TOX_ERR_CONFERENCE_SEND_MESSAGE_FAIL_SEND | TOX_ERR_CONFERENCE_SEND_MESSAGE_other

datatype TOX_ERR_CONFERENCE_TITLE =
  TOX_ERR_CONFERENCE_TITLE_OK | TOX_ERR_CONFERENCE_TITLE_CONFERENCE_NOT_FOUND | TOX_ERR_CONFERENCE_TITLE_INVALID_LENGTH
  | TOX_ERR_CONFERENCE_TITLE_FAIL_SEND | TOX_ERR_CONFERENCE_TITLE_other

datatype TOX_ERR_CONFERENCE_PEER_QUERY =
  TOX_ERR_CONFERENCE_PEER_QUERY_OK | TOX_ERR_CONFERENCE_PEER_QUERY_CONFERENCE_NOT_FOUND | TOX_ERR_CONFERENCE_PEER_QUERY_PEER_NOT_FOUND
  | TOX_ERR_CONFERENCE_PEER_QUERY_NO_CONNECTION | TOX_ERR_CONFERENCE_PEER_QUERY_other

fun dht_group_number_by_public_key_error :: "TOX_ERR_CONFERENCE_BY_ID \<Rightarrow> u32" where
  "dht_group_number_by_public_key_error TOX_ERR_CONFERENCE_BY_ID_OK = 0"
| "dht_group_number_by_public_key_error TOX_ERR_CONFERENCE_BY_ID_NULL = ELA_DHT_ERROR ELAERR_INVALID_ARGS"
| "dht_group_number_by_public_key_error TOX_ERR_CONFERENCE_BY_ID_NOT_FOUND = ELA_DHT_ERROR ELAERR_NOT_EXIST"
| "dht_group_number_by_public_key_error TOX_ERR_CONFERENCE_BY_ID_other = ELA_DHT_ERROR ELAERR_UNKNOWN"

fun dht_group_new_error :: "TOX_ERR_CONFERENCE_NEW \<Rightarrow> u32" where
  "dht_group_new_error TOX_ERR_CONFERENCE_NEW_OK = 0"
| "dht_group_new_error TOX_ERR_CONFERENCE_NEW_INIT = ELA_DHT_ERROR ELAERR_WRONG_STATE"
| "dht_group_new_error TOX_ERR_CONFERENCE_NEW_other = ELA_DHT_ERROR ELAERR_UNKNOWN"

fun dht_group_delete_error :: "TOX_ERR_CONFERENCE_DELETE \<Rightarrow> u32" where
  "dht_group_delete_error TOX_ERR_CONFERENCE_DELETE_OK = 0"
| "dht_group_delete_error TOX_ERR_CONFERENCE_DELETE_CONFERENCE_NOT_FOUND = ELA_DHT_ERROR ELAERR_NOT_EXIST"
| "dht_group_delete_error TOX_ERR_CONFERENCE_DELETE_other = ELA_DHT_ERROR ELAERR_UNKNOWN"

fun dht_group_invite_error :: "TOX_ERR_CONFERENCE_INVITE \<Rightarrow> u32" where
  "dht_group_invite_error TOX_ERR_CONFERENCE_INVITE_OK = 0"
| "dht_group_invite_error TOX_ERR_CONFERENCE_INVITE_CONFERENCE_NOT_FOUND = ELA_DHT_ERROR ELAERR_NOT_EXIST"
| "dht_group_invite_error TOX_ERR_CONFERENCE_INVITE_FAIL_SEND = ELA_DHT_ERROR ELAERR_WRONG_STATE"
| "dht_group_invite_error TOX_ERR_CONFERENCE_INVITE_other = ELA_DHT_ERROR ELAERR_UNKNOWN"

fun dht_group_join_error :: "TOX_ERR_CONFERENCE_JOIN \<Rightarrow> u32" where
  "dht_group_join_error TOX_ERR_CONFERENCE_JOIN_OK = 0"
| "dht_group_join_error TOX_ERR_CONFERENCE_JOIN_INVALID_LENGTH = ELA_DHT_ERROR ELAERR_TOO_LONG"
| "dht_group_join_error TOX_ERR_CONFERENCE_JOIN_WRONG_TYPE = ELA_DHT_ERROR ELAERR_INVALID_ARGS"
| "dht_group_join_error TOX_ERR_CONFERENCE_JOIN_FRIEND_NOT_FOUND = ELA_DHT_ERROR ELAERR_NOT_EXIST"
| "dht_group_join_error TOX_ERR_CONFERENCE_JOIN_DUPLICATE = ELA_DHT_ERROR ELAERR_ALREADY_EXIST"
| "dht_group_join_error TOX_ERR_CONFERENCE_JOIN_INIT_FAIL = ELA_DHT_ERROR ELAERR_WRONG_STATE"
| "dht_group_join_error TOX_ERR_CONFERENCE_JOIN_FAIL_SEND = ELA_DHT_ERROR ELAERR_WRONG_STATE"
| "dht_group_join_error TOX_ERR_CONFERENCE_JOIN_other = ELA_DHT_ERROR ELAERR_UNKNOWN"

fun dht_group_send_message_error :: "TOX_ERR_CONFERENCE_SEND_MESSAGE \<Rightarrow> u32" where
  "dht_group_send_message_error TOX_ERR_CONFERENCE_SEND_MESSAGE_OK = 0"
| "dht_group_send_message_error TOX_ERR_CONFERENCE_SEND_MESSAGE_CONFERENCE_NOT_FOUND = ELA_DHT_ERROR ELAERR_NOT_EXIST"
| "dht_group_send_message_error TOX_ERR_CONFERENCE_SEND_MESSAGE_TOO_LONG = ELA_DHT_ERROR ELAERR_TOO_LONG"
| "dht_group_send_message_error TOX_ERR_CONFERENCE_SEND_MESSAGE_NO_CONNECTION = ELA_DHT_ERROR ELAERR_NOT_EXIST"
| "dht_group_send_message_error TOX_ERR_CONFERENCE_SEND_MESSAGE_FAIL_SEND = ELA_DHT_ERROR ELAERR_WRONG_STATE"
| "dht_group_send_message_error TOX_ERR_CONFERENCE_SEND_MESSAGE_other = ELA_DHT_ERROR ELAERR_UNKNOWN"

fun dht_group_title_error :: "TOX_ERR_CONFERENCE_TITLE \<Rightarrow> u32" where
  "dht_group_title_error TOX_ERR_CONFERENCE_TITLE_OK = 0"
| "dht_group_title_error TOX_ERR_CONFERENCE_TITLE_CONFERENCE_NOT_FOUND = ELA_DHT_ERROR ELAERR_NOT_EXIST"
| "dht_group_title_error TOX_ERR_CONFERENCE_TITLE_INVALID_LENGTH = ELA_DHT_ERROR ELAERR_TOO_LONG"
| "dht_group_title_error TOX_ERR_CONFERENCE_TITLE_FAIL_SEND = ELA_DHT_ERROR ELAERR_WRONG_STATE"
| "dht_group_title_error TOX_ERR_CONFERENCE_TITLE_other = ELA_DHT_ERROR ELAERR_UNKNOWN"

fun dht_group_peer_query_error :: "TOX_ERR_CONFERENCE_PEER_QUERY \<Rightarrow> u32" where
  "dht_group_peer_query_error TOX_ERR_CONFERENCE_PEER_QUERY_OK = 0"
| "dht_group_peer_query_error TOX_ERR_CONFERENCE_PEER_QUERY_CONFERENCE_NOT_FOUND = ELA_DHT_ERROR ELAERR_NOT_EXIST"
| "dht_group_peer_query_error TOX_ERR_CONFERENCE_PEER_QUERY_PEER_NOT_FOUND = ELA_DHT_ERROR ELAERR_NOT_EXIST"
| "dht_group_peer_query_error TOX_ERR_CONFERENCE_PEER_QUERY_NO_CONNECTION = ELA_DHT_ERROR ELAERR_WRONG_STATE"
| "dht_group_peer_query_error TOX_ERR_CONFERENCE_PEER_QUERY_other = ELA_DHT_ERROR ELAERR_UNKNOWN"

record 't conf_lib =
  tox_conference_get_id :: "'t \<Rightarrow> u32 \<Rightarrow> byte list option"
  tox_conference_by_id :: "'t \<Rightarrow> byte list \<Rightarrow> TOX_ERR_CONFERENCE_BY_ID \<times> u32"
  tox_conference_new :: "'t \<Rightarrow> TOX_ERR_CONFERENCE_NEW \<times> u32 \<times> 't"
  tox_conference_delete :: "'t \<Rightarrow> u32 \<Rightarrow> TOX_ERR_CONFERENCE_DELETE \<times> 't"
  tox_conference_invite :: "'t \<Rightarrow> u32 \<Rightarrow> u32 \<Rightarrow> TOX_ERR_CONFERENCE_INVITE \<times> 't"
  tox_conference_join :: "'t \<Rightarrow> u32 \<Rightarrow> byte list \<Rightarrow> TOX_ERR_CONFERENCE_JOIN \<times> u32 \<times> 't"
  tox_conference_send_message :: "'t \<Rightarrow> u32 \<Rightarrow> byte list \<Rightarrow> TOX_ERR_CONFERENCE_SEND_MESSAGE \<times> 't"
  tox_conference_get_title_size :: "'t \<Rightarrow> u32 \<Rightarrow> TOX_ERR_CONFERENCE_TITLE \<times> nat"
  tox_conference_get_title :: "'t \<Rightarrow> u32 \<Rightarrow> TOX_ERR_CONFERENCE_TITLE \<times> byte list"
  tox_conference_set_title :: "'t \<Rightarrow> u32 \<Rightarrow> byte list \<Rightarrow> TOX_ERR_CONFERENCE_TITLE \<times> 't"
  tox_conference_peer_count :: "'t \<Rightarrow> u32 \<Rightarrow> TOX_ERR_CONFERENCE_PEER_QUERY \<times> u32"
  tox_conference_peer_get_name_size :: "'t \<Rightarrow> u32 \<Rightarrow> u32 \<Rightarrow> TOX_ERR_CONFERENCE_PEER_QUERY \<times> nat"
  tox_conference_peer_get_name :: "'t \<Rightarrow> u32 \<Rightarrow> u32 \<Rightarrow> TOX_ERR_CONFERENCE_PEER_QUERY \<times> byte list"
  tox_conference_peer_get_public_key :: "'t \<Rightarrow> u32 \<Rightarrow> u32 \<Rightarrow> TOX_ERR_CONFERENCE_PEER_QUERY \<times> byte list"
  tox_conference_get_chatlist :: "'t \<Rightarrow> u32 list"

section \<open>The wrapper\<close>

text \<open>An error code, or 0; numbers and keys are results beside it.\<close>

definition dht_group_get_public_key :: "'t conf_lib \<Rightarrow> 't \<Rightarrow> u32 \<Rightarrow> (u32 \<times> byte list) res" where
  "dht_group_get_public_key C t group_number =
     bindr (g_assert (group_number \<noteq> -1)) (\<lambda>_.
     Inr (case tox_conference_get_id C t group_number of None \<Rightarrow> (ELA_DHT_ERROR ELAERR_NOT_EXIST, []) | Some k \<Rightarrow> (0, k)))"

definition dht_group_number_by_public_key :: "'t conf_lib \<Rightarrow> 't \<Rightarrow> byte list \<Rightarrow> u32 \<times> u32" where
  "dht_group_number_by_public_key C t public_key = (case tox_conference_by_id C t public_key of (error, n) \<Rightarrow>
     if error \<noteq> TOX_ERR_CONFERENCE_BY_ID_OK then (dht_group_number_by_public_key_error error, n) else (0, n))"

definition dht_group_new :: "'t conf_lib \<Rightarrow> 't \<Rightarrow> u32 \<times> u32 \<times> 't" where
  "dht_group_new C t = (case tox_conference_new C t of (error, n, t) \<Rightarrow>
     if error \<noteq> TOX_ERR_CONFERENCE_NEW_OK then (dht_group_new_error error, n, t) else (0, n, t))"

definition dht_group_leave :: "'t conf_lib \<Rightarrow> 't \<Rightarrow> u32 \<Rightarrow> (u32 \<times> 't) res" where
  "dht_group_leave C t group_number =
     bindr (g_assert (group_number \<noteq> -1)) (\<lambda>_. case tox_conference_delete C t group_number of (error, t) \<Rightarrow>
     Inr (if error \<noteq> TOX_ERR_CONFERENCE_DELETE_OK then (dht_group_delete_error error, t) else (0, t)))"

definition dht_group_invite :: "'t conf_lib \<Rightarrow> 't \<Rightarrow> u32 \<Rightarrow> u32 \<Rightarrow> (u32 \<times> 't) res" where
  "dht_group_invite C t group_number friend_number =
     bindr (g_assert (group_number \<noteq> -1 \<and> friend_number \<noteq> -1)) (\<lambda>_.
     case tox_conference_invite C t friend_number group_number of (error, t) \<Rightarrow>
     Inr (if error \<noteq> TOX_ERR_CONFERENCE_INVITE_OK then (dht_group_invite_error error, t) else (0, t)))"

definition dht_group_join :: "'t conf_lib \<Rightarrow> 't \<Rightarrow> u32 \<Rightarrow> byte list \<Rightarrow> (u32 \<times> u32 \<times> 't) res" where
  "dht_group_join C t friend_number cookie =
     bindr (g_assert (friend_number \<noteq> -1 \<and> cookie \<noteq> [])) (\<lambda>_.
     case tox_conference_join C t friend_number cookie of (error, n, t) \<Rightarrow>
     Inr (if error \<noteq> TOX_ERR_CONFERENCE_JOIN_OK then (dht_group_join_error error, n, t) else (0, n, t)))"

definition dht_group_send_message :: "'t conf_lib \<Rightarrow> 't \<Rightarrow> u32 \<Rightarrow> byte list \<Rightarrow> (u32 \<times> 't) res" where
  "dht_group_send_message C t group_number msg =
     bindr (g_assert (group_number \<noteq> -1 \<and> msg \<noteq> [])) (\<lambda>_.
     case tox_conference_send_message C t group_number msg of (error, t) \<Rightarrow>
     Inr (if error \<noteq> TOX_ERR_CONFERENCE_SEND_MESSAGE_OK then (dht_group_send_message_error error, t) else (0, t)))"

text \<open>
  Titles and names are copied to the start of an array \<open>buf\<close>, the length of which is passed too. The result is the array and a number: an error
  code, or the length.
\<close>

definition dht_group_get_title :: "'t conf_lib \<Rightarrow> 't \<Rightarrow> u32 \<Rightarrow> byte list \<Rightarrow> (u32 \<times> byte list) res" where
  "dht_group_get_title C t group_number buf =
     bindr (g_assert (group_number \<noteq> -1 \<and> buf \<noteq> [])) (\<lambda>_.
     case tox_conference_get_title_size C t group_number of (error, len) \<Rightarrow>
       if error = TOX_ERR_CONFERENCE_TITLE_INVALID_LENGTH then Inr (0, buf)
       else if error \<noteq> TOX_ERR_CONFERENCE_TITLE_OK then Inr (dht_group_title_error error, buf)
       else if len > length buf then Inr (ELA_DHT_ERROR ELAERR_BUFFER_TOO_SMALL, buf)
       else (case tox_conference_get_title C t group_number of (error, title) \<Rightarrow>
         if error \<noteq> TOX_ERR_CONFERENCE_TITLE_OK then Inr (dht_group_title_error error, buf)
         else bindr (copy_bytes buf 0 title) (\<lambda>buf. Inr (of_nat len, buf))))"

definition dht_group_set_title :: "'t conf_lib \<Rightarrow> 't \<Rightarrow> u32 \<Rightarrow> byte list \<Rightarrow> (u32 \<times> 't) res" where
  "dht_group_set_title C t group_number title =
     bindr (g_assert (group_number \<noteq> -1)) (\<lambda>_. case tox_conference_set_title C t group_number title of (error, t) \<Rightarrow>
     Inr (if error \<noteq> TOX_ERR_CONFERENCE_TITLE_OK then (dht_group_title_error error, t) else (0, t)))"

text \<open>The code compares the result with a constant of another enumeration, which has the same value 0.\<close>

definition dht_group_peer_count :: "'t conf_lib \<Rightarrow> 't \<Rightarrow> u32 \<Rightarrow> (u32 \<times> u32) res" where
  "dht_group_peer_count C t group_number =
     bindr (g_assert (group_number \<noteq> -1)) (\<lambda>_. case tox_conference_peer_count C t group_number of (error, n) \<Rightarrow>
     Inr (if error \<noteq> TOX_ERR_CONFERENCE_PEER_QUERY_OK then (dht_group_peer_query_error error, n) else (0, n)))"

definition dht_group_get_peer_name :: "'t conf_lib \<Rightarrow> 't \<Rightarrow> u32 \<Rightarrow> u32 \<Rightarrow> byte list \<Rightarrow> (u32 \<times> byte list) res" where
  "dht_group_get_peer_name C t group_number peer_number buf =
     bindr (g_assert (group_number \<noteq> -1 \<and> peer_number \<noteq> -1 \<and> buf \<noteq> [])) (\<lambda>_.
     case tox_conference_peer_get_name_size C t group_number peer_number of (error, len) \<Rightarrow>
       if error \<noteq> TOX_ERR_CONFERENCE_PEER_QUERY_OK then Inr (dht_group_peer_query_error error, buf)
       else if len = 0 then Inr (0, buf)
       else if len > length buf then Inr (ELA_DHT_ERROR ELAERR_BUFFER_TOO_SMALL, buf)
       else (case tox_conference_peer_get_name C t group_number peer_number of (error, name) \<Rightarrow>
         if error \<noteq> TOX_ERR_CONFERENCE_PEER_QUERY_OK then Inr (dht_group_peer_query_error error, buf)
         else bindr (copy_bytes buf 0 name) (\<lambda>buf. Inr (of_nat len, buf))))"

definition dht_group_get_peer_public_key :: "'t conf_lib \<Rightarrow> 't \<Rightarrow> u32 \<Rightarrow> u32 \<Rightarrow> (u32 \<times> byte list) res" where
  "dht_group_get_peer_public_key C t group_number peer_number =
     bindr (g_assert (group_number \<noteq> -1 \<and> peer_number \<noteq> -1)) (\<lambda>_.
     case tox_conference_peer_get_public_key C t group_number peer_number of (error, k) \<Rightarrow>
     Inr (if error \<noteq> TOX_ERR_CONFERENCE_PEER_QUERY_OK then (dht_group_peer_query_error error, k) else (0, k)))"

definition dht_get_group_count :: "'t conf_lib \<Rightarrow> 't \<Rightarrow> nat" where
  "dht_get_group_count C t = length (tox_conference_get_chatlist C t)"

definition dht_get_group_list :: "'t conf_lib \<Rightarrow> 't \<Rightarrow> u32 list" where
  "dht_get_group_list C t = tox_conference_get_chatlist C t"

section \<open>Ids\<close>

text \<open>
  \<open>get_groupid_by_number\<close> and \<open>get_peerid_by_number\<close> set the error themselves and return -1. \<open>len\<close> is the size of the array for the text.
\<close>

definition get_groupid_by_number :: "'t node_env \<Rightarrow> 't conf_lib \<Rightarrow> 't node \<Rightarrow> u32 \<Rightarrow> nat \<Rightarrow> (u32 \<times> string \<times> 't node) res" where
  "get_groupid_by_number env C w group_number len =
     bindr (g_assert (len \<ge> ELA_MAX_ID_LEN + 1)) (\<lambda>_.
     bindr (dht_group_get_public_key C (n_tox w) group_number) (\<lambda>(rc, public_key).
     Inr (if sint rc < 0 then (-1, [], w\<lparr> n_error := rc \<rparr>) else (0, key_text env public_key len, w))))"

definition get_peerid_by_number :: "'t node_env \<Rightarrow> 't conf_lib \<Rightarrow> 't node \<Rightarrow> u32 \<Rightarrow> u32 \<Rightarrow> nat \<Rightarrow> (u32 \<times> string \<times> 't node) res" where
  "get_peerid_by_number env C w group_number peer_number len =
     bindr (g_assert (len \<ge> ELA_MAX_ID_LEN + 1)) (\<lambda>_.
     bindr (dht_group_get_peer_public_key C (n_tox w) group_number peer_number) (\<lambda>(rc, public_key).
     Inr (if sint rc < 0 then (-1, [], w\<lparr> n_error := rc \<rparr>) else (0, key_text env public_key len, w))))"

definition get_group_number :: "'t node_env \<Rightarrow> 't conf_lib \<Rightarrow> 't node \<Rightarrow> string \<Rightarrow> u32 \<times> u32" where
  "get_group_number env C w groupid = (case ne_base58_decode env groupid of
     None \<Rightarrow> (ELA_GENERAL_ERROR ELAERR_INVALID_ARGS, -1)
   | Some public_key \<Rightarrow>
       if length public_key \<noteq> DHT_PUBLIC_KEY_SIZE then (ELA_GENERAL_ERROR ELAERR_INVALID_ARGS, -1)
       else (case dht_group_number_by_public_key C (n_tox w) public_key of (rc, n) \<Rightarrow>
         if sint rc < 0 then (ELA_GENERAL_ERROR ELAERR_NOT_EXIST, n) else (rc, n)))"

section \<open>What the network tells\<close>

definition notify_group_invite_cb :: "'t node_env \<Rightarrow> 't node \<Rightarrow> u32 \<Rightarrow> byte list \<Rightarrow> 't node res" where
  "notify_group_invite_cb env w friend_number cookie =
     bindr (node_friends_get w friend_number) (\<lambda>(fio, w).
     case fio of None \<Rightarrow> Inr w
     | Some fi \<Rightarrow>
         bindr (if ne_callback env CbGroupInvite then
             bindr (copy_str (ELA_MAX_ID_LEN + 1) (eu_userid (ef_user_info (fi_info fi)))) (\<lambda>friendid.
             Inr (n_call env CbGroupInvite (CallGroupInvite friendid cookie) w))
           else Inr w) (\<lambda>w. Inr (friend_deref w friend_number)))"

definition notify_group_connected_cb :: "'t node_env \<Rightarrow> 't conf_lib \<Rightarrow> 't node \<Rightarrow> u32 \<Rightarrow> 't node res" where
  "notify_group_connected_cb env C w group_number =
     bindr (get_groupid_by_number env C w group_number (ELA_MAX_ID_LEN + 1)) (\<lambda>(rc, groupid, w).
     Inr (if sint rc < 0 then w else n_call env CbGroupConnected (CallGroupConnected groupid) w))"

text \<open>The ids of a group and a peer, for the three events that have both.\<close>

definition with_group_peer ::
    "'t node_env \<Rightarrow> 't conf_lib \<Rightarrow> 't node \<Rightarrow> u32 \<Rightarrow> u32 \<Rightarrow> (string \<Rightarrow> string \<Rightarrow> 't node \<Rightarrow> 't node) \<Rightarrow> 't node res" where
  "with_group_peer env C w group_number peer_number f =
     bindr (get_groupid_by_number env C w group_number (ELA_MAX_ID_LEN + 1)) (\<lambda>(rc, groupid, w).
     if sint rc < 0 then Inr w
     else
       bindr (get_peerid_by_number env C w group_number peer_number (ELA_MAX_ID_LEN + 1)) (\<lambda>(rc, peerid, w).
       Inr (if sint rc < 0 then w else f groupid peerid w)))"

definition notify_group_message_cb :: "'t node_env \<Rightarrow> 't conf_lib \<Rightarrow> 't node \<Rightarrow> u32 \<Rightarrow> u32 \<Rightarrow> byte list \<Rightarrow> 't node res" where
  "notify_group_message_cb env C w group_number peer_number msg =
     with_group_peer env C w group_number peer_number (\<lambda>groupid peerid w.
       n_call env CbGroupMessage (CallGroupMessage groupid peerid msg) w)"

text \<open>The title and the name go to the user as pointers to characters; no bytes are the empty string.\<close>

definition notify_group_title_cb :: "'t node_env \<Rightarrow> 't conf_lib \<Rightarrow> 't node \<Rightarrow> u32 \<Rightarrow> u32 \<Rightarrow> byte list \<Rightarrow> 't node res" where
  "notify_group_title_cb env C w group_number peer_number title =
     (if peer_number = -1 then Inr w
      else with_group_peer env C w group_number peer_number (\<lambda>groupid peerid w.
        n_call env CbGroupTitle (CallGroupTitle groupid peerid (if title = [] then [0] else title)) w))"

definition notify_group_peer_name_cb :: "'t node_env \<Rightarrow> 't conf_lib \<Rightarrow> 't node \<Rightarrow> u32 \<Rightarrow> u32 \<Rightarrow> byte list \<Rightarrow> 't node res" where
  "notify_group_peer_name_cb env C w group_number peer_number name =
     with_group_peer env C w group_number peer_number (\<lambda>groupid peerid w.
       n_call env CbGroupPeerName (CallGroupPeerName groupid peerid (if name = [] then [0] else name)) w)"

definition notify_group_peer_list_changed_cb :: "'t node_env \<Rightarrow> 't conf_lib \<Rightarrow> 't node \<Rightarrow> u32 \<Rightarrow> 't node res" where
  "notify_group_peer_list_changed_cb env C w group_number =
     bindr (get_groupid_by_number env C w group_number (ELA_MAX_ID_LEN + 1)) (\<lambda>(rc, groupid, w).
     Inr (if sint rc < 0 then w else n_call env CbGroupPeerListChanged (CallGroupPeerListChanged groupid) w))"

section \<open>Functions of the user\<close>

definition ELA_MAX_GROUP_TITLE_LEN :: nat where "ELA_MAX_GROUP_TITLE_LEN = 127"

text \<open>After a group was made its id is read; the group is left again if this fails.\<close>

definition new_group_id :: "'t node_env \<Rightarrow> 't conf_lib \<Rightarrow> 't node \<Rightarrow> u32 \<Rightarrow> nat \<Rightarrow> (int \<times> string option \<times> 't node) res" where
  "new_group_id env C w group_number len =
     bindr (get_groupid_by_number env C w group_number len) (\<lambda>(rc, groupid, w).
     if sint rc < 0 then
       bindr (dht_group_leave C (n_tox w) group_number) (\<lambda>(_, t). Inr (-1, None, w\<lparr> n_tox := t, n_error := rc \<rparr>))
     else Inr (0, Some groupid, w))"

definition ela_new_group :: "'t node_env \<Rightarrow> 't conf_lib \<Rightarrow> 't node \<Rightarrow> nat \<Rightarrow> (int \<times> string option \<times> 't node) res" where
  "ela_new_group env C w len =
     (if len \<le> ELA_MAX_ID_LEN then Inr (-1, None, snd (n_fail w (ELA_GENERAL_ERROR ELAERR_INVALID_ARGS)))
      else if \<not> n_is_ready w then Inr (-1, None, snd (n_fail w (ELA_GENERAL_ERROR ELAERR_NOT_READY)))
      else (case dht_group_new C (n_tox w) of (rc, group_number, t) \<Rightarrow>
        let w = w\<lparr> n_tox := t \<rparr> in
        if sint rc < 0 then Inr (-1, None, snd (n_fail w rc)) else new_group_id env C w group_number len))"

text \<open>The common start of the functions on a group: \<open>ok\<close> is the check of the arguments.\<close>

definition on_group ::
    "'t node_env \<Rightarrow> 't conf_lib \<Rightarrow> 't node \<Rightarrow> string \<Rightarrow> bool \<Rightarrow> (u32 \<Rightarrow> (u32 \<times> 't node) res) \<Rightarrow> (int \<times> 't node) res" where
  "on_group env C w groupid ok f =
     (if groupid = [] \<or> \<not> ok then Inr (n_fail w (ELA_GENERAL_ERROR ELAERR_INVALID_ARGS))
      else if \<not> n_is_ready w then Inr (n_fail w (ELA_GENERAL_ERROR ELAERR_NOT_READY))
      else (case get_group_number env C w groupid of (rc, group_number) \<Rightarrow>
        if sint rc < 0 then Inr (n_fail w rc)
        else bindr (f group_number) (\<lambda>(rc, w). Inr (if sint rc < 0 then n_fail w rc else (0, w)))))"

definition ela_leave_group :: "'t node_env \<Rightarrow> 't conf_lib \<Rightarrow> 't node \<Rightarrow> string \<Rightarrow> (int \<times> 't node) res" where
  "ela_leave_group env C w groupid =
     on_group env C w groupid True (\<lambda>group_number.
     bindr (dht_group_leave C (n_tox w) group_number) (\<lambda>(rc, t). Inr (rc, w\<lparr> n_tox := t \<rparr>)))"

definition ela_group_invite :: "'t node_env \<Rightarrow> 't conf_lib \<Rightarrow> 't node \<Rightarrow> string \<Rightarrow> string \<Rightarrow> (int \<times> 't node) res" where
  "ela_group_invite env C w groupid friendid =
     on_group env C w groupid (friendid \<noteq> []) (\<lambda>group_number.
     case node_get_friend_number env w friendid of (rc, friend_number) \<Rightarrow>
       if sint rc < 0 then Inr (rc, w)
       else bindr (dht_group_invite C (n_tox w) group_number friend_number) (\<lambda>(rc, t). Inr (rc, w\<lparr> n_tox := t \<rparr>)))"

definition ela_group_join ::
    "'t node_env \<Rightarrow> 't conf_lib \<Rightarrow> 't node \<Rightarrow> string \<Rightarrow> byte list \<Rightarrow> nat \<Rightarrow> (int \<times> string option \<times> 't node) res" where
  "ela_group_join env C w friendid cookie len =
     (if friendid = [] \<or> cookie = [] \<or> len \<le> ELA_MAX_ID_LEN then Inr (-1, None, snd (n_fail w (ELA_GENERAL_ERROR ELAERR_INVALID_ARGS)))
      else if \<not> n_is_ready w then Inr (-1, None, snd (n_fail w (ELA_GENERAL_ERROR ELAERR_NOT_READY)))
      else (case node_get_friend_number env w friendid of (rc, friend_number) \<Rightarrow>
        if sint rc < 0 then Inr (-1, None, snd (n_fail w rc))
        else
          bindr (dht_group_join C (n_tox w) friend_number cookie) (\<lambda>(rc, group_number, t).
          let w = w\<lparr> n_tox := t \<rparr> in
          if sint rc < 0 then Inr (-1, None, snd (n_fail w rc)) else new_group_id env C w group_number len)))"

definition ela_group_send_message :: "'t node_env \<Rightarrow> 't conf_lib \<Rightarrow> 't node \<Rightarrow> string \<Rightarrow> byte list \<Rightarrow> (int \<times> 't node) res" where
  "ela_group_send_message env C w groupid msg =
     on_group env C w groupid (msg \<noteq> [] \<and> length msg \<le> ELA_MAX_APP_MESSAGE_LEN) (\<lambda>group_number.
     bindr (dht_group_send_message C (n_tox w) group_number msg) (\<lambda>(rc, t). Inr (rc, w\<lparr> n_tox := t \<rparr>)))"

text \<open>The array of the user has \<open>len\<close> bytes.\<close>

definition ela_group_get_title :: "'t node_env \<Rightarrow> 't conf_lib \<Rightarrow> 't node \<Rightarrow> string \<Rightarrow> nat \<Rightarrow> (int \<times> byte list option \<times> 't node) res" where
  "ela_group_get_title env C w groupid len =
     (if groupid = [] \<or> len = 0 then Inr (-1, None, snd (n_fail w (ELA_GENERAL_ERROR ELAERR_INVALID_ARGS)))
      else if \<not> n_is_ready w then Inr (-1, None, snd (n_fail w (ELA_GENERAL_ERROR ELAERR_NOT_READY)))
      else (case get_group_number env C w groupid of (rc, group_number) \<Rightarrow>
        if sint rc < 0 then Inr (-1, None, snd (n_fail w rc))
        else
          bindr (dht_group_get_title C (n_tox w) group_number (replicate len 0)) (\<lambda>(rc, title).
          Inr (if sint rc < 0 then (-1, None, snd (n_fail w rc)) else (0, Some title, w)))))"

text \<open>
  \<open>stack\<close> is the array \<open>buf\<close> before it is written. \<open>strcmp\<close> compares as many bytes as the string \<open>title\<close> has, with its end, or fewer.
\<close>

definition ela_group_set_title :: "'t node_env \<Rightarrow> 't conf_lib \<Rightarrow> 't node \<Rightarrow> byte list \<Rightarrow> string \<Rightarrow> string \<Rightarrow> (int \<times> 't node) res" where
  "ela_group_set_title env C w stack groupid title =
     on_group env C w groupid (title \<noteq> [] \<and> length title \<le> ELA_MAX_GROUP_TITLE_LEN) (\<lambda>group_number.
     bindr (dht_group_get_title C (n_tox w) group_number stack) (\<lambda>(rc, buf).
     if sint rc < 0 then Inr (rc, w)
     else if sint rc > 1 \<and> take (length title + 1) buf = cstring title then Inr (0, w)
     else bindr (dht_group_set_title C (n_tox w) group_number (cstring title)) (\<lambda>(rc, t). Inr (rc, w\<lparr> n_tox := t \<rparr>))))"

record ElaGroupPeer =
  gp_name :: "byte list"
  gp_userid :: string

text \<open>The peers that the callback of the user gets, and the end of the list; \<open>stack\<close> is the name of \<open>peer\<close> before it is written.\<close>

fun get_peers_loop ::
    "'t node_env \<Rightarrow> 't conf_lib \<Rightarrow> 't \<Rightarrow> (u32 \<Rightarrow> byte list) \<Rightarrow> (ElaGroupPeer option \<Rightarrow> bool) \<Rightarrow> u32 \<Rightarrow> u32 list \<Rightarrow> ElaGroupPeer option list res" where
  "get_peers_loop env C t stack callback g [] = Inr [None]"
| "get_peers_loop env C t stack callback g (i # is) =
     bindr (dht_group_get_peer_name C t g i (stack i)) (\<lambda>(rc, name).
     if sint rc < 0 then get_peers_loop env C t stack callback g is
     else
       (let name = (if rc = 0 then name[0 := 0] else name) in
        bindr (dht_group_get_peer_public_key C t g i) (\<lambda>(rc, public_key).
        if sint rc < 0 then get_peers_loop env C t stack callback g is
        else (case ne_base58_encode env public_key (ELA_MAX_ID_LEN + 1) of
          None \<Rightarrow> get_peers_loop env C t stack callback g is
        | Some userid \<Rightarrow>
            let peer = Some \<lparr> gp_name = name, gp_userid = userid \<rparr> in
            if callback peer then bindr (get_peers_loop env C t stack callback g is) (\<lambda>ps. Inr (peer # ps)) else Inr [peer]))))"

definition peer_numbers :: "u32 \<Rightarrow> u32 list" where
  "peer_numbers n = map of_nat [0..<unat n]"

definition ela_group_get_peers ::
    "'t node_env \<Rightarrow> 't conf_lib \<Rightarrow> 't node \<Rightarrow> (u32 \<Rightarrow> byte list) \<Rightarrow> string \<Rightarrow> (ElaGroupPeer option \<Rightarrow> bool) \<Rightarrow>
     (int \<times> ElaGroupPeer option list \<times> 't node) res" where
  "ela_group_get_peers env C w stack groupid callback =
     (let fail = (\<lambda>e. Inr (-1, [], snd (n_fail w e))) in
      if groupid = [] then fail (ELA_GENERAL_ERROR ELAERR_INVALID_ARGS)
      else if \<not> n_is_ready w then fail (ELA_GENERAL_ERROR ELAERR_NOT_READY)
      else (case get_group_number env C w groupid of (rc, group_number) \<Rightarrow>
        if sint rc < 0 then fail rc
        else
          bindr (dht_group_peer_count C (n_tox w) group_number) (\<lambda>(rc, peer_count).
          if sint rc < 0 then fail rc
          else
            bindr (get_peers_loop env C (n_tox w) stack callback group_number (peer_numbers peer_count)) (\<lambda>ps. Inr (0, ps, w)))))"

text \<open>The number of the peer with a key.\<close>

fun find_peer :: "'t conf_lib \<Rightarrow> 't \<Rightarrow> u32 \<Rightarrow> byte list \<Rightarrow> u32 list \<Rightarrow> u32 option res" where
  "find_peer C t g peerpk [] = Inr None"
| "find_peer C t g peerpk (i # is) =
     bindr (dht_group_get_peer_public_key C t g i) (\<lambda>(rc, public_key).
     if sint rc < 0 \<or> public_key \<noteq> peerpk then find_peer C t g peerpk is else Inr (Some i))"

definition ela_group_get_peer ::
    "'t node_env \<Rightarrow> 't conf_lib \<Rightarrow> 't node \<Rightarrow> string \<Rightarrow> string \<Rightarrow> (int \<times> ElaGroupPeer option \<times> 't node) res" where
  "ela_group_get_peer env C w groupid peerid =
     (let fail = (\<lambda>e. Inr (-1, None, snd (n_fail w e))) in
      if groupid = [] \<or> peerid = [] then fail (ELA_GENERAL_ERROR ELAERR_INVALID_ARGS)
      else case ne_base58_decode env peerid of None \<Rightarrow> fail (ELA_GENERAL_ERROR ELAERR_INVALID_ARGS)
      | Some peerpk \<Rightarrow>
          if length peerpk \<noteq> DHT_PUBLIC_KEY_SIZE then fail (ELA_GENERAL_ERROR ELAERR_INVALID_ARGS)
          else if \<not> n_is_ready w then fail (ELA_GENERAL_ERROR ELAERR_NOT_READY)
          else (case get_group_number env C w groupid of (rc, group_number) \<Rightarrow>
            if sint rc < 0 then fail rc
            else
              bindr (dht_group_peer_count C (n_tox w) group_number) (\<lambda>(rc, peer_count).
              if sint rc < 0 then fail rc
              else
                bindr (find_peer C (n_tox w) group_number peerpk (peer_numbers peer_count)) (\<lambda>io.
                case io of None \<Rightarrow> fail (ELA_GENERAL_ERROR ELAERR_NOT_EXIST)
                | Some i \<Rightarrow>
                    bindr (dht_group_get_peer_name C (n_tox w) group_number i (replicate (ELA_MAX_USER_NAME_LEN + 1) 0)) (\<lambda>(rc, name).
                    if sint rc < 0 then fail rc
                    else bindr (copy_str (ELA_MAX_ID_LEN + 1) peerid) (\<lambda>peerid.
                      Inr (0, Some \<lparr> gp_name = name, gp_userid = peerid \<rparr>, w)))))))"

fun get_groups_loop :: "'t node_env \<Rightarrow> 't conf_lib \<Rightarrow> 't node \<Rightarrow> (string option \<Rightarrow> bool) \<Rightarrow> u32 list \<Rightarrow> (string option list \<times> 't node) res" where
  "get_groups_loop env C w callback [] = Inr ([None], w)"
| "get_groups_loop env C w callback (g # gs) =
     bindr (get_groupid_by_number env C w g (ELA_MAX_ID_LEN + 1)) (\<lambda>(rc, groupid, w).
     if sint rc < 0 then get_groups_loop env C w callback gs
     else if callback (Some groupid) then
       bindr (get_groups_loop env C w callback gs) (\<lambda>(ids, w). Inr (Some groupid # ids, w))
     else Inr ([Some groupid], w))"

definition ela_get_groups :: "'t node_env \<Rightarrow> 't conf_lib \<Rightarrow> 't node \<Rightarrow> (string option \<Rightarrow> bool) \<Rightarrow> (int \<times> string option list \<times> 't node) res" where
  "ela_get_groups env C w callback =
     (if \<not> n_is_ready w then Inr (-1, [], snd (n_fail w (ELA_GENERAL_ERROR ELAERR_NOT_READY)))
      else if dht_get_group_count C (n_tox w) = 0 then Inr (0, [None], w)
      else bindr (get_groups_loop env C w callback (dht_get_group_list C (n_tox w))) (\<lambda>(ids, w). Inr (0, ids, w)))"

end
