(* ===== verification/Conference_Spec.thy ===== *)
theory Conference_Spec
  imports Conference Friends_Demo
begin

text \<open>
  Properties of groups: a new group is found by its id, or there is no new group; a title that is set is read back, as long as the title before is
  a C string.
\<close>

section \<open>What is assumed of the library\<close>

text \<open>
  \<open>gr\<close> is the groups of a state of the library, with their keys: keys are found, no two groups have the same key, a new group has a new number, and a
  group that exists can be left.
\<close>

definition conf_ok :: "'t conf_lib \<Rightarrow> ('t \<Rightarrow> u32 \<rightharpoonup> byte list) \<Rightarrow> bool" where
  "conf_ok C gr \<longleftrightarrow>
     (\<forall>t. tox_conference_get_id C t = gr t) \<and>
     (\<forall>t k e n. tox_conference_by_id C t k = (e, n) \<longrightarrow>
        (if e = TOX_ERR_CONFERENCE_BY_ID_OK then gr t n = Some k else k \<notin> ran (gr t))) \<and>
     (\<forall>t n k m. gr t n = Some k \<and> gr t m = Some k \<longrightarrow> n = m) \<and>
     (\<forall>t n k. gr t n = Some k \<longrightarrow> n \<noteq> -1 \<and> length k = DHT_PUBLIC_KEY_SIZE) \<and>
     (\<forall>t e n t'. tox_conference_new C t = (e, n, t') \<longrightarrow>
        (if e = TOX_ERR_CONFERENCE_NEW_OK then gr t n = None \<and> (\<exists>k. gr t' = (gr t)(n \<mapsto> k)) else gr t' = gr t)) \<and>
     (\<forall>t n e t'. tox_conference_delete C t n = (e, t') \<longrightarrow>
        (if gr t n = None then e \<noteq> TOX_ERR_CONFERENCE_DELETE_OK \<and> gr t' = gr t
         else e = TOX_ERR_CONFERENCE_DELETE_OK \<and> gr t' = (gr t)(n := None)))"

text \<open>The title of a group; a title that was set is the title, and titles have at most 128 bytes.\<close>

definition title_of :: "'t conf_lib \<Rightarrow> 't \<Rightarrow> u32 \<Rightarrow> byte list \<Rightarrow> bool" where
  "title_of C t n bs \<longleftrightarrow> tox_conference_get_title_size C t n = (TOX_ERR_CONFERENCE_TITLE_OK, length bs) \<and>
     tox_conference_get_title C t n = (TOX_ERR_CONFERENCE_TITLE_OK, bs) \<and> length bs \<le> ELA_MAX_GROUP_TITLE_LEN + 1"

definition conf_title_ok :: "'t conf_lib \<Rightarrow> ('t \<Rightarrow> u32 \<rightharpoonup> byte list) \<Rightarrow> bool" where
  "conf_title_ok C gr \<longleftrightarrow> (\<forall>t n x t'. tox_conference_set_title C t n x = (TOX_ERR_CONFERENCE_TITLE_OK, t') \<and>
     length x \<le> ELA_MAX_GROUP_TITLE_LEN + 1 \<longrightarrow> title_of C t' n x \<and> gr t' = gr t)"

text \<open>Base 58 needs no more than the array for an id.\<close>

definition base58_sizes :: "'t node_env \<Rightarrow> bool" where
  "base58_sizes env \<longleftrightarrow> (\<forall>k len. length k = DHT_PUBLIC_KEY_SIZE \<and> ELA_MAX_ID_LEN + 1 \<le> len \<longrightarrow>
     ne_base58_encode env k len = ne_base58_encode env k (ELA_MAX_ID_LEN + 1))"

lemma group_codes [simp]:
  "sint (dht_group_number_by_public_key_error e1) < 0 \<longleftrightarrow> e1 \<noteq> TOX_ERR_CONFERENCE_BY_ID_OK"
  "sint (dht_group_new_error e2) < 0 \<longleftrightarrow> e2 \<noteq> TOX_ERR_CONFERENCE_NEW_OK"
  "sint (dht_group_delete_error e3) < 0 \<longleftrightarrow> e3 \<noteq> TOX_ERR_CONFERENCE_DELETE_OK"
  "sint (dht_group_title_error e4) < 0 \<longleftrightarrow> e4 \<noteq> TOX_ERR_CONFERENCE_TITLE_OK"
  by (cases e1, simp_all) (cases e2, simp_all, cases e3, simp_all, cases e4, simp_all)

lemma group_keys:
  assumes "conf_ok C gr" "gr t n = Some k"
  shows "n \<noteq> -1" "length k = DHT_PUBLIC_KEY_SIZE" "tox_conference_get_id C t n = Some k" "gr t m = Some k \<Longrightarrow> m = n"
  using assms unfolding conf_ok_def by metis+

lemma group_made:
  assumes "conf_ok C gr" "tox_conference_new C t = (e, n, t')"
  shows "if e = TOX_ERR_CONFERENCE_NEW_OK then gr t n = None \<and> (\<exists>k. gr t' = (gr t)(n \<mapsto> k)) else gr t' = gr t"
  using assms unfolding conf_ok_def by blast

lemma group_number:
  assumes "conf_ok C gr" "gr (n_tox w) n = Some k" "ne_base58_decode env s = Some k"
  shows "get_group_number env C w s = (0, n)"
proof -
  note k = group_keys [OF assms(1,2)]
  obtain e m where f: "tox_conference_by_id C (n_tox w) k = (e, m)" by fastforce
  have "k \<in> ran (gr (n_tox w))" using assms(2) by (auto simp: ran_def)
  then have "e = TOX_ERR_CONFERENCE_BY_ID_OK" "gr (n_tox w) m = Some k"
    using f assms(1) unfolding conf_ok_def by metis+
  then show ?thesis using f k assms(3) by (simp add: get_group_number_def dht_group_number_by_public_key_def)
qed

section \<open>Groups come and go\<close>

lemma group_leave:
  assumes "conf_ok C gr" "gr (n_tox w) n = Some k" "ne_base58_decode env s = Some k" "s \<noteq> []" "n_is_ready w"
  shows "\<exists>w'. ela_leave_group env C w s = Inr (0, w') \<and> gr (n_tox w') = (gr (n_tox w))(n := None)"
proof -
  obtain e t where d: "tox_conference_delete C (n_tox w) n = (e, t)" by fastforce
  then have "e = TOX_ERR_CONFERENCE_DELETE_OK" "gr t = (gr (n_tox w))(n := None)"
    using assms(1,2) unfolding conf_ok_def by (metis option.distinct(1))+
  then show ?thesis
    using assms(4,5) d group_keys(1) [OF assms(1,2)] group_number [OF assms(1-3)]
    by (simp add: ela_leave_group_def on_group_def dht_group_leave_def)
qed

text \<open>
  C31. A new group: either \<open>ela_new_group\<close> returns 0 and the library has one more group, which is found by the id that is returned and can be left by
  it, after which the groups are those of before; or it returns -1 and no group was made.
\<close>

theorem group_new_leave:
  assumes "conf_ok C gr" "base58_ok env" "base58_sizes env"
  shows "\<exists>rc ido w'. ela_new_group env C w len = Inr (rc, ido, w') \<and>
    (rc = -1 \<and> ido = None \<and> gr (n_tox w') = gr (n_tox w) \<or>
     (\<exists>n k s. rc = 0 \<and> ido = Some s \<and> gr (n_tox w) n = None \<and> gr (n_tox w') = (gr (n_tox w))(n \<mapsto> k) \<and>
       get_group_number env C w' s = (0, n) \<and>
       (\<exists>w''. ela_leave_group env C w' s = Inr (0, w'') \<and> gr (n_tox w'') = gr (n_tox w))))"
proof (cases "len \<le> ELA_MAX_ID_LEN \<or> \<not> n_is_ready w")
  case True
  then show ?thesis by (auto simp: ela_new_group_def n_fail_def)
next
  case False
  obtain e n t where new: "tox_conference_new C (n_tox w) = (e, n, t)" by (metis prod_cases3)
  show ?thesis
  proof (cases "e = TOX_ERR_CONFERENCE_NEW_OK")
    case no: False
    then have "gr t = gr (n_tox w)" using group_made [OF assms(1) new] by simp
    then show ?thesis using False no new by (simp add: ela_new_group_def dht_group_new_def Let_def n_fail_def)
  next
    case True
    then obtain k where k: "gr (n_tox w) n = None" "gr t = (gr (n_tox w))(n \<mapsto> k)"
      using group_made [OF assms(1) new] by auto
    then have tk: "gr t n = Some k" by simp
    note key = group_keys [OF assms(1) tk]
    let ?s = "key_text env k (ELA_MAX_ID_LEN + 1)" and ?w = "w\<lparr> n_tox := t \<rparr>"
    have "ne_base58_encode env k len = ne_base58_encode env k (ELA_MAX_ID_LEN + 1)"
      using assms(3) key(2) False unfolding base58_sizes_def by (metis Suc_eq_plus1 not_less_eq_eq)
    then have "key_text env k len = ?s" by (simp add: key_text_def)
    then have r: "ela_new_group env C w len = Inr (0, Some ?s, ?w)"
      using False True new key(1,3)
      by (simp add: ela_new_group_def dht_group_new_def new_group_id_def get_groupid_by_number_def dht_group_get_public_key_def)
    note s = base58_key [OF assms(2) key(2)]
    have num: "get_group_number env C ?w ?s = (0, n)" by (rule group_number [OF assms(1) _ s(1)]) (simp add: tk)
    obtain w'' where "ela_leave_group env C ?w ?s = Inr (0, w'')" "gr (n_tox w'') = (gr t)(n := None)"
      using group_leave [OF assms(1) _ s(1,3), of ?w n] tk False by auto
    moreover have "(gr t)(n := None) = gr (n_tox w)" using k by (auto simp: fun_eq_iff)
    ultimately show ?thesis using r k num by auto
  qed
qed

section \<open>Titles\<close>

lemma copy_title: "length bs \<le> length buf \<Longrightarrow> copy_bytes buf 0 bs = Inr (bs @ drop (length bs) buf)"
  by (simp add: copy_bytes_def)

lemma get_title_eq:
  assumes "title_of C t n bs" "n \<noteq> -1" "length buf = ELA_MAX_GROUP_TITLE_LEN + 1"
  shows "dht_group_get_title C t n buf = Inr (of_nat (length bs), bs @ drop (length bs) buf)"
proof -
  have "buf \<noteq> []" using assms(3) by auto
  then show ?thesis using assms by (simp add: title_of_def dht_group_get_title_def copy_title)
qed

lemma title_len: "length bs \<le> ELA_MAX_GROUP_TITLE_LEN + 1 \<Longrightarrow> sint (of_nat (length bs) :: u32) = int (length bs)"
  by (simp add: signed_of_nat signed_take_bit_int_eq_self ELA_MAX_GROUP_TITLE_LEN_def)

text \<open>A title with an end that \<open>strcmp\<close> finds equal to a string starts with the string.\<close>

lemma title_prefix:
  assumes "no_nul s" "take (length s + 1) (old @ d) = cstring s" "0 \<in> set old"
  shows "\<exists>z. old = cstring s @ z"
proof (cases "length s + 1 \<le> length old")
  case True
  then have "take (length s + 1) old = cstring s" using assms(2) by simp
  then show ?thesis by (metis append_take_drop_id)
next
  case False
  then have "old = take (length old) (take (length s + 1) (old @ d))" by (simp add: take_append)
  also have "\<dots> = take (length old) (map of_char s)" using False unfolding assms(2) by (simp add: cstring_def)
  finally have "set old \<subseteq> set (map of_char s)" by (metis set_take_subset)
  then show ?thesis using assms(1,3) by (auto simp: no_nul_def of_char_zero)
qed

lemma get_title_user:
  assumes "conf_ok C gr" "gr (n_tox w) n = Some k" "ne_base58_decode env s = Some k" "s \<noteq> []" "n_is_ready w" "no_nul title"
    and "title_of C (n_tox w) n (cstring title @ z)"
  shows "\<exists>buf. ela_group_get_title env C w s (ELA_MAX_GROUP_TITLE_LEN + 1) = Inr (0, Some buf, w) \<and> read_c_string buf 0 = Inr (map of_char title)"
proof -
  let ?bs = "cstring title @ z" and ?zero = "replicate (ELA_MAX_GROUP_TITLE_LEN + 1) (0 :: byte)"
  have "length ?bs \<le> ELA_MAX_GROUP_TITLE_LEN + 1" using assms(7) by (simp add: title_of_def)
  from title_len [OF this] have len: "\<not> sint (of_nat (length ?bs) :: u32) < 0" by simp
  have "dht_group_get_title C (n_tox w) n ?zero = Inr (of_nat (length ?bs), ?bs @ drop (length ?bs) ?zero)"
    by (rule get_title_eq [OF assms(7) group_keys(1) [OF assms(1,2)]]) simp
  then have "ela_group_get_title env C w s (ELA_MAX_GROUP_TITLE_LEN + 1) = Inr (0, Some (?bs @ drop (length ?bs) ?zero), w)"
    using assms(4,5) group_number [OF assms(1-3)] len by (simp add: ela_group_get_title_def del: length_append of_nat_add replicate_Suc)
  moreover have "read_c_string (?bs @ drop (length ?bs) ?zero) 0 = Inr (map of_char title)"
    using read_c_string_at [OF assms(6), of 0 "[]"] by simp
  ultimately show ?thesis by blast
qed

text \<open>
  C32. A title that is set is the title that is read: after \<open>ela_group_set_title\<close> returns 0, also if it found that the group has the title already,
  \<open>ela_group_get_title\<close> gives the title, with its end, provided that the title before was one with an end.
\<close>

theorem group_title_roundtrip:
  assumes "conf_ok C gr" "conf_title_ok C gr" "gr (n_tox w) n = Some k" "ne_base58_decode env s = Some k" "n_is_ready w"
    and "no_nul title" "length stack = ELA_MAX_GROUP_TITLE_LEN + 1"
    and "title_of C (n_tox w) n old" "0 \<in> set old"
    and "ela_group_set_title env C w stack s title = Inr (0, w')"
  shows "\<exists>buf. ela_group_get_title env C w' s (ELA_MAX_GROUP_TITLE_LEN + 1) = Inr (0, Some buf, w') \<and> read_c_string buf 0 = Inr (map of_char title)"
proof -
  have num: "get_group_number env C w s = (0, n)" by (rule group_number [OF assms(1,3,4)])
  have n: "n \<noteq> -1" by (rule group_keys(1) [OF assms(1,3)])
  have s: "s \<noteq> []" "title \<noteq> []" "length title \<le> ELA_MAX_GROUP_TITLE_LEN"
    using assms(10) by (auto simp: ela_group_set_title_def on_group_def n_fail_def split: if_splits)
  have "length old \<le> ELA_MAX_GROUP_TITLE_LEN + 1" using assms(8) by (simp add: title_of_def)
  from title_len [OF this] have len: "\<not> sint (of_nat (length old) :: u32) < 0" by simp
  let ?buf = "old @ drop (length old) stack"
  note get = get_title_eq [OF assms(8) n assms(7)]
  show ?thesis
  proof (cases "sint (of_nat (length old) :: u32) > 1 \<and> take (length title + 1) ?buf = cstring title")
    case True
    then have "w' = w" using assms(5,10) num s get len by (simp add: ela_group_set_title_def on_group_def)
    moreover obtain z where "old = cstring title @ z" using title_prefix [OF assms(6) _ assms(9)] True by blast
    ultimately show ?thesis using get_title_user [OF assms(1,3,4) s(1) assms(5,6)] assms(8) by blast
  next
    case False
    obtain e t where set: "tox_conference_set_title C (n_tox w) n (cstring title) = (e, t)" by fastforce
    then have w': "e = TOX_ERR_CONFERENCE_TITLE_OK" "w' = w\<lparr> n_tox := t \<rparr>"
      using assms(5,10) num s get len False n
      by (auto simp: ela_group_set_title_def on_group_def dht_group_set_title_def n_fail_def simp del: of_nat_Suc split: if_splits)
    then have t: "title_of C t n (cstring title @ [])" "gr t = gr (n_tox w)"
      using assms(2) set s(3) unfolding conf_title_ok_def by (metis add_le_cancel_right append_Nil2 length_cstring)+
    show ?thesis
      unfolding w'(2) by (rule get_title_user [OF assms(1) _ assms(4) s(1) _ assms(6), where z = "[]"]) (use t assms(3,5) in simp_all)
  qed
qed

text \<open>
  C40. The array that the old title is read into is not initialised: if the title before, set by another program, has no end, and the bytes that
  happen to follow it in the array make it equal to the new title, \<open>ela_group_set_title\<close> returns 0 and does not set the title.
\<close>

theorem title_not_set:
  assumes "conf_ok C gr" "gr (n_tox w) n = Some k" "ne_base58_decode env s = Some k" "s \<noteq> []" "n_is_ready w"
    and "title_of C (n_tox w) n old" "length old > 1" "map of_char title = old @ ext" "ext \<noteq> []" "length title \<le> ELA_MAX_GROUP_TITLE_LEN"
    and "length stack = ELA_MAX_GROUP_TITLE_LEN + 1" "drop (length old) stack = ext @ 0 # rest"
  shows "ela_group_set_title env C w stack s title = Inr (0, w) \<and> old \<noteq> map of_char title"
proof -
  have num: "get_group_number env C w s = (0, n)" by (rule group_number [OF assms(1-3)])
  have n: "n \<noteq> -1" by (rule group_keys(1) [OF assms(1,2)])
  have "length old \<le> ELA_MAX_GROUP_TITLE_LEN + 1" using assms(6) by (simp add: title_of_def)
  from title_len [OF this] have len: "sint (of_nat (length old) :: u32) = int (length old)" .
  have "length title = length old + length ext" by (metis assms(8) length_append length_map)
  then have "take (length title + 1) (old @ drop (length old) stack) = cstring title" "title \<noteq> []"
    using assms(7,8) by (auto simp: assms(12) cstring_def)
  then show ?thesis
    using assms(4,5,7-10) num get_title_eq [OF assms(6) n assms(11)] len by (simp add: ela_group_set_title_def on_group_def)
qed

section \<open>Examples\<close>

definition demo_gr :: "demo_state \<Rightarrow> u32 \<rightharpoonup> byte list" where
  "demo_gr t n = (if n = 0 then (case dt_group t of None \<Rightarrow> None | Some k \<Rightarrow> if length k = DHT_PUBLIC_KEY_SIZE then Some k else None) else None)"

definition demo_conf :: "demo_state conf_lib" where
  "demo_conf = \<lparr>
     tox_conference_get_id = demo_gr,
     tox_conference_by_id = \<lambda>t k. if demo_gr t 0 = Some k then (TOX_ERR_CONFERENCE_BY_ID_OK, 0) else (TOX_ERR_CONFERENCE_BY_ID_NOT_FOUND, -1),
     tox_conference_new = \<lambda>t. if demo_gr t 0 = None then (TOX_ERR_CONFERENCE_NEW_OK, 0, t\<lparr> dt_group := Some (replicate 32 5) \<rparr>)
       else (TOX_ERR_CONFERENCE_NEW_INIT, -1, t),
     tox_conference_delete = \<lambda>t n. if demo_gr t n = None then (TOX_ERR_CONFERENCE_DELETE_CONFERENCE_NOT_FOUND, t)
       else (TOX_ERR_CONFERENCE_DELETE_OK, t\<lparr> dt_group := None \<rparr>),
     tox_conference_invite = \<lambda>t f n. (TOX_ERR_CONFERENCE_INVITE_OK, t),
     tox_conference_join = \<lambda>t f c. (TOX_ERR_CONFERENCE_JOIN_INIT_FAIL, -1, t),
     tox_conference_send_message = \<lambda>t n m. (TOX_ERR_CONFERENCE_SEND_MESSAGE_OK, t),
     tox_conference_get_title_size = \<lambda>t n. (TOX_ERR_CONFERENCE_TITLE_OK, length (dt_title t)),
     tox_conference_get_title = \<lambda>t n. (TOX_ERR_CONFERENCE_TITLE_OK, dt_title t),
     tox_conference_set_title = \<lambda>t n x. (TOX_ERR_CONFERENCE_TITLE_OK, t\<lparr> dt_title := x \<rparr>),
     tox_conference_peer_count = \<lambda>t n. (TOX_ERR_CONFERENCE_PEER_QUERY_OK, 0),
     tox_conference_peer_get_name_size = \<lambda>t n i. (TOX_ERR_CONFERENCE_PEER_QUERY_PEER_NOT_FOUND, 0),
     tox_conference_peer_get_name = \<lambda>t n i. (TOX_ERR_CONFERENCE_PEER_QUERY_PEER_NOT_FOUND, []),
     tox_conference_peer_get_public_key = \<lambda>t n i. (TOX_ERR_CONFERENCE_PEER_QUERY_PEER_NOT_FOUND, []),
     tox_conference_get_chatlist = \<lambda>t. if demo_gr t 0 = None then [] else [0] \<rparr>"

lemma demo_conf_ok: "conf_ok demo_conf demo_gr"
  unfolding conf_ok_def
  by (intro conjI allI impI)
    (auto simp: demo_conf_def demo_gr_def ran_def fun_eq_iff DHT_PUBLIC_KEY_SIZE_def split: if_splits option.splits)

lemma demo_title_ok: "conf_title_ok demo_conf demo_gr"
  by (auto simp: conf_title_ok_def title_of_def demo_conf_def demo_gr_def fun_eq_iff)

lemma demo_sizes: "base58_sizes (demo_nenv desc ps)"
  by (simp add: base58_sizes_def demo_nenv_def)

theorem group_new_leave_witness:
  "\<exists>s w'. ela_new_group (demo_nenv [] []) demo_conf (demo_node demo_init) 46 = Inr (0, Some s, w') \<and>
    (\<exists>w''. ela_leave_group (demo_nenv [] []) demo_conf w' s = Inr (0, w'') \<and> demo_gr (n_tox w'') = demo_gr demo_init)"
proof -
  let ?env = "demo_nenv [] []" and ?w = "demo_node demo_init"
  have "\<exists>ido w'. ela_new_group ?env demo_conf ?w 46 = Inr (0, ido, w')"
    by (simp add: ela_new_group_def dht_group_new_def new_group_id_def get_groupid_by_number_def dht_group_get_public_key_def demo_conf_def demo_gr_def
        demo_node_def demo_init_def DHT_PUBLIC_KEY_SIZE_def ELA_MAX_ID_LEN_def)
  moreover have "n_tox ?w = demo_init" by (simp add: demo_node_def)
  ultimately show ?thesis
    using group_new_leave [OF demo_conf_ok demo_base58 demo_sizes, of "[]" "[]" ?w 46] by auto
qed

definition demo_titled :: "string \<Rightarrow> demo_state node" where
  "demo_titled old = demo_node (demo_init\<lparr> dt_group := Some (replicate 32 5), dt_title := map of_char old \<rparr>)"

lemma demo_group_id:
  "ne_base58_decode (demo_nenv [] []) (string_of (replicate 32 5)) = Some (replicate 32 5)" "string_of (replicate 32 5) \<noteq> []"
  by (simp add: demo_nenv_def string_of_bytes) (simp add: string_of_def)

lemma demo_titled_laws:
  "demo_gr (n_tox (demo_titled old)) 0 = Some (replicate 32 5)" "n_is_ready (demo_titled old)"
  "length old \<le> 128 \<Longrightarrow> title_of demo_conf (n_tox (demo_titled old)) 0 (map of_char old)"
  by (simp_all add: demo_titled_def demo_node_def demo_gr_def DHT_PUBLIC_KEY_SIZE_def title_of_def demo_conf_def ELA_MAX_GROUP_TITLE_LEN_def)

theorem group_title_roundtrip_witness:
  "\<exists>w' buf. ela_group_set_title (demo_nenv [] []) demo_conf (demo_titled [CHR ''a'', CHR 0x00]) (replicate 128 1) (string_of (replicate 32 5)) ''new'' =
      Inr (0, w') \<and>
    ela_group_get_title (demo_nenv [] []) demo_conf w' (string_of (replicate 32 5)) 128 = Inr (0, Some buf, w') \<and>
    read_c_string buf 0 = Inr (map of_char ''new'')"
proof -
  let ?env = "demo_nenv [] []" and ?w = "demo_titled [CHR ''a'', CHR 0x00]" and ?s = "string_of (replicate 32 5 :: byte list)"
  note laws = demo_titled_laws [of "[CHR ''a'', CHR 0x00]"]
  have t: "title_of demo_conf (n_tox ?w) 0 [of_char CHR ''a'', 0]" using laws(3) by simp
  have get: "dht_group_get_title demo_conf (n_tox ?w) 0 (replicate 128 1) = Inr (2, [of_char CHR ''a'', 0] @ replicate 126 1)"
    using get_title_eq [OF t, of "replicate 128 1"] by (simp add: ELA_MAX_GROUP_TITLE_LEN_def)
  have set: "\<exists>t. dht_group_set_title demo_conf (n_tox ?w) 0 x = Inr (0, t)" for x
    by (simp add: dht_group_set_title_def demo_conf_def)
  have "[97, 0, 1, 1] \<noteq> cstring ''new''" by (simp add: cstring_def)
  then obtain w' where w': "ela_group_set_title ?env demo_conf ?w (replicate 128 1) ?s ''new'' = Inr (0, w')"
    using set [of "cstring ''new''"] group_number [OF demo_conf_ok laws(1) demo_group_id(1)] demo_group_id(2) laws(2) get
    by (auto simp: ela_group_set_title_def on_group_def ELA_MAX_GROUP_TITLE_LEN_def)
  then show ?thesis
    using group_title_roundtrip [OF demo_conf_ok demo_title_ok laws(1) demo_group_id(1) laws(2) _ _ t _ w'] by (simp add: ELA_MAX_GROUP_TITLE_LEN_def no_nul_def)
qed

theorem title_not_set_witness:
  "ela_group_set_title (demo_nenv [] []) demo_conf (demo_titled ''ab'') ([9, 9, of_char CHR ''c'', 0] @ replicate 124 9) (string_of (replicate 32 5)) ''abc'' =
     Inr (0, demo_titled ''ab'')"
proof -
  note laws = demo_titled_laws [of "''ab''"]
  have t: "title_of demo_conf (n_tox (demo_titled ''ab'')) 0 (map of_char ''ab'')" by (rule laws(3)) simp
  show ?thesis
    using title_not_set [OF demo_conf_ok laws(1) demo_group_id laws(2) t, of "''abc''" "[of_char CHR ''c'']" "[9, 9, of_char CHR ''c'', 0] @ replicate 124 9" "replicate 124 9"]
    by (simp add: ELA_MAX_GROUP_TITLE_LEN_def)
qed

end
