(* ===== verification/Spec2Isabelle.thy ===== *)
theory Spec2Isabelle
  imports Bugs Mux_Spec Mux_Bugs Crypto Requests Handlers Session_Run Invite_Safe FileTransfer_Run Friends_Spec Friends_Start Conference_Spec
begin

text \<open>
  Verification of the core of the Elastos Carrier native SDK: the reliable transport under its sessions, the
  multiplexing of channels, the sessions with their streams, the invitations that friends exchange, and the node with its friends and files.

  \<^bold>\<open>The program.\<close> A carrier node (\<open>src/carrier\<close>) talks to friends over the tox network. Friends exchange small packets
  (\<open>elacp.c\<close>): messages, invitations and answers (\<open>ela_carrier.c\<close>). The node has a table of its friends, tells them its profile and keeps both
  in files. The session extension (\<open>src/session\<close>) builds
  on invitations: a session has streams over ICE (\<open>session.c\<close>), a stream is a pipeline of handlers (\<open>stream_handler.h\<close>)
  that hand each other flexible buffers (\<open>flex_buffer.h\<close>). The options of a stream choose the handlers: encryption
  (\<open>crypto_handler.c\<close>), a reliable byte stream (\<open>reliable_handler.c\<close> over the pseudo-TCP of \<open>pseudotcp/\<close>), and
  the multiplexer (\<open>multiplex_handler.c\<close>) that carries many channels over the stream.

  \<^bold>\<open>Conventions.\<close> A C function that can abort returns \<open>'a res\<close> (theory \<open>Prelude\<close>): \<open>Inl\<close> names the failure
  (assertion, access outside a block, bad pointer, division by zero, endless loop), \<open>Inr\<close> is the result. Theorems with
  \<open>total\<close> or an equation with \<open>Inr\<close> say that the code returns; \<open>safely\<close> allows \<open>Diverges\<close> only. Integers have the width
  they have in C. Objects that the code shares are in heaps from addresses to records, with their reference counts.
  Libraries that are not in the repository (libcrystal, flatcc, libsodium, pjnath, toxcore, base 58) are parameters,
  and what the code relies on is a named predicate with an instance in the theory that introduces it.

  \<^bold>\<open>Pseudo-TCP.\<close>
  \<^item> \<open>SeqArith\<close>, \<open>Fifo\<close>: the arithmetic on wrapping sequence numbers and times; the ring buffer. Locale \<open>byte_queue\<close> is the contract: any
    sequence of its operations, those at an offset and the change of capacity included, simulates a queue of bytes with cells written ahead.
  \<^item> \<open>PTcp\<close>, \<open>PTcp_Send\<close>, \<open>PTcp_Process\<close>, \<open>PTcp_Api\<close>: all of \<open>pseudotcp.c\<close>. The large function \<open>process\<close> is cut at its
    comments. The loop of \<open>attempt_send\<close> has a bound of one round per byte and per segment and two more, since each
    round sends a segment, splits one or ends the loop.
  \<^item> \<open>PTcp_Wire\<close>: what \<open>packet\<close> writes \<open>parse\<close> reads; options are parsed within the segment.
  \<^item> \<open>PTcp_Recv\<close>: the receiver puts segments in any order together to a prefix of the stream, and to all of it
    once every byte has arrived.
  \<^item> \<open>PTcp_Inv\<close>, \<open>PTcp_Stream\<close>: locale \<open>tcp_invariant\<close>, the contract for a predicate to hold in every run, with three
    instances: the bounds of the time-out, the contents of the packets sent, the bytes the user reads.
  \<^item> \<open>Reliable\<close>, \<open>Runs\<close>, \<open>Bugs\<close>: the handler around the socket, whose upper neighbour may write and stop from its callbacks (\<open>patience\<close> bounds the
    retries of a write and the calls of a callback; a run has only steps that return), the theorems for its runs; evaluated runs; a general theorem on data that
    overtakes the connect message, and runs in which the code fails.

  \<^bold>\<open>Buffers, handlers, encryption.\<close> \<open>FlexBuffer\<close> has the buffers with their headroom for headers, \<open>Handlers\<close> the doubly
  linked pipeline as a refinement of a list, \<open>Crypto\<close> the encrypting handler: one side reads what the other wrote.

  \<^bold>\<open>Multiplexer.\<close>
  \<^item> \<open>Crystal\<close>: hash tables and heaps of numbers, with their laws.
  \<^item> \<open>Mux\<close>: \<open>multiplex_handler.c\<close> and \<open>channels.h\<close>, with all calls of the user and of the neighbours.
  \<^item> \<open>Mux_Inv\<close>: the invariant on channels, references and numbers; locale \<open>mux_callbacks\<close>, what is called may do anything that
    keeps the invariant.
  \<^item> \<open>Mux_Frame\<close>: packets cut out of a stream in pieces, against the reference \<open>deframe\<close>.
  \<^item> \<open>Mux_Run\<close>, \<open>Mux_Spec\<close>, \<open>Mux_Bugs\<close>: users that call back to any depth; the invariant and the absence of errors in all runs, nothing
    is leaked, channels connect, data arrives; defects.

  \<^bold>\<open>Sessions.\<close>
  \<^item> \<open>Requests\<close>: the callbacks registered for prefixes of a bundle; the longest prefix is chosen.
  \<^item> \<open>Session\<close>: streams, their numbers and references, channels and services of \<open>session.c\<close>; removing a stream stops its pipeline, which
    reports the state closed before it returns. Creating a multiplexer may fail; its error paths release a wrong pointer, and the theorems except this case.
  \<^item> \<open>Session_Inv\<close>, \<open>Session_Add\<close>, \<open>Session_Run\<close>: the invariant, with the pipeline that the options ask for and the invariant of each
    multiplexer (locale \<open>session_services\<close>); adding a stream adds all of it or none
    (only the flag for encryption may stay set); runs.

  \<^bold>\<open>Packets and invitations.\<close>
  \<^item> \<open>Ela\<close>: error codes and texts.
  \<^item> \<open>ElaCP\<close>: the packets, their accessors, encoding and decoding.
  \<^item> \<open>Invite\<close>: messages, invitations and answers, cut into fragments and assembled, with the tables of transactions.
  \<^item> \<open>Invite_Spec\<close>, \<open>Reply_Spec\<close>: an invitation and its answer arrive once, as they were given.
  \<^item> \<open>Invite_Safe\<close>: what packets of friends can and cannot do to the assemblies. Each allocation on the way (\<open>alloc_site\<close>) can fail on its own.

  \<^bold>\<open>Files and addresses.\<close>
  \<^item> \<open>Persist\<close>: the checks of addresses, and the files of a node: storing with a journal, loading, labels, converting the files of the old
    version. A disk has all states that its files were in; each system call may fail.
  \<^item> \<open>Persist_Spec\<close>: for sections of at most 16 MB and files that were in order, wherever the program stops while it stores, the old or the new data is loaded, and
    what is stored is loaded; larger sections are stored and lost; the change of one byte
    of an address is found.

  \<^bold>\<open>Friends.\<close>
  \<^item> \<open>Dht\<close>: the functions of \<open>dht.c\<close> with their error codes, over the tox library as a parameter with the law \<open>tox_friends_ok\<close>.
  \<^item> \<open>Friends\<close>: the table (\<open>friends.h\<close>), profiles, events of the network, functions of the user, and the start of a node, from \<open>ela_carrier.c\<close>.
  \<^item> \<open>Friends_Inv\<close>: the invariant \<open>node_ok\<close>, the table has exactly the friends of the library, and that each function keeps it.
  \<^item> \<open>Friends_Demo\<close>: a small library that has all the laws, for examples.
  \<^item> \<open>Friends_Spec\<close>, \<open>Friends_Start\<close>: runs; accepting and removing; profiles reach friends; a node started again is the node that was stored; what
    packets with long or unreadable profiles do.
  \<^item> \<open>Conference\<close>, \<open>Conference_Spec\<close>: the groups of \<open>ela_carrier.c\<close> and \<open>dht.c\<close> over the conferences of tox; a new group is found by its id or was not
    made; a title that was set is read back.

  \<^bold>\<open>File transfer\<close> (\<open>src/filetransfer\<close>).
  \<^item> \<open>FileTransfer\<close>: \<open>filetransfer.c\<close> with its tables, cookies and packets; the session below is a parameter.
  \<^item> \<open>FileTransfer_Spec\<close>: a file gets from the offer over the pull request to the data; defects.
  \<^item> \<open>FileTransfer_Run\<close>: locale \<open>ft_users\<close>, what the user's functions keep, with users that call any function of the transfer from their callbacks, to any
    depth; in every run each file keeps its own channel, as long as no channel is opened for a known file on a number that a released slot still holds (what happens then
    is the second theorem).

  \<^bold>\<open>Not modelled.\<close> ICE (\<open>ice.c\<close>) and port forwarding are calls of libraries, sockets and threads: their effects on the modelled parts are
  parameters. Of \<open>ela_carrier.c\<close>, the main loop and the TURN server are left out, of \<open>dht.c\<close> the functions that pass callbacks on, and of
  \<open>session.c\<close> the negotiation of a session. Locks are left out: each function is one step. The invitations of \<open>Invite\<close> and the table of \<open>Friends\<close> are
  parts of the same structure \<open>ElaCarrier\<close>, each with the fields it works on; \<open>Invite\<close> finds friends by a parameter. The numbers of streams
  belong to the extension in the code and to the session here, for one session. 
  Callbacks of the user of multiplexers and file transfers call back to any depth, except that a transfer is not ended from a callback other than that for its state, which
  would free it in use. Callbacks of the user of invitations, friends and groups, and that for the state of a stream, are recorded
  and do not call back: a call by the last callback of an event is the next input of a run, calls in between are not covered. The list functions in \<open>pseudotcp/\<close> are GLib's and are lists here. The simple file transfer (\<open>easyfile.c\<close>), the command line
  programs, tests and bindings are left out.
\<close>

end
